(* ===== verification/Prelude.thy ===== *)
theory Prelude
  imports Main "HOL-Library.Word"
begin

text \<open>
  The vocabulary every component shares: machine integers at the widths the C++ sources use,
  results that may be an error, byte strings, and the lemmas on lists, blocks and words that
  carry the component proofs. The simplification rules are collected in \<open>result_simps\<close> (error
  propagation), \<open>block_simps\<close> (equal-sized blocks of a linked list of buffers) and
  \<open>word_simps\<close> (words and their bytes).
\<close>

unbundle bit_operations_syntax

named_theorems result_simps
named_theorems block_simps
named_theorems word_simps

section \<open>Types\<close>

type_synonym byte = "8 word"
type_synonym u16 = "16 word"
type_synonym u32 = "32 word"
type_synonym u64 = "64 word"

section \<open>Results\<close>

text \<open>
  A C++ function that may throw, trip an assertion or run into undefined behaviour returns
  \<open>Inl e\<close> there and \<open>Inr v\<close> otherwise; \<open>bindr\<close> sequences two such functions.
\<close>

fun bindr :: "'e + 'a \<Rightarrow> ('a \<Rightarrow> 'e + 'b) \<Rightarrow> 'e + 'b" where
  "bindr (Inl e) f = Inl e"
| "bindr (Inr a) f = f a"

section \<open>Lists\<close>

text \<open>Overwriting a run of a list from position \<open>p\<close> on, extending it where the run is longer.\<close>

definition overwrite :: "nat \<Rightarrow> 'a list \<Rightarrow> 'a list \<Rightarrow> 'a list" where
  "overwrite p ys xs = take p xs @ ys @ drop (p + length ys) xs"

section \<open>Unsigned arithmetic on sizes\<close>

text \<open>
  A \<open>size_t\<close> is kept as a \<open>nat\<close>. The additions of the sources are on sizes of allocated
  memory and stay below \<open>2 ^ 64\<close>; a subtraction can go below zero, and \<open>usub\<close> is the 64-bit
  subtraction that wraps around there.
\<close>

definition size_max :: nat where
  "size_max = 2 ^ 64"

definition usub :: "nat \<Rightarrow> nat \<Rightarrow> nat" where
  "usub a b = (if b \<le> a then a - b else size_max - (b - a))"

text \<open>The quotient rounded up, which \<open>ceil\<close> of the floating-point quotient computes.\<close>

definition div_up :: "nat \<Rightarrow> nat \<Rightarrow> nat" where
  "div_up a b = (a + b - 1) div b"

section \<open>Lemmas on results\<close>

lemma bindr_eq_Inr [result_simps]: "bindr r f = Inr b \<longleftrightarrow> (\<exists>a. r = Inr a \<and> f a = Inr b)"
  by (cases r) auto

lemma bindr_eq_Inl [result_simps]:
  "bindr r f = Inl e \<longleftrightarrow> r = Inl e \<or> (\<exists>a. r = Inr a \<and> f a = Inl e)"
  by (cases r) auto

lemma bindr_assoc: "bindr (bindr r f) g = bindr r (\<lambda>x. bindr (f x) g)"
  by (cases r) auto

section \<open>Lemmas on lists\<close>

lemma length_overwrite [simp]:
  "p \<le> length xs \<Longrightarrow> length (overwrite p ys xs) = max (length xs) (p + length ys)"
  by (auto simp: overwrite_def)

lemma overwrite_Nil [simp]: "p \<le> length xs \<Longrightarrow> overwrite p [] xs = xs"
  by (simp add: overwrite_def)

lemma overwrite_append_left:
  "p + length ys \<le> length xs \<Longrightarrow> overwrite p ys (xs @ zs) = overwrite p ys xs @ zs"
  by (simp add: overwrite_def)

lemma overwrite_append_right:
  "overwrite (length xs + p) ys (xs @ zs) = xs @ overwrite p ys zs"
  by (simp add: overwrite_def)

lemma overwrite_overwrite:
  "p \<le> length xs \<Longrightarrow>
   overwrite (p + length ys) zs (overwrite p ys xs) = overwrite p (ys @ zs) xs"
  by (simp add: overwrite_def ac_simps)

lemma take_drop_overwrite: "p \<le> length xs \<Longrightarrow> take (length ys) (drop p (overwrite p ys xs)) = ys"
  by (simp add: overwrite_def)

lemma take_overwrite: "n \<le> p \<Longrightarrow> p \<le> length xs \<Longrightarrow> take n (overwrite p ys xs) = take n xs"
  by (simp add: overwrite_def min_def)

lemma drop_overwrite:
  "p + length ys \<le> n \<Longrightarrow> p \<le> length xs \<Longrightarrow> drop n (overwrite p ys xs) = drop n xs"
  by (simp add: overwrite_def)

lemma take_overwrite_extend:
  "p \<le> n \<Longrightarrow> n \<le> length xs \<Longrightarrow>
   take (max n (p + length ys)) (overwrite p ys xs) = overwrite p ys (take n xs)"
  by (auto simp: overwrite_def min_def max_def take_drop)

lemma length_concat_blocks [block_simps]:
  "\<forall>x\<in>set ns. length x = b \<Longrightarrow> length (concat ns) = length ns * b"
  by (induction ns) auto

lemma drop_concat_blocks [block_simps]:
  assumes "\<forall>x\<in>set ns. length x = b" "c < length ns" "k \<le> b"
  shows "drop (c * b + k) (concat ns) = drop k (ns ! c) @ concat (drop (Suc c) ns)"
  using assms
proof (induction ns arbitrary: c)
  case (Cons x ns)
  then show ?case by (cases c) auto
qed simp

lemma take_concat_blocks [block_simps]:
  assumes "\<forall>x\<in>set ns. length x = b" "c \<le> length ns"
  shows "take (c * b) (concat ns) = concat (take c ns)"
  using assms
proof (induction ns arbitrary: c)
  case (Cons x ns)
  then show ?case by (cases c) auto
qed simp

lemma overwrite_concat_blocks:
  assumes len: "\<forall>x\<in>set ns. length x = b" and c: "c < length ns" and k: "k + length ys \<le> b"
  shows "concat (ns[c := overwrite k ys (ns ! c)]) = overwrite (c * b + k) ys (concat ns)"
proof -
  let ?l = "take c ns" and ?r = "drop (Suc c) ns"
  have ns: "concat ns = concat ?l @ ns ! c @ concat ?r"
    by (metis c concat.simps(2) concat_append id_take_nth_drop)
  have l: "length (concat ?l) = c * b"
    using len c by (subst length_concat_blocks [of _ b]) (auto dest: in_set_takeD)
  have nc: "length (ns ! c) = b" using len c by simp
  have "overwrite (c * b + k) ys (concat ns) = concat ?l @ overwrite k ys (ns ! c @ concat ?r)"
    unfolding ns l [symmetric] by (rule overwrite_append_right)
  also have "\<dots> = concat ?l @ overwrite k ys (ns ! c) @ concat ?r"
    using k nc by (simp add: overwrite_append_left)
  finally show ?thesis using c by (simp add: upd_conv_take_nth_drop)
qed

lemma blocks_list_update [block_simps]:
  "\<forall>x\<in>set ns. length x = b \<Longrightarrow> length y = b \<Longrightarrow> \<forall>x\<in>set (ns[c := y]). length x = b"
  using set_update_subset_insert [of ns c y] by auto

section \<open>Lemmas on sizes\<close>

lemma usub_le [simp]: "b \<le> a \<Longrightarrow> usub a b = a - b"
  by (simp add: usub_def)

lemma div_up_enough:
  assumes "0 < base"
  shows "sz \<le> div_up sz base * base"
proof -
  have "div_up sz base * base = (sz + base - 1) - (sz + base - 1) mod base"
    by (simp add: div_up_def minus_mod_eq_div_mult)
  moreover have "(sz + base - 1) mod base < base" using assms by simp
  ultimately show ?thesis by linarith
qed

lemma div_up_pos: "0 < base \<Longrightarrow> 0 < sz \<Longrightarrow> 0 < div_up sz base"
  by (simp add: div_up_def div_greater_zero_iff)

lemma usub_word: "a < size_max \<Longrightarrow> b < size_max \<Longrightarrow> usub a b = unat (of_nat a - of_nat b :: u64)"
  by (auto simp: usub_def size_max_def unat_sub_if' unat_of_nat take_bit_nat_eq_self word_le_nat_alt)

section \<open>Lemmas on words\<close>

lemma bit_twice: "bit (v * 2 :: 'a::len word) n \<longleftrightarrow> 0 < n \<and> n < LENGTH('a) \<and> bit v (n - 1)"
  using bit_double_iff [of v n] by (auto simp: mult.commute)

lemma sless_0_bit: "v <s (0 :: 'a::len word) \<longleftrightarrow> bit v (LENGTH('a) - Suc 0)"
  by (simp add: word_sless_alt sint_uint bit_uint_iff)

lemma small_take_bit: "unat v < 2 ^ k \<longleftrightarrow> take_bit k v = (v :: 'a::len word)"
proof -
  have "unat v < 2 ^ k \<longleftrightarrow> take_bit k (unat v) = unat v" by (simp add: take_bit_nat_eq_self_iff)
  also have "\<dots> \<longleftrightarrow> unat (take_bit k v) = unat v" by (simp add: unsigned_take_bit_eq)
  finally show ?thesis by (metis unsigned_word_eqI)
qed

lemma small_bits: "unat (v :: 'a::len word) < 2 ^ k \<longleftrightarrow> (\<forall>n\<ge>k. \<not> bit v n)"
  unfolding small_take_bit bit_eq_iff
  by (auto simp: bit_simps dest: bit_imp_le_length) (meson bit_imp_le_length leD not_le)+

text \<open>A 64-bit value below two to the thirty-first keeps its value as an \<open>int\<close> and as an \<open>int64_t\<close>.\<close>

lemma signed_take_bit_small:
  assumes "n < 2 ^ k"
  shows "signed_take_bit k (int n) = int n"
proof (rule signed_take_bit_int_eq_self)
  have "- (2 ^ k) \<le> (0 :: int)" by simp
  then show "- (2 ^ k) \<le> int n" by linarith
  show "int n < 2 ^ k" using assms by (metis of_nat_less_iff of_nat_numeral of_nat_power)
qed

lemma unat_ucast_u32: "unat w < 2 ^ 31 \<Longrightarrow> unat (ucast w :: u32) = unat w" for w :: u64
  by (simp add: unsigned_ucast_eq take_bit_nat_eq_self)

lemma sint_small:
  fixes w :: u64
  assumes "unat w < 2 ^ 31"
  shows "sint (ucast w :: u32) = int (unat w)" "sint w = int (unat w)"
proof -
  have "uint (ucast w :: u32) = int (unat w)" "uint w = int (unat w)"
    using arg_cong [OF unat_ucast_u32 [OF assms], of int] by simp_all
  moreover have "unat w < 2 ^ 63" using assms by simp
  ultimately show "sint (ucast w :: u32) = int (unat w)" "sint w = int (unat w)"
    using signed_take_bit_small [of "unat w"] assms by (simp_all add: sint_uint del: of_nat_unat)
qed

end
