(* ===== verification/Endian.thy ===== *)
theory Endian
  imports Prelude
begin

text \<open>
  Byte order (\<open>endian.h\<close>). A C++ integer in memory is the list of its bytes in host order;
  the sources are built for a little-endian host (the \<open>#else\<close> branches of \<open>endian.h\<close>), so
  \<open>bytes_le\<close> is what \<open>memcpy\<close> copies out of an integer and \<open>word_le\<close> what it copies in. The
  lemmas show that the two are inverse, that \<open>byteswap\<close> reverses the bytes and is an
  involution, and hence that a swapped integer lies in memory in network order.
\<close>

definition SYLAR_LITTLE_ENDIAN :: nat where
  "SYLAR_LITTLE_ENDIAN = 1"

definition SYLAR_BIG_ENDIAN :: nat where
  "SYLAR_BIG_ENDIAN = 2"

definition SYLAR_BYTE_ORDER :: nat where
  "SYLAR_BYTE_ORDER = SYLAR_LITTLE_ENDIAN"

definition sizeof :: "'a::len itself \<Rightarrow> nat" where
  "sizeof t = LENGTH('a) div 8"

definition bytes_le :: "'a::len word \<Rightarrow> byte list" where
  "bytes_le w = map (\<lambda>i. ucast (drop_bit (8 * i) w)) [0..<LENGTH('a) div 8]"

fun word_le :: "byte list \<Rightarrow> 'a::len word" where
  "word_le [] = 0"
| "word_le (b # bs) = ucast b OR push_bit 8 (word_le bs)"

text \<open>\<open>bswap_16\<close>, \<open>bswap_32\<close> and \<open>bswap_64\<close> of \<open>byteswap.h\<close>: the bytes in reverse order.\<close>

definition byteswap :: "'a::len word \<Rightarrow> 'a word" where
  "byteswap w = word_le (rev (bytes_le w))"

definition byteswapOnLittleEndian :: "'a::len word \<Rightarrow> 'a word" where
  "byteswapOnLittleEndian t =
     (if SYLAR_BYTE_ORDER = SYLAR_BIG_ENDIAN then t else byteswap t)"

definition byteswapOnBigEndian :: "'a::len word \<Rightarrow> 'a word" where
  "byteswapOnBigEndian t =
     (if SYLAR_BYTE_ORDER = SYLAR_BIG_ENDIAN then byteswap t else t)"

lemmas endian_defs = SYLAR_BYTE_ORDER_def SYLAR_LITTLE_ENDIAN_def SYLAR_BIG_ENDIAN_def

section \<open>Bytes of a word\<close>

lemma length_bytes_le [simp]: "length (bytes_le (w :: 'a::len word)) = LENGTH('a) div 8"
  by (simp add: bytes_le_def)

lemma bit_bytes_le [word_simps]:
  "i < LENGTH('a) div 8 \<Longrightarrow>
   bit (bytes_le (w :: 'a::len word) ! i) k \<longleftrightarrow> k < 8 \<and> bit w (8 * i + k)"
  by (auto simp: bytes_le_def bit_simps)

lemma bit_word_le [word_simps]:
  "bit (word_le bs :: 'a::len word) n \<longleftrightarrow>
   n < LENGTH('a) \<and> n div 8 < length bs \<and> bit (bs ! (n div 8)) (n mod 8)"
proof (induction bs arbitrary: n)
  case (Cons b bs)
  show ?case
  proof (cases "n < 8")
    case True
    then show ?thesis by (auto simp: bit_simps)
  next
    case False
    then have n: "n div 8 = Suc ((n - 8) div 8)" "n mod 8 = (n - 8) mod 8"
      by (simp_all add: le_div_geq le_mod_geq)
    have b: "\<not> bit b n" using False by (auto dest: bit_imp_le_length)
    show ?thesis using False b by (auto simp: bit_simps Cons.IH n)
  qed
qed simp

lemma word_le_bytes_le [simp]:
  assumes "8 dvd LENGTH('a)"
  shows "word_le (bytes_le w) = (w :: 'a::len word)"
proof (rule bit_word_eqI)
  fix n assume n: "n < LENGTH('a)"
  then have "n div 8 < LENGTH('a) div 8"
    using assms by (simp add: div_less_iff_less_mult dvd_mult_div_cancel mult.commute)
  with n show "bit (word_le (bytes_le w) :: 'a word) n = bit w n"
    by (simp add: word_simps)
qed

lemma bytes_le_word_le [simp]:
  assumes "8 * length bs = LENGTH('a)"
  shows "bytes_le (word_le bs :: 'a::len word) = bs"
proof (rule nth_equalityI)
  show len: "length (bytes_le (word_le bs :: 'a word)) = length bs"
    using assms by simp
  fix i assume "i < length (bytes_le (word_le bs :: 'a word))"
  then have i: "i < length bs" using len by simp
  then have i': "i < LENGTH('a) div 8" using assms by simp
  show "bytes_le (word_le bs :: 'a word) ! i = bs ! i"
  proof (rule bit_word_eqI)
    fix k assume "k < LENGTH(8)"
    then have k: "k < 8" by simp
    then have "8 * i + k < LENGTH('a)" using i assms by linarith
    then show "bit (bytes_le (word_le bs :: 'a word) ! i) k = bit (bs ! i) k"
      using i i' k by (simp add: word_simps)
  qed
qed

lemma bytes_le_byteswap [simp]:
  "8 dvd LENGTH('a) \<Longrightarrow> bytes_le (byteswap w) = rev (bytes_le (w :: 'a::len word))"
  by (simp add: byteswap_def)

lemma byteswap_byteswap [simp]:
  "8 dvd LENGTH('a) \<Longrightarrow> byteswap (byteswap w) = (w :: 'a::len word)"
  by (simp add: byteswap_def [of "byteswap w"])

lemma byteswap_inject [simp]:
  "8 dvd LENGTH('a) \<Longrightarrow> byteswap v = byteswap w \<longleftrightarrow> v = (w :: 'a::len word)"
  by (metis byteswap_byteswap)

lemma byteswapOnLittleEndian_eq [simp]: "byteswapOnLittleEndian = byteswap"
  by (rule ext) (simp add: byteswapOnLittleEndian_def endian_defs)

lemma byteswapOnBigEndian_eq [simp]: "byteswapOnBigEndian t = t"
  by (simp add: byteswapOnBigEndian_def endian_defs)

lemma bit_byteswap:
  assumes "8 dvd LENGTH('a)"
  shows "bit (byteswap (w :: 'a::len word)) n \<longleftrightarrow>
    n < LENGTH('a) \<and> bit w (8 * (LENGTH('a) div 8 - Suc (n div 8)) + n mod 8)"
proof (cases "n < LENGTH('a)")
  case True
  then have "n div 8 < LENGTH('a) div 8"
    using assms by (simp add: div_less_iff_less_mult dvd_mult_div_cancel mult.commute)
  with True show ?thesis by (simp add: byteswap_def word_simps rev_nth)
qed (auto dest: bit_imp_le_length)

text \<open>Swapping bytes commutes with the bitwise operations.\<close>

lemma byteswap_bitwise:
  assumes "8 dvd LENGTH('a)"
  shows "byteswap (v AND w) = byteswap v AND byteswap (w :: 'a::len word)"
    "byteswap (v OR w) = byteswap v OR byteswap w" "byteswap (NOT w) = NOT (byteswap w)"
proof -
  have "8 * (LENGTH('a) div 8 - Suc (n div 8)) + n mod 8 < LENGTH('a)" if "n < LENGTH('a)" for n
  proof -
    have "n div 8 < LENGTH('a) div 8"
      using that assms by (simp add: div_less_iff_less_mult dvd_mult_div_cancel mult.commute)
    then have "8 * (LENGTH('a) div 8 - Suc (n div 8)) + 8 \<le> 8 * (LENGTH('a) div 8)" by linarith
    then show ?thesis using assms mod_less_divisor [of 8 n] by (simp add: dvd_mult_div_cancel)
  qed
  note b = bit_byteswap [OF assms] and i = this
  show "byteswap (v AND w) = byteswap v AND byteswap w"
    by (rule bit_word_eqI) (simp add: b bit_and_iff)
  show "byteswap (v OR w) = byteswap v OR byteswap w"
    by (rule bit_word_eqI) (simp add: b bit_or_iff)
  show "byteswap (NOT w) = NOT (byteswap w)"
    by (rule bit_word_eqI) (simp add: b bit_not_iff i)
qed

end
