(* ===== verification/ByteArray.thy ===== *)
theory ByteArray
  imports Endian
begin

text \<open>
  The serialisation buffer (\<open>bytearray.h\<close>, \<open>bytearray.cc\<close>): a singly linked list of nodes of
  \<open>m_baseSize\<close> bytes each, a position, and typed readers and writers on top. The list reached
  from \<open>m_root\<close> is \<open>m_nodes\<close>; \<open>m_cur\<close> is the index of the node it points to and \<open>None\<close> for
  \<open>nullptr\<close>. A byte that \<open>new char[s]\<close> leaves uninitialised is given by \<open>m_fresh\<close> (node number,
  offset), about which nothing is assumed. Following a null node pointer, dividing by a zero
  base size, a loop that never ends, a write past the end of a stack buffer and the exceptions
  are values of \<open>ba_error\<close>.
\<close>

section \<open>State\<close>

datatype ba_error = OutOfRange string | LengthError | NullNode | ZeroBase | Diverges | TmpOverflow

record ByteArray =
  m_baseSize :: nat
  m_position :: nat
  m_capacity :: nat
  m_size :: nat
  m_endian :: nat
  m_nodes :: "byte list list"
  m_cur :: "nat option"
  m_fresh :: "nat \<Rightarrow> nat \<Rightarrow> byte"

type_synonym 'a reader = "ByteArray \<Rightarrow> ba_error + 'a \<times> ByteArray"
type_synonym writer = "ByteArray \<Rightarrow> ba_error + ByteArray"

text \<open>An \<open>iovec\<close>: the node \<open>iov_base\<close> points into, the offset there, and \<open>iov_len\<close>.\<close>

type_synonym iovec = "nat \<times> nat \<times> nat"

definition new_Node :: "(nat \<Rightarrow> nat \<Rightarrow> byte) \<Rightarrow> nat \<Rightarrow> nat \<Rightarrow> byte list" where
  "new_Node fresh k s = map (fresh k) [0..<s]"

definition next_node :: "byte list list \<Rightarrow> nat \<Rightarrow> nat option" where
  "next_node ns c = (if Suc c < length ns then Some (Suc c) else None)"

definition new_ByteArray :: "(nat \<Rightarrow> nat \<Rightarrow> byte) \<Rightarrow> nat \<Rightarrow> ByteArray" where
  "new_ByteArray fresh base_size =
     \<lparr>m_baseSize = base_size, m_position = 0, m_capacity = base_size, m_size = 0,
      m_endian = SYLAR_BIG_ENDIAN, m_nodes = [new_Node fresh 0 base_size], m_cur = Some 0,
      m_fresh = fresh\<rparr>"

definition isLittleEndian :: "ByteArray \<Rightarrow> bool" where
  "isLittleEndian b \<longleftrightarrow> m_endian b = SYLAR_LITTLE_ENDIAN"

text \<open>The assignment after the \<open>if\<close> of the source is not in an \<open>else\<close>.\<close>

definition setIsLittleEndian :: "bool \<Rightarrow> ByteArray \<Rightarrow> ByteArray" where
  "setIsLittleEndian val b =
     (let b = (if val then b\<lparr>m_endian := SYLAR_LITTLE_ENDIAN\<rparr> else b)
      in b\<lparr>m_endian := SYLAR_BIG_ENDIAN\<rparr>)"

definition getReadSize :: "ByteArray \<Rightarrow> nat" where
  "getReadSize b = usub (m_size b) (m_position b)"

definition getCapacity :: "ByteArray \<Rightarrow> nat" where
  "getCapacity b = usub (m_capacity b) (m_position b)"

section \<open>Capacity, position, raw bytes\<close>

definition ba_clear :: "ByteArray \<Rightarrow> ByteArray" where
  "ba_clear b = b\<lparr>m_position := 0, m_size := 0, m_capacity := m_baseSize b,
     m_nodes := take 1 (m_nodes b), m_cur := Some 0\<rparr>"

text \<open>
  \<open>ceil(1.0 * size / m_baseSize)\<close> is the quotient rounded up (exact in a \<open>double\<close> below
  \<open>2 ^ 53\<close>); dividing by a zero base size gives an infinity no \<open>size_t\<close> can hold.
\<close>

definition addCapacity :: "nat \<Rightarrow> writer" where
  "addCapacity sz b =
     (if sz = 0 then Inr b
      else let old_cap = getCapacity b in
        if sz \<le> old_cap then Inr b
        else if m_baseSize b = 0 then Inl ZeroBase
        else let sz = sz - old_cap;
                 count = div_up sz (m_baseSize b);
                 n = length (m_nodes b);
                 first = (if count = 0 then None else Some n);
                 b = b\<lparr>m_nodes := m_nodes b @
                         map (\<lambda>i. new_Node (m_fresh b) (n + i) (m_baseSize b)) [0..<count],
                       m_capacity := m_capacity b + count * m_baseSize b\<rparr>
             in Inr (if old_cap = 0 then b\<lparr>m_cur := first\<rparr> else b))"

text \<open>The loop of \<open>write\<close>; \<open>buf\<close> is what is left to copy from \<open>buf + bpos\<close> on.\<close>

function write_loop ::
  "byte list list \<Rightarrow> nat option \<Rightarrow> nat \<Rightarrow> nat \<Rightarrow> byte list \<Rightarrow> nat \<Rightarrow>
   ba_error + byte list list \<times> nat option \<times> nat" where
  "write_loop ns cur npos ncap buf pos =
     (if buf = [] then Inr (ns, cur, pos)
      else case cur of None \<Rightarrow> Inl NullNode
      | Some c \<Rightarrow>
        if length buf \<le> ncap then
          Inr (ns[c := overwrite npos buf (ns ! c)],
               if length (ns ! c) = npos + length buf then next_node ns c else Some c,
               pos + length buf)
        else (case next_node ns c of None \<Rightarrow> Inl NullNode
          | Some c' \<Rightarrow>
            write_loop (ns[c := overwrite npos (take ncap buf) (ns ! c)]) (Some c') 0
              (length (ns ! c')) (drop ncap buf) (pos + ncap)))"
  by pat_completeness auto
termination
  by (relation "measure (\<lambda>(ns, cur, _). case cur of None \<Rightarrow> 0 | Some c \<Rightarrow> length ns - c)")
     (auto simp: next_node_def split: if_splits)

definition ba_write :: "byte list \<Rightarrow> writer" where
  "ba_write buf b =
     (if buf = [] then Inr b
      else bindr (addCapacity (length buf) b) (\<lambda>b.
        if m_baseSize b = 0 then Inl ZeroBase
        else case m_cur b of None \<Rightarrow> Inl NullNode
        | Some c \<Rightarrow>
          let npos = m_position b mod m_baseSize b;
              ncap = usub (length (m_nodes b ! c)) npos
          in bindr (write_loop (m_nodes b) (Some c) npos ncap buf (m_position b))
               (\<lambda>(ns, cur, pos). Inr (b\<lparr>m_nodes := ns, m_cur := cur, m_position := pos,
                  m_size := (if pos > m_size b then pos else m_size b)\<rparr>))))"

function seek_loop :: "byte list list \<Rightarrow> nat option \<Rightarrow> nat \<Rightarrow> ba_error + nat option" where
  "seek_loop ns cur val =
     (case cur of None \<Rightarrow> Inl NullNode
      | Some c \<Rightarrow>
        if val > length (ns ! c) then
          (case next_node ns c of None \<Rightarrow> Inl NullNode
           | Some c' \<Rightarrow> seek_loop ns (Some c') (val - length (ns ! c)))
        else Inr (if val = length (ns ! c) then next_node ns c else Some c))"
  by pat_completeness auto
termination
  by (relation "measure (\<lambda>(ns, cur, _). case cur of None \<Rightarrow> 0 | Some c \<Rightarrow> length ns - c)")
     (auto simp: next_node_def split: if_splits)

definition setPosition :: "nat \<Rightarrow> writer" where
  "setPosition val b =
     (if val > m_capacity b then Inl (OutOfRange ''set_position out of range'')
      else bindr (seek_loop (m_nodes b) (Some 0) val) (\<lambda>cur.
        Inr (b\<lparr>m_position := val, m_size := (if val > m_size b then val else m_size b),
               m_cur := cur\<rparr>)))"

text \<open>
  The loop the two overloads of \<open>read\<close> share: the bytes copied, the node pointer afterwards.
\<close>

function read_loop ::
  "byte list list \<Rightarrow> nat option \<Rightarrow> nat \<Rightarrow> nat \<Rightarrow> nat \<Rightarrow> ba_error + byte list \<times> nat option" where
  "read_loop ns cur npos ncap sz =
     (if sz = 0 then Inr ([], cur)
      else case cur of None \<Rightarrow> Inl NullNode
      | Some c \<Rightarrow>
        if sz \<le> ncap then
          Inr (take sz (drop npos (ns ! c)),
               if length (ns ! c) = npos + sz then next_node ns c else Some c)
        else (case next_node ns c of None \<Rightarrow> Inl NullNode
          | Some c' \<Rightarrow>
            bindr (read_loop ns (Some c') 0 (length (ns ! c')) (sz - ncap))
              (\<lambda>(bs, cur). Inr (take ncap (drop npos (ns ! c)) @ bs, cur))))"
  by pat_completeness auto
termination
  by (relation "measure (\<lambda>(ns, cur, _). case cur of None \<Rightarrow> 0 | Some c \<Rightarrow> length ns - c)")
     (auto simp: next_node_def split: if_splits)

definition ba_read :: "nat \<Rightarrow> byte list reader" where
  "ba_read sz b =
     (if sz > getReadSize b then Inl (OutOfRange ''not enough len'')
      else if m_baseSize b = 0 then Inl ZeroBase
      else case m_cur b of None \<Rightarrow> Inl NullNode
      | Some c \<Rightarrow>
        let npos = m_position b mod m_baseSize b;
            ncap = usub (length (m_nodes b ! c)) npos
        in bindr (read_loop (m_nodes b) (Some c) npos ncap sz)
             (\<lambda>(bs, cur). Inr (bs, b\<lparr>m_cur := cur, m_position := m_position b + sz\<rparr>)))"

text \<open>\<open>read(buf, size, position) const\<close>: it starts from \<open>m_cur\<close> whatever \<open>position\<close> is.\<close>

definition ba_read_at :: "nat \<Rightarrow> nat \<Rightarrow> ByteArray \<Rightarrow> ba_error + byte list" where
  "ba_read_at sz position b =
     (if sz > usub (m_size b) position then Inl (OutOfRange ''not enough len'')
      else if m_baseSize b = 0 then Inl ZeroBase
      else case m_cur b of None \<Rightarrow> Inl NullNode
      | Some c \<Rightarrow>
        let npos = position mod m_baseSize b;
            ncap = usub (length (m_nodes b ! c)) npos
        in bindr (read_loop (m_nodes b) (Some c) npos ncap sz) (\<lambda>(bs, _). Inr bs))"

section \<open>Scatter lists, strings, files\<close>

function iov_loop ::
  "byte list list \<Rightarrow> nat option \<Rightarrow> nat \<Rightarrow> nat \<Rightarrow> nat \<Rightarrow> ba_error + iovec list" where
  "iov_loop ns cur npos ncap len =
     (if len = 0 then Inr []
      else case cur of None \<Rightarrow> Inl NullNode
      | Some c \<Rightarrow>
        if len \<le> ncap then Inr [(c, npos, len)]
        else (case next_node ns c of None \<Rightarrow> Inl NullNode
          | Some c' \<Rightarrow>
            bindr (iov_loop ns (Some c') 0 (length (ns ! c')) (len - ncap))
              (\<lambda>iovs. Inr ((c, npos, ncap) # iovs))))"
  by pat_completeness auto
termination
  by (relation "measure (\<lambda>(ns, cur, _). case cur of None \<Rightarrow> 0 | Some c \<Rightarrow> length ns - c)")
     (auto simp: next_node_def split: if_splits)

definition iov_from :: "ByteArray \<Rightarrow> nat option \<Rightarrow> nat \<Rightarrow> nat \<Rightarrow> ba_error + iovec list" where
  "iov_from b cur position len =
     (if m_baseSize b = 0 then Inl ZeroBase
      else case cur of None \<Rightarrow> Inl NullNode
      | Some c \<Rightarrow>
        let npos = position mod m_baseSize b
        in iov_loop (m_nodes b) (Some c) npos (usub (length (m_nodes b ! c)) npos) len)"

definition getReadBuffers :: "nat \<Rightarrow> ByteArray \<Rightarrow> ba_error + iovec list \<times> nat" where
  "getReadBuffers len b =
     (let len = (if len > getReadSize b then getReadSize b else len) in
      if len = 0 then Inr ([], 0)
      else bindr (iov_from b (m_cur b) (m_position b) len) (\<lambda>iovs. Inr (iovs, len)))"

text \<open>The overload with a position walks \<open>position / m_baseSize\<close> nodes from the root.\<close>

definition getReadBuffers_at :: "nat \<Rightarrow> nat \<Rightarrow> ByteArray \<Rightarrow> ba_error + iovec list \<times> nat" where
  "getReadBuffers_at len position b =
     (let len = (if len > getReadSize b then getReadSize b else len) in
      if len = 0 then Inr ([], 0)
      else if m_baseSize b = 0 then Inl ZeroBase
      else let count = position div m_baseSize b;
               cur = (if count < length (m_nodes b) then Some count else None)
           in bindr (iov_from b cur position len) (\<lambda>iovs. Inr (iovs, len)))"

definition getWriteBuffers :: "nat \<Rightarrow> (iovec list \<times> nat) reader" where
  "getWriteBuffers len b =
     (if len = 0 then Inr (([], 0), b)
      else bindr (addCapacity len b) (\<lambda>b.
        bindr (iov_from b (m_cur b) (m_position b) len) (\<lambda>iovs. Inr ((iovs, len), b))))"

definition ba_toString :: "ByteArray \<Rightarrow> ba_error + byte list" where
  "ba_toString b =
     (if getReadSize b = 0 then Inr [] else ba_read_at (getReadSize b) (m_position b) b)"

fun hex_digits :: "nat \<Rightarrow> string" where
  "hex_digits n = (if n < 16 then [''0123456789abcdef'' ! n]
     else hex_digits (n div 16) @ [''0123456789abcdef'' ! (n mod 16)])"

declare hex_digits.simps [simp del]

text \<open>
  \<open>static_cast<int>(str[i])\<close> sign-extends the byte to 32 bits before \<open>std::hex\<close> prints it, and
  \<open>setw(2)\<close> with fill \<open>'0'\<close> pads to two digits.
\<close>

definition hex_char :: "byte \<Rightarrow> string" where
  "hex_char c = (let h = hex_digits (unat (scast c :: u32))
     in replicate (2 - length h) (CHR ''0'') @ h)"

definition ba_toHexString :: "ByteArray \<Rightarrow> ba_error + string" where
  "ba_toHexString b = bindr (ba_toString b) (\<lambda>str. Inr (concat (map (\<lambda>i.
     (if i > 0 \<and> i mod 32 = 0 then [CHR 0x0A] else []) @ hex_char (str ! i) @ '' '')
     [0..<length str])))"

text \<open>
  The loop of \<open>writeToFile\<close>. A negative count makes \<open>ofs.write\<close> set the stream's badbit, after
  which nothing more is written (\<open>ok\<close>); the function returns \<open>true\<close> all the same.
\<close>

function file_loop ::
  "nat \<Rightarrow> byte list list \<Rightarrow> nat option \<Rightarrow> int \<Rightarrow> int \<Rightarrow> bool \<Rightarrow> ba_error + byte list" where
  "file_loop base ns cur pos read_size ok =
     (if read_size \<le> 0 then Inr []
      else if base = 0 then Inl ZeroBase
      else case cur of None \<Rightarrow> Inl NullNode
      | Some c \<Rightarrow>
        let diff = pos mod int base;
            len = (if read_size > int base then int base else read_size) - diff;
            ok = (ok \<and> 0 \<le> len);
            out = (if ok then take (nat len) (drop (nat diff) (ns ! c)) else [])
        in bindr (file_loop base ns (next_node ns c) (pos + len) (read_size - len) ok)
             (\<lambda>rest. Inr (out @ rest)))"
  by pat_completeness auto
termination
  by (relation "measure (\<lambda>(base, ns, cur, _). case cur of None \<Rightarrow> 0
        | Some c \<Rightarrow> Suc (length ns - c))")
     (auto simp: next_node_def)

definition writeToFile :: "bool \<Rightarrow> ByteArray \<Rightarrow> ba_error + bool \<times> byte list" where
  "writeToFile opened b =
     (if \<not> opened then Inr (False, [])
      else bindr (file_loop (m_baseSize b) (m_nodes b) (m_cur b) (int (m_position b))
        (int (getReadSize b)) True) (\<lambda>out. Inr (True, out)))"

text \<open>
  A read of \<open>m_baseSize\<close> bytes sets \<open>eof\<close> when fewer are left; reading zero bytes never does.
\<close>

function read_file_loop :: "nat \<Rightarrow> byte list \<Rightarrow> writer" where
  "read_file_loop base content b =
     (if base = 0 then Inl Diverges
      else bindr (ba_write (take base content) b) (\<lambda>b.
        if length content < base then Inr b
        else read_file_loop base (drop base content) b))"
  by pat_completeness auto
termination
  by (relation "measure (\<lambda>(base, content, b). length content)") auto

definition readFromFile :: "byte list option \<Rightarrow> bool reader" where
  "readFromFile file b =
     (case file of None \<Rightarrow> Inr (False, b)
      | Some content \<Rightarrow> bindr (read_file_loop (m_baseSize b) content b) (\<lambda>b. Inr (True, b)))"

section \<open>Invariant and abstraction\<close>

text \<open>
  The invariant: every node holds \<open>m_baseSize\<close> bytes, the capacity is that of the nodes,
  position \<open>\<le>\<close> size \<open>\<le>\<close> capacity, and \<open>m_cur\<close> is the node of the position, null exactly when
  the position is at the end of the last node. The abstraction of a byte array is the string of
  its first \<open>m_size\<close> bytes.
\<close>

definition ba_inv :: "ByteArray \<Rightarrow> bool" where
  "ba_inv b \<longleftrightarrow> 0 < m_baseSize b \<and> m_nodes b \<noteq> []
     \<and> (\<forall>n\<in>set (m_nodes b). length n = m_baseSize b)
     \<and> m_capacity b = length (m_nodes b) * m_baseSize b
     \<and> m_position b \<le> m_size b \<and> m_size b \<le> m_capacity b
     \<and> m_cur b = (if m_position b < m_capacity b then Some (m_position b div m_baseSize b)
                  else None)"

definition ba_data :: "ByteArray \<Rightarrow> byte list" where
  "ba_data b = take (m_size b) (concat (m_nodes b))"

definition node_of :: "nat \<Rightarrow> nat \<Rightarrow> nat \<Rightarrow> nat option" where
  "node_of n base p = (if p < n * base then Some (p div base) else None)"

declare write_loop.simps [simp del] seek_loop.simps [simp del] read_loop.simps [simp del]
  iov_loop.simps [simp del] file_loop.simps [simp del] read_file_loop.simps [simp del]

lemma node_of_offset [simp]:
  "k < base \<Longrightarrow> c < n \<Longrightarrow> node_of n base (c * base + k) = Some c"
proof -
  assume k: "k < base" and c: "c < n"
  have "Suc c * base \<le> n * base" using c by (intro mult_le_mono1) simp
  then have "c * base + k < n * base" using k by simp
  then show ?thesis using k by (simp add: node_of_def)
qed

lemma node_of_next [simp]:
  assumes "0 < base" "c < length ns"
  shows "node_of (length ns) base (c * base + base) = next_node ns c"
  using assms mult_less_cancel2 [of "Suc c" base "length ns"]
  by (simp add: node_of_def next_node_def add.commute)

lemma next_node_SomeD: "next_node ns c = Some c' \<Longrightarrow> c' = Suc c \<and> Suc c < length ns"
  by (simp add: next_node_def split: if_splits)

lemma next_node_some [simp]: "Suc c < length ns \<Longrightarrow> next_node ns c = Some (Suc c)"
  by (simp add: next_node_def)

text \<open>From an offset \<open>k\<close> into node \<open>c\<close>, a run that leaves the node and fits needs a next one.\<close>

lemma run_needs_next:
  fixes base :: nat
  assumes "c * base + k + len \<le> n * base" "base - k < len" "k \<le> base"
  shows "Suc c < n"
proof (rule ccontr)
  assume "\<not> Suc c < n"
  then have "n * base \<le> Suc c * base" by (intro mult_le_mono1) simp
  with assms show False by simp
qed

text \<open>The last node of a run: the buffer fits in what is left of it.\<close>

lemma write_loop_last:
  assumes len: "\<forall>n\<in>set ns. length n = base" and b: "0 < base" and c: "c < length ns"
    and k: "k < base" and ne: "buf \<noteq> []" and fits: "length buf \<le> base - k"
  shows "\<exists>ns'. write_loop ns (Some c) k (base - k) buf pos =
      Inr (ns', node_of (length ns) base (c * base + k + length buf), pos + length buf)
    \<and> length ns' = length ns \<and> (\<forall>n\<in>set ns'. length n = base)
    \<and> concat ns' = overwrite (c * base + k) buf (concat ns)"
proof -
  let ?ns = "ns[c := overwrite k buf (ns ! c)]"
  have nc: "length (ns ! c) = base" using len c by simp
  have k': "k + length buf \<le> base" using fits k by simp
  then have "length (overwrite k buf (ns ! c)) = base" using nc by simp
  then have "\<forall>n\<in>set ?ns. length n = base" using len by (intro blocks_list_update)
  moreover have "concat ?ns = overwrite (c * base + k) buf (concat ns)"
    using len c k' by (rule overwrite_concat_blocks)
  moreover have "(if base = k + length buf then next_node ns c else Some c)
      = node_of (length ns) base (c * base + k + length buf)"
    using k' c b node_of_next [of base c ns]
      node_of_offset [of "k + length buf" base c "length ns"]
    by (auto simp: add.assoc)
  ultimately show ?thesis using ne fits nc by (simp add: write_loop.simps [of ns])
qed

lemma write_loop_correct:
  assumes "\<forall>n\<in>set ns. length n = base" "0 < base" "c < length ns" "k < base"
    "c * base + k + length buf \<le> length ns * base"
  shows "\<exists>ns'. write_loop ns (Some c) k (base - k) buf pos =
      Inr (ns', node_of (length ns) base (c * base + k + length buf), pos + length buf)
    \<and> length ns' = length ns \<and> (\<forall>n\<in>set ns'. length n = base)
    \<and> concat ns' = overwrite (c * base + k) buf (concat ns)"
  using assms
proof (induction "length ns - c" arbitrary: ns c k buf pos rule: less_induct)
  case less
  note len = less.prems(1) and c = less.prems(3) and k = less.prems(4) and fits = less.prems(5)
  show ?case
  proof (cases "buf = []")
    case True
    with less.prems show ?thesis
      by (simp add: write_loop.simps length_concat_blocks [of _ base])
  next
    case ne: False
    show ?thesis
    proof (cases "length buf \<le> base - k")
      case True
      then show ?thesis using write_loop_last [OF len less.prems(2) c k ne] by simp
    next
      case False
      let ?head = "take (base - k) buf" and ?tail = "drop (base - k) buf"
      let ?ns = "ns[c := overwrite k ?head (ns ! c)]"
      have c': "Suc c < length ns"
        using run_needs_next [OF fits] False k by simp
      have hl: "length ?head = base - k" using False by simp
      have "length (overwrite k ?head (ns ! c)) = base" using len c k hl by simp
      then have len': "\<forall>n\<in>set ?ns. length n = base" using len by (intro blocks_list_update)
      have cc: "concat ?ns = overwrite (c * base + k) ?head (concat ns)"
        using len c hl k by (intro overwrite_concat_blocks) auto
      have end_eq: "Suc c * base + 0 + length ?tail = c * base + k + length buf"
        using False k by simp
      then have "Suc c * base + 0 + length ?tail \<le> length ?ns * base" using fits by simp
      moreover have m: "length ?ns - Suc c < length ns - c" using c' by simp
      ultimately obtain ns' where ns':
        "write_loop ?ns (Some (Suc c)) 0 (base - 0) ?tail (pos + (base - k)) =
          Inr (ns', node_of (length ?ns) base (Suc c * base + 0 + length ?tail),
               pos + (base - k) + length ?tail)"
        "length ns' = length ?ns" "\<forall>n\<in>set ns'. length n = base"
        "concat ns' = overwrite (Suc c * base + 0) ?tail (concat ?ns)"
        using less.hyps [OF m len' less.prems(2), of 0 ?tail "pos + (base - k)"] less.prems(2) c'
        by auto
      have pos: "c * base + k \<le> length (concat ns)"
        using fits len by (simp add: length_concat_blocks [of _ base])
      have "overwrite (Suc c * base + 0) ?tail (concat ?ns)
          = overwrite (c * base + k + length ?head) ?tail (overwrite (c * base + k) ?head (concat ns))"
        using hl k cc by (simp add: add.commute add.left_commute)
      also have "\<dots> = overwrite (c * base + k) buf (concat ns)"
        unfolding overwrite_overwrite [OF pos] by simp
      finally have "concat ns' = overwrite (c * base + k) buf (concat ns)" using ns'(4) by simp
      moreover have "write_loop ns (Some c) k (base - k) buf pos =
          write_loop ?ns (Some (Suc c)) 0 base ?tail (pos + (base - k))"
        using ne False c' len by (subst write_loop.simps) simp
      ultimately show ?thesis
        using ns'(1-3) end_eq False by simp
    qed
  qed
qed

lemma read_loop_correct:
  assumes "\<forall>n\<in>set ns. length n = base" "0 < base" "c < length ns" "k < base"
    "c * base + k + sz \<le> length ns * base"
  shows "read_loop ns (Some c) k (base - k) sz =
    Inr (take sz (drop (c * base + k) (concat ns)), node_of (length ns) base (c * base + k + sz))"
  using assms
proof (induction "length ns - c" arbitrary: c k sz rule: less_induct)
  case less
  note len = less.prems(1) and c = less.prems(3) and k = less.prems(4) and fits = less.prems(5)
  have nc: "length (ns ! c) = base" using len c by simp
  have d: "drop (c * base + k) (concat ns) = drop k (ns ! c) @ concat (drop (Suc c) ns)"
    using len c k by (intro drop_concat_blocks) auto
  consider "sz = 0" | "0 < sz" "sz \<le> base - k" | "base - k < sz" by linarith
  then show ?case
  proof cases
    case 1
    then show ?thesis using k c by (simp add: read_loop.simps)
  next
    case 2
    have "(if base = k + sz then next_node ns c else Some c)
        = node_of (length ns) base (c * base + k + sz)"
      using 2 k c less.prems(2) node_of_next [of base c ns] node_of_offset [of "k + sz" base c "length ns"]
      by (auto simp: add.assoc)
    then show ?thesis using 2 nc d by (simp add: read_loop.simps)
  next
    case 3
    have c': "Suc c < length ns" using run_needs_next [OF fits] 3 k by simp
    have end_eq: "Suc c * base + 0 + (sz - (base - k)) = c * base + k + sz" using 3 k by simp
    have m: "length ns - Suc c < length ns - c" using c' by simp
    have d': "drop (Suc c * base + 0) (concat ns) = concat (drop (Suc c) ns)"
      using drop_concat_blocks [OF len c', of 0] c' Cons_nth_drop_Suc [OF c'] len
      by (metis concat.simps(2) drop0 le0)
    have "read_loop ns (Some (Suc c)) 0 (base - 0) (sz - (base - k)) =
        Inr (take (sz - (base - k)) (concat (drop (Suc c) ns)),
             node_of (length ns) base (c * base + k + sz))"
      using less.hyps [OF m len less.prems(2) c', of 0 "sz - (base - k)"] less.prems(2) fits d' end_eq
      by (simp add: ac_simps)
    moreover have "read_loop ns (Some c) k (base - k) sz =
        bindr (read_loop ns (Some (Suc c)) 0 base (sz - (base - k)))
          (\<lambda>(bs, cur). Inr (take (base - k) (drop k (ns ! c)) @ bs, cur))"
      using 3 c' len by (subst read_loop.simps) simp
    ultimately show ?thesis using d 3 nc by simp
  qed
qed

lemma seek_loop_correct:
  assumes "\<forall>n\<in>set ns. length n = base" "0 < base" "c < length ns"
    "c * base + val \<le> length ns * base"
  shows "seek_loop ns (Some c) val = Inr (node_of (length ns) base (c * base + val))"
  using assms
proof (induction "length ns - c" arbitrary: c val rule: less_induct)
  case less
  note len = less.prems(1) and c = less.prems(3) and fits = less.prems(4)
  have nc: "length (ns ! c) = base" using len c by simp
  show ?case
  proof (cases "val \<le> base")
    case True
    have "(if val = base then next_node ns c else Some c) = node_of (length ns) base (c * base + val)"
      using True c less.prems(2) node_of_next [of base c ns] node_of_offset [of val base c "length ns"]
      by auto
    then show ?thesis using True nc by (simp add: seek_loop.simps)
  next
    case False
    have c': "Suc c < length ns" using run_needs_next [of c base 0 val "length ns"] fits False by simp
    have end_eq: "Suc c * base + (val - base) = c * base + val" using False by simp
    have m: "length ns - Suc c < length ns - c" using c' by simp
    have "seek_loop ns (Some c) val = seek_loop ns (Some (Suc c)) (val - base)"
      using False c' nc by (subst seek_loop.simps) simp
    then show ?thesis
      using less.hyps [OF m len less.prems(2) c', of "val - base"] fits end_eq by simp
  qed
qed

section \<open>Every operation keeps the invariant\<close>

lemma ba_invD:
  assumes "ba_inv b"
  shows "0 < m_baseSize b" "m_nodes b \<noteq> []" "\<forall>n\<in>set (m_nodes b). length n = m_baseSize b"
    "m_capacity b = length (m_nodes b) * m_baseSize b" "m_position b \<le> m_size b"
    "m_size b \<le> m_capacity b"
    "m_cur b = node_of (length (m_nodes b)) (m_baseSize b) (m_position b)"
    "length (concat (m_nodes b)) = m_capacity b"
  using assms by (simp_all add: ba_inv_def node_of_def length_concat_blocks [of _ "m_baseSize b"])

lemma ba_inv_sizes [simp]:
  "ba_inv b \<Longrightarrow> getReadSize b = m_size b - m_position b"
  "ba_inv b \<Longrightarrow> getCapacity b = m_capacity b - m_position b"
  by (simp_all add: ba_inv_def getReadSize_def getCapacity_def)

lemma length_ba_data [simp]: "ba_inv b \<Longrightarrow> length (ba_data b) = m_size b"
  using ba_invD [of b] by (simp add: ba_data_def)

lemma ba_inv_cur:
  assumes "ba_inv b" "m_position b < m_capacity b"
  shows "m_cur b = Some (m_position b div m_baseSize b)"
    "m_position b div m_baseSize b < length (m_nodes b)"
    "m_position b div m_baseSize b * m_baseSize b + m_position b mod m_baseSize b = m_position b"
    "m_position b mod m_baseSize b < m_baseSize b"
    "length (m_nodes b ! (m_position b div m_baseSize b)) = m_baseSize b"
  using assms by (auto simp: ba_inv_def less_mult_imp_div_less)

lemma ba_inv_new: "0 < base \<Longrightarrow> ba_inv (new_ByteArray fresh base)"
  by (simp add: ba_inv_def new_ByteArray_def new_Node_def)

lemma new_ByteArray_sel [simp]:
  "m_position (new_ByteArray fresh base) = 0" "m_size (new_ByteArray fresh base) = 0"
  "m_baseSize (new_ByteArray fresh base) = base" "m_capacity (new_ByteArray fresh base) = base"
  "m_endian (new_ByteArray fresh base) = SYLAR_BIG_ENDIAN"
  by (simp_all add: new_ByteArray_def)

lemma ba_data_new [simp]: "ba_data (new_ByteArray fresh base) = []"
  by (simp add: ba_data_def new_ByteArray_def)

lemma ba_clear_spec: "ba_inv b \<Longrightarrow> ba_inv (ba_clear b) \<and> ba_data (ba_clear b) = []"
  by (cases "m_nodes b") (auto simp: ba_inv_def ba_clear_def ba_data_def)

lemma ba_inv_endian [simp]: "ba_inv (b\<lparr>m_endian := e\<rparr>) = ba_inv b"
  by (simp add: ba_inv_def)

lemma addCapacity_spec:
  assumes inv: "ba_inv b"
  shows "\<exists>cap cur ns. addCapacity sz b =
      Inr (b\<lparr>m_nodes := m_nodes b @ ns, m_capacity := cap, m_cur := cur\<rparr>)
    \<and> ba_inv (b\<lparr>m_nodes := m_nodes b @ ns, m_capacity := cap, m_cur := cur\<rparr>)
    \<and> m_position b + sz \<le> cap"
proof (cases "sz \<le> m_capacity b - m_position b")
  case True
  then have "addCapacity sz b = Inr (b\<lparr>m_nodes := m_nodes b @ [], m_capacity := m_capacity b,
      m_cur := m_cur b\<rparr>)"
    using inv by (simp add: addCapacity_def)
  moreover have "m_position b + sz \<le> m_capacity b" using True ba_invD(5,6) [OF inv] by linarith
  ultimately show ?thesis using inv by (metis append_Nil2 ByteArray.surjective
      ByteArray.update_convs(3,6,7))
next
  case False
  note D = ba_invD [OF inv]
  let ?base = "m_baseSize b" and ?old = "m_capacity b - m_position b" and ?n = "length (m_nodes b)"
  let ?cnt = "div_up (sz - ?old) ?base"
  let ?ns = "map (\<lambda>i. new_Node (m_fresh b) (?n + i) ?base) [0..<?cnt]"
  let ?cur = "if ?old = 0 then Some ?n else m_cur b"
  let ?cap = "m_capacity b + ?cnt * ?base"
  let ?b = "b\<lparr>m_nodes := m_nodes b @ ?ns, m_capacity := ?cap, m_cur := ?cur\<rparr>"
  have pos: "0 < sz - ?old" using False by simp
  have cnt: "0 < ?cnt" "sz - ?old \<le> ?cnt * ?base"
    by (rule div_up_pos [OF D(1) pos], rule div_up_enough [OF D(1)])
  have eq: "addCapacity sz b = Inr ?b"
    using inv False D(1) cnt(1) by (auto simp: addCapacity_def Let_def)
  have pc: "m_position b \<le> m_capacity b" using D(5,6) by linarith
  have "m_capacity b div ?base = ?n" using D(1,4) by simp
  then have "?cur = Some (m_position b div ?base)"
    using pc D(4,7) by (cases "m_capacity b = m_position b") (auto simp: node_of_def)
  moreover have "m_position b < ?cap" using pc cnt D(1) False by linarith
  ultimately have "ba_inv ?b"
    using D(1-6) by (auto simp: ba_inv_def new_Node_def add_mult_distrib)
  moreover have "m_position b + sz \<le> ?cap" using cnt pc by linarith
  ultimately show ?thesis using eq by blast
qed

text \<open>
  The contents after each operation. \<open>write\<close> overwrites the abstract string at the position and
  extends it; \<open>read\<close> returns the bytes at the position and only moves the position.
\<close>

lemma ba_write_spec:
  assumes inv: "ba_inv b"
  shows "\<exists>b'. ba_write buf b = Inr b' \<and> ba_inv b' \<and> m_baseSize b' = m_baseSize b
    \<and> m_endian b' = m_endian b \<and> m_position b' = m_position b + length buf
    \<and> ba_data b' = overwrite (m_position b) buf (ba_data b)"
proof (cases "buf = []")
  case True
  then show ?thesis using inv ba_invD(5) [OF inv] by (simp add: ba_write_def)
next
  case ne: False
  obtain cap cur ns where add: "addCapacity (length buf) b =
      Inr (b\<lparr>m_nodes := m_nodes b @ ns, m_capacity := cap, m_cur := cur\<rparr>)"
    and inv1: "ba_inv (b\<lparr>m_nodes := m_nodes b @ ns, m_capacity := cap, m_cur := cur\<rparr>)"
    and cap: "m_position b + length buf \<le> cap"
    using addCapacity_spec [OF inv] by blast
  define b1 where "b1 = b\<lparr>m_nodes := m_nodes b @ ns, m_capacity := cap, m_cur := cur\<rparr>"
  have f: "m_position b1 = m_position b" "m_size b1 = m_size b" "m_capacity b1 = cap"
    "m_baseSize b1 = m_baseSize b" "m_endian b1 = m_endian b" "m_nodes b1 = m_nodes b @ ns"
    by (simp_all add: b1_def)
  note inv1 = inv1 [folded b1_def] and D = ba_invD [OF inv1 [folded b1_def]]
  have "m_position b1 < m_capacity b1" using cap ne f by (cases buf) auto
  note C = ba_inv_cur [OF inv1 this]
  obtain ns' where w: "write_loop (m_nodes b1) (m_cur b1) (m_position b1 mod m_baseSize b1)
        (m_baseSize b1 - m_position b1 mod m_baseSize b1) buf (m_position b1) =
      Inr (ns', node_of (length (m_nodes b1)) (m_baseSize b1) (m_position b1 + length buf),
           m_position b1 + length buf)"
    and ns': "length ns' = length (m_nodes b1)" "\<forall>n\<in>set ns'. length n = m_baseSize b1"
      "concat ns' = overwrite (m_position b1) buf (concat (m_nodes b1))"
    using write_loop_correct [OF D(3,1) C(2,4), of buf "m_position b1"] cap C(1,3) D(4) f by auto
  define b2 where "b2 = b1\<lparr>m_nodes := ns', m_cur := node_of (length ns') (m_baseSize b1)
    (m_position b1 + length buf), m_position := m_position b1 + length buf,
    m_size := max (m_size b1) (m_position b1 + length buf)\<rparr>"
  have "ba_write buf b = Inr b2"
    using ne add w ns'(1) C(1,4,5) D(1) unfolding ba_write_def b1_def [symmetric] b2_def
    by (simp add: max_def)
  moreover have "ba_inv b2"
    using ns' D cap f by (auto simp: ba_inv_def b2_def node_of_def)
  moreover have "ba_data b2 = overwrite (m_position b) buf (ba_data b)"
  proof -
    have "ba_data b2 = overwrite (m_position b) buf (take (m_size b) (concat (m_nodes b @ ns)))"
      using ns'(3) D(5,6,8) f take_overwrite_extend [of "m_position b" "m_size b" "concat (m_nodes b @ ns)" buf]
      by (simp add: ba_data_def b2_def)
    then show ?thesis using ba_invD(6,8) [OF inv] by (simp add: ba_data_def)
  qed
  ultimately show ?thesis using f by (auto simp: b2_def)
qed

lemma ba_read_spec:
  assumes inv: "ba_inv b" and n: "m_position b + n \<le> m_size b"
    and cur: "0 < n \<or> m_position b < m_capacity b"
  shows "\<exists>b'. ba_read n b = Inr (take n (drop (m_position b) (ba_data b)), b') \<and> ba_inv b'
    \<and> m_position b' = m_position b + n \<and> m_endian b' = m_endian b
    \<and> m_baseSize b' = m_baseSize b \<and> ba_data b' = ba_data b"
proof -
  note D = ba_invD [OF inv]
  have "m_position b < m_capacity b" using n cur D(6) by linarith
  note C = ba_inv_cur [OF inv this]
  let ?b = "b\<lparr>m_cur := node_of (length (m_nodes b)) (m_baseSize b) (m_position b + n),
    m_position := m_position b + n\<rparr>"
  have "read_loop (m_nodes b) (m_cur b) (m_position b mod m_baseSize b)
      (m_baseSize b - m_position b mod m_baseSize b) n =
    Inr (take n (drop (m_position b) (concat (m_nodes b))), m_cur ?b)"
    using read_loop_correct [OF D(3,1) C(2,4), of n] n C(1,3) D(4,6) by simp
  then have "ba_read n b = Inr (take n (drop (m_position b) (concat (m_nodes b))), ?b)"
    using inv n C(1,4,5) D(1) by (simp add: ba_read_def)
  moreover have "take n (drop (m_position b) (concat (m_nodes b)))
      = take n (drop (m_position b) (ba_data b))"
    using n by (simp add: ba_data_def drop_take min_def)
  moreover have "ba_inv ?b" using D n by (auto simp: ba_inv_def node_of_def)
  moreover have "ba_data ?b = ba_data b" by (simp add: ba_data_def)
  ultimately show ?thesis by auto
qed

lemma setPosition_spec:
  assumes inv: "ba_inv b" and v: "v \<le> m_capacity b"
  shows "\<exists>b'. setPosition v b = Inr b' \<and> ba_inv b' \<and> m_position b' = v
    \<and> m_endian b' = m_endian b \<and> m_baseSize b' = m_baseSize b
    \<and> m_nodes b' = m_nodes b \<and> m_size b' = max (m_size b) v"
proof -
  note D = ba_invD [OF inv]
  have "0 < length (m_nodes b)" using D(2) by simp
  then have "seek_loop (m_nodes b) (Some 0) v =
      Inr (node_of (length (m_nodes b)) (m_baseSize b) v)"
    using seek_loop_correct [OF D(3,1), of 0 v] v D(4) by simp
  then show ?thesis using D v
    by (auto simp: setPosition_def ba_inv_def node_of_def)
qed

section \<open>Scatter lists and files\<close>

text \<open>The addresses a scatter list covers, in order, as offsets into the concatenated nodes.\<close>

definition iov_addrs :: "nat \<Rightarrow> iovec list \<Rightarrow> nat list" where
  "iov_addrs base iovs = concat (map (\<lambda>(c, off, l). [c * base + off..<c * base + off + l]) iovs)"

lemma iov_loop_correct:
  assumes "\<forall>n\<in>set ns. length n = base" "0 < base" "c < length ns" "k < base"
    "c * base + k + len \<le> length ns * base"
  shows "\<exists>iovs. iov_loop ns (Some c) k (base - k) len = Inr iovs
    \<and> iov_addrs base iovs = [c * base + k..<c * base + k + len]"
  using assms
proof (induction "length ns - c" arbitrary: c k len rule: less_induct)
  case less
  note bl = less.prems(1) and c = less.prems(3) and k = less.prems(4) and fits = less.prems(5)
  show ?case
  proof (cases "len \<le> base - k")
    case True
    then show ?thesis by (auto simp: iov_loop.simps iov_addrs_def)
  next
    case False
    have c': "Suc c < length ns" using run_needs_next [OF fits] False k by simp
    have end_eq: "Suc c * base + 0 + (len - (base - k)) = c * base + k + len" using False k by simp
    have m: "length ns - Suc c < length ns - c" using c' by simp
    obtain iovs where I: "iov_loop ns (Some (Suc c)) 0 base (len - (base - k)) = Inr iovs"
      "iov_addrs base iovs = [Suc c * base..<c * base + k + len]"
      using less.hyps [OF m bl less.prems(2) c', of 0 "len - (base - k)"] less.prems(2) fits end_eq
      by (auto simp: ac_simps)
    have "iov_loop ns (Some c) k (base - k) len = Inr ((c, k, base - k) # iovs)"
      using False c' bl I(1) by (subst iov_loop.simps) simp
    moreover have "[c * base + k..<Suc c * base] @ [Suc c * base..<c * base + k + len]
        = [c * base + k..<c * base + k + len]"
      using False k upt_add_eq_append [of "c * base + k" "Suc c * base" "len - (base - k)"] end_eq
      by (simp add: ac_simps)
    ultimately show ?thesis using I(2) k by (simp add: iov_addrs_def add.commute)
  qed
qed

lemma iov_from_spec:
  assumes inv: "ba_inv b" and p: "p < m_capacity b" and fits: "p + len \<le> m_capacity b"
  shows "\<exists>iovs. iov_from b (Some (p div m_baseSize b)) p len = Inr iovs
    \<and> iov_addrs (m_baseSize b) iovs = [p..<p + len]"
proof -
  note D = ba_invD [OF inv]
  have c: "p div m_baseSize b < length (m_nodes b)" using p D(4) by (simp add: less_mult_imp_div_less)
  have k: "p mod m_baseSize b < m_baseSize b" using D(1) by simp
  show ?thesis
    using iov_loop_correct [OF D(3,1) c k, of len] fits D(1,3,4) c k
    by (simp add: iov_from_def Let_def)
qed

lemma file_loop_aligned:
  assumes "\<forall>n\<in>set ns. length n = base" "0 < base" "c * base + rs \<le> length ns * base"
  shows "file_loop base ns (node_of (length ns) base (c * base)) (int (c * base)) (int rs) True =
    Inr (take rs (drop (c * base) (concat ns)))"
  using assms
proof (induction rs arbitrary: c rule: less_induct)
  case (less rs)
  note bl = less.prems(1) and fits = less.prems(3)
  show ?case
  proof (cases "rs = 0")
    case True
    then show ?thesis by (simp add: file_loop.simps)
  next
    case False
    have "c * base < length ns * base" using fits False by linarith
    then have c: "c < length ns" by simp
    have cur: "node_of (length ns) base (c * base) = Some c"
      using c less.prems(2) node_of_offset [of 0 base c "length ns"] by simp
    have nc: "length (ns ! c) = base" using bl c by simp
    have d: "drop (c * base) (concat ns) = ns ! c @ concat (drop (Suc c) ns)"
      using drop_concat_blocks [OF bl c, of 0] by simp
    show ?thesis
    proof (cases "rs \<le> base")
      case True
      then show ?thesis using False cur nc d less.prems(2)
        by (simp add: file_loop.simps [of base ns "Some c"] file_loop.simps [of base ns _ _ 0])
    next
      case big: False
      have "file_loop base ns (next_node ns c) (int (Suc c * base)) (int (rs - base)) True =
          Inr (take (rs - base) (drop (Suc c * base) (concat ns)))"
        using less.IH [of "rs - base" "Suc c"] bl less.prems(2) fits big c
          node_of_next [of base c ns] by (simp add: add.commute)
      moreover have "drop (Suc c * base) (concat ns) = concat (drop (Suc c) ns)"
        using d nc by (metis add.commute append_eq_conv_conj drop_drop mult_Suc)
      moreover have "file_loop base ns (Some c) (int (c * base)) (int rs) True =
          bindr (file_loop base ns (next_node ns c) (int (Suc c * base)) (int (rs - base)) True)
            (\<lambda>rest. Inr (ns ! c @ rest))"
        using big nc less.prems(2) by (subst file_loop.simps) (simp add: Let_def add.commute of_nat_diff)
      ultimately show ?thesis using cur d nc big by simp
    qed
  qed
qed

lemma read_file_loop_spec:
  assumes "ba_inv b" "0 < base"
  shows "\<exists>b'. read_file_loop base content b = Inr b' \<and> ba_inv b' \<and> m_endian b' = m_endian b
    \<and> m_position b' = m_position b + length content
    \<and> ba_data b' = overwrite (m_position b) content (ba_data b)"
  using assms
proof (induction base content b rule: read_file_loop.induct)
  case (1 base content b)
  obtain b1 where w: "ba_write (take base content) b = Inr b1" "ba_inv b1"
    "m_endian b1 = m_endian b" "m_position b1 = m_position b + length (take base content)"
    "ba_data b1 = overwrite (m_position b) (take base content) (ba_data b)"
    using ba_write_spec [OF 1(2)] by blast
  show ?case
  proof (cases "length content < base")
    case True
    then show ?thesis using w 1(3) by (simp add: read_file_loop.simps)
  next
    case False
    then obtain b2 where r: "read_file_loop base (drop base content) b1 = Inr b2" "ba_inv b2"
      "m_endian b2 = m_endian b1" "m_position b2 = m_position b1 + length (drop base content)"
      "ba_data b2 = overwrite (m_position b1) (drop base content) (ba_data b1)"
      using 1(1) [of b1] w(2) 1(3) by auto
    have "m_position b \<le> length (ba_data b)" using 1(2) ba_invD(5) [OF 1(2)] by simp
    from overwrite_overwrite [OF this, of "take base content" "drop base content"]
    have "ba_data b2 = overwrite (m_position b) content (ba_data b)" using r(5) w(4,5) by simp
    then show ?thesis using False w r 1(3) by (simp add: read_file_loop.simps)
  qed
qed

section \<open>Reachable byte arrays\<close>

text \<open>The byte arrays a client can build: the constructor and the mutating operations.\<close>

inductive ba_reachable :: "ByteArray \<Rightarrow> bool" where
  reach_new: "0 < base \<Longrightarrow> ba_reachable (new_ByteArray fresh base)"
| reach_clear: "ba_reachable b \<Longrightarrow> ba_reachable (ba_clear b)"
| reach_endian: "ba_reachable b \<Longrightarrow> ba_reachable (setIsLittleEndian v b)"
| reach_write: "ba_reachable b \<Longrightarrow> ba_write buf b = Inr b' \<Longrightarrow> ba_reachable b'"
| reach_read: "ba_reachable b \<Longrightarrow> ba_read n b = Inr (bs, b') \<Longrightarrow> ba_reachable b'"
| reach_seek: "ba_reachable b \<Longrightarrow> setPosition v b = Inr b' \<Longrightarrow> ba_reachable b'"
| reach_buffers: "ba_reachable b \<Longrightarrow> getWriteBuffers n b = Inr (iovs, b') \<Longrightarrow> ba_reachable b'"
| reach_load: "ba_reachable b \<Longrightarrow> readFromFile f b = Inr (r, b') \<Longrightarrow> ba_reachable b'"

lemma ba_inv_setIsLittleEndian: "ba_inv b \<Longrightarrow> ba_inv (setIsLittleEndian v b)"
  by (simp add: setIsLittleEndian_def Let_def)

lemma ba_inv_write: "ba_inv b \<Longrightarrow> ba_write buf b = Inr b' \<Longrightarrow> ba_inv b'"
  using ba_write_spec [of b buf] by auto

lemma ba_read_fits:
  assumes inv: "ba_inv b" and r: "ba_read n b = Inr r"
  shows "m_position b + n \<le> m_size b" "m_position b < m_capacity b"
proof -
  have "n \<le> getReadSize b" "m_cur b \<noteq> None"
    using r by (auto simp: ba_read_def split: if_splits option.splits)
  then show "m_position b + n \<le> m_size b" "m_position b < m_capacity b"
    using inv ba_invD(4,5,7) [OF inv] by (auto simp: node_of_def split: if_splits)
qed

lemma ba_inv_read: "ba_inv b \<Longrightarrow> ba_read n b = Inr (bs, b') \<Longrightarrow> ba_inv b'"
  using ba_read_fits [of b n] ba_read_spec [of b n] by auto

lemma setPosition_fits: "setPosition v b = Inr b' \<Longrightarrow> v \<le> m_capacity b"
  by (simp add: setPosition_def split: if_splits)

lemma ba_inv_setPosition: "ba_inv b \<Longrightarrow> setPosition v b = Inr b' \<Longrightarrow> ba_inv b'"
  using setPosition_fits [of v b b'] setPosition_spec [of b v] by auto

lemma ba_inv_getWriteBuffers:
  "ba_inv b \<Longrightarrow> getWriteBuffers n b = Inr (iovs, b') \<Longrightarrow> ba_inv b'"
  using addCapacity_spec [of b n]
  by (auto simp: getWriteBuffers_def result_simps split: if_splits)

lemma ba_inv_readFromFile:
  assumes "ba_inv b" "readFromFile f b = Inr (r, b')"
  shows "ba_inv b'"
proof (cases f)
  case (Some content)
  then show ?thesis
    using assms read_file_loop_spec [OF assms(1) ba_invD(1) [OF assms(1)], of content]
    by (auto simp: readFromFile_def)
qed (use assms in \<open>simp add: readFromFile_def\<close>)

lemmas ba_inv_intros = ba_inv_new ba_inv_setIsLittleEndian ba_inv_write ba_inv_read
  ba_inv_setPosition ba_inv_getWriteBuffers ba_inv_readFromFile

section \<open>Properties\<close>

text \<open>
  C5: whatever sequence of operations built a byte array, its position, size and capacity are
  ordered, its nodes hold the capacity, and the node pointer is the node of the position.
\<close>

theorem ba_reachable_inv: "ba_reachable b \<Longrightarrow> ba_inv b"
  by (induction rule: ba_reachable.induct) (auto intro: ba_inv_intros dest: ba_clear_spec)

theorem ba_reachable_inv_witness:
  "ba_inv (ba_clear (setIsLittleEndian True (new_ByteArray (\<lambda>_ _. 0) 4)))"
  by (rule ba_reachable_inv) (intro ba_reachable.intros, simp)

text \<open>
  C4: a write on a well-formed array always succeeds, allocating nodes as needed: the contents are
  the old contents with the written bytes in place of those at the position, extending them at the
  end, and the position moves past them.
\<close>

theorem ba_write_overwrites:
  "ba_inv b \<Longrightarrow> \<exists>b'. ba_write buf b = Inr b' \<and> ba_inv b'
     \<and> m_position b' = m_position b + length buf
     \<and> ba_data b' = overwrite (m_position b) buf (ba_data b)"
  using ba_write_spec [of b buf] by blast

theorem ba_write_overwrites_witness:
  "\<exists>b'. ba_write [1, 2, 3, 4, 5] (new_ByteArray (\<lambda>_ _. 0) 2) = Inr b' \<and> ba_inv b'
     \<and> m_position b' = 5 \<and> ba_data b' = [1, 2, 3, 4, 5]"
  using ba_write_overwrites [OF ba_inv_new, of 2 "[1, 2, 3, 4, 5]" "\<lambda>_ _. 0"]
  by (simp add: overwrite_def eval_nat_numeral)

text \<open>
  C18: a read of a positive number of bytes either throws, exactly when fewer bytes are left, or
  returns the bytes at the position and moves the position past them, leaving the contents alone.
\<close>

theorem ba_read_exact:
  assumes "ba_inv b" "0 < n"
  shows "if m_position b + n \<le> m_size b
    then \<exists>b'. ba_read n b = Inr (take n (drop (m_position b) (ba_data b)), b') \<and> ba_inv b'
           \<and> m_position b' = m_position b + n \<and> ba_data b' = ba_data b
    else ba_read n b = Inl (OutOfRange ''not enough len'')"
proof (cases "m_position b + n \<le> m_size b")
  case True
  then show ?thesis using ba_read_spec [of b n] assms by auto
next
  case False
  then have "n > getReadSize b" using assms ba_invD(5) [OF assms(1)] by auto
  then show ?thesis using False by (simp add: ba_read_def)
qed

theorem ba_read_exact_witness:
  "ba_read 3 (new_ByteArray (\<lambda>_ _. 0) 2) = Inl (OutOfRange ''not enough len'')"
  using ba_read_exact [OF ba_inv_new, of 2 3 "\<lambda>_ _. 0"] by simp

text \<open>
  The scatter lists a socket reads into and writes from cover exactly the addresses that
  follow the position, in order and without gaps, \<open>getReadBuffers\<close> up to the bytes there are and
  \<open>getWriteBuffers\<close> for as many as were asked for.
\<close>

theorem buffers_cover_position:
  assumes inv: "ba_inv b"
  shows "(\<exists>iovs. getReadBuffers len b = Inr (iovs, min len (m_size b - m_position b))
      \<and> iov_addrs (m_baseSize b) iovs
          = [m_position b..<m_position b + min len (m_size b - m_position b)])
    \<and> (\<exists>iovs b'. getWriteBuffers len b = Inr ((iovs, len), b') \<and> ba_inv b'
      \<and> ba_data b' = ba_data b \<and> m_position b + len \<le> m_capacity b'
      \<and> iov_addrs (m_baseSize b) iovs = [m_position b..<m_position b + len])"
    (is "?R \<and> ?W")
proof
  note D = ba_invD [OF inv]
  let ?l = "min len (m_size b - m_position b)"
  show ?R
  proof (cases "?l = 0")
    case True
    then show ?thesis using inv by (auto simp: getReadBuffers_def iov_addrs_def Let_def min_def)
  next
    case False
    then have p: "m_position b < m_capacity b" "m_position b + ?l \<le> m_capacity b"
      using D(5,6) by linarith+
    then show ?thesis using iov_from_spec [OF inv p] ba_inv_cur(1) [OF inv p(1)] False inv
      by (auto simp: getReadBuffers_def Let_def min_def split: if_splits)
  qed
  show ?W
  proof (cases "len = 0")
    case True
    then show ?thesis using inv D(5,6) by (simp add: getWriteBuffers_def iov_addrs_def)
  next
    case False
    obtain cap cur ns where add: "addCapacity len b =
        Inr (b\<lparr>m_nodes := m_nodes b @ ns, m_capacity := cap, m_cur := cur\<rparr>)"
      and inv1: "ba_inv (b\<lparr>m_nodes := m_nodes b @ ns, m_capacity := cap, m_cur := cur\<rparr>)"
      and cap: "m_position b + len \<le> cap"
      using addCapacity_spec [OF inv] by blast
    have d: "take (m_size b) (concat (m_nodes b @ ns)) = ba_data b"
      using D(6,8) by (simp add: ba_data_def)
    from inv1 iov_from_spec [OF inv1, of "m_position b" len] ba_inv_cur(1) [OF inv1] cap False d add
    show ?thesis by (auto simp: getWriteBuffers_def ba_data_def result_simps)
  qed
qed

theorem buffers_cover_position_witness:
  "\<exists>iovs b'. getWriteBuffers 7 (new_ByteArray (\<lambda>_ _. 0) 4) = Inr ((iovs, 7), b')
     \<and> iov_addrs 4 iovs = [0..<7]"
  using buffers_cover_position [OF ba_inv_new, of 4 7 "\<lambda>_ _. 0"] by auto

text \<open>
  A file loaded with \<open>readFromFile\<close> is written back unchanged by \<open>writeToFile\<close> after the
  position is set to the start, whatever the node size.
\<close>

theorem file_round_trip:
  assumes "0 < base"
  shows "\<exists>b b'. readFromFile (Some content) (new_ByteArray fresh base) = Inr (True, b)
    \<and> setPosition 0 b = Inr b' \<and> writeToFile True b' = Inr (True, content)"
proof -
  obtain b where b: "read_file_loop base content (new_ByteArray fresh base) = Inr b" "ba_inv b"
    "ba_data b = content"
    using read_file_loop_spec [OF ba_inv_new [OF assms] assms, of content] by (auto simp: overwrite_def)
  obtain b' where b': "setPosition 0 b = Inr b'" "ba_inv b'" "m_position b' = 0"
    "m_nodes b' = m_nodes b" "m_size b' = m_size b"
    using setPosition_spec [OF b(2), of 0] by auto
  note D = ba_invD [OF b'(2)]
  have "file_loop (m_baseSize b') (m_nodes b') (m_cur b') 0 (int (m_size b')) True = Inr content"
    using file_loop_aligned [OF D(3,1), of 0 "m_size b'"] D(4,6,7) b'(3-5) b(3)
    by (simp add: ba_data_def)
  then have "writeToFile True b' = Inr (True, content)"
    using b'(2,3) by (simp add: writeToFile_def)
  then show ?thesis using b b' by (auto simp: readFromFile_def)
qed

theorem file_round_trip_witness:
  "\<exists>b b'. readFromFile (Some [1, 2, 3]) (new_ByteArray (\<lambda>_ _. 0) 2) = Inr (True, b)
    \<and> setPosition 0 b = Inr b' \<and> writeToFile True b' = Inr (True, [1, 2, 3])"
  using file_round_trip [of 2] by simp

text \<open>
  When the position is inside the last node and not at its start, \<open>writeToFile\<close> takes the
  offset off the bytes left instead of off the node, so that its loop runs past the last node and
  follows a null pointer.
\<close>

theorem writeToFile_unaligned:
  assumes inv: "ba_inv b" and off: "m_position b mod m_baseSize b \<noteq> 0"
    and last: "Suc (m_position b div m_baseSize b) = length (m_nodes b)"
    and left: "m_position b < m_size b"
  shows "writeToFile True b = Inl NullNode"
proof -
  note D = ba_invD [OF inv]
  let ?base = "m_baseSize b" and ?rs = "m_size b - m_position b"
  let ?c = "m_position b div ?base" and ?diff = "m_position b mod ?base"
  have p: "m_position b < m_capacity b" using left D(6) by simp
  note C = ba_inv_cur [OF inv p]
  have "m_capacity b = ?c * ?base + ?base" using D(4) last by (metis add.commute mult_Suc)
  then have rs: "?rs \<le> ?base" using D(6) C(3) by linarith
  have "next_node (m_nodes b) ?c = None" using last by (simp add: next_node_def)
  moreover have "0 < int ?diff" using off by simp
  ultimately have "file_loop ?base (m_nodes b) (Some ?c) (int (m_position b)) (int ?rs) True
      = Inl NullNode"
    using rs left D(1) by (subst file_loop.simps, subst file_loop.simps)
      (simp add: Let_def zmod_int [symmetric])
  then show ?thesis using inv C(1) by (simp add: writeToFile_def)
qed

text \<open>The five bytes written, the position set to 1: one node of eight.\<close>

theorem writeToFile_unaligned_witness:
  "writeToFile True \<lparr>m_baseSize = 8, m_position = 1, m_capacity = 8, m_size = 5,
     m_endian = 2, m_nodes = [[1, 2, 3, 4, 5, 0, 0, 0]], m_cur = Some 0, m_fresh = \<lambda>_ _. 0\<rparr>
   = Inl NullNode"
  by (rule writeToFile_unaligned) (simp_all add: ba_inv_def)

end
