(* ===== verification/ByteCodec.thy ===== *)
theory ByteCodec
  imports ByteArray
begin

text \<open>
  The typed readers and writers of the byte array (\<open>bytearray.cc\<close>): fixed-width integers in the
  array's byte order, zigzag and variable-length integers, strings with a length prefix. Signed
  values are kept as the words that hold them, a \<open>float\<close> and a \<open>double\<close> as their bit patterns
  (the sources only copy them). The locale \<open>byte_buffer\<close> states what the codecs rely on (bytes
  put at the position are found there, a positive number of bytes is got back), and in it every
  reader is shown to parse the bytes of its writer; \<open>seekable_buffer\<close> adds the move back to the
  start of what was written. The byte array of \<open>ByteArray\<close> interprets both.
\<close>

section \<open>Fixed-width integers\<close>

definition writeF :: "'a::len word \<Rightarrow> writer" where
  "writeF v b = (let v = (if m_endian b \<noteq> SYLAR_BYTE_ORDER then byteswap v else v)
     in ba_write (bytes_le v) b)"

definition readF :: "'a::len word reader" where
  "readF b = bindr (ba_read (sizeof TYPE('a)) b) (\<lambda>(bs, b).
     let v = word_le bs
     in if m_endian b = SYLAR_BYTE_ORDER then Inr (v, b) else Inr (byteswap v, b))"

definition writeFint8 :: "byte \<Rightarrow> writer" where
  "writeFint8 v = ba_write (bytes_le v)"

definition writeFuint8 :: "byte \<Rightarrow> writer" where
  "writeFuint8 v = ba_write (bytes_le v)"

definition writeFint16 :: "u16 \<Rightarrow> writer" where
  "writeFint16 = writeF"

definition writeFuint16 :: "u16 \<Rightarrow> writer" where
  "writeFuint16 = writeF"

definition writeFint32 :: "u32 \<Rightarrow> writer" where
  "writeFint32 = writeF"

definition writeFuint32 :: "u32 \<Rightarrow> writer" where
  "writeFuint32 = writeF"

definition writeFint64 :: "u64 \<Rightarrow> writer" where
  "writeFint64 = writeF"

definition writeFuint64 :: "u64 \<Rightarrow> writer" where
  "writeFuint64 = writeF"

definition readFint8 :: "byte reader" where
  "readFint8 b = bindr (ba_read (sizeof TYPE(8)) b) (\<lambda>(bs, b). Inr (word_le bs, b))"

definition readFuint8 :: "byte reader" where
  "readFuint8 b = bindr (ba_read (sizeof TYPE(8)) b) (\<lambda>(bs, b). Inr (word_le bs, b))"

definition readFint16 :: "u16 reader" where
  "readFint16 = readF"

definition readFuint16 :: "u16 reader" where
  "readFuint16 = readF"

definition readFint32 :: "u32 reader" where
  "readFint32 = readF"

definition readFuint32 :: "u32 reader" where
  "readFuint32 = readF"

definition readFint64 :: "u64 reader" where
  "readFint64 = readF"

definition readFuint64 :: "u64 reader" where
  "readFuint64 = readF"

section \<open>Variable-length integers\<close>

text \<open>
  \<open>-v\<close> of the most negative value overflows a signed integer, which the standard leaves
  undefined; on the two's complement hosts of the project it wraps, as here.
\<close>

definition EncodeZigzag :: "'a::len word \<Rightarrow> 'a word" where
  "EncodeZigzag v = (if v <s 0 then (- v) * 2 - 1 else v * 2)"

definition DecodeZigzag :: "'a::len word \<Rightarrow> 'a word" where
  "DecodeZigzag v = drop_bit 1 v XOR - (v AND 1)"

definition EncodeZigzag32 :: "u32 \<Rightarrow> u32" where
  "EncodeZigzag32 = EncodeZigzag"

definition EncodeZigzag64 :: "u64 \<Rightarrow> u64" where
  "EncodeZigzag64 = EncodeZigzag"

definition DecodeZigzag32 :: "u32 \<Rightarrow> u32" where
  "DecodeZigzag32 = DecodeZigzag"

definition DecodeZigzag64 :: "u64 \<Rightarrow> u64" where
  "DecodeZigzag64 = DecodeZigzag"

lemma unat_drop_bit_7 [simp]: "unat (drop_bit 7 (v :: 'a::len word)) = unat v div 128"
  by (simp only: unat_drop_bit_eq) (simp add: drop_bit_eq_div)

text \<open>The bytes the \<open>while\<close> loop of \<open>writeUint32\<close> and \<open>writeUint64\<close> puts into \<open>tmp\<close>.\<close>

function varint :: "'a::len word \<Rightarrow> byte list" where
  "varint value =
     (if unat value \<ge> 0x80
      then (ucast (value AND 0x7F) OR 0x80) # varint (drop_bit 7 value)
      else [ucast value])"
  by pat_completeness auto
termination
  by (relation "measure unat") auto

declare varint.simps [simp del]

definition writeUint32 :: "u32 \<Rightarrow> writer" where
  "writeUint32 value b =
     (let tmp = varint value in if length tmp > 5 then Inl TmpOverflow else ba_write tmp b)"

definition writeUint64 :: "u64 \<Rightarrow> writer" where
  "writeUint64 value b =
     (let tmp = varint value in if length tmp > 10 then Inl TmpOverflow else ba_write tmp b)"

definition writeInt32 :: "u32 \<Rightarrow> writer" where
  "writeInt32 value = writeUint32 (EncodeZigzag32 value)"

definition writeInt64 :: "u64 \<Rightarrow> writer" where
  "writeInt64 value = writeUint64 (EncodeZigzag64 value)"

text \<open>The \<open>for\<close> loop of \<open>readUint32\<close> and \<open>readUint64\<close>, from \<open>i\<close> on.\<close>

function read_varint :: "nat \<Rightarrow> 'a::len word \<Rightarrow> 'a word reader" where
  "read_varint i result b =
     (if i < LENGTH('a) then
        bindr (readFuint8 b) (\<lambda>(c, b).
          if c < 0x80 then Inr (result OR push_bit i (ucast c), b)
          else read_varint (i + 7) (result OR push_bit i (ucast (c AND 0x7f))) b)
      else Inr (result, b))"
  by pat_completeness auto
termination
  by (relation "measure (\<lambda>(i, result :: 'a word, b). LENGTH('a) - i)") auto

declare read_varint.simps [simp del]

definition readUint32 :: "u32 reader" where
  "readUint32 = read_varint 0 0"

definition readUint64 :: "u64 reader" where
  "readUint64 = read_varint 0 0"

definition readInt32 :: "u32 reader" where
  "readInt32 b = bindr (readUint32 b) (\<lambda>(v, b). Inr (DecodeZigzag32 v, b))"

definition readInt64 :: "u64 reader" where
  "readInt64 b = bindr (readUint64 b) (\<lambda>(v, b). Inr (DecodeZigzag64 v, b))"

section \<open>Floating point and strings\<close>

definition writeFloat :: "u32 \<Rightarrow> writer" where
  "writeFloat v = writeFuint32 v"

definition readFloat :: "u32 reader" where
  "readFloat = readFuint32"

definition readDouble :: "u64 reader" where
  "readDouble = readFuint64"

text \<open>The length is converted to the prefix's width, so a longer string loses its high bits.\<close>

definition writeStringF16 :: "byte list \<Rightarrow> writer" where
  "writeStringF16 value b = bindr (writeFuint16 (of_nat (length value)) b) (ba_write value)"

definition writeStringF32 :: "byte list \<Rightarrow> writer" where
  "writeStringF32 value b = bindr (writeFuint32 (of_nat (length value)) b) (ba_write value)"

definition writeStringF64 :: "byte list \<Rightarrow> writer" where
  "writeStringF64 value b = bindr (writeFuint64 (of_nat (length value)) b) (ba_write value)"

definition writeStringVint :: "byte list \<Rightarrow> writer" where
  "writeStringVint value b = bindr (writeUint64 (of_nat (length value)) b) (ba_write value)"

definition writeStringWithoutLength :: "byte list \<Rightarrow> writer" where
  "writeStringWithoutLength value = ba_write value"

text \<open>\<open>std::string::resize\<close> throws above the maximal size of a string.\<close>

definition string_max_size :: nat where
  "string_max_size = 2 ^ 63 - 1"

definition read_sized :: "nat \<Rightarrow> byte list reader" where
  "read_sized len b = (if len > string_max_size then Inl LengthError else ba_read len b)"

definition readStringF16 :: "byte list reader" where
  "readStringF16 b = bindr (readFuint16 b) (\<lambda>(len, b). read_sized (unat len) b)"

definition readStringF32 :: "byte list reader" where
  "readStringF32 b = bindr (readFuint32 b) (\<lambda>(len, b). read_sized (unat len) b)"

definition readStringF64 :: "byte list reader" where
  "readStringF64 b = bindr (readFuint64 b) (\<lambda>(len, b). read_sized (unat len) b)"

definition readStringVint :: "byte list reader" where
  "readStringVint b = bindr (readUint64 b) (\<lambda>(len, b). read_sized (unat len) b)"

section \<open>The interface of a byte buffer\<close>

locale byte_buffer =
  fixes inv :: "'b \<Rightarrow> bool" and pos :: "'b \<Rightarrow> nat" and data :: "'b \<Rightarrow> byte list"
    and order :: "'b \<Rightarrow> nat"
    and put :: "byte list \<Rightarrow> 'b \<Rightarrow> 'e + 'b"
    and get :: "nat \<Rightarrow> 'b \<Rightarrow> 'e + byte list \<times> 'b"
  assumes pos_le: "inv b \<Longrightarrow> pos b \<le> length (data b)"
    and put_law: "inv b \<Longrightarrow> \<exists>b'. put bs b = Inr b' \<and> inv b' \<and> order b' = order b
      \<and> pos b' = pos b + length bs \<and> data b' = overwrite (pos b) bs (data b)"
    and get_law: "inv b \<Longrightarrow> 0 < n \<Longrightarrow> pos b + n \<le> length (data b) \<Longrightarrow>
      \<exists>b'. get n b = Inr (take n (drop (pos b) (data b)), b') \<and> inv b' \<and> order b' = order b
      \<and> pos b' = pos b + n \<and> data b' = data b"
begin

text \<open>
  A reader parses \<open>bs\<close> as \<open>v\<close> in the byte order \<open>e\<close>: wherever the bytes at the position start
  with \<open>bs\<close>, it returns \<open>v\<close> and moves past \<open>bs\<close>, and changes nothing else.
\<close>

definition parses :: "nat \<Rightarrow> ('b \<Rightarrow> 'e + 'v \<times> 'b) \<Rightarrow> byte list \<Rightarrow> 'v \<Rightarrow> bool" where
  "parses e r bs v \<longleftrightarrow> (\<forall>b rest. inv b \<and> order b = e \<and> drop (pos b) (data b) = bs @ rest \<longrightarrow>
     (\<exists>b'. r b = Inr (v, b') \<and> inv b' \<and> order b' = e \<and> pos b' = pos b + length bs
        \<and> data b' = data b))"

lemma parsesI:
  assumes "\<And>b rest. inv b \<Longrightarrow> order b = e \<Longrightarrow> drop (pos b) (data b) = bs @ rest \<Longrightarrow>
    \<exists>b'. r b = Inr (v, b') \<and> inv b' \<and> order b' = e \<and> pos b' = pos b + length bs
        \<and> data b' = data b"
  shows "parses e r bs v"
  using assms by (auto simp: parses_def)

lemma parsesE:
  assumes "parses e r bs v" "inv b" "order b = e" "drop (pos b) (data b) = bs @ rest"
  obtains b' where "r b = Inr (v, b')" "inv b'" "order b' = e" "pos b' = pos b + length bs"
    "data b' = data b" "drop (pos b') (data b') = rest"
proof -
  obtain b' where b': "r b = Inr (v, b')" "inv b'" "order b' = e" "pos b' = pos b + length bs"
    "data b' = data b"
    using assms by (auto simp: parses_def)
  moreover have "drop (pos b') (data b') = drop (length bs) (drop (pos b) (data b))"
    using b' by (simp add: add.commute)
  ultimately show thesis using that assms(4) by simp
qed

lemma parses_get: "bs \<noteq> [] \<Longrightarrow> n = length bs \<Longrightarrow> parses e (get n) bs bs"
proof (rule parsesI)
  fix b rest
  assume ne: "bs \<noteq> []" and n: "n = length bs" and b: "inv b" "order b = e"
    and at: "drop (pos b) (data b) = bs @ rest"
  have "pos b + n \<le> length (data b)"
    using arg_cong [OF at, of length] n pos_le [OF b(1)] by simp
  then show "\<exists>b'. get n b = Inr (bs, b') \<and> inv b' \<and> order b' = e \<and> pos b' = pos b + length bs
      \<and> data b' = data b"
    using get_law [OF b(1), of n] ne n b(2) at by auto
qed

lemma parses_bind:
  assumes "parses e r bs v" "parses e (k v) cs w"
  shows "parses e (\<lambda>b. bindr (r b) (\<lambda>(v, b). k v b)) (bs @ cs) w"
proof (rule parsesI)
  fix b rest
  assume b: "inv b" "order b = e" "drop (pos b) (data b) = (bs @ cs) @ rest"
  obtain b1 where b1: "r b = Inr (v, b1)" "inv b1" "order b1 = e" "pos b1 = pos b + length bs"
    "data b1 = data b" "drop (pos b1) (data b1) = cs @ rest"
    using parsesE [OF assms(1) b(1,2), of "cs @ rest"] b(3) by auto
  show "\<exists>b'. bindr (r b) (\<lambda>(v, b). k v b) = Inr (w, b') \<and> inv b' \<and> order b' = e
      \<and> pos b' = pos b + length (bs @ cs) \<and> data b' = data b"
    using parsesE [OF assms(2) b1(2,3,6)] b1 by (auto simp: add.assoc)
qed

lemma parses_return: "parses e (\<lambda>b. Inr (v, b)) [] v"
  by (rule parsesI) auto

lemma parses_map:
  "parses e r bs v \<Longrightarrow> (\<And>b. order b = e \<Longrightarrow> g v b = Inr (w, b)) \<Longrightarrow>
   parses e (\<lambda>b. bindr (r b) (\<lambda>(v, b). g v b)) bs w"
  using parses_bind [of e r bs v g "[]" w] by (auto simp: parses_def)

lemma parses_cong: "parses e r bs v \<Longrightarrow> (\<And>b. r' b = r b) \<Longrightarrow> parses e r' bs v"
  by (simp add: parses_def)

text \<open>A writer emits \<open>bs\<close> on \<open>b\<close>: it succeeds, and has put \<open>bs\<close> at the position.\<close>

definition emits :: "'b \<Rightarrow> ('b \<Rightarrow> 'e + 'b) \<Rightarrow> byte list \<Rightarrow> bool" where
  "emits b w bs \<longleftrightarrow> (\<exists>b'. w b = Inr b' \<and> inv b' \<and> order b' = order b
     \<and> pos b' = pos b + length bs \<and> data b' = overwrite (pos b) bs (data b))"

lemma emits_put: "inv b \<Longrightarrow> emits b (put bs) bs"
  unfolding emits_def by (rule put_law)

lemma emits_then_put:
  assumes inv: "inv b" and w: "emits b w bs"
  shows "emits b (\<lambda>b. bindr (w b) (put cs)) (bs @ cs)"
proof -
  obtain b1 where b1: "w b = Inr b1" "inv b1" "order b1 = order b" "pos b1 = pos b + length bs"
    "data b1 = overwrite (pos b) bs (data b)"
    using w by (auto simp: emits_def)
  obtain b2 where b2: "put cs b1 = Inr b2" "inv b2" "order b2 = order b1"
    "pos b2 = pos b1 + length cs" "data b2 = overwrite (pos b1) cs (data b1)"
    using put_law [OF b1(2)] by blast
  have "data b2 = overwrite (pos b) (bs @ cs) (data b)"
    using b1 b2 overwrite_overwrite [OF pos_le [OF inv]] by simp
  then show ?thesis using b1 b2 by (simp add: emits_def)
qed

end

locale seekable_buffer = byte_buffer inv pos data order put get
  for inv :: "'b \<Rightarrow> bool" and pos data order put
    and get :: "nat \<Rightarrow> 'b \<Rightarrow> 'e + byte list \<times> 'b" +
  fixes seek :: "nat \<Rightarrow> 'b \<Rightarrow> 'e + 'b"
  assumes seek_law: "inv b \<Longrightarrow> v \<le> length (data b) \<Longrightarrow>
    \<exists>b'. seek v b = Inr b' \<and> inv b' \<and> order b' = order b \<and> pos b' = v \<and> data b' = data b"
begin

text \<open>What a writer put is what its reader gets, after a seek back to where it was put.\<close>

lemma round_trip:
  assumes inv: "inv b" and w: "emits b w bs" and r: "parses (order b) r bs v"
  shows "\<exists>b1 b2 b3. w b = Inr b1 \<and> seek (pos b) b1 = Inr b2 \<and> r b2 = Inr (v, b3)
    \<and> pos b3 = pos b1 \<and> data b3 = data b1"
proof -
  obtain b1 where b1: "w b = Inr b1" "inv b1" "order b1 = order b"
    "pos b1 = pos b + length bs" "data b1 = overwrite (pos b) bs (data b)"
    using w by (auto simp: emits_def)
  have "pos b \<le> length (data b1)" using pos_le [OF b1(2)] b1(4) by simp
  then obtain b2 where b2: "seek (pos b) b1 = Inr b2" "inv b2" "order b2 = order b1"
    "pos b2 = pos b" "data b2 = data b1"
    using seek_law [OF b1(2)] by blast
  have "drop (pos b2) (data b2) = bs @ drop (pos b + length bs) (data b)"
    using b2(4,5) b1(5) pos_le [OF inv] by (simp add: overwrite_def)
  from parsesE [OF r b2(2) _ this] b2 b1(3)
  obtain b3 where "r b2 = Inr (v, b3)" "pos b3 = pos b2 + length bs" "data b3 = data b2"
    by auto
  then show ?thesis using b1 b2 by auto
qed

end

interpretation ba: seekable_buffer ba_inv m_position ba_data m_endian ba_write ba_read setPosition
proof unfold_locales
  fix b :: ByteArray and bs n v
  assume inv: "ba_inv b"
  show "m_position b \<le> length (ba_data b)" using inv ba_invD(5) [OF inv] by simp
  show "\<exists>b'. ba_write bs b = Inr b' \<and> ba_inv b' \<and> m_endian b' = m_endian b
      \<and> m_position b' = m_position b + length bs
      \<and> ba_data b' = overwrite (m_position b) bs (ba_data b)"
    using ba_write_spec [OF inv] by blast
  show "0 < n \<Longrightarrow> m_position b + n \<le> length (ba_data b) \<Longrightarrow>
      \<exists>b'. ba_read n b = Inr (take n (drop (m_position b) (ba_data b)), b') \<and> ba_inv b'
        \<and> m_endian b' = m_endian b \<and> m_position b' = m_position b + n \<and> ba_data b' = ba_data b"
    using ba_read_spec [OF inv, of n] inv by fastforce
  show "v \<le> length (ba_data b) \<Longrightarrow>
      \<exists>b'. setPosition v b = Inr b' \<and> ba_inv b' \<and> m_endian b' = m_endian b
        \<and> m_position b' = v \<and> ba_data b' = ba_data b"
    using setPosition_spec [OF inv, of v] inv ba_invD(6) [OF inv]
    by (fastforce simp: ba_data_def max_def)
qed

section \<open>Zigzag\<close>

lemma zigzag_negative: "(- v) * 2 - 1 = (NOT v) * 2 OR (1 :: 'a::len word)"
proof -
  have "(- v) * 2 - 1 = (NOT v) * 2 + 1"
    by (simp add: not_eq_complement algebra_simps)
  also have "\<dots> = (NOT v) * 2 OR 1"
    by (rule disjunctive_add) (auto simp: bit_twice bit_simps)
  finally show ?thesis .
qed

lemma zigzag_decode_negative:
  assumes v: "v <s 0"
  shows "DecodeZigzag (EncodeZigzag v) = (v :: 'a::len word)"
proof (rule bit_word_eqI)
  fix n assume n: "n < LENGTH('a)"
  have low: "((NOT v) * 2 OR 1) AND 1 = (1 :: 'a word)"
    by (rule bit_word_eqI) (auto simp: bit_twice bit_simps)
  have "\<not> Suc n < LENGTH('a) \<Longrightarrow> n = LENGTH('a) - Suc 0" using n by simp
  then have top: "\<not> Suc n < LENGTH('a) \<Longrightarrow> bit v n" using sless_0_bit v by metis
  have "DecodeZigzag (EncodeZigzag v) = drop_bit 1 ((NOT v) * 2 OR 1) XOR - 1"
    unfolding EncodeZigzag_def DecodeZigzag_def if_P [OF v] zigzag_negative low ..
  then show "bit (DecodeZigzag (EncodeZigzag v)) n = bit v n"
    using n top by (auto simp: bit_twice bit_simps)
qed

lemma zigzag_decode_nonneg:
  assumes v: "\<not> v <s 0"
  shows "DecodeZigzag (EncodeZigzag v) = (v :: 'a::len word)"
proof (rule bit_word_eqI)
  fix n assume n: "n < LENGTH('a)"
  have low: "v * 2 AND 1 = (0 :: 'a word)"
    by (rule bit_word_eqI) (auto simp: bit_twice bit_simps)
  have "\<not> Suc n < LENGTH('a) \<Longrightarrow> n = LENGTH('a) - Suc 0" using n by simp
  then have top: "\<not> Suc n < LENGTH('a) \<Longrightarrow> \<not> bit v n" using sless_0_bit v by metis
  have "DecodeZigzag (EncodeZigzag v) = drop_bit 1 (v * 2) XOR 0"
    unfolding EncodeZigzag_def DecodeZigzag_def if_not_P [OF v] low minus_zero ..
  then show "bit (DecodeZigzag (EncodeZigzag v)) n = bit v n"
    using n top by (auto simp: bit_twice bit_simps)
qed

lemma DecodeZigzag_EncodeZigzag [simp]: "DecodeZigzag (EncodeZigzag v) = (v :: 'a::len word)"
  using zigzag_decode_negative zigzag_decode_nonneg by blast

section \<open>Seven bits at a time\<close>

lemma mask_7: "(0x7F :: 'a::len word) = mask 7"
  by (simp add: mask_eq_exp_minus_1)

lemma bit_0x80: "bit (0x80 :: byte) n \<longleftrightarrow> n = 7"
proof -
  have "(0x80 :: byte) = 2 ^ 7" by simp
  then show ?thesis using bit_exp_iff [of 7 n, where 'a = byte] by auto
qed

lemma byte_less_0x80: "(c :: byte) < 0x80 \<longleftrightarrow> \<not> bit c 7"
proof -
  have "c < 0x80 \<longleftrightarrow> unat c < 2 ^ 7" by (simp add: word_less_nat_alt)
  also have "\<dots> \<longleftrightarrow> \<not> bit c 7"
    unfolding small_bits using bit_imp_le_length [of c]
    by (fastforce simp: numeral_eq_Suc Suc_le_eq dest: le_neq_implies_less)
  finally show ?thesis .
qed

text \<open>A continuation byte carries its flag and the low seven bits; a final byte is the value.\<close>

lemma continuation_flag: "\<not> ((ucast (v AND 0x7F :: 'a::len word) OR 0x80) :: byte) < 0x80"
  by (simp add: byte_less_0x80 bit_0x80 bit_simps)

lemma continuation_bits:
  "ucast (((ucast (v AND 0x7F :: 'a::len word) OR 0x80) :: byte) AND 0x7f) = v AND 0x7f"
  unfolding mask_7
  by (rule bit_word_eqI) (auto simp only: bit_simps bit_0x80 possible_bit_word, auto)

lemma final_byte:
  assumes "unat v < 0x80"
  shows "ucast (ucast v :: byte) = (v :: 'a::len word)" "(ucast v :: byte) < 0x80"
proof -
  show "ucast (ucast v :: byte) = v"
  proof (rule bit_word_eqI)
    fix n assume "n < LENGTH('a)"
    moreover have "n < 8 \<or> 7 \<le> n" by auto
    ultimately show "bit (ucast (ucast v :: byte) :: 'a word) n = bit v n"
      using assms small_bits [of v 7] by (auto simp: bit_simps)
  qed
  show "(ucast v :: byte) < 0x80"
    using assms by (simp add: word_less_nat_alt unsigned_ucast_eq take_bit_nat_eq_self)
qed

lemma join_seven_bits:
  "(r OR push_bit i (v AND 0x7f)) OR push_bit (i + 7) (drop_bit 7 v) =
    r OR push_bit i (v :: 'a::len word)" (is "?l = ?r")
proof (rule bit_word_eqI)
  fix n assume n: "n < LENGTH('a)"
  show "bit ?l n = bit ?r n"
  proof (cases "i + 7 \<le> n")
    case True
    then have "7 + (n - (i + 7)) = n - i" by simp
    then show ?thesis using True n by (auto simp add: mask_7 bit_simps)
  next
    case False
    then have "n - i < 7" by simp
    then show ?thesis using False n by (auto simp add: mask_7 bit_simps)
  qed
qed

lemma varint_not_Nil [simp]: "varint v \<noteq> []"
  by (simp add: varint.simps)

lemma length_varint: "unat v < 2 ^ (7 * Suc n) \<Longrightarrow> length (varint v) \<le> Suc n"
proof (induction n arbitrary: v)
  case 0
  then show ?case by (simp add: varint.simps)
next
  case (Suc n)
  have "unat v < 128 * 2 ^ (7 * Suc n)" using Suc.prems by (simp add: power_add)
  then have "unat (drop_bit 7 v) < 2 ^ (7 * Suc n)"
    by (simp add: less_mult_imp_div_less mult.commute)
  then show ?case using Suc.IH by (subst varint.simps) simp
qed

lemma length_varint32: "length (varint (v :: u32)) \<le> 5"
  using length_varint [of v 4] unsigned_less [of v, where 'a = nat] by simp

lemma length_varint64: "length (varint (v :: u64)) \<le> 10"
  using length_varint [of v 9] unsigned_less [of v, where 'a = nat] by simp

section \<open>Every reader parses what its writer puts\<close>

lemma parses_readFuint8: "ba.parses e readFuint8 [c] c"
  unfolding readFuint8_def sizeof_def
  by (rule ba.parses_map [OF ba.parses_get]) (simp_all add: ucast_id)

lemma parses_readFint8: "ba.parses e readFint8 [c] c"
  using parses_readFuint8 by (simp add: readFuint8_def [abs_def] readFint8_def [abs_def])

lemma parses_readF:
  fixes v :: "'a::len word"
  assumes "8 dvd LENGTH('a)" "bs = bytes_le (if e \<noteq> SYLAR_BYTE_ORDER then byteswap v else v)"
  shows "ba.parses e readF bs v"
proof -
  have "8 \<le> LENGTH('a)" using assms(1) by (simp add: dvd_imp_le)
  then have "0 < length bs" and n: "sizeof TYPE('a) = length bs"
    unfolding assms(2) sizeof_def length_bytes_le by (simp_all add: div_greater_zero_iff)
  then have "bs \<noteq> []" by simp
  from ba.parses_get [OF this n] show ?thesis
    unfolding readF_def by (rule ba.parses_map) (use assms in \<open>auto simp: Let_def\<close>)
qed

lemma read_varint_step:
  "i < LENGTH('a) \<Longrightarrow> read_varint i (r :: 'a::len word) =
     (\<lambda>b. bindr (readFuint8 b) (\<lambda>(c, b). (\<lambda>c b.
        if c < 0x80 then Inr (r OR push_bit i (ucast c), b)
        else read_varint (i + 7) (r OR push_bit i (ucast (c AND 0x7f))) b) c b))"
  by (rule ext) (simp add: read_varint.simps)

lemma parses_read_varint:
  fixes v :: "'a::len word"
  assumes "unat v < 2 ^ (LENGTH('a) - i)" "i < LENGTH('a)"
  shows "ba.parses e (read_varint i r) (varint v) (r OR push_bit i v)"
  using assms
proof (induction v arbitrary: i r rule: varint.induct)
  case (1 v)
  show ?case
  proof (cases "unat v < 0x80")
    case True
    then have "varint v = [ucast v]" by (simp add: varint.simps)
    then show ?thesis
      unfolding read_varint_step [OF 1(3)] using final_byte [OF True]
      by (simp only:) (rule ba.parses_map [OF parses_readFuint8], simp)
  next
    case False
    let ?c = "(ucast (v AND 0x7F) OR 0x80) :: byte"
    have len: "7 < LENGTH('a) - i"
    proof (rule ccontr)
      assume "\<not> 7 < LENGTH('a) - i"
      then have "(2 :: nat) ^ (LENGTH('a) - i) \<le> 2 ^ 7" by (intro power_increasing) auto
      then show False using 1(2) False by simp
    qed
    then have "(2 :: nat) ^ (LENGTH('a) - i) = 128 * 2 ^ (LENGTH('a) - (i + 7))"
      using power_add [of "2 :: nat" 7 "LENGTH('a) - (i + 7)"] by simp
    then have "unat (drop_bit 7 v) < 2 ^ (LENGTH('a) - (i + 7))"
      using 1(2) by (simp add: less_mult_imp_div_less mult.commute)
    then have IH: "ba.parses e (read_varint (i + 7) (r OR push_bit i (v AND 0x7f)))
        (varint (drop_bit 7 v)) (r OR push_bit i v)"
      using 1(1) [of "i + 7" "r OR push_bit i (v AND 0x7f)"] False len
      unfolding join_seven_bits by simp
    have v: "varint v = [?c] @ varint (drop_bit 7 v)" using False by (subst varint.simps) simp
    show ?thesis unfolding v read_varint_step [OF 1(3)]
      by (rule ba.parses_bind [OF parses_readFuint8])
        (use IH in \<open>simp add: continuation_flag continuation_bits\<close>)
  qed
qed

text \<open>
  \<open>reads_back b w r v\<close>: the writer \<open>w\<close> succeeds on \<open>b\<close>, and after a seek back to where it
  started the reader \<open>r\<close> returns \<open>v\<close>, stops where the writer stopped and leaves the contents.
\<close>

definition reads_back :: "ByteArray \<Rightarrow> writer \<Rightarrow> 'v reader \<Rightarrow> 'v \<Rightarrow> bool" where
  "reads_back b w r v \<longleftrightarrow> (\<exists>b1 b2 b3. w b = Inr b1 \<and> setPosition (m_position b) b1 = Inr b2
     \<and> r b2 = Inr (v, b3) \<and> m_position b3 = m_position b1 \<and> ba_data b3 = ba_data b1)"

lemma reads_backI:
  "ba_inv b \<Longrightarrow> ba.emits b w bs \<Longrightarrow> ba.parses (m_endian b) r bs v \<Longrightarrow> reads_back b w r v"
  unfolding reads_back_def by (rule ba.round_trip)

lemma emits_cong: "(w :: writer) b = w' b \<Longrightarrow> ba.emits b w' bs \<Longrightarrow> ba.emits b w bs"
  by (simp add: ba.emits_def)

lemma emits_writeF: "ba_inv b \<Longrightarrow>
  ba.emits b (writeF v) (bytes_le (if m_endian b \<noteq> SYLAR_BYTE_ORDER then byteswap v else v))"
  by (rule emits_cong [OF _ ba.emits_put]) (simp_all add: writeF_def Let_def)

lemma reads_back_F:
  "ba_inv b \<Longrightarrow> 8 dvd LENGTH('a) \<Longrightarrow> reads_back b (writeF v) readF (v :: 'a::len word)"
  by (rule reads_backI [OF _ emits_writeF parses_readF]) auto

lemma bytes_le_byte [simp]: "bytes_le (v :: byte) = [v]"
  by (simp add: bytes_le_def ucast_id)

lemma parses_readUint32: "ba.parses e readUint32 (varint v) v"
  using parses_read_varint [of v 0 e 0] unsigned_less [of v, where 'a = nat]
  by (simp add: readUint32_def)

lemma parses_readUint64: "ba.parses e readUint64 (varint v) v"
  using parses_read_varint [of v 0 e 0] unsigned_less [of v, where 'a = nat]
  by (simp add: readUint64_def)

lemma emits_writeUint:
  "ba_inv b \<Longrightarrow> ba.emits b (writeUint32 v) (varint v)"
  "ba_inv b \<Longrightarrow> ba.emits b (writeUint64 w) (varint w)"
  using length_varint32 [of v] length_varint64 [of w]
  by (auto intro!: emits_cong [OF _ ba.emits_put] simp: writeUint32_def writeUint64_def)

text \<open>A length prefix and the bytes it announces.\<close>

lemma parses_sized:
  assumes "ba.parses e r bs len" "unat len = length value" "value \<noteq> []"
    "length value \<le> string_max_size"
  shows "ba.parses e (\<lambda>b. bindr (r b) (\<lambda>(len, b). read_sized (unat len) b)) (bs @ value) value"
  by (rule ba.parses_bind [OF assms(1)])
     (use assms(2-) ba.parses_get in \<open>auto simp: read_sized_def [abs_def]\<close>)

lemma reads_back_sized:
  assumes inv: "ba_inv b" and w: "ba.emits b w bs" and r: "ba.parses (m_endian b) r bs len"
    and len: "unat len = length value" "value \<noteq> []" "length value \<le> string_max_size"
  shows "reads_back b (\<lambda>b. bindr (w b) (ba_write value))
    (\<lambda>b. bindr (r b) (\<lambda>(len, b). read_sized (unat len) b)) value"
  by (rule reads_backI [OF inv ba.emits_then_put [OF inv w] parses_sized [OF r len]])

section \<open>Properties\<close>

text \<open>
  Every fixed-width integer, signed or not, comes back as written, in either byte order and
  wherever in the array it was written.
\<close>

theorem fixed_width_round_trip:
  assumes "ba_inv b"
  shows "reads_back b (writeFint8 v8) readFint8 v8 \<and> reads_back b (writeFuint8 v8) readFuint8 v8
    \<and> reads_back b (writeFint16 v16) readFint16 v16
    \<and> reads_back b (writeFuint16 v16) readFuint16 v16
    \<and> reads_back b (writeFint32 v32) readFint32 v32
    \<and> reads_back b (writeFuint32 v32) readFuint32 v32
    \<and> reads_back b (writeFint64 v64) readFint64 v64
    \<and> reads_back b (writeFuint64 v64) readFuint64 v64
    \<and> reads_back b (writeFloat v32) readFloat v32"
  using assms reads_back_F [OF assms, of v16] reads_back_F [OF assms, of v32]
    reads_back_F [OF assms, of v64]
    reads_backI [OF assms ba.emits_put [OF assms] parses_readFuint8, of v8]
    reads_backI [OF assms ba.emits_put [OF assms] parses_readFint8, of v8]
  by (simp add: writeFint8_def writeFuint8_def writeFint16_def readFint16_def writeFuint16_def
      readFuint16_def writeFint32_def readFint32_def writeFuint32_def readFuint32_def
      writeFint64_def readFint64_def writeFuint64_def readFuint64_def writeFloat_def readFloat_def)

theorem fixed_width_round_trip_witness:
  "reads_back (new_ByteArray (\<lambda>_ _. 0) 3) (writeFuint32 0xDEADBEEF) readFuint32 0xDEADBEEF"
  using fixed_width_round_trip [OF ba_inv_new [of 3 "\<lambda>_ _. 0"], where ?v32.0 = "0xDEADBEEF"]
  by simp

text \<open>
  C19: variable-length integers come back as written; a 32-bit one never takes more than the five
  bytes of the stack buffer of \<open>writeUint32\<close>, a 64-bit one never more than the ten of
  \<open>writeUint64\<close>, and the zigzag mapping of the signed ones is undone for every value.
\<close>

theorem varint_round_trip:
  assumes "ba_inv b"
  shows "reads_back b (writeUint32 v) readUint32 v \<and> reads_back b (writeUint64 w) readUint64 w
    \<and> reads_back b (writeInt32 v) readInt32 v \<and> reads_back b (writeInt64 w) readInt64 w
    \<and> length (varint v) \<le> 5 \<and> length (varint w) \<le> 10"
proof (intro conjI)
  show "reads_back b (writeUint32 v) readUint32 v" "reads_back b (writeUint64 w) readUint64 w"
    using assms by (auto intro!: reads_backI [OF _ emits_writeUint(1) parses_readUint32]
        reads_backI [OF _ emits_writeUint(2) parses_readUint64])
  show "reads_back b (writeInt32 v) readInt32 v"
    unfolding writeInt32_def readInt32_def [abs_def]
    by (rule reads_backI [OF assms emits_writeUint(1) [OF assms]
          ba.parses_map [OF parses_readUint32]])
       (simp add: DecodeZigzag32_def EncodeZigzag32_def)
  show "reads_back b (writeInt64 w) readInt64 w"
    unfolding writeInt64_def readInt64_def [abs_def]
    by (rule reads_backI [OF assms emits_writeUint(2) [OF assms]
          ba.parses_map [OF parses_readUint64]])
       (simp add: DecodeZigzag64_def EncodeZigzag64_def)
qed (rule length_varint32 length_varint64)+

theorem varint_round_trip_witness:
  "reads_back (new_ByteArray (\<lambda>_ _. 0) 1) (writeInt32 (- 300)) readInt32 (- 300)"
  using varint_round_trip [OF ba_inv_new, of 1 "\<lambda>_ _. 0" "- 300" 0] by simp

text \<open>
  C20: a non-empty string written with a length prefix comes back as written, for the 16 and 32 bit
  prefixes only when its length fits the prefix.
\<close>

theorem string_round_trip:
  assumes inv: "ba_inv b" and ne: "value \<noteq> []" and fits: "length value \<le> string_max_size"
  shows "(length value < 2 ^ 16 \<longrightarrow> reads_back b (writeStringF16 value) readStringF16 value)
    \<and> (length value < 2 ^ 32 \<longrightarrow> reads_back b (writeStringF32 value) readStringF32 value)
    \<and> reads_back b (writeStringF64 value) readStringF64 value
    \<and> reads_back b (writeStringVint value) readStringVint value"
proof (intro conjI impI)
  note parts = writeStringF16_def [abs_def] readStringF16_def [abs_def] writeStringF32_def [abs_def]
    readStringF32_def [abs_def] writeStringF64_def [abs_def] readStringF64_def [abs_def]
    writeStringVint_def [abs_def] readStringVint_def [abs_def] writeFuint16_def readFuint16_def
    writeFuint32_def readFuint32_def writeFuint64_def readFuint64_def
  note F = reads_back_sized [OF inv emits_writeF [OF inv] parses_readF [OF _ refl] _ ne fits]
  have l64: "unat (of_nat (length value) :: u64) = length value"
    using fits by (simp add: string_max_size_def unat_of_nat take_bit_nat_eq_self)
  show "reads_back b (writeStringF16 value) readStringF16 value" if "length value < 2 ^ 16"
    unfolding parts using that by (intro F) (simp_all add: unat_of_nat take_bit_nat_eq_self)
  show "reads_back b (writeStringF32 value) readStringF32 value" if "length value < 2 ^ 32"
    unfolding parts using that by (intro F) (simp_all add: unat_of_nat take_bit_nat_eq_self)
  show "reads_back b (writeStringF64 value) readStringF64 value"
    unfolding parts using l64 by (intro F) simp_all
  show "reads_back b (writeStringVint value) readStringVint value"
    unfolding parts
    by (rule reads_back_sized [OF inv emits_writeUint(2) [OF inv] parses_readUint64 l64 ne fits])
qed

theorem string_round_trip_witness:
  "reads_back (new_ByteArray (\<lambda>_ _. 0) 4) (writeStringF16 [104, 105]) readStringF16 [104, 105]"
  using string_round_trip [OF ba_inv_new, of 4 "[104, 105]" "\<lambda>_ _. 0"]
  by (simp add: string_max_size_def)

end
