(* ===== verification/SocketStream.thy ===== *)
theory SocketStream
  imports ByteArray
begin

text \<open>
  Streams (\<open>stream.h\<close>, \<open>stream.cc\<close>, \<open>stream/socket_stream.cc\<close>). The socket below is a parameter:
  \<open>recv n s\<close> and \<open>send bs s\<close> give the result of the call, for \<open>recv\<close> also the bytes received, and the
  state of the socket after it. Reading into a byte array hands the kernel the array's scatter list;
  \<open>scatter\<close> stores the bytes received through it and \<open>gather\<close> collects those to send. The loops of
  \<open>readFixSize\<close> and \<open>writeFixSize\<close> are one definition over the operation they repeat. The locale
  \<open>recv_contract\<close> states what \<open>recv(2)\<close> promises; in it a read is shown to be a \<open>write\<close> of the bytes
  received to the array, and the loop to fill it with exactly the bytes asked for.
\<close>

section \<open>Scatter and gather\<close>

fun scatter :: "iovec list \<Rightarrow> byte list \<Rightarrow> byte list list \<Rightarrow> byte list list" where
  "scatter [] bs ns = ns"
| "scatter ((c, off, l) # iovs) bs ns =
     scatter iovs (drop l bs) (ns[c := overwrite off (take l bs) (ns ! c)])"

definition gather :: "iovec list \<Rightarrow> byte list list \<Rightarrow> byte list" where
  "gather iovs ns = concat (map (\<lambda>(c, off, l). take l (drop off (ns ! c))) iovs)"

section \<open>\<open>SocketStream\<close>\<close>

type_synonym 's recv_fun = "nat \<Rightarrow> 's \<Rightarrow> (int \<times> byte list) \<times> 's"

type_synonym 's send_fun = "byte list \<Rightarrow> 's \<Rightarrow> int \<times> 's"

definition SocketStream_read :: "bool \<Rightarrow> 's recv_fun \<Rightarrow> nat \<Rightarrow> 's \<Rightarrow> (int \<times> byte list) \<times> 's" where
  "SocketStream_read connected recv len s = (if \<not> connected then ((- 1, []), s) else recv len s)"

definition SocketStream_read_ba ::
  "bool \<Rightarrow> 's recv_fun \<Rightarrow> nat \<Rightarrow> ByteArray \<times> 's \<Rightarrow> ba_error + int \<times> ByteArray \<times> 's" where
  "SocketStream_read_ba connected recv len = (\<lambda>(ba, s).
     if \<not> connected then Inr (- 1, ba, s)
     else bindr (getWriteBuffers len ba) (\<lambda>((iovs, _), ba).
       case recv len s of ((rt, bs), s) \<Rightarrow>
         let ba = ba\<lparr>m_nodes := scatter iovs bs (m_nodes ba)\<rparr>
         in if rt > 0 then bindr (setPosition (m_position ba + nat rt) ba) (\<lambda>ba. Inr (rt, ba, s))
            else Inr (rt, ba, s)))"

definition SocketStream_write :: "bool \<Rightarrow> 's send_fun \<Rightarrow> byte list \<Rightarrow> 's \<Rightarrow> int \<times> 's" where
  "SocketStream_write connected send bs s = (if \<not> connected then (- 1, s) else send bs s)"

definition SocketStream_write_ba ::
  "bool \<Rightarrow> 's send_fun \<Rightarrow> nat \<Rightarrow> ByteArray \<times> 's \<Rightarrow> ba_error + int \<times> ByteArray \<times> 's" where
  "SocketStream_write_ba connected send len = (\<lambda>(ba, s).
     if \<not> connected then Inr (- 1, ba, s)
     else bindr (getReadBuffers len ba) (\<lambda>(iovs, _).
       case send (gather iovs (m_nodes ba)) s of (rt, s) \<Rightarrow>
         if rt > 0 then bindr (setPosition (m_position ba + nat rt) ba) (\<lambda>ba. Inr (rt, ba, s))
         else Inr (rt, ba, s)))"

section \<open>\<open>Stream\<close>\<close>

text \<open>
  The loop of the four functions: \<open>left\<close> is an \<open>int64_t\<close>, the operation is asked for \<open>left\<close> bytes
  as long as there are any.
\<close>

function fix_loop :: "(nat \<Rightarrow> 'st \<Rightarrow> 'e + int \<times> 'st) \<Rightarrow> int \<Rightarrow> int \<Rightarrow> 'st \<Rightarrow> 'e + int \<times> 'st" where
  "fix_loop oper tot left st =
     (if left \<le> 0 then Inr (tot, st)
      else case oper (nat left) st of
        Inl e \<Rightarrow> Inl e
      | Inr (len, st) \<Rightarrow> if len \<le> 0 then Inr (len, st) else fix_loop oper tot (left - len) st)"
  by pat_completeness auto
termination
  by (relation "measure (\<lambda>(_, _, left, _). nat left)") auto

declare fix_loop.simps [simp del]

text \<open>The result is \<open>length\<close> converted from \<open>size_t\<close> to \<open>int\<close>, \<open>left\<close> the same converted to \<open>int64_t\<close>.\<close>

definition fix_size :: "(nat \<Rightarrow> 'st \<Rightarrow> 'e + int \<times> 'st) \<Rightarrow> u64 \<Rightarrow> 'st \<Rightarrow> 'e + int \<times> 'st" where
  "fix_size oper len = fix_loop oper (sint (ucast len :: u32)) (sint len)"

definition readFixSize ::
  "bool \<Rightarrow> 's recv_fun \<Rightarrow> u64 \<Rightarrow> byte list \<times> 's \<Rightarrow> ba_error + int \<times> byte list \<times> 's" where
  "readFixSize connected recv = fix_size (\<lambda>left (buf, s).
     case SocketStream_read connected recv left s of ((rt, bs), s) \<Rightarrow> Inr (rt, buf @ bs, s))"

definition readFixSize_ba ::
  "bool \<Rightarrow> 's recv_fun \<Rightarrow> u64 \<Rightarrow> ByteArray \<times> 's \<Rightarrow> ba_error + int \<times> ByteArray \<times> 's" where
  "readFixSize_ba connected recv = fix_size (SocketStream_read_ba connected recv)"

text \<open>Writing a buffer: \<open>bs\<close> is what is left of it.\<close>

definition writeFixSize ::
  "bool \<Rightarrow> 's send_fun \<Rightarrow> u64 \<Rightarrow> byte list \<times> 's \<Rightarrow> ba_error + int \<times> byte list \<times> 's" where
  "writeFixSize connected send = fix_size (\<lambda>left (bs, s).
     case SocketStream_write connected send (take left bs) s of (rt, s) \<Rightarrow> Inr (rt, drop (nat rt) bs, s))"

definition writeFixSize_ba ::
  "bool \<Rightarrow> 's send_fun \<Rightarrow> u64 \<Rightarrow> ByteArray \<times> 's \<Rightarrow> ba_error + int \<times> ByteArray \<times> 's" where
  "writeFixSize_ba connected send = fix_size (SocketStream_write_ba connected send)"

text \<open>
  What a socket delivers to a reader that asks it for \<open>n\<close> bytes, and again for the rest as long as something comes: the
  bytes of all the calls, the result of the call that brought nothing, if there was one, and the socket after them.
\<close>

function delivered :: "'s recv_fun \<Rightarrow> nat \<Rightarrow> 's \<Rightarrow> byte list \<times> int option \<times> 's" where
  "delivered recv n s =
     (if n = 0 then ([], None, s)
      else case recv n s of ((rt, bs), s) \<Rightarrow>
        if rt \<le> 0 then (bs, Some rt, s)
        else case delivered recv (n - nat rt) s of (bs', fail, s') \<Rightarrow> (bs @ bs', fail, s'))"
  by pat_completeness auto
termination
  by (relation "measure (\<lambda>(_, n, _). n)") auto

declare delivered.simps [simp del]

section \<open>Scatter lists stay inside their nodes\<close>

lemma iov_loop_inside:
  assumes "iov_loop ns (Some c) k (base - k) len = Inr iovs" "\<forall>n\<in>set ns. length n = base" "c < length ns" "k \<le> base"
  shows "\<forall>(c, off, l)\<in>set iovs. c < length ns \<and> off + l \<le> base"
  using assms
proof (induction "length ns - c" arbitrary: c k len iovs rule: less_induct)
  case less
  show ?case
  proof (cases "len \<le> base - k")
    case True
    then show ?thesis using less.prems by (auto simp: iov_loop.simps split: if_splits)
  next
    case False
    obtain rest where c: "Suc c < length ns" and
      r: "iov_loop ns (Some (Suc c)) 0 (base - 0) (len - (base - k)) = Inr rest" "iovs = (c, k, base - k) # rest"
      using less.prems False
      by (subst (asm) iov_loop.simps) (auto simp: bindr_eq_Inr next_node_def split: if_splits option.splits)
    have "\<forall>(c, off, l)\<in>set rest. c < length ns \<and> off + l \<le> base"
      by (rule less.hyps [OF _ r(1) less.prems(2) c]) (use c in simp_all)
    then show ?thesis using r(2) less.prems(3,4) by auto
  qed
qed

lemma upt_append_split:
  assumes "[a..<a + l] @ xs = [p..<p + len]" "0 < l"
  shows "a = p" "l \<le> len" "xs = [p + l..<p + len]"
proof -
  show l: "l \<le> len" using arg_cong [OF assms(1), of length] by simp
  show "a = p" using arg_cong [OF assms(1), of hd] assms(2) l by simp
  have "xs = drop l ([a..<a + l] @ xs)" by simp
  then show "xs = [p + l..<p + len]" unfolding assms(1) by (simp add: drop_upt)
qed

text \<open>Storing bytes through a scatter list that covers consecutive addresses overwrites them there.\<close>

lemma scatter_overwrite:
  assumes "\<forall>n\<in>set ns. length n = base" "\<forall>(c, off, l)\<in>set iovs. c < length ns \<and> off + l \<le> base"
    "iov_addrs base iovs = [p..<p + len]" "length bs \<le> len" "p + len \<le> length ns * base"
  shows "concat (scatter iovs bs ns) = overwrite p bs (concat ns)
    \<and> length (scatter iovs bs ns) = length ns \<and> (\<forall>n\<in>set (scatter iovs bs ns). length n = base)"
  using assms
proof (induction iovs arbitrary: p len bs ns)
  case Nil
  have "length (concat ns) = length ns * base" using Nil(1) by (induction ns) auto
  moreover have "len = 0" using arg_cong [OF Nil(3), of length] by (simp add: iov_addrs_def)
  ultimately show ?case using Nil by simp
next
  case (Cons iov iovs)
  obtain c off l where iov: "iov = (c, off, l)" by (cases iov)
  have c: "c < length ns" "off + l \<le> base" using Cons.prems(2) iov by auto
  have len: "length (ns ! c) = base" using Cons.prems(1) c(1) by simp
  let ?ns = "ns[c := overwrite off (take l bs) (ns ! c)]"
  have cat: "length (concat ns) = length ns * base" using Cons.prems(1) by (induction ns) auto
  have ns: "\<forall>n\<in>set ?ns. length n = base" "concat ?ns = overwrite (c * base + off) (take l bs) (concat ns)"
    using Cons.prems(1) c len overwrite_concat_blocks [OF Cons.prems(1) c(1), of off "take l bs"]
    by (auto dest!: set_update_subset_insert [THEN subsetD])
  have addrs: "[c * base + off..<c * base + off + l] @ iov_addrs base iovs = [p..<p + len]"
    using Cons.prems(3) iov by (simp add: iov_addrs_def)
  show ?case
  proof (cases "l = 0")
    case True
    have "concat (scatter iovs bs ?ns) = overwrite p bs (concat ?ns)
        \<and> length (scatter iovs bs ?ns) = length ?ns \<and> (\<forall>n\<in>set (scatter iovs bs ?ns). length n = base)"
      using Cons.prems(2,4,5) addrs True ns(1) by (intro Cons.IH) auto
    moreover have "?ns = ns" using True c len by simp
    ultimately show ?thesis using iov True by simp
  next
    case False
    then have p: "c * base + off = p" "l \<le> len" "iov_addrs base iovs = [p + l..<p + len]"
      using upt_append_split [OF addrs] by auto
    have "concat (scatter iovs (drop l bs) ?ns) = overwrite (p + l) (drop l bs) (concat ?ns)
        \<and> length (scatter iovs (drop l bs) ?ns) = length ?ns
        \<and> (\<forall>n\<in>set (scatter iovs (drop l bs) ?ns). length n = base)"
      using Cons.prems(2,4,5) p ns(1) by (intro Cons.IH [where len = "len - l"]) auto
    moreover have "overwrite (p + l) (drop l bs) (overwrite p (take l bs) (concat ns)) = overwrite p bs (concat ns)"
    proof (cases "l \<le> length bs")
      case True
      then show ?thesis
        using overwrite_overwrite [of p "concat ns" "take l bs" "drop l bs"] Cons.prems(5) cat by simp
    next
      case False
      then show ?thesis using Cons.prems(5) cat p(2) by (simp add: max_def)
    qed
    ultimately show ?thesis unfolding iov scatter.simps ns(2) p(1) by (metis length_list_update)
  qed
qed

section \<open>What \<open>recv\<close> promises\<close>

locale recv_contract =
  fixes recv :: "'s recv_fun"
  assumes recv_len: "recv n s = ((rt, bs), s') \<Longrightarrow> rt \<le> int n \<and> length bs = nat rt"
begin

lemma read_ba_spec:
  assumes inv: "ba_inv b" and n: "0 < n" and r: "recv n s = ((rt, bs), s')"
  shows "\<exists>b'. SocketStream_read_ba True recv n (b, s) = Inr (rt, b', s') \<and> ba_inv b'
    \<and> m_position b' = m_position b + length bs \<and> ba_data b' = overwrite (m_position b) bs (ba_data b)"
proof -
  let ?p = "m_position b" and ?base = "m_baseSize b"
  have len: "length bs \<le> n" using recv_len [OF r] by auto
  obtain cap cur ns where a: "addCapacity n b = Inr (b\<lparr>m_nodes := m_nodes b @ ns, m_capacity := cap, m_cur := cur\<rparr>)"
    "ba_inv (b\<lparr>m_nodes := m_nodes b @ ns, m_capacity := cap, m_cur := cur\<rparr>)" "?p + n \<le> cap"
    using addCapacity_spec [OF inv, of n] by blast
  define b1 where "b1 = b\<lparr>m_nodes := m_nodes b @ ns, m_capacity := cap, m_cur := cur\<rparr>"
  have b1: "ba_inv b1" "m_position b1 = ?p" "m_size b1 = m_size b" "m_baseSize b1 = ?base"
    "m_capacity b1 = cap" "m_nodes b1 = m_nodes b @ ns" "addCapacity n b = Inr b1"
    using a by (simp_all add: b1_def)
  note D = ba_invD [OF b1(1)]
  have p: "?p < cap" using a(3) n by simp
  obtain iovs where io: "iov_from b1 (m_cur b1) ?p n = Inr iovs" "iov_addrs ?base iovs = [?p..<?p + n]"
    using iov_from_spec [OF b1(1), of ?p n] p a(3) b1 by (auto simp: ba_inv_def)
  have inside: "\<forall>(c, off, l)\<in>set iovs. c < length (m_nodes b1) \<and> off + l \<le> ?base"
    using io(1) D(1,3) b1 p ba_inv_cur [OF b1(1)]
      iov_loop_inside [of "m_nodes b1" "?p div ?base" "?p mod ?base" ?base n iovs]
    by (simp add: iov_from_def Let_def less_imp_le)
  let ?ns = "scatter iovs bs (m_nodes b1)"
  have sc: "concat ?ns = overwrite ?p bs (concat (m_nodes b1))" "length ?ns = length (m_nodes b1)"
    "\<forall>n\<in>set ?ns. length n = ?base"
    using scatter_overwrite [OF _ inside io(2) len] D(3,4) a(3) b1 by auto
  define b2 where "b2 = b1\<lparr>m_nodes := ?ns\<rparr>"
  have b2: "ba_inv b2" "m_position b2 = ?p" "m_size b2 = m_size b" "m_capacity b2 = cap"
    "concat (m_nodes b2) = overwrite ?p bs (concat (m_nodes b1))"
    using b1 sc D(1,2) by (auto simp: b2_def ba_inv_def)
  have g: "getWriteBuffers n b = Inr ((iovs, n), b1)"
    using n io(1) b1 by (simp add: getWriteBuffers_def)
  have rd: "SocketStream_read_ba True recv n (b, s) = (if rt > 0
      then bindr (setPosition (?p + nat rt) b2) (\<lambda>ba. Inr (rt, ba, s')) else Inr (rt, b2, s'))"
    using r by (simp add: SocketStream_read_ba_def g b2(2) b2_def [symmetric])
  have "m_size b \<le> length (concat (m_nodes b))" using ba_invD(6,8) [OF inv] by simp
  then have old: "take (m_size b) (concat (m_nodes b1)) = ba_data b" using b1(6) by (simp add: ba_data_def)
  have pos: "?p \<le> m_size b" "m_size b \<le> length (concat (m_nodes b1))" using D(5,6,8) b1 by auto
  show ?thesis
  proof (cases "rt > 0")
    case True
    have "?p + nat rt \<le> m_capacity b2" using a(3) b2(4) recv_len [OF r] by linarith
    then obtain b3 where b3: "setPosition (?p + nat rt) b2 = Inr b3" "ba_inv b3" "m_position b3 = ?p + nat rt"
      "m_nodes b3 = m_nodes b2" "m_size b3 = max (m_size b) (?p + nat rt)"
      using setPosition_spec [OF b2(1)] b2(3) by metis
    have "ba_data b3 = overwrite ?p bs (ba_data b)"
      using take_overwrite_extend [OF pos, of bs] recv_len [OF r] b3(4,5) b2(5) old by (simp add: ba_data_def)
    then show ?thesis using rd True b3 recv_len [OF r] by simp
  next
    case False
    then have "bs = []" using recv_len [OF r] by simp
    then show ?thesis using rd False b2 pos old ba_invD(6,8) [OF inv] by (simp add: ba_data_def)
  qed
qed

text \<open>What arrives is at most what is asked for, and all of it exactly when no call failed.\<close>

lemma delivered_length:
  assumes "delivered recv n s = (bs, fail, s')"
  shows "case fail of None \<Rightarrow> length bs = n | Some rt \<Rightarrow> rt \<le> 0 \<and> length bs < n"
  using assms
proof (induction n arbitrary: s bs rule: less_induct)
  case (less n)
  obtain rt b1 s1 where r: "recv n s = ((rt, b1), s1)" by (metis surj_pair)
  obtain b2 f2 s2 where h: "delivered recv (n - nat rt) s1 = (b2, f2, s2)" by (metis surj_pair)
  have len: "rt \<le> int n" "length b1 = nat rt" using recv_len [OF r] by auto
  show ?case
  proof (cases "n = 0 \<or> rt \<le> 0")
    case True
    then show ?thesis using less.prems r len by (auto simp: delivered.simps [of _ n] split: if_splits)
  next
    case False
    then have "bs = b1 @ b2" "fail = f2" using less.prems r h by (auto simp: delivered.simps [of _ n])
    then show ?thesis using less.IH [of "n - nat rt" s1 b2] h False len less.prems r
      by (auto simp: delivered.simps [of _ n] split: option.splits)
  qed
qed

text \<open>The loop stores exactly the bytes that the calls deliver, and gives the result of the call that failed.\<close>

lemma fix_loop_spec:
  assumes "ba_inv b" "delivered recv (nat left) s = (bs, fail, s')"
  shows "\<exists>b'. fix_loop (SocketStream_read_ba True recv) tot left (b, s) = Inr (case fail of None \<Rightarrow> tot | Some rt \<Rightarrow> rt, b', s')
    \<and> ba_inv b' \<and> m_position b' = m_position b + length bs \<and> ba_data b' = overwrite (m_position b) bs (ba_data b)"
  using assms
proof (induction "nat left" arbitrary: left b s bs rule: less_induct)
  case less
  have p: "m_position b \<le> length (ba_data b)" using ba_invD(5) [OF less.prems(1)] less.prems(1) by simp
  show ?case
  proof (cases "left \<le> 0")
    case True
    then show ?thesis using less.prems p by (auto simp: fix_loop.simps delivered.simps [of _ 0])
  next
    case False
    obtain rt b1 s1 where r: "recv (nat left) s = ((rt, b1), s1)" by (metis surj_pair)
    obtain a1 where a1: "SocketStream_read_ba True recv (nat left) (b, s) = Inr (rt, a1, s1)" "ba_inv a1"
      "m_position a1 = m_position b + length b1" "ba_data a1 = overwrite (m_position b) b1 (ba_data b)"
      using read_ba_spec [OF less.prems(1) _ r] False by auto
    show ?thesis
    proof (cases "rt \<le> 0")
      case True
      then show ?thesis using less.prems(2) False a1 r
        by (subst fix_loop.simps) (auto simp: delivered.simps [of _ "nat left"])
    next
      case pos: False
      obtain b2 where h: "delivered recv (nat (left - rt)) s1 = (b2, fail, s')" "bs = b1 @ b2"
        using less.prems(2) False pos r nat_diff_distrib' [of left rt]
        by (auto simp: delivered.simps [of _ "nat left"] split: prod.splits)
      obtain b' where "fix_loop (SocketStream_read_ba True recv) tot (left - rt) (a1, s1)
          = Inr (case fail of None \<Rightarrow> tot | Some rt \<Rightarrow> rt, b', s')"
        "ba_inv b'" "m_position b' = m_position a1 + length b2" "ba_data b' = overwrite (m_position a1) b2 (ba_data a1)"
        using less.hyps [OF _ a1(2) h(1)] pos False by auto
      then show ?thesis using False pos a1(1,3,4) h(2) overwrite_overwrite [OF p, of b1 b2]
        by (subst fix_loop.simps) auto
    qed
  qed
qed

end

text \<open>
  A socket's receive queue as the kernel keeps it: the segments that arrived. A call takes from the
  first one, and returns 0 when there is none and the peer has closed.
\<close>

fun queue_recv :: "byte list list recv_fun" where
  "queue_recv n [] = ((0, []), [])"
| "queue_recv n (seg # segs) =
     (let bs = take n seg
      in ((int (length bs), bs), if length seg \<le> n then segs else drop n seg # segs))"

interpretation queue: recv_contract queue_recv
proof
  fix n :: nat and s s' :: "byte list list" and rt bs
  show "queue_recv n s = ((rt, bs), s') \<Longrightarrow> rt \<le> int n \<and> length bs = nat rt"
    by (cases s) (auto simp: Let_def)
qed

section \<open>Properties\<close>

text \<open>
  C21: reading from a connected socket into a byte array, through the scatter list of the free space and
  the move of the position, has the same effect as \<open>write\<close> of the bytes received: the same contents,
  the same position, and the invariant kept.
\<close>

theorem stream_read_is_write:
  assumes "\<And>n s rt bs s'. recv n s = ((rt, bs), s') \<Longrightarrow> rt \<le> int n \<and> length bs = nat rt"
    and "ba_inv b" "0 < n" "recv n s = ((rt, bs), s')"
  shows "\<exists>b1 b2. SocketStream_read_ba True recv n (b, s) = Inr (rt, b1, s') \<and> ba_write bs b = Inr b2
    \<and> ba_inv b1 \<and> ba_inv b2 \<and> ba_data b1 = ba_data b2 \<and> m_position b1 = m_position b2"
proof -
  have "recv_contract recv" by unfold_locales (rule assms(1))
  from recv_contract.read_ba_spec [OF this assms(2-4)] ba_write_spec [OF assms(2), of bs]
  show ?thesis by fastforce
qed

theorem stream_read_is_write_witness:
  "\<exists>b1 b2. SocketStream_read_ba True queue_recv 4 (new_ByteArray (\<lambda>_ _. 0) 3, [[1, 2], [3]]) = Inr (2, b1, [[3]])
     \<and> ba_write [1, 2] (new_ByteArray (\<lambda>_ _. 0) 3) = Inr b2 \<and> ba_data b1 = ba_data b2"
  using stream_read_is_write [of queue_recv "new_ByteArray (\<lambda>_ _. 0) 3" 4 "[[1, 2], [3]]" 2 "[1, 2]" "[[3]]"]
    queue.recv_len ba_inv_new [of 3] by auto

text \<open>
  C22: \<open>readFixSize\<close> into a byte array always returns, and what it does is what the socket delivers: the bytes of the
  successive \<open>recv\<close> calls, in their order and nothing else, are at the position, which has moved behind them. It
  returns the length asked for, below two gigabytes, when the calls brought all of it, and otherwise the result of the
  call that failed or met the end of the stream, after fewer bytes.
\<close>

theorem readFixSize_exact:
  assumes "\<And>n s rt bs s'. recv n s = ((rt, bs), s') \<Longrightarrow> rt \<le> int n \<and> length bs = nat rt"
    and "ba_inv b" "unat len < 2 ^ 31" "delivered recv (unat len) s = (bs, fail, s')"
  shows "(\<exists>b'. readFixSize_ba True recv len (b, s)
        = Inr (case fail of None \<Rightarrow> int (unat len) | Some rt \<Rightarrow> rt, b', s')
      \<and> ba_inv b' \<and> m_position b' = m_position b + length bs \<and> ba_data b' = overwrite (m_position b) bs (ba_data b))
    \<and> (case fail of None \<Rightarrow> length bs = unat len | Some rt \<Rightarrow> rt \<le> 0 \<and> length bs < unat len)"
proof
  have c: "recv_contract recv" by unfold_locales (rule assms(1))
  have "delivered recv (nat (int (unat len))) s = (bs, fail, s')" using assms(4) by simp
  from recv_contract.fix_loop_spec [OF c assms(2) this, of "int (unat len)"]
  show "\<exists>b'. readFixSize_ba True recv len (b, s) = Inr (case fail of None \<Rightarrow> int (unat len) | Some rt \<Rightarrow> rt, b', s')
      \<and> ba_inv b' \<and> m_position b' = m_position b + length bs \<and> ba_data b' = overwrite (m_position b) bs (ba_data b)"
    unfolding readFixSize_ba_def fix_size_def sint_small [OF assms(3)] .
  show "case fail of None \<Rightarrow> length bs = unat len | Some rt \<Rightarrow> rt \<le> 0 \<and> length bs < unat len"
    by (rule recv_contract.delivered_length [OF c assms(4)])
qed

text \<open>Three bytes from two segments, and the end of the stream after four of five.\<close>

theorem readFixSize_exact_witness:
  "(\<exists>b'. readFixSize_ba True queue_recv 3 (new_ByteArray (\<lambda>_ _. 0) 2, [[1, 2], [3, 4]]) = Inr (3, b', [[4]])
      \<and> ba_data b' = [1, 2, 3])
   \<and> (\<exists>b'. readFixSize_ba True queue_recv 5 (new_ByteArray (\<lambda>_ _. 0) 2, [[1, 2], [3, 4]]) = Inr (0, b', [])
      \<and> ba_data b' = [1, 2, 3, 4])"
proof -
  have "delivered queue_recv 3 [[1, 2], [3, 4]] = ([1, 2, 3], None, [[4]])"
    "delivered queue_recv 5 [[1, 2], [3, 4]] = ([1, 2, 3, 4], Some 0, [])"
    by (simp_all add: delivered.simps Let_def)
  then show ?thesis
    using readFixSize_exact [of queue_recv "new_ByteArray (\<lambda>_ _. 0) 2" 3 "[[1, 2], [3, 4]]"]
      readFixSize_exact [of queue_recv "new_ByteArray (\<lambda>_ _. 0) 2" 5 "[[1, 2], [3, 4]]"] queue.recv_len ba_inv_new [of 2]
    by (auto simp: overwrite_def)
qed

end
