(* ===== verification/Fiber.thy ===== *)
theory Fiber
  imports Prelude
begin

text \<open>
  Fibers (\<open>fiber.h\<close>, \<open>fiber.cc\<close>). A fiber object lives at an address of the store \<open>fibers\<close>. What a
  callback does is a resumption \<open>cbprog\<close>: it returns, throws, has an effect outside the scheduler and goes on,
  yields in one of the two ways, or schedules another callback on some thread and goes on. The
  effects of all callbacks are logged in the world. The saved \<open>ucontext_t\<close> is \<open>m_ctx\<close>: the
  entry of \<open>MainFunc\<close> or \<open>CallerMainFunc\<close>, the rest of a suspended callback, or the point after the
  last swap, which must never be resumed. \<open>TERM\<close> of the enumeration is \<open>TERM'\<close> here. Thread-local
  variables are the record \<open>Tls\<close>. A failing \<open>HX_ASSERT\<close> is an error value. \<open>swapcontext\<close> and \<open>getcontext\<close> are taken to succeed.
\<close>

section \<open>State\<close>

datatype State = INIT | HOLD | EXEC | TERM' | READY | EXCEPT

datatype cbprog =
    Return
  | Throw
  | Act nat cbprog
  | YieldReady cbprog
  | YieldHold cbprog
  | Spawn cbprog int cbprog

datatype ctx = MainEntry | CallerEntry | Suspended cbprog | Finished | ThreadCtx

datatype fiber_error = AssertFailed string | NullFiber

record Fiber =
  m_id :: u64
  m_stacksize :: u32
  m_state :: State
  m_ctx :: ctx
  m_stack :: bool
  m_cb :: "cbprog option"

record FiberWorld =
  fibers :: "nat \<Rightarrow> Fiber option"
  s_fiber_id :: u64
  s_fiber_count :: u32
  effects :: "nat list"

record Tls =
  t_fiber :: "nat option"
  t_thread_fiber :: "nat option"
  t_scheduler_fiber :: "nat option"

definition state_of :: "FiberWorld \<Rightarrow> nat \<Rightarrow> State" where
  "state_of w f = (case fibers w f of None \<Rightarrow> TERM' | Some fb \<Rightarrow> m_state fb)"

definition set_state :: "nat \<Rightarrow> State \<Rightarrow> FiberWorld \<Rightarrow> FiberWorld" where
  "set_state f st w = w\<lparr>fibers := (fibers w)(f := map_option (m_state_update (\<lambda>_. st)) (fibers w f))\<rparr>"

section \<open>Life of a fiber\<close>

definition GetFiberId :: "Tls \<Rightarrow> FiberWorld \<Rightarrow> u64" where
  "GetFiberId th w = (case t_fiber th of None \<Rightarrow> 0
     | Some f \<Rightarrow> (case fibers w f of None \<Rightarrow> 0 | Some fb \<Rightarrow> m_id fb))"

definition SetThis :: "nat option \<Rightarrow> Tls \<Rightarrow> Tls" where
  "SetThis f th = th\<lparr>t_fiber := f\<rparr>"

text \<open>\<open>Fiber::Fiber()\<close>, the fiber a thread has without making one, at the address \<open>a\<close>.\<close>

definition new_thread_Fiber :: "nat \<Rightarrow> Tls \<Rightarrow> FiberWorld \<Rightarrow> Tls \<times> FiberWorld" where
  "new_thread_Fiber a th w =
     (SetThis (Some a) th,
      w\<lparr>fibers := (fibers w)(a \<mapsto> \<lparr>m_id = 0, m_stacksize = 0, m_state = EXEC, m_ctx = ThreadCtx,
           m_stack = False, m_cb = None\<rparr>),
        s_fiber_count := s_fiber_count w + 1\<rparr>)"

definition new_Fiber ::
  "u32 \<Rightarrow> nat \<Rightarrow> cbprog option \<Rightarrow> u32 \<Rightarrow> bool \<Rightarrow> FiberWorld \<Rightarrow> FiberWorld" where
  "new_Fiber g_fiber_stack_size a cb stacksize use_caller w =
     w\<lparr>fibers := (fibers w)(a \<mapsto> \<lparr>m_id = s_fiber_id w + 1,
         m_stacksize = (if stacksize \<noteq> 0 then stacksize else g_fiber_stack_size), m_state = INIT,
         m_ctx = (if \<not> use_caller then MainEntry else CallerEntry), m_stack = True, m_cb = cb\<rparr>),
       s_fiber_id := s_fiber_id w + 1, s_fiber_count := s_fiber_count w + 1\<rparr>"

definition delete_Fiber :: "nat \<Rightarrow> Tls \<Rightarrow> FiberWorld \<Rightarrow> fiber_error + Tls \<times> FiberWorld" where
  "delete_Fiber a th w =
     (case fibers w a of None \<Rightarrow> Inl NullFiber
      | Some fb \<Rightarrow>
        let w = w\<lparr>s_fiber_count := s_fiber_count w - 1, fibers := (fibers w)(a := None)\<rparr>
        in if m_stack fb then
             (if m_state fb \<in> {TERM', INIT, EXCEPT} then Inr (th, w) else Inl (AssertFailed ''state : ''))
           else if m_cb fb \<noteq> None then Inl (AssertFailed ''nullptr == m_cb'')
           else if m_state fb \<noteq> EXEC then Inl (AssertFailed ''m_state == EXEC'')
           else Inr (if t_fiber th = Some a then SetThis None th else th, w))"

definition fiber_reset :: "nat \<Rightarrow> cbprog option \<Rightarrow> FiberWorld \<Rightarrow> fiber_error + FiberWorld" where
  "fiber_reset a cb w =
     (case fibers w a of None \<Rightarrow> Inl NullFiber
      | Some fb \<Rightarrow>
        if \<not> m_stack fb then Inl (AssertFailed ''m_stack'')
        else if m_state fb \<notin> {TERM', INIT, EXCEPT} then Inl (AssertFailed ''m_state'')
        else Inr (w\<lparr>fibers := (fibers w)(a \<mapsto> fb\<lparr>m_cb := cb, m_ctx := MainEntry, m_state := INIT\<rparr>)\<rparr>))"

definition GetThis :: "nat \<Rightarrow> Tls \<Rightarrow> FiberWorld \<Rightarrow> nat \<times> Tls \<times> FiberWorld" where
  "GetThis a th w =
     (case t_fiber th of
        Some f \<Rightarrow> (f, th, w)
      | None \<Rightarrow> let (th, w) = new_thread_Fiber a th w in (a, th\<lparr>t_thread_fiber := Some a\<rparr>, w))"

definition TotalFibers :: "FiberWorld \<Rightarrow> u64" where
  "TotalFibers w = ucast (s_fiber_count w)"

section \<open>Switching\<close>

text \<open>The part of a switch before control moves to the fiber.\<close>

definition fiber_call :: "nat \<Rightarrow> Tls \<Rightarrow> FiberWorld \<Rightarrow> Tls \<times> FiberWorld" where
  "fiber_call a th w = (SetThis (Some a) th, set_state a EXEC w)"

definition swapIn :: "nat \<Rightarrow> Tls \<Rightarrow> FiberWorld \<Rightarrow> fiber_error + Tls \<times> FiberWorld" where
  "swapIn a th w =
     (let th = SetThis (Some a) th in
      if state_of w a = EXEC then Inl (AssertFailed ''state error '')
      else Inr (th, set_state a EXEC w))"

definition swapOut :: "Tls \<Rightarrow> Tls" where
  "swapOut th = SetThis (t_scheduler_fiber th) th"

definition fiber_back :: "Tls \<Rightarrow> Tls" where
  "fiber_back th = SetThis (t_thread_fiber th) th"

text \<open>
  Control in a callback goes from one step to the next: an effect, a callback that is scheduled, or the point where
  control is given back. The two yields assert that the fiber is executing; \<open>YieldToHold\<close> leaves its state alone.
\<close>

datatype stop = Returned | Thrown | ToReady cbprog | ToHold cbprog

datatype step = Effect nat cbprog | Schedules cbprog int cbprog | Stops stop

fun first_step :: "cbprog \<Rightarrow> step" where
  "first_step Return = Stops Returned"
| "first_step Throw = Stops Thrown"
| "first_step (Act n p) = Effect n p"
| "first_step (YieldReady p) = Stops (ToReady p)"
| "first_step (YieldHold p) = Stops (ToHold p)"
| "first_step (Spawn q thr p) = Schedules q thr p"

definition YieldToReady :: "cbprog \<Rightarrow> Fiber \<Rightarrow> fiber_error + Fiber" where
  "YieldToReady rest fb =
     (if m_state fb \<noteq> EXEC then Inl (AssertFailed ''cur->m_state == EXEC'')
      else Inr (fb\<lparr>m_state := READY, m_ctx := Suspended rest\<rparr>))"

definition YieldToHold :: "cbprog \<Rightarrow> Fiber \<Rightarrow> fiber_error + Fiber" where
  "YieldToHold rest fb =
     (if m_state fb \<noteq> EXEC then Inl (AssertFailed ''cur->m_state == EXEC'')
      else Inr (fb\<lparr>m_ctx := Suspended rest\<rparr>))"

text \<open>The end of a callback, in \<open>MainFunc\<close> and \<open>CallerMainFunc\<close> alike, or its next yield.\<close>

definition finish_slice :: "stop \<Rightarrow> Fiber \<Rightarrow> fiber_error + Fiber" where
  "finish_slice st fb =
     (case st of
        Returned \<Rightarrow> Inr (fb\<lparr>m_cb := None, m_state := TERM', m_ctx := Finished\<rparr>)
      | Thrown \<Rightarrow> Inr (fb\<lparr>m_state := EXCEPT, m_ctx := Finished\<rparr>)
      | ToReady p \<Rightarrow> YieldToReady p fb
      | ToHold p \<Rightarrow> YieldToHold p fb)"

text \<open>
  \<open>MainFunc\<close> calls \<open>m_cb\<close>; an empty \<open>std::function\<close> throws \<open>bad_function_call\<close>, which it catches.
\<close>

definition MainFunc :: "Fiber \<Rightarrow> step" where
  "MainFunc fb = (case m_cb fb of None \<Rightarrow> Stops Thrown | Some p \<Rightarrow> first_step p)"

definition CallerMainFunc :: "Fiber \<Rightarrow> step" where
  "CallerMainFunc fb = (case m_cb fb of None \<Rightarrow> Stops Thrown | Some p \<Rightarrow> first_step p)"

text \<open>
  One step of control in the fiber at \<open>a\<close>: the callback it schedules, if any, and whether control came back. While
  the fiber executes, \<open>m_ctx\<close> is where control is.
\<close>

definition fiber_step :: "nat \<Rightarrow> FiberWorld \<Rightarrow> fiber_error + (cbprog \<times> int) option \<times> bool \<times> FiberWorld" where
  "fiber_step a w =
     (case fibers w a of None \<Rightarrow> Inl NullFiber
      | Some fb \<Rightarrow>
        bindr (case m_ctx fb of
                 MainEntry \<Rightarrow> Inr (MainFunc fb)
               | CallerEntry \<Rightarrow> Inr (CallerMainFunc fb)
               | Suspended p \<Rightarrow> Inr (first_step p)
               | Finished \<Rightarrow> Inl (AssertFailed ''never reach'')
               | ThreadCtx \<Rightarrow> Inl NullFiber)
          (\<lambda>st. case st of
             Effect n p \<Rightarrow>
               Inr (None, False, w\<lparr>fibers := (fibers w)(a \<mapsto> fb\<lparr>m_ctx := Suspended p\<rparr>), effects := effects w @ [n]\<rparr>)
           | Schedules q thr p \<Rightarrow>
               Inr (Some (q, thr), False, w\<lparr>fibers := (fibers w)(a \<mapsto> fb\<lparr>m_ctx := Suspended p\<rparr>)\<rparr>)
           | Stops st \<Rightarrow> bindr (finish_slice st fb) (\<lambda>fb. Inr (None, True, w\<lparr>fibers := (fibers w)(a \<mapsto> fb)\<rparr>))))"

section \<open>Well-formed fibers\<close>

text \<open>
  The state and the saved context agree: a fiber that has not run is at its entry, one that yielded
  is suspended, one that ended is finished and, unless it threw, has dropped its callback.
\<close>

definition fiber_ok :: "Fiber \<Rightarrow> bool" where
  "fiber_ok fb \<longleftrightarrow>
     (case m_state fb of
        INIT \<Rightarrow> m_ctx fb = MainEntry \<or> m_ctx fb = CallerEntry
      | TERM' \<Rightarrow> m_ctx fb = Finished \<and> m_cb fb = None
      | EXCEPT \<Rightarrow> m_ctx fb = Finished
      | READY \<Rightarrow> (\<exists>p. m_ctx fb = Suspended p)
      | HOLD \<Rightarrow> (\<exists>p. m_ctx fb = Suspended p)
      | EXEC \<Rightarrow> m_ctx fb \<noteq> Finished)"

lemma state_of_set [simp]:
  "state_of (set_state f st w) g = (if g = f \<and> fibers w f \<noteq> None then st else state_of w g)"
  by (auto simp: state_of_def set_state_def split: option.splits)

lemma fibers_set_state [simp]:
  "fibers (set_state f st w) g =
     (if g = f then map_option (m_state_update (\<lambda>_. st)) (fibers w g) else fibers w g)"
  by (simp add: set_state_def)

text \<open>What a slice leaves behind in a fiber that executes.\<close>

lemma finish_slice_ok:
  assumes "m_state fb = EXEC"
  shows "\<exists>fb'. finish_slice st fb = Inr fb' \<and> m_id fb' = m_id fb \<and> m_stack fb' = m_stack fb
    \<and> (case st of Returned \<Rightarrow> m_state fb' = TERM' \<and> m_ctx fb' = Finished \<and> m_cb fb' = None
       | Thrown \<Rightarrow> m_state fb' = EXCEPT \<and> m_ctx fb' = Finished
       | ToReady p \<Rightarrow> m_state fb' = READY \<and> m_ctx fb' = Suspended p
       | ToHold p \<Rightarrow> m_state fb' = EXEC \<and> m_ctx fb' = Suspended p)"
  using assms
  by (cases st) (auto simp: finish_slice_def YieldToReady_def YieldToHold_def)

text \<open>The callback a fiber is about to go on with, where it has one.\<close>

definition pending :: "Fiber \<Rightarrow> cbprog option" where
  "pending fb = (case m_ctx fb of Suspended p \<Rightarrow> Some p | MainEntry \<Rightarrow> m_cb fb
     | CallerEntry \<Rightarrow> m_cb fb | _ \<Rightarrow> None)"

lemma fiber_step_pending:
  assumes "fibers w a = Some fb" "m_ctx fb \<noteq> Finished" "m_ctx fb \<noteq> ThreadCtx"
  shows "fiber_step a w =
     (case (case pending fb of None \<Rightarrow> Stops Thrown | Some p \<Rightarrow> first_step p) of
        Effect n p \<Rightarrow>
          Inr (None, False, w\<lparr>fibers := (fibers w)(a \<mapsto> fb\<lparr>m_ctx := Suspended p\<rparr>), effects := effects w @ [n]\<rparr>)
      | Schedules q thr p \<Rightarrow>
          Inr (Some (q, thr), False, w\<lparr>fibers := (fibers w)(a \<mapsto> fb\<lparr>m_ctx := Suspended p\<rparr>)\<rparr>)
      | Stops st \<Rightarrow> bindr (finish_slice st fb) (\<lambda>fb. Inr (None, True, w\<lparr>fibers := (fibers w)(a \<mapsto> fb)\<rparr>)))"
  using assms by (cases "m_ctx fb") (auto simp: fiber_step_def pending_def MainFunc_def CallerMainFunc_def)

lemma fiber_step_ok:
  assumes a: "fibers w a = Some fb" "m_state fb = EXEC" and c: "m_ctx fb \<noteq> Finished" "m_ctx fb \<noteq> ThreadCtx"
  shows "\<exists>t bk w' fb'. fiber_step a w = Inr (t, bk, w') \<and> fibers w' a = Some fb' \<and> fiber_ok fb'
    \<and> (if bk then m_state fb' \<in> {TERM', EXCEPT, READY, EXEC} \<and> (m_state fb' = EXEC \<longrightarrow> (\<exists>p. m_ctx fb' = Suspended p))
       else m_state fb' = EXEC)"
proof (cases "case pending fb of None \<Rightarrow> Stops Thrown | Some p \<Rightarrow> first_step p")
  case (Effect n p)
  then show ?thesis unfolding fiber_step_pending [OF a(1) c] using a(2) by (auto simp: fiber_ok_def)
next
  case (Schedules q thr p)
  then show ?thesis unfolding fiber_step_pending [OF a(1) c] using a(2) by (auto simp: fiber_ok_def)
next
  case (Stops st)
  obtain fb' where "finish_slice st fb = Inr fb'" using finish_slice_ok [OF a(2)] by blast
  then show ?thesis
    unfolding fiber_step_pending [OF a(1) c] using Stops finish_slice_ok [OF a(2), of st] by (cases st) (auto simp: fiber_ok_def)
qed

section \<open>Properties\<close>

text \<open>
  Switching into a well-formed fiber that has not ended and going one step trips no assertion: the fiber
  is well-formed again, and when control comes back it has ended, thrown, or is suspended with the rest of its
  callback, as ready after \<open>YieldToReady\<close> and still marked executing after \<open>YieldToHold\<close>; switching
  into one that has ended reaches the assertion that is never to be reached.
\<close>

theorem swapIn_step:
  assumes a: "fibers w a = Some fb" and ok: "fiber_ok fb" and n: "m_state fb \<noteq> EXEC"
  shows "\<exists>th' w'. swapIn a th w = Inr (th', w') \<and> t_fiber th' = Some a
    \<and> (if m_state fb \<in> {TERM', EXCEPT} then fiber_step a w' = Inl (AssertFailed ''never reach'')
       else \<exists>t bk w'' fb'. fiber_step a w' = Inr (t, bk, w'') \<and> fibers w'' a = Some fb' \<and> fiber_ok fb'
         \<and> (if bk then m_state fb' \<in> {TERM', EXCEPT, READY, EXEC} \<and> (m_state fb' = EXEC \<longrightarrow> (\<exists>p. m_ctx fb' = Suspended p))
            else m_state fb' = EXEC))"
proof -
  let ?w = "set_state a EXEC w" and ?fb = "fb\<lparr>m_state := EXEC\<rparr>"
  have w: "fibers ?w a = Some ?fb" using a by simp
  have s: "swapIn a th w = Inr (SetThis (Some a) th, ?w)"
    using a n by (simp add: swapIn_def state_of_def)
  show ?thesis
  proof (cases "m_state fb \<in> {TERM', EXCEPT}")
    case True
    then have "m_ctx ?fb = Finished" using ok by (auto simp: fiber_ok_def)
    then have "fiber_step a ?w = Inl (AssertFailed ''never reach'')" using a by (simp add: fiber_step_def)
    then show ?thesis using s True by (simp add: SetThis_def)
  next
    case False
    then have c: "m_ctx ?fb \<noteq> Finished" "m_ctx ?fb \<noteq> ThreadCtx"
      using ok n by (auto simp: fiber_ok_def split: State.splits)
    then show ?thesis using s False fiber_step_ok [OF w _ c] by (simp add: SetThis_def)
  qed
qed

theorem swapIn_step_witness:
  "\<exists>th' w'. swapIn 1 \<lparr>t_fiber = None, t_thread_fiber = None, t_scheduler_fiber = None\<rparr>
     (new_Fiber 1024 1 (Some Return) 0 False
        \<lparr>fibers = Map.empty, s_fiber_id = 0, s_fiber_count = 0, effects = []\<rparr>) = Inr (th', w')
   \<and> t_fiber th' = Some 1"
proof -
  let ?w = "new_Fiber 1024 1 (Some Return) 0 False
    \<lparr>fibers = Map.empty, s_fiber_id = 0, s_fiber_count = 0, effects = []\<rparr>"
  obtain fb where "fibers ?w 1 = Some fb" "fiber_ok fb" "m_state fb \<noteq> EXEC"
    by (simp add: new_Fiber_def fiber_ok_def)
  from swapIn_step [OF this] show ?thesis by blast
qed

end
