(* ===== verification/Scheduler.thy ===== *)
theory Scheduler
  imports Fiber "HOL-Library.Multiset"
begin

text \<open>
  The fiber scheduler (\<open>scheduler.h\<close>, \<open>scheduler.cc\<close>). The shared state is the record \<open>Scheduler\<close>;
  \<open>tickles\<close> counts the calls of the virtual \<open>tickle\<close>. A worker thread is in one of the phases of
  the loop of \<open>run\<close>, and a phase ends wherever another thread can interleave: after the locked scan of the
  list, after the switch into a fiber, after each step of the callback that runs there, after the fiber gave
  control back, after the active count was taken down, and after the fate of the fiber was settled. The
  relation \<open>sched_step\<close> interleaves any number of workers and outside calls, and lets the fibers, which are read and
  written without a lock, change between any two steps. The idle fiber of the base class is its own loop
  over \<open>stopping\<close>, so only its state is kept.
\<close>

section \<open>State\<close>

record FiberAndThread =
  task_fiber :: "nat option"
  task_cb :: "cbprog option"
  task_thread :: int

record Scheduler =
  m_fibers :: "FiberAndThread list"
  m_root_fiber :: "nat option"
  m_thread_ids :: "int list"
  m_thread_count :: nat
  m_active_thread_count :: nat
  m_idle_thread_count :: nat
  m_stopping :: bool
  m_auto_stop :: bool
  m_root_thread :: int
  tickles :: nat

definition ft_reset :: FiberAndThread where
  "ft_reset = \<lparr>task_fiber = None, task_cb = None, task_thread = - 1\<rparr>"

definition ft_fiber :: "nat option \<Rightarrow> int \<Rightarrow> FiberAndThread" where
  "ft_fiber f thr = \<lparr>task_fiber = f, task_cb = None, task_thread = thr\<rparr>"

definition ft_cb :: "cbprog option \<Rightarrow> int \<Rightarrow> FiberAndThread" where
  "ft_cb f thr = \<lparr>task_fiber = None, task_cb = f, task_thread = thr\<rparr>"

text \<open>
  The constructor: \<open>root\<close> is the root fiber made for the calling thread, \<open>tid\<close> that thread's id.
\<close>

definition new_Scheduler :: "nat \<Rightarrow> bool \<Rightarrow> nat \<Rightarrow> int \<Rightarrow> fiber_error + Scheduler" where
  "new_Scheduler threads use_caller root tid =
     (if \<not> threads > 0 then Inl (AssertFailed ''threads > 0'')
      else Inr \<lparr>m_fibers = [], m_root_fiber = (if use_caller then Some root else None),
        m_thread_ids = (if use_caller then [tid] else []),
        m_thread_count = (if use_caller then threads - 1 else threads),
        m_active_thread_count = 0, m_idle_thread_count = 0, m_stopping = True,
        m_auto_stop = False, m_root_thread = (if use_caller then tid else - 1), tickles = 0\<rparr>)"

definition tickle :: "Scheduler \<Rightarrow> Scheduler" where
  "tickle s = s\<lparr>tickles := tickles s + 1\<rparr>"

definition hasIdleThreads :: "Scheduler \<Rightarrow> bool" where
  "hasIdleThreads s \<longleftrightarrow> m_idle_thread_count s > 0"

section \<open>Scheduling\<close>

definition scheduleNoLock :: "FiberAndThread \<Rightarrow> Scheduler \<Rightarrow> bool \<times> Scheduler" where
  "scheduleNoLock ft s =
     (let need_tickle = (m_fibers s = [])
      in (need_tickle,
          if task_fiber ft \<noteq> None \<or> task_cb ft \<noteq> None then s\<lparr>m_fibers := m_fibers s @ [ft]\<rparr> else s))"

definition schedule :: "FiberAndThread \<Rightarrow> Scheduler \<Rightarrow> Scheduler" where
  "schedule ft s =
     (let (need_tickle, s) = scheduleNoLock ft s in if need_tickle then tickle s else s)"

fun schedule_all :: "FiberAndThread list \<Rightarrow> bool \<Rightarrow> Scheduler \<Rightarrow> bool \<times> Scheduler" where
  "schedule_all [] need_tickle s = (need_tickle, s)"
| "schedule_all (ft # fts) need_tickle s =
     (let (n, s) = scheduleNoLock ft s in schedule_all fts (n \<or> need_tickle) s)"

definition schedule_range :: "FiberAndThread list \<Rightarrow> Scheduler \<Rightarrow> Scheduler" where
  "schedule_range fts s =
     (let (need_tickle, s) = schedule_all fts False s in if need_tickle then tickle s else s)"

definition stopping :: "Scheduler \<Rightarrow> bool" where
  "stopping s \<longleftrightarrow> m_auto_stop s \<and> m_stopping s \<and> m_fibers s = [] \<and> m_active_thread_count s = 0"

section \<open>Start and stop\<close>

text \<open>\<open>start\<close>: the ids of the threads it creates are \<open>ids\<close>; \<open>m_threads\<close> is their number.\<close>

definition sched_start :: "int list \<Rightarrow> nat \<Rightarrow> Scheduler \<Rightarrow> fiber_error + nat \<times> Scheduler" where
  "sched_start ids threads s =
     (if \<not> m_stopping s then Inr (threads, s)
      else if threads \<noteq> 0 then Inl (AssertFailed ''m_threads_.empty()'')
      else Inr (m_thread_count s,
        s\<lparr>m_stopping := False, m_thread_ids := m_thread_ids s @ take (m_thread_count s) ids\<rparr>))"

datatype stop_action = StopReturn | StopCallRoot | StopJoin

text \<open>
  \<open>stop\<close> up to the point where it waits: \<open>this\<close> says whether the calling thread's scheduler is
  this one. It returns at once, enters the root fiber, or goes on to join the threads.
\<close>

definition sched_stop :: "bool \<Rightarrow> State \<Rightarrow> Scheduler \<Rightarrow> fiber_error + stop_action \<times> Scheduler" where
  "sched_stop this root_state s =
     (let s = s\<lparr>m_auto_stop := True\<rparr>;
          early = (m_root_fiber s \<noteq> None \<and> m_thread_count s = 0
                   \<and> (root_state = TERM' \<or> root_state = INIT));
          s = (if early then s\<lparr>m_stopping := True\<rparr> else s)
      in if early \<and> stopping s then Inr (StopReturn, s)
         else if m_root_thread s \<noteq> - 1 \<and> \<not> this then Inl (AssertFailed ''GetThis() == this'')
         else if m_root_thread s = - 1 \<and> this then Inl (AssertFailed ''GetThis() != this'')
         else let s = s\<lparr>m_stopping := True\<rparr>;
                  s = (tickle ^^ m_thread_count s) s;
                  s = (if m_root_fiber s \<noteq> None then tickle s else s)
              in Inr (if m_root_fiber s \<noteq> None \<and> \<not> stopping s then StopCallRoot else StopJoin, s))"

section \<open>The loop of a worker\<close>

text \<open>
  The locked scan: skip the tasks of other threads (asking for a tickle) and fibers that execute,
  take the first other one off the list. The result is the task, the list without it, and whether
  to tickle.
\<close>

fun scan :: "int \<Rightarrow> FiberWorld \<Rightarrow> FiberAndThread list \<Rightarrow>
    fiber_error + FiberAndThread option \<times> FiberAndThread list \<times> bool" where
  "scan tid w [] = Inr (None, [], False)"
| "scan tid w (ft # fts) =
     (if task_thread ft \<noteq> - 1 \<and> task_thread ft \<noteq> tid then
        bindr (scan tid w fts) (\<lambda>(r, rest, _). Inr (r, ft # rest, True))
      else if task_fiber ft = None \<and> task_cb ft = None then Inl (AssertFailed ''it->fiber_ || it->cb_'')
      else if (case task_fiber ft of Some f \<Rightarrow> state_of w f = EXEC | None \<Rightarrow> False) then
        bindr (scan tid w fts) (\<lambda>(r, rest, t). Inr (r, ft # rest, t))
      else Inr (Some ft, fts, fts \<noteq> []))"

text \<open>The fiber that a worker runs: that of a task, or its own fiber for a callback.\<close>

datatype slot = FiberTask nat | CbTask nat

fun slot_fiber :: "slot \<Rightarrow> nat" where
  "slot_fiber (FiberTask f) = f"
| "slot_fiber (CbTask c) = c"

datatype phase = Scanning | Holding FiberAndThread | Running slot | Back slot | Settling slot | Idling | InIdle | Exited

record Worker =
  phase :: phase
  tls :: Tls
  cb_fiber :: "nat option"
  idle_state :: State

record World =
  sched :: Scheduler
  world :: FiberWorld

text \<open>One iteration up to the unlock and the tickle.\<close>

definition worker_scan :: "int \<Rightarrow> Worker \<Rightarrow> World \<Rightarrow> fiber_error + Worker \<times> World" where
  "worker_scan tid k W =
     bindr (scan tid (world W) (m_fibers (sched W))) (\<lambda>(r, rest, tickle_me).
       let s = (sched W)\<lparr>m_fibers := rest\<rparr>;
           s = (if r \<noteq> None then s\<lparr>m_active_thread_count := m_active_thread_count s + 1\<rparr> else s);
           s = (if tickle_me then tickle s else s)
       in Inr (k\<lparr>phase := (case r of Some ft \<Rightarrow> Holding ft | None \<Rightarrow> Idling)\<rparr>, W\<lparr>sched := s\<rparr>))"

text \<open>
  Switching into the task: a fiber that has not ended, or a callback in the worker's callback
  fiber, which is reset if it has one and made at the address \<open>a\<close> otherwise.
\<close>

definition worker_enter :: "u32 \<Rightarrow> nat \<Rightarrow> FiberAndThread \<Rightarrow> Worker \<Rightarrow> World \<Rightarrow> fiber_error + Worker \<times> World" where
  "worker_enter stack a ft k W =
     (case task_fiber ft of
        Some f \<Rightarrow>
          if state_of (world W) f \<noteq> TERM' \<and> state_of (world W) f \<noteq> EXCEPT then
            bindr (swapIn f (tls k) (world W)) (\<lambda>(th, w).
              Inr (k\<lparr>phase := Running (FiberTask f), tls := th\<rparr>, W\<lparr>world := w\<rparr>))
          else Inr (k\<lparr>phase := Scanning\<rparr>,
            W\<lparr>sched := (sched W)\<lparr>m_active_thread_count := m_active_thread_count (sched W) - 1\<rparr>\<rparr>)
      | None \<Rightarrow>
          bindr (case cb_fiber k of
                   Some c \<Rightarrow> bindr (fiber_reset c (task_cb ft) (world W)) (\<lambda>w. Inr (c, w))
                 | None \<Rightarrow> Inr (a, new_Fiber stack a (task_cb ft) 0 False (world W)))
            (\<lambda>(c, w). bindr (swapIn c (tls k) w) (\<lambda>(th, w).
              Inr (k\<lparr>phase := Running (CbTask c), tls := th, cb_fiber := Some c\<rparr>, W\<lparr>world := w\<rparr>))))"

text \<open>A step of the callback in the fiber, up to the one with which it gives control back.\<close>

definition worker_run :: "slot \<Rightarrow> Worker \<Rightarrow> World \<Rightarrow> fiber_error + Worker \<times> World" where
  "worker_run sl k W =
     bindr (fiber_step (slot_fiber sl) (world W)) (\<lambda>(t, bk, w).
       let s = (case t of None \<Rightarrow> sched W | Some (p, thr) \<Rightarrow> schedule (ft_cb (Some p) thr) (sched W))
       in Inr (if bk then k\<lparr>phase := Back sl, tls := swapOut (tls k)\<rparr> else k, W\<lparr>sched := s, world := w\<rparr>))"

text \<open>The count is taken down, and only then the loop looks at what became of the fiber.\<close>

definition worker_back :: "slot \<Rightarrow> Worker \<Rightarrow> World \<Rightarrow> Worker \<times> World" where
  "worker_back sl k W =
     (k\<lparr>phase := Settling sl\<rparr>,
      W\<lparr>sched := (sched W)\<lparr>m_active_thread_count := m_active_thread_count (sched W) - 1\<rparr>\<rparr>)"

definition settle_task :: "nat \<Rightarrow> Worker \<Rightarrow> World \<Rightarrow> Worker \<times> World" where
  "settle_task f k W =
     (k\<lparr>phase := Scanning\<rparr>,
      if state_of (world W) f = READY then W\<lparr>sched := schedule (ft_fiber (Some f) (- 1)) (sched W)\<rparr>
      else if state_of (world W) f \<noteq> TERM' \<and> state_of (world W) f \<noteq> EXCEPT then W\<lparr>world := set_state f HOLD (world W)\<rparr>
      else W)"

definition settle_cb :: "nat \<Rightarrow> Worker \<Rightarrow> World \<Rightarrow> fiber_error + Worker \<times> World" where
  "settle_cb c k W =
     (if state_of (world W) c = READY then
        Inr (k\<lparr>phase := Scanning, cb_fiber := None\<rparr>, W\<lparr>sched := schedule (ft_fiber (Some c) (- 1)) (sched W)\<rparr>)
      else if state_of (world W) c = EXCEPT \<or> state_of (world W) c = TERM' then
        bindr (fiber_reset c None (world W)) (\<lambda>w. Inr (k\<lparr>phase := Scanning\<rparr>, W\<lparr>world := w\<rparr>))
      else Inr (k\<lparr>phase := Scanning, cb_fiber := None\<rparr>, W\<lparr>world := set_state c HOLD (world W)\<rparr>))"

text \<open>Without a task the loop ends when the idle fiber has, and otherwise runs it, which asks \<open>stopping\<close> once.\<close>

definition worker_idle :: "Worker \<Rightarrow> World \<Rightarrow> Worker \<times> World" where
  "worker_idle k W =
     (if idle_state k = TERM' then (k\<lparr>phase := Exited\<rparr>, W)
      else (k\<lparr>phase := InIdle\<rparr>, W\<lparr>sched := (sched W)\<lparr>m_idle_thread_count := m_idle_thread_count (sched W) + 1\<rparr>\<rparr>))"

definition worker_in_idle :: "Worker \<Rightarrow> World \<Rightarrow> Worker \<times> World" where
  "worker_in_idle k W =
     (k\<lparr>phase := Scanning, idle_state := (if stopping (sched W) then TERM' else HOLD)\<rparr>,
      W\<lparr>sched := (sched W)\<lparr>m_idle_thread_count := m_idle_thread_count (sched W) - 1\<rparr>\<rparr>)"

definition worker_step :: "u32 \<Rightarrow> nat \<Rightarrow> int \<Rightarrow> Worker \<Rightarrow> World \<Rightarrow> fiber_error + Worker \<times> World" where
  "worker_step stack a tid k W =
     (case phase k of
        Scanning \<Rightarrow> worker_scan tid k W
      | Holding ft \<Rightarrow> worker_enter stack a ft k W
      | Running sl \<Rightarrow> worker_run sl k W
      | Back sl \<Rightarrow> Inr (worker_back sl k W)
      | Settling (FiberTask f) \<Rightarrow> Inr (settle_task f k W)
      | Settling (CbTask c) \<Rightarrow> settle_cb c k W
      | Idling \<Rightarrow> Inr (worker_idle k W)
      | InIdle \<Rightarrow> Inr (worker_in_idle k W)
      | Exited \<Rightarrow> Inr (k, W))"

section \<open>The scan\<close>

definition executing :: "FiberWorld \<Rightarrow> FiberAndThread \<Rightarrow> bool" where
  "executing w ft \<longleftrightarrow> (case task_fiber ft of Some f \<Rightarrow> state_of w f = EXEC | None \<Rightarrow> False)"

definition mine :: "int \<Rightarrow> FiberAndThread \<Rightarrow> bool" where
  "mine tid ft \<longleftrightarrow> task_thread ft = - 1 \<or> task_thread ft = tid"

definition valid_task :: "FiberAndThread \<Rightarrow> bool" where
  "valid_task ft \<longleftrightarrow> task_fiber ft \<noteq> None \<or> task_cb ft \<noteq> None"

definition eligible :: "int \<Rightarrow> FiberWorld \<Rightarrow> FiberAndThread \<Rightarrow> bool" where
  "eligible tid w ft \<longleftrightarrow> mine tid ft \<and> \<not> executing w ft"

lemma scan_Cons:
  "valid_task ft \<Longrightarrow> scan tid w (ft # fts) =
     (if eligible tid w ft then Inr (Some ft, fts, fts \<noteq> [])
      else bindr (scan tid w fts) (\<lambda>(r, rest, t). Inr (r, ft # rest, t \<or> \<not> mine tid ft)))"
  by (auto simp: eligible_def mine_def executing_def valid_task_def bindr_eq_Inr
      split: option.splits sum.splits intro!: arg_cong [where f = "bindr _"])

lemma scan_none:
  "\<forall>ft\<in>set q. valid_task ft \<and> \<not> eligible tid w ft \<Longrightarrow>
   scan tid w q = Inr (None, q, \<exists>ft\<in>set q. \<not> mine tid ft)"
proof (induction q)
  case (Cons ft q)
  then show ?case by (simp add: scan_Cons del: scan.simps(2)) blast
qed simp

lemma scan_some:
  "\<forall>x\<in>set pre. valid_task x \<and> \<not> eligible tid w x \<Longrightarrow> valid_task ft \<Longrightarrow> eligible tid w ft \<Longrightarrow>
   scan tid w (pre @ ft # post) =
     Inr (Some ft, pre @ post, post \<noteq> [] \<or> (\<exists>x\<in>set pre. \<not> mine tid x))"
proof (induction pre)
  case (Cons x pre)
  then show ?case by (simp add: scan_Cons del: scan.simps(2)) blast
qed (simp add: scan_Cons del: scan.simps(2))

lemma first_eligible:
  obtains "\<forall>ft\<in>set q. \<not> P ft" | pre ft post where "q = pre @ ft # post" "\<forall>x\<in>set pre. \<not> P x" "P ft"
  using split_list_first_prop [of q P] by blast

section \<open>Counting active workers\<close>

text \<open>A worker has a task from when it took it off the list to when it takes the count down.\<close>

definition busy :: "Worker \<Rightarrow> bool" where
  "busy k \<longleftrightarrow> (case phase k of Holding _ \<Rightarrow> True | Running _ \<Rightarrow> True | Back _ \<Rightarrow> True | _ \<Rightarrow> False)"

definition busy_set :: "(int \<Rightarrow> Worker option) \<Rightarrow> int set" where
  "busy_set ws = {t. \<exists>k. ws t = Some k \<and> busy k}"

lemma schedule_sel [simp]:
  "m_active_thread_count (schedule ft s) = m_active_thread_count s"
  "m_auto_stop (schedule ft s) = m_auto_stop s" "m_stopping (schedule ft s) = m_stopping s"
  by (auto simp: schedule_def scheduleNoLock_def tickle_def Let_def)

lemma tickle_sel [simp]:
  "m_active_thread_count (tickle s) = m_active_thread_count s" "m_fibers (tickle s) = m_fibers s"
  "m_auto_stop (tickle s) = m_auto_stop s" "m_stopping (tickle s) = m_stopping s"
  by (simp_all add: tickle_def)

text \<open>What one step of a worker does to its own phase and to the count.\<close>

lemma worker_step_count:
  assumes "worker_step stack a tid k W = Inr (k', W')"
  shows "m_active_thread_count (sched W') =
    (if busy k' \<and> \<not> busy k then m_active_thread_count (sched W) + 1
     else if busy k \<and> \<not> busy k' then m_active_thread_count (sched W) - 1
     else m_active_thread_count (sched W))"
proof (cases "phase k")
  case Scanning
  then obtain r rest t where "scan tid (world W) (m_fibers (sched W)) = Inr (r, rest, t)"
    using assms by (cases "scan tid (world W) (m_fibers (sched W))") (auto simp: worker_step_def worker_scan_def)
  then show ?thesis using assms Scanning by (cases r; cases t) (auto simp: worker_step_def worker_scan_def busy_def)
next
  case (Holding ft)
  then show ?thesis
    using assms by (auto simp: worker_step_def worker_enter_def busy_def result_simps split: option.splits if_splits prod.splits)
next
  case (Running sl)
  then show ?thesis
    using assms by (auto simp: worker_step_def worker_run_def busy_def result_simps Let_def split: option.splits if_splits prod.splits)
next
  case (Settling sl)
  then show ?thesis
    using assms by (cases sl) (auto simp: worker_step_def settle_task_def settle_cb_def busy_def result_simps split: if_splits)
qed (use assms in \<open>auto simp: worker_step_def worker_back_def worker_idle_def worker_in_idle_def busy_def split: if_splits\<close>)

inductive sched_step ::
  "u32 \<Rightarrow> (int \<Rightarrow> Worker option) \<times> World \<Rightarrow> (int \<Rightarrow> Worker option) \<times> World \<Rightarrow> bool"
  for stack where
  step_worker: "ws tid = Some k \<Longrightarrow> worker_step stack a tid k W = Inr (k', W') \<Longrightarrow> sched_step stack (ws, W) (ws(tid \<mapsto> k'), W')"
| step_fibers: "sched_step stack (ws, W) (ws, W\<lparr>world := w\<rparr>)"
| step_schedule: "sched_step stack (ws, W) (ws, W\<lparr>sched := schedule ft (sched W)\<rparr>)"
| step_start: "sched_step stack (ws, W) (ws, W\<lparr>sched := (sched W)\<lparr>m_stopping := False\<rparr>\<rparr>)"
| step_auto_stop: "sched_step stack (ws, W) (ws, W\<lparr>sched := (sched W)\<lparr>m_auto_stop := True\<rparr>\<rparr>)"
| step_stop: "sched_step stack (ws, W) (ws, W\<lparr>sched := (sched W)\<lparr>m_stopping := True\<rparr>\<rparr>)"
| step_join: "ws tid = None \<Longrightarrow> phase k = Scanning \<Longrightarrow> sched_step stack (ws, W) (ws(tid \<mapsto> k), W)"

definition count_inv :: "(int \<Rightarrow> Worker option) \<times> World \<Rightarrow> bool" where
  "count_inv c \<longleftrightarrow> finite (dom (fst c)) \<and> m_active_thread_count (sched (snd c)) = card (busy_set (fst c))"

lemma busy_set_upd:
  "busy_set (ws(t \<mapsto> k)) = (if busy k then insert t (busy_set ws) else busy_set ws - {t})"
  by (auto simp: busy_set_def)

lemma finite_busy_set: "finite (dom ws) \<Longrightarrow> finite (busy_set ws)"
  by (rule finite_subset [of _ "dom ws"]) (auto simp: busy_set_def)

lemma count_inv_step: "sched_step stack c c' \<Longrightarrow> count_inv c \<Longrightarrow> count_inv c'"
proof (induction rule: sched_step.induct)
  case (step_worker ws tid k a W k' W')
  have fin: "finite (busy_set ws)" using step_worker(3) by (simp add: count_inv_def finite_busy_set)
  have t: "tid \<in> busy_set ws \<longleftrightarrow> busy k" using step_worker(1) by (simp add: busy_set_def)
  have "m_active_thread_count (sched W') = card (busy_set (ws(tid \<mapsto> k')))"
    using worker_step_count [OF step_worker(2)] step_worker(3) fin t
    by (auto simp: busy_set_upd count_inv_def insert_absorb)
  then show ?case using step_worker(3) by (simp add: count_inv_def)
next
  case (step_join ws tid k W)
  then have "tid \<notin> busy_set ws" "\<not> busy k" by (simp_all add: busy_set_def busy_def)
  then show ?case using step_join by (simp add: count_inv_def busy_set_upd)
qed (simp_all add: count_inv_def)

text \<open>The states of a scheduler that was made by its constructor, with its workers.\<close>

definition sched_reach :: "u32 \<Rightarrow> (int \<Rightarrow> Worker option) \<times> World \<Rightarrow> bool" where
  "sched_reach stack c \<longleftrightarrow>
     (\<exists>threads use_caller root tid s w. new_Scheduler threads use_caller root tid = Inr s
        \<and> (sched_step stack)\<^sup>*\<^sup>* (Map.empty, \<lparr>sched = s, world = w\<rparr>) c)"

lemma sched_reach_new: "new_Scheduler threads use_caller root tid = Inr s \<Longrightarrow> sched_reach stack (Map.empty, \<lparr>sched = s, world = w\<rparr>)"
  unfolding sched_reach_def by blast

lemma sched_reach_step: "sched_reach stack c \<Longrightarrow> sched_step stack c c' \<Longrightarrow> sched_reach stack c'"
  unfolding sched_reach_def by (meson rtranclp.rtrancl_into_rtrancl)

lemma sched_reach_inv:
  assumes "sched_reach stack c"
  shows "count_inv c"
proof -
  obtain threads use_caller root tid s w where s: "new_Scheduler threads use_caller root tid = Inr s"
    and r: "(sched_step stack)\<^sup>*\<^sup>* (Map.empty, \<lparr>sched = s, world = w\<rparr>) c" using assms unfolding sched_reach_def by blast
  from r show ?thesis
  proof (induction rule: rtranclp_induct)
    case base
    then show ?case using s by (auto simp: count_inv_def busy_set_def new_Scheduler_def split: if_splits)
  qed (rule count_inv_step)
qed

section \<open>A single worker drains the list\<close>

text \<open>
  The loop of \<open>run\<close> on one thread, with fuel; \<open>alloc n\<close> is the address of the \<open>n\<close>-th object
  allocated from now on. When it returns, the worker has left the loop.
\<close>

fun run_loop ::
  "nat \<Rightarrow> u32 \<Rightarrow> (nat \<Rightarrow> nat) \<Rightarrow> nat \<Rightarrow> int \<Rightarrow> Worker \<Rightarrow> World \<Rightarrow> (fiber_error + Worker \<times> World) option" where
  "run_loop 0 stack alloc n tid k W = None"
| "run_loop (Suc fuel) stack alloc n tid k W =
     (if phase k = Exited then Some (Inr (k, W))
      else case worker_step stack (alloc n) tid k W of
        Inl e \<Rightarrow> Some (Inl e)
      | Inr (k', W') \<Rightarrow> run_loop fuel stack alloc (Suc n) tid k' W')"

text \<open>Callbacks whose spawned callbacks all go to this thread or to any thread.\<close>

fun local_prog :: "int \<Rightarrow> cbprog \<Rightarrow> bool" where
  "local_prog tid Return \<longleftrightarrow> True"
| "local_prog tid Throw \<longleftrightarrow> True"
| "local_prog tid (Act n p) \<longleftrightarrow> local_prog tid p"
| "local_prog tid (YieldReady p) \<longleftrightarrow> local_prog tid p"
| "local_prog tid (YieldHold p) \<longleftrightarrow> local_prog tid p"
| "local_prog tid (Spawn q thr p) \<longleftrightarrow> (thr = - 1 \<or> thr = tid) \<and> local_prog tid q \<and> local_prog tid p"

text \<open>
  The effects of a callback that runs to its end, or to where it yields to be held, when nobody is left to wake it, and
  of all that it schedules.
\<close>

fun prog_effects :: "cbprog \<Rightarrow> nat multiset" where
  "prog_effects Return = {#}"
| "prog_effects Throw = {#}"
| "prog_effects (Act n p) = add_mset n (prog_effects p)"
| "prog_effects (YieldReady p) = prog_effects p"
| "prog_effects (YieldHold p) = {#}"
| "prog_effects (Spawn q thr p) = prog_effects q + prog_effects p"

text \<open>The steps that a worker needs for a callback it runs, and for what that schedules.\<close>

fun prog_wt :: "cbprog \<Rightarrow> nat" where
  "prog_wt Return = 3"
| "prog_wt Throw = 3"
| "prog_wt (Act n p) = 1 + prog_wt p"
| "prog_wt (YieldReady p) = 5 + prog_wt p"
| "prog_wt (YieldHold p) = 3"
| "prog_wt (Spawn q thr p) = 3 + prog_wt q + prog_wt p"

definition fiber_prog :: "FiberWorld \<Rightarrow> nat \<Rightarrow> cbprog" where
  "fiber_prog w f = (case fibers w f of None \<Rightarrow> Return | Some fb \<Rightarrow> (case pending fb of None \<Rightarrow> Throw | Some p \<Rightarrow> p))"

definition task_prog :: "FiberWorld \<Rightarrow> FiberAndThread \<Rightarrow> cbprog" where
  "task_prog w ft = (case task_fiber ft of Some f \<Rightarrow> fiber_prog w f | None \<Rightarrow> (case task_cb ft of None \<Rightarrow> Throw | Some p \<Rightarrow> p))"

text \<open>What is left to run: the task of the worker, if it is not over, and those on the list.\<close>

definition own_progs :: "Worker \<Rightarrow> FiberWorld \<Rightarrow> cbprog list" where
  "own_progs k w =
     (case phase k of
        Holding ft \<Rightarrow> [task_prog w ft]
      | Running sl \<Rightarrow> [fiber_prog w (slot_fiber sl)]
      | Back sl \<Rightarrow> if state_of w (slot_fiber sl) = READY then [fiber_prog w (slot_fiber sl)] else []
      | Settling sl \<Rightarrow> if state_of w (slot_fiber sl) = READY then [fiber_prog w (slot_fiber sl)] else []
      | _ \<Rightarrow> [])"

definition queue_progs :: "FiberWorld \<Rightarrow> FiberAndThread list \<Rightarrow> cbprog list" where
  "queue_progs w q = map (task_prog w) q"

lemma queue_progs_simps [simp]:
  "queue_progs w [] = []" "queue_progs w (ft # q) = task_prog w ft # queue_progs w q" "queue_progs w (p @ q) = queue_progs w p @ queue_progs w q"
  by (simp_all add: queue_progs_def)

definition todo :: "Worker \<Rightarrow> World \<Rightarrow> cbprog list" where
  "todo k W = own_progs k (world W) @ queue_progs (world W) (m_fibers (sched W))"

definition all_effects :: "cbprog list \<Rightarrow> nat multiset" where
  "all_effects ps = sum_list (map prog_effects ps)"

definition ledger :: "Worker \<Rightarrow> World \<Rightarrow> nat multiset" where
  "ledger k W = mset (effects (world W)) + all_effects (todo k W)"

definition phase_wt :: "Worker \<Rightarrow> nat" where
  "phase_wt k =
     (case phase k of
        Scanning \<Rightarrow> if idle_state k = TERM' then 4 else 7
      | Holding _ \<Rightarrow> 6 | Running _ \<Rightarrow> 5 | Back _ \<Rightarrow> 9 | Settling _ \<Rightarrow> 8
      | Idling \<Rightarrow> if idle_state k = TERM' then 3 else 6
      | InIdle \<Rightarrow> 5 | Exited \<Rightarrow> 0)"

definition work :: "Worker \<Rightarrow> World \<Rightarrow> nat" where
  "work k W = sum_list (map (\<lambda>p. 2 + prog_wt p) (todo k W)) + phase_wt k"

lemma all_effects_simps [simp]:
  "all_effects [] = {#}" "all_effects (p # ps) = prog_effects p + all_effects ps" "all_effects (ps @ qs) = all_effects ps + all_effects qs"
  by (simp_all add: all_effects_def)

definition queued :: "FiberAndThread list \<Rightarrow> nat list" where
  "queued q = List.map_filter task_fiber q"

lemma queued_simps [simp]:
  "queued [] = []" "queued (p @ q) = queued p @ queued q"
  "queued (ft # q) = (case task_fiber ft of None \<Rightarrow> queued q | Some f \<Rightarrow> f # queued q)"
  by (auto simp: queued_def List.map_filter_def split: option.splits)

lemma set_queued: "f \<in> set (queued q) \<longleftrightarrow> (\<exists>ft\<in>set q. task_fiber ft = Some f)"
  by (induction q) (auto split: option.splits)

lemma schedule_fibers [simp]:
  "m_fibers (schedule (ft_fiber (Some f) thr) s) = m_fibers s @ [ft_fiber (Some f) thr]"
  "m_fibers (schedule (ft_cb (Some p) thr) s) = m_fibers s @ [ft_cb (Some p) thr]"
  by (simp_all add: schedule_def scheduleNoLock_def ft_fiber_def ft_cb_def Let_def)

text \<open>A fiber that can go on with \<open>p\<close>, and the tasks that this worker can run.\<close>

definition goes_on :: "int \<Rightarrow> Fiber \<Rightarrow> bool" where
  "goes_on tid fb \<longleftrightarrow> m_stack fb \<and> m_ctx fb \<noteq> Finished \<and> m_ctx fb \<noteq> ThreadCtx \<and> m_ctx fb \<noteq> CallerEntry
     \<and> (case pending fb of None \<Rightarrow> True | Some p \<Rightarrow> local_prog tid p)"

definition solo_task :: "int \<Rightarrow> FiberWorld \<Rightarrow> FiberAndThread \<Rightarrow> bool" where
  "solo_task tid w ft \<longleftrightarrow> mine tid ft
     \<and> (case task_fiber ft of
          None \<Rightarrow> (\<exists>p. task_cb ft = Some p \<and> local_prog tid p)
        | Some f \<Rightarrow> (\<exists>fb. fibers w f = Some fb \<and> m_state fb \<in> {INIT, READY, HOLD} \<and> goes_on tid fb))"

lemma task_other:
  assumes "task_fiber ft \<noteq> Some f" "\<And>g. g \<noteq> f \<Longrightarrow> fibers w' g = fibers w g"
  shows "solo_task tid w' ft = solo_task tid w ft" "task_prog w' ft = task_prog w ft"
  using assms by (cases "task_fiber ft"; simp add: solo_task_def task_prog_def fiber_prog_def)+

lemma queue_other:
  assumes f: "f \<notin> set (queued q)" and q: "\<forall>ft\<in>set q. solo_task tid w ft"
    and w: "\<And>g. g \<noteq> f \<Longrightarrow> fibers w' g = fibers w g"
  shows "\<forall>ft\<in>set q. solo_task tid w' ft" "queue_progs w' q = queue_progs w q"
proof -
  have o: "task_fiber ft \<noteq> Some f" if "ft \<in> set q" for ft using f that by (auto simp: set_queued)
  show "\<forall>ft\<in>set q. solo_task tid w' ft" using q task_other(1) [OF o w] by blast
  show "queue_progs w' q = queue_progs w q" using task_other(2) [OF o w] by (simp add: queue_progs_def)
qed

lemma solo_eligible: "solo_task tid w ft \<Longrightarrow> eligible tid w ft \<and> valid_task ft"
  by (auto simp: solo_task_def eligible_def executing_def valid_task_def state_of_def split: option.splits)

text \<open>The state of a lone worker whose scheduler has been told to stop.\<close>

definition idle_cb :: "FiberWorld \<Rightarrow> FiberAndThread list \<Rightarrow> nat option \<Rightarrow> nat option \<Rightarrow> bool" where
  "idle_cb w q cur c \<longleftrightarrow> (case c of None \<Rightarrow> True
     | Some c \<Rightarrow> c \<notin> set (queued q) \<and> cur \<noteq> Some c
         \<and> (\<exists>fb. fibers w c = Some fb \<and> m_state fb = INIT \<and> m_stack fb))"

definition slot_cb :: "FiberWorld \<Rightarrow> FiberAndThread list \<Rightarrow> slot \<Rightarrow> nat option \<Rightarrow> bool" where
  "slot_cb w q sl c \<longleftrightarrow> slot_fiber sl \<notin> set (queued q)
     \<and> (case sl of FiberTask f \<Rightarrow> idle_cb w q (Some f) c | CbTask c' \<Rightarrow> c = Some c')"

text \<open>A fiber whose callback gave control back.\<close>

definition stopped :: "int \<Rightarrow> Fiber \<Rightarrow> bool" where
  "stopped tid fb \<longleftrightarrow> m_stack fb
     \<and> (m_state fb = READY \<and> goes_on tid fb \<or> m_state fb = EXEC \<or> m_state fb = TERM' \<or> m_state fb = EXCEPT)"

definition solo :: "int \<Rightarrow> Worker \<Rightarrow> World \<Rightarrow> bool" where
  "solo tid k W \<longleftrightarrow> (let w = world W; s = sched W; q = m_fibers s in
     m_auto_stop s \<and> m_stopping s \<and> (\<forall>ft\<in>set q. solo_task tid w ft) \<and> distinct (queued q)
     \<and> m_active_thread_count s = (if busy k then 1 else 0) \<and> (idle_state k = TERM' \<longrightarrow> q = [])
     \<and> (case phase k of
          Scanning \<Rightarrow> idle_cb w q None (cb_fiber k)
        | Holding ft \<Rightarrow> idle_state k \<noteq> TERM' \<and> solo_task tid w ft \<and> idle_cb w q (task_fiber ft) (cb_fiber k)
            \<and> (case task_fiber ft of None \<Rightarrow> True | Some f \<Rightarrow> f \<notin> set (queued q))
        | Running sl \<Rightarrow> idle_state k \<noteq> TERM' \<and> slot_cb w q sl (cb_fiber k)
            \<and> (\<exists>fb. fibers w (slot_fiber sl) = Some fb \<and> m_state fb = EXEC \<and> goes_on tid fb)
        | Back sl \<Rightarrow> idle_state k \<noteq> TERM' \<and> slot_cb w q sl (cb_fiber k)
            \<and> (\<exists>fb. fibers w (slot_fiber sl) = Some fb \<and> stopped tid fb)
        | Settling sl \<Rightarrow> idle_state k \<noteq> TERM' \<and> slot_cb w q sl (cb_fiber k)
            \<and> (\<exists>fb. fibers w (slot_fiber sl) = Some fb \<and> stopped tid fb)
        | Idling \<Rightarrow> q = [] \<and> idle_cb w q None (cb_fiber k)
        | InIdle \<Rightarrow> q = [] \<and> idle_cb w q None (cb_fiber k)
        | Exited \<Rightarrow> q = []))"

text \<open>A step keeps this state, costs one, and moves effects from what is left to the log.\<close>

definition advances :: "int \<Rightarrow> nat \<Rightarrow> Worker \<Rightarrow> World \<Rightarrow> fiber_error + Worker \<times> World \<Rightarrow> bool" where
  "advances tid a k W r \<longleftrightarrow>
     (\<exists>k' W'. r = Inr (k', W') \<and> solo tid k' W' \<and> work k' W' < work k W \<and> ledger k' W' = ledger k W
        \<and> dom (fibers (world W')) \<subseteq> insert a (dom (fibers (world W))))"

lemmas solo_defs = solo_def work_def ledger_def todo_def own_progs_def phase_wt_def busy_def

lemma solo_scan:
  assumes s: "solo tid k W" and ph: "phase k = Scanning"
  shows "advances tid a k W (worker_scan tid k W)"
proof (cases "m_fibers (sched W)")
  case Nil
  then show ?thesis
    using s ph by (auto simp: advances_def worker_scan_def solo_defs Let_def idle_cb_def split: option.splits)
next
  case (Cons ft fts)
  have t: "solo_task tid (world W) ft" using s Cons by (simp add: solo_def Let_def)
  have "scan tid (world W) (m_fibers (sched W)) = Inr (Some ft, fts, fts \<noteq> [])"
    using scan_some [of "[]" tid "world W" ft fts] solo_eligible [OF t] Cons by simp
  then show ?thesis
    using s ph t Cons by (auto simp: advances_def worker_scan_def solo_defs Let_def idle_cb_def split: option.splits)
qed

lemma pending_state [simp]: "pending (fb\<lparr>m_state := st\<rparr>) = pending fb"
  by (cases "m_ctx fb") (simp_all add: pending_def)

lemma fiber_prog_state [simp]: "fiber_prog (set_state g st w) f = fiber_prog w f"
  by (cases "fibers w f") (auto simp: fiber_prog_def)

lemma idle_cb_other:
  "idle_cb w q (Some f) c \<Longrightarrow> (\<And>g. g \<noteq> f \<Longrightarrow> fibers w' g = fibers w g) \<Longrightarrow> idle_cb w' q (Some f) c"
  by (auto simp: idle_cb_def split: option.splits)

lemma solo_enter_fiber:
  assumes s: "solo tid k W" and ph: "phase k = Holding ft" and f: "task_fiber ft = Some f"
  shows "advances tid a k W (worker_enter stack a ft k W)"
proof -
  let ?w = "world W" and ?w' = "set_state f EXEC (world W)" and ?q = "m_fibers (sched W)"
  obtain fb where fb: "fibers ?w f = Some fb" "m_state fb \<in> {INIT, READY, HOLD}" "goes_on tid fb"
    using s ph f by (auto simp: solo_def Let_def solo_task_def)
  have q: "\<forall>x\<in>set ?q. solo_task tid ?w x" "f \<notin> set (queued ?q)" using s ph f by (auto simp: solo_def Let_def)
  have U: "\<forall>x\<in>set ?q. solo_task tid ?w' x" "queue_progs ?w' ?q = queue_progs ?w ?q"
    by (rule queue_other [OF q(2,1)], simp)+
  have e: "worker_enter stack a ft k W =
      Inr (k\<lparr>phase := Running (FiberTask f), tls := SetThis (Some f) (tls k)\<rparr>, W\<lparr>world := ?w'\<rparr>)"
    using f fb by (auto simp: worker_enter_def state_of_def swapIn_def)
  have g: "goes_on tid (fb\<lparr>m_state := EXEC\<rparr>)" using fb(3) by (simp add: goes_on_def)
  have c: "slot_cb ?w' ?q (FiberTask f) (cb_fiber k)"
    using s ph f q(2) idle_cb_other [of ?w ?q f "cb_fiber k" ?w'] by (auto simp: solo_def Let_def slot_cb_def)
  have p: "task_prog ?w ft = fiber_prog ?w f" using f by (simp add: task_prog_def)
  have "effects ?w' = effects ?w" "dom (fibers ?w') \<subseteq> insert a (dom (fibers ?w))" using fb(1) by (auto simp: set_state_def)
  then show ?thesis
    unfolding advances_def e using s ph U fb(1) g c p by (auto simp: solo_defs Let_def)
qed

lemma solo_queued_exists:
  "\<forall>ft\<in>set q. solo_task tid w ft \<Longrightarrow> fibers w a = None \<Longrightarrow> a \<notin> set (queued q)"
  by (auto simp: set_queued solo_task_def split: option.splits)

lemma solo_enter_cb:
  assumes s: "solo tid k W" and ph: "phase k = Holding ft" and f: "task_fiber ft = None"
    and a: "fibers (world W) a = None"
  shows "advances tid a k W (worker_enter stack a ft k W)"
proof -
  let ?w = "world W" and ?q = "m_fibers (sched W)"
  obtain p where p: "task_cb ft = Some p" "local_prog tid p"
    using s ph f by (auto simp: solo_def Let_def solo_task_def)
  have q: "\<forall>x\<in>set ?q. solo_task tid ?w x" using s by (auto simp: solo_def Let_def)
  obtain c w1 fb where c: "(case cb_fiber k of
        Some c \<Rightarrow> bindr (fiber_reset c (task_cb ft) ?w) (\<lambda>w. Inr (c, w))
      | None \<Rightarrow> Inr (a, new_Fiber stack a (task_cb ft) 0 False ?w)) = Inr (c, w1)"
    and w1: "fibers w1 = (fibers ?w)(c \<mapsto> fb)" "m_state fb = INIT" "m_ctx fb = MainEntry"
      "m_cb fb = Some p" "m_stack fb" "effects w1 = effects ?w"
    and cq: "c \<notin> set (queued ?q)" and cd: "c \<in> insert a (dom (fibers ?w))"
  proof (cases "cb_fiber k")
    case None
    then show thesis
      using that [of a] p solo_queued_exists [OF q a] by (simp add: new_Fiber_def)
  next
    case (Some c)
    then obtain fb0 where fb0: "fibers ?w c = Some fb0" "m_state fb0 = INIT" "m_stack fb0"
      "c \<notin> set (queued ?q)"
      using s ph by (auto simp: solo_def Let_def idle_cb_def)
    let ?fb = "fb0\<lparr>m_cb := Some p, m_ctx := MainEntry, m_state := INIT\<rparr>"
    show thesis
      by (rule that [of c "?w\<lparr>fibers := (fibers ?w)(c \<mapsto> ?fb)\<rparr>" ?fb])
         (use Some fb0 p in \<open>auto simp: fiber_reset_def\<close>)
  qed
  let ?w' = "set_state c EXEC w1"
  have fc: "fibers ?w' c = Some (fb\<lparr>m_state := EXEC\<rparr>)" and fo: "\<And>g. g \<noteq> c \<Longrightarrow> fibers ?w' g = fibers ?w g"
    using w1 by auto
  note U = queue_other [OF cq q fo]
  have "fiber_prog ?w' c = task_prog ?w ft" using fc f p w1 by (simp add: fiber_prog_def task_prog_def pending_def)
  moreover have "goes_on tid (fb\<lparr>m_state := EXEC\<rparr>)" using w1 p by (simp add: goes_on_def pending_def)
  moreover have "worker_enter stack a ft k W
      = Inr (k\<lparr>phase := Running (CbTask c), tls := SetThis (Some c) (tls k), cb_fiber := Some c\<rparr>, W\<lparr>world := ?w'\<rparr>)"
    using f c w1 by (simp add: worker_enter_def state_of_def swapIn_def)
  moreover have "effects ?w' = effects ?w" "dom (fibers ?w') \<subseteq> insert a (dom (fibers ?w))"
    using w1 cd by (auto simp: dom_def set_state_def)
  ultimately show ?thesis
    unfolding advances_def using s ph U fc cq by (auto simp: solo_defs Let_def slot_cb_def)
qed

text \<open>The steps of a callback: what each leaves to run, in weight and in effects.\<close>

lemma solo_run:
  assumes s: "solo tid k W" and ph: "phase k = Running sl"
  shows "advances tid a k W (worker_run sl k W)"
proof -
  let ?w = "world W" and ?q = "m_fibers (sched W)" and ?f = "slot_fiber sl"
  obtain fb where fb: "fibers ?w ?f = Some fb" "m_state fb = EXEC" "goes_on tid fb"
    and c: "slot_cb ?w ?q sl (cb_fiber k)" and idle: "idle_state k \<noteq> TERM'"
    using s ph by (auto simp: solo_def Let_def)
  have q: "\<forall>x\<in>set ?q. solo_task tid ?w x" "?f \<notin> set (queued ?q)" using s c by (auto simp: solo_def slot_cb_def Let_def)
  have ctx: "m_ctx fb \<noteq> Finished" "m_ctx fb \<noteq> ThreadCtx" using fb(3) by (simp_all add: goes_on_def)
  have prog: "fiber_prog ?w ?f = (case pending fb of None \<Rightarrow> Throw | Some p \<Rightarrow> p)" using fb(1) by (simp add: fiber_prog_def)
  have loc: "local_prog tid (fiber_prog ?w ?f)" using fb(3) prog by (auto simp: goes_on_def split: option.splits)
  have st: "(case pending fb of None \<Rightarrow> Stops Thrown | Some p \<Rightarrow> first_step p) = first_step (fiber_prog ?w ?f)"
    using prog by (simp split: option.splits)
  note run = fiber_step_pending [OF fb(1) ctx, unfolded st]
  have keeps: "\<forall>x\<in>set ?q. solo_task tid w' x" "queue_progs w' ?q = queue_progs ?w ?q"
    if "\<And>g. g \<noteq> ?f \<Longrightarrow> fibers w' g = fibers ?w g" for w'
    using queue_other [OF q(2,1) that] by auto
  have cbs: "slot_cb w' (?q @ map (\<lambda>(p, thr). ft_cb (Some p) thr) ts) sl (cb_fiber k)"
    if "\<And>g. g \<noteq> ?f \<Longrightarrow> fibers w' g = fibers ?w g" for w' and ts :: "(cbprog \<times> int) list"
  proof -
    have "queued (map (\<lambda>(p, thr). ft_cb (Some p) thr) ts) = []" by (induction ts) (auto simp: ft_cb_def)
    then show ?thesis using c that by (cases sl) (auto simp: slot_cb_def idle_cb_def split: option.splits)
  qed
  have sus: "pending (fb\<lparr>m_ctx := Suspended p\<rparr>) = Some p" "pending (fb\<lparr>m_state := st, m_ctx := Suspended p\<rparr>) = Some p" for p st
    by (simp_all add: pending_def)
  have ms: "m_stack fb" using fb(3) by (simp add: goes_on_def)
  show ?thesis
  proof (cases "fiber_prog ?w ?f")
    case Return
    let ?w' = "?w\<lparr>fibers := (fibers ?w)(?f \<mapsto> fb\<lparr>m_cb := None, m_state := TERM', m_ctx := Finished\<rparr>)\<rparr>"
    show ?thesis
      using s ph run Return keeps [of ?w'] cbs [of ?w' "[]"] idle ms
      by (auto simp: advances_def worker_run_def finish_slice_def solo_defs Let_def stopped_def state_of_def dom_def)
  next
    case Throw
    let ?w' = "?w\<lparr>fibers := (fibers ?w)(?f \<mapsto> fb\<lparr>m_state := EXCEPT, m_ctx := Finished\<rparr>)\<rparr>"
    show ?thesis
      using s ph run Throw keeps [of ?w'] cbs [of ?w' "[]"] idle ms
      by (auto simp: advances_def worker_run_def finish_slice_def solo_defs Let_def stopped_def state_of_def dom_def)
  next
    case (YieldHold p)
    let ?w' = "?w\<lparr>fibers := (fibers ?w)(?f \<mapsto> fb\<lparr>m_ctx := Suspended p\<rparr>)\<rparr>"
    show ?thesis
      using s ph run YieldHold keeps [of ?w'] cbs [of ?w' "[]"] idle ms fb(1,2)
      by (auto simp: advances_def worker_run_def finish_slice_def YieldToHold_def solo_defs Let_def stopped_def state_of_def dom_def)
  next
    case (YieldReady p)
    let ?w' = "?w\<lparr>fibers := (fibers ?w)(?f \<mapsto> fb\<lparr>m_state := READY, m_ctx := Suspended p\<rparr>)\<rparr>"
    have "fiber_prog ?w' ?f = p" by (simp add: fiber_prog_def pending_def)
    then show ?thesis
      using s ph run YieldReady keeps [of ?w'] cbs [of ?w' "[]"] idle ms fb(2) loc
      by (auto simp: advances_def worker_run_def finish_slice_def YieldToReady_def solo_defs Let_def stopped_def state_of_def dom_def
          goes_on_def sus)
  next
    case (Act n p)
    let ?w' = "?w\<lparr>fibers := (fibers ?w)(?f \<mapsto> fb\<lparr>m_ctx := Suspended p\<rparr>), effects := effects ?w @ [n]\<rparr>"
    have "fiber_prog ?w' ?f = p" by (simp add: fiber_prog_def pending_def)
    then show ?thesis
      using s ph run Act keeps [of ?w'] cbs [of ?w' "[]"] idle ms fb(2) loc
      by (auto simp: advances_def worker_run_def solo_defs Let_def dom_def goes_on_def sus)
  next
    case (Spawn p' thr p)
    let ?w' = "?w\<lparr>fibers := (fibers ?w)(?f \<mapsto> fb\<lparr>m_ctx := Suspended p\<rparr>)\<rparr>"
    have "fiber_prog ?w' ?f = p" by (simp add: fiber_prog_def pending_def)
    moreover have "task_prog ?w' (ft_cb (Some p') thr) = p'" "solo_task tid ?w' (ft_cb (Some p') thr)" "task_fiber (ft_cb (Some p') thr) = None"
      using loc Spawn by (auto simp: task_prog_def solo_task_def ft_cb_def mine_def)
    ultimately show ?thesis
      using s ph run Spawn keeps [of ?w'] cbs [of ?w' "[(p', thr)]"] idle ms fb(2) loc
      by (auto simp: advances_def worker_run_def solo_defs Let_def dom_def goes_on_def sus)
  qed
qed

lemma solo_back:
  assumes "solo tid k W" "phase k = Back sl"
  shows "advances tid a k W (Inr (worker_back sl k W))"
  using assms by (auto simp: advances_def worker_back_def solo_defs Let_def)

lemma solo_settle_task:
  assumes s: "solo tid k W" and ph: "phase k = Settling (FiberTask f)"
  shows "advances tid a k W (Inr (settle_task f k W))"
proof -
  let ?w = "world W" and ?q = "m_fibers (sched W)"
  obtain fb where fb: "fibers ?w f = Some fb" "stopped tid fb" and c: "f \<notin> set (queued ?q)" "idle_cb ?w ?q (Some f) (cb_fiber k)"
    and idle: "idle_state k \<noteq> TERM'"
    using s ph by (auto simp: solo_def slot_cb_def Let_def)
  have q: "\<forall>x\<in>set ?q. solo_task tid ?w x" using s by (auto simp: solo_def Let_def)
  have U: "\<forall>x\<in>set ?q. solo_task tid (set_state f HOLD ?w) x" "queue_progs (set_state f HOLD ?w) ?q = queue_progs ?w ?q"
    by (rule queue_other [OF c(1) q], simp)+
  have i: "idle_cb ?w ?q None (cb_fiber k)" "idle_cb (set_state f HOLD ?w) ?q None (cb_fiber k)"
    using c(2) by (auto simp: idle_cb_def split: option.splits)
  consider "m_state fb = READY" "goes_on tid fb" | "m_state fb = EXEC" | "m_state fb = TERM' \<or> m_state fb = EXCEPT"
    using fb(2) by (auto simp: stopped_def)
  then show ?thesis
  proof cases
    case 1
    have "solo_task tid ?w (ft_fiber (Some f) (- 1))" "task_prog ?w (ft_fiber (Some f) (- 1)) = fiber_prog ?w f"
      "task_fiber (ft_fiber (Some f) (- 1)) = Some f"
      using 1 fb(1) by (auto simp: solo_task_def ft_fiber_def mine_def task_prog_def)
    moreover have "idle_cb ?w (?q @ [ft_fiber (Some f) (- 1)]) None (cb_fiber k)"
      using c(2) by (auto simp: idle_cb_def ft_fiber_def split: option.splits)
    ultimately show ?thesis
      using s ph 1 fb(1) c(1) idle by (auto simp: advances_def settle_task_def solo_defs Let_def state_of_def)
  next
    case 2
    have "effects (set_state f HOLD ?w) = effects ?w" "dom (fibers (set_state f HOLD ?w)) \<subseteq> insert a (dom (fibers ?w))"
      using fb(1) by (auto simp: set_state_def)
    then show ?thesis
      using s ph 2 fb(1) U i(2) idle by (auto simp: advances_def settle_task_def solo_defs Let_def state_of_def)
  next
    case 3
    then show ?thesis
      using s ph fb(1) i(1) idle by (auto simp: advances_def settle_task_def solo_defs Let_def state_of_def)
  qed
qed

lemma solo_settle_cb:
  assumes s: "solo tid k W" and ph: "phase k = Settling (CbTask c)"
  shows "advances tid a k W (settle_cb c k W)"
proof -
  let ?w = "world W" and ?q = "m_fibers (sched W)"
  obtain fb where fb: "fibers ?w c = Some fb" "stopped tid fb" and c: "c \<notin> set (queued ?q)" "cb_fiber k = Some c"
    and idle: "idle_state k \<noteq> TERM'"
    using s ph by (auto simp: solo_def slot_cb_def Let_def)
  have q: "\<forall>x\<in>set ?q. solo_task tid ?w x" using s by (auto simp: solo_def Let_def)
  note U = queue_other [OF c(1) q]
  consider "m_state fb = READY" "goes_on tid fb" | "m_state fb = EXEC" | "m_state fb = TERM' \<or> m_state fb = EXCEPT"
    using fb(2) by (auto simp: stopped_def)
  then show ?thesis
  proof cases
    case 1
    have "solo_task tid ?w (ft_fiber (Some c) (- 1))" "task_prog ?w (ft_fiber (Some c) (- 1)) = fiber_prog ?w c"
      "task_fiber (ft_fiber (Some c) (- 1)) = Some c"
      using 1 fb(1) by (auto simp: solo_task_def ft_fiber_def mine_def task_prog_def)
    then show ?thesis
      using s ph 1 fb(1) c(1) idle by (auto simp: advances_def settle_cb_def solo_defs Let_def state_of_def idle_cb_def)
  next
    case 2
    have "effects (set_state c HOLD ?w) = effects ?w" "dom (fibers (set_state c HOLD ?w)) \<subseteq> insert a (dom (fibers ?w))"
      using fb(1) by (auto simp: set_state_def)
    then show ?thesis
      using s ph 2 fb(1) U [of "set_state c HOLD ?w"] idle
      by (auto simp: advances_def settle_cb_def solo_defs Let_def state_of_def idle_cb_def)
  next
    case 3
    let ?w' = "?w\<lparr>fibers := (fibers ?w)(c \<mapsto> fb\<lparr>m_cb := None, m_ctx := MainEntry, m_state := INIT\<rparr>)\<rparr>"
    have "m_stack fb" using fb(2) by (simp add: stopped_def)
    then have "fiber_reset c None ?w = Inr ?w'" using 3 fb(1) by (auto simp: fiber_reset_def)
    then show ?thesis
      using s ph 3 fb(1) U [of ?w'] c idle \<open>m_stack fb\<close>
      by (auto simp: advances_def settle_cb_def solo_defs Let_def state_of_def idle_cb_def dom_def)
  qed
qed

lemma solo_idle:
  assumes "solo tid k W"
  shows "phase k = Idling \<Longrightarrow> advances tid a k W (Inr (worker_idle k W))"
    "phase k = InIdle \<Longrightarrow> advances tid a k W (Inr (worker_in_idle k W))"
  using assms by (auto simp: advances_def worker_idle_def worker_in_idle_def solo_defs Let_def stopping_def)

lemma solo_step:
  assumes s: "solo tid k W" and ph: "phase k \<noteq> Exited" and a: "fibers (world W) a = None"
  shows "advances tid a k W (worker_step stack a tid k W)"
proof (cases "phase k")
  case (Holding ft)
  then show ?thesis
    using solo_enter_cb [OF s Holding _ a] solo_enter_fiber [OF s Holding] by (cases "task_fiber ft") (simp_all add: worker_step_def)
next
  case (Settling sl)
  then show ?thesis using s solo_settle_task solo_settle_cb by (cases sl) (simp_all add: worker_step_def)
qed (use s ph solo_scan solo_run solo_back solo_idle in \<open>simp_all add: worker_step_def\<close>)

lemma run_loop_solo:
  assumes "solo tid k W" "work k W < fuel" "inj alloc" "\<forall>m\<ge>n. fibers (world W) (alloc m) = None"
  shows "\<exists>k' W'. run_loop fuel stack alloc n tid k W = Some (Inr (k', W'))
    \<and> phase k' = Exited \<and> solo tid k' W' \<and> ledger k' W' = ledger k W"
  using assms
proof (induction fuel arbitrary: n k W)
  case (Suc fuel)
  show ?case
  proof (cases "phase k = Exited")
    case False
    have "fibers (world W) (alloc n) = None" using Suc.prems(4) by simp
    then obtain k1 W1 where st: "worker_step stack (alloc n) tid k W = Inr (k1, W1)" "solo tid k1 W1"
      "work k1 W1 < work k W" "ledger k1 W1 = ledger k W" "dom (fibers (world W1)) \<subseteq> insert (alloc n) (dom (fibers (world W)))"
      using solo_step [OF Suc.prems(1) False] unfolding advances_def by blast
    have "\<forall>m\<ge>Suc n. fibers (world W1) (alloc m) = None"
    proof (intro allI impI)
      fix m assume "m \<ge> Suc n"
      then have "alloc m \<noteq> alloc n" "alloc m \<notin> dom (fibers (world W))"
        using Suc.prems(3,4) by (auto dest: injD)
      then show "fibers (world W1) (alloc m) = None" using st(5) by blast
    qed
    then show ?thesis using Suc.IH [OF st(2) _ Suc.prems(3)] st(1,3,4) Suc.prems(2) False by simp
  qed (use Suc.prems in simp)
qed simp

section \<open>Properties\<close>

text \<open>
  C16: the locked scan takes the first task that is for this thread or any and whose fiber is not
  executing; the rest of the list keeps its order, a task of another thread is never taken, and a
  tickle is asked for exactly when tasks remain after the one taken or tasks of other threads were
  passed over.
\<close>

theorem scan_first_eligible:
  assumes v: "\<forall>ft\<in>set q. valid_task ft"
  shows "(\<forall>ft\<in>set q. \<not> eligible tid w ft)
      \<and> scan tid w q = Inr (None, q, \<exists>ft\<in>set q. \<not> mine tid ft)
    \<or> (\<exists>pre ft post. q = pre @ ft # post \<and> eligible tid w ft \<and> (\<forall>x\<in>set pre. \<not> eligible tid w x)
        \<and> scan tid w q = Inr (Some ft, pre @ post, post \<noteq> [] \<or> (\<exists>x\<in>set pre. \<not> mine tid x)))"
proof (cases rule: first_eligible [of q "eligible tid w"])
  case 1
  then show ?thesis using scan_none [of q tid w] v by blast
next
  case (2 pre ft post)
  then show ?thesis using scan_some [of pre tid w ft post] v by auto
qed

theorem scan_first_eligible_witness:
  "scan 5 \<lparr>fibers = Map.empty, s_fiber_id = 0, s_fiber_count = 0, effects = []\<rparr>
     [ft_cb (Some Return) 9, ft_cb (Some Throw) 5]
   = Inr (Some (ft_cb (Some Throw) 5), [ft_cb (Some Return) 9], True)"
proof -
  let ?w = "\<lparr>fibers = Map.empty, s_fiber_id = 0, s_fiber_count = 0, effects = []\<rparr>"
  have "\<forall>ft\<in>set [ft_cb (Some Return) 9, ft_cb (Some Throw) 5]. valid_task ft"
    by (simp add: valid_task_def ft_cb_def)
  from scan_first_eligible [OF this, of 5 ?w] show ?thesis
    by (auto simp: eligible_def mine_def executing_def ft_cb_def)
qed

text \<open>
  C6: the active count. However the workers, the threads that schedule and stop, and the fibers interleave, the count
  is the number of workers between taking a task off the list and taking the count down after it; so when \<open>stopping\<close> says
  yes the list is empty and no worker is there. A worker that has taken the count down but has not yet put
  a fiber that yielded back on the list is not counted.
\<close>

theorem active_count_exact:
  assumes "sched_reach stack (ws, W)"
  shows "m_active_thread_count (sched W) = card (busy_set ws)
    \<and> (stopping (sched W) \<longrightarrow> m_fibers (sched W) = [] \<and> (\<forall>t k. ws t = Some k \<longrightarrow> phase k \<in> {Scanning, Idling, InIdle, Exited} \<union> range Settling))"
proof -
  have inv: "finite (dom ws)" "m_active_thread_count (sched W) = card (busy_set ws)"
    using sched_reach_inv [OF assms] by (simp_all add: count_inv_def)
  have "phase k \<in> {Scanning, Idling, InIdle, Exited} \<union> range Settling" if "card (busy_set ws) = 0" "ws t = Some k" for t k
  proof -
    have "t \<notin> busy_set ws" using that(1) finite_busy_set [OF inv(1)] by auto
    then show ?thesis using that(2) by (cases "phase k") (auto simp: busy_set_def busy_def)
  qed
  then show ?thesis using inv(2) by (simp add: stopping_def)
qed

text \<open>A scheduler with a callback that yields once, its worker, and the steps of that worker.\<close>

definition race_sched :: Scheduler where
  "race_sched = \<lparr>m_fibers = [], m_root_fiber = None, m_thread_ids = [], m_thread_count = 2, m_active_thread_count = 0,
     m_idle_thread_count = 0, m_stopping = True, m_auto_stop = False, m_root_thread = - 1, tickles = 0\<rparr>"

definition new_worker :: Worker where
  "new_worker = \<lparr>phase = Scanning, tls = \<lparr>t_fiber = None, t_thread_fiber = None, t_scheduler_fiber = None\<rparr>, cb_fiber = None, idle_state = INIT\<rparr>"

definition empty_world :: FiberWorld where
  "empty_world = \<lparr>fibers = Map.empty, s_fiber_id = 0, s_fiber_count = 0, effects = []\<rparr>"

definition race_start :: "(int \<Rightarrow> Worker option) \<times> World" where
  "race_start = ([7 \<mapsto> new_worker, 8 \<mapsto> new_worker], \<lparr>sched = schedule (ft_cb (Some (YieldReady Return)) (- 1)) race_sched, world = empty_world\<rparr>)"

lemma race_start_reach: "sched_reach stack race_start"
proof -
  have "new_Scheduler 2 False 0 0 = Inr race_sched" by (simp add: new_Scheduler_def race_sched_def)
  then have "sched_reach stack (Map.empty, \<lparr>sched = race_sched, world = empty_world\<rparr>)" by (rule sched_reach_new)
  then have "sched_reach stack (Map.empty(7 \<mapsto> new_worker), \<lparr>sched = race_sched, world = empty_world\<rparr>)"
    by (rule sched_reach_step) (rule step_join; simp add: new_worker_def)
  then have "sched_reach stack (Map.empty(7 \<mapsto> new_worker, 8 \<mapsto> new_worker), \<lparr>sched = race_sched, world = empty_world\<rparr>)"
    by (rule sched_reach_step) (rule step_join; simp add: new_worker_def)
  from sched_reach_step [OF this step_schedule, of "ft_cb (Some (YieldReady Return)) (- 1)"] show ?thesis by (simp add: race_start_def)
qed

theorem active_count_exact_witness:
  "\<exists>k W. worker_step 1024 1 7 new_worker (snd race_start) = Inr (k, W) \<and> busy k \<and> m_active_thread_count (sched W) = 1
     \<and> card (busy_set ((fst race_start)(7 \<mapsto> k))) = 1"
proof -
  obtain k W where s: "worker_step 1024 1 7 new_worker (snd race_start) = Inr (k, W)" "busy k" "m_active_thread_count (sched W) = 1"
    by (simp add: worker_step_def worker_scan_def race_start_def new_worker_def race_sched_def schedule_def scheduleNoLock_def
        ft_cb_def tickle_def busy_def)
  have "sched_step 1024 race_start ((fst race_start)(7 \<mapsto> k), W)"
    using step_worker [of "fst race_start" 7 new_worker 1024 1 "snd race_start" k W] s(1) by (simp add: race_start_def)
  from active_count_exact [OF sched_reach_step [OF race_start_reach this]] s show ?thesis by auto
qed

text \<open>
  The window after the count is taken down: a worker has run the only callback, which yielded to be ready, and is about to
  put its fiber back on the list. \<open>stopping\<close> says yes then, although there is more to run.
\<close>

lemma stopping_too_early:
  "\<exists>ws W k W'. sched_reach 1024 (ws, W) \<and> stopping (sched W) \<and> ws 7 = Some k
     \<and> worker_step 1024 1 7 k W = Inr (k\<lparr>phase := Scanning, cb_fiber := None\<rparr>, W') \<and> m_fibers (sched W') = [ft_fiber (Some 1) (- 1)]"
proof -
  have step: "sched_reach 1024 (ws(7 \<mapsto> k'), W')" if "sched_reach 1024 (ws, W)" "ws 7 = Some k" "worker_step 1024 1 7 k W = Inr (k', W')" for ws W k k' W'
    by (rule sched_reach_step [OF that(1) step_worker]) (use that in simp_all)
  let ?s = "(snd race_start)\<lparr>sched := (sched (snd race_start))\<lparr>m_auto_stop := True\<rparr>\<rparr>"
  have 0: "sched_reach 1024 (fst race_start, ?s)"
    using sched_reach_step [OF race_start_reach, of 1024 "(fst race_start, ?s)"] step_auto_stop [of 1024 "fst race_start" "snd race_start"] by simp
  define ws where "ws k = (fst race_start)(7 \<mapsto> k)" for k
  have ws: "ws k 7 = Some k" "(ws k)(7 \<mapsto> k') = ws k'" for k k' by (simp_all add: ws_def)
  have ws0: "fst race_start = ws new_worker" by (auto simp: ws_def race_start_def)
  note defs = worker_step_def worker_scan_def worker_enter_def worker_run_def worker_back_def settle_cb_def race_start_def new_worker_def
    race_sched_def schedule_def scheduleNoLock_def ft_cb_def ft_fiber_def tickle_def empty_world_def new_Fiber_def swapIn_def state_of_def
    set_state_def fiber_step_def MainFunc_def finish_slice_def YieldToReady_def
  obtain k1 W1 where 1: "worker_step 1024 1 7 new_worker ?s = Inr (k1, W1)" by (simp add: defs)
  obtain k2 W2 where 2: "worker_step 1024 1 7 k1 W1 = Inr (k2, W2)" using 1 by (auto simp: defs)
  obtain k3 W3 where 3: "worker_step 1024 1 7 k2 W2 = Inr (k3, W3)" using 1 2 by (auto simp: defs)
  obtain k4 W4 where 4: "worker_step 1024 1 7 k3 W3 = Inr (k4, W4)" using 1 2 3 by (auto simp: defs)
  have r: "sched_reach 1024 (ws k4, W4)"
    using step [OF step [OF step [OF step [OF 0 [unfolded ws0] ws(1) 1, unfolded ws(2)] ws(1) 2, unfolded ws(2)] ws(1) 3, unfolded ws(2)] ws(1) 4, unfolded ws(2)] .
  have st: "stopping (sched W4)" using 1 2 3 4 by (auto simp: defs stopping_def)
  obtain W5 where "worker_step 1024 1 7 k4 W4 = Inr (k4\<lparr>phase := Scanning, cb_fiber := None\<rparr>, W5)" "m_fibers (sched W5) = [ft_fiber (Some 1) (- 1)]"
    using 1 2 3 4 by (auto simp: defs)
  then show ?thesis using r st ws(1) by blast
qed

text \<open>
  C2: a worker that is alone with its scheduler, told to stop, empties the list. The tasks are fibers that can
  go on and callbacks, which may have effects, yield, throw, and schedule further callbacks for this or any thread. The worker leaves its
  loop with no assertion tripped, the list empty and nothing active; by then every task and everything that was scheduled by one
  has had each of its effects exactly once, up to its end, or to where it yields to be held.
\<close>

theorem run_drains:
  assumes k: "phase k = Scanning" "cb_fiber k = None" "idle_state k = INIT"
    and W: "m_auto_stop (sched W)" "m_stopping (sched W)" "m_active_thread_count (sched W) = 0"
    and q: "\<forall>ft\<in>set (m_fibers (sched W)). solo_task tid (world W) ft" "distinct (queued (m_fibers (sched W)))"
    and alloc: "inj alloc" "\<forall>m. fibers (world W) (alloc m) = None"
  shows "\<exists>fuel k' W'. run_loop fuel stack alloc 0 tid k W = Some (Inr (k', W'))
    \<and> phase k' = Exited \<and> m_fibers (sched W') = [] \<and> m_active_thread_count (sched W') = 0
    \<and> mset (effects (world W')) = mset (effects (world W)) + (\<Sum>ft\<leftarrow>m_fibers (sched W). prog_effects (task_prog (world W) ft))"
proof -
  have "solo tid k W" using k W q by (simp add: solo_def Let_def idle_cb_def busy_def)
  from run_loop_solo [OF this, of "Suc (work k W)" alloc 0 stack] alloc
  obtain k' W' where "run_loop (Suc (work k W)) stack alloc 0 tid k W = Some (Inr (k', W'))" "phase k' = Exited"
    "solo tid k' W'" "ledger k' W' = ledger k W" by blast
  then show ?thesis
    using k by (intro exI [of _ "Suc (work k W)"] exI [of _ k'] exI [of _ W']) (auto simp del: run_loop.simps simp: solo_def Let_def busy_def ledger_def todo_def own_progs_def all_effects_def queue_progs_def comp_def)
qed

definition drain_world :: World where
  "drain_world = \<lparr>sched = race_sched\<lparr>m_auto_stop := True,
       m_fibers := [ft_cb (Some (Spawn (YieldReady (Act 2 Throw)) 5 (Act 1 Return))) (- 1), ft_cb (Some (Act 3 (YieldHold (Act 4 Return)))) 5]\<rparr>,
     world = empty_world\<rparr>"

theorem run_drains_witness:
  "\<exists>fuel k' W'. run_loop fuel 1024 (\<lambda>n. n) 0 5 new_worker drain_world = Some (Inr (k', W')) \<and> phase k' = Exited
     \<and> mset (effects (world W')) = {#1, 2, 3#}"
proof -
  have d: "m_fibers (sched drain_world)
      = [ft_cb (Some (Spawn (YieldReady (Act 2 Throw)) 5 (Act 1 Return))) (- 1), ft_cb (Some (Act 3 (YieldHold (Act 4 Return)))) 5]"
    "m_auto_stop (sched drain_world)" "m_stopping (sched drain_world)" "m_active_thread_count (sched drain_world) = 0"
    "effects (world drain_world) = []" "fibers (world drain_world) = Map.empty"
    by (simp_all add: drain_world_def race_sched_def empty_world_def)
  show ?thesis
    using run_drains [of new_worker drain_world 5 "\<lambda>n. n" 1024] d
    by (auto simp: new_worker_def ft_cb_def mine_def solo_task_def task_prog_def add_mset_commute)
qed

end
