(* ===== verification/StdContainers.thy ===== *)
theory StdContainers
  imports Prelude "HOL-Library.List_Lexorder"
begin

text \<open>
  The ordered containers of the C++ standard library the sources use, over a comparator: a
  \<open>std::set\<close> is the list of its elements in iteration order, a \<open>std::map\<close> the list of its pairs
  in key order. An iterator is an index, \<open>end()\<close> the length. The locale \<open>strict_weak_order\<close> is
  what the standard asks of a comparator; in it the operations are shown to keep the order and to
  behave as on a mathematical set or map. The comparators of the program interpret it.
\<close>

section \<open>Operations\<close>

definition equiv_by :: "('a \<Rightarrow> 'a \<Rightarrow> bool) \<Rightarrow> 'a \<Rightarrow> 'a \<Rightarrow> bool" where
  "equiv_by lt x y \<longleftrightarrow> \<not> lt x y \<and> \<not> lt y x"

definition lower_bound :: "('a \<Rightarrow> 'a \<Rightarrow> bool) \<Rightarrow> 'a \<Rightarrow> 'a list \<Rightarrow> nat" where
  "lower_bound lt x xs = length (takeWhile (\<lambda>y. lt y x) xs)"

definition set_find :: "('a \<Rightarrow> 'a \<Rightarrow> bool) \<Rightarrow> 'a \<Rightarrow> 'a list \<Rightarrow> nat" where
  "set_find lt x xs = (let i = lower_bound lt x xs
     in if i < length xs \<and> \<not> lt x (xs ! i) then i else length xs)"

definition set_insert :: "('a \<Rightarrow> 'a \<Rightarrow> bool) \<Rightarrow> 'a \<Rightarrow> 'a list \<Rightarrow> 'a list \<times> nat" where
  "set_insert lt x xs = (let i = lower_bound lt x xs
     in if i < length xs \<and> \<not> lt x (xs ! i) then (xs, i) else (take i xs @ x # drop i xs, i))"

definition erase_at :: "nat \<Rightarrow> 'a list \<Rightarrow> 'a list" where
  "erase_at i xs = take i xs @ drop (Suc i) xs"

fun map_put :: "('k \<Rightarrow> 'k \<Rightarrow> bool) \<Rightarrow> 'k \<Rightarrow> 'v \<Rightarrow> ('k \<times> 'v) list \<Rightarrow> ('k \<times> 'v) list" where
  "map_put lt k v [] = [(k, v)]"
| "map_put lt k v ((k', v') # m) =
     (if lt k' k then (k', v') # map_put lt k v m
      else if lt k k' then (k, v) # (k', v') # m
      else (k', v) # m)"

fun map_find :: "('k \<Rightarrow> 'k \<Rightarrow> bool) \<Rightarrow> 'k \<Rightarrow> ('k \<times> 'v) list \<Rightarrow> 'v option" where
  "map_find lt k [] = None"
| "map_find lt k ((k', v') # m) =
     (if lt k' k then map_find lt k m else if lt k k' then None else Some v')"

fun map_erase :: "('k \<Rightarrow> 'k \<Rightarrow> bool) \<Rightarrow> 'k \<Rightarrow> ('k \<times> 'v) list \<Rightarrow> ('k \<times> 'v) list" where
  "map_erase lt k [] = []"
| "map_erase lt k ((k', v') # m) =
     (if lt k' k then (k', v') # map_erase lt k m
      else if lt k k' then (k', v') # m else m)"

section \<open>What a comparator promises\<close>

locale strict_weak_order =
  fixes lt :: "'a \<Rightarrow> 'a \<Rightarrow> bool"
  assumes irrefl: "\<not> lt x x"
    and trans: "lt x y \<Longrightarrow> lt y z \<Longrightarrow> lt x z"
    and incomp_trans: "equiv_by lt x y \<Longrightarrow> equiv_by lt y z \<Longrightarrow> equiv_by lt x z"
begin

lemma asym: "lt x y \<Longrightarrow> \<not> lt y x"
  using irrefl trans by blast

lemma equiv_refl [simp]: "equiv_by lt x x"
  by (simp add: equiv_by_def irrefl)

lemma equiv_sym: "equiv_by lt x y \<Longrightarrow> equiv_by lt y x"
  by (simp add: equiv_by_def)

lemma equiv_less:
  assumes "equiv_by lt x y"
  shows "lt x z = lt y z" "lt z x = lt z y"
  using assms incomp_trans equiv_sym trans unfolding equiv_by_def by metis+

lemma not_less_trans: "\<not> lt y x \<Longrightarrow> \<not> lt z y \<Longrightarrow> \<not> lt z x"
  using equiv_less trans unfolding equiv_by_def by metis

text \<open>Sets: the elements before the lower bound are below, those from it on are not.\<close>

lemma lower_bound_le: "lower_bound lt x xs \<le> length xs"
  by (simp add: lower_bound_def length_takeWhile_le)

lemma before_lower_bound: "y \<in> set (take (lower_bound lt x xs) xs) \<Longrightarrow> lt y x"
  unfolding lower_bound_def takeWhile_eq_take [symmetric] by (auto dest: set_takeWhileD)

lemma from_lower_bound:
  assumes s: "sorted_wrt lt xs" and y: "y \<in> set (drop (lower_bound lt x xs) xs)"
  shows "\<not> lt y x"
proof -
  have "drop (lower_bound lt x xs) xs = dropWhile (\<lambda>y. lt y x) xs"
    by (simp add: lower_bound_def dropWhile_eq_drop)
  with y obtain z zs where d: "dropWhile (\<lambda>y. lt y x) xs = z # zs" "y \<in> set (z # zs)"
    by (metis list.set_cases)
  have z: "\<not> lt z x" using d(1) by (simp add: dropWhile_eq_Cons_conv)
  have "sorted_wrt lt (z # zs)"
    using s d(1) by (metis sorted_wrt_append takeWhile_dropWhile_id)
  then have "y = z \<or> lt z y" using d(2) by auto
  then show ?thesis using z trans by blast
qed

lemma set_insert_sorted:
  assumes s: "sorted_wrt lt xs"
  shows "sorted_wrt lt (fst (set_insert lt x xs))"
proof -
  let ?i = "lower_bound lt x xs"
  have parts: "sorted_wrt lt (take ?i xs)" "sorted_wrt lt (drop ?i xs)"
    "\<forall>a\<in>set (take ?i xs). \<forall>b\<in>set (drop ?i xs). lt a b"
    using s sorted_wrt_append [of lt "take ?i xs" "drop ?i xs"] by auto
  have above: "lt x b" if "b \<in> set (drop ?i xs)" "?i < length xs \<longrightarrow> lt x (xs ! ?i)" for b
  proof -
    have i: "?i < length xs" using that(1) by (metis drop_all empty_iff empty_set not_less)
    then have "drop ?i xs = xs ! ?i # drop (Suc ?i) xs" by (simp add: Cons_nth_drop_Suc)
    with parts(2) that(1) have "b = xs ! ?i \<or> lt (xs ! ?i) b" by auto
    then show ?thesis using that(2) i trans by blast
  qed
  show ?thesis
    using s parts above before_lower_bound [of _ x xs]
    by (auto simp: set_insert_def Let_def sorted_wrt_append)
qed

lemma sorted_distinct: "sorted_wrt lt xs \<Longrightarrow> distinct xs"
  by (induction xs) (auto simp: irrefl)

lemma sorted_equiv_eq:
  assumes "sorted_wrt lt xs" "x \<in> set xs" "y \<in> set xs" "equiv_by lt x y"
  shows "x = y"
  using assms by (induction xs) (auto simp: equiv_by_def)

text \<open>An element of the set is found where it is.\<close>

lemma set_find_member:
  assumes s: "sorted_wrt lt xs" and x: "x \<in> set xs"
  shows "set_find lt x xs < length xs" "xs ! set_find lt x xs = x"
proof -
  let ?i = "lower_bound lt x xs"
  have "x \<notin> set (take ?i xs)" using before_lower_bound [of x x xs] irrefl by blast
  then have xd: "x \<in> set (drop ?i xs)" using x by (metis UnE append_take_drop_id set_append)
  then have i: "?i < length xs" by (metis drop_all empty_iff empty_set not_less)
  then have d: "drop ?i xs = xs ! ?i # drop (Suc ?i) xs" by (simp add: Cons_nth_drop_Suc)
  have "\<not> lt (xs ! ?i) x" using from_lower_bound [OF s, of "xs ! ?i" x] d by simp
  moreover have "x = xs ! ?i \<or> lt (xs ! ?i) x"
    using xd d s by (metis append_take_drop_id set_ConsD sorted_wrt.simps(2) sorted_wrt_append)
  ultimately have "x = xs ! ?i" by simp
  then show "set_find lt x xs < length xs" "xs ! set_find lt x xs = x"
    using i irrefl by (auto simp: set_find_def Let_def)
qed

lemma set_find_found:
  assumes "set_find lt x xs < length xs" "sorted_wrt lt xs"
  shows "equiv_by lt x (xs ! set_find lt x xs)"
proof -
  let ?i = "lower_bound lt x xs"
  have i: "?i < length xs" "\<not> lt x (xs ! ?i)" "set_find lt x xs = ?i"
    using assms(1) by (auto simp: set_find_def Let_def split: if_splits)
  then have "xs ! ?i \<in> set (drop ?i xs)" by (metis Cons_nth_drop_Suc list.set_intros(1))
  then show ?thesis using from_lower_bound [OF assms(2)] i by (auto simp: equiv_by_def)
qed

lemma set_find_le: "set_find lt x xs \<le> length xs"
  by (simp add: set_find_def Let_def lower_bound_le)

lemma set_insert_set:
  assumes s: "sorted_wrt lt xs"
  shows "set (fst (set_insert lt x xs)) =
    (if \<exists>y\<in>set xs. equiv_by lt x y then set xs else insert x (set xs))"
proof -
  let ?i = "lower_bound lt x xs"
  have parts: "set xs = set (take ?i xs) \<union> set (drop ?i xs)"
    by (metis append_take_drop_id set_append)
  have found: "(\<exists>y\<in>set xs. equiv_by lt x y) \<longleftrightarrow> ?i < length xs \<and> \<not> lt x (xs ! ?i)"
  proof
    assume "\<exists>y\<in>set xs. equiv_by lt x y"
    then obtain y where y: "y \<in> set xs" "\<not> lt x y" "\<not> lt y x" by (auto simp: equiv_by_def)
    then have yd: "y \<in> set (drop ?i xs)" using parts before_lower_bound [of y x xs] by blast
    then have i: "?i < length xs" by (metis drop_all empty_iff empty_set not_less)
    then have d: "drop ?i xs = xs ! ?i # drop (Suc ?i) xs" by (simp add: Cons_nth_drop_Suc)
    then have "y = xs ! ?i \<or> lt (xs ! ?i) y"
      using s yd by (metis append_take_drop_id set_ConsD sorted_wrt.simps(2) sorted_wrt_append)
    then show "?i < length xs \<and> \<not> lt x (xs ! ?i)" using i y trans by blast
  next
    assume i: "?i < length xs \<and> \<not> lt x (xs ! ?i)"
    then have "set_find lt x xs = ?i" by (simp add: set_find_def Let_def)
    then have "equiv_by lt x (xs ! ?i)" using set_find_found [OF _ s, of x] i by simp
    then show "\<exists>y\<in>set xs. equiv_by lt x y" using i nth_mem by blast
  qed
  have "set (take ?i xs @ x # drop ?i xs) = insert x (set xs)"
    using parts by (metis Un_insert_right list.simps(15) set_append)
  then show ?thesis unfolding found by (simp add: set_insert_def Let_def)
qed

text \<open>Filling a container in order appends.\<close>

lemma set_insert_last: "\<forall>y\<in>set xs. lt y x \<Longrightarrow> fst (set_insert lt x xs) = xs @ [x]"
  by (simp add: set_insert_def lower_bound_def takeWhile_eq_all_conv [THEN iffD2])

lemma foldl_set_insert:
  "sorted_wrt lt (acc @ xs) \<Longrightarrow> foldl (\<lambda>vec x. fst (set_insert lt x vec)) acc xs = acc @ xs"
  by (induction xs arbitrary: acc) (auto simp: set_insert_last sorted_wrt_append)

lemma map_find_above: "\<forall>p\<in>set m. lt (fst p) k \<Longrightarrow> map_find lt k m = None"
  by (induction m) auto

lemma map_put_last: "\<forall>p\<in>set m. lt (fst p) k \<Longrightarrow> map_put lt k v m = m @ [(k, v)]"
  by (induction m) auto

text \<open>
  Maps: a lookup after a write finds the new value at the equivalent keys and the old ones
  elsewhere, likewise after an erase.
\<close>

abbreviation keys_sorted :: "('a \<times> 'v) list \<Rightarrow> bool" where
  "keys_sorted m \<equiv> sorted_wrt lt (map fst m)"

lemma map_find_below: "keys_sorted m \<Longrightarrow> \<forall>p\<in>set m. lt k (fst p) \<Longrightarrow> map_find lt k m = None"
  by (cases m) (auto dest: asym)

lemma fst_map_put: "set (map fst (map_put lt k v m)) \<subseteq> insert k (set (map fst m))"
  by (induction lt k v m rule: map_put.induct) auto

lemma map_put_sorted: "keys_sorted m \<Longrightarrow> keys_sorted (map_put lt k v m)"
proof (induction m)
  case (Cons p m)
  obtain k' v' where p: "p = (k', v')" by (cases p)
  have *: "\<forall>x\<in>set (map fst m). lt k' x" "keys_sorted (map_put lt k v m)"
    using Cons p by auto
  then have "lt k' k \<Longrightarrow> \<forall>x\<in>set (map fst (map_put lt k v m)). lt k' x"
    using fst_map_put [of k v m] by blast
  moreover have "lt k k' \<Longrightarrow> \<forall>x\<in>set (map fst m). lt k x"
    using *(1) trans by blast
  ultimately show ?case using Cons.prems * p by simp
qed simp

lemma map_find_put:
  assumes "keys_sorted m"
  shows "map_find lt j (map_put lt k v m) = (if equiv_by lt j k then Some v else map_find lt j m)"
  using assms
proof (induction m)
  case Nil
  then show ?case by (auto simp: equiv_by_def)
next
  case (Cons p m)
  obtain k' v' where p: "p = (k', v')" by (cases p)
  consider (less) "lt k' k" | (greater) "lt k k'" "\<not> lt k' k" | (same) "equiv_by lt k' k"
    unfolding equiv_by_def by blast
  then show ?case
  proof cases
    case less
    then have "equiv_by lt j k \<Longrightarrow> lt k' j" using equiv_less(2) [of j k k'] by blast
    then show ?thesis using Cons less p by simp
  next
    case greater
    have "lt j k \<Longrightarrow> lt j k' \<and> \<not> lt k' j" using greater(1) trans asym by blast
    then show ?thesis using greater p by (auto simp: equiv_by_def)
  next
    case same
    then have "\<not> lt k' k" "\<not> lt k k'" by (auto simp: equiv_by_def)
    then show ?thesis using p equiv_less [OF same] by (auto simp: equiv_by_def)
  qed
qed

lemma map_find_equiv: "equiv_by lt j k \<Longrightarrow> map_find lt j m = map_find lt k m"
proof (induction m)
  case (Cons p m)
  then show ?case using equiv_less [of j k "fst p"] by (cases p) simp
qed simp

lemma fst_map_erase: "set (map fst (map_erase lt k m)) \<subseteq> set (map fst m)"
  by (induction lt k m rule: map_erase.induct) auto

lemma map_erase_sorted: "keys_sorted m \<Longrightarrow> keys_sorted (map_erase lt k m)"
proof (induction m)
  case (Cons p m)
  then have "\<forall>x\<in>set (map fst m). lt (fst p) x" by simp
  then have "\<forall>x\<in>set (map fst (map_erase lt k m)). lt (fst p) x"
    using fst_map_erase [of k m] by blast
  with Cons show ?case by (cases p) simp
qed simp

lemma map_find_erase:
  assumes "keys_sorted m"
  shows "map_find lt j (map_erase lt k m) = (if equiv_by lt j k then None else map_find lt j m)"
  using assms
proof (induction m)
  case (Cons p m)
  obtain k' v' where p: "p = (k', v')" by (cases p)
  have above: "\<forall>q\<in>set m. lt k' (fst q)" "keys_sorted m" using Cons.prems p by auto
  consider (less) "lt k' k" | (greater) "lt k k'" "\<not> lt k' k" | (same) "equiv_by lt k' k"
    unfolding equiv_by_def by blast
  then show ?case
  proof cases
    case less
    then have "equiv_by lt j k \<Longrightarrow> lt k' j" using equiv_less(2) [of j k k'] by blast
    then show ?thesis using Cons less p by simp
  next
    case greater
    have "equiv_by lt j k \<Longrightarrow> lt j k'" using greater(1) equiv_less(1) [of j k k'] by blast
    then show ?thesis using greater p asym by auto
  next
    case same
    have "\<not> lt k' j \<Longrightarrow> map_find lt j m = None"
      using above equiv_less(1) [of j k'] trans [of j k'] unfolding equiv_by_def
      by (intro map_find_below) blast+
    then show ?thesis using same p equiv_less [OF same] by (auto simp: equiv_by_def)
  qed
qed simp

end

lemma erase_at_sorted: "sorted_wrt lt xs \<Longrightarrow> sorted_wrt lt (erase_at i xs)"
proof (cases "i < length xs")
  case True
  assume "sorted_wrt lt xs"
  then have "sorted_wrt lt (take i xs @ xs ! i # drop (Suc i) xs)"
    using id_take_nth_drop [OF True] by simp
  then show ?thesis by (simp add: erase_at_def sorted_wrt_append)
qed (simp add: erase_at_def)

lemma set_erase_at:
  assumes "distinct xs" "i < length xs"
  shows "set (erase_at i xs) = set xs - {xs ! i}"
proof -
  let ?l = "take i xs" and ?r = "drop (Suc i) xs"
  have xs: "xs = ?l @ xs ! i # ?r" by (rule id_take_nth_drop [OF assms(2)])
  then have "distinct (?l @ xs ! i # ?r)" using assms(1) by simp
  then have "xs ! i \<notin> set ?l \<union> set ?r" by auto
  moreover have "set xs = insert (xs ! i) (set ?l \<union> set ?r)"
    using arg_cong [OF xs, of set] by auto
  ultimately show ?thesis by (auto simp: erase_at_def)
qed

section \<open>The comparators of plain keys\<close>

text \<open>The order of \<open>std::string\<close> compares the characters as unsigned bytes.\<close>

definition str_less :: "string \<Rightarrow> string \<Rightarrow> bool" where
  "str_less a b \<longleftrightarrow> (map of_char a :: nat list) < map of_char b"

lemma str_equiv [simp]: "equiv_by str_less a b \<longleftrightarrow> a = b"
proof -
  have "equiv_by str_less a b \<longleftrightarrow> (map of_char a :: nat list) = map of_char b"
    by (auto simp: equiv_by_def str_less_def)
  then show ?thesis by (simp add: inj_map_eq_map [OF inj_of_char])
qed

interpretation str: strict_weak_order str_less
  by unfold_locales (auto simp: str_less_def)

lemma less_equiv [simp]: "equiv_by ((<) :: 'a::linorder \<Rightarrow> 'a \<Rightarrow> bool) a b \<longleftrightarrow> a = b"
  by (auto simp: equiv_by_def)

interpretation lin: strict_weak_order "(<) :: 'a::linorder \<Rightarrow> 'a \<Rightarrow> bool"
  by unfold_locales auto

end
