(* ===== verification/Timer.thy ===== *)
theory Timer
  imports StdContainers
begin

text \<open>
  Timers (\<open>timer.h\<close>, \<open>timer.cc\<close>). A \<open>Timer::ptr\<close> is the address of a timer in \<open>heap\<close>, the
  manager's \<open>std::set\<close> the list \<open>m_timers\<close> of addresses in the order of the comparator. The
  allocator and the clock are arguments: every operation that allocates takes the address it got,
  every one that reads \<open>GetCurrentMS\<close> the time it read. Times are 64-bit words and wrap. Erasing
  \<open>end()\<close> is an error value. The lock is held for the whole of each operation, so an operation is
  one step of the relation \<open>tm_step\<close>.
\<close>

section \<open>State\<close>

datatype timer_error = EraseEnd | NullTimer

record 'cb Timer =
  m_recurring :: bool
  m_ms :: u64
  m_next :: u64
  m_cb :: "'cb option"

record 'cb TimerManager =
  m_timers :: "nat list"
  heap :: "nat \<Rightarrow> 'cb Timer option"
  m_tickled :: bool
  m_previouseTime :: u64

definition next_at :: "(nat \<Rightarrow> 'cb Timer option) \<Rightarrow> nat \<Rightarrow> u64" where
  "next_at h a = (case h a of None \<Rightarrow> 0 | Some t \<Rightarrow> m_next t)"

text \<open>\<open>Timer::Comparator\<close>, on pointers that may be null.\<close>

definition Comparator :: "(nat \<Rightarrow> 'cb Timer option) \<Rightarrow> nat option \<Rightarrow> nat option \<Rightarrow> bool" where
  "Comparator h lhs rhs =
     (case (lhs, rhs) of
        (None, None) \<Rightarrow> False
      | (None, Some _) \<Rightarrow> True
      | (Some _, None) \<Rightarrow> False
      | (Some l, Some r) \<Rightarrow>
          if next_at h l < next_at h r then True
          else if next_at h r < next_at h l then False
          else l < r)"

text \<open>The comparator on the addresses of the set, none of which is null.\<close>

definition timer_lt :: "(nat \<Rightarrow> 'cb Timer option) \<Rightarrow> nat \<Rightarrow> nat \<Rightarrow> bool" where
  "timer_lt h a b = Comparator h (Some a) (Some b)"

definition new_Timer :: "u64 \<Rightarrow> u64 \<Rightarrow> 'cb option \<Rightarrow> bool \<Rightarrow> 'cb Timer" where
  "new_Timer now ms cb recurring =
     \<lparr>m_recurring = recurring, m_ms = ms, m_next = now + ms, m_cb = cb\<rparr>"

definition new_Timer_at :: "u64 \<Rightarrow> 'cb Timer" where
  "new_Timer_at next = \<lparr>m_recurring = False, m_ms = 0, m_next = next, m_cb = None\<rparr>"

definition new_TimerManager :: "u64 \<Rightarrow> 'cb TimerManager" where
  "new_TimerManager now =
     \<lparr>m_timers = [], heap = Map.empty, m_tickled = False, m_previouseTime = now\<rparr>"

section \<open>Operations\<close>

definition timer_cancel :: "nat \<Rightarrow> 'cb TimerManager \<Rightarrow> timer_error + bool \<times> 'cb TimerManager" where
  "timer_cancel this m =
     (case heap m this of None \<Rightarrow> Inl NullTimer
      | Some t \<Rightarrow>
        if m_cb t = None then Inr (False, m)
        else let m = m\<lparr>heap := (heap m)(this \<mapsto> t\<lparr>m_cb := None\<rparr>)\<rparr>;
                 it = set_find (timer_lt (heap m)) this (m_timers m)
             in if it = length (m_timers m) then Inl EraseEnd
                else Inr (True, m\<lparr>m_timers := erase_at it (m_timers m)\<rparr>))"

definition timer_refresh ::
  "u64 \<Rightarrow> nat \<Rightarrow> 'cb TimerManager \<Rightarrow> timer_error + bool \<times> 'cb TimerManager" where
  "timer_refresh now this m =
     (case heap m this of None \<Rightarrow> Inl NullTimer
      | Some t \<Rightarrow>
        if m_cb t = None then Inr (False, m)
        else let it = set_find (timer_lt (heap m)) this (m_timers m)
             in if it = length (m_timers m) then Inr (False, m)
                else let ts = erase_at it (m_timers m);
                         h = (heap m)(this \<mapsto> t\<lparr>m_next := now + m_ms t\<rparr>)
                     in Inr (True, m\<lparr>heap := h,
                          m_timers := fst (set_insert (timer_lt h) this ts)\<rparr>))"

text \<open>
  \<open>TimerManager::addTimer(Timer::ptr, WriteLock&)\<close>; the result says whether
  \<open>onTimerInsertedAtFront\<close> is called, after the unlock.
\<close>

definition addTimer_ptr :: "nat \<Rightarrow> 'cb TimerManager \<Rightarrow> bool \<times> 'cb TimerManager" where
  "addTimer_ptr val m =
     (let (ts, it) = set_insert (timer_lt (heap m)) val (m_timers m);
          at_front = (it = 0 \<and> \<not> m_tickled m);
          m = m\<lparr>m_timers := ts\<rparr>
      in (at_front, if at_front then m\<lparr>m_tickled := True\<rparr> else m))"

definition timer_reset ::
  "u64 \<Rightarrow> u64 \<Rightarrow> bool \<Rightarrow> nat \<Rightarrow> 'cb TimerManager \<Rightarrow>
   timer_error + (bool \<times> bool) \<times> 'cb TimerManager" where
  "timer_reset now ms from_now this m =
     (case heap m this of None \<Rightarrow> Inl NullTimer
      | Some t \<Rightarrow>
        if ms = m_ms t \<and> \<not> from_now then Inr ((True, False), m)
        else if m_cb t = None then Inr ((False, False), m)
        else let it = set_find (timer_lt (heap m)) this (m_timers m)
             in if it = length (m_timers m) then Inr ((False, False), m)
                else let ts = erase_at it (m_timers m);
                         start = (if from_now then now else m_next t - m_ms t);
                         t = t\<lparr>m_ms := ms, m_next := start + ms\<rparr>;
                         (front, m) = addTimer_ptr this
                            (m\<lparr>m_timers := ts, heap := (heap m)(this \<mapsto> t)\<rparr>)
                     in Inr ((True, front), m))"

definition addTimer ::
  "u64 \<Rightarrow> nat \<Rightarrow> u64 \<Rightarrow> 'cb option \<Rightarrow> bool \<Rightarrow> 'cb TimerManager \<Rightarrow> bool \<times> 'cb TimerManager" where
  "addTimer now addr ms cb recurring m =
     addTimer_ptr addr (m\<lparr>heap := (heap m)(addr \<mapsto> new_Timer now ms cb recurring)\<rparr>)"

text \<open>
  \<open>OnTimer\<close> calls the callback if the condition is still alive when the timer fires; what is
  stored for a condition timer is that closure.
\<close>

definition OnTimer :: "('c \<Rightarrow> bool) \<Rightarrow> 'c \<Rightarrow> ('s \<Rightarrow> 's) \<Rightarrow> 's \<Rightarrow> 's" where
  "OnTimer alive weak_cond cb s = (if alive weak_cond then cb s else s)"

definition addConditionTimer ::
  "('c \<Rightarrow> bool) \<Rightarrow> u64 \<Rightarrow> nat \<Rightarrow> u64 \<Rightarrow> ('s \<Rightarrow> 's) \<Rightarrow> 'c \<Rightarrow> bool \<Rightarrow>
   ('s \<Rightarrow> 's) TimerManager \<Rightarrow> bool \<times> ('s \<Rightarrow> 's) TimerManager" where
  "addConditionTimer alive now addr ms cb weak_cond recurring =
     addTimer now addr ms (Some (OnTimer alive weak_cond cb)) recurring"

definition getNextTimer :: "u64 \<Rightarrow> 'cb TimerManager \<Rightarrow> u64 \<times> 'cb TimerManager" where
  "getNextTimer now_ms m =
     (let m = m\<lparr>m_tickled := False\<rparr>
      in case m_timers m of [] \<Rightarrow> (- 1, m)
         | next # _ \<Rightarrow>
             if now_ms \<ge> next_at (heap m) next then (0, m)
             else (next_at (heap m) next - now_ms, m))"

definition detectClockRollover :: "u64 \<Rightarrow> 'cb TimerManager \<Rightarrow> bool \<times> 'cb TimerManager" where
  "detectClockRollover now_ms m =
     (now_ms < m_previouseTime m \<and> now_ms < m_previouseTime m - 60 * 60 * 1000,
      m\<lparr>m_previouseTime := now_ms\<rparr>)"

text \<open>The \<open>for\<close> loop over the expired timers.\<close>

fun expire_loop ::
  "u64 \<Rightarrow> nat list \<Rightarrow> 'cb option list \<Rightarrow> 'cb TimerManager \<Rightarrow>
   timer_error + 'cb option list \<times> 'cb TimerManager" where
  "expire_loop now_ms [] cbs m = Inr (cbs, m)"
| "expire_loop now_ms (a # as) cbs m =
     (case heap m a of None \<Rightarrow> Inl NullTimer
      | Some t \<Rightarrow>
        if m_recurring t then
          let h = (heap m)(a \<mapsto> t\<lparr>m_next := now_ms + m_ms t\<rparr>)
          in expire_loop now_ms as (cbs @ [m_cb t])
               (m\<lparr>heap := h, m_timers := fst (set_insert (timer_lt h) a (m_timers m))\<rparr>)
        else expire_loop now_ms as (cbs @ [m_cb t])
               (m\<lparr>heap := (heap m)(a \<mapsto> t\<lparr>m_cb := None\<rparr>)\<rparr>))"

text \<open>
  \<open>listExpiredCb\<close>: the bound below which timers are expired is \<open>end()\<close> after a clock rollover,
  else the lower bound of a timer made for the current time (at the address \<open>naddr\<close>), moved past
  the timers due exactly now. The callbacks are appended to \<open>cbs\<close>.
\<close>

definition expire_bound :: "u64 \<Rightarrow> nat \<Rightarrow> bool \<Rightarrow> 'cb TimerManager \<Rightarrow> nat" where
  "expire_bound now_ms naddr rollover m =
     (if rollover then length (m_timers m)
      else let it = lower_bound (timer_lt ((heap m)(naddr \<mapsto> new_Timer_at now_ms))) naddr (m_timers m)
           in it + length (takeWhile (\<lambda>a. next_at (heap m) a = now_ms) (drop it (m_timers m))))"

definition listExpiredCb ::
  "u64 \<Rightarrow> nat \<Rightarrow> 'cb option list \<Rightarrow> 'cb TimerManager \<Rightarrow>
   timer_error + 'cb option list \<times> 'cb TimerManager" where
  "listExpiredCb now_ms naddr cbs m =
     (case m_timers m of [] \<Rightarrow> Inr (cbs, m)
      | first # _ \<Rightarrow>
        let (rollover, m) = detectClockRollover now_ms m
        in if \<not> rollover \<and> next_at (heap m) first > now_ms then Inr (cbs, m)
           else let it = expire_bound now_ms naddr rollover m
                in expire_loop now_ms (take it (m_timers m)) cbs
                     (m\<lparr>m_timers := drop it (m_timers m)\<rparr>))"

definition hasTimer :: "'cb TimerManager \<Rightarrow> bool" where
  "hasTimer m \<longleftrightarrow> m_timers m \<noteq> []"

section \<open>The comparator is a strict weak order\<close>

lemma timer_lt_iff:
  "timer_lt h a b \<longleftrightarrow> next_at h a < next_at h b \<or> next_at h a = next_at h b \<and> a < b"
  by (auto simp: timer_lt_def Comparator_def)

interpretation timer: strict_weak_order "timer_lt h" for h :: "nat \<Rightarrow> 'cb Timer option"
  by unfold_locales (auto simp: timer_lt_iff equiv_by_def)

lemma Comparator_simps [simp]:
  "\<not> Comparator h x None" "Comparator h None (Some b)"
  "Comparator h (Some a) (Some b) = timer_lt h a b"
  by (auto simp: Comparator_def timer_lt_def split: option.splits)

lemma timer_equiv_eq [simp]: "equiv_by (timer_lt h) a b \<longleftrightarrow> a = b"
  by (auto simp: timer_lt_iff equiv_by_def)

lemma timer_ptr_equiv_eq: "equiv_by (Comparator h) x y \<longleftrightarrow> x = y"
  by (cases x; cases y) (auto simp: equiv_by_def timer_lt_iff)

interpretation timer_ptr: strict_weak_order "Comparator h" for h :: "nat \<Rightarrow> 'cb Timer option"
proof
  fix x y z :: "nat option"
  show "\<not> Comparator h x x" by (cases x) (auto simp: timer.irrefl)
  show "Comparator h x y \<Longrightarrow> Comparator h y z \<Longrightarrow> Comparator h x z"
    by (cases x; cases y; cases z) (auto intro: timer.trans)
qed (simp add: timer_ptr_equiv_eq)

section \<open>Invariant\<close>

text \<open>
  The set is in the comparator's order, it holds allocated timers only, and every timer that
  still has a callback is in it. The last is what makes the unchecked \<open>erase\<close> of \<open>cancel\<close> safe.
\<close>

definition tm_inv :: "'cb TimerManager \<Rightarrow> bool" where
  "tm_inv m \<longleftrightarrow> sorted_wrt (timer_lt (heap m)) (m_timers m)
     \<and> set (m_timers m) \<subseteq> dom (heap m)
     \<and> (\<forall>a t. heap m a = Some t \<and> m_cb t \<noteq> None \<longrightarrow> a \<in> set (m_timers m))"

lemma timer_sorted_cong:
  assumes "\<And>a. a \<in> set xs \<Longrightarrow> next_at h' a = next_at h a"
  shows "sorted_wrt (timer_lt h') xs = sorted_wrt (timer_lt h) xs"
  using assms by (induction xs) (auto simp: timer_lt_iff)

lemma next_at_upd [simp]:
  "next_at (h(a \<mapsto> t)) b = (if b = a then m_next t else next_at h b)"
  by (simp add: next_at_def)

lemma timer_insert_set:
  "sorted_wrt (timer_lt h) xs \<Longrightarrow> set (fst (set_insert (timer_lt h) a xs)) = insert a (set xs)"
  by (auto simp: timer.set_insert_set)

text \<open>The one insertion all operations share: a timer outside the set gets its deadline, then enters.\<close>

lemma timer_insert_sorted:
  assumes "sorted_wrt (timer_lt h) xs" "a \<notin> set xs"
  shows "sorted_wrt (timer_lt (h(a \<mapsto> t))) (fst (set_insert (timer_lt (h(a \<mapsto> t))) a xs))"
    "set (fst (set_insert (timer_lt (h(a \<mapsto> t))) a xs)) = insert a (set xs)"
proof -
  have "sorted_wrt (timer_lt (h(a \<mapsto> t))) xs"
    using assms by (subst timer_sorted_cong [of xs _ h]) auto
  then show "sorted_wrt (timer_lt (h(a \<mapsto> t))) (fst (set_insert (timer_lt (h(a \<mapsto> t))) a xs))"
    "set (fst (set_insert (timer_lt (h(a \<mapsto> t))) a xs)) = insert a (set xs)"
    by (auto simp: timer.set_insert_sorted timer_insert_set)
qed

text \<open>A timer of the set is found, and erasing what was found takes it out.\<close>

lemma timer_find_erase:
  assumes "sorted_wrt (timer_lt h) xs" "a \<in> set xs"
  shows "set_find (timer_lt h) a xs \<noteq> length xs"
    "set (erase_at (set_find (timer_lt h) a xs) xs) = set xs - {a}"
  using timer.set_find_member [OF assms] set_erase_at [OF timer.sorted_distinct [OF assms(1)]]
  by (auto simp: less_not_refl3)

lemma timer_find_absent:
  "sorted_wrt (timer_lt h) xs \<Longrightarrow> a \<notin> set xs \<Longrightarrow> set_find (timer_lt h) a xs = length xs"
  using timer.set_find_found [of h a xs] nth_mem [of "set_find (timer_lt h) a xs" xs]
    timer.set_find_le [of h a xs] by (auto simp: le_less)

lemma addTimer_ptr_sel [simp]:
  "heap (snd (addTimer_ptr a m)) = heap m"
  "m_timers (snd (addTimer_ptr a m)) = fst (set_insert (timer_lt (heap m)) a (m_timers m))"
  by (auto simp: addTimer_ptr_def Let_def split: prod.splits)

lemma tm_inv_new: "tm_inv (new_TimerManager now)"
  by (simp add: tm_inv_def new_TimerManager_def)

lemma tm_inv_addTimer:
  assumes "tm_inv m" "heap m a = None"
  shows "tm_inv (snd (addTimer now a ms cb rec m))"
proof -
  have "a \<notin> set (m_timers m)" using assms by (auto simp: tm_inv_def)
  with assms show ?thesis
    by (auto simp: tm_inv_def addTimer_def timer_insert_sorted split: if_splits)
qed

lemma timer_cancel_spec:
  assumes inv: "tm_inv m" and t: "heap m a = Some t"
  shows "timer_cancel a m = Inr (if m_cb t = None then (False, m)
    else (True, m\<lparr>heap := (heap m)(a \<mapsto> t\<lparr>m_cb := None\<rparr>),
                m_timers := erase_at (set_find (timer_lt (heap m)) a (m_timers m)) (m_timers m)\<rparr>))"
proof (cases "m_cb t = None")
  case False
  have lt: "timer_lt ((heap m)(a \<mapsto> t\<lparr>m_cb := None\<rparr>)) = timer_lt (heap m)"
    using t by (intro ext) (auto simp: timer_lt_iff next_at_def)
  have "set_find (timer_lt (heap m)) a (m_timers m) \<noteq> length (m_timers m)"
    using inv t False timer_find_erase(1) [of "heap m" "m_timers m" a] by (auto simp: tm_inv_def)
  then show ?thesis using t False by (simp add: timer_cancel_def Let_def lt)
qed (simp add: timer_cancel_def t)

lemma tm_inv_cancel: "tm_inv m \<Longrightarrow> timer_cancel a m = Inr (r, m') \<Longrightarrow> tm_inv m'"
proof (cases "heap m a")
  case (Some t)
  assume inv: "tm_inv m" and c: "timer_cancel a m = Inr (r, m')"
  show ?thesis
  proof (cases "m_cb t = None")
    case False
    let ?ts = "erase_at (set_find (timer_lt (heap m)) a (m_timers m)) (m_timers m)"
    let ?h = "(heap m)(a \<mapsto> t\<lparr>m_cb := None\<rparr>)"
    have m': "m' = m\<lparr>heap := ?h, m_timers := ?ts\<rparr>"
      using c timer_cancel_spec [OF inv Some] False by simp
    have "a \<in> set (m_timers m)" using inv Some False by (auto simp: tm_inv_def)
    then have "set ?ts = set (m_timers m) - {a}"
      using inv timer_find_erase(2) by (auto simp: tm_inv_def)
    moreover have "sorted_wrt (timer_lt ?h) ?ts"
      using inv Some by (subst timer_sorted_cong [of _ _ "heap m"])
        (auto simp: tm_inv_def erase_at_sorted next_at_def)
    ultimately show ?thesis using inv unfolding m' tm_inv_def by (auto split: if_splits)
  qed (use inv c timer_cancel_spec [OF inv Some] in simp)
qed (simp add: timer_cancel_def)

text \<open>Taking a timer out, changing it and putting it back, as \<open>refresh\<close> and \<open>reset\<close> do.\<close>

lemma timer_reinsert:
  assumes inv: "tm_inv m" and t: "heap m a = Some t" and a: "a \<in> set (m_timers m)"
    and ts: "ts = erase_at (set_find (timer_lt (heap m)) a (m_timers m)) (m_timers m)"
  shows "sorted_wrt (timer_lt ((heap m)(a \<mapsto> t')))
      (fst (set_insert (timer_lt ((heap m)(a \<mapsto> t'))) a ts))"
    "set (fst (set_insert (timer_lt ((heap m)(a \<mapsto> t'))) a ts)) = set (m_timers m)"
proof -
  have s: "sorted_wrt (timer_lt (heap m)) ts" using inv ts by (simp add: tm_inv_def erase_at_sorted)
  have set: "set ts = set (m_timers m) - {a}"
    using inv a ts timer_find_erase(2) by (auto simp: tm_inv_def)
  then have "a \<notin> set ts" by simp
  from timer_insert_sorted [OF s this] set a
  show "sorted_wrt (timer_lt ((heap m)(a \<mapsto> t'))) (fst (set_insert (timer_lt ((heap m)(a \<mapsto> t'))) a ts))"
    "set (fst (set_insert (timer_lt ((heap m)(a \<mapsto> t'))) a ts)) = set (m_timers m)"
    by (auto simp: insert_absorb)
qed

lemma tm_inv_reinsert:
  assumes inv: "tm_inv m" and t: "heap m a = Some t"
    and find: "set_find (timer_lt (heap m)) a (m_timers m) \<noteq> length (m_timers m)"
    and ts: "ts = erase_at (set_find (timer_lt (heap m)) a (m_timers m)) (m_timers m)"
    and m': "heap m' = (heap m)(a \<mapsto> t')"
      "m_timers m' = fst (set_insert (timer_lt ((heap m)(a \<mapsto> t'))) a ts)"
  shows "tm_inv m' \<and> set (m_timers m') = set (m_timers m)"
proof -
  have a: "a \<in> set (m_timers m)" using find inv timer_find_absent by (auto simp: tm_inv_def)
  from timer_reinsert [OF inv t a ts, of t'] inv a show ?thesis
    unfolding tm_inv_def m' by (auto split: if_splits)
qed

lemma timer_refresh_eq:
  "heap m a = Some t \<Longrightarrow> timer_refresh now a m =
     (let i = set_find (timer_lt (heap m)) a (m_timers m); h = (heap m)(a \<mapsto> t\<lparr>m_next := now + m_ms t\<rparr>)
      in if m_cb t = None \<or> i = length (m_timers m) then Inr (False, m)
         else Inr (True, m\<lparr>heap := h,
                m_timers := fst (set_insert (timer_lt h) a (erase_at i (m_timers m)))\<rparr>))"
  by (simp add: timer_refresh_def Let_def)

lemma timer_reset_eq:
  "heap m a = Some t \<Longrightarrow> timer_reset now ms fn a m =
     (let i = set_find (timer_lt (heap m)) a (m_timers m);
          t' = t\<lparr>m_ms := ms, m_next := (if fn then now else m_next t - m_ms t) + ms\<rparr>;
          (front, m') = addTimer_ptr a
            (m\<lparr>m_timers := erase_at i (m_timers m), heap := (heap m)(a \<mapsto> t')\<rparr>)
      in if ms = m_ms t \<and> \<not> fn then Inr ((True, False), m)
         else if m_cb t = None \<or> i = length (m_timers m) then Inr ((False, False), m)
         else Inr ((True, front), m'))"
  by (simp add: timer_reset_def Let_def split: prod.split)

lemma tm_inv_refresh:
  assumes inv: "tm_inv m" and r: "timer_refresh now a m = Inr (r, m')"
  shows "tm_inv m' \<and> set (m_timers m') = set (m_timers m)"
proof (cases "heap m a")
  case (Some t)
  show ?thesis
  proof (cases "m_cb t = None \<or> set_find (timer_lt (heap m)) a (m_timers m) = length (m_timers m)")
    case True
    then have "m' = m" using r unfolding timer_refresh_eq [OF Some] Let_def by auto
    then show ?thesis using inv by simp
  next
    case False
    let ?t = "t\<lparr>m_next := now + m_ms t\<rparr>"
    have "heap m' = (heap m)(a \<mapsto> ?t)"
      "m_timers m' = fst (set_insert (timer_lt ((heap m)(a \<mapsto> ?t))) a
         (erase_at (set_find (timer_lt (heap m)) a (m_timers m)) (m_timers m)))"
      using r False unfolding timer_refresh_eq [OF Some] Let_def by auto
    then show ?thesis using False by (intro tm_inv_reinsert [OF inv Some _ refl]) auto
  qed
qed (use r in \<open>simp add: timer_refresh_def\<close>)

lemma tm_inv_reset:
  assumes inv: "tm_inv m" and r: "timer_reset now ms fn a m = Inr (r, m')"
  shows "tm_inv m' \<and> set (m_timers m') = set (m_timers m)"
proof (cases "heap m a")
  case (Some t)
  let ?i = "set_find (timer_lt (heap m)) a (m_timers m)"
  let ?t = "t\<lparr>m_ms := ms, m_next := (if fn then now else m_next t - m_ms t) + ms\<rparr>"
  let ?m = "m\<lparr>m_timers := erase_at ?i (m_timers m), heap := (heap m)(a \<mapsto> ?t)\<rparr>"
  show ?thesis
  proof (cases "(ms = m_ms t \<and> \<not> fn) \<or> m_cb t = None \<or> ?i = length (m_timers m)")
    case True
    then have "m' = m"
      using r unfolding timer_reset_eq [OF Some] Let_def by (auto split: prod.splits if_splits)
    then show ?thesis using inv by simp
  next
    case False
    then have "m' = snd (addTimer_ptr a ?m)"
      using r unfolding timer_reset_eq [OF Some] Let_def by (auto split: prod.splits)
    then show ?thesis using False by (intro tm_inv_reinsert [OF inv Some _ refl, of m' ?t]) auto
  qed
qed (use r in \<open>simp add: timer_reset_def\<close>)

lemma tm_inv_getNextTimer: "tm_inv m \<Longrightarrow> tm_inv (snd (getNextTimer now m))"
  by (auto simp: tm_inv_def getNextTimer_def Let_def split: list.splits)

section \<open>Expiry\<close>

definition expire_timer :: "u64 \<Rightarrow> 'cb Timer \<Rightarrow> 'cb Timer" where
  "expire_timer now t =
     (if m_recurring t then t\<lparr>m_next := now + m_ms t\<rparr> else t\<lparr>m_cb := None\<rparr>)"

definition cb_at :: "(nat \<Rightarrow> 'cb Timer option) \<Rightarrow> nat \<Rightarrow> 'cb option" where
  "cb_at h a = (case h a of None \<Rightarrow> None | Some t \<Rightarrow> m_cb t)"

definition recurring_at :: "(nat \<Rightarrow> 'cb Timer option) \<Rightarrow> nat \<Rightarrow> bool" where
  "recurring_at h a = (case h a of None \<Rightarrow> False | Some t \<Rightarrow> m_recurring t)"

lemma expire_loop_spec:
  assumes "set as \<subseteq> dom (heap m)" "distinct as" "set as \<inter> set (m_timers m) = {}"
    "sorted_wrt (timer_lt (heap m)) (m_timers m)"
  shows "\<exists>m'. expire_loop now as cbs m = Inr (cbs @ map (cb_at (heap m)) as, m')
    \<and> heap m' = (\<lambda>a. if a \<in> set as then map_option (expire_timer now) (heap m a) else heap m a)
    \<and> sorted_wrt (timer_lt (heap m')) (m_timers m')
    \<and> set (m_timers m') = set (m_timers m) \<union> {a \<in> set as. recurring_at (heap m) a}
    \<and> m_tickled m' = m_tickled m \<and> m_previouseTime m' = m_previouseTime m"
  using assms
proof (induction as arbitrary: cbs m)
  case (Cons a as)
  obtain t where t: "heap m a = Some t" using Cons.prems(1) by auto
  have a: "a \<notin> set as" "a \<notin> set (m_timers m)" using Cons.prems(2,3) by auto
  let ?h = "(heap m)(a \<mapsto> expire_timer now t)"
  define m1 where "m1 = m\<lparr>heap := ?h, m_timers := (if m_recurring t
      then fst (set_insert (timer_lt ?h) a (m_timers m)) else m_timers m)\<rparr>"
  have m1: "heap m1 = ?h" "m_tickled m1 = m_tickled m" "m_previouseTime m1 = m_previouseTime m"
    by (simp_all add: m1_def)
  have step: "expire_loop now (a # as) cbs m = expire_loop now as (cbs @ [m_cb t]) m1"
    using t by (simp add: m1_def expire_timer_def Let_def)
  have set: "set (m_timers m1) = set (m_timers m) \<union> (if m_recurring t then {a} else {})"
    using timer_insert_sorted(2) [OF Cons.prems(4) a(2)] by (auto simp: m1_def)
  have "sorted_wrt (timer_lt ?h) (m_timers m)"
    using Cons.prems(4) a(2) by (subst timer_sorted_cong [of _ _ "heap m"]) auto
  then have "sorted_wrt (timer_lt (heap m1)) (m_timers m1)"
    using timer_insert_sorted(1) [OF Cons.prems(4) a(2)] by (simp add: m1_def)
  moreover have "set as \<subseteq> dom (heap m1)" "distinct as" "set as \<inter> set (m_timers m1) = {}"
    unfolding set m1 using Cons.prems a by auto
  ultimately obtain m' where m': "expire_loop now as (cbs @ [m_cb t]) m1
        = Inr ((cbs @ [m_cb t]) @ map (cb_at ?h) as, m')"
    "heap m' = (\<lambda>b. if b \<in> set as then map_option (expire_timer now) (?h b) else ?h b)"
    "sorted_wrt (timer_lt (heap m')) (m_timers m')"
    "set (m_timers m') = set (m_timers m1) \<union> {b \<in> set as. recurring_at ?h b}"
    "m_tickled m' = m_tickled m" "m_previouseTime m' = m_previouseTime m"
    using Cons.IH [of m1 "cbs @ [m_cb t]"] unfolding m1 by blast
  have cb: "(cbs @ [m_cb t]) @ map (cb_at ?h) as = cbs @ map (cb_at (heap m)) (a # as)"
    using a(1) t by (auto simp: cb_at_def)
  have h: "heap m' = (\<lambda>b. if b \<in> set (a # as) then map_option (expire_timer now) (heap m b)
      else heap m b)"
    unfolding m'(2) using a(1) t by (intro ext) auto
  have r: "{b \<in> set as. recurring_at ?h b} = {b \<in> set as. recurring_at (heap m) b}"
    using a(1) by (auto simp: recurring_at_def)
  have ra: "m_recurring t = recurring_at (heap m) a" using t by (simp add: recurring_at_def)
  have ts: "set (m_timers m') = set (m_timers m) \<union> {b \<in> set (a # as). recurring_at (heap m) b}"
    unfolding m'(4) set r ra by auto
  show ?case
    unfolding step m'(1) cb
    by (intro exI [of _ m'] conjI refl h m'(3) ts m'(5) m'(6))
qed simp

text \<open>
  The bound below which timers are expired: lower bound plus the timers due exactly now, which is
  the number of timers due by now, whatever the address of the comparison timer.
\<close>

lemma takeWhile_two_steps:
  fixes f :: "'a \<Rightarrow> 'k::linorder"
  assumes "sorted (map f xs)" "\<And>x. x \<in> set xs \<Longrightarrow> P x \<Longrightarrow> f x \<le> k"
    "\<And>x. x \<in> set xs \<Longrightarrow> f x < k \<Longrightarrow> P x"
  shows "length (takeWhile P xs) + length (takeWhile (\<lambda>x. f x = k) (drop (length (takeWhile P xs)) xs))
    = length (takeWhile (\<lambda>x. f x \<le> k) xs)"
  using assms
proof (induction xs)
  case (Cons x xs)
  show ?case
  proof (cases "P x")
    case True
    then show ?thesis using Cons by simp
  next
    case False
    then have "k \<le> f x" using Cons.prems(3) [of x] by force
    then have "takeWhile (\<lambda>y. f y = k) (x # xs) = takeWhile (\<lambda>y. f y \<le> k) (x # xs)"
      using Cons.prems(1) by (intro takeWhile_cong) (auto intro: order.antisym)
    then show ?thesis using False by simp
  qed
qed simp

lemma timer_sorted_next: "sorted_wrt (timer_lt h) xs \<Longrightarrow> sorted (map (next_at h) xs)"
  by (induction xs) (auto simp: timer_lt_iff)

lemma expire_bound_eq:
  assumes "tm_inv m" "naddr \<notin> set (m_timers m)"
  shows "expire_bound now naddr False m
    = length (takeWhile (\<lambda>a. next_at (heap m) a \<le> now) (m_timers m))"
  unfolding expire_bound_def lower_bound_def Let_def if_False
  using assms timer_sorted_next [of "heap m" "m_timers m"]
  by (intro takeWhile_two_steps)
     (auto simp: tm_inv_def timer_lt_iff new_Timer_at_def split: if_splits)

lemma sorted_takeWhile_filter:
  fixes f :: "'a \<Rightarrow> 'k::linorder"
  shows "sorted (map f xs) \<Longrightarrow> takeWhile (\<lambda>x. f x \<le> k) xs = filter (\<lambda>x. f x \<le> k) xs"
proof (induction xs)
  case (Cons x xs)
  then show ?case
  proof (cases "f x \<le> k")
    case False
    then have "\<forall>y\<in>set xs. \<not> f y \<le> k" using Cons.prems by fastforce
    then show ?thesis using False by simp
  qed simp
qed simp

text \<open>The timers due at \<open>now\<close>, in the order of their deadlines; all of them after a rollover.\<close>

definition due_timers :: "u64 \<Rightarrow> 'cb TimerManager \<Rightarrow> nat list" where
  "due_timers now m = (if fst (detectClockRollover now m) then m_timers m
     else filter (\<lambda>a. next_at (heap m) a \<le> now) (m_timers m))"

lemma expire_bound_split:
  assumes inv: "tm_inv m" and n: "naddr \<notin> set (m_timers m)"
    and r: "r = fst (detectClockRollover now m)"
  shows "take (expire_bound now naddr r m) (m_timers m) = due_timers now m"
    "set (drop (expire_bound now naddr r m) (m_timers m)) = set (m_timers m) - set (due_timers now m)"
    "sorted_wrt (timer_lt (heap m)) (drop (expire_bound now naddr r m) (m_timers m))"
proof -
  let ?i = "expire_bound now naddr r m"
  have s: "sorted_wrt (timer_lt (heap m)) (m_timers m)" using inv by (simp add: tm_inv_def)
  show t: "take ?i (m_timers m) = due_timers now m"
  proof (cases r)
    case True
    then show ?thesis using r by (simp add: expire_bound_def due_timers_def)
  next
    case False
    then have "take ?i (m_timers m) = takeWhile (\<lambda>a. next_at (heap m) a \<le> now) (m_timers m)"
      using expire_bound_eq [OF inv n, of now] by (metis takeWhile_eq_take)
    then show ?thesis
      using r False sorted_takeWhile_filter [OF timer_sorted_next [OF s], of now]
      by (simp add: due_timers_def)
  qed
  have "distinct (take ?i (m_timers m) @ drop ?i (m_timers m))"
    using timer.sorted_distinct [OF s] by simp
  then have "set (take ?i (m_timers m)) \<inter> set (drop ?i (m_timers m)) = {}"
    by (simp only: distinct_append)
  moreover have "set (m_timers m) = set (take ?i (m_timers m)) \<union> set (drop ?i (m_timers m))"
    by (metis append_take_drop_id set_append)
  ultimately show "set (drop ?i (m_timers m)) = set (m_timers m) - set (due_timers now m)"
    unfolding t by blast
  show "sorted_wrt (timer_lt (heap m)) (drop ?i (m_timers m))" using s by (rule sorted_wrt_drop)
qed

lemma listExpiredCb_spec:
  assumes inv: "tm_inv m" and n: "naddr \<notin> set (m_timers m)"
  shows "\<exists>m'. listExpiredCb now naddr cbs m = Inr (cbs @ map (cb_at (heap m)) (due_timers now m), m')
    \<and> heap m' = (\<lambda>a. if a \<in> set (due_timers now m)
        then map_option (expire_timer now) (heap m a) else heap m a)
    \<and> sorted_wrt (timer_lt (heap m')) (m_timers m')
    \<and> set (m_timers m') = set (m_timers m) - set (due_timers now m)
        \<union> {a \<in> set (due_timers now m). recurring_at (heap m) a}"
proof (cases "m_timers m")
  case Nil
  then show ?thesis by (auto simp: listExpiredCb_def due_timers_def)
next
  case (Cons f fs)
  let ?r = "fst (detectClockRollover now m)" and ?m = "snd (detectClockRollover now m)"
  let ?i = "expire_bound now naddr ?r m"
  have s: "sorted_wrt (timer_lt (heap m)) (m_timers m)" using inv by (simp add: tm_inv_def)
  have d: "heap ?m = heap m" "m_timers ?m = m_timers m" by (simp_all add: detectClockRollover_def)
  then have b: "expire_bound now naddr ?r ?m = ?i" by (simp add: expire_bound_def)
  note E = expire_bound_split [OF inv n refl, of now]
  show ?thesis
  proof (cases "\<not> ?r \<and> next_at (heap m) f > now")
    case True
    have "\<forall>a\<in>set (m_timers m). now < next_at (heap m) a"
      using True timer_sorted_next [OF s] Cons by auto
    then have "due_timers now m = []" using True by (auto simp: due_timers_def filter_empty_conv)
    then show ?thesis using True Cons d s by (auto simp: listExpiredCb_def split: prod.splits)
  next
    case False
    define m2 where "m2 = ?m\<lparr>m_timers := drop ?i (m_timers m)\<rparr>"
    have m2: "heap m2 = heap m" "m_timers m2 = drop ?i (m_timers m)" using d by (simp_all add: m2_def)
    have l: "listExpiredCb now naddr cbs m = expire_loop now (due_timers now m) cbs m2"
      using False Cons d b E(1) unfolding m2_def
      by (cases "detectClockRollover now m") (auto simp: listExpiredCb_def Let_def)
    have "set (due_timers now m) \<subseteq> dom (heap m2)"
      using inv unfolding m2 by (auto simp: due_timers_def tm_inv_def)
    moreover have "distinct (due_timers now m)"
      using timer.sorted_distinct [OF s] by (simp add: due_timers_def)
    moreover have "set (due_timers now m) \<inter> set (m_timers m2) = {}" unfolding m2 E(2) by auto
    moreover have "sorted_wrt (timer_lt (heap m2)) (m_timers m2)" unfolding m2 by (rule E(3))
    ultimately show ?thesis
      using expire_loop_spec [of "due_timers now m" m2 now cbs] unfolding l m2 E(2) by blast
  qed
qed

lemma tm_inv_listExpiredCb:
  assumes inv: "tm_inv m" and n: "naddr \<notin> set (m_timers m)"
    and l: "listExpiredCb now naddr cbs m = Inr (cbs', m')"
  shows "tm_inv m'"
proof -
  obtain h: "heap m' = (\<lambda>a. if a \<in> set (due_timers now m)
        then map_option (expire_timer now) (heap m a) else heap m a)"
    and s: "sorted_wrt (timer_lt (heap m')) (m_timers m')"
    and t: "set (m_timers m') = set (m_timers m) - set (due_timers now m)
        \<union> {a \<in> set (due_timers now m). recurring_at (heap m) a}"
    using listExpiredCb_spec [OF inv n, of now cbs] l by auto
  have sub: "set (due_timers now m) \<subseteq> set (m_timers m)" by (auto simp: due_timers_def)
  have "set (m_timers m') \<subseteq> dom (heap m')"
    using inv sub unfolding t h tm_inv_def by (auto simp: recurring_at_def split: option.splits)
  moreover have "a \<in> set (m_timers m')" if "heap m' a = Some u" "m_cb u \<noteq> None" for a u
    using inv that unfolding t h tm_inv_def
    by (auto simp: expire_timer_def recurring_at_def split: if_splits option.splits)
  ultimately show ?thesis using s by (auto simp: tm_inv_def)
qed

section \<open>Reachable timer managers\<close>

text \<open>
  One step per locked operation; a new timer gets an address no timer has, and the comparison
  timer of \<open>listExpiredCb\<close> one that is not in use.
\<close>

inductive tm_step :: "'cb TimerManager \<Rightarrow> 'cb TimerManager \<Rightarrow> bool" where
  step_add: "heap m a = None \<Longrightarrow> tm_step m (snd (addTimer now a ms cb rec m))"
| step_cancel: "timer_cancel a m = Inr (r, m') \<Longrightarrow> tm_step m m'"
| step_refresh: "timer_refresh now a m = Inr (r, m') \<Longrightarrow> tm_step m m'"
| step_reset: "timer_reset now ms fn a m = Inr (r, m') \<Longrightarrow> tm_step m m'"
| step_next: "tm_step m (snd (getNextTimer now m))"
| step_expire: "heap m a = None \<Longrightarrow> listExpiredCb now a cbs m = Inr (cbs', m') \<Longrightarrow> tm_step m m'"

inductive_cases tm_stepE: "tm_step m m'"

lemma tm_inv_step: "tm_step m m' \<Longrightarrow> tm_inv m \<Longrightarrow> tm_inv m'"
proof (induction rule: tm_step.induct)
  case (step_expire m a now cbs cbs' m')
  then show ?case by (intro tm_inv_listExpiredCb [OF _ _ step_expire(2)]) (auto simp: tm_inv_def)
qed (auto intro: tm_inv_addTimer tm_inv_cancel tm_inv_getNextTimer
    dest: tm_inv_refresh tm_inv_reset)

definition tm_reachable :: "'cb TimerManager \<Rightarrow> bool" where
  "tm_reachable m \<longleftrightarrow> (\<exists>now. tm_step\<^sup>*\<^sup>* (new_TimerManager now) m)"

lemma tm_reachable_tm_inv: "tm_reachable m \<Longrightarrow> tm_inv m"
proof -
  have "tm_step\<^sup>*\<^sup>* m0 m \<Longrightarrow> tm_inv m0 \<Longrightarrow> tm_inv m" for m0
    by (induction rule: rtranclp_induct) (auto intro: tm_inv_step)
  then show "tm_reachable m \<Longrightarrow> tm_inv m" unfolding tm_reachable_def using tm_inv_new by blast
qed

section \<open>Properties\<close>

text \<open>
  C8: in every timer manager that operations can lead to, the timer set is strictly ordered by
  deadline and address, holds live timers only, and holds every timer that still has a callback.
\<close>

theorem tm_reachable_inv: "tm_reachable m \<Longrightarrow> tm_inv m"
  by (rule tm_reachable_tm_inv)

theorem tm_reachable_inv_witness:
  "tm_inv (snd (addTimer 100 7 50 (Some ()) False (new_TimerManager 100)))"
  by (rule tm_reachable_inv)
     (auto simp: tm_reachable_def new_TimerManager_def intro!: exI [of _ 100] r_into_rtranclp [of tm_step] step_add)

text \<open>
  Cancelling any timer of a reachable manager never erases \<open>end()\<close>: it returns whether the
  timer still had a callback, and afterwards the timer is in the set no more and has none.
\<close>

theorem timer_cancel_safe:
  assumes r: "tm_reachable m" and t: "heap m a = Some t"
  shows "\<exists>m'. timer_cancel a m = Inr (m_cb t \<noteq> None, m') \<and> cb_at (heap m') a = None
    \<and> (m_cb t \<noteq> None \<longrightarrow> a \<notin> set (m_timers m')
         \<and> set (m_timers m') = set (m_timers m) - {a})"
proof -
  have inv: "tm_inv m" by (rule tm_reachable_tm_inv [OF r])
  have "m_cb t \<noteq> None \<Longrightarrow> a \<in> set (m_timers m)" using inv t by (auto simp: tm_inv_def)
  then show ?thesis
    using timer_cancel_spec [OF inv t] timer_find_erase(2) [of "heap m" "m_timers m" a] inv t
    by (auto simp: cb_at_def tm_inv_def)
qed

theorem timer_cancel_safe_witness:
  "\<exists>m'. timer_cancel 7 (snd (addTimer 100 7 50 (Some ()) False (new_TimerManager 100)))
     = Inr (True, m') \<and> cb_at (heap m') 7 = None"
proof -
  let ?m = "snd (addTimer 100 7 50 (Some ()) False (new_TimerManager 100))"
  have "tm_reachable ?m"
    by (auto simp: tm_reachable_def new_TimerManager_def intro!: exI [of _ 100] r_into_rtranclp [of tm_step] step_add)
  moreover have "heap ?m 7 = Some (new_Timer 100 50 (Some ()) False)"
    by (simp add: addTimer_def)
  ultimately show ?thesis
    using timer_cancel_safe [of ?m 7] by (auto simp: new_Timer_def)
qed

text \<open>
  C7: \<open>listExpiredCb\<close> appends the callbacks of exactly the timers due by now (all of them after a
  clock rollover), in the order of their deadlines; afterwards the one-shot ones among them have
  lost their callback and left the set, the recurring ones are in it with the deadline now plus
  their period, and every other timer is untouched.
\<close>

theorem listExpiredCb_exact:
  assumes inv: "tm_inv m" and n: "naddr \<notin> set (m_timers m)"
  shows "\<exists>m'. listExpiredCb now naddr cbs m = Inr (cbs @ map (cb_at (heap m)) (due_timers now m), m')
    \<and> tm_inv m'
    \<and> (\<forall>a\<in>set (m_timers m). if a \<in> set (due_timers now m)
         then (if recurring_at (heap m) a
           then a \<in> set (m_timers m') \<and> (\<exists>t. heap m a = Some t \<and> next_at (heap m') a = now + m_ms t)
           else a \<notin> set (m_timers m') \<and> cb_at (heap m') a = None)
         else a \<in> set (m_timers m') \<and> heap m' a = heap m a)"
proof -
  obtain m' where l: "listExpiredCb now naddr cbs m
        = Inr (cbs @ map (cb_at (heap m)) (due_timers now m), m')"
    and h: "heap m' = (\<lambda>a. if a \<in> set (due_timers now m)
        then map_option (expire_timer now) (heap m a) else heap m a)"
    and t: "set (m_timers m') = set (m_timers m) - set (due_timers now m)
        \<union> {a \<in> set (due_timers now m). recurring_at (heap m) a}"
    using listExpiredCb_spec [OF inv n, of now cbs] by blast
  have "set (m_timers m) \<subseteq> dom (heap m)" using inv by (simp add: tm_inv_def)
  then show ?thesis
    using tm_inv_listExpiredCb [OF inv n l] l
    by (intro exI [of _ m'] conjI)
       (auto simp: h t recurring_at_def expire_timer_def next_at_def cb_at_def subset_iff dom_def)
qed

theorem listExpiredCb_exact_witness:
  "\<exists>m'. listExpiredCb 200 9 [] (snd (addTimer 100 7 50 (Some ()) False (new_TimerManager 100)))
     = Inr ([Some ()], m') \<and> tm_inv m'"
proof -
  let ?m = "snd (addTimer 100 7 50 (Some ()) False (new_TimerManager 100))"
  have m: "m_timers ?m = [7]" "cb_at (heap ?m) 7 = Some ()" "next_at (heap ?m) 7 = 150"
    by (simp_all add: addTimer_def new_TimerManager_def set_insert_def lower_bound_def cb_at_def
        new_Timer_def)
  have "tm_inv ?m" by (rule tm_inv_addTimer [OF tm_inv_new]) (simp add: new_TimerManager_def)
  moreover have "due_timers 200 ?m = [7]" using m by (simp add: due_timers_def)
  ultimately show ?thesis using listExpiredCb_exact [of ?m 9 200 "[]"] m by auto
qed

text \<open>
  \<open>getNextTimer\<close> returns the largest value when there is no timer; otherwise no timer is due
  sooner than it says, some timer is due exactly then, and it is 0 exactly when one is due.
\<close>

theorem getNextTimer_earliest:
  assumes inv: "tm_inv m"
  shows "if m_timers m = [] then fst (getNextTimer now m) = - 1
    else (\<exists>a\<in>set (m_timers m). fst (getNextTimer now m)
            = (if next_at (heap m) a \<le> now then 0 else next_at (heap m) a - now))
      \<and> (\<forall>a\<in>set (m_timers m). unat (fst (getNextTimer now m)) \<le> unat (next_at (heap m) a) - unat now)"
proof (cases "m_timers m")
  case (Cons f fs)
  have le: "\<forall>a\<in>set (m_timers m). next_at (heap m) f \<le> next_at (heap m) a"
    using inv timer_sorted_next [of "heap m" "m_timers m"] Cons by (auto simp: tm_inv_def)
  let ?v = "if next_at (heap m) f \<le> now then 0 else next_at (heap m) f - now"
  have v: "fst (getNextTimer now m) = ?v" using Cons by (simp add: getNextTimer_def)
  have "unat ?v = unat (next_at (heap m) f) - unat now"
    by (auto simp: word_le_nat_alt unat_sub_if')
  then have "\<forall>a\<in>set (m_timers m). unat ?v \<le> unat (next_at (heap m) a) - unat now"
    using le by (auto simp: word_le_nat_alt intro: diff_le_mono)
  then show ?thesis using Cons v by simp
qed (simp add: getNextTimer_def)

theorem getNextTimer_earliest_witness:
  "fst (getNextTimer 120 (snd (addTimer 100 7 50 (Some ()) False (new_TimerManager 100)))) = 30"
proof -
  let ?m = "snd (addTimer 100 7 50 (Some ()) False (new_TimerManager 100))"
  have "m_timers ?m = [7]" "next_at (heap ?m) 7 = 150"
    by (simp_all add: addTimer_def new_TimerManager_def set_insert_def lower_bound_def new_Timer_def)
  moreover have "tm_inv ?m" by (rule tm_inv_addTimer [OF tm_inv_new]) (simp add: new_TimerManager_def)
  ultimately show ?thesis using getNextTimer_earliest [of ?m 120] by simp
qed

end
