(* ===== verification/IOManager.thy ===== *)
theory IOManager
  imports Scheduler Timer
begin

text \<open>
  The event manager (\<open>iomanager.h\<close>, \<open>iomanager.cc\<close>): per descriptor a context with the events waited
  for and, for each, the scheduler and the fiber or callback to schedule. \<open>interest fd\<close> is the event
  mask the kernel holds for a descriptor after the last successful \<open>epoll_ctl\<close>; whether a call of
  \<open>epoll_ctl\<close> succeeds is an argument. \<open>posted\<close> lists the calls of \<open>schedule\<close> on other objects: the
  scheduler and the task. Event masks are words with the bits of \<open>epoll\<close>. A failing assertion, a null
  scheduler that is used and an index outside a vector are error values.
\<close>

section \<open>State\<close>

datatype io_error = IoAssert string | NullScheduler | OutOfBounds

definition NONE :: u32 where "NONE = 0"
definition READ :: u32 where "READ = 0x1"
definition WRITE :: u32 where "WRITE = 0x4"
definition EPOLLIN :: u32 where "EPOLLIN = 0x1"
definition EPOLLOUT :: u32 where "EPOLLOUT = 0x4"
definition EPOLLERR :: u32 where "EPOLLERR = 0x8"
definition EPOLLHUP :: u32 where "EPOLLHUP = 0x10"

lemmas event_defs = NONE_def READ_def WRITE_def EPOLLIN_def EPOLLOUT_def EPOLLERR_def EPOLLHUP_def

record EventContext =
  scheduler :: "nat option"
  ev_fiber :: "nat option"
  ev_cb :: "cbprog option"

record FdContext =
  read_ctx :: EventContext
  write_ctx :: EventContext
  ctx_fd :: int
  events :: u32

record IOManager =
  m_fdContexts :: "FdContext list"
  m_pendingEventCount :: nat
  interest :: "nat \<Rightarrow> u32"
  posted :: "(nat \<times> FiberAndThread) list"

definition empty_ctx :: EventContext where
  "empty_ctx = \<lparr>scheduler = None, ev_fiber = None, ev_cb = None\<rparr>"

definition new_FdContext :: "nat \<Rightarrow> FdContext" where
  "new_FdContext i = \<lparr>read_ctx = empty_ctx, write_ctx = empty_ctx, ctx_fd = int i, events = NONE\<rparr>"

section \<open>Contexts of a descriptor\<close>

definition getContext :: "u32 \<Rightarrow> FdContext \<Rightarrow> io_error + EventContext" where
  "getContext event c =
     (if event = READ then Inr (read_ctx c)
      else if event = WRITE then Inr (write_ctx c)
      else Inl (IoAssert ''getcontext''))"

definition putContext :: "u32 \<Rightarrow> EventContext \<Rightarrow> FdContext \<Rightarrow> FdContext" where
  "putContext event x c = (if event = READ then c\<lparr>read_ctx := x\<rparr> else c\<lparr>write_ctx := x\<rparr>)"

definition resetContext :: "EventContext \<Rightarrow> EventContext" where
  "resetContext x = x\<lparr>scheduler := None, ev_fiber := None, ev_cb := None\<rparr>"

text \<open>
  \<open>triggerEvent\<close>: \<open>schedule(&ctx.cb)\<close> and \<open>schedule(&ctx.fiber)\<close> swap the callback or the fiber out of
  the context.
\<close>

definition triggerEvent :: "u32 \<Rightarrow> FdContext \<Rightarrow> io_error + (nat \<times> FiberAndThread) \<times> FdContext" where
  "triggerEvent event c =
     (if events c AND event = 0 then Inl (IoAssert ''events & event'')
      else let c = c\<lparr>events := events c AND NOT event\<rparr>
      in bindr (getContext event c) (\<lambda>x.
        case scheduler x of None \<Rightarrow> Inl NullScheduler
        | Some sch \<Rightarrow>
          if ev_cb x \<noteq> None then
            Inr ((sch, ft_cb (ev_cb x) (- 1)), putContext event (x\<lparr>ev_cb := None, scheduler := None\<rparr>) c)
          else
            Inr ((sch, ft_fiber (ev_fiber x) (- 1)),
                 putContext event (x\<lparr>ev_fiber := None, scheduler := None\<rparr>) c)))"

section \<open>The table of contexts\<close>

definition contextResize :: "nat \<Rightarrow> IOManager \<Rightarrow> IOManager" where
  "contextResize sz m =
     m\<lparr>m_fdContexts := take sz (m_fdContexts m)
         @ map new_FdContext [length (m_fdContexts m)..<sz]\<rparr>"

definition new_IOManager :: IOManager where
  "new_IOManager = contextResize 32
     \<lparr>m_fdContexts = [], m_pendingEventCount = 0, interest = \<lambda>_. 0, posted = []\<rparr>"

text \<open>An access \<open>m_fdContexts[fd]\<close>, with \<open>fd\<close> converted to an unsigned index.\<close>

definition context_at :: "int \<Rightarrow> IOManager \<Rightarrow> io_error + FdContext" where
  "context_at fd m =
     (if 0 \<le> fd \<and> fd < int (length (m_fdContexts m)) then Inr (m_fdContexts m ! nat fd)
      else Inl OutOfBounds)"

definition store_ctx :: "int \<Rightarrow> FdContext \<Rightarrow> IOManager \<Rightarrow> IOManager" where
  "store_ctx fd c m = m\<lparr>m_fdContexts := (m_fdContexts m)[nat fd := c]\<rparr>"

definition tell_kernel :: "int \<Rightarrow> u32 \<Rightarrow> IOManager \<Rightarrow> IOManager" where
  "tell_kernel fd msk m = m\<lparr>interest := (interest m)(nat fd := msk)\<rparr>"

text \<open>
  Finding or making the context for \<open>addEvent\<close>; \<open>static_cast<size_t>(fd * 1.5)\<close> truncates. The table is looked up under one
  lock and grown under another: \<open>between\<close> is what other threads did to it in the meantime.
\<close>

definition addEvent_lookup :: "(IOManager \<Rightarrow> IOManager) \<Rightarrow> int \<Rightarrow> IOManager \<Rightarrow> IOManager" where
  "addEvent_lookup between fd m =
     (if int (length (m_fdContexts m)) > fd then m
      else contextResize (nat fd * 3 div 2) (between m))"

section \<open>Events\<close>

text \<open>
  \<open>addEvent\<close> once it has the context, under the lock of the context: \<open>sch\<close> is \<open>Scheduler::GetThis()\<close>, \<open>fb\<close> and \<open>st\<close> are
  \<open>Fiber::GetThis()\<close> and its state, \<open>ctl\<close> says whether \<open>epoll_ctl\<close> succeeds.
\<close>

definition addEvent_locked ::
  "nat option \<Rightarrow> nat \<Rightarrow> State \<Rightarrow> bool \<Rightarrow> int \<Rightarrow> u32 \<Rightarrow> cbprog option \<Rightarrow> IOManager \<Rightarrow>
   io_error + int \<times> IOManager" where
  "addEvent_locked sch fb st ctl fd event cb m =
     bindr (context_at fd m) (\<lambda>c.
       if events c AND event \<noteq> 0 then Inl (IoAssert ''!(fd_ctx->events & event)'')
       else if \<not> ctl then Inr (- 1, m)
       else
         let m = tell_kernel fd (events c OR event) m;
             m = m\<lparr>m_pendingEventCount := m_pendingEventCount m + 1\<rparr>;
             c = c\<lparr>events := events c OR event\<rparr>
         in bindr (getContext event c) (\<lambda>x.
           if scheduler x \<noteq> None \<or> ev_fiber x \<noteq> None \<or> ev_cb x \<noteq> None
           then Inl (IoAssert ''!event_ctx.scheduler && !event_ctx.fiber && !event_ctx.cb'')
           else let x = x\<lparr>scheduler := sch\<rparr> in
             if cb \<noteq> None then
               Inr (0, store_ctx fd (putContext event (x\<lparr>ev_cb := cb\<rparr>) c) m)
             else if st \<noteq> EXEC then Inl (IoAssert ''state='')
             else Inr (0, store_ctx fd (putContext event (x\<lparr>ev_fiber := Some fb\<rparr>) c) m)))"

text \<open>The whole call, while no other thread grows the table.\<close>

definition addEvent ::
  "nat option \<Rightarrow> nat \<Rightarrow> State \<Rightarrow> bool \<Rightarrow> int \<Rightarrow> u32 \<Rightarrow> cbprog option \<Rightarrow> IOManager \<Rightarrow>
   io_error + int \<times> IOManager" where
  "addEvent sch fb st ctl fd event cb m = addEvent_locked sch fb st ctl fd event cb (addEvent_lookup (\<lambda>m. m) fd m)"

text \<open>\<open>m_fdContexts.size() <= fd\<close> compares unsigned values, so a negative descriptor is too large.\<close>

definition delEvent :: "bool \<Rightarrow> int \<Rightarrow> u32 \<Rightarrow> IOManager \<Rightarrow> io_error + bool \<times> IOManager" where
  "delEvent ctl fd event m =
     (if fd < 0 \<or> int (length (m_fdContexts m)) \<le> fd then Inr (False, m)
      else bindr (context_at fd m) (\<lambda>c.
        if events c AND event = 0 then Inr (False, m)
        else if \<not> ctl then Inr (False, m)
        else
          let new_events = events c AND NOT event;
              m = tell_kernel fd new_events m;
              m = m\<lparr>m_pendingEventCount := usub (m_pendingEventCount m) 1\<rparr>;
              c = c\<lparr>events := new_events\<rparr>
          in bindr (getContext event c) (\<lambda>x.
            Inr (True, store_ctx fd (putContext event (resetContext x) c) m))))"

definition post :: "nat \<times> FiberAndThread \<Rightarrow> IOManager \<Rightarrow> IOManager" where
  "post t m = m\<lparr>posted := posted m @ [t], m_pendingEventCount := usub (m_pendingEventCount m) 1\<rparr>"

definition cancelEvent :: "bool \<Rightarrow> int \<Rightarrow> u32 \<Rightarrow> IOManager \<Rightarrow> io_error + bool \<times> IOManager" where
  "cancelEvent ctl fd event m =
     (if int (length (m_fdContexts m)) \<le> fd then Inr (False, m)
      else bindr (context_at fd m) (\<lambda>c.
        if events c AND event = 0 then Inr (False, m)
        else if \<not> ctl then Inr (False, m)
        else
          let m = tell_kernel fd (events c AND NOT event) m
          in bindr (triggerEvent event c) (\<lambda>(t, c). Inr (True, post t (store_ctx fd c m)))))"

text \<open>The two triggers \<open>cancelAll\<close> and \<open>idle\<close> share: each event of \<open>msk\<close> in turn.\<close>

definition trigger_one :: "int \<Rightarrow> u32 \<Rightarrow> u32 \<Rightarrow> FdContext \<times> IOManager \<Rightarrow> io_error + FdContext \<times> IOManager" where
  "trigger_one fd msk event = (\<lambda>(c, m).
     if msk AND event = 0 then Inr (c, m)
     else bindr (triggerEvent event c) (\<lambda>(t, c). Inr (c, post t (store_ctx fd c m))))"

definition cancelAll :: "bool \<Rightarrow> int \<Rightarrow> IOManager \<Rightarrow> io_error + bool \<times> IOManager" where
  "cancelAll ctl fd m =
     (if int (length (m_fdContexts m)) \<le> fd then Inr (False, m)
      else bindr (context_at fd m) (\<lambda>c.
        if events c = 0 then Inr (False, m)
        else if \<not> ctl then Inr (False, m)
        else
          let m = tell_kernel fd 0 m
          in bindr (trigger_one fd (events c) READ (c, m)) (\<lambda>(c, m).
             bindr (trigger_one fd (events c) WRITE (c, m)) (\<lambda>(c, m).
               if events c \<noteq> 0 then Inl (IoAssert ''fd_ctx->events == 0'')
               else Inr (True, m)))))"

section \<open>The idle loop\<close>

text \<open>The timeout given to \<open>epoll_wait\<close>, with the conversions to \<open>int\<close>.\<close>

definition idle_timeout :: "u64 \<Rightarrow> u32" where
  "idle_timeout next_timeout =
     (let next_timeout =
        (if next_timeout \<noteq> - 1
         then if (3000 :: u32) <s ucast next_timeout then 3000 else next_timeout
         else 3000)
      in ucast next_timeout)"

text \<open>One event of \<open>epoll_wait\<close>: the mask \<open>ev\<close> for the context of \<open>fd\<close>.\<close>

definition real_events :: "FdContext \<Rightarrow> u32 \<Rightarrow> u32" where
  "real_events c ev =
     (let ev = (if ev AND (EPOLLERR OR EPOLLHUP) \<noteq> 0
                then ev OR ((EPOLLIN OR EPOLLOUT) AND events c) else ev)
      in (if ev AND EPOLLIN \<noteq> NONE then READ else NONE)
         OR (if ev AND EPOLLOUT \<noteq> NONE then WRITE else NONE))"

definition idle_event :: "bool \<Rightarrow> int \<Rightarrow> u32 \<Rightarrow> IOManager \<Rightarrow> io_error + IOManager" where
  "idle_event ctl fd ev m =
     bindr (context_at fd m) (\<lambda>c.
       let re = real_events c ev
       in if events c AND re = NONE then Inr m
          else if \<not> ctl then Inr m
          else
            let left_events = events c AND NOT re;
                m = tell_kernel fd left_events m
            in bindr (trigger_one fd re READ (c, m)) (\<lambda>(c, m).
               bindr (trigger_one fd re WRITE (c, m)) (\<lambda>(_, m). Inr m)))"

fun idle_events :: "(bool \<times> int \<times> u32) list \<Rightarrow> IOManager \<Rightarrow> io_error + IOManager" where
  "idle_events [] m = Inr m"
| "idle_events ((ctl, fd, ev) # es) m = bindr (idle_event ctl fd ev m) (idle_events es)"

text \<open>
  A round of \<open>idle\<close> after \<open>epoll_wait\<close> at the time \<open>now\<close>: the callbacks of the expired timers are
  scheduled on this manager (\<open>this\<close>), then the events are handled.
\<close>

definition idle_round ::
  "nat \<Rightarrow> u64 \<Rightarrow> nat \<Rightarrow> (bool \<times> int \<times> u32) list \<Rightarrow> cbprog TimerManager \<Rightarrow> IOManager \<Rightarrow>
   (timer_error + io_error) + cbprog TimerManager \<times> IOManager" where
  "idle_round this now naddr es tm m =
     (case listExpiredCb now naddr [] tm of
        Inl e \<Rightarrow> Inl (Inl e)
      | Inr (cbs, tm) \<Rightarrow>
        let m = m\<lparr>posted := posted m @ map (\<lambda>cb. (this, ft_cb cb (- 1))) (filter (\<lambda>cb. cb \<noteq> None) cbs)\<rparr>
        in (case idle_events es m of
              Inl e \<Rightarrow> Inl (Inr e)
            | Inr m \<Rightarrow> Inr (tm, m)))"

definition io_stopping :: "u64 \<Rightarrow> cbprog TimerManager \<Rightarrow> IOManager \<Rightarrow> Scheduler \<Rightarrow> bool \<times> u64 \<times> cbprog TimerManager" where
  "io_stopping now tm m s =
     (let (timeout, tm) = getNextTimer now tm
      in (timeout = - 1 \<and> m_pendingEventCount m = 0 \<and> stopping s, timeout, tm))"

text \<open>\<open>tickle\<close> writes a byte to the pipe unless there are idle threads; the result is the byte count.\<close>

definition io_tickle :: "Scheduler \<Rightarrow> nat \<Rightarrow> nat" where
  "io_tickle s pipe = (if hasIdleThreads s then pipe else pipe + 1)"

definition onTimerInsertedAtFront :: "Scheduler \<Rightarrow> nat \<Rightarrow> nat" where
  "onTimerInsertedAtFront = io_tickle"

section \<open>Invariant\<close>

text \<open>
  An event of a context is waited for exactly when its scheduler and one of its fiber and callback are
  set, and otherwise its context is empty; the kernel waits for the same events; the pending count is
  the number of events waited for.
\<close>

definition full_ctx :: "EventContext \<Rightarrow> bool" where
  "full_ctx x \<longleftrightarrow> scheduler x \<noteq> None \<and> (ev_cb x = None) \<noteq> (ev_fiber x = None)"

definition slot_ok :: "bool \<Rightarrow> EventContext \<Rightarrow> bool" where
  "slot_ok on x \<longleftrightarrow> (if on then full_ctx x else x = empty_ctx)"

definition ctx_ok :: "FdContext \<Rightarrow> bool" where
  "ctx_ok c \<longleftrightarrow> events c \<in> {0, READ, WRITE, READ OR WRITE}
     \<and> slot_ok (events c AND READ \<noteq> 0) (read_ctx c) \<and> slot_ok (events c AND WRITE \<noteq> 0) (write_ctx c)"

definition waiting :: "FdContext \<Rightarrow> nat" where
  "waiting c = (if events c AND READ \<noteq> 0 then 1 else 0) + (if events c AND WRITE \<noteq> 0 then 1 else 0)"

definition io_inv :: "IOManager \<Rightarrow> bool" where
  "io_inv m \<longleftrightarrow> 32 \<le> length (m_fdContexts m)
     \<and> (\<forall>i<length (m_fdContexts m). ctx_ok (m_fdContexts m ! i) \<and> ctx_fd (m_fdContexts m ! i) = int i
          \<and> interest m i = events (m_fdContexts m ! i))
     \<and> m_pendingEventCount m = sum_list (map waiting (m_fdContexts m))"

definition task_of :: "EventContext \<Rightarrow> nat \<times> FiberAndThread" where
  "task_of x = (the (scheduler x),
     if ev_cb x \<noteq> None then ft_cb (ev_cb x) (- 1) else ft_fiber (ev_fiber x) (- 1))"

lemma event_cases:
  assumes "ctx_ok c"
  obtains "events c = 0" | "events c = 1" | "events c = 4" | "events c = 5"
  using assms by (auto simp: ctx_ok_def event_defs)

lemma new_ctx_ok: "ctx_ok (new_FdContext i) \<and> waiting (new_FdContext i) = 0"
  by (simp add: ctx_ok_def waiting_def new_FdContext_def slot_ok_def event_defs)

lemma full_ctx_emptied:
  "full_ctx x \<Longrightarrow> ev_cb x \<noteq> None \<Longrightarrow> x\<lparr>ev_cb := None, scheduler := None\<rparr> = empty_ctx"
  "full_ctx x \<Longrightarrow> ev_cb x = None \<Longrightarrow> x\<lparr>ev_fiber := None, scheduler := None\<rparr> = empty_ctx"
  by (cases x, simp add: full_ctx_def empty_ctx_def)+

text \<open>Triggering an event that is waited for posts its task and empties its slot.\<close>

lemma triggerEvent_ok:
  assumes c: "ctx_ok c" and e: "event = READ \<or> event = WRITE" and on: "events c AND event \<noteq> 0"
  shows "\<exists>c'. triggerEvent event c = Inr (task_of (if event = READ then read_ctx c else write_ctx c), c')
    \<and> ctx_ok c' \<and> events c' = events c AND NOT event \<and> waiting c = Suc (waiting c')
    \<and> ctx_fd c' = ctx_fd c
    \<and> (event = READ \<longrightarrow> write_ctx c' = write_ctx c) \<and> (event = WRITE \<longrightarrow> read_ctx c' = read_ctx c)"
proof (rule exI, intro conjI)
  let ?x = "if event = READ then read_ctx c else write_ctx c"
  let ?c = "putContext event empty_ctx (c\<lparr>events := events c AND NOT event\<rparr>)"
  have x: "full_ctx ?x" using c e on by (auto simp: ctx_ok_def slot_ok_def)
  then obtain sch where sch: "scheduler ?x = Some sch" by (auto simp: full_ctx_def)
  have "getContext event (c\<lparr>events := events c AND NOT event\<rparr>) = Inr ?x"
    using e by (auto simp: getContext_def event_defs)
  then have "triggerEvent event c = (let x = ?x in
      if ev_cb x \<noteq> None then Inr ((sch, ft_cb (ev_cb x) (- 1)),
        putContext event (x\<lparr>ev_cb := None, scheduler := None\<rparr>) (c\<lparr>events := events c AND NOT event\<rparr>))
      else Inr ((sch, ft_fiber (ev_fiber x) (- 1)),
        putContext event (x\<lparr>ev_fiber := None, scheduler := None\<rparr>) (c\<lparr>events := events c AND NOT event\<rparr>)))"
    using on sch unfolding triggerEvent_def Let_def by simp
  then show "triggerEvent event c = Inr (task_of ?x, ?c)"
    using full_ctx_emptied [OF x] sch unfolding task_of_def Let_def
    by (cases "ev_cb ?x = None") (simp_all only: if_True if_False option.sel simp_thms)
  show "ctx_ok ?c" using c e on
    by (cases rule: event_cases [OF c])
       (auto simp: ctx_ok_def slot_ok_def putContext_def event_defs)
  show "waiting c = Suc (waiting ?c)" using e on
    by (cases rule: event_cases [OF c]) (auto simp: waiting_def putContext_def event_defs)
qed (auto simp: putContext_def event_defs)

lemma context_at_ok:
  "io_inv m \<Longrightarrow> 0 \<le> fd \<Longrightarrow> fd < int (length (m_fdContexts m)) \<Longrightarrow>
   context_at fd m = Inr (m_fdContexts m ! nat fd) \<and> ctx_ok (m_fdContexts m ! nat fd)"
  by (simp add: context_at_def io_inv_def)

text \<open>Storing a context keeps the invariant when kernel and count are kept in step.\<close>

lemma store_inv:
  assumes inv: "io_inv m" and i: "i < length (m_fdContexts m)" and c: "ctx_ok c" "ctx_fd c = int i"
    and m': "m_fdContexts m' = (m_fdContexts m)[i := c]" "interest m' = (interest m)(i := events c)"
      "m_pendingEventCount m' + waiting (m_fdContexts m ! i) = m_pendingEventCount m + waiting c"
  shows "io_inv m'"
proof -
  let ?cs = "m_fdContexts m"
  have "sum_list ((map waiting ?cs)[i := waiting c])
      = sum_list (map waiting ?cs) + waiting c - map waiting ?cs ! i"
    using i by (intro sum_list_update) simp
  then have "sum_list (map waiting (?cs[i := c])) = sum_list (map waiting ?cs) + waiting c - waiting (?cs ! i)"
    using i by (simp add: map_update)
  moreover have "waiting (?cs ! i) \<le> sum_list (map waiting ?cs)"
    using i by (intro member_le_sum_list) auto
  ultimately have "m_pendingEventCount m' = sum_list (map waiting (?cs[i := c]))"
    using m'(3) inv by (simp add: io_inv_def)
  then show ?thesis using inv c m' by (auto simp: io_inv_def nth_list_update)
qed

lemma io_inv_contextResize:
  assumes inv: "io_inv m" and sz: "length (m_fdContexts m) \<le> sz"
    and k: "\<forall>i\<ge>length (m_fdContexts m). interest m i = 0"
  shows "io_inv (contextResize sz m)"
proof -
  have "sum_list (map waiting (map new_FdContext [length (m_fdContexts m)..<sz])) = 0"
    by (simp add: new_ctx_ok)
  then show ?thesis
    using inv sz k new_ctx_ok
    by (auto simp: io_inv_def contextResize_def nth_append new_FdContext_def NONE_def)
qed

lemma io_inv_new: "io_inv new_IOManager"
  using new_ctx_ok
  by (simp add: io_inv_def new_IOManager_def contextResize_def)
     (simp add: new_FdContext_def NONE_def)

text \<open>The kernel waits for nothing outside the table.\<close>

definition kernel_ok :: "IOManager \<Rightarrow> bool" where
  "kernel_ok m \<longleftrightarrow> (\<forall>i\<ge>length (m_fdContexts m). interest m i = 0)"

text \<open>What \<open>trigger_one\<close> leaves, for a context \<open>c\<close> that is the one stored.\<close>

lemma trigger_one_ok:
  assumes c: "ctx_ok c" "ctx_fd c = fd" and e: "event = READ \<or> event = WRITE"
    and msk: "msk AND event \<noteq> 0 \<Longrightarrow> events c AND event \<noteq> 0"
    and n: "waiting c \<le> m_pendingEventCount m"
  shows "\<exists>c' m'. trigger_one fd msk event (c, m) = Inr (c', m') \<and> ctx_ok c' \<and> ctx_fd c' = fd
    \<and> events c' = (if msk AND event \<noteq> 0 then events c AND NOT event else events c)
    \<and> m_pendingEventCount m' + waiting c = m_pendingEventCount m + waiting c'
    \<and> m' = (if msk AND event \<noteq> 0 then post (task_of (if event = READ then read_ctx c else write_ctx c))
             (store_ctx fd c' m) else m)
    \<and> (event = READ \<longrightarrow> write_ctx c' = write_ctx c) \<and> (msk AND event = 0 \<longrightarrow> c' = c)"
proof (cases "msk AND event = 0")
  case False
  obtain c' where t: "triggerEvent event c
      = Inr (task_of (if event = READ then read_ctx c else write_ctx c), c')"
    "ctx_ok c'" "events c' = events c AND NOT event" "waiting c = Suc (waiting c')"
    "ctx_fd c' = ctx_fd c" "event = READ \<longrightarrow> write_ctx c' = write_ctx c"
    using triggerEvent_ok [OF c(1) e msk [OF False]] by blast
  have "m_pendingEventCount (post x (store_ctx fd c' m)) + waiting c
      = m_pendingEventCount m + waiting c'" for x
    using n t(4) by (simp add: post_def store_ctx_def)
  then show ?thesis
    using False t c(2) by (simp add: trigger_one_def)
qed (simp add: trigger_one_def c)

lemma lookup_ok:
  assumes inv: "io_inv m" "kernel_ok m" and fd: "0 \<le> fd"
  shows "io_inv (addEvent_lookup (\<lambda>m. m) fd m)" "kernel_ok (addEvent_lookup (\<lambda>m. m) fd m)"
    "nat fd < length (m_fdContexts (addEvent_lookup (\<lambda>m. m) fd m))"
proof -
  let ?n = "length (m_fdContexts m)"
  have n: "32 \<le> ?n" using inv by (simp add: io_inv_def)
  show "io_inv (addEvent_lookup (\<lambda>m. m) fd m)"
    using inv fd n io_inv_contextResize [of m "nat fd * 3 div 2"]
    by (auto simp: addEvent_lookup_def kernel_ok_def)
  show "kernel_ok (addEvent_lookup (\<lambda>m. m) fd m)"
    using inv fd n by (auto simp: addEvent_lookup_def kernel_ok_def contextResize_def)
  show "nat fd < length (m_fdContexts (addEvent_lookup (\<lambda>m. m) fd m))"
    using fd n by (auto simp: addEvent_lookup_def contextResize_def)
qed

lemma or_event:
  assumes "ctx_ok c" "event = READ \<or> event = WRITE" "events c AND event = 0" "full_ctx x"
  shows "ctx_ok (putContext event x (c\<lparr>events := events c OR event\<rparr>))"
    "waiting (putContext event x (c\<lparr>events := events c OR event\<rparr>)) = Suc (waiting c)"
    "events (putContext event x (c\<lparr>events := events c OR event\<rparr>)) = events c OR event"
  using assms
  by (cases rule: event_cases [OF assms(1)];
      auto simp: ctx_ok_def slot_ok_def waiting_def putContext_def event_defs)+

lemma not_event:
  assumes "ctx_ok c" "event = READ \<or> event = WRITE" "events c AND event \<noteq> 0"
  shows "ctx_ok (putContext event empty_ctx (c\<lparr>events := events c AND NOT event\<rparr>))"
    "waiting c = Suc (waiting (putContext event empty_ctx (c\<lparr>events := events c AND NOT event\<rparr>)))"
    "events (putContext event empty_ctx (c\<lparr>events := events c AND NOT event\<rparr>)) = events c AND NOT event"
  using assms
  by (cases rule: event_cases [OF assms(1)];
      auto simp: ctx_ok_def slot_ok_def waiting_def putContext_def event_defs)+

lemma getContext_empty:
  "ctx_ok c \<Longrightarrow> event = READ \<or> event = WRITE \<Longrightarrow> events c AND event = 0 \<Longrightarrow>
   getContext event (c\<lparr>events := e\<rparr>) = Inr empty_ctx"
  by (auto simp: getContext_def ctx_ok_def slot_ok_def event_defs)

lemma putContext_fd [simp]: "ctx_fd (putContext event x c) = ctx_fd c"
  by (simp add: putContext_def)

lemma or_and_event: "(a OR e) AND e = (e :: u32)"
  by (rule bit_word_eqI) (auto simp: bit_simps)

lemma addEvent_ok:
  assumes inv: "io_inv m" "kernel_ok m" and fd: "0 \<le> fd" and e: "event = READ \<or> event = WRITE"
    and run: "cb \<noteq> None \<or> st = EXEC"
    and off: "fd < int (length (m_fdContexts m)) \<Longrightarrow> events (m_fdContexts m ! nat fd) AND event = 0"
  shows "\<exists>m'. addEvent (Some sch) fb st ctl fd event cb m = Inr (if ctl then 0 else - 1, m')
    \<and> io_inv m' \<and> kernel_ok m' \<and> posted m' = posted m
    \<and> m_pendingEventCount m' = m_pendingEventCount m + (if ctl then 1 else 0)
    \<and> (ctl \<longrightarrow> events (m_fdContexts m' ! nat fd) AND event \<noteq> 0)"
proof -
  define m1 where "m1 = addEvent_lookup (\<lambda>m. m) fd m"
  note L = lookup_ok [OF inv fd, folded m1_def]
  let ?c = "m_fdContexts m1 ! nat fd"
  have c: "ctx_ok ?c" "ctx_fd ?c = int (nat fd)" using L by (auto simp: io_inv_def)
  have at: "context_at fd m1 = Inr ?c" using L fd by (simp add: context_at_def)
  have p1: "posted m1 = posted m" "m_pendingEventCount m1 = m_pendingEventCount m"
    by (simp_all add: m1_def addEvent_lookup_def contextResize_def)
  have z: "events ?c AND event = 0"
    using off fd L(3) unfolding m1_def
    by (auto simp: addEvent_lookup_def contextResize_def nth_append new_FdContext_def NONE_def split: if_splits)
  let ?x = "if cb \<noteq> None then \<lparr>scheduler = Some sch, ev_fiber = None, ev_cb = cb\<rparr>
    else \<lparr>scheduler = Some sch, ev_fiber = Some fb, ev_cb = None\<rparr>"
  have x: "full_ctx ?x" by (auto simp: full_ctx_def)
  note O = or_event [OF c(1) e z x]
  let ?c' = "putContext event ?x (?c\<lparr>events := events ?c OR event\<rparr>)"
  let ?m' = "store_ctx fd ?c' ((tell_kernel fd (events ?c OR event) m1)
    \<lparr>m_pendingEventCount := m_pendingEventCount m1 + 1\<rparr>)"
  have r: "addEvent (Some sch) fb st ctl fd event cb m = Inr (if ctl then (0, ?m') else (- 1, m1))"
    unfolding addEvent_def addEvent_locked_def m1_def [symmetric] Let_def
    using at z run getContext_empty [OF c(1) e z]
    by (auto simp: empty_ctx_def tell_kernel_def)
  have "io_inv ?m'"
    by (rule store_inv [OF L(1,3) O(1)])
       (use c O(2,3) L in \<open>auto simp: store_ctx_def tell_kernel_def\<close>)
  moreover have "kernel_ok ?m'" using L(2,3) by (auto simp: kernel_ok_def store_ctx_def tell_kernel_def)
  moreover have "events (m_fdContexts ?m' ! nat fd) AND event \<noteq> 0"
    using L(3) O(3) e or_and_event [of "events ?c" event]
    by (auto simp: store_ctx_def tell_kernel_def event_defs)
  ultimately show ?thesis using r L p1 by (auto simp: store_ctx_def tell_kernel_def)
qed

lemma resetContext_empty: "resetContext x = empty_ctx"
  by (cases x) (simp add: resetContext_def empty_ctx_def)

lemma waiting_le:
  "io_inv m \<Longrightarrow> i < length (m_fdContexts m) \<Longrightarrow> waiting (m_fdContexts m ! i) \<le> m_pendingEventCount m"
  using member_le_sum_list [of "waiting (m_fdContexts m ! i)" "map waiting (m_fdContexts m)"]
  by (simp add: io_inv_def)

lemma delEvent_ok:
  assumes inv: "io_inv m" "kernel_ok m" and e: "event = READ \<or> event = WRITE"
  shows "\<exists>r m'. delEvent ctl fd event m = Inr (r, m') \<and> io_inv m' \<and> kernel_ok m' \<and> posted m' = posted m
    \<and> (r \<longrightarrow> m_pendingEventCount m = Suc (m_pendingEventCount m')
         \<and> events (m_fdContexts m' ! nat fd) AND event = 0)"
proof (cases "0 \<le> fd \<and> fd < int (length (m_fdContexts m))
    \<and> events (m_fdContexts m ! nat fd) AND event \<noteq> 0 \<and> ctl")
  case False
  then show ?thesis
    using inv context_at_ok [OF inv(1), of fd] by (auto simp: delEvent_def)
next
  case True
  let ?c = "m_fdContexts m ! nat fd"
  have i: "nat fd < length (m_fdContexts m)" using True by (simp add: nat_less_iff)
  have c: "ctx_ok ?c" "ctx_fd ?c = int (nat fd)" using inv i by (auto simp: io_inv_def)
  have on: "events ?c AND event \<noteq> 0" using True by simp
  note N = not_event [OF c(1) e on] and w = waiting_le [OF inv(1) i]
  let ?c' = "putContext event empty_ctx (?c\<lparr>events := events ?c AND NOT event\<rparr>)"
  let ?m' = "store_ctx fd ?c' ((tell_kernel fd (events ?c AND NOT event) m)
    \<lparr>m_pendingEventCount := m_pendingEventCount m - 1\<rparr>)"
  have r: "delEvent ctl fd event m = Inr (True, ?m')"
    using True e w N(2) by (auto simp: delEvent_def context_at_def getContext_def resetContext_empty
        tell_kernel_def Let_def event_defs)
  have "io_inv ?m'"
    by (rule store_inv [OF inv(1) i N(1)]) (use c N(2,3) w in \<open>auto simp: store_ctx_def tell_kernel_def\<close>)
  moreover have "kernel_ok ?m'" using inv(2) i by (auto simp: kernel_ok_def store_ctx_def tell_kernel_def)
  moreover have "events ?c' AND event = 0" unfolding N(3) by (rule bit_word_eqI) (auto simp: bit_simps)
  ultimately show ?thesis using r i N(2) w by (auto simp: store_ctx_def tell_kernel_def)
qed

lemma store_overwrite:
  "store_ctx fd c' (post t (store_ctx fd c m)) = post t (store_ctx fd c' m)"
  by (simp add: store_ctx_def post_def)

text \<open>
  Both triggers on a context whose requested events are all waited for: the kernel mask told before is
  the mask left, and the tasks are posted, the reader's first.
\<close>

definition fired :: "u32 \<Rightarrow> FdContext \<Rightarrow> (nat \<times> FiberAndThread) list" where
  "fired msk c = (if msk AND READ \<noteq> 0 then [task_of (read_ctx c)] else [])
     @ (if msk AND WRITE \<noteq> 0 then [task_of (write_ctx c)] else [])"

lemma trigger_read_ok:
  assumes "ctx_ok c" "ctx_fd c = fd" "msk AND READ \<noteq> 0 \<Longrightarrow> events c AND READ \<noteq> 0"
    "waiting c \<le> m_pendingEventCount m"
  shows "\<exists>c' m'. trigger_one fd msk READ (c, m) = Inr (c', m') \<and> ctx_ok c' \<and> ctx_fd c' = fd
    \<and> events c' = (if msk AND READ \<noteq> 0 then events c AND NOT READ else events c)
    \<and> m_pendingEventCount m' + waiting c = m_pendingEventCount m + waiting c'
    \<and> m' = (if msk AND READ \<noteq> 0 then post (task_of (read_ctx c)) (store_ctx fd c' m) else m)
    \<and> write_ctx c' = write_ctx c \<and> (msk AND READ = 0 \<longrightarrow> c' = c)"
  using trigger_one_ok [where event = READ and msk = msk, OF assms(1,2) disjI1 [OF refl] assms(3,4)]
  by (simp only: simp_thms if_True)

lemma trigger_write_ok:
  assumes "ctx_ok c" "ctx_fd c = fd" "msk AND WRITE \<noteq> 0 \<Longrightarrow> events c AND WRITE \<noteq> 0"
    "waiting c \<le> m_pendingEventCount m"
  shows "\<exists>c' m'. trigger_one fd msk WRITE (c, m) = Inr (c', m') \<and> ctx_ok c' \<and> ctx_fd c' = fd
    \<and> events c' = (if msk AND WRITE \<noteq> 0 then events c AND NOT WRITE else events c)
    \<and> m_pendingEventCount m' + waiting c = m_pendingEventCount m + waiting c'
    \<and> m' = (if msk AND WRITE \<noteq> 0 then post (task_of (write_ctx c)) (store_ctx fd c' m) else m)
    \<and> (msk AND WRITE = 0 \<longrightarrow> c' = c)"
proof -
  have ne: "(WRITE = READ) = False" by (simp add: event_defs)
  show ?thesis
    using trigger_one_ok [where event = WRITE and msk = msk, OF assms(1,2) disjI2 [OF refl] assms(3,4)]
    by (simp only: simp_thms if_False ne)
qed

lemma trigger_both_ok:
  assumes inv: "io_inv m" "kernel_ok m" and i: "nat fd < length (m_fdContexts m)" "0 \<le> fd"
    and c: "c = m_fdContexts m ! nat fd"
    and r: "msk AND READ \<noteq> 0 \<Longrightarrow> events c AND READ \<noteq> 0" and w: "msk AND WRITE \<noteq> 0 \<Longrightarrow> events c AND WRITE \<noteq> 0"
    and some: "msk AND READ \<noteq> 0 \<or> msk AND WRITE \<noteq> 0"
    and left: "l = (if msk AND READ \<noteq> 0 then events c AND NOT READ else events c)"
      "l' = (if msk AND WRITE \<noteq> 0 then l AND NOT WRITE else l)"
  shows "\<exists>c1 m1 c2 m2. trigger_one fd msk READ (c, tell_kernel fd l' m) = Inr (c1, m1) \<and> events c1 = l
    \<and> trigger_one fd msk WRITE (c1, m1) = Inr (c2, m2) \<and> events c2 = l'
    \<and> io_inv m2 \<and> kernel_ok m2 \<and> posted m2 = posted m @ fired msk c
    \<and> m_pendingEventCount m2 + length (fired msk c) = m_pendingEventCount m
    \<and> events (m_fdContexts m2 ! nat fd) = l'"
proof -
  let ?m = "tell_kernel fd l' m"
  have ok: "ctx_ok c" "ctx_fd c = fd" using inv(1) i c by (auto simp: io_inv_def)
  have wle: "waiting c \<le> m_pendingEventCount ?m"
    using waiting_le [OF inv(1) i(1)] c by (simp add: tell_kernel_def)
  obtain c1 m1 where 1: "trigger_one fd msk READ (c, ?m) = Inr (c1, m1)" "ctx_ok c1" "ctx_fd c1 = fd"
    "events c1 = l" "m_pendingEventCount m1 + waiting c = m_pendingEventCount ?m + waiting c1"
    "m1 = (if msk AND READ \<noteq> 0 then post (task_of (read_ctx c)) (store_ctx fd c1 ?m) else ?m)"
    "write_ctx c1 = write_ctx c" "msk AND READ = 0 \<longrightarrow> c1 = c"
    using trigger_read_ok [OF ok r wle] unfolding left(1) by blast
  have w1: "msk AND WRITE \<noteq> 0 \<Longrightarrow> events c1 AND WRITE \<noteq> 0"
    using w 1(4) left(1) ok(1) by (cases rule: event_cases [OF ok(1)]) (auto simp: event_defs)
  have n1: "waiting c1 \<le> m_pendingEventCount m1" using 1(5) wle by linarith
  obtain c2 m2 where 2: "trigger_one fd msk WRITE (c1, m1) = Inr (c2, m2)" "ctx_ok c2" "ctx_fd c2 = fd"
    "events c2 = l'" "m_pendingEventCount m2 + waiting c1 = m_pendingEventCount m1 + waiting c2"
    "m2 = (if msk AND WRITE \<noteq> 0 then post (task_of (write_ctx c1)) (store_ctx fd c2 m1) else m1)"
    "msk AND WRITE = 0 \<longrightarrow> c2 = c1"
    using trigger_write_ok [OF 1(2,3) w1 n1] unfolding left(2) 1(4) by blast
  have cs: "m_fdContexts m2 = (m_fdContexts m)[nat fd := c2]" "interest m2 = (interest m)(nat fd := l')"
    "posted m2 = posted m @ fired msk c"
    using some 1(6,7,8) 2(6,7) c i
    by (auto simp: post_def store_ctx_def tell_kernel_def fired_def)
  have cnt: "m_pendingEventCount m2 + waiting c = m_pendingEventCount m + waiting c2"
    using 1(5) 2(5) by (simp add: tell_kernel_def)
  have "io_inv m2"
    by (rule store_inv [OF inv(1) i(1) 2(2)]) (use 2 cs cnt c i in auto)
  moreover have "kernel_ok m2" using inv(2) i cs by (auto simp: kernel_ok_def)
  moreover have "waiting c = waiting c2 + length (fired msk c)"
    using 1(4) 2(4) left r w ok(1)
    by (cases rule: event_cases [OF ok(1)]) (auto simp: waiting_def fired_def event_defs split: if_splits)
  ultimately show ?thesis using 1(1,4) 2(1,4) cs cnt i by auto
qed

lemma fired_single: "event = READ \<or> event = WRITE \<Longrightarrow>
   fired event c = [task_of (if event = READ then read_ctx c else write_ctx c)]"
  by (auto simp: fired_def event_defs)

lemma trigger_one_zero [simp]: "msk AND event = 0 \<Longrightarrow> trigger_one fd msk event cm = Inr cm"
  by (cases cm) (simp add: trigger_one_def)

lemma cancelEvent_ok:
  assumes inv: "io_inv m" "kernel_ok m" and fd: "0 \<le> fd" and e: "event = READ \<or> event = WRITE"
  shows "\<exists>r m'. cancelEvent ctl fd event m = Inr (r, m') \<and> io_inv m' \<and> kernel_ok m'
    \<and> (if r then posted m' = posted m @ fired event (m_fdContexts m ! nat fd)
              \<and> m_pendingEventCount m = Suc (m_pendingEventCount m')
              \<and> events (m_fdContexts m' ! nat fd) AND event = 0 else m' = m)"
proof (cases "fd < int (length (m_fdContexts m))
    \<and> events (m_fdContexts m ! nat fd) AND event \<noteq> 0 \<and> ctl")
  case False
  then have "cancelEvent ctl fd event m = Inr (False, m)"
    using context_at_ok [OF inv(1) fd] by (auto simp: cancelEvent_def)
  then show ?thesis using inv by (intro exI [of _ False] exI [of _ m]) simp
next
  case True
  let ?c = "m_fdContexts m ! nat fd" and ?l = "events (m_fdContexts m ! nat fd) AND NOT event"
  have i: "nat fd < length (m_fdContexts m)" using True fd by (simp add: nat_less_iff)
  have ok: "ctx_ok ?c" "ctx_fd ?c = fd" using inv(1) i fd by (auto simp: io_inv_def)
  have w: "waiting ?c \<le> m_pendingEventCount (tell_kernel fd ?l m)"
    using waiting_le [OF inv(1) i] by (simp add: tell_kernel_def)
  have ee: "event AND event \<noteq> 0" using e by (auto simp: event_defs)
  have pc: "m_pendingEventCount (tell_kernel fd ?l m) = m_pendingEventCount m"
    by (simp add: tell_kernel_def)
  obtain c' m' where t: "trigger_one fd event event (?c, tell_kernel fd ?l m) = Inr (c', m')"
    "ctx_ok c'" "ctx_fd c' = fd" "events c' = ?l"
    "m_pendingEventCount m' + waiting ?c = m_pendingEventCount m + waiting c'"
    "m' = post (task_of (if event = READ then read_ctx ?c else write_ctx ?c)) (store_ctx fd c' (tell_kernel fd ?l m))"
    using trigger_one_ok [where event = event and msk = event, OF ok e _ w] True ee by (auto simp: pc)
  have r: "cancelEvent ctl fd event m = Inr (True, m')"
    using True fd t(1) e by (auto simp: cancelEvent_def context_at_def trigger_one_def Let_def
        result_simps event_defs split: prod.splits)
  have "io_inv m'"
    by (rule store_inv [OF inv(1) i t(2)]) (use t fd in \<open>auto simp: post_def store_ctx_def tell_kernel_def\<close>)
  moreover have "kernel_ok m'"
    using inv(2) i t(6) by (auto simp: kernel_ok_def post_def store_ctx_def tell_kernel_def)
  moreover have "events c' AND event = 0" unfolding t(4) by (rule bit_word_eqI) (auto simp: bit_simps)
  moreover have "waiting ?c = Suc (waiting c')"
    using t(4) True e by (cases rule: event_cases [OF ok(1)]) (auto simp: waiting_def event_defs)
  moreover have "posted m' = posted m @ fired event ?c" "m_fdContexts m' ! nat fd = c'"
    using t(6) i fired_single [OF e] by (simp_all add: post_def store_ctx_def tell_kernel_def)
  ultimately show ?thesis
    using r t(5) by (intro exI [of _ True] exI [of _ m']) simp
qed

lemma cancelAll_ok:
  assumes inv: "io_inv m" "kernel_ok m" and i: "0 \<le> fd" "fd < int (length (m_fdContexts m))"
    and c: "c = m_fdContexts m ! nat fd" and on: "events c \<noteq> 0"
  shows "\<exists>m'. cancelAll True fd m = Inr (True, m') \<and> io_inv m' \<and> kernel_ok m'
    \<and> events (m_fdContexts m' ! nat fd) = 0 \<and> interest m' (nat fd) = 0
    \<and> posted m' = posted m @ fired (events c) c
    \<and> m_pendingEventCount m' + waiting c = m_pendingEventCount m"
proof -
  have n: "nat fd < length (m_fdContexts m)" using i by (simp add: nat_less_iff)
  have ok: "ctx_ok c" using inv(1) n c by (simp add: io_inv_def)
  have some: "events c AND READ \<noteq> 0 \<or> events c AND WRITE \<noteq> 0" and len: "length (fired (events c) c) = waiting c"
    using on by (cases rule: event_cases [OF ok]; simp add: fired_def waiting_def event_defs)+
  let ?l = "if events c AND READ \<noteq> 0 then events c AND NOT READ else events c"
  have z: "(if events c AND WRITE \<noteq> 0 then ?l AND NOT WRITE else ?l) = 0"
    using on by (cases rule: event_cases [OF ok]) (simp_all add: event_defs)
  obtain c1 m1 c2 m2 where t: "trigger_one fd (events c) READ (c, tell_kernel fd 0 m) = Inr (c1, m1)"
    "events c1 = ?l" "trigger_one fd (events c) WRITE (c1, m1) = Inr (c2, m2)" "events c2 = 0"
    "io_inv m2" "kernel_ok m2" "posted m2 = posted m @ fired (events c) c"
    "m_pendingEventCount m2 + length (fired (events c) c) = m_pendingEventCount m"
    "events (m_fdContexts m2 ! nat fd) = 0"
    using trigger_both_ok [OF inv n i(1) c _ _ some refl refl] unfolding z by auto
  have "trigger_one fd (events c1) WRITE (c1, m1) = trigger_one fd (events c) WRITE (c1, m1)"
  proof -
    have "(?l AND WRITE = 0) = (events c AND WRITE = 0)"
      by (cases rule: event_cases [OF ok]) (simp_all add: event_defs)
    then show ?thesis unfolding t(2) trigger_one_def by simp
  qed
  then have "cancelAll True fd m = Inr (True, m2)"
    using i on t(1,3,4) c context_at_ok [OF inv(1) i] by (simp add: cancelAll_def)
  moreover have "interest m2 (nat fd) = 0"
  proof (cases "nat fd < length (m_fdContexts m2)")
    case True
    then show ?thesis using t(5,9) by (simp add: io_inv_def)
  next
    case False
    then show ?thesis using t(6) by (simp add: kernel_ok_def)
  qed
  ultimately show ?thesis using t len by simp
qed

lemma idle_event_ok:
  assumes inv: "io_inv m" "kernel_ok m" and i: "0 \<le> fd" "fd < int (length (m_fdContexts m))"
    and c: "c = m_fdContexts m ! nat fd"
    and reg: "ev AND EPOLLIN \<noteq> 0 \<Longrightarrow> events c AND READ \<noteq> 0" "ev AND EPOLLOUT \<noteq> 0 \<Longrightarrow> events c AND WRITE \<noteq> 0"
  shows "\<exists>m' l. idle_event ctl fd ev m = Inr m' \<and> io_inv m' \<and> kernel_ok m'
    \<and> posted m' = posted m @ l
    \<and> m_pendingEventCount m' + length l = m_pendingEventCount m"
proof -
  define ev' where "ev' = (if ev AND (EPOLLERR OR EPOLLHUP) \<noteq> 0
      then ev OR ((EPOLLIN OR EPOLLOUT) AND events c) else ev)"
  define re where re0: "re = real_events c ev"
  have re_def: "re = (if ev' AND EPOLLIN \<noteq> NONE then READ else NONE)
      OR (if ev' AND EPOLLOUT \<noteq> NONE then WRITE else NONE)"
    unfolding re0 real_events_def ev'_def Let_def by (rule refl)
  have n: "nat fd < length (m_fdContexts m)" using i by (simp add: nat_less_iff)
  have ok: "ctx_ok c" using inv(1) n c by (simp add: io_inv_def)
  have ev: "ev' AND EPOLLIN \<noteq> 0 \<Longrightarrow> events c AND READ \<noteq> 0" "ev' AND EPOLLOUT \<noteq> 0 \<Longrightarrow> events c AND WRITE \<noteq> 0"
    using reg
    by (cases rule: event_cases [OF ok]; auto simp: ev'_def event_defs bit.conj_disj_distrib2 split: if_splits)+
  have r: "re AND READ \<noteq> 0 \<Longrightarrow> events c AND READ \<noteq> 0" and w: "re AND WRITE \<noteq> 0 \<Longrightarrow> events c AND WRITE \<noteq> 0"
    using ev by (auto simp: re_def event_defs split: if_splits)
  have e: "idle_event ctl fd ev m = (if events c AND re = NONE \<or> \<not> ctl then Inr m
      else bindr (trigger_one fd re READ (c, tell_kernel fd (events c AND NOT re) m)) (\<lambda>(c, m).
           bindr (trigger_one fd re WRITE (c, m)) (\<lambda>(_, m). Inr m)))"
    using context_at_ok [OF inv(1) i] unfolding c [symmetric]
    by (simp add: idle_event_def Let_def re0 [symmetric])
  show ?thesis
  proof (cases "events c AND re = NONE \<or> \<not> ctl")
    case True
    then show ?thesis using e inv by (intro exI [of _ m] exI [of _ "[]"]) simp
  next
    case False
    have re: "re = NONE \<or> re = READ \<or> re = WRITE \<or> re = READ OR WRITE"
      by (auto simp: re_def event_defs)
    then have some: "re AND READ \<noteq> 0 \<or> re AND WRITE \<noteq> 0" using False by (auto simp: event_defs)
    let ?l = "if re AND READ \<noteq> 0 then events c AND NOT READ else events c"
    have z: "(if re AND WRITE \<noteq> 0 then ?l AND NOT WRITE else ?l) = events c AND NOT re"
      using re by (cases rule: event_cases [OF ok]) (auto simp: event_defs)
    show ?thesis
      using trigger_both_ok [OF inv n i(1) c r w some refl refl] e False unfolding z by auto
  qed
qed

section \<open>Properties\<close>

text \<open>
  The states between the critical sections of any threads. Each rule but the second is one critical section of a context. A
  thread that found the table too small grows it later, in a critical section of its own (\<open>io_grow\<close>): it may do so in any state, for any
  descriptor beyond the first table, unless that would cut what other threads have made of the table since.
\<close>

inductive io_reachable :: "IOManager \<Rightarrow> bool" where
  io_new: "io_reachable new_IOManager"
| io_grow: "io_reachable m \<Longrightarrow> length (m_fdContexts m) \<le> nat fd * 3 div 2 \<Longrightarrow> io_reachable (contextResize (nat fd * 3 div 2) m)"
| io_add: "io_reachable m \<Longrightarrow> 0 \<le> fd \<Longrightarrow> event = READ \<or> event = WRITE \<Longrightarrow> cb \<noteq> None \<or> st = EXEC \<Longrightarrow>
    addEvent_locked (Some sch) fb st ctl fd event cb m = Inr (r, m') \<Longrightarrow> io_reachable m'"
| io_del: "io_reachable m \<Longrightarrow> event = READ \<or> event = WRITE \<Longrightarrow>
    delEvent ctl fd event m = Inr (r, m') \<Longrightarrow> io_reachable m'"
| io_cancel: "io_reachable m \<Longrightarrow> 0 \<le> fd \<Longrightarrow> event = READ \<or> event = WRITE \<Longrightarrow>
    cancelEvent ctl fd event m = Inr (r, m') \<Longrightarrow> io_reachable m'"
| io_cancelAll: "io_reachable m \<Longrightarrow> 0 \<le> fd \<Longrightarrow> cancelAll ctl fd m = Inr (r, m') \<Longrightarrow> io_reachable m'"
| io_event: "io_reachable m \<Longrightarrow> 0 \<le> fd \<Longrightarrow> fd < int (length (m_fdContexts m)) \<Longrightarrow>
    (ev AND EPOLLIN \<noteq> 0 \<longrightarrow> events (m_fdContexts m ! nat fd) AND READ \<noteq> 0) \<Longrightarrow>
    (ev AND EPOLLOUT \<noteq> 0 \<longrightarrow> events (m_fdContexts m ! nat fd) AND WRITE \<noteq> 0) \<Longrightarrow>
    idle_event ctl fd ev m = Inr m' \<Longrightarrow> io_reachable m'"

lemma cancelAll_cases:
  assumes "io_inv m" "kernel_ok m" "0 \<le> fd" "cancelAll ctl fd m = Inr (r, m')"
  shows "io_inv m' \<and> kernel_ok m'"
proof (cases "fd < int (length (m_fdContexts m)) \<and> events (m_fdContexts m ! nat fd) \<noteq> 0 \<and> ctl")
  case True
  then show ?thesis using cancelAll_ok [OF assms(1-3) _ refl] assms(4) by auto
next
  case False
  then have "m' = m" using assms(3,4) by (auto simp: cancelAll_def context_at_def split: if_splits)
  then show ?thesis using assms by simp
qed

lemma io_reachable_invs: "io_reachable m \<Longrightarrow> io_inv m \<and> kernel_ok m"
proof (induction rule: io_reachable.induct)
  case io_new
  have "kernel_ok new_IOManager" by (simp add: kernel_ok_def new_IOManager_def contextResize_def)
  then show ?case using io_inv_new by simp
next
  case (io_grow m fd)
  then have "kernel_ok (contextResize (nat fd * 3 div 2) m)" by (simp add: kernel_ok_def contextResize_def)
  then show ?case using io_grow io_inv_contextResize by (simp add: kernel_ok_def)
next
  case (io_add m fd event cb st sch fb ctl r m')
  have fd: "fd < int (length (m_fdContexts m))" "events (m_fdContexts m ! nat fd) AND event = 0"
    using io_add(5) by (auto simp: addEvent_locked_def context_at_def split: if_splits)
  then have "addEvent (Some sch) fb st ctl fd event cb m = Inr (r, m')" using io_add(5) by (simp add: addEvent_def addEvent_lookup_def)
  then show ?case using addEvent_ok [of m fd event cb st sch fb ctl] io_add fd by auto
next
  case (io_del m event ctl fd r m')
  then show ?case using delEvent_ok [of m event ctl fd] by auto
next
  case (io_cancel m fd event ctl r m')
  then show ?case using cancelEvent_ok [of m fd event ctl] by auto
next
  case (io_cancelAll m fd ctl r m')
  then show ?case using cancelAll_cases by blast
next
  case (io_event m fd ev ctl m')
  then show ?case using idle_event_ok [of m fd _ ev ctl] by auto
qed

text \<open>A whole call of \<open>addEvent\<close> without interference is two of these steps.\<close>

lemma io_addEvent:
  assumes "io_reachable m" "0 \<le> fd" "event = READ \<or> event = WRITE" "cb \<noteq> None \<or> st = EXEC"
    "addEvent (Some sch) fb st ctl fd event cb m = Inr (r, m')"
  shows "io_reachable m'"
proof -
  have "32 \<le> length (m_fdContexts m)" using io_reachable_invs [OF assms(1)] by (simp add: io_inv_def)
  then have "io_reachable (addEvent_lookup (\<lambda>m. m) fd m)"
    using assms(1,2) io_grow [OF assms(1), of fd] by (auto simp: addEvent_lookup_def)
  from io_add [OF this assms(2-4)] show ?thesis using assms(5) by (simp add: addEvent_def)
qed

text \<open>
  C3: the descriptor contexts, the kernel and the pending count agree whenever no thread is inside a critical section
  of a context: every context and the kernel's mask agree on what is waited for, each waited-for event has its scheduler
  and its fiber or callback, and the pending count is their number. The threads interleave in every way, as long as events are
  added from scheduler threads, the kernel reports events that are waited for, and no thread grows the table to less than what another
  made of it in the meantime.
\<close>

theorem io_reachable_inv: "io_reachable m \<Longrightarrow> io_inv m"
  using io_reachable_invs by blast

theorem io_reachable_inv_witness:
  "\<exists>m. addEvent_locked (Some 1) 7 EXEC True 40 READ None (contextResize 75 (contextResize 60 new_IOManager)) = Inr (0, m)
     \<and> io_inv m \<and> m_pendingEventCount m = 1"
proof -
  let ?m = "contextResize 75 (contextResize 60 new_IOManager)"
  have r: "io_reachable ?m"
    using io_grow [OF io_grow [OF io_new, of 40], of 50] by (simp add: new_IOManager_def contextResize_def)
  have len: "40 < length (m_fdContexts ?m)" "events (m_fdContexts ?m ! 40) = 0" "m_pendingEventCount ?m = 0"
    by (simp_all add: new_IOManager_def contextResize_def nth_append new_FdContext_def NONE_def)
  then obtain m where m: "addEvent_locked (Some 1) 7 EXEC True 40 READ None ?m = Inr (0, m)" "m_pendingEventCount m = 1"
    using addEvent_ok [of ?m 40 READ None EXEC 1 7 True] io_reachable_invs [OF r] by (auto simp: addEvent_def addEvent_lookup_def)
  have "io_reachable m" by (rule io_add [OF r _ _ _ m(1)]) simp_all
  then show ?thesis using io_reachable_inv m by blast
qed

text \<open>
  C17: \<open>cancelAll\<close> on a descriptor that is waited on schedules the fiber or callback of each of its
  events exactly once, the reader's first, and leaves nothing waited for there, in the table or in the
  kernel.
\<close>

theorem cancelAll_fires_all:
  assumes "io_reachable m" "0 \<le> fd" "fd < int (length (m_fdContexts m))"
    "events (m_fdContexts m ! nat fd) \<noteq> 0"
  shows "\<exists>m'. cancelAll True fd m = Inr (True, m')
    \<and> posted m' = posted m @ fired (events (m_fdContexts m ! nat fd)) (m_fdContexts m ! nat fd)
    \<and> events (m_fdContexts m' ! nat fd) = 0 \<and> interest m' (nat fd) = 0
    \<and> m_pendingEventCount m' + waiting (m_fdContexts m ! nat fd) = m_pendingEventCount m"
  using cancelAll_ok [OF _ _ assms(2,3) refl assms(4)] io_reachable_invs [OF assms(1)] by blast

theorem cancelAll_fires_all_witness:
  "\<exists>m m'. addEvent (Some 1) 7 EXEC True 3 WRITE (Some Return) new_IOManager = Inr (0, m)
     \<and> cancelAll True 3 m = Inr (True, m') \<and> events (m_fdContexts m' ! 3) = 0"
proof -
  obtain m where m: "addEvent (Some 1) 7 EXEC True 3 WRITE (Some Return) new_IOManager = Inr (0, m)"
    and i: "io_inv m" and e: "events (m_fdContexts m ! 3) AND WRITE \<noteq> 0"
    using addEvent_ok [of new_IOManager 3 WRITE "Some Return" EXEC 1 7 True] io_reachable_invs [OF io_new]
    by (auto simp: new_IOManager_def contextResize_def new_FdContext_def NONE_def)
  have "io_reachable m" by (rule io_addEvent [OF io_new _ _ _ m]) simp_all
  moreover have "3 < int (length (m_fdContexts m))" using i by (simp add: io_inv_def)
  moreover have "events (m_fdContexts m ! 3) \<noteq> 0" using e by auto
  ultimately show ?thesis using cancelAll_fires_all [of m 3] m by auto
qed

text \<open>
  When \<open>epoll_wait\<close> reported both events of a descriptor but another thread removed the read event
  before the idle loop took the lock, triggering trips the assertion of \<open>triggerEvent\<close>, although the write
  event is still waited for.
\<close>

theorem idle_event_stale_report:
  assumes "0 \<le> fd" "fd < int (length (m_fdContexts m))" "events (m_fdContexts m ! nat fd) = WRITE"
  shows "idle_event True fd (EPOLLIN OR EPOLLOUT) m = Inl (IoAssert ''events & event'')"
  using assms
  by (simp add: idle_event_def real_events_def context_at_def Let_def trigger_one_def triggerEvent_def event_defs)

theorem idle_event_stale_report_witness:
  "idle_event True 0 (EPOLLIN OR EPOLLOUT)
     (store_ctx 0 (putContext WRITE \<lparr>scheduler = Some 1, ev_fiber = Some 2, ev_cb = None\<rparr>
        ((new_FdContext 0)\<lparr>events := WRITE\<rparr>)) new_IOManager)
   = Inl (IoAssert ''events & event'')"
  by (rule idle_event_stale_report)
     (simp_all add: store_ctx_def new_IOManager_def contextResize_def putContext_def event_defs)

text \<open>
  The timeout of \<open>epoll_wait\<close> is the time to the next timer capped at three seconds as long as that
  time is below \<open>2 ^ 31\<close> milliseconds, and three seconds without timers; at \<open>2 ^ 31\<close> the conversion to
  \<open>int\<close> makes it negative, which waits without a limit.
\<close>

theorem idle_timeout_cap:
  "idle_timeout (- 1) = 3000
   \<and> (unat t < 2 ^ 31 \<longrightarrow> unat (idle_timeout t) = min (unat t) 3000)
   \<and> idle_timeout (2 ^ 31) <s 0"
proof (intro conjI impI)
  show "idle_timeout (- 1) = 3000" by (simp add: idle_timeout_def)
  have "(2147483648 :: u32) <s 0" by (simp add: word_sless_alt sint_uint)
  then show "idle_timeout (2 ^ 31) <s 0" by (simp add: idle_timeout_def)
  assume t: "unat t < 2 ^ 31"
  have "unat (- 1 :: u64) = 2 ^ 64 - 1" by (simp add: unsigned_minus_1_eq_mask mask_eq_exp_minus_1)
  then have "t \<noteq> - 1" using t by auto
  moreover have "unat (ucast t :: u32) = unat t" by (rule unat_ucast_u32 [OF t])
  moreover have c: "((3000 :: u32) <s x) = (3000 < n)" if "sint x = int n" for n and x :: u32
    using that by (simp add: word_sless_alt)
  have "((3000 :: u32) <s ucast t) = (3000 < unat t)" by (rule c [OF sint_small(1) [OF t]])
  ultimately show "unat (idle_timeout t) = min (unat t) 3000" by (simp add: idle_timeout_def)
qed

theorem idle_timeout_cap_witness: "unat (idle_timeout 5000) = 3000"
  using idle_timeout_cap [of 5000] by simp

text \<open>
  The table is looked up and grown under two locks; when another thread has grown it further in
  between, growing it for a smaller descriptor cuts it back, and the contexts above are gone from it.
\<close>

theorem addEvent_lookup_shrinks:
  assumes "int (length (m_fdContexts m)) \<le> fd" "nat fd * 3 div 2 < length (m_fdContexts (between m))"
  shows "length (m_fdContexts (addEvent_lookup between fd m)) = nat fd * 3 div 2"
  using assms by (simp add: addEvent_lookup_def contextResize_def)

theorem addEvent_lookup_shrinks_witness:
  "length (m_fdContexts (addEvent_lookup (contextResize 150) 40 new_IOManager)) = 60"
  using addEvent_lookup_shrinks [of new_IOManager 40 "contextResize 150"]
  by (simp add: new_IOManager_def contextResize_def)

end
