(* ===== verification/FdManager.thy ===== *)
theory FdManager
  imports Prelude
begin

unbundle bit_operations_syntax

text \<open>
  Descriptor contexts (\<open>fd_manager.h\<close>, \<open>fd_manager.cc\<close>). The kernel's side is the map \<open>fd_flags\<close>
  from open descriptors to their status flags: \<open>fstat\<close> succeeds on exactly the open ones and
  \<open>fcntl_f\<close> reads and writes the flags. The table \<open>m_datas\<close> is a list of contexts that may be
  null; an index outside it is an error value, because \<open>operator[]\<close> is unchecked.
\<close>

section \<open>State\<close>

datatype fd_error = FdIndex

type_synonym fd_flags = "int \<Rightarrow> u32 option"

definition O_NONBLOCK :: u32 where "O_NONBLOCK = 0x800"

definition SO_RCVTIMEO :: int where "SO_RCVTIMEO = 20"

definition SO_SNDTIMEO :: int where "SO_SNDTIMEO = 21"

record FdCtx =
  m_isInit :: bool
  m_isSocket :: bool
  m_sysNonblock :: bool
  m_userNonblock :: bool
  m_isClosed :: bool
  m_fd :: int
  m_recvTimeout :: u64
  m_sendTimeout :: u64

type_synonym FdManager = "FdCtx option list"

section \<open>Contexts\<close>

text \<open>
  \<open>FdCtx::init\<close>: \<open>fcntl_f(fd, F_GETFL)\<close> only follows a successful \<open>fstat\<close>, so it returns the flags of an
  open descriptor. They are written back with \<open>O_NONBLOCK\<close> when they already have it.
\<close>

definition fdctx_init :: "FdCtx \<Rightarrow> fd_flags \<Rightarrow> bool \<times> FdCtx \<times> fd_flags" where
  "fdctx_init c k =
     (if m_isInit c then (True, c, k)
      else
        let c = c\<lparr>m_recvTimeout := - 1, m_sendTimeout := - 1\<rparr>;
            c = (case k (m_fd c) of
                   None \<Rightarrow> c\<lparr>m_isInit := False, m_isSocket := False\<rparr>
                 | Some _ \<Rightarrow> c\<lparr>m_isInit := True, m_isSocket := True\<rparr>);
            k = (case k (m_fd c) of
                   None \<Rightarrow> k
                 | Some flags \<Rightarrow>
                     if flags AND O_NONBLOCK \<noteq> 0 then k(m_fd c \<mapsto> flags OR O_NONBLOCK) else k);
            c = c\<lparr>m_sysNonblock := m_isSocket c\<rparr>;
            c = c\<lparr>m_userNonblock := False, m_isClosed := False\<rparr>
        in (m_isInit c, c, k))"

definition new_FdCtx :: "int \<Rightarrow> fd_flags \<Rightarrow> FdCtx \<times> fd_flags" where
  "new_FdCtx fd k =
     snd (fdctx_init \<lparr>m_isInit = False, m_isSocket = False, m_sysNonblock = False,
       m_userNonblock = False, m_isClosed = False, m_fd = fd,
       m_recvTimeout = - 1, m_sendTimeout = - 2\<rparr> k)"

definition setTimeout :: "int \<Rightarrow> u64 \<Rightarrow> FdCtx \<Rightarrow> FdCtx" where
  "setTimeout type v c =
     (if type = SO_RCVTIMEO then c\<lparr>m_recvTimeout := v\<rparr> else c\<lparr>m_sendTimeout := v\<rparr>)"

definition getTimeout :: "int \<Rightarrow> FdCtx \<Rightarrow> u64" where
  "getTimeout type c = (if type = SO_RCVTIMEO then m_recvTimeout c else m_sendTimeout c)"

section \<open>The manager\<close>

definition new_FdManager :: FdManager where
  "new_FdManager = replicate 64 None"

definition fd_at :: "int \<Rightarrow> FdManager \<Rightarrow> fd_error + FdCtx option" where
  "fd_at fd m = (if 0 \<le> fd \<and> fd < int (length m) then Inr (m ! nat fd) else Inl FdIndex)"

definition fd_put :: "int \<Rightarrow> FdCtx option \<Rightarrow> FdManager \<Rightarrow> fd_error + FdManager" where
  "fd_put fd c m = (if 0 \<le> fd \<and> fd < int (length m) then Inr (m[nat fd := c]) else Inl FdIndex)"

text \<open>\<open>FdManager::get\<close>; the table is never resized.\<close>

definition fdm_create :: "int \<Rightarrow> fd_flags \<Rightarrow> FdManager \<Rightarrow> fd_error + FdCtx option \<times> fd_flags \<times> FdManager" where
  "fdm_create fd k m =
     (let (ctx, k) = new_FdCtx fd k
      in bindr (fd_put fd (Some ctx) m) (\<lambda>m. Inr (Some ctx, k, m)))"

definition fdm_get ::
  "int \<Rightarrow> bool \<Rightarrow> fd_flags \<Rightarrow> FdManager \<Rightarrow> fd_error + FdCtx option \<times> fd_flags \<times> FdManager" where
  "fdm_get fd auto_create k m =
     (if int (length m) \<le> fd then
        if \<not> auto_create then Inr (None, k, m) else fdm_create fd k m
      else bindr (fd_at fd m) (\<lambda>c.
        if c \<noteq> None \<or> \<not> auto_create then Inr (c, k, m) else fdm_create fd k m))"

definition fdm_del :: "int \<Rightarrow> FdManager \<Rightarrow> fd_error + FdManager" where
  "fdm_del fd m = (if int (length m) \<le> fd then Inr m else fd_put fd None m)"

section \<open>Lemmas\<close>

text \<open>Each context is at the index of its descriptor and was made for an open one or not at all.\<close>

definition fdm_inv :: "FdManager \<Rightarrow> bool" where
  "fdm_inv m \<longleftrightarrow> (\<forall>i < length m. \<forall>c. m ! i = Some c \<longrightarrow>
     m_fd c = int i \<and> m_isInit c = m_isSocket c \<and> m_sysNonblock c = m_isSocket c)"

lemma new_FdCtx_sel [simp]:
  "m_fd (fst (new_FdCtx fd k)) = fd"
  "m_isInit (fst (new_FdCtx fd k)) = (k fd \<noteq> None)"
  "m_isSocket (fst (new_FdCtx fd k)) = (k fd \<noteq> None)"
  "m_sysNonblock (fst (new_FdCtx fd k)) = (k fd \<noteq> None)"
  "\<not> m_userNonblock (fst (new_FdCtx fd k))" "\<not> m_isClosed (fst (new_FdCtx fd k))"
  "getTimeout type (fst (new_FdCtx fd k)) = - 1"
  by (auto simp: new_FdCtx_def fdctx_init_def Let_def getTimeout_def split: option.splits)

lemma or_self_bit:
  fixes flags :: "'a::len word"
  assumes "flags AND push_bit n 1 \<noteq> 0"
  shows "flags OR push_bit n 1 = flags"
proof -
  have "bit flags n"
  proof (rule ccontr)
    assume "\<not> bit flags n"
    then have "flags AND push_bit n 1 = 0" by (intro bit_word_eqI) (auto simp: bit_simps)
    then show False using assms by simp
  qed
  then show ?thesis by (intro bit_word_eqI) (auto simp: bit_simps)
qed

text \<open>Making a context never changes the kernel's flags: they are only written when already set.\<close>

lemma new_FdCtx_flags [simp]: "snd (new_FdCtx fd k) = k"
proof -
  have b: "O_NONBLOCK = push_bit 11 1" by (simp add: O_NONBLOCK_def push_bit_eq_mult)
  have "k(fd \<mapsto> flags OR O_NONBLOCK) = k" if "k fd = Some flags" "flags AND O_NONBLOCK \<noteq> 0" for flags
    using that or_self_bit [OF that(2) [unfolded b]] b by (metis fun_upd_triv)
  then show ?thesis
    by (auto simp: new_FdCtx_def fdctx_init_def Let_def split: option.splits)
qed

lemma fdm_inv_new: "fdm_inv new_FdManager"
  by (simp add: fdm_inv_def new_FdManager_def)

lemma fdm_create_eq:
  "fdm_create fd k m = (if 0 \<le> fd \<and> fd < int (length m)
     then Inr (Some (fst (new_FdCtx fd k)), k, m[nat fd := Some (fst (new_FdCtx fd k))])
     else Inl FdIndex)"
  by (cases "new_FdCtx fd k") (use new_FdCtx_flags [of fd k] in \<open>simp add: fdm_create_def fd_put_def\<close>)

lemma fdm_get_found:
  "0 \<le> fd \<Longrightarrow> fd < int (length m) \<Longrightarrow> m ! nat fd = Some c \<Longrightarrow> fdm_get fd b k m = Inr (Some c, k, m)"
  by (simp add: fdm_get_def fd_at_def)

lemma fdm_get_inv:
  assumes "fdm_inv m" "fdm_get fd b k m = Inr (c, k', m')"
  shows "fdm_inv m' \<and> k' = k \<and> length m' = length m
    \<and> (c \<noteq> None \<longrightarrow> 0 \<le> fd \<and> fd < int (length m) \<and> m' ! nat fd = c)"
  using assms
  by (auto simp: fdm_get_def fd_at_def fdm_create_eq fdm_inv_def nth_list_update split: if_splits)

lemma fdm_del_inv: "fdm_inv m \<Longrightarrow> fdm_del fd m = Inr m' \<Longrightarrow> fdm_inv m' \<and> length m' = length m"
  by (auto simp: fdm_del_def fd_put_def fdm_inv_def nth_list_update split: if_splits)

section \<open>Properties\<close>

text \<open>
  Asking for the context of a descriptor inside the table creates it once: it is at the
  descriptor's index, a second request returns the same context and changes nothing, and after
  \<open>del\<close> there is none; the kernel's flags stay as they were, so no descriptor is made non-blocking.
  Outside the table's 64 entries, creating one writes out of bounds.
\<close>

theorem fdm_get_creates:
  assumes "fdm_inv m" "length m = 64" "0 \<le> fd"
  shows "if fd < 64
    then \<exists>c m'. fdm_get fd True k m = Inr (Some c, k, m') \<and> m_fd c = fd
      \<and> fdm_get fd b k m' = Inr (Some c, k, m') \<and> fdm_inv m'
      \<and> (\<exists>m''. fdm_del fd m' = Inr m'' \<and> fdm_get fd False k m'' = Inr (None, k, m''))
    else fdm_get fd True k m = Inl FdIndex \<and> fdm_get fd False k m = Inr (None, k, m)"
proof (cases "fd < 64")
  case True
  then have n: "nat fd < length m" using assms(2,3) by simp
  show ?thesis
  proof (cases "m ! nat fd")
    case None
    let ?c = "fst (new_FdCtx fd k)" and ?m = "m[nat fd := Some (fst (new_FdCtx fd k))]"
    have g: "fdm_get fd True k m = Inr (Some ?c, k, ?m)"
      using True assms None by (simp add: fdm_get_def fd_at_def fdm_create_eq)
    have "fdm_inv ?m" using fdm_get_inv [OF assms(1) g] by simp
    moreover have "fdm_get fd b k ?m = Inr (Some ?c, k, ?m)"
      using True assms n by (intro fdm_get_found) auto
    moreover have "\<exists>m''. fdm_del fd ?m = Inr m'' \<and> fdm_get fd False k m'' = Inr (None, k, m'')"
      using True assms n by (simp add: fdm_del_def fd_put_def fdm_get_def fd_at_def)
    ultimately show ?thesis using True g by auto
  next
    case (Some c)
    have "m_fd c = fd" using assms n Some by (auto simp: fdm_inv_def)
    moreover have "fdm_get fd x k m = Inr (Some c, k, m)" for x
      using True assms Some by (intro fdm_get_found) auto
    moreover have "\<exists>m''. fdm_del fd m = Inr m'' \<and> fdm_get fd False k m'' = Inr (None, k, m'')"
      using True assms n by (simp add: fdm_del_def fd_put_def fdm_get_def fd_at_def)
    ultimately show ?thesis using True assms(1) by auto
  qed
qed (use assms in \<open>simp add: fdm_get_def fdm_create_eq\<close>)

theorem fdm_get_creates_witness:
  "(\<exists>c m'. fdm_get 5 True [5 \<mapsto> 2] new_FdManager = Inr (Some c, [5 \<mapsto> 2], m') \<and> m_fd c = 5)
   \<and> fdm_get 64 True [64 \<mapsto> 2] new_FdManager = Inl FdIndex"
  using fdm_get_creates [OF fdm_inv_new, of 5 "[5 \<mapsto> 2]" True]
    fdm_get_creates [OF fdm_inv_new, of 64 "[64 \<mapsto> 2]" True]
  by (auto simp: new_FdManager_def)

end
