(* ===== verification/Hook.thy ===== *)
theory Hook
  imports IOManager FdManager "HOL-Library.Signed_Division"
begin

unbundle bit_operations_syntax

text \<open>
  The hooked system calls (\<open>hook.cc\<close>). A hooked call runs in a fiber: where it yields, its
  definition ends with the state \<open>Blocked\<close> and a second definition carries on when the fiber is
  resumed. In between any other operation may change the world, which holds the descriptor table,
  the kernel's flags, the I/O manager and the timers of the thread, the \<open>timer_info\<close> objects by
  address (absent when freed) and \<open>errno\<close>. What the original functions return is a list of results,
  one for each call; if it is used up, the call has not returned yet. \<open>fiber_ctx\<close> holds what
  \<open>GetThis\<close> returns in the calling fiber and \<open>io_env\<close> the outcome of \<open>epoll_ctl\<close>, the clock and the
  allocator.
\<close>

section \<open>State\<close>

datatype hook_error = HIo io_error | HTimer timer_error | HFd fd_error | NullIom

datatype hook_cb = TimeoutCb nat int u32 | ScheduleFiber nat

datatype sysret = Ret int | Err int

record HookWorld =
  fdm :: FdManager
  flags :: fd_flags
  iom :: IOManager
  tmgr :: "hook_cb TimerManager"
  infos :: "nat \<Rightarrow> int option"
  errno :: int

record fiber_ctx =
  this_scheduler :: "nat option"
  this_fiber :: nat
  this_state :: State

record io_env =
  ctl_ok :: bool
  now_ms :: u64
  timer_addr :: nat

definition EINTR :: int where "EINTR = 4"

definition EBADF :: int where "EBADF = 9"

definition EAGAIN :: int where "EAGAIN = 11"

definition ETIMEDOUT :: int where "ETIMEDOUT = 110"

definition EINPROGRESS :: int where "EINPROGRESS = 115"

text \<open>Where a hooked call stands: returned, waiting with its timer and \<open>timer_info\<close>, or not returned by the kernel.\<close>

datatype io_state = Done int | Blocked "nat option" nat | InKernel

text \<open>A result of the original function: on failure it returns \<open>-1\<close> and sets \<open>errno\<close>.\<close>

definition take_ret :: "sysret \<Rightarrow> HookWorld \<Rightarrow> int \<times> HookWorld" where
  "take_ret r w = (case r of Ret n \<Rightarrow> (n, w) | Err e \<Rightarrow> (- 1, w\<lparr>errno := e\<rparr>))"

section \<open>\<open>do_io\<close>\<close>

text \<open>The loop around the original function: again as long as it was interrupted.\<close>

fun call_retry :: "sysret list \<Rightarrow> HookWorld \<Rightarrow> ((int \<times> HookWorld) \<times> sysret list) option" where
  "call_retry [] w = None"
| "call_retry (r # rs) w =
     (case take_ret r w of (n, w) \<Rightarrow>
        if n = - 1 \<and> errno w = EINTR then call_retry rs w else Some ((n, w), rs))"

text \<open>The condition timer of a blocked call, unless the timeout is \<open>-1\<close>.\<close>

definition add_timeout :: "io_env \<Rightarrow> u64 \<Rightarrow> nat \<Rightarrow> int \<Rightarrow> u32 \<Rightarrow> HookWorld \<Rightarrow> nat option \<times> HookWorld" where
  "add_timeout env to info fd event w =
     (if to \<noteq> - 1 then
        (Some (timer_addr env),
         w\<lparr>tmgr := snd (addTimer (now_ms env) (timer_addr env) to
             (Some (TimeoutCb info fd event)) False (tmgr w))\<rparr>)
      else (None, w))"

definition cancel_timeout :: "nat option \<Rightarrow> HookWorld \<Rightarrow> hook_error + HookWorld" where
  "cancel_timeout timer w =
     (case timer of None \<Rightarrow> Inr w
      | Some a \<Rightarrow>
          (case timer_cancel a (tmgr w) of
             Inl e \<Rightarrow> Inl (HTimer e)
           | Inr (_, m) \<Rightarrow> Inr (w\<lparr>tmgr := m\<rparr>)))"

definition add_event :: "fiber_ctx \<Rightarrow> io_env \<Rightarrow> int \<Rightarrow> u32 \<Rightarrow> HookWorld \<Rightarrow> hook_error + int \<times> HookWorld" where
  "add_event fc env fd event w =
     (case this_scheduler fc of None \<Rightarrow> Inl NullIom
      | Some sch \<Rightarrow>
          (case addEvent (Some sch) (this_fiber fc) (this_state fc) (ctl_ok env) fd event None (iom w) of
             Inl e \<Rightarrow> Inl (HIo e)
           | Inr (rt, m) \<Rightarrow> Inr (rt, w\<lparr>iom := m\<rparr>)))"

text \<open>From the label \<open>retry\<close> on; the object \<open>stinfo\<close> is freed when the call returns.\<close>

definition do_io_retry ::
  "fiber_ctx \<Rightarrow> io_env \<Rightarrow> int \<Rightarrow> u32 \<Rightarrow> u64 \<Rightarrow> nat \<Rightarrow> sysret list \<Rightarrow> HookWorld \<Rightarrow>
   hook_error + io_state \<times> HookWorld" where
  "do_io_retry fc env fd event to info rs w =
     (case call_retry rs w of
        None \<Rightarrow> Inr (InKernel, w)
      | Some ((n, w), _) \<Rightarrow>
          if n = - 1 \<and> errno w = EAGAIN then
            (if this_scheduler fc = None then Inl NullIom
             else case add_timeout env to info fd event w of
               (timer, w) \<Rightarrow> bindr (add_event fc env fd event w) (\<lambda>(rt, w).
                  if rt \<noteq> 0 then
                    bindr (cancel_timeout timer w) (\<lambda>w.
                      Inr (Done (- 1), w\<lparr>infos := (infos w)(info := None)\<rparr>))
                  else Inr (Blocked timer info, w)))
          else Inr (Done n, w\<lparr>infos := (infos w)(info := None)\<rparr>))"

definition passthrough :: "sysret list \<Rightarrow> HookWorld \<Rightarrow> io_state \<times> HookWorld" where
  "passthrough rs w =
     (case rs of [] \<Rightarrow> (InKernel, w) | r # _ \<Rightarrow> (case take_ret r w of (n, w) \<Rightarrow> (Done n, w)))"

definition do_io ::
  "bool \<Rightarrow> fiber_ctx \<Rightarrow> io_env \<Rightarrow> int \<Rightarrow> u32 \<Rightarrow> int \<Rightarrow> nat \<Rightarrow> sysret list \<Rightarrow> HookWorld \<Rightarrow>
   hook_error + io_state \<times> HookWorld" where
  "do_io hook_enable fc env fd event timeout_so info rs w =
     (if \<not> hook_enable then Inr (passthrough rs w)
      else case fdm_get fd False (flags w) (fdm w) of
        Inl e \<Rightarrow> Inl (HFd e)
      | Inr (None, _) \<Rightarrow> Inr (passthrough rs w)
      | Inr (Some ctx, _) \<Rightarrow>
          if m_isClosed ctx then Inr (Done (- 1), w\<lparr>errno := EBADF\<rparr>)
          else if \<not> m_isSocket ctx \<or> m_userNonblock ctx then Inr (passthrough rs w)
          else do_io_retry fc env fd event (getTimeout timeout_so ctx) info rs
                 (w\<lparr>infos := (infos w)(info \<mapsto> 0)\<rparr>))"

text \<open>After \<open>YieldToHold\<close> returned.\<close>

definition do_io_resume ::
  "fiber_ctx \<Rightarrow> io_env \<Rightarrow> int \<Rightarrow> u32 \<Rightarrow> u64 \<Rightarrow> nat option \<Rightarrow> nat \<Rightarrow> sysret list \<Rightarrow> HookWorld \<Rightarrow>
   hook_error + io_state \<times> HookWorld" where
  "do_io_resume fc env fd event to timer info rs w =
     bindr (cancel_timeout timer w) (\<lambda>w.
       case infos w info of
         Some c \<Rightarrow>
           if c \<noteq> 0 then Inr (Done (- 1), w\<lparr>errno := c, infos := (infos w)(info := None)\<rparr>)
           else do_io_retry fc env fd event to info rs w
       | None \<Rightarrow> do_io_retry fc env fd event to info rs w)"

text \<open>
  What the timer callbacks do when they run: \<open>TimeoutCb\<close> is the lambda of \<open>do_io\<close> and of
  \<open>connect_with_timeout\<close>, guarded by its weak pointer; \<open>ScheduleFiber\<close> the bound
  \<open>IOManager::schedule\<close> of the sleeps.
\<close>

definition run_hook_cb :: "nat \<Rightarrow> bool \<Rightarrow> hook_cb \<Rightarrow> HookWorld \<Rightarrow> hook_error + HookWorld" where
  "run_hook_cb sch ctl cb w =
     (case cb of
        TimeoutCb info fd event \<Rightarrow>
          (case infos w info of
             None \<Rightarrow> Inr w
           | Some c \<Rightarrow>
               if c \<noteq> 0 then Inr w
               else let w = w\<lparr>infos := (infos w)(info \<mapsto> ETIMEDOUT)\<rparr>
                 in (case cancelEvent ctl fd event (iom w) of
                       Inl e \<Rightarrow> Inl (HIo e)
                     | Inr (_, m) \<Rightarrow> Inr (w\<lparr>iom := m\<rparr>)))
      | ScheduleFiber f \<Rightarrow> Inr (w\<lparr>iom := (iom w)\<lparr>posted := posted (iom w) @ [(sch, ft_fiber (Some f) (- 1))]\<rparr>\<rparr>))"

section \<open>Sleeping\<close>

text \<open>
  The three sleeps add a timer that schedules the fiber again and yield. \<open>seconds * 1000\<close> is an
  \<open>unsigned int\<close>, \<open>timeout_ms\<close> of \<open>nanosleep\<close> an \<open>int\<close> made from 64-bit values.
\<close>

definition sleep_ms :: "u32 \<Rightarrow> u64" where
  "sleep_ms seconds = ucast (seconds * 1000)"

definition usleep_ms :: "u32 \<Rightarrow> u64" where
  "usleep_ms usec = ucast (usec div 1000)"

definition nanosleep_ms :: "u64 \<Rightarrow> u64 \<Rightarrow> u64" where
  "nanosleep_ms tv_sec tv_nsec =
     scast (ucast (tv_sec * 1000 + word_of_int (sint tv_nsec sdiv 1000 sdiv 1000)) :: u32)"

definition hook_sleep ::
  "bool \<Rightarrow> fiber_ctx \<Rightarrow> io_env \<Rightarrow> u64 \<Rightarrow> sysret list \<Rightarrow> HookWorld \<Rightarrow> hook_error + io_state \<times> HookWorld" where
  "hook_sleep hook_enable fc env ms rs w =
     (if \<not> hook_enable then Inr (passthrough rs w)
      else if this_scheduler fc = None then Inl NullIom
      else Inr (Blocked (Some (timer_addr env)) 0,
        w\<lparr>tmgr := snd (addTimer (now_ms env) (timer_addr env) ms
            (Some (ScheduleFiber (this_fiber fc))) False (tmgr w))\<rparr>))"

section \<open>Sockets\<close>

text \<open>A descriptor the kernel returned gets a context; \<open>socket_f\<close> and \<open>accept\<close> return an open one.\<close>

definition register_fd :: "int \<Rightarrow> HookWorld \<Rightarrow> hook_error + HookWorld" where
  "register_fd fd w =
     (case fdm_get fd True (flags w) (fdm w) of
        Inl e \<Rightarrow> Inl (HFd e)
      | Inr (_, k, m) \<Rightarrow> Inr (w\<lparr>flags := k, fdm := m\<rparr>))"

definition hook_socket :: "bool \<Rightarrow> sysret \<Rightarrow> HookWorld \<Rightarrow> hook_error + int \<times> HookWorld" where
  "hook_socket hook_enable r w =
     (case take_ret r w of (fd, w) \<Rightarrow>
        if \<not> hook_enable \<or> fd = - 1 then Inr (fd, w)
        else bindr (register_fd fd w) (\<lambda>w. Inr (fd, w)))"

definition accept_finish :: "io_state \<times> HookWorld \<Rightarrow> hook_error + io_state \<times> HookWorld" where
  "accept_finish = (\<lambda>(st, w).
     case st of
       Done fd \<Rightarrow> if fd \<ge> 0 then bindr (register_fd fd w) (\<lambda>w. Inr (Done fd, w)) else Inr (Done fd, w)
     | _ \<Rightarrow> Inr (st, w))"

definition hook_accept ::
  "bool \<Rightarrow> fiber_ctx \<Rightarrow> io_env \<Rightarrow> int \<Rightarrow> nat \<Rightarrow> sysret list \<Rightarrow> HookWorld \<Rightarrow> hook_error + io_state \<times> HookWorld" where
  "hook_accept hook_enable fc env s info rs w =
     bindr (do_io hook_enable fc env s READ SO_RCVTIMEO info rs w) accept_finish"

text \<open>\<open>read\<close>, \<open>readv\<close>, \<open>recv\<close>, \<open>recvfrom\<close> and \<open>recvmsg\<close>; then \<open>write\<close>, \<open>writev\<close>, \<open>send\<close>, \<open>sendto\<close>, \<open>sendmsg\<close>.\<close>

definition hook_read ::
  "bool \<Rightarrow> fiber_ctx \<Rightarrow> io_env \<Rightarrow> int \<Rightarrow> nat \<Rightarrow> sysret list \<Rightarrow> HookWorld \<Rightarrow> hook_error + io_state \<times> HookWorld" where
  "hook_read hook_enable fc env fd = do_io hook_enable fc env fd READ SO_RCVTIMEO"

definition hook_write ::
  "bool \<Rightarrow> fiber_ctx \<Rightarrow> io_env \<Rightarrow> int \<Rightarrow> nat \<Rightarrow> sysret list \<Rightarrow> HookWorld \<Rightarrow> hook_error + io_state \<times> HookWorld" where
  "hook_write hook_enable fc env fd = do_io hook_enable fc env fd WRITE SO_SNDTIMEO"

text \<open>
  \<open>connect_with_timeout\<close> up to its yield and from there on; \<open>so\<close> is what \<open>getsockopt\<close> returns and the
  value of \<open>SO_ERROR\<close> it stores.
\<close>

definition connect_error :: "sysret \<times> int \<Rightarrow> HookWorld \<Rightarrow> io_state \<times> HookWorld" where
  "connect_error so w =
     (case take_ret (fst so) w of (n, w) \<Rightarrow>
        if n = - 1 then (Done (- 1), w)
        else if snd so = 0 then (Done 0, w)
        else (Done (- 1), w\<lparr>errno := snd so\<rparr>))"

definition connect_with_timeout ::
  "bool \<Rightarrow> fiber_ctx \<Rightarrow> io_env \<Rightarrow> int \<Rightarrow> u64 \<Rightarrow> nat \<Rightarrow> sysret \<Rightarrow> sysret \<times> int \<Rightarrow> HookWorld \<Rightarrow>
   hook_error + io_state \<times> HookWorld" where
  "connect_with_timeout hook_enable fc env fd timeout_ms info r so w =
     (if \<not> hook_enable then Inr (passthrough [r] w)
      else case fdm_get fd False (flags w) (fdm w) of
        Inl e \<Rightarrow> Inl (HFd e)
      | Inr (None, _) \<Rightarrow> Inr (Done (- 1), w\<lparr>errno := EBADF\<rparr>)
      | Inr (Some ctx, _) \<Rightarrow>
          if m_isClosed ctx then Inr (Done (- 1), w\<lparr>errno := EBADF\<rparr>)
          else if \<not> m_isSocket ctx \<or> m_userNonblock ctx then Inr (passthrough [r] w)
          else case take_ret r w of (n, w) \<Rightarrow>
            if n = 0 then Inr (Done 0, w)
            else if n \<noteq> - 1 \<or> errno w \<noteq> EINPROGRESS then Inr (Done n, w)
            else if this_scheduler fc = None then Inl NullIom
            else case add_timeout env timeout_ms info fd WRITE (w\<lparr>infos := (infos w)(info \<mapsto> 0)\<rparr>) of
              (timer, w) \<Rightarrow> bindr (add_event fc env fd WRITE w) (\<lambda>(rt, w).
                if rt = 0 then Inr (Blocked timer info, w)
                else bindr (cancel_timeout timer w) (\<lambda>w.
                  Inr (connect_error so (w\<lparr>infos := (infos w)(info := None)\<rparr>)))))"

definition connect_resume ::
  "nat option \<Rightarrow> nat \<Rightarrow> sysret \<times> int \<Rightarrow> HookWorld \<Rightarrow> hook_error + io_state \<times> HookWorld" where
  "connect_resume timer info so w =
     bindr (cancel_timeout timer w) (\<lambda>w.
       let c = infos w info; w = w\<lparr>infos := (infos w)(info := None)\<rparr>
       in case c of
            Some c \<Rightarrow> if c \<noteq> 0 then Inr (Done (- 1), w\<lparr>errno := c\<rparr>) else Inr (connect_error so w)
          | None \<Rightarrow> Inr (connect_error so w))"

text \<open>\<open>close\<close>: \<open>cancelAll\<close> only in a thread with an I/O manager; \<open>close_f\<close> returns \<open>r\<close>.\<close>

definition hook_close ::
  "bool \<Rightarrow> fiber_ctx \<Rightarrow> bool \<Rightarrow> int \<Rightarrow> sysret \<Rightarrow> HookWorld \<Rightarrow> hook_error + int \<times> HookWorld" where
  "hook_close hook_enable fc ctl fd r w =
     (if \<not> hook_enable then Inr (take_ret r w)
      else case fdm_get fd False (flags w) (fdm w) of
        Inl e \<Rightarrow> Inl (HFd e)
      | Inr (None, _) \<Rightarrow> Inr (take_ret r w)
      | Inr (Some _, _) \<Rightarrow>
          bindr (if this_scheduler fc = None then Inr w
                 else case cancelAll ctl fd (iom w) of
                   Inl e \<Rightarrow> Inl (HIo e) | Inr (_, m) \<Rightarrow> Inr (w\<lparr>iom := m\<rparr>)) (\<lambda>w.
            case fdm_del fd (fdm w) of
              Inl e \<Rightarrow> Inl (HFd e) | Inr m \<Rightarrow> Inr (take_ret r (w\<lparr>fdm := m\<rparr>))))"

section \<open>Flags and options\<close>

text \<open>The context of a managed, open socket, as the flag and option calls look it up.\<close>

definition managed :: "int \<Rightarrow> HookWorld \<Rightarrow> hook_error + FdCtx option" where
  "managed fd w =
     (case fdm_get fd False (flags w) (fdm w) of
        Inl e \<Rightarrow> Inl (HFd e)
      | Inr (None, _) \<Rightarrow> Inr None
      | Inr (Some ctx, _) \<Rightarrow> Inr (if m_isClosed ctx \<or> \<not> m_isSocket ctx then None else Some ctx))"

definition update_ctx :: "int \<Rightarrow> (FdCtx \<Rightarrow> FdCtx) \<Rightarrow> HookWorld \<Rightarrow> HookWorld" where
  "update_ctx fd f w = w\<lparr>fdm := (fdm w)[nat fd := map_option f (fdm w ! nat fd)]\<rparr>"

text \<open>
  What the kernel keeps of the argument of \<open>F_SETFL\<close>: the file status flags that can be set; the access mode and the
  flags of \<open>open\<close> that are not kept are ignored.
\<close>

definition SETFL_MASK :: u32 where
  "SETFL_MASK = 0x400 OR O_NONBLOCK OR 0x2000 OR 0x4000 OR 0x40000"

definition kernel_setfl :: "u32 \<Rightarrow> u32 \<Rightarrow> u32" where
  "kernel_setfl old arg = (old AND NOT SETFL_MASK) OR (arg AND SETFL_MASK)"

text \<open>\<open>fcntl\<close> with \<open>F_SETFL\<close>, to which the kernel answers \<open>r\<close>, and with \<open>F_GETFL\<close>.\<close>

definition fcntl_setfl :: "int \<Rightarrow> u32 \<Rightarrow> sysret \<Rightarrow> HookWorld \<Rightarrow> hook_error + int \<times> HookWorld" where
  "fcntl_setfl fd arg r w =
     bindr (managed fd w) (\<lambda>c.
       let w = (case c of None \<Rightarrow> w
                | Some _ \<Rightarrow> update_ctx fd (\<lambda>c. c\<lparr>m_userNonblock := arg AND O_NONBLOCK \<noteq> 0\<rparr>) w);
           arg = (case c of None \<Rightarrow> arg
                  | Some c \<Rightarrow> if m_sysNonblock c then arg OR O_NONBLOCK else arg AND NOT O_NONBLOCK);
           (n, w) = take_ret r w
       in Inr (n, if n = - 1 then w else w\<lparr>flags := (flags w)(fd := map_option (\<lambda>old. kernel_setfl old arg) (flags w fd))\<rparr>))"

definition fcntl_getfl :: "int \<Rightarrow> HookWorld \<Rightarrow> hook_error + u32 \<times> HookWorld" where
  "fcntl_getfl fd w =
     (let (arg, w) = (case flags w fd of None \<Rightarrow> (- 1, w\<lparr>errno := EBADF\<rparr>) | Some f \<Rightarrow> (f, w))
      in bindr (managed fd w) (\<lambda>c.
        case c of None \<Rightarrow> Inr (arg, w)
        | Some c \<Rightarrow> Inr (if m_userNonblock c then arg OR O_NONBLOCK else arg AND NOT O_NONBLOCK, w)))"

text \<open>\<open>ioctl(FIONBIO)\<close> before it goes on to \<open>ioctl_f\<close>.\<close>

definition ioctl_fionbio :: "int \<Rightarrow> bool \<Rightarrow> HookWorld \<Rightarrow> hook_error + HookWorld" where
  "ioctl_fionbio d user_nonblock w =
     bindr (managed d w) (\<lambda>c.
       case c of None \<Rightarrow> Inr w
       | Some _ \<Rightarrow> Inr (update_ctx d (\<lambda>c. c\<lparr>m_userNonblock := user_nonblock\<rparr>) w))"

text \<open>\<open>setsockopt(SOL_SOCKET, \<dots>)\<close> before it goes on to \<open>setsockopt_f\<close>; the \<open>timeval\<close> is two 64-bit values.\<close>

definition setsockopt_timeout :: "bool \<Rightarrow> int \<Rightarrow> int \<Rightarrow> u64 \<Rightarrow> u64 \<Rightarrow> HookWorld \<Rightarrow> hook_error + HookWorld" where
  "setsockopt_timeout hook_enable fd optname tv_sec tv_usec w =
     (if \<not> hook_enable \<or> (optname \<noteq> SO_RCVTIMEO \<and> optname \<noteq> SO_SNDTIMEO) then Inr w
      else case fdm_get fd False (flags w) (fdm w) of
        Inl e \<Rightarrow> Inl (HFd e)
      | Inr (None, _) \<Rightarrow> Inr w
      | Inr (Some _, _) \<Rightarrow>
          Inr (update_ctx fd (setTimeout optname
            (tv_sec * 1000 + word_of_int (sint tv_usec sdiv 1000))) w))"

section \<open>Lemmas\<close>

lemma addEvent_shape:
  assumes "addEvent (Some sch) fb st ctl fd event None m = Inr (0, m')"
  defines "m1 \<equiv> addEvent_lookup (\<lambda>m. m) fd m"
  obtains x c where "0 \<le> fd" "fd < int (length (m_fdContexts m1))" "events c = events (m_fdContexts m1 ! nat fd) OR event"
    "ev_cb x = None"
    "m_fdContexts m' = (m_fdContexts m1)[nat fd :=
       putContext event (x\<lparr>scheduler := Some sch, ev_fiber := Some fb\<rparr>) c]"
proof -
  let ?c = "m_fdContexts m1 ! nat fd"
  let ?c' = "?c\<lparr>events := events ?c OR event\<rparr>"
  have b: "0 \<le> fd" "fd < int (length (m_fdContexts m1))"
    using assms(1) by (auto simp: addEvent_def addEvent_locked_def Let_def context_at_def m1_def [symmetric] split: if_splits)
  obtain x where x: "getContext event ?c' = Inr x" "ev_cb x = None" "ev_fiber x = None"
    "m' = store_ctx fd (putContext event (x\<lparr>scheduler := Some sch, ev_fiber := Some fb\<rparr>) ?c')
       (tell_kernel fd (events ?c OR event) m1\<lparr>m_pendingEventCount := m_pendingEventCount m1 + 1\<rparr>)"
    using assms(1) b
    by (auto simp: addEvent_def addEvent_locked_def Let_def context_at_def m1_def [symmetric] bindr_eq_Inr tell_kernel_def split: if_splits)
  show ?thesis
    by (rule that [of ?c' x]) (use b x in \<open>simp_all add: store_ctx_def tell_kernel_def\<close>)
qed

lemma addEvent_waits:
  assumes "addEvent (Some sch) fb st ctl fd event None m = Inr (0, m')" "event = READ \<or> event = WRITE"
  shows "0 \<le> fd" "fd < int (length (m_fdContexts m'))"
    "fired event (m_fdContexts m' ! nat fd) = [(sch, ft_fiber (Some fb) (- 1))]"
  using assms(2)
  by (cases rule: addEvent_shape [OF assms(1)];
      auto simp: fired_single putContext_def task_of_def nat_less_iff event_defs)+

lemma cancelEvent_on:
  "cancelEvent True fd event m = Inr (r, m') \<Longrightarrow> 0 \<le> fd \<Longrightarrow> fd < int (length (m_fdContexts m)) \<Longrightarrow>
   events (m_fdContexts m ! nat fd) AND event \<noteq> 0 \<Longrightarrow> r"
  by (auto simp: cancelEvent_def context_at_def Let_def bindr_eq_Inr)

lemma addEvent_rt: "addEvent sch fb st True fd event cb m = Inr (rt, m') \<Longrightarrow> rt = 0"
  by (auto simp: addEvent_def addEvent_locked_def Let_def bindr_eq_Inr split: if_splits)

lemma take_ret_frame:
  "take_ret r w = (n, w') \<Longrightarrow> infos w' = infos w \<and> iom w' = iom w \<and> tmgr w' = tmgr w"
  by (auto simp: take_ret_def split: sysret.splits)

lemma call_retry_frame:
  "call_retry rs w = Some ((n, w'), rest) \<Longrightarrow> infos w' = infos w \<and> iom w' = iom w \<and> tmgr w' = tmgr w"
  by (induction rs arbitrary: w) (auto dest!: take_ret_frame split: prod.splits if_splits)

text \<open>The value a result stands for.\<close>

definition ret_val :: "sysret \<Rightarrow> int" where
  "ret_val r = (case r of Ret n \<Rightarrow> n | Err _ \<Rightarrow> - 1)"

lemma call_retry_spec:
  "call_retry rs w = Some ((n, w'), rest) \<Longrightarrow> Ret (- 1) \<notin> set rs \<Longrightarrow>
   \<exists>pre r. rs = pre @ r # rest \<and> set pre \<subseteq> {Err EINTR} \<and> r \<noteq> Err EINTR \<and> n = ret_val r
     \<and> (n = - 1 \<longrightarrow> r = Err (errno w'))"
proof (induction rs arbitrary: w)
  case (Cons r rs)
  show ?case
  proof (cases "r = Err EINTR")
    case True
    then have "call_retry rs (w\<lparr>errno := EINTR\<rparr>) = Some ((n, w'), rest)"
      using Cons.prems(1) by (simp add: take_ret_def)
    from Cons.IH [OF this] Cons.prems(2)
    obtain pre r' where h: "rs = pre @ r' # rest" "set pre \<subseteq> {Err EINTR}" "r' \<noteq> Err EINTR"
      "n = ret_val r'" "n = - 1 \<longrightarrow> r' = Err (errno w')" by auto
    then show ?thesis using True by (intro exI [of _ "r # pre"] exI [of _ r']) simp
  next
    case False
    then show ?thesis
      using Cons.prems
      by (intro exI [of _ "[]"] exI [of _ r]) (auto simp: take_ret_def ret_val_def split: sysret.splits if_splits)
  qed
qed simp

lemma cancel_timeout_ok:
  assumes "tm_inv (tmgr w)" "heap (tmgr w) a \<noteq> None"
  obtains m where "cancel_timeout (Some a) w = Inr (w\<lparr>tmgr := m\<rparr>)" "tm_inv m" "cb_at (heap m) a = None"
proof -
  obtain t where t: "heap (tmgr w) a = Some t" using assms(2) by auto
  then obtain r m where "timer_cancel a (tmgr w) = Inr (r, m)" "cb_at (heap m) a = None"
    using timer_cancel_spec [OF assms(1) t] by (cases "m_cb t") (auto simp: cb_at_def)
  then show ?thesis using that tm_inv_cancel [OF assms(1)] by (auto simp: cancel_timeout_def)
qed

text \<open>A blocking call on a managed descriptor that would block registers its event and its timer.\<close>

lemma do_io_retry_blocks:
  assumes "io_inv (iom w)" "kernel_ok (iom w)" "0 \<le> fd" "event = READ \<or> event = WRITE"
    "fd < int (length (m_fdContexts (iom w))) \<longrightarrow> events (m_fdContexts (iom w) ! nat fd) AND event = 0"
    "this_scheduler fc = Some sch" "this_state fc = EXEC" "ctl_ok env"
  obtains m where "do_io_retry fc env fd event to info (Err EAGAIN # rs) w
      = Inr (Blocked (if to = - 1 then None else Some (timer_addr env)) info,
             (snd (add_timeout env to info fd event (w\<lparr>errno := EAGAIN\<rparr>)))\<lparr>iom := m\<rparr>)"
    "io_inv m" "kernel_ok m" "posted m = posted (iom w)"
    "m_pendingEventCount m = m_pendingEventCount (iom w) + 1"
    "fd < int (length (m_fdContexts m))" "events (m_fdContexts m ! nat fd) AND event \<noteq> 0"
    "fired event (m_fdContexts m ! nat fd) = [(sch, ft_fiber (Some (this_fiber fc)) (- 1))]"
proof -
  obtain m where m: "addEvent (Some sch) (this_fiber fc) EXEC True fd event None (iom w) = Inr (0, m)"
    "io_inv m" "kernel_ok m" "posted m = posted (iom w)"
    "m_pendingEventCount m = m_pendingEventCount (iom w) + 1" "events (m_fdContexts m ! nat fd) AND event \<noteq> 0"
    using addEvent_ok [OF assms(1-4), of None EXEC sch "this_fiber fc" True] assms(5) by auto
  have i: "iom (snd (add_timeout env to info fd event (w\<lparr>errno := EAGAIN\<rparr>))) = iom w"
    by (simp add: add_timeout_def)
  show ?thesis
    by (rule that [of m]) (use m addEvent_waits [OF m(1) assms(4)] assms i in
        \<open>auto simp: do_io_retry_def take_ret_def add_event_def add_timeout_def EAGAIN_def EINTR_def\<close>)
qed

text \<open>The timer callback of a blocked call wakes its fiber and marks the call as timed out.\<close>

lemma run_timeout_cb:
  assumes "io_inv (iom w)" "kernel_ok (iom w)" "0 \<le> fd" "fd < int (length (m_fdContexts (iom w)))"
    "event = READ \<or> event = WRITE" "events (m_fdContexts (iom w) ! nat fd) AND event \<noteq> 0" "infos w info = Some 0"
  obtains m where "run_hook_cb sch True (TimeoutCb info fd event) w
      = Inr (w\<lparr>infos := (infos w)(info \<mapsto> ETIMEDOUT), iom := m\<rparr>)"
    "io_inv m" "kernel_ok m" "posted m = posted (iom w) @ fired event (m_fdContexts (iom w) ! nat fd)"
    "m_pendingEventCount (iom w) = Suc (m_pendingEventCount m)"
proof -
  obtain r m where m: "cancelEvent True fd event (iom w) = Inr (r, m)" "io_inv m" "kernel_ok m"
    "if r then posted m = posted (iom w) @ fired event (m_fdContexts (iom w) ! nat fd)
       \<and> m_pendingEventCount (iom w) = Suc (m_pendingEventCount m)
       \<and> events (m_fdContexts m ! nat fd) AND event = 0 else m = iom w"
    using cancelEvent_ok [OF assms(1,2,3,5), of True] by blast
  then have r using cancelEvent_on [OF m(1) assms(3,4,6)] by simp
  then show ?thesis using m assms(7) by (intro that [of m]) (simp_all add: run_hook_cb_def)
qed

lemma do_io_managed:
  assumes "0 \<le> fd" "fd < int (length (fdm w))" "fdm w ! nat fd = Some ctx"
    "m_isSocket ctx" "\<not> m_isClosed ctx" "\<not> m_userNonblock ctx"
  shows "do_io True fc env fd event so info rs w
    = do_io_retry fc env fd event (getTimeout so ctx) info rs (w\<lparr>infos := (infos w)(info \<mapsto> 0)\<rparr>)"
  using assms by (simp add: do_io_def fdm_get_found)

section \<open>Properties\<close>

text \<open>
  C1: a read or write that would block, on a managed socket with a timeout, registers its fiber for
  the event and a timer for the deadline. When the timer's callback runs first, it schedules exactly
  that fiber, takes the event back, and the resumed call returns -1 with \<open>ETIMEDOUT\<close>, whatever
  happened to the timers in between, leaving neither an active timer nor its \<open>timer_info\<close> behind.
\<close>

theorem do_io_timeout:
  assumes "io_inv (iom w)" "kernel_ok (iom w)" "tm_inv (tmgr w)"
    and "0 \<le> fd" "fd < int (length (fdm w))" "fdm w ! nat fd = Some ctx"
    and "m_isSocket ctx" "\<not> m_isClosed ctx" "\<not> m_userNonblock ctx" "getTimeout so ctx \<noteq> - 1"
    and "event = READ \<or> event = WRITE"
    and "fd < int (length (m_fdContexts (iom w))) \<longrightarrow> events (m_fdContexts (iom w) ! nat fd) AND event = 0"
    and "this_scheduler fc = Some sch" "this_state fc = EXEC" "ctl_ok env"
    and "heap (tmgr w) (timer_addr env) = None"
  shows "\<exists>w1 w2. do_io True fc env fd event so info (Err EAGAIN # rs) w
        = Inr (Blocked (Some (timer_addr env)) info, w1)
    \<and> tm_inv (tmgr w1) \<and> cb_at (heap (tmgr w1)) (timer_addr env) = Some (TimeoutCb info fd event)
    \<and> next_at (heap (tmgr w1)) (timer_addr env) = now_ms env + getTimeout so ctx
    \<and> run_hook_cb sch True (TimeoutCb info fd event) w1 = Inr w2
    \<and> posted (iom w2) = posted (iom w) @ [(sch, ft_fiber (Some (this_fiber fc)) (- 1))]
    \<and> m_pendingEventCount (iom w2) = m_pendingEventCount (iom w)
    \<and> (\<forall>tm'. tm_inv tm' \<and> heap tm' (timer_addr env) \<noteq> None \<longrightarrow>
        (\<exists>w3. do_io_resume fc env' fd event (getTimeout so ctx) (Some (timer_addr env)) info rs'
                (w2\<lparr>tmgr := tm'\<rparr>) = Inr (Done (- 1), w3)
           \<and> errno w3 = ETIMEDOUT \<and> cb_at (heap (tmgr w3)) (timer_addr env) = None \<and> infos w3 info = None))"
proof -
  let ?w = "w\<lparr>infos := (infos w)(info \<mapsto> 0)\<rparr>" and ?a = "timer_addr env" and ?to = "getTimeout so ctx"
  let ?tm = "snd (addTimer (now_ms env) ?a ?to (Some (TimeoutCb info fd event)) False (tmgr w))"
  obtain m where m: "do_io_retry fc env fd event ?to info (Err EAGAIN # rs) ?w
      = Inr (Blocked (Some ?a) info, ?w\<lparr>errno := EAGAIN, tmgr := ?tm, iom := m\<rparr>)"
    "io_inv m" "kernel_ok m" "posted m = posted (iom w)"
    "m_pendingEventCount m = m_pendingEventCount (iom w) + 1"
    "fd < int (length (m_fdContexts m))" "events (m_fdContexts m ! nat fd) AND event \<noteq> 0"
    "fired event (m_fdContexts m ! nat fd) = [(sch, ft_fiber (Some (this_fiber fc)) (- 1))]"
    by (rule do_io_retry_blocks [of ?w fd event fc sch env ?to info rs])
       (use assms in \<open>simp_all add: add_timeout_def\<close>)
  let ?w1 = "?w\<lparr>errno := EAGAIN, tmgr := ?tm, iom := m\<rparr>"
  obtain m2 where m2: "run_hook_cb sch True (TimeoutCb info fd event) ?w1
      = Inr (?w1\<lparr>infos := (infos ?w1)(info \<mapsto> ETIMEDOUT), iom := m2\<rparr>)"
    "posted m2 = posted m @ fired event (m_fdContexts m ! nat fd)"
    "m_pendingEventCount m = Suc (m_pendingEventCount m2)"
    by (rule run_timeout_cb [of ?w1 fd event info sch]) (use m assms in simp_all)
  let ?w2 = "?w1\<lparr>infos := (infos ?w1)(info \<mapsto> ETIMEDOUT), iom := m2\<rparr>"
  have resume: "\<exists>w3. do_io_resume fc env' fd event ?to (Some ?a) info rs' (?w2\<lparr>tmgr := tm'\<rparr>) = Inr (Done (- 1), w3)
      \<and> errno w3 = ETIMEDOUT \<and> cb_at (heap (tmgr w3)) ?a = None \<and> infos w3 info = None"
    if "tm_inv tm' \<and> heap tm' ?a \<noteq> None" for tm'
    by (rule cancel_timeout_ok [of "?w2\<lparr>tmgr := tm'\<rparr>" ?a])
       (use that in \<open>auto simp: do_io_resume_def ETIMEDOUT_def\<close>)
  have tm: "tm_inv ?tm" "cb_at (heap ?tm) ?a = Some (TimeoutCb info fd event)"
    "next_at (heap ?tm) ?a = now_ms env + ?to"
    using tm_inv_addTimer [OF assms(3,16)] by (auto simp: addTimer_def cb_at_def new_Timer_def)
  have "do_io True fc env fd event so info (Err EAGAIN # rs) w = Inr (Blocked (Some ?a) info, ?w1)"
    using do_io_managed [OF assms(4-9)] m(1) by simp
  then show ?thesis
    using m(4,5,8) m2 resume tm by (intro exI [of _ ?w1] exI [of _ ?w2]) simp
qed

theorem do_io_timeout_witness:
  "\<exists>w1. do_io True \<lparr>this_scheduler = Some 1, this_fiber = 7, this_state = EXEC\<rparr>
      \<lparr>ctl_ok = True, now_ms = 100, timer_addr = 5\<rparr> 3 READ SO_RCVTIMEO 9 [Err EAGAIN]
      \<lparr>fdm = new_FdManager[3 := Some (setTimeout SO_RCVTIMEO 500 (fst (new_FdCtx 3 [3 \<mapsto> 2])))],
       flags = [3 \<mapsto> 2], iom = new_IOManager, tmgr = new_TimerManager 0, infos = Map.empty, errno = 0\<rparr>
    = Inr (Blocked (Some 5) 9, w1)"
proof -
  have c: "new_FdManager[3 := x] ! 3 = x" "length new_FdManager = 64" for x
    by (simp_all add: new_FdManager_def)
  have h: "heap (new_TimerManager 0) 5 = None" by (simp add: new_TimerManager_def)
  have e: "events (m_fdContexts new_IOManager ! 3) = 0"
    by (simp add: new_IOManager_def contextResize_def new_FdContext_def NONE_def)
  let ?ctx = "setTimeout SO_RCVTIMEO 500 (fst (new_FdCtx 3 [3 \<mapsto> 2]))"
  have x: "m_isSocket ?ctx" "\<not> m_isClosed ?ctx" "\<not> m_userNonblock ?ctx"
    "getTimeout SO_RCVTIMEO ?ctx = 500"
    by (simp_all add: setTimeout_def getTimeout_def)
  let ?fc = "\<lparr>this_scheduler = Some 1, this_fiber = 7, this_state = EXEC\<rparr>"
  let ?env = "\<lparr>ctl_ok = True, now_ms = 100, timer_addr = 5\<rparr>"
  let ?w = "\<lparr>fdm = new_FdManager[3 := Some ?ctx], flags = [3 \<mapsto> 2], iom = new_IOManager,
    tmgr = new_TimerManager 0, infos = Map.empty, errno = 0\<rparr>"
  show ?thesis
    using do_io_timeout [of ?w 3 ?ctx SO_RCVTIMEO READ ?fc 1 ?env 9 "[]" ?env "[]"]
      io_reachable_invs [OF io_new] tm_inv_new [of 0]
    by (auto simp: c e x h)
qed



lemma word_bit_not: "bit (NOT x) n \<longleftrightarrow> n < LENGTH('a) \<and> \<not> bit x n" for x :: "'a :: len word"
  by (simp add: bit_not_iff)

text \<open>The bit \<open>O_NONBLOCK\<close>, which is one of those that \<open>F_SETFL\<close> may change.\<close>

lemma bit_O_NONBLOCK: "bit O_NONBLOCK n \<longleftrightarrow> n = 11"
proof -
  have b: "O_NONBLOCK = push_bit 11 1" by (simp add: O_NONBLOCK_def push_bit_eq_mult)
  show ?thesis unfolding b by (simp only: bit_push_bit_iff bit_1_iff possible_bit_word) auto
qed

lemma bit_SETFL_MASK: "bit SETFL_MASK 11"
  by (simp add: SETFL_MASK_def bit_O_NONBLOCK bit_or_iff)

text \<open>
  C25: the flags of a managed socket. A program that sets them reads back exactly what the kernel by itself would keep of
  them, the access mode and the bit \<open>O_NONBLOCK\<close> included, while the kernel's own flags always have \<open>O_NONBLOCK\<close>; the bit
  decides whether later calls go straight to the kernel.
\<close>

theorem fcntl_round_trip:
  assumes "0 \<le> fd" "fd < int (length (fdm w))" "fdm w ! nat fd = Some ctx"
    "m_isSocket ctx" "\<not> m_isClosed ctx" "m_sysNonblock ctx" "flags w fd = Some f"
  shows "\<exists>w' k. fcntl_setfl fd arg (Ret 0) w = Inr (0, w') \<and> flags w' fd = Some k \<and> k AND O_NONBLOCK \<noteq> 0
    \<and> fcntl_getfl fd w' = Inr (kernel_setfl f arg, w')
    \<and> (arg AND O_NONBLOCK \<noteq> 0 \<longrightarrow> do_io True fc env fd event so info rs w' = Inr (passthrough rs w'))"
proof -
  let ?c = "ctx\<lparr>m_userNonblock := arg AND O_NONBLOCK \<noteq> 0\<rparr>" and ?k = "kernel_setfl f (arg OR O_NONBLOCK)"
  let ?w = "w\<lparr>fdm := (fdm w)[nat fd := Some ?c], flags := (flags w)(fd \<mapsto> ?k)\<rparr>"
  have n: "nat fd < length (fdm w)" using assms(1,2) by simp
  have set: "fcntl_setfl fd arg (Ret 0) w = Inr (0, ?w)"
    using assms n by (simp add: fcntl_setfl_def managed_def fdm_get_found update_ctx_def take_ret_def Let_def)
  have g: "fdm_get fd False (flags ?w) (fdm ?w) = Inr (Some ?c, flags ?w, fdm ?w)"
    using assms n by (intro fdm_get_found) simp_all
  have b: "O_NONBLOCK = push_bit 11 1" by (simp add: O_NONBLOCK_def push_bit_eq_mult)
  have bit: "x AND O_NONBLOCK \<noteq> 0 \<longleftrightarrow> bit x 11" for x unfolding b by (simp only: bit_iff_and_push_bit_not_eq_0)
  note on_bits = kernel_setfl_def bit_O_NONBLOCK bit_SETFL_MASK bit_or_iff bit_and_iff word_bit_not
  have on: "?k OR O_NONBLOCK = kernel_setfl f arg" if "bit arg 11"
    by (rule bit_word_eqI) (use that in \<open>auto simp: on_bits\<close>)
  have off: "?k AND NOT O_NONBLOCK = kernel_setfl f arg" if "\<not> bit arg 11"
    by (rule bit_word_eqI) (use that in \<open>auto simp: on_bits\<close>)
  have "?k AND O_NONBLOCK \<noteq> 0" unfolding bit by (simp add: on_bits)
  moreover have "fcntl_getfl fd ?w = Inr (kernel_setfl f arg, ?w)"
    using assms g on off bit by (auto simp: fcntl_getfl_def managed_def)
  moreover have "do_io True fc env fd event so info rs ?w = Inr (passthrough rs ?w)" if "arg AND O_NONBLOCK \<noteq> 0"
    using assms g that by (simp add: do_io_def)
  ultimately show ?thesis using set by (intro exI [of _ ?w] exI [of _ ?k]) simp
qed

text \<open>A socket is open for reading and writing; a program sets \<open>O_NONBLOCK\<close> alone and reads it back with \<open>O_RDWR\<close>.\<close>

theorem fcntl_round_trip_witness:
  "\<exists>w'. fcntl_setfl 3 0x800 (Ret 0)
      \<lparr>fdm = new_FdManager[3 := Some (fst (new_FdCtx 3 [3 \<mapsto> 2]))], flags = [3 \<mapsto> 2], iom = new_IOManager,
       tmgr = new_TimerManager 0, infos = Map.empty, errno = 0\<rparr> = Inr (0, w')
    \<and> fcntl_getfl 3 w' = Inr (0x802, w')"
proof -
  let ?w = "\<lparr>fdm = new_FdManager[3 := Some (fst (new_FdCtx 3 [3 \<mapsto> 2]))], flags = [3 \<mapsto> 2], iom = new_IOManager,
       tmgr = new_TimerManager 0, infos = Map.empty, errno = 0\<rparr>"
  have "new_FdManager[3 := x] ! 3 = x" "length (new_FdManager[3 := x]) = 64" for x
    by (simp_all add: new_FdManager_def)
  moreover have "kernel_setfl 2 0x800 = 0x802" by (simp add: kernel_setfl_def SETFL_MASK_def O_NONBLOCK_def)
  ultimately show ?thesis
    using fcntl_round_trip [of 3 ?w "fst (new_FdCtx 3 [3 \<mapsto> 2])" 2 "0x800"
      "\<lparr>this_scheduler = None, this_fiber = 7, this_state = EXEC\<rparr>"
      "\<lparr>ctl_ok = True, now_ms = 0, timer_addr = 5\<rparr>" READ SO_RCVTIMEO 9 "[]"] by auto
qed

text \<open>
  C24: closing a managed descriptor wakes everything that waits on it, once each, and forgets the
  descriptor in the event table and in the descriptor table before the kernel closes it.
\<close>

theorem close_wakes:
  assumes "io_inv (iom w)" "kernel_ok (iom w)" "0 \<le> fd" "fd < int (length (m_fdContexts (iom w)))"
    "fd < int (length (fdm w))" "fdm w ! nat fd \<noteq> None" "this_scheduler fc \<noteq> None"
  shows "\<exists>w'. hook_close True fc True fd (Ret 0) w = Inr (0, w')
    \<and> posted (iom w') = posted (iom w)
        @ fired (events (m_fdContexts (iom w) ! nat fd)) (m_fdContexts (iom w) ! nat fd)
    \<and> events (m_fdContexts (iom w') ! nat fd) = 0 \<and> io_inv (iom w')
    \<and> fdm_get fd False (flags w') (fdm w') = Inr (None, flags w', fdm w')"
proof -
  let ?c = "m_fdContexts (iom w) ! nat fd"
  obtain ctx where ctx: "fdm w ! nat fd = Some ctx" using assms(6) by auto
  obtain r m where m: "cancelAll True fd (iom w) = Inr (r, m)" "io_inv m" "events (m_fdContexts m ! nat fd) = 0"
    "posted m = posted (iom w) @ fired (events ?c) ?c"
  proof (cases "events ?c = 0")
    case True
    then have "cancelAll True fd (iom w) = Inr (False, iom w)"
      using assms(3,4) by (simp add: cancelAll_def context_at_def)
    then show ?thesis using True assms(1) by (intro that [of False "iom w"]) (simp_all add: fired_def)
  next
    case False
    then show ?thesis using cancelAll_ok [OF assms(1-4) refl False] that by blast
  qed
  have "hook_close True fc True fd (Ret 0) w = Inr (0, w\<lparr>iom := m, fdm := (fdm w)[nat fd := None]\<rparr>)"
    using assms(3,5,7) ctx m(1)
    by (auto simp: hook_close_def fdm_get_found fdm_del_def fd_put_def take_ret_def)
  then show ?thesis
    using m assms(3,5) by (intro exI [of _ "w\<lparr>iom := m, fdm := (fdm w)[nat fd := None]\<rparr>"])
      (simp add: fdm_get_def fd_at_def)
qed

theorem close_wakes_witness:
  "\<exists>w'. hook_close True \<lparr>this_scheduler = Some 1, this_fiber = 7, this_state = EXEC\<rparr> True 3 (Ret 0)
      \<lparr>fdm = new_FdManager[3 := Some (fst (new_FdCtx 3 [3 \<mapsto> 2]))], flags = [3 \<mapsto> 2], iom = new_IOManager,
       tmgr = new_TimerManager 0, infos = Map.empty, errno = 0\<rparr> = Inr (0, w')"
proof -
  let ?w = "\<lparr>fdm = new_FdManager[3 := Some (fst (new_FdCtx 3 [3 \<mapsto> 2]))], flags = [3 \<mapsto> 2], iom = new_IOManager,
       tmgr = new_TimerManager 0, infos = Map.empty, errno = 0\<rparr>"
  have "new_FdManager[3 := x] ! 3 = x" "length (new_FdManager[3 := x]) = 64" for x
    by (simp_all add: new_FdManager_def)
  moreover have "length (m_fdContexts new_IOManager) = 32" by (simp add: new_IOManager_def contextResize_def)
  ultimately show ?thesis
    using close_wakes [of ?w 3 "\<lparr>this_scheduler = Some 1, this_fiber = 7, this_state = EXEC\<rparr>"]
      io_reachable_invs [OF io_new] by auto
qed

text \<open>
  \<open>sleep\<close> blocks the fiber with a timer of \<open>1000\<close> milliseconds per second, whose callback schedules
  exactly this fiber; from 4294968 seconds on the product wraps and the sleep is too short.
\<close>

theorem sleep_deadline:
  assumes "this_scheduler fc = Some sch" "tm_inv (tmgr w)" "heap (tmgr w) (timer_addr env) = None"
  shows "(\<exists>w'. hook_sleep True fc env (sleep_ms s) rs w = Inr (Blocked (Some (timer_addr env)) 0, w')
      \<and> cb_at (heap (tmgr w')) (timer_addr env) = Some (ScheduleFiber (this_fiber fc))
      \<and> next_at (heap (tmgr w')) (timer_addr env) = now_ms env + sleep_ms s
      \<and> timer_addr env \<in> set (m_timers (tmgr w')))
    \<and> unat (sleep_ms s) = unat s * 1000 mod 2 ^ 32
    \<and> (unat (sleep_ms s) = unat s * 1000 \<longleftrightarrow> unat s \<le> 4294967)"
proof -
  let ?a = "timer_addr env" and ?cb = "ScheduleFiber (this_fiber fc)"
  let ?tm = "snd (addTimer (now_ms env) ?a (sleep_ms s) (Some ?cb) False (tmgr w))"
  have "heap ?tm ?a = Some (new_Timer (now_ms env) (sleep_ms s) (Some ?cb) False)"
    by (simp add: addTimer_def)
  moreover from this have "?a \<in> set (m_timers ?tm)"
    using tm_inv_addTimer [OF assms(2,3), of "now_ms env" "sleep_ms s" "Some ?cb" False]
    by (auto simp: tm_inv_def new_Timer_def)
  moreover have u: "unat (sleep_ms s) = unat s * 1000 mod 2 ^ 32"
    by (simp add: sleep_ms_def unat_mult_lem unat_word_ariths unsigned_ucast_eq take_bit_nat_eq_self_iff)
  moreover have "unat s * 1000 mod 2 ^ 32 = unat s * 1000 \<longleftrightarrow> unat s \<le> 4294967"
    by (subst mod_eq_self_iff_div_eq_0) (auto simp: div_eq_0_iff)
  ultimately show ?thesis
    using assms(1) by (simp add: hook_sleep_def cb_at_def next_at_def new_Timer_def)
qed

theorem sleep_deadline_witness: "unat (sleep_ms 3) = 3000"
  using sleep_deadline [of "\<lparr>this_scheduler = Some 1, this_fiber = 7, this_state = EXEC\<rparr>" 1
    "\<lparr>fdm = [], flags = Map.empty, iom = new_IOManager, tmgr = new_TimerManager 0, infos = Map.empty, errno = 0\<rparr>"
    "\<lparr>ctl_ok = True, now_ms = 100, timer_addr = 5\<rparr>" 3 "[]"] tm_inv_new [of 0]
  by (auto simp: new_TimerManager_def)

end
