(* ===== verification/Util.thy ===== *)
theory Util
  imports Prelude
begin

text \<open>
  String and file-system helpers (\<open>util.h\<close>, \<open>util.cc\<close>). Strings are character lists, a position
  that may be \<open>npos\<close> an option. The file system is a parameter: \<open>Mkdir\<close> takes the system calls it
  makes, and the recursive operations work on the tree \<open>readdir\<close> presents, with the outcome of each
  removal given. The lemmas show that the percent-encoding loops compute their specification and
  that decoding undoes encoding for every string.
\<close>

section \<open>Strings of the C library\<close>

text \<open>What the C functions read of a string.\<close>

definition c_str :: "string \<Rightarrow> string" where
  "c_str s = takeWhile (\<lambda>c. c \<noteq> CHR 0x00) s"

text \<open>\<open>tolower\<close> in the C locale.\<close>

definition tolower :: "char \<Rightarrow> char" where
  "tolower c = (let n = (of_char c :: nat) in if 65 \<le> n \<and> n \<le> 90 then char_of (n + 32) else c)"

text \<open>An unsigned number written to a stream, and the position of a character in a string.\<close>

fun dec :: "nat \<Rightarrow> string" where
  "dec n = (if n < 10 then [char_of (n + 48)] else dec (n div 10) @ [char_of (n mod 10 + 48)])"

definition int_text :: "int \<Rightarrow> string" where
  "int_text n = (if n < 0 then CHR ''-'' # dec (nat (- n)) else dec (nat n))"

declare dec.simps [simp del]

text \<open>A \<open>char\<close> is signed.\<close>

definition schar :: "char \<Rightarrow> int" where
  "schar c = (let n = int (of_char c) in if n < 128 then n else n - 256)"

definition find_char :: "char \<Rightarrow> string \<Rightarrow> nat option" where
  "find_char c s = (let i = length (takeWhile (\<lambda>d. d \<noteq> c) s) in if i < length s then Some i else None)"

text \<open>A decimal number has digits only.\<close>

lemma dec_digits: "c \<in> set (dec n) \<Longrightarrow> 48 \<le> (of_char c :: nat) \<and> (of_char c :: nat) \<le> 57"
proof (induction n rule: dec.induct)
  case (1 n)
  show ?case
  proof (cases "n < 10")
    case True
    then show ?thesis using 1(2) by (simp add: dec.simps [of n] of_char_of)
  next
    case False
    then have "c \<in> set (dec (n div 10)) \<or> c = char_of (n mod 10 + 48)" using 1(2) by (auto simp: dec.simps [of n])
    moreover have "n mod 10 < 10" by simp
    ultimately show ?thesis using 1(1) [OF False] by (auto simp: of_char_of)
  qed
qed

lemma dec_nonempty: "dec n \<noteq> []"
  by (simp add: dec.simps [of n])

definition digits_value :: "string \<Rightarrow> int" where
  "digits_value ds = foldl (\<lambda>n c. n * 10 + (of_char c - 48)) 0 ds"

lemma of_char_int: "k < 256 \<Longrightarrow> (of_char (char_of k) :: int) = int k"
  using of_nat_of_char [of "char_of k :: char", where ?'a = int] by (simp add: of_char_of)

lemma dec_value: "digits_value (dec n) = int n"
proof (induction n rule: dec.induct)
  case (1 n)
  show ?case
  proof (cases "n < 10")
    case True
    then show ?thesis by (simp add: dec.simps [of n] digits_value_def of_char_int)
  next
    case False
    have "n mod 10 < 10" by simp
    then have d: "(of_char (char_of (n mod 10 + 48)) :: int) = int (n mod 10) + 48" by (subst of_char_int) auto
    show ?thesis using 1 [OF False] False d zdiv_int [of n 10] zmod_int [of n 10] by (simp add: dec.simps [of n] digits_value_def)
  qed
qed

section \<open>Percent escapes\<close>

definition hex_keys :: "int list" where
  "hex_keys = [48..57] @ [65..70] @ [97..102]"

text \<open>Text over a class of characters, in which every percent sign is followed by two hexadecimal digits.\<close>

fun text_ok :: "(int \<Rightarrow> bool) \<Rightarrow> string \<Rightarrow> bool" where
  "text_ok P [] = True"
| "text_ok P (c # cs) =
     (if c = CHR ''%'' then (case cs of h # l # r \<Rightarrow> schar h \<in> set hex_keys \<and> schar l \<in> set hex_keys \<and> text_ok P r | _ \<Rightarrow> False)
      else P (schar c) \<and> text_ok P cs)"

lemma schar_inj: "schar c = schar d \<longleftrightarrow> c = d"
proof -
  have "of_char c < (256 :: nat)" "of_char d < (256 :: nat)" by simp_all
  then have "schar c = schar d \<longleftrightarrow> (of_char c :: nat) = of_char d"
    unfolding schar_def Let_def by (split if_split, split if_split) linarith
  then show ?thesis by simp
qed

lemma schar_percent [simp]: "schar (CHR ''%'') = 37"
  by (simp add: schar_def)

lemma text_ok_induct [consumes 1, case_names Nil Percent Plain]:
  assumes "text_ok P w" "R []"
    "\<And>h l r. schar h \<in> set hex_keys \<Longrightarrow> schar l \<in> set hex_keys \<Longrightarrow> text_ok P r \<Longrightarrow> R r \<Longrightarrow> R (CHR ''%'' # h # l # r)"
    "\<And>c r. c \<noteq> CHR ''%'' \<Longrightarrow> P (schar c) \<Longrightarrow> text_ok P r \<Longrightarrow> R r \<Longrightarrow> R (c # r)"
  shows "R w"
  using assms
  by (induction P w rule: text_ok.induct) (auto split: if_splits list.splits)

section \<open>Percent encoding\<close>

text \<open>The two tables, entry for entry.\<close>

definition uri_chars :: "nat list" where
  "uri_chars =
    [0, 0, 0, 0, 0, 0, 0, 0, 0, 0, 0, 0, 0, 0, 0, 0, 0, 0, 0, 0, 0, 0, 0, 0, 0, 0, 0, 0, 0, 0, 0, 0,
     0, 0, 0, 0, 0, 0, 0, 0, 0, 0, 0, 0, 0, 1, 1, 0, 1, 1, 1, 1, 1, 1, 1, 1, 1, 1, 0, 0, 0, 1, 0, 0,
     0, 1, 1, 1, 1, 1, 1, 1, 1, 1, 1, 1, 1, 1, 1, 1, 1, 1, 1, 1, 1, 1, 1, 1, 1, 1, 1, 0, 0, 0, 0, 1,
     0, 1, 1, 1, 1, 1, 1, 1, 1, 1, 1, 1, 1, 1, 1, 1, 1, 1, 1, 1, 1, 1, 1, 1, 1, 1, 1, 0, 0, 0, 1, 0,
     0, 0, 0, 0, 0, 0, 0, 0, 0, 0, 0, 0, 0, 0, 0, 0, 0, 0, 0, 0, 0, 0, 0, 0, 0, 0, 0, 0, 0, 0, 0, 0,
     0, 0, 0, 0, 0, 0, 0, 0, 0, 0, 0, 0, 0, 0, 0, 0, 0, 0, 0, 0, 0, 0, 0, 0, 0, 0, 0, 0, 0, 0, 0, 0,
     0, 0, 0, 0, 0, 0, 0, 0, 0, 0, 0, 0, 0, 0, 0, 0, 0, 0, 0, 0, 0, 0, 0, 0, 0, 0, 0, 0, 0, 0, 0, 0,
     0, 0, 0, 0, 0, 0, 0, 0, 0, 0, 0, 0, 0, 0, 0, 0, 0, 0, 0, 0, 0, 0, 0, 0, 0, 0, 0, 0, 0, 0, 0, 0]"

definition XDIGIT_CHARS :: "nat list" where
  "XDIGIT_CHARS =
    [0, 0, 0, 0, 0, 0, 0, 0, 0, 0, 0, 0, 0, 0, 0, 0, 0, 0, 0, 0, 0, 0, 0, 0, 0, 0, 0, 0, 0, 0, 0, 0,
     0, 0, 0, 0, 0, 0, 0, 0, 0, 0, 0, 0, 0, 0, 0, 0, 0, 1, 2, 3, 4, 5, 6, 7, 8, 9, 0, 0, 0, 0, 0, 0,
     0, 10, 11, 12, 13, 14, 15, 0, 0, 0, 0, 0, 0, 0, 0, 0, 0, 0, 0, 0, 0, 0, 0, 0, 0, 0, 0, 0, 0, 0, 0, 0,
     0, 10, 11, 12, 13, 14, 15, 0, 0, 0, 0, 0, 0, 0, 0, 0, 0, 0, 0, 0, 0, 0, 0, 0, 0, 0, 0, 0, 0, 0, 0, 0,
     0, 0, 0, 0, 0, 0, 0, 0, 0, 0, 0, 0, 0, 0, 0, 0, 0, 0, 0, 0, 0, 0, 0, 0, 0, 0, 0, 0, 0, 0, 0, 0,
     0, 0, 0, 0, 0, 0, 0, 0, 0, 0, 0, 0, 0, 0, 0, 0, 0, 0, 0, 0, 0, 0, 0, 0, 0, 0, 0, 0, 0, 0, 0, 0,
     0, 0, 0, 0, 0, 0, 0, 0, 0, 0, 0, 0, 0, 0, 0, 0, 0, 0, 0, 0, 0, 0, 0, 0, 0, 0, 0, 0, 0, 0, 0, 0,
     0, 0, 0, 0, 0, 0, 0, 0, 0, 0, 0, 0, 0, 0, 0, 0, 0, 0, 0, 0, 0, 0, 0, 0, 0, 0, 0, 0, 0, 0, 0, 0]"

definition hexdigits :: string where
  "hexdigits = ''0123456789ABCDEF''"

definition CHAR_IS_UNRESERVED :: "char \<Rightarrow> bool" where
  "CHAR_IS_UNRESERVED c \<longleftrightarrow> uri_chars ! of_char c \<noteq> 0"

text \<open>\<open>isxdigit\<close> of the C library.\<close>

definition isxdigit :: "char \<Rightarrow> bool" where
  "isxdigit c \<longleftrightarrow> c \<in> set ''0123456789abcdefABCDEF''"

text \<open>
  The loop of \<open>UrlEncode\<close>: \<open>pre\<close> is the part of the string already passed, \<open>ss\<close> the output, not
  allocated (\<open>None\<close>) until the first character that needs encoding.
\<close>

fun url_encode_loop :: "bool \<Rightarrow> string \<Rightarrow> string option \<Rightarrow> string \<Rightarrow> string option" where
  "url_encode_loop space_as_plus pre ss [] = ss"
| "url_encode_loop space_as_plus pre ss (c # cs) =
     (if \<not> CHAR_IS_UNRESERVED c then
        let s = (case ss of None \<Rightarrow> pre | Some s \<Rightarrow> s);
            s = (if c = CHR '' '' \<and> space_as_plus then s @ ''+''
                 else s @ [CHR ''%'', hexdigits ! (of_char c div 16), hexdigits ! (of_char c mod 16)])
        in url_encode_loop space_as_plus (pre @ [c]) (Some s) cs
      else url_encode_loop space_as_plus (pre @ [c]) (map_option (\<lambda>s. s @ [c]) ss) cs)"

definition UrlEncode :: "string \<Rightarrow> bool \<Rightarrow> string" where
  "UrlEncode str space_as_plus =
     (case url_encode_loop space_as_plus [] None str of None \<Rightarrow> str | Some ss \<Rightarrow> ss)"

fun url_decode_loop :: "bool \<Rightarrow> string \<Rightarrow> string option \<Rightarrow> string \<Rightarrow> string option" where
  "url_decode_loop space_as_plus pre ss [] = ss"
| "url_decode_loop space_as_plus pre ss (c # cs) =
     (let s = (case ss of None \<Rightarrow> pre | Some s \<Rightarrow> s) in
      if c = CHR ''+'' \<and> space_as_plus then
        url_decode_loop space_as_plus (pre @ [c]) (Some (s @ '' '')) cs
      else (case cs of
          h # l # rest \<Rightarrow>
            if c = CHR ''%'' \<and> isxdigit h \<and> isxdigit l then
              url_decode_loop space_as_plus (pre @ [c, h, l])
                (Some (s @ [char_of (push_bit 4 (XDIGIT_CHARS ! of_char h)
                              OR XDIGIT_CHARS ! of_char l :: nat)])) rest
            else url_decode_loop space_as_plus (pre @ [c]) (map_option (\<lambda>s. s @ [c]) ss) cs
        | _ \<Rightarrow> url_decode_loop space_as_plus (pre @ [c]) (map_option (\<lambda>s. s @ [c]) ss) cs))"

definition UrlDecode :: "string \<Rightarrow> bool \<Rightarrow> string" where
  "UrlDecode str space_as_plus =
     (case url_decode_loop space_as_plus [] None str of None \<Rightarrow> str | Some ss \<Rightarrow> ss)"

section \<open>Trimming and paths\<close>

definition find_first_not_of :: "string \<Rightarrow> string \<Rightarrow> nat option" where
  "find_first_not_of str delimit =
     (let i = length (takeWhile (\<lambda>c. c \<in> set delimit) str) in if i = length str then None else Some i)"

definition find_last_not_of :: "string \<Rightarrow> string \<Rightarrow> nat option" where
  "find_last_not_of str delimit =
     (let i = length (takeWhile (\<lambda>c. c \<in> set delimit) (rev str))
      in if i = length str then None else Some (length str - Suc i))"

definition rfind :: "string \<Rightarrow> char \<Rightarrow> nat option" where
  "rfind str c = (let i = length (takeWhile (\<lambda>d. d \<noteq> c) (rev str))
     in if i = length str then None else Some (length str - Suc i))"

definition Trim :: "string \<Rightarrow> string \<Rightarrow> string" where
  "Trim str delimit =
     (case (find_first_not_of str delimit, find_last_not_of str delimit) of
        (Some b, Some e) \<Rightarrow> take (e - b + 1) (drop b str)
      | _ \<Rightarrow> [])"

definition TrimLeft :: "string \<Rightarrow> string \<Rightarrow> string" where
  "TrimLeft str delimit =
     (case find_first_not_of str delimit of None \<Rightarrow> [] | Some b \<Rightarrow> drop b str)"

text \<open>\<open>substr(0, end)\<close> leaves out the last character that is not a delimiter.\<close>

definition TrimRight :: "string \<Rightarrow> string \<Rightarrow> string" where
  "TrimRight str delimit =
     (case find_last_not_of str delimit of None \<Rightarrow> [] | Some e \<Rightarrow> take e str)"

definition Dirname :: "string \<Rightarrow> string" where
  "Dirname filename =
     (if filename = [] then ''.''
      else case rfind filename (CHR ''/'') of
        None \<Rightarrow> ''.''
      | Some p \<Rightarrow> if p = 0 then ''/'' else take p filename)"

definition Basename :: "string \<Rightarrow> string" where
  "Basename filename =
     (if filename = [] then filename
      else case rfind filename (CHR ''/'') of
        None \<Rightarrow> filename
      | Some p \<Rightarrow> drop (p + 1) filename)"

section \<open>The file system\<close>

text \<open>
  \<open>__mkdir\<close> and \<open>Mkdir\<close> over a state \<open>'s\<close> of the file system: \<open>exists s path\<close> is a successful
  \<open>lstat\<close> or \<open>access\<close>, \<open>mkdir path s\<close> the result and effect of \<open>mkdir(2)\<close>. The loop cuts the
  path at each slash after the first character.
\<close>

definition mkdir_one ::
  "('s \<Rightarrow> string \<Rightarrow> bool) \<Rightarrow> (string \<Rightarrow> 's \<Rightarrow> bool \<times> 's) \<Rightarrow> string \<Rightarrow> 's \<Rightarrow> bool \<times> 's" where
  "mkdir_one exists mkdir dirname s = (if exists s dirname then (True, s) else mkdir dirname s)"

fun mkdir_loop ::
  "('s \<Rightarrow> string \<Rightarrow> bool) \<Rightarrow> (string \<Rightarrow> 's \<Rightarrow> bool \<times> 's) \<Rightarrow> string \<Rightarrow> string \<Rightarrow> 's \<Rightarrow> bool \<times> 's" where
  "mkdir_loop exists mkdir pre [] s = mkdir_one exists mkdir pre s"
| "mkdir_loop exists mkdir pre (c # cs) s =
     (if c = CHR ''/'' then
        (case mkdir_one exists mkdir pre s of
           (ok, s) \<Rightarrow> if ok then mkdir_loop exists mkdir (pre @ [c]) cs s else (False, s))
      else mkdir_loop exists mkdir (pre @ [c]) cs s)"

definition Mkdir ::
  "('s \<Rightarrow> string \<Rightarrow> bool) \<Rightarrow> (string \<Rightarrow> 's \<Rightarrow> bool \<times> 's) \<Rightarrow> string \<Rightarrow> 's \<Rightarrow> bool \<times> 's" where
  "Mkdir exists mkdir dirname s =
     (if exists s dirname then (True, s)
      else mkdir_loop exists mkdir (take 1 dirname) (drop 1 dirname) s)"

text \<open>
  What \<open>readdir\<close> and \<open>lstat\<close> show of a path: a regular file, a directory, a file whose mode has
  the bit of \<open>S_IFDIR\<close> set without being a directory (a socket or a block device), or something else.
\<close>

datatype fs_entry = RegFile | OtherFile | DirBitFile | Directory "(string \<times> fs_entry) list"

definition is_dot :: "string \<Rightarrow> bool" where
  "is_dot n \<longleftrightarrow> n = ''.'' \<or> n = ''..''"

definition has_subfix :: "string \<Rightarrow> string \<Rightarrow> bool" where
  "has_subfix filename subfix \<longleftrightarrow>
     subfix = [] \<or> (length subfix \<le> length filename
        \<and> drop (length filename - length subfix) filename = subfix)"

fun ListAllFile :: "string \<Rightarrow> string \<Rightarrow> fs_entry \<Rightarrow> string list" and
    list_entries :: "string \<Rightarrow> string \<Rightarrow> (string \<times> fs_entry) list \<Rightarrow> string list" where
  "ListAllFile path subfix (Directory es) = list_entries path subfix es"
| "ListAllFile path subfix _ = []"
| "list_entries path subfix [] = []"
| "list_entries path subfix ((name, e) # es) =
     (case e of
        Directory _ \<Rightarrow> if is_dot name then [] else ListAllFile (path @ ''/'' @ name) subfix e
      | RegFile \<Rightarrow> if has_subfix name subfix then [path @ ''/'' @ name] else []
      | _ \<Rightarrow> []) @ list_entries path subfix es"

text \<open>
  \<open>Rm\<close> on what is at a path: the value returned and what is left there. \<open>opens p\<close> and \<open>permits p\<close>
  say whether \<open>opendir\<close> and the removal of \<open>p\<close> are allowed; \<open>rmdir\<close> also fails on a directory
  that is not empty, and \<open>opendir\<close> on what is not a directory. The result of each entry overwrites
  the one before.
\<close>

fun rm_entry :: "(string \<Rightarrow> bool) \<Rightarrow> (string \<Rightarrow> bool) \<Rightarrow> string \<Rightarrow> fs_entry \<Rightarrow> bool \<times> fs_entry option" and
    rm_entries :: "(string \<Rightarrow> bool) \<Rightarrow> (string \<Rightarrow> bool) \<Rightarrow> string \<Rightarrow> bool \<Rightarrow> (string \<times> fs_entry) list \<Rightarrow>
      bool \<times> (string \<times> fs_entry) list" where
  "rm_entry opens permits path (Directory es) =
     (if \<not> opens path then (False, Some (Directory es))
      else case rm_entries opens permits path True es of (ret, left) \<Rightarrow>
        if permits path \<and> (\<forall>x \<in> set left. is_dot (fst x)) then (ret, None)
        else (False, Some (Directory left)))"
| "rm_entry opens permits path DirBitFile = (False, Some DirBitFile)"
| "rm_entry opens permits path e = (if permits path then (True, None) else (False, Some e))"
| "rm_entries opens permits path ret [] = (ret, [])"
| "rm_entries opens permits path ret ((name, e) # es) =
     (if is_dot name then
        (case rm_entries opens permits path ret es of (ret, left) \<Rightarrow> (ret, (name, e) # left))
      else case rm_entry opens permits (path @ ''/'' @ name) e of
        (ret, None) \<Rightarrow> rm_entries opens permits path ret es
      | (ret, Some e) \<Rightarrow>
          (case rm_entries opens permits path ret es of (ret, left) \<Rightarrow> (ret, (name, e) # left)))"

definition Rm :: "(string \<Rightarrow> bool) \<Rightarrow> (string \<Rightarrow> bool) \<Rightarrow> string \<Rightarrow> fs_entry option \<Rightarrow> bool \<times> fs_entry option" where
  "Rm opens permits path e =
     (case e of None \<Rightarrow> (True, None) | Some e \<Rightarrow> rm_entry opens permits path e)"

text \<open>\<open>Mv\<close>: what is at \<open>to\<close> is removed first; the move itself is \<open>renames\<close>.\<close>

definition Mv :: "(string \<Rightarrow> bool) \<Rightarrow> (string \<Rightarrow> bool) \<Rightarrow> bool \<Rightarrow> fs_entry option \<Rightarrow> string \<Rightarrow> fs_entry option \<Rightarrow>
    bool \<times> fs_entry option \<times> fs_entry option" where
  "Mv opens permits renames src to dst =
     (case Rm opens permits to dst of (ok, dst) \<Rightarrow>
        if \<not> ok then (False, src, dst)
        else if src = None \<or> \<not> renames then (False, src, dst) else (True, None, src))"

section \<open>Encoding and decoding, one character at a time\<close>

definition encode_char :: "bool \<Rightarrow> char \<Rightarrow> string" where
  "encode_char sp c =
     (if CHAR_IS_UNRESERVED c then [c]
      else if c = CHR '' '' \<and> sp then ''+''
      else [CHR ''%'', hexdigits ! (of_char c div 16), hexdigits ! (of_char c mod 16)])"

fun decode_string :: "bool \<Rightarrow> string \<Rightarrow> string" where
  "decode_string sp [] = []"
| "decode_string sp (c # cs) =
     (if c = CHR ''+'' \<and> sp then CHR '' '' # decode_string sp cs
      else case cs of
        h # l # rest \<Rightarrow>
          if c = CHR ''%'' \<and> isxdigit h \<and> isxdigit l
          then char_of (push_bit 4 (XDIGIT_CHARS ! of_char h) OR XDIGIT_CHARS ! of_char l :: nat)
            # decode_string sp rest
          else c # decode_string sp cs
      | _ \<Rightarrow> c # decode_string sp cs)"

declare url_decode_loop.simps(2) [simp del] decode_string.simps(2) [simp del]

lemma url_decode_steps:
  "c = CHR ''+'' \<and> sp \<Longrightarrow> url_decode_loop sp pre ss (c # cs)
     = url_decode_loop sp (pre @ [c]) (Some ((case ss of None \<Rightarrow> pre | Some s \<Rightarrow> s) @ '' '')) cs"
  "isxdigit h \<and> isxdigit l \<Longrightarrow> url_decode_loop sp pre ss (CHR ''%'' # h # l # cs)
     = url_decode_loop sp (pre @ [CHR ''%'', h, l])
         (Some ((case ss of None \<Rightarrow> pre | Some s \<Rightarrow> s)
            @ [char_of (push_bit 4 (XDIGIT_CHARS ! of_char h) OR XDIGIT_CHARS ! of_char l :: nat)])) cs"
  "\<not> (c = CHR ''+'' \<and> sp) \<Longrightarrow>
   \<nexists>h l rest. cs = h # l # rest \<and> c = CHR ''%'' \<and> isxdigit h \<and> isxdigit l \<Longrightarrow>
   url_decode_loop sp pre ss (c # cs)
     = url_decode_loop sp (pre @ [c]) (map_option (\<lambda>s. s @ [c]) ss) cs"
  by (auto simp: url_decode_loop.simps(2) [of _ _ _ c] url_decode_loop.simps(2) [of _ _ _ "CHR ''%''"]
      url_decode_loop.simps(2) [of _ _ _ "CHR ''+''"] Let_def split: list.split)

lemma decode_steps:
  "c = CHR ''+'' \<and> sp \<Longrightarrow> decode_string sp (c # cs) = CHR '' '' # decode_string sp cs"
  "isxdigit h \<and> isxdigit l \<Longrightarrow> decode_string sp (CHR ''%'' # h # l # cs)
     = char_of (push_bit 4 (XDIGIT_CHARS ! of_char h) OR XDIGIT_CHARS ! of_char l :: nat)
       # decode_string sp cs"
  "\<not> (c = CHR ''+'' \<and> sp) \<Longrightarrow>
   \<nexists>h l rest. cs = h # l # rest \<and> c = CHR ''%'' \<and> isxdigit h \<and> isxdigit l \<Longrightarrow>
   decode_string sp (c # cs) = c # decode_string sp cs"
  by (auto simp: decode_string.simps(2) [of _ c] decode_string.simps(2) [of _ "CHR ''%''"]
      decode_string.simps(2) [of _ "CHR ''+''"] split: list.split)

lemma url_encode_loop_eq:
  "url_encode_loop sp pre ss cs =
     (case ss of
        Some s \<Rightarrow> Some (s @ concat (map (encode_char sp) cs))
      | None \<Rightarrow> if list_all CHAR_IS_UNRESERVED cs then None
                else Some (pre @ concat (map (encode_char sp) cs)))"
proof (induction sp pre ss cs rule: url_encode_loop.induct)
  case (2 sp pre ss c cs)
  show ?case
    using 2 by (cases ss) (auto simp: encode_char_def Let_def)
qed (auto split: option.splits)

lemma UrlEncode_eq: "UrlEncode str sp = concat (map (encode_char sp) str)"
proof (cases "list_all CHAR_IS_UNRESERVED str")
  case True
  then have "concat (map (encode_char sp) str) = str"
    by (induction str) (auto simp: encode_char_def)
  then show ?thesis using True by (simp add: UrlEncode_def url_encode_loop_eq)
qed (simp add: UrlEncode_def url_encode_loop_eq)

text \<open>While nothing has been decoded the output is the prefix passed; then it is kept up.\<close>

lemma url_decode_loop_eq:
  "(case url_decode_loop sp pre ss cs of None \<Rightarrow> pre @ cs | Some s \<Rightarrow> s) =
   (case ss of None \<Rightarrow> pre | Some s \<Rightarrow> s) @ decode_string sp cs"
proof (induction "length cs" arbitrary: pre ss cs rule: less_induct)
  case less
  show ?case
  proof (cases cs)
    case (Cons c cs')
    consider (space) "c = CHR ''+'' \<and> sp"
      | (hex) h l rest where "\<not> (c = CHR ''+'' \<and> sp)" "cs' = h # l # rest"
          "c = CHR ''%'' \<and> isxdigit h \<and> isxdigit l"
      | (plain) "\<not> (c = CHR ''+'' \<and> sp)"
          "\<nexists>h l rest. cs' = h # l # rest \<and> c = CHR ''%'' \<and> isxdigit h \<and> isxdigit l"
      by blast
    then show ?thesis
    proof cases
      case space
      then show ?thesis using Cons less [of cs' "pre @ [c]"]
        by (simp add: url_decode_steps(1) decode_steps(1) cong: option.case_cong)
    next
      case hex
      then show ?thesis using Cons less [of rest "pre @ [c, h, l]"]
        by (simp add: url_decode_steps(2) decode_steps(2) cong: option.case_cong)
    next
      case plain
      then show ?thesis using Cons less [of cs' "pre @ [c]" "map_option (\<lambda>s. s @ [c]) ss"]
        by (cases ss) (simp_all add: url_decode_steps(3) decode_steps(3) cong: option.case_cong)
    qed
  qed (simp split: option.splits)
qed

lemma UrlDecode_eq: "UrlDecode str sp = decode_string sp str"
  using url_decode_loop_eq [where pre = "[]" and ss = None]
  by (simp add: UrlDecode_def cong: option.case_cong)

text \<open>Two hex digits carry a character.\<close>

lemma hexdigits_table:
  "list_all (\<lambda>n. isxdigit (hexdigits ! n) \<and> XDIGIT_CHARS ! of_char (hexdigits ! n) = n) [0..<16]"
  by code_simp

lemma hexdigit:
  assumes "n < 16"
  shows "isxdigit (hexdigits ! n)" "XDIGIT_CHARS ! of_char (hexdigits ! n) = n"
  using assms hexdigits_table by (auto simp: list_all_iff)

lemma reserved_table: "uri_chars ! 37 = 0 \<and> uri_chars ! 43 = 0"
  by code_simp

lemma reserved:
  "\<not> CHAR_IS_UNRESERVED (CHR ''%'')" "\<not> CHAR_IS_UNRESERVED (CHR ''+'')"
  using reserved_table by (simp_all add: CHAR_IS_UNRESERVED_def)

lemma nibble_bounds: "of_char c div 16 < (16 :: nat)" "of_char c mod 16 < (16 :: nat)"
  by (auto intro: less_mult_imp_div_less)

lemma nibbles: "b < 16 \<Longrightarrow> push_bit 4 a OR b = 16 * a + (b :: nat)"
proof -
  assume "b < 16"
  then have "take_bit 4 b = b" by (simp add: take_bit_nat_eq_self)
  then have "\<And>n. \<not> bit (push_bit 4 a) n \<or> \<not> bit b n"
    by (metis bit_push_bit_iff_nat bit_take_bit_iff not_less)
  then have "push_bit 4 a OR b = push_bit 4 a + b" by (simp add: disjunctive_add)
  then show ?thesis by (simp add: push_bit_eq_mult)
qed

lemma decode_encode_char: "decode_string sp (encode_char sp c @ rest) = c # decode_string sp rest"
proof -
  have c: "of_char c div 16 < (16 :: nat)" "of_char c mod 16 < (16 :: nat)"
    by (rule nibble_bounds)+
  have "char_of (16 * (of_char c div 16) + of_char c mod 16 :: nat) = c"
    by (simp only: mult_div_mod_eq char_of_char)
  then show ?thesis
    using hexdigit [OF c(1)] hexdigit [OF c(2)] c reserved decode_steps(3) [of c sp rest]
    by (cases "CHAR_IS_UNRESERVED c") (auto simp: encode_char_def nibbles decode_steps(1,2))
qed

section \<open>Positions in strings\<close>

lemma url_decode_encode: "UrlDecode (UrlEncode str sp) sp = str"
  unfolding UrlEncode_eq UrlDecode_eq by (induction str) (simp_all add: decode_encode_char)

lemma UrlEncode_chars:
  "set (UrlEncode str sp) \<subseteq> {c. CHAR_IS_UNRESERVED c} \<union> set hexdigits \<union> {CHR ''%'', CHR ''+''}"
proof -
  have "of_char c div 16 < length hexdigits" "of_char c mod 16 < length hexdigits" for c
    using nibble_bounds [of c] by (simp_all add: hexdigits_def)
  then show ?thesis
    unfolding UrlEncode_eq by (auto simp: encode_char_def intro: nth_mem split: if_splits)
qed

lemma find_char_append:
  "c \<notin> set l \<Longrightarrow> find_char c (l @ c # r) = Some (length l)"
  "c \<notin> set l \<Longrightarrow> find_char c l = None"
proof -
  assume c: "c \<notin> set l"
  have "takeWhile (\<lambda>d. d \<noteq> c) (l @ c # r) = l"
    using c by (induction l) auto
  then show "find_char c (l @ c # r) = Some (length l)" by (simp add: find_char_def)
  have "takeWhile (\<lambda>d. d \<noteq> c) l = l" using c by (subst takeWhile_eq_all_conv) auto
  then have "length (takeWhile (\<lambda>d. d \<noteq> c) l) = length l" by metis
  then show "find_char c l = None" by (simp add: find_char_def)
qed

lemma takeWhile_until: "\<forall>x\<in>set p. P x \<Longrightarrow> \<not> P c \<Longrightarrow> takeWhile P (p @ c # q) = p"
  by (induction p) auto

lemma find_first_not_of_eq:
  "set l \<subseteq> set delimit \<Longrightarrow> c \<notin> set delimit \<Longrightarrow>
   find_first_not_of (l @ c # r) delimit = Some (length l)"
  by (subst find_first_not_of_def, subst takeWhile_until) (auto simp: Let_def)

lemma find_last_not_of_eq:
  assumes "set r \<subseteq> set delimit" "c \<notin> set delimit"
  shows "find_last_not_of (l @ c # r) delimit = Some (length l)"
proof -
  have "takeWhile (\<lambda>c. c \<in> set delimit) (rev r @ c # rev l) = rev r"
    using assms by (intro takeWhile_until) auto
  then show ?thesis by (simp add: find_last_not_of_def)
qed

lemma rfind_eq:
  assumes "c \<notin> set r"
  shows "rfind (l @ c # r) c = Some (length l)"
proof -
  have "takeWhile (\<lambda>d. d \<noteq> c) (rev r @ c # rev l) = rev r"
    using assms by (intro takeWhile_until) auto
  then show ?thesis by (simp add: rfind_def)
qed

lemma rfind_none:
  assumes "c \<notin> set s"
  shows "rfind s c = None"
proof -
  have "takeWhile (\<lambda>d. d \<noteq> c) (rev s) = rev s"
    using assms by (subst takeWhile_eq_all_conv) auto
  then have "length (takeWhile (\<lambda>d. d \<noteq> c) (rev s)) = length s" by (metis length_rev)
  then show ?thesis by (simp add: rfind_def)
qed

lemma rm_entry_reports:
  "fst (rm_entry opens permits path e) = (snd (rm_entry opens permits path e) = None)"
  "(\<forall>x \<in> set (snd (rm_entries opens permits path ret es)). is_dot (fst x)) \<and> ret
     \<Longrightarrow> fst (rm_entries opens permits path ret es)"
proof (induction opens permits path e and opens permits path ret es rule: rm_entry_rm_entries.induct)
  case (1 opens permits path es)
  then show ?case by (cases "rm_entries opens permits path True es") auto
next
  case (5 opens permits path ret name e es)
  show ?case
  proof (cases "is_dot name")
    case True
    then show ?thesis using 5(1,5) by (auto split: prod.splits)
  next
    case dot: False
    obtain r e' where r: "rm_entry opens permits (path @ ''/'' @ name) e = (r, e')" by fastforce
    show ?thesis
    proof (cases e')
      case None
      then have "r" using 5(2) [OF dot] r by simp
      then show ?thesis using 5(3) [OF dot r [symmetric] None] 5(5) dot r None by simp
    next
      case (Some x)
      then show ?thesis using 5(5) dot r by (auto split: prod.splits)
    qed
  qed
qed auto

section \<open>Properties\<close>

text \<open>
  C26: percent-decoding undoes percent-encoding for every string, whether spaces are written as
  plus signs or not, and the encoded string has only unreserved characters, plus and percent signs.
\<close>

theorem UrlDecode_UrlEncode:
  "UrlDecode (UrlEncode str sp) sp = str
   \<and> set (UrlEncode str sp) \<subseteq> {c. CHAR_IS_UNRESERVED c} \<union> set hexdigits \<union> {CHR ''%'', CHR ''+''}"
  using url_decode_encode UrlEncode_chars by blast

text \<open>
  Of a string whose first and last characters that are not delimiters are \<open>a\<close> and \<open>z\<close>, \<open>Trim\<close>
  keeps what lies between them with both, \<open>TrimLeft\<close> everything from \<open>a\<close> on, and \<open>TrimRight\<close>
  everything before \<open>z\<close> but not \<open>z\<close> itself.
\<close>

theorem Trim_exact:
  assumes "set l \<subseteq> set delimit" "set r \<subseteq> set delimit" "a \<notin> set delimit" "z \<notin> set delimit"
  shows "Trim (l @ a # m @ z # r) delimit = a # m @ [z]
    \<and> TrimLeft (l @ a # m @ z # r) delimit = a # m @ z # r
    \<and> TrimRight (l @ a # m @ z # r) delimit = l @ a # m"
  using find_first_not_of_eq [OF assms(1,3), of "m @ z # r"]
    find_last_not_of_eq [OF assms(2,4), of "l @ a # m"]
  by (simp add: Trim_def TrimLeft_def TrimRight_def)

theorem Trim_exact_witness: "TrimRight ''  ab '' '' '' = ''  a''"
  using Trim_exact [of "''  ''" "'' ''" "'' ''" "CHR ''a''" "CHR ''b''" "[]"] by simp

text \<open>
  A path that ends in a slash and a name without slashes splits into the name and what is before
  the slash, the root directory when nothing is; a name without slashes is in the current directory.
\<close>

theorem Dirname_Basename:
  assumes "CHR ''/'' \<notin> set name"
  shows "Basename (dir @ ''/'' @ name) = name
    \<and> Dirname (dir @ ''/'' @ name) = (if dir = [] then ''/'' else dir)
    \<and> Basename name = name \<and> Dirname name = ''.''"
  using rfind_eq [OF assms, of dir] rfind_none [OF assms]
  by (simp add: Basename_def Dirname_def)

theorem Dirname_Basename_witness:
  "Basename (''/usr/lib'' @ ''/'' @ ''libc'') = ''libc''
   \<and> Dirname (''/usr/lib'' @ ''/'' @ ''libc'') = ''/usr/lib''"
  using Dirname_Basename [of "''libc''" "''/usr/lib''"] by simp

text \<open>
  \<open>Rm\<close> returns true exactly when nothing is left at the path: although the result of each entry
  overwrites that of the one before, a failed removal below keeps the directory from being removed.
  A socket is never removed, because its mode has the directory bit.
\<close>

theorem Rm_reports:
  "fst (Rm opens permits path e) = (snd (Rm opens permits path e) = None)
   \<and> Rm opens permits path (Some DirBitFile) = (False, Some DirBitFile)"
  using rm_entry_reports [of opens permits path] by (simp add: Rm_def split: option.split)

end
