(* ===== verification/Http.thy ===== *)
theory Http
  imports Util StdContainers "HOL-Library.List_Lexorder"
begin

unbundle bit_operations_syntax

text \<open>
  HTTP messages (\<open>http/http.h\<close>, \<open>http/http.cc\<close>). The header, parameter and cookie maps are
  \<open>std::map\<close>s ordered by \<open>CaseInsensitiveLess\<close>; a status is the integer of its enumeration, as the
  response parser stores any integer there. \<open>boost::lexical_cast\<close> is a parameter of the typed
  lookups. The lemmas show that the comparator is a strict weak order whose equivalence is equality
  of the lower-cased C strings, that the maps refine partial functions on these, that parsing a
  query undoes composing it, and what lines a serialised message consists of.
\<close>

section \<open>Strings of the C library\<close>

text \<open>\<open>strcasecmp\<close> in the C locale.\<close>

fun casecmp :: "string \<Rightarrow> string \<Rightarrow> int" where
  "casecmp [] [] = 0"
| "casecmp [] (d # ds) = - of_char (tolower d)"
| "casecmp (c # cs) [] = of_char (tolower c)"
| "casecmp (c # cs) (d # ds) =
     (if tolower c = tolower d then casecmp cs ds else of_char (tolower c) - of_char (tolower d))"

definition strcasecmp :: "string \<Rightarrow> string \<Rightarrow> int" where
  "strcasecmp l r = casecmp (c_str l) (c_str r)"

fun casestr :: "string \<Rightarrow> string \<Rightarrow> bool" where
  "casestr [] needle = (needle = [])"
| "casestr (c # cs) needle =
     (map tolower (take (length needle) (c # cs)) = map tolower needle \<or> casestr cs needle)"

definition strcasestr :: "string \<Rightarrow> string \<Rightarrow> bool" where
  "strcasestr haystack needle = casestr (c_str haystack) needle"

section \<open>Methods and statuses\<close>

datatype HttpMethod =
    DELETE | GET | HEAD | POST | PUT | CONNECT | OPTIONS | TRACE | COPY | LOCK | MKCOL | MOVE | PROPFIND |
    PROPPATCH | SEARCH | UNLOCK | BIND | REBIND | UNBIND | ACL | REPORT | MKACTIVITY | CHECKOUT | MERGE |
    MSEARCH | NOTIFY | SUBSCRIBE | UNSUBSCRIBE | PATCH | PURGE | MKCALENDAR | LINK | UNLINK | SOURCE |
    INVALID_METHOD

definition HTTP_METHOD_MAP :: "(HttpMethod \<times> string) list" where
  "HTTP_METHOD_MAP =
    [(DELETE, ''DELETE''), (GET, ''GET''), (HEAD, ''HEAD''), (POST, ''POST''), (PUT, ''PUT''),
     (CONNECT, ''CONNECT''), (OPTIONS, ''OPTIONS''), (TRACE, ''TRACE''), (COPY, ''COPY''),
     (LOCK, ''LOCK''), (MKCOL, ''MKCOL''), (MOVE, ''MOVE''), (PROPFIND, ''PROPFIND''),
     (PROPPATCH, ''PROPPATCH''), (SEARCH, ''SEARCH''), (UNLOCK, ''UNLOCK''), (BIND, ''BIND''),
     (REBIND, ''REBIND''), (UNBIND, ''UNBIND''), (ACL, ''ACL''), (REPORT, ''REPORT''),
     (MKACTIVITY, ''MKACTIVITY''), (CHECKOUT, ''CHECKOUT''), (MERGE, ''MERGE''), (MSEARCH, ''M - SEARCH''),
     (NOTIFY, ''NOTIFY''), (SUBSCRIBE, ''SUBSCRIBE''), (UNSUBSCRIBE, ''UNSUBSCRIBE''), (PATCH, ''PATCH''),
     (PURGE, ''PURGE''), (MKCALENDAR, ''MKCALENDAR''), (LINK, ''LINK''), (UNLINK, ''UNLINK''),
     (SOURCE, ''SOURCE'')]"

definition HTTP_STATUS_MAP :: "(int \<times> string) list" where
  "HTTP_STATUS_MAP =
    [(100, ''Continue''), (101, ''Switching Protocols''), (102, ''Processing''), (200, ''OK''),
     (201, ''Created''), (202, ''Accepted''), (203, ''Non - Authoritative Information''),
     (204, ''No Content''), (205, ''Reset Content''), (206, ''Partial Content''),
     (207, ''Multi - Status''), (208, ''Already Reported''), (226, ''IM Used''),
     (300, ''Multiple Choices''), (301, ''Moved Permanently''), (302, ''Found''), (303, ''See Other''),
     (304, ''Not Modified''), (305, ''Use Proxy''), (307, ''Temporary Redirect''),
     (308, ''Permanent Redirect''), (400, ''Bad Request''), (401, ''Unauthorized''),
     (402, ''Payment Required''), (403, ''Forbidden''), (404, ''Not Found''),
     (405, ''Method Not Allowed''), (406, ''Not Acceptable''), (407, ''Proxy Authentication Required''),
     (408, ''Request Timeout''), (409, ''Conflict''), (410, ''Gone''), (411, ''Length Required''),
     (412, ''Precondition Failed''), (413, ''Payload Too Large''), (414, ''URI Too Long''),
     (415, ''Unsupported Media Type''), (416, ''Range Not Satisfiable''), (417, ''Expectation Failed''),
     (421, ''Misdirected Request''), (422, ''Unprocessable Entity''), (423, ''Locked''),
     (424, ''Failed Dependency''), (426, ''Upgrade Required''), (428, ''Precondition Required''),
     (429, ''Too Many Requests''), (431, ''Request Header Fields Too Large''),
     (451, ''Unavailable For Legal Reasons''), (500, ''Internal Server Error''),
     (501, ''Not Implemented''), (502, ''Bad Gateway''), (503, ''Service Unavailable''),
     (504, ''Gateway Timeout''), (505, ''HTTP Version Not Supported''), (506, ''Variant Also Negotiates''),
     (507, ''Insufficient Storage''), (508, ''Loop Detected''), (510, ''Not Extended''),
     (511, ''Network Authentication Required'')]"

text \<open>
  In the two conversions from strings the line \<open>HTTP_METHOD_MAP(XX)\<close> continues the definition of the
  macro \<open>XX\<close>, which is never used: what is left of the function is its last line.
\<close>

definition StringToMethod :: "string \<Rightarrow> HttpMethod" where
  "StringToMethod m = INVALID_METHOD"

definition CharsToHttpMethod :: "string \<Rightarrow> HttpMethod" where
  "CharsToHttpMethod m = INVALID_METHOD"

definition HttpMethodToString :: "HttpMethod \<Rightarrow> string" where
  "HttpMethodToString m =
     (case map_of HTTP_METHOD_MAP m of None \<Rightarrow> ''<unknow>'' | Some s \<Rightarrow> s)"

definition HttpStatusToString :: "int \<Rightarrow> string" where
  "HttpStatusToString s =
     (case map_of HTTP_STATUS_MAP s of None \<Rightarrow> ''<unknown>'' | Some msg \<Rightarrow> msg)"

section \<open>Maps\<close>

definition CaseInsensitiveLess :: "string \<Rightarrow> string \<Rightarrow> bool" where
  "CaseInsensitiveLess lhs rhs \<longleftrightarrow> strcasecmp lhs rhs < 0"

type_synonym MapType = "(string \<times> string) list"

abbreviation ci_find :: "string \<Rightarrow> MapType \<Rightarrow> string option" where
  "ci_find \<equiv> map_find CaseInsensitiveLess"

abbreviation ci_put :: "string \<Rightarrow> string \<Rightarrow> MapType \<Rightarrow> MapType" where
  "ci_put \<equiv> map_put CaseInsensitiveLess"

text \<open>\<open>std::map::insert\<close> keeps the value of a key that is there.\<close>

definition ci_insert :: "string \<Rightarrow> string \<Rightarrow> MapType \<Rightarrow> MapType" where
  "ci_insert k v m = (if ci_find k m = None then ci_put k v m else m)"

text \<open>The typed lookups: \<open>cast\<close> is \<open>boost::lexical_cast\<close>, \<open>None\<close> when it throws.\<close>

definition checkGetAs :: "(string \<Rightarrow> 'a option) \<Rightarrow> MapType \<Rightarrow> string \<Rightarrow> 'a \<Rightarrow> bool \<times> 'a" where
  "checkGetAs cast m key def =
     (case ci_find key m of
        None \<Rightarrow> (False, def)
      | Some s \<Rightarrow> (case cast s of Some v \<Rightarrow> (True, v) | None \<Rightarrow> (False, def)))"

definition getAs :: "(string \<Rightarrow> 'a option) \<Rightarrow> MapType \<Rightarrow> string \<Rightarrow> 'a \<Rightarrow> 'a" where
  "getAs cast m key def =
     (case ci_find key m of
        None \<Rightarrow> def
      | Some s \<Rightarrow> (case cast s of Some v \<Rightarrow> v | None \<Rightarrow> def))"

section \<open>Requests\<close>

record HttpRequest =
  m_method :: HttpMethod
  m_version :: byte
  m_close :: bool
  m_websocket :: bool
  m_parserParamFlag :: byte
  m_path :: string
  m_query :: string
  m_fragment :: string
  m_body :: string
  m_headers :: MapType
  m_params :: MapType
  m_cookies :: MapType

definition new_HttpRequest :: "byte \<Rightarrow> bool \<Rightarrow> HttpRequest" where
  "new_HttpRequest version close =
     \<lparr>m_method = GET, m_version = version, m_close = close, m_websocket = False,
      m_parserParamFlag = 0, m_path = ''/'', m_query = [], m_fragment = [], m_body = [],
      m_headers = [], m_params = [], m_cookies = []\<rparr>"

definition getHeader :: "string \<Rightarrow> string \<Rightarrow> HttpRequest \<Rightarrow> string" where
  "getHeader key def r = (case ci_find key (m_headers r) of None \<Rightarrow> def | Some v \<Rightarrow> v)"

definition setHeader :: "string \<Rightarrow> string \<Rightarrow> HttpRequest \<Rightarrow> HttpRequest" where
  "setHeader key val r = r\<lparr>m_headers := ci_put key val (m_headers r)\<rparr>"

definition setParam :: "string \<Rightarrow> string \<Rightarrow> HttpRequest \<Rightarrow> HttpRequest" where
  "setParam key val r = r\<lparr>m_params := ci_put key val (m_params r)\<rparr>"

definition setCookie :: "string \<Rightarrow> string \<Rightarrow> HttpRequest \<Rightarrow> HttpRequest" where
  "setCookie key val r = r\<lparr>m_cookies := ci_put key val (m_cookies r)\<rparr>"

definition delHeader :: "string \<Rightarrow> HttpRequest \<Rightarrow> HttpRequest" where
  "delHeader key r = r\<lparr>m_headers := map_erase CaseInsensitiveLess key (m_headers r)\<rparr>"

definition delParam :: "string \<Rightarrow> HttpRequest \<Rightarrow> HttpRequest" where
  "delParam key r = r\<lparr>m_params := map_erase CaseInsensitiveLess key (m_params r)\<rparr>"

definition delCookie :: "string \<Rightarrow> HttpRequest \<Rightarrow> HttpRequest" where
  "delCookie key r = r\<lparr>m_cookies := map_erase CaseInsensitiveLess key (m_cookies r)\<rparr>"

definition hasHeader :: "string \<Rightarrow> HttpRequest \<Rightarrow> string option" where
  "hasHeader key r = ci_find key (m_headers r)"

text \<open>
  The macro \<open>PARSE_PARAM\<close> on what is left of the string: a key up to the next equals sign, a value
  from there to the next \<open>flag\<close>, which is an ampersand or a semicolon.
\<close>

function parse_param :: "char \<Rightarrow> (string \<Rightarrow> string) \<Rightarrow> string \<Rightarrow> MapType \<Rightarrow> MapType" where
  "parse_param flag trim str m =
     (case find_char (CHR ''='') str of
        None \<Rightarrow> m
      | Some key \<Rightarrow>
          (case find_char flag (drop key str) of
             None \<Rightarrow> ci_insert (trim (take key str)) (UrlDecode (drop (key + 1) str) True) m
           | Some d \<Rightarrow>
               parse_param flag trim (drop (key + d + 1) str)
                 (ci_insert (trim (take key str))
                    (UrlDecode (take (d - 1) (drop (key + 1) str)) True) m)))"
  by pat_completeness auto
termination
  by (relation "measure (\<lambda>(_, _, str, _). length str)")
     (auto simp: find_char_def Let_def split: if_splits)

definition initQueryParam :: "HttpRequest \<Rightarrow> HttpRequest" where
  "initQueryParam r =
     r\<lparr>m_params := parse_param (CHR ''&'') (\<lambda>s. s) (m_query r) (m_params r),
       m_parserParamFlag := m_parserParamFlag r OR 0x1\<rparr>"

definition initBodyParam :: "HttpRequest \<Rightarrow> HttpRequest" where
  "initBodyParam r =
     (if m_parserParamFlag r AND 0x2 \<noteq> 0 then r
      else if \<not> strcasestr (getHeader ''content-type'' [] r) ''application/x-www-form-urlencoded''
      then r\<lparr>m_parserParamFlag := m_parserParamFlag r OR 0x2\<rparr>
      else r\<lparr>m_params := parse_param (CHR ''&'') (\<lambda>s. s) (m_body r) (m_params r),
             m_parserParamFlag := m_parserParamFlag r OR 0x2\<rparr>)"

text \<open>The default delimiters of \<open>Trim\<close>.\<close>

definition blanks :: string where
  "blanks = [CHR '' '', CHR 0x09, CHR 0x0D, CHR 0x0A]"

definition initCookies :: "HttpRequest \<Rightarrow> HttpRequest" where
  "initCookies r =
     (if m_parserParamFlag r AND 0x4 \<noteq> 0 then r
      else let cookie = getHeader ''cookie'' [] r
      in if cookie = [] then r\<lparr>m_parserParamFlag := m_parserParamFlag r OR 0x4\<rparr>
         else r\<lparr>m_cookies := parse_param (CHR '';'') (\<lambda>s. Trim s blanks) cookie (m_cookies r),
                m_parserParamFlag := m_parserParamFlag r OR 0x4\<rparr>)"

definition initParam :: "HttpRequest \<Rightarrow> HttpRequest" where
  "initParam r = initCookies (initBodyParam (initQueryParam r))"

definition getParam :: "string \<Rightarrow> string \<Rightarrow> HttpRequest \<Rightarrow> string \<times> HttpRequest" where
  "getParam key def r =
     (let r = initBodyParam (initQueryParam r)
      in (case ci_find key (m_params r) of None \<Rightarrow> def | Some v \<Rightarrow> v, r))"

definition hasParam :: "string \<Rightarrow> HttpRequest \<Rightarrow> string option \<times> HttpRequest" where
  "hasParam key r = (let r = initBodyParam (initQueryParam r) in (ci_find key (m_params r), r))"

definition getCookie :: "string \<Rightarrow> string \<Rightarrow> HttpRequest \<Rightarrow> string \<times> HttpRequest" where
  "getCookie key def r =
     (let r = initCookies r in (case ci_find key (m_cookies r) of None \<Rightarrow> def | Some v \<Rightarrow> v, r))"

definition hasCookie :: "string \<Rightarrow> HttpRequest \<Rightarrow> string option \<times> HttpRequest" where
  "hasCookie key r = (let r = initCookies r in (ci_find key (m_cookies r), r))"

definition req_init :: "HttpRequest \<Rightarrow> HttpRequest" where
  "req_init r =
     (let conn = getHeader ''connection'' [] r
      in if conn \<noteq> [] then r\<lparr>m_close := strcasecmp conn ''keep-alive'' \<noteq> 0\<rparr> else r)"

section \<open>Serialisation\<close>

definition CRLF :: string where "CRLF = [CHR 0x0D, CHR 0x0A]"

definition header_lines :: "bool \<Rightarrow> MapType \<Rightarrow> string" where
  "header_lines websocket hs =
     concat (map (\<lambda>(k, v). if \<not> websocket \<and> strcasecmp k ''connection'' = 0 then []
                           else k @ '': '' @ v @ CRLF) hs)"

definition connection_line :: "bool \<Rightarrow> bool \<Rightarrow> string" where
  "connection_line websocket close =
     (if websocket then []
      else ''connection: '' @ (if close then ''close'' else ''keep-alive'') @ CRLF)"

definition body_part :: "string \<Rightarrow> string" where
  "body_part body =
     (if body \<noteq> [] then ''content-length: '' @ dec (length body) @ CRLF @ CRLF @ body else CRLF)"

definition version_text :: "byte \<Rightarrow> string" where
  "version_text v = ''HTTP/'' @ dec (unat (drop_bit 4 v)) @ ''.'' @ dec (unat (v AND 0x0F))"

definition req_dump :: "HttpRequest \<Rightarrow> string" where
  "req_dump r =
     HttpMethodToString (m_method r) @ '' '' @ m_path r
     @ (if m_query r = [] then [] else ''?'') @ m_query r
     @ (if m_fragment r = [] then [] else ''#'') @ m_fragment r
     @ '' '' @ version_text (m_version r) @ CRLF
     @ connection_line (m_websocket r) (m_close r)
     @ header_lines (m_websocket r) (m_headers r)
     @ body_part (m_body r)"

section \<open>Responses\<close>

record HttpResponse =
  m_status :: int
  r_version :: byte
  r_close :: bool
  r_websocket :: bool
  r_body :: string
  m_reason :: string
  r_headers :: MapType
  r_cookies :: "string list"

text \<open>The constructor does not set \<open>m_websocket\<close>: \<open>ws\<close> is whatever the memory held.\<close>

definition new_HttpResponse :: "bool \<Rightarrow> byte \<Rightarrow> bool \<Rightarrow> HttpResponse" where
  "new_HttpResponse ws version close =
     \<lparr>m_status = 200, r_version = version, r_close = close, r_websocket = ws, r_body = [],
      m_reason = [], r_headers = [], r_cookies = []\<rparr>"

definition createResponse :: "bool \<Rightarrow> HttpRequest \<Rightarrow> HttpResponse" where
  "createResponse ws r = new_HttpResponse ws (m_version r) (m_close r)"

definition rsp_getHeader :: "string \<Rightarrow> string \<Rightarrow> HttpResponse \<Rightarrow> string" where
  "rsp_getHeader key def r = (case ci_find key (r_headers r) of None \<Rightarrow> def | Some v \<Rightarrow> v)"

definition rsp_setHeader :: "string \<Rightarrow> string \<Rightarrow> HttpResponse \<Rightarrow> HttpResponse" where
  "rsp_setHeader key val r = r\<lparr>r_headers := ci_put key val (r_headers r)\<rparr>"

definition rsp_delHeader :: "string \<Rightarrow> HttpResponse \<Rightarrow> HttpResponse" where
  "rsp_delHeader key r = r\<lparr>r_headers := map_erase CaseInsensitiveLess key (r_headers r)\<rparr>"

definition setRedirect :: "string \<Rightarrow> HttpResponse \<Rightarrow> HttpResponse" where
  "setRedirect uri r = rsp_setHeader ''Location'' uri (r\<lparr>m_status := 302\<rparr>)"

definition rsp_setCookie :: "string \<Rightarrow> string \<Rightarrow> string \<Rightarrow> string \<Rightarrow> bool \<Rightarrow> HttpResponse \<Rightarrow> HttpResponse" where
  "rsp_setCookie key val path domain secure r =
     r\<lparr>r_cookies := r_cookies r
        @ [key @ ''='' @ val @ (if domain = [] then [] else '';domain='' @ domain)
           @ (if path = [] then [] else '';path='' @ path) @ (if secure then '';secure'' else [])]\<rparr>"

definition status_text :: "int \<Rightarrow> string" where
  "status_text s = dec (unat (word_of_int s :: u32))"

definition rsp_dump :: "HttpResponse \<Rightarrow> string" where
  "rsp_dump r =
     version_text (r_version r) @ '' '' @ status_text (m_status r) @ '' ''
     @ (if m_reason r = [] then HttpStatusToString (m_status r) else m_reason r) @ CRLF
     @ header_lines (r_websocket r) (r_headers r)
     @ concat (map (\<lambda>c. ''Set-Cookie: '' @ c @ CRLF) (r_cookies r))
     @ connection_line (r_websocket r) (r_close r)
     @ body_part (r_body r)"

section \<open>The comparator\<close>

text \<open>What the comparator looks at: the lower-cased characters before the first zero byte.\<close>

definition ci_key :: "string \<Rightarrow> nat list" where
  "ci_key s = map (\<lambda>c. of_char (tolower c)) (c_str s)"

lemma tolower_nonzero: "c \<noteq> CHR 0x00 \<Longrightarrow> 0 < (of_char (tolower c) :: nat)"
proof -
  assume "c \<noteq> CHR 0x00"
  then have "(of_char c :: nat) \<noteq> of_char (CHR 0x00)" by (simp only: of_char_eq_iff not_False_eq_True)
  then show ?thesis by (auto simp: tolower_def Let_def)
qed

lemma casecmp_lex:
  defines "f \<equiv> \<lambda>c. of_char (tolower c) :: nat"
  shows "CHR 0x00 \<notin> set a \<Longrightarrow> CHR 0x00 \<notin> set b \<Longrightarrow>
    (casecmp a b < 0 \<longleftrightarrow> map f a < map f b) \<and> (casecmp a b = 0 \<longleftrightarrow> map f a = map f b)"
proof (induction a b rule: casecmp.induct)
  case (2 d ds)
  have "(of_char (tolower d) :: int) = int (f d)" by (simp add: f_def of_nat_of_char)
  moreover have "0 < f d" using 2 tolower_nonzero [of d] by (auto simp: f_def)
  ultimately show ?case by simp
next
  case (3 c cs)
  have "(of_char (tolower c) :: int) = int (f c)" by (simp add: f_def of_nat_of_char)
  moreover have "0 < f c" using 3 tolower_nonzero [of c] by (auto simp: f_def)
  ultimately show ?case by simp
next
  case (4 c cs d ds)
  have "(of_char (tolower c) :: int) = int (f c)" "(of_char (tolower d) :: int) = int (f d)"
    by (simp_all add: f_def of_nat_of_char)
  moreover have "tolower c = tolower d \<longleftrightarrow> f c = f d" by (simp add: f_def)
  ultimately show ?case using 4 by auto
qed simp

lemma c_str_nul [simp]: "CHR 0x00 \<notin> set (c_str s)"
  by (auto simp: c_str_def dest: set_takeWhileD)

lemma strcasecmp_key:
  "strcasecmp a b < 0 \<longleftrightarrow> ci_key a < ci_key b" "strcasecmp a b = 0 \<longleftrightarrow> ci_key a = ci_key b"
  using casecmp_lex [OF c_str_nul c_str_nul] by (simp_all add: strcasecmp_def ci_key_def)

lemma ci_less_iff: "CaseInsensitiveLess a b \<longleftrightarrow> ci_key a < ci_key b"
  by (simp add: CaseInsensitiveLess_def strcasecmp_key)

lemma ci_equiv [simp]: "equiv_by CaseInsensitiveLess a b \<longleftrightarrow> ci_key a = ci_key b"
  by (auto simp: equiv_by_def ci_less_iff)

interpretation ci: strict_weak_order CaseInsensitiveLess
  by unfold_locales (auto simp: ci_less_iff)

abbreviation map_ok :: "MapType \<Rightarrow> bool" where
  "map_ok m \<equiv> sorted_wrt CaseInsensitiveLess (map fst m)"

lemma ci_insert_find:
  "map_ok m \<Longrightarrow> ci_find j (ci_insert k v m)
     = (if ci_find j m = None \<and> ci_key j = ci_key k then Some v else ci_find j m)"
  using ci.map_find_equiv [of j k m] by (auto simp: ci_insert_def ci.map_find_put)

lemma ci_insert_ok: "map_ok m \<Longrightarrow> map_ok (ci_insert k v m)"
  by (simp add: ci_insert_def ci.map_put_sorted)

section \<open>Composing and parsing queries\<close>

text \<open>A query made of keys and percent-encoded values.\<close>

definition query_of :: "(string \<times> string) list \<Rightarrow> string" where
  "query_of kvs = (case kvs of [] \<Rightarrow> []
     | kv # kvs \<Rightarrow> fst kv @ ''='' @ UrlEncode (snd kv) True
         @ concat (map (\<lambda>(k, v). ''&'' @ k @ ''='' @ UrlEncode v True) kvs))"

text \<open>The first value of an equivalent key.\<close>

definition first_value :: "string \<Rightarrow> (string \<times> string) list \<Rightarrow> string option" where
  "first_value key kvs = map_option snd (find (\<lambda>kv. ci_key (fst kv) = ci_key key) kvs)"

lemma amp_reserved: "CHR ''&'' \<notin> set (UrlEncode v True)"
proof -
  have "uri_chars ! 38 = 0" by (simp add: uri_chars_def)
  then have "\<not> CHAR_IS_UNRESERVED (CHR ''&'')" by (simp add: CHAR_IS_UNRESERVED_def)
  then show ?thesis using UrlEncode_chars [of v True] by (auto simp: hexdigits_def)
qed

lemma parse_param_last:
  assumes "CHR ''='' \<notin> set k" "flag \<notin> set v" "flag \<noteq> CHR ''=''"
  shows "parse_param flag trim (k @ CHR ''='' # v) m = ci_insert (trim k) (UrlDecode v True) m"
proof -
  have "find_char flag (CHR ''='' # v) = None" using assms by (intro find_char_append(2)) auto
  then show ?thesis using find_char_append(1) [OF assms(1), of v] by simp
qed

lemma parse_param_step:
  assumes "CHR ''='' \<notin> set k" "flag \<notin> set v" "flag \<noteq> CHR ''=''"
  shows "parse_param flag trim (k @ CHR ''='' # v @ flag # rest) m
    = parse_param flag trim rest (ci_insert (trim k) (UrlDecode v True) m)"
proof -
  have "find_char flag ((CHR ''='' # v) @ flag # rest) = Some (Suc (length v))"
    using assms find_char_append(1) [of flag "CHR ''='' # v" rest] by simp
  then show ?thesis using find_char_append(1) [OF assms(1), of "v @ flag # rest"] by simp
qed

lemma parse_query_of:
  assumes "\<forall>kv\<in>set kvs. CHR ''='' \<notin> set (fst kv)"
  shows "parse_param (CHR ''&'') (\<lambda>s. s) (query_of kvs) m = foldl (\<lambda>m kv. ci_insert (fst kv) (snd kv) m) m kvs"
  using assms
proof (induction kvs arbitrary: m rule: induct_list012)
  case 1
  then show ?case by (simp add: query_of_def find_char_def)
next
  case (2 kv)
  then show ?case
    using parse_param_last [of "fst kv" "CHR ''&''" "UrlEncode (snd kv) True"] amp_reserved url_decode_encode
    by (simp add: query_of_def del: parse_param.simps)
next
  case (3 kv kv' kvs)
  have q: "query_of (kv # kv' # kvs) = fst kv @ CHR ''='' # UrlEncode (snd kv) True @ CHR ''&'' # query_of (kv' # kvs)"
    by (cases kv') (simp add: query_of_def)
  show ?case
    unfolding q using parse_param_step [of "fst kv" "CHR ''&''" "UrlEncode (snd kv) True"] amp_reserved
      url_decode_encode 3 by (simp del: parse_param.simps)
qed

lemma ci_foldl_insert:
  assumes "map_ok m"
  shows "map_ok (foldl (\<lambda>m kv. ci_insert (fst kv) (snd kv) m) m kvs)
    \<and> ci_find key (foldl (\<lambda>m kv. ci_insert (fst kv) (snd kv) m) m kvs)
      = (case ci_find key m of None \<Rightarrow> first_value key kvs | Some v \<Rightarrow> Some v)"
  using assms
proof (induction kvs arbitrary: m)
  case (Cons kv kvs)
  then show ?case
    using Cons.IH [OF ci_insert_ok [OF Cons.prems, of "fst kv" "snd kv"]]
    by (auto simp: ci_insert_find first_value_def split: option.splits)
qed (auto simp: first_value_def split: option.split)

section \<open>Lines\<close>

text \<open>A reader of messages: lines up to an empty one, then the body.\<close>

fun take_line :: "string \<Rightarrow> (string \<times> string) option" where
  "take_line [] = None"
| "take_line (c # cs) =
     (if c = CHR 0x0D \<and> cs \<noteq> [] \<and> hd cs = CHR 0x0A then Some ([], tl cs)
      else map_option (\<lambda>(l, r). (c # l, r)) (take_line cs))"

lemma take_line_shorter: "take_line s = Some (l, r) \<Longrightarrow> length r < length s"
  by (induction s arbitrary: l r rule: take_line.induct) (auto split: if_splits)

function read_head :: "string \<Rightarrow> (string list \<times> string) option" where
  "read_head s = (case take_line s of
     None \<Rightarrow> None
   | Some (l, r) \<Rightarrow> if l = [] then Some ([], r) else map_option (\<lambda>(ls, b). (l # ls, b)) (read_head r))"
  by pat_completeness auto
termination
  by (relation "measure length") (auto dest: take_line_shorter)

declare read_head.simps [simp del]

lemma take_line_eq: "CHR 0x0D \<notin> set l \<Longrightarrow> take_line (l @ CRLF @ r) = Some (l, r)"
  by (induction l) (auto simp: CRLF_def)

lemma read_head_lines:
  assumes "\<forall>l\<in>set ls. l \<noteq> [] \<and> CHR 0x0D \<notin> set l"
  shows "read_head (concat (map (\<lambda>l. l @ CRLF) ls) @ CRLF @ b) = Some (ls, b)"
  using assms
proof (induction ls)
  case Nil
  then show ?case using take_line_eq [of "[]" b] by (simp add: read_head.simps)
next
  case (Cons l ls)
  then show ?case
    using take_line_eq [of l "concat (map (\<lambda>l. l @ CRLF) ls) @ CRLF @ b"] by (subst read_head.simps) simp
qed

text \<open>The lines of a message.\<close>

definition kept_headers :: "bool \<Rightarrow> MapType \<Rightarrow> MapType" where
  "kept_headers websocket hs = filter (\<lambda>h. websocket \<or> strcasecmp (fst h) ''connection'' \<noteq> 0) hs"

definition header_line :: "string \<times> string \<Rightarrow> string" where
  "header_line h = fst h @ '': '' @ snd h"

definition tail_lines :: "string \<Rightarrow> string list" where
  "tail_lines body = (if body = [] then [] else [''content-length: '' @ dec (length body)])"

definition connection_lines :: "bool \<Rightarrow> bool \<Rightarrow> string list" where
  "connection_lines websocket close =
     (if websocket then [] else [''connection: '' @ (if close then ''close'' else ''keep-alive'')])"

definition rsp_lines :: "HttpResponse \<Rightarrow> string list" where
  "rsp_lines r =
     (version_text (r_version r) @ '' '' @ status_text (m_status r) @ '' ''
        @ (if m_reason r = [] then HttpStatusToString (m_status r) else m_reason r))
     # map header_line (kept_headers (r_websocket r) (r_headers r))
     @ map (\<lambda>c. ''Set-Cookie: '' @ c) (r_cookies r)
     @ connection_lines (r_websocket r) (r_close r) @ tail_lines (r_body r)"

definition req_lines :: "HttpRequest \<Rightarrow> string list" where
  "req_lines r =
     (HttpMethodToString (m_method r) @ '' '' @ m_path r
        @ (if m_query r = [] then [] else ''?'') @ m_query r
        @ (if m_fragment r = [] then [] else ''#'') @ m_fragment r
        @ '' '' @ version_text (m_version r))
     # connection_lines (m_websocket r) (m_close r)
     @ map header_line (kept_headers (m_websocket r) (m_headers r)) @ tail_lines (m_body r)"

lemma header_lines_eq:
  "header_lines ws hs = concat (map (\<lambda>l. l @ CRLF) (map header_line (kept_headers ws hs)))"
  by (induction hs) (auto simp: header_lines_def kept_headers_def header_line_def)

lemma body_part_eq: "body_part b = concat (map (\<lambda>l. l @ CRLF) (tail_lines b)) @ CRLF @ b"
  by (simp add: body_part_def tail_lines_def)

lemma connection_line_eq:
  "connection_line ws c = concat (map (\<lambda>l. l @ CRLF) (connection_lines ws c))"
  by (simp add: connection_line_def connection_lines_def)

lemma cookie_lines_eq:
  "concat (map (\<lambda>c. ''Set-Cookie: '' @ c @ CRLF) cs)
     = concat (map (\<lambda>l. l @ CRLF) (map (\<lambda>c. ''Set-Cookie: '' @ c) cs))"
  by (induction cs) simp_all

lemmas dump_parts = header_lines_eq body_part_eq connection_line_eq cookie_lines_eq

lemma rsp_dump_eq: "rsp_dump r = concat (map (\<lambda>l. l @ CRLF) (rsp_lines r)) @ CRLF @ r_body r"
  by (simp add: rsp_dump_def rsp_lines_def dump_parts comp_def)

lemma req_dump_eq: "req_dump r = concat (map (\<lambda>l. l @ CRLF) (req_lines r)) @ CRLF @ m_body r"
  by (simp add: req_dump_def req_lines_def dump_parts comp_def)

text \<open>A string without carriage returns.\<close>

definition no_cr :: "string \<Rightarrow> bool" where
  "no_cr s \<longleftrightarrow> CHR 0x0D \<notin> set s"

lemma no_cr_simps [simp]:
  "no_cr []" "no_cr (c # s) \<longleftrightarrow> c \<noteq> CHR 0x0D \<and> no_cr s" "no_cr (s @ t) \<longleftrightarrow> no_cr s \<and> no_cr t"
  by (auto simp: no_cr_def)

lemma digit_no_cr: "(n :: nat) < 10 \<Longrightarrow> char_of (n + 48) \<noteq> CHR 0x0D"
proof
  assume "n < 10" "char_of (n + 48) = CHR 0x0D"
  then have "of_char (char_of (n + 48) :: char) = (13 :: nat)" by simp
  then show False using \<open>n < 10\<close> by simp
qed

lemma dec_no_cr [simp]: "no_cr (dec n)"
  by (induction n rule: dec.induct) (subst dec.simps, auto dest: digit_no_cr [THEN notE, rotated])

lemma table_no_cr:
  "list_all (\<lambda>e. no_cr (snd e)) HTTP_STATUS_MAP" "list_all (\<lambda>e. no_cr (snd e)) HTTP_METHOD_MAP"
  by (simp_all add: HTTP_STATUS_MAP_def HTTP_METHOD_MAP_def)

lemma status_no_cr [simp]: "no_cr (HttpStatusToString s)" "no_cr (HttpMethodToString m)"
  using table_no_cr by (auto simp: HttpStatusToString_def HttpMethodToString_def list_all_iff
      split: option.split dest!: map_of_SomeD)

definition headers_no_cr :: "MapType \<Rightarrow> bool" where
  "headers_no_cr hs \<longleftrightarrow> (\<forall>h\<in>set hs. no_cr (fst h) \<and> no_cr (snd h))"

lemma line_parts_no_cr:
  "headers_no_cr hs \<Longrightarrow> \<forall>l\<in>set (map header_line (kept_headers ws hs)). l \<noteq> [] \<and> no_cr l"
  "\<forall>l\<in>set (connection_lines ws c). l \<noteq> [] \<and> no_cr l" "\<forall>l\<in>set (tail_lines b). l \<noteq> [] \<and> no_cr l"
  "no_cr (version_text v)" "no_cr (status_text n)"
  by (auto simp: headers_no_cr_def header_line_def kept_headers_def connection_lines_def tail_lines_def
      version_text_def status_text_def)

section \<open>Properties\<close>

text \<open>
  C23: header, parameter and cookie names are compared without case up to their first zero byte: with
  a map in order, a lookup after a write finds the new value under every equivalent name and the old
  value under the others, after an erase nothing and the old values, and both keep the map in order.
\<close>

theorem header_map_laws:
  assumes "map_ok (m_headers r)"
  shows "map_ok (m_headers (setHeader k v r)) \<and> map_ok (m_headers (delHeader k r))
    \<and> getHeader j d (setHeader k v r) = (if ci_key j = ci_key k then v else getHeader j d r)
    \<and> getHeader j d (delHeader k r) = (if ci_key j = ci_key k then d else getHeader j d r)"
  using assms
  by (simp add: setHeader_def delHeader_def getHeader_def ci.map_put_sorted ci.map_erase_sorted
      ci.map_find_put ci.map_find_erase)

theorem header_map_laws_witness:
  "getHeader ''content-length'' [] (setHeader ''Content-Length'' ''12'' (new_HttpRequest 0x11 True)) = ''12''"
proof -
  have "ci_key ''content-length'' = ci_key ''Content-Length''"
    by (simp add: ci_key_def c_str_def tolower_def)
  then show ?thesis
    using header_map_laws [of "new_HttpRequest 0x11 True" "''Content-Length''" "''12''" "''content-length''" "[]"]
    by (simp add: new_HttpRequest_def)
qed

text \<open>
  Of a query composed of names without equals signs and percent-encoded values, \<open>getParam\<close>
  returns the value first given for the name, or the default, for every value, and asking again
  after another question returns the same.
\<close>

theorem query_round_trip:
  assumes "\<forall>kv\<in>set kvs. CHR ''='' \<notin> set (fst kv)" "m_query r = query_of kvs" "m_params r = []"
    "\<not> strcasestr (getHeader ''content-type'' [] r) ''application/x-www-form-urlencoded''"
  shows "fst (getParam key def r) = (case first_value key kvs of None \<Rightarrow> def | Some v \<Rightarrow> v)
    \<and> fst (getParam key def (snd (getParam key' def' r))) = fst (getParam key def r)"
proof -
  let ?ins = "foldl (\<lambda>m kv. ci_insert (fst kv) (snd kv) m)"
  have init: "m_params (initBodyParam (initQueryParam q)) = ?ins (m_params q) kvs
      \<and> m_query (initBodyParam (initQueryParam q)) = query_of kvs
      \<and> m_headers (initBodyParam (initQueryParam q)) = m_headers q"
    if "m_query q = query_of kvs" "m_headers q = m_headers r" for q
    using assms(4) that parse_query_of [OF assms(1)]
    by (simp add: initQueryParam_def initBodyParam_def getHeader_def del: parse_param.simps)
  have ok: "map_ok (?ins [] kvs)" "ci_find k (?ins [] kvs) = first_value k kvs" for k
    using ci_foldl_insert [of "[]" kvs] by simp_all
  have "ci_find k (?ins (?ins [] kvs) kvs) = first_value k kvs" for k
    using ci_foldl_insert [OF ok(1), of kvs k] ok(2) [of k] by (simp split: option.split_asm)
  then show ?thesis
    using init [OF assms(2) refl] init [of "initBodyParam (initQueryParam r)"] ok(2) assms(3)
    by (simp add: getParam_def Let_def)
qed

theorem query_round_trip_witness:
  "fst (getParam ''NAME'' ''x'' (new_HttpRequest 0x11 True\<lparr>m_query := query_of [(''id'', ''7''), (''name'', ''a b&c'')]\<rparr>))
     = ''a b&c''"
proof -
  have "first_value ''NAME'' [(''id'', ''7''), (''name'', ''a b&c'')] = Some ''a b&c''"
    by (simp add: first_value_def ci_key_def c_str_def tolower_def)
  then show ?thesis
    using query_round_trip [of "[(''id'', ''7''), (''name'', ''a b&c'')]"
      "new_HttpRequest 0x11 True\<lparr>m_query := query_of [(''id'', ''7''), (''name'', ''a b&c'')]\<rparr>"
      "''NAME''" "''x''" "[]" "[]"]
    by (simp add: new_HttpRequest_def getHeader_def strcasestr_def c_str_def)
qed

text \<open>
  A serialised response or request, whose parts have no carriage returns, reads back as its lines
  and exactly its body: the empty line comes where the body starts, and the content length is sent with
  every body that is not empty.
\<close>

theorem dump_frames:
  assumes "headers_no_cr (r_headers rsp)" "no_cr (m_reason rsp)" "\<forall>c\<in>set (r_cookies rsp). no_cr c"
    and "headers_no_cr (m_headers req)" "no_cr (m_path req)" "no_cr (m_query req)" "no_cr (m_fragment req)"
  shows "read_head (rsp_dump rsp) = Some (rsp_lines rsp, r_body rsp)
    \<and> read_head (req_dump req) = Some (req_lines req, m_body req)
    \<and> (r_body rsp \<noteq> [] \<longrightarrow> last (rsp_lines rsp) = ''content-length: '' @ dec (length (r_body rsp)))"
proof -
  have "\<forall>l\<in>set (rsp_lines rsp). l \<noteq> [] \<and> no_cr l"
    using assms(2,3) line_parts_no_cr(1) [OF assms(1)] line_parts_no_cr(2) [of "r_websocket rsp" "r_close rsp"]
      line_parts_no_cr(3) [of "r_body rsp"] by (auto simp: rsp_lines_def line_parts_no_cr(4,5))
  moreover have "\<forall>l\<in>set (req_lines req). l \<noteq> [] \<and> no_cr l"
    using assms(5-7) line_parts_no_cr(1) [OF assms(4)] line_parts_no_cr(2) [of "m_websocket req" "m_close req"]
      line_parts_no_cr(3) [of "m_body req"] by (auto simp: req_lines_def line_parts_no_cr(4,5))
  ultimately have "read_head (rsp_dump rsp) = Some (rsp_lines rsp, r_body rsp)"
    "read_head (req_dump req) = Some (req_lines req, m_body req)"
    unfolding rsp_dump_eq req_dump_eq by (auto simp only: no_cr_def intro!: read_head_lines)
  moreover have "last (rsp_lines rsp) = ''content-length: '' @ dec (length (r_body rsp))" if "r_body rsp \<noteq> []"
    unfolding rsp_lines_def tail_lines_def using that by (simp del: append_Cons)
  ultimately show ?thesis by blast
qed

theorem dump_frames_witness:
  "read_head (rsp_dump (new_HttpResponse False 0x11 True\<lparr>r_body := ''hello''\<rparr>))
   = Some ([''HTTP/1.1 200 OK'', ''connection: close'', ''content-length: 5''], ''hello'')"
proof -
  have "rsp_lines (new_HttpResponse False 0x11 True\<lparr>r_body := ''hello''\<rparr>)
      = [''HTTP/1.1 200 OK'', ''connection: close'', ''content-length: 5'']"
    by code_simp
  then show ?thesis
    using dump_frames [of "new_HttpResponse False 0x11 True\<lparr>r_body := ''hello''\<rparr>" "new_HttpRequest 0x11 True"]
    by (simp add: new_HttpResponse_def new_HttpRequest_def headers_no_cr_def)
qed

end
