(* ===== verification/NetAddress.thy ===== *)
theory NetAddress
  imports ByteArray Util "HOL-Library.List_Lexorder"
begin

unbundle bit_operations_syntax

text \<open>
  Socket addresses (\<open>address.h\<close>, \<open>address.cc\<close>). The socket address structures are records with the
  fields as they lie in memory: ports and IPv4 addresses in network byte order. \<open>getaddrinfo\<close> and
  \<open>inet_pton\<close> are parameters. A shift by the width of the operand or more and an access outside an
  array are error values. The lemmas show that byte swapping commutes with the bitwise operations, so
  that the mask operations are read in host order, and that the order on addresses is the
  lexicographic order of their bytes.
\<close>

section \<open>Structures\<close>

datatype addr_error = ShiftTooFar | BadIndex | PathTooLong

record sockaddr_in =
  sin_family :: u16
  sin_port :: u16
  s_addr :: u32
  sin_zero :: "byte list"

record sockaddr_in6 =
  sin6_family :: u16
  sin6_port :: u16
  sin6_flowinfo :: u32
  s6_addr :: "byte list"
  sin6_scope_id :: u32

record sockaddr_un =
  sun_family :: u16
  sun_path :: "byte list"
  m_length :: u32

record sockaddr =
  sa_family :: u16
  sa_data :: "byte list"

datatype Address = IPv4Address sockaddr_in | IPv6Address sockaddr_in6 | UnixAddress sockaddr_un
  | UnknownAddress sockaddr

definition AF_UNIX :: u16 where "AF_UNIX = 1"
definition AF_INET :: u16 where "AF_INET = 2"
definition AF_INET6 :: u16 where "AF_INET6 = 10"

text \<open>The bytes \<open>getAddr\<close> points to, and \<open>getAddrLen\<close>; the host is little-endian.\<close>

fun getAddr :: "Address \<Rightarrow> byte list" where
  "getAddr (IPv4Address a) = bytes_le (sin_family a) @ bytes_le (sin_port a) @ bytes_le (s_addr a) @ sin_zero a"
| "getAddr (IPv6Address a) = bytes_le (sin6_family a) @ bytes_le (sin6_port a) @ bytes_le (sin6_flowinfo a)
     @ s6_addr a @ bytes_le (sin6_scope_id a)"
| "getAddr (UnixAddress a) = bytes_le (sun_family a) @ sun_path a"
| "getAddr (UnknownAddress a) = bytes_le (sa_family a) @ sa_data a"

fun getAddrLen :: "Address \<Rightarrow> nat" where
  "getAddrLen (IPv4Address _) = 16"
| "getAddrLen (IPv6Address _) = 28"
| "getAddrLen (UnixAddress a) = unat (m_length a)"
| "getAddrLen (UnknownAddress _) = 16"

fun getFamily :: "Address \<Rightarrow> u16" where
  "getFamily (IPv4Address a) = sin_family a"
| "getFamily (IPv6Address a) = sin6_family a"
| "getFamily (UnixAddress a) = sun_family a"
| "getFamily (UnknownAddress a) = sa_family a"

section \<open>Comparison\<close>

fun memcmp :: "byte list \<Rightarrow> byte list \<Rightarrow> nat \<Rightarrow> int" where
  "memcmp (x # xs) (y # ys) (Suc n) = (if x = y then memcmp xs ys n else if x < y then - 1 else 1)"
| "memcmp _ _ _ = 0"

definition addr_less :: "Address \<Rightarrow> Address \<Rightarrow> bool" where
  "addr_less lhs rhs =
     (let minlen = min (getAddrLen lhs) (getAddrLen rhs);
          result = memcmp (getAddr lhs) (getAddr rhs) minlen
      in if result < 0 then True
         else if result > 0 then False
         else if getAddrLen lhs < getAddrLen rhs then True
         else False)"

definition addr_eq :: "Address \<Rightarrow> Address \<Rightarrow> bool" where
  "addr_eq lhs rhs \<longleftrightarrow> getAddrLen lhs = getAddrLen rhs
     \<and> memcmp (getAddr lhs) (getAddr rhs) (getAddrLen lhs) = 0"

section \<open>Masks\<close>

text \<open>
  \<open>CreateMask\<close> shifts the \<open>int\<close> 1: for 32 bits the count \<open>32 - bits\<close>, a \<open>size_t\<close>, must be below 32,
  and \<open>(1 << 31) - 1\<close> is taken to wrap.
\<close>

definition CreateMask32 :: "u32 \<Rightarrow> addr_error + u32" where
  "CreateMask32 bits =
     (if 1 \<le> bits \<and> bits \<le> 32 then Inr (push_bit (32 - unat bits) 1 - 1) else Inl ShiftTooFar)"

definition CreateMask8 :: "nat \<Rightarrow> byte" where
  "CreateMask8 bits = ucast (push_bit (8 - bits) 1 - 1 :: u32)"

section \<open>IPv4\<close>

definition new_IPv4Address :: "u32 \<Rightarrow> u16 \<Rightarrow> sockaddr_in" where
  "new_IPv4Address address port =
     \<lparr>sin_family = AF_INET, sin_port = byteswapOnLittleEndian port,
      s_addr = byteswapOnLittleEndian address, sin_zero = replicate 8 0\<rparr>"

text \<open>\<open>IPv4Address::Create\<close>: \<open>pton\<close> is what \<open>inet_pton\<close> stores, if it succeeds.\<close>

definition IPv4Address_Create :: "(string \<Rightarrow> u32 option) \<Rightarrow> string \<Rightarrow> u16 \<Rightarrow> sockaddr_in option" where
  "IPv4Address_Create pton address port =
     (let rt = (new_IPv4Address 0 0)\<lparr>sin_port := byteswapOnLittleEndian port\<rparr>
      in case pton address of None \<Rightarrow> None | Some a \<Rightarrow> Some (rt\<lparr>s_addr := a\<rparr>))"

definition ipv4_insert :: "sockaddr_in \<Rightarrow> string" where
  "ipv4_insert a =
     (let addr = byteswapOnLittleEndian (s_addr a)
      in dec (unat (drop_bit 24 addr AND 0xff)) @ ''.'' @ dec (unat (drop_bit 16 addr AND 0xff)) @ ''.''
         @ dec (unat (drop_bit 8 addr AND 0xff)) @ ''.'' @ dec (unat (addr AND 0xff))
         @ '':'' @ dec (unat (byteswapOnLittleEndian (sin_port a))))"

definition ipv4_broadcastAddress :: "u32 \<Rightarrow> sockaddr_in \<Rightarrow> addr_error + sockaddr_in option" where
  "ipv4_broadcastAddress prefix_len a =
     (if prefix_len > 32 then Inr None
      else bindr (CreateMask32 prefix_len) (\<lambda>m.
        Inr (Some (a\<lparr>s_addr := s_addr a OR byteswapOnLittleEndian m\<rparr>))))"

definition ipv4_networdAddress :: "u32 \<Rightarrow> sockaddr_in \<Rightarrow> addr_error + sockaddr_in option" where
  "ipv4_networdAddress prefix_len a =
     (if prefix_len > 32 then Inr None
      else bindr (CreateMask32 prefix_len) (\<lambda>m.
        Inr (Some (a\<lparr>s_addr := s_addr a AND byteswapOnLittleEndian m\<rparr>))))"

definition ipv4_subnetMask :: "u32 \<Rightarrow> addr_error + sockaddr_in" where
  "ipv4_subnetMask prefix_len =
     bindr (CreateMask32 prefix_len) (\<lambda>m.
       Inr \<lparr>sin_family = AF_INET, sin_port = 0, s_addr = NOT (byteswapOnLittleEndian m),
            sin_zero = replicate 8 0\<rparr>)"

definition ipv4_getPort :: "sockaddr_in \<Rightarrow> u32" where
  "ipv4_getPort a = ucast (byteswapOnLittleEndian (sin_port a))"

definition ipv4_setPort :: "u16 \<Rightarrow> sockaddr_in \<Rightarrow> sockaddr_in" where
  "ipv4_setPort v a = a\<lparr>sin_port := byteswapOnLittleEndian v\<rparr>"

section \<open>IPv6\<close>

definition new_IPv6Address :: "byte list \<Rightarrow> u16 \<Rightarrow> sockaddr_in6" where
  "new_IPv6Address address port =
     \<lparr>sin6_family = AF_INET6, sin6_port = byteswapOnLittleEndian port, sin6_flowinfo = 0,
      s6_addr = take 16 address, sin6_scope_id = 0\<rparr>"

text \<open>The byte at \<open>prefix_len / 8\<close> is combined with a mask, the bytes after it are filled.\<close>

definition fill_from :: "nat \<Rightarrow> byte \<Rightarrow> byte list \<Rightarrow> byte list" where
  "fill_from i v bs = take i bs @ replicate (length bs - i) v"

definition ipv6_broadcastAddress :: "u32 \<Rightarrow> sockaddr_in6 \<Rightarrow> addr_error + sockaddr_in6" where
  "ipv6_broadcastAddress prefix_len a =
     (let i = unat prefix_len div 8
      in if i \<ge> 16 then Inl BadIndex
         else let bs = (s6_addr a)[i := s6_addr a ! i OR CreateMask8 (unat prefix_len mod 8)]
              in Inr (a\<lparr>s6_addr := fill_from (i + 1) 0xff bs\<rparr>))"

definition ipv6_networdAddress :: "u32 \<Rightarrow> sockaddr_in6 \<Rightarrow> addr_error + sockaddr_in6" where
  "ipv6_networdAddress prefix_len a =
     (let i = unat prefix_len div 8
      in if i \<ge> 16 then Inl BadIndex
         else let bs = (s6_addr a)[i := s6_addr a ! i AND CreateMask8 (unat prefix_len mod 8)]
              in Inr (a\<lparr>s6_addr := fill_from (i + 1) 0x00 bs\<rparr>))"

definition ipv6_subnetMask :: "u32 \<Rightarrow> addr_error + sockaddr_in6" where
  "ipv6_subnetMask prefix_len =
     (let i = unat prefix_len div 8
      in if i \<ge> 16 then Inl BadIndex
         else Inr \<lparr>sin6_family = AF_INET6, sin6_port = 0, sin6_flowinfo = 0,
           s6_addr = replicate i 0xff @ NOT (CreateMask8 (unat prefix_len mod 8)) # replicate (15 - i) 0,
           sin6_scope_id = 0\<rparr>)"

text \<open>\<open>insert\<close>: the eight groups as 16-bit values in memory order; the first run of zeros is left out.\<close>

fun v6_groups :: "byte list \<Rightarrow> u16 list" where
  "v6_groups (x # y # bs) = word_le [x, y] # v6_groups bs"
| "v6_groups _ = []"

fun v6_loop :: "u16 list \<Rightarrow> nat \<Rightarrow> bool \<Rightarrow> string \<times> bool" where
  "v6_loop addr 0 used_zeros = ([], used_zeros)"
| "v6_loop addr (Suc n) used_zeros =
     (let i = 7 - n in
      if addr ! i = 0 \<and> \<not> used_zeros then v6_loop addr n used_zeros
      else
        let gap = (i > 0 \<and> addr ! (i - 1) = 0 \<and> \<not> used_zeros);
            (rest, used) = v6_loop addr n (used_zeros \<or> gap)
        in ((if gap then '' :'' else []) @ (if i > 0 then '':'' else [])
            @ hex_digits (unat (byteswapOnLittleEndian (addr ! i))) @ rest, used))"

definition ipv6_insert :: "sockaddr_in6 \<Rightarrow> string" where
  "ipv6_insert a =
     (let addr = v6_groups (s6_addr a); (body, used_zeros) = v6_loop addr 8 False
      in ''['' @ body @ (if \<not> used_zeros \<and> addr ! 7 = 0 then ''::'' else [])
         @ '']'' @ dec (unat (byteswapOnLittleEndian (sin6_port a))))"

definition ipv6_getPort :: "sockaddr_in6 \<Rightarrow> u32" where
  "ipv6_getPort a = ucast (byteswapOnLittleEndian (sin6_port a))"

definition ipv6_setPort :: "u16 \<Rightarrow> sockaddr_in6 \<Rightarrow> sockaddr_in6" where
  "ipv6_setPort v a = a\<lparr>sin6_port := byteswapOnLittleEndian v\<rparr>"

section \<open>Unix and unknown addresses\<close>

definition new_UnixAddress :: sockaddr_un where
  "new_UnixAddress = \<lparr>sun_family = AF_UNIX, sun_path = replicate 108 0, m_length = 2 + 107\<rparr>"

text \<open>The constructor with a path: the path is never copied, and the added offset follows the \<open>throw\<close>.\<close>

definition new_UnixAddress_path :: "string \<Rightarrow> addr_error + sockaddr_un" where
  "new_UnixAddress_path path =
     (let len = word_of_nat (length path + 1);
          len = (if path \<noteq> [] \<and> hd path = CHR 0x00 then len - 1 else len)
      in if len > (108 :: u32) then Inl PathTooLong
         else Inr \<lparr>sun_family = AF_UNIX, sun_path = replicate 108 0, m_length = len\<rparr>)"

definition getPath :: "sockaddr_un \<Rightarrow> byte list" where
  "getPath a =
     (if m_length a > 2 \<and> sun_path a ! 0 = 0
      then [0x5c, 0x30] @ take (unat (m_length a - 2 - 1)) (drop 1 (sun_path a))
      else takeWhile (\<lambda>b. b \<noteq> 0) (sun_path a))"

definition new_UnknownAddress :: "u16 \<Rightarrow> sockaddr" where
  "new_UnknownAddress family = \<lparr>sa_family = family, sa_data = replicate 14 0\<rparr>"

text \<open>\<open>Address::insert\<close>; that of a Unix address builds a string and drops it.\<close>

fun addr_insert :: "Address \<Rightarrow> string" where
  "addr_insert (IPv4Address a) = ipv4_insert a"
| "addr_insert (IPv6Address a) = ipv6_insert a"
| "addr_insert (UnixAddress a) = []"
| "addr_insert (UnknownAddress a) = ''[UnknownAddress family='' @ dec (unat (sa_family a)) @ '']''"

section \<open>Lookup\<close>

text \<open>
  How \<open>Lookup\<close> splits a host and a service before it calls \<open>getaddrinfo\<close>. A service is a C string
  inside \<open>host\<close>, \<open>None\<close> the null pointer.
\<close>

definition split_bracket :: "string \<Rightarrow> string \<times> string option" where
  "split_bracket host =
     (if host \<noteq> [] \<and> hd host = CHR '']'' then
        (case find_char (CHR '']'') (tl host) of
           None \<Rightarrow> ([], None)
         | Some i \<Rightarrow>
             (take i (tl host),
              if c_str (drop (i + 2) host) \<noteq> [] \<and> hd (drop (i + 2) host) = CHR '':''
              then Some (c_str (drop (i + 3) host)) else None))
      else ([], None))"

definition Lookup_split :: "string \<Rightarrow> string \<times> string option" where
  "Lookup_split host =
     (let (node, service) = split_bracket host;
          (node, service) =
            (if node = [] then
               (case find_char (CHR '':'') host of
                  None \<Rightarrow> (node, None)
                | Some i \<Rightarrow>
                    if CHR '':'' \<notin> set (c_str (drop (i + 1) host))
                    then (take i host, Some (c_str (drop (i + 1) host)))
                    else (node, Some (c_str (drop i host))))
             else (node, service))
      in (if node = [] then host else node, service))"

text \<open>\<open>Address::Create\<close> on what \<open>getaddrinfo\<close> returns, and the lookups over it.\<close>

datatype raw_addr = RawIn sockaddr_in | RawIn6 sockaddr_in6 | RawOther sockaddr

fun Address_Create :: "raw_addr \<Rightarrow> Address" where
  "Address_Create (RawIn a) = IPv4Address a"
| "Address_Create (RawIn6 a) = IPv6Address a"
| "Address_Create (RawOther a) = UnknownAddress a"

definition Lookup ::
  "(string \<Rightarrow> string option \<Rightarrow> raw_addr list option) \<Rightarrow> string \<Rightarrow> bool \<times> Address list" where
  "Lookup getaddrinfo host =
     (case Lookup_split host of (node, service) \<Rightarrow>
        (case getaddrinfo (c_str node) service of
           None \<Rightarrow> (False, [])
         | Some rs \<Rightarrow> (rs \<noteq> [], map Address_Create rs)))"

definition LookupAny :: "(string \<Rightarrow> string option \<Rightarrow> raw_addr list option) \<Rightarrow> string \<Rightarrow> Address option" where
  "LookupAny getaddrinfo host =
     (case Lookup getaddrinfo host of (ok, result) \<Rightarrow> if ok then Some (result ! 0) else None)"

fun is_ip :: "Address \<Rightarrow> bool" where
  "is_ip (IPv4Address _) = True"
| "is_ip (IPv6Address _) = True"
| "is_ip _ = False"

definition LookupAnyIPAddress ::
  "(string \<Rightarrow> string option \<Rightarrow> raw_addr list option) \<Rightarrow> string \<Rightarrow> Address option" where
  "LookupAnyIPAddress getaddrinfo host =
     (case Lookup getaddrinfo host of (ok, result) \<Rightarrow> if ok then find is_ip result else None)"

fun addr_setPort :: "u16 \<Rightarrow> Address \<Rightarrow> Address" where
  "addr_setPort v (IPv4Address a) = IPv4Address (ipv4_setPort v a)"
| "addr_setPort v (IPv6Address a) = IPv6Address (ipv6_setPort v a)"
| "addr_setPort v a = a"

text \<open>\<open>IPAddress::Create\<close> with \<open>AI_NUMERICHOST\<close>: the first result, if it is an IP address.\<close>

definition IPAddress_Create ::
  "(string \<Rightarrow> raw_addr list option) \<Rightarrow> string \<Rightarrow> u16 \<Rightarrow> Address option" where
  "IPAddress_Create getaddrinfo address port =
     (case getaddrinfo address of
        Some (r # _) \<Rightarrow>
          if is_ip (Address_Create r) then Some (addr_setPort port (Address_Create r)) else None
      | _ \<Rightarrow> None)"

section \<open>Lemmas\<close>

text \<open>The bytes of an address that take part in comparisons.\<close>

definition addr_key :: "Address \<Rightarrow> byte list" where
  "addr_key a = take (getAddrLen a) (getAddr a)"

definition addr_wf :: "Address \<Rightarrow> bool" where
  "addr_wf a \<longleftrightarrow> getAddrLen a \<le> length (getAddr a)"

lemma memcmp_take: "n \<le> i \<Longrightarrow> n \<le> j \<Longrightarrow> memcmp (take i xs) (take j ys) n = memcmp xs ys n"
proof (induction xs ys n arbitrary: i j rule: memcmp.induct)
  case (1 x xs y ys n)
  then show ?case by (cases i; cases j) auto
qed auto

lemma memcmp_lex:
  "(memcmp xs ys (min (length xs) (length ys)) < 0
      \<or> memcmp xs ys (min (length xs) (length ys)) = 0 \<and> length xs < length ys) = (xs < ys)
   \<and> (memcmp xs ys (min (length xs) (length ys)) = 0 \<and> length xs = length ys) = (xs = ys)"
proof (induction xs arbitrary: ys)
  case Nil
  then show ?case by (cases ys) auto
next
  case (Cons x xs)
  show ?case
  proof (cases ys)
    case Nil
    then show ?thesis by simp
  next
    fix y ys' assume ys: "ys = y # ys'"
    then show ?thesis using Cons.IH [of ys'] by (auto simp: min_def)
  qed
qed

lemma addr_less_lex:
  assumes "addr_wf a" "addr_wf b"
  shows "addr_less a b \<longleftrightarrow> addr_key a < addr_key b" "addr_eq a b \<longleftrightarrow> addr_key a = addr_key b"
proof -
  have len: "length (addr_key a) = getAddrLen a" "length (addr_key b) = getAddrLen b"
    using assms by (simp_all add: addr_key_def addr_wf_def)
  have m: "memcmp (addr_key a) (addr_key b) n = memcmp (getAddr a) (getAddr b) n"
    if "n \<le> getAddrLen a" "n \<le> getAddrLen b" for n
    using that by (simp add: addr_key_def memcmp_take)
  show "addr_less a b \<longleftrightarrow> addr_key a < addr_key b"
    using memcmp_lex [of "addr_key a" "addr_key b"] m [of "min (getAddrLen a) (getAddrLen b)"]
    by (auto simp: addr_less_def Let_def len)
  show "addr_eq a b \<longleftrightarrow> addr_key a = addr_key b"
    using memcmp_lex [of "addr_key a" "addr_key b"] m [of "min (getAddrLen a) (getAddrLen b)"]
    by (auto simp: addr_eq_def len)
qed

lemma CreateMask32_ok:
  assumes "1 \<le> unat p" "unat p \<le> 32"
  shows "CreateMask32 p = Inr (2 ^ (32 - unat p) - 1)"
  using assms by (simp add: CreateMask32_def word_le_nat_alt push_bit_eq_mult)

section \<open>Properties\<close>

text \<open>
  Comparing addresses is comparing the bytes they occupy lexicographically, a shorter address
  before its extensions, and \<open>==\<close> is equality of these bytes; so the order is linear on them.
\<close>

theorem addr_order:
  assumes "addr_wf a" "addr_wf b"
  shows "(addr_less a b \<longleftrightarrow> addr_key a < addr_key b) \<and> (addr_eq a b \<longleftrightarrow> addr_key a = addr_key b)
    \<and> (addr_less a b \<or> addr_less b a \<or> addr_eq a b) \<and> \<not> (addr_less a b \<and> (addr_less b a \<or> addr_eq a b))"
  unfolding addr_less_lex [OF assms] addr_less_lex(1) [OF assms(2,1)]
  using less_linear [of "addr_key a" "addr_key b"] less_asym [of "addr_key a" "addr_key b"]
    less_irrefl [of "addr_key a"] by metis

theorem addr_order_witness:
  "addr_less (IPv4Address (new_IPv4Address 0x7f000001 80)) (IPv6Address (new_IPv6Address (replicate 16 0) 80))
   \<noteq> addr_less (IPv6Address (new_IPv6Address (replicate 16 0) 80)) (IPv4Address (new_IPv4Address 0x7f000001 80))"
proof -
  let ?a = "IPv4Address (new_IPv4Address 0x7f000001 80)"
  let ?b = "IPv6Address (new_IPv6Address (replicate 16 0) 80)"
  have "addr_wf ?a" "addr_wf ?b" by (simp_all add: addr_wf_def new_IPv4Address_def new_IPv6Address_def)
  moreover have "\<not> addr_eq ?a ?b" by (simp add: addr_eq_def)
  ultimately show ?thesis using addr_order [of ?a ?b] by blast
qed

text \<open>
  For a prefix of 1 to 32 bits, read in host order, \<open>broadcastAddress\<close> sets the host bits,
  \<open>subnetMask\<close> has the prefix bits, and \<open>networdAddress\<close> keeps the host bits instead of the network
  bits, so that it agrees with the network address only where the two parts do; a prefix of zero
  shifts too far and a longer one than 32 yields no broadcast address. The port reads back as given.
\<close>

theorem ipv4_masks:
  fixes addr :: u32 and port :: u16
  assumes "1 \<le> unat p" "unat p \<le> 32"
  defines "host \<equiv> 2 ^ (32 - unat p) - 1 :: u32" and "a \<equiv> new_IPv4Address addr port"
  shows "(\<exists>b. ipv4_broadcastAddress p a = Inr (Some b) \<and> byteswap (s_addr b) = addr OR host)
    \<and> (\<exists>n. ipv4_networdAddress p a = Inr (Some n) \<and> byteswap (s_addr n) = addr AND host)
    \<and> (\<exists>m. ipv4_subnetMask p = Inr m \<and> byteswap (s_addr m) = NOT host)
    \<and> ipv4_broadcastAddress 0 a = Inl ShiftTooFar \<and> (unat q > 32 \<longrightarrow> ipv4_broadcastAddress q a = Inr None)
    \<and> ipv4_getPort a = ucast port"
proof -
  have m: "CreateMask32 p = Inr host" unfolding host_def by (rule CreateMask32_ok [OF assms(1,2)])
  have p: "\<not> p > 32" using assms(2) by (simp add: word_less_nat_alt)
  have s: "byteswap (s_addr a) = addr" by (simp add: a_def new_IPv4Address_def)
  have "CreateMask32 0 = Inl ShiftTooFar" by (simp add: CreateMask32_def)
  then show ?thesis
    using m p s by (simp add: ipv4_broadcastAddress_def ipv4_networdAddress_def ipv4_subnetMask_def
        ipv4_getPort_def byteswap_bitwise word_less_nat_alt a_def new_IPv4Address_def)
qed

theorem ipv4_masks_witness:
  "\<exists>n. ipv4_networdAddress 24 (new_IPv4Address 0xC0A80105 80) = Inr (Some n) \<and> byteswap (s_addr n) = 5"
  using ipv4_masks [of 24 "0xC0A80105" 80] by simp

text \<open>
  A host without colons is looked up as it is; \<open>name:service\<close> is split at the colon; of a host
  with several colons, as a numeric IPv6 address in brackets has, nothing is split off the node and
  everything from the first colon on is passed as the service.
\<close>

theorem Lookup_split_cases:
  assumes "CHR '':'' \<notin> set name" "CHR 0x00 \<notin> set rest" "name \<noteq> []" "hd name \<noteq> CHR '']''"
  shows "Lookup_split name = (name, None)
    \<and> (CHR '':'' \<notin> set rest \<longrightarrow> Lookup_split (name @ '':'' @ rest) = (name, Some rest))
    \<and> (CHR '':'' \<in> set rest \<longrightarrow> Lookup_split (name @ '':'' @ rest) = (name @ '':'' @ rest, Some ('':'' @ rest)))"
proof -
  have b: "split_bracket name = ([], None)" "split_bracket (name @ '':'' @ rest) = ([], None)"
    using assms(3,4) by (simp_all add: split_bracket_def)
  have "takeWhile (\<lambda>c. c \<noteq> CHR 0x00) rest = rest" using assms(2) by (subst takeWhile_eq_all_conv) auto
  then have c: "c_str rest = rest" "c_str (CHR '':'' # rest) = CHR '':'' # rest" by (simp_all add: c_str_def)
  show ?thesis
    using find_char_append [OF assms(1)] assms(3) c by (simp add: Lookup_split_def b [simplified])
qed

theorem Lookup_split_cases_witness:
  "Lookup_split ''localhost:80'' = (''localhost'', Some ''80'')
   \<and> Lookup_split ''[::1]:80'' = (''[::1]:80'', Some ''::1]:80'')"
  using Lookup_split_cases [of "''localhost''" "''80''"] Lookup_split_cases [of "''[''" "'':1]:80''"] by simp

end
