(* ===== verification/ConfigVars.thy ===== *)
theory ConfigVars
  imports StdContainers Util
begin

text \<open>
  Configuration variables (\<open>config.h\<close>, \<open>config.cc\<close>). The variables live in a heap, because the
  program keeps shared pointers to them and the registry only maps names to them. A variable carries
  the name of its C++ type, its conversions from and to text, its value and its listeners; \<open>'v\<close> is
  the union of the value types and \<open>'cb\<close> the listeners. What a listener does is a parameter that
  says whether it throws; the calls made are recorded in order. The YAML library is a parameter:
  a document is the tree it presents, parsing and printing are functions.
\<close>

section \<open>YAML documents and conversions\<close>

datatype yaml = YNull | YScalar string | YSeq "yaml list" | YMap "(yaml \<times> yaml) list"

text \<open>
  What the sources use of the library: \<open>YAML::Load\<close>, which may throw, printing a node, and what the
  iterators of a node yield, as nodes and as pairs.
\<close>

record yaml_lib =
  Load :: "string \<Rightarrow> yaml option"
  emit :: "yaml \<Rightarrow> string"
  seq_items :: "yaml \<Rightarrow> yaml list"
  map_items :: "yaml \<Rightarrow> (yaml \<times> yaml) list"

fun Scalar :: "yaml \<Rightarrow> string" where
  "Scalar (YScalar s) = s"
| "Scalar _ = []"

text \<open>
  The conversions of containers, over that of their elements, which may throw: first the loop that
  all of them share, then what each builds from the elements.
\<close>

fun cast_all :: "('x \<Rightarrow> 'y option) \<Rightarrow> 'x list \<Rightarrow> 'y list option" where
  "cast_all f [] = Some []"
| "cast_all f (x # xs) =
     (case f x of None \<Rightarrow> None
      | Some y \<Rightarrow> (case cast_all f xs of None \<Rightarrow> None | Some ys \<Rightarrow> Some (y # ys)))"

definition vector_of_string :: "yaml_lib \<Rightarrow> (string \<Rightarrow> 'a option) \<Rightarrow> string \<Rightarrow> 'a list option" where
  "vector_of_string Y from v =
     (case Load Y v of None \<Rightarrow> None
      | Some node \<Rightarrow> cast_all (\<lambda>i. from (emit Y i)) (seq_items Y node))"

definition string_of_vector :: "yaml_lib \<Rightarrow> ('a \<Rightarrow> string option) \<Rightarrow> 'a list \<Rightarrow> string option" where
  "string_of_vector Y to v =
     map_option (\<lambda>ns. emit Y (YSeq ns))
       (cast_all (\<lambda>i. case to i of None \<Rightarrow> None | Some s \<Rightarrow> Load Y s) v)"

definition list_of_string :: "yaml_lib \<Rightarrow> (string \<Rightarrow> 'a option) \<Rightarrow> string \<Rightarrow> 'a list option" where
  "list_of_string Y from v =
     (case Load Y v of None \<Rightarrow> None
      | Some node \<Rightarrow> cast_all (\<lambda>i. from (emit Y i)) (seq_items Y node))"

definition string_of_list :: "yaml_lib \<Rightarrow> ('a \<Rightarrow> string option) \<Rightarrow> 'a list \<Rightarrow> string option" where
  "string_of_list Y to v =
     map_option (\<lambda>ns. emit Y (YSeq ns))
       (cast_all (\<lambda>i. case to i of None \<Rightarrow> None | Some s \<Rightarrow> Load Y s) v)"

text \<open>A \<open>std::set\<close> in its order.\<close>

definition set_of_string :: "yaml_lib \<Rightarrow> ('a \<Rightarrow> 'a \<Rightarrow> bool) \<Rightarrow> (string \<Rightarrow> 'a option) \<Rightarrow> string \<Rightarrow> 'a list option" where
  "set_of_string Y lt from v =
     (case Load Y v of None \<Rightarrow> None
      | Some node \<Rightarrow> map_option (foldl (\<lambda>vec x. fst (set_insert lt x vec)) [])
          (cast_all (\<lambda>i. from (emit Y i)) (seq_items Y node)))"

definition string_of_set :: "yaml_lib \<Rightarrow> ('a \<Rightarrow> string option) \<Rightarrow> 'a list \<Rightarrow> string option" where
  "string_of_set Y to v =
     map_option (\<lambda>ns. emit Y (YSeq ns))
       (cast_all (\<lambda>i. case to i of None \<Rightarrow> None | Some s \<Rightarrow> Load Y s) v)"

text \<open>An unordered set is its elements; it is printed in the order \<open>v\<close> the iteration happens to have.\<close>

definition unordered_set_of_string :: "yaml_lib \<Rightarrow> (string \<Rightarrow> 'a option) \<Rightarrow> string \<Rightarrow> 'a set option" where
  "unordered_set_of_string Y from v =
     (case Load Y v of None \<Rightarrow> None
      | Some node \<Rightarrow> map_option (foldl (\<lambda>vec x. insert x vec) {})
          (cast_all (\<lambda>i. from (emit Y i)) (seq_items Y node)))"

definition string_of_unordered_set :: "yaml_lib \<Rightarrow> ('a \<Rightarrow> string option) \<Rightarrow> 'a list \<Rightarrow> string option" where
  "string_of_unordered_set Y to v =
     map_option (\<lambda>ns. emit Y (YSeq ns))
       (cast_all (\<lambda>i. case to i of None \<Rightarrow> None | Some s \<Rightarrow> Load Y s) v)"

text \<open>
  Maps with string keys. \<open>insert\<close> keeps the first value of a key. Printing assigns to the node key by
  key, which replaces the value of a key that is there and appends a new one.
\<close>

definition map_insert :: "string \<Rightarrow> 'a \<Rightarrow> (string \<times> 'a) list \<Rightarrow> (string \<times> 'a) list" where
  "map_insert k v m = (case map_find str_less k m of None \<Rightarrow> map_put str_less k v m | Some _ \<Rightarrow> m)"

definition pair_of_node :: "yaml_lib \<Rightarrow> (string \<Rightarrow> 'a option) \<Rightarrow> yaml \<times> yaml \<Rightarrow> (string \<times> 'a) option" where
  "pair_of_node Y from it = map_option (Pair (Scalar (fst it))) (from (emit Y (snd it)))"

definition map_of_string :: "yaml_lib \<Rightarrow> (string \<Rightarrow> 'a option) \<Rightarrow> string \<Rightarrow> (string \<times> 'a) list option" where
  "map_of_string Y from v =
     (case Load Y v of None \<Rightarrow> None
      | Some node \<Rightarrow> map_option (foldl (\<lambda>vec (k, x). map_insert k x vec) [])
          (cast_all (pair_of_node Y from) (map_items Y node)))"

fun node_assign :: "string \<Rightarrow> yaml \<Rightarrow> (yaml \<times> yaml) list \<Rightarrow> (yaml \<times> yaml) list" where
  "node_assign k n [] = [(YScalar k, n)]"
| "node_assign k n ((k', n') # m) = (if k' = YScalar k then (k', n) # m else (k', n') # node_assign k n m)"

definition node_of_pair :: "yaml_lib \<Rightarrow> ('a \<Rightarrow> string option) \<Rightarrow> string \<times> 'a \<Rightarrow> (string \<times> yaml) option" where
  "node_of_pair Y to i = (case to (snd i) of None \<Rightarrow> None | Some s \<Rightarrow> map_option (Pair (fst i)) (Load Y s))"

definition string_of_map :: "yaml_lib \<Rightarrow> ('a \<Rightarrow> string option) \<Rightarrow> (string \<times> 'a) list \<Rightarrow> string option" where
  "string_of_map Y to v =
     map_option (\<lambda>ns. emit Y (YMap (foldl (\<lambda>node (k, n). node_assign k n node) [] ns)))
       (cast_all (node_of_pair Y to) v)"

definition unordered_map_of_string ::
  "yaml_lib \<Rightarrow> (string \<Rightarrow> 'a option) \<Rightarrow> string \<Rightarrow> (string \<Rightarrow> 'a option) option" where
  "unordered_map_of_string Y from v =
     (case Load Y v of None \<Rightarrow> None
      | Some node \<Rightarrow> map_option (foldl (\<lambda>vec (k, x). if vec k = None then vec(k \<mapsto> x) else vec) Map.empty)
          (cast_all (pair_of_node Y from) (map_items Y node)))"

definition string_of_unordered_map :: "yaml_lib \<Rightarrow> ('a \<Rightarrow> string option) \<Rightarrow> (string \<times> 'a) list \<Rightarrow> string option" where
  "string_of_unordered_map Y to v =
     map_option (\<lambda>ns. emit Y (YMap (foldl (\<lambda>node (k, n). node_assign k n node) [] ns)))
       (cast_all (node_of_pair Y to) v)"

section \<open>Variables\<close>

record ('v, 'cb) ConfigVar =
  m_name :: string
  m_description :: string
  type_name :: string
  FromStr :: "string \<Rightarrow> 'v option"
  ToStr :: "'v \<Rightarrow> string option"
  m_val :: 'v
  m_cbs :: "(u64 \<times> 'cb) list"

definition new_ConfigVar ::
  "string \<Rightarrow> (string \<Rightarrow> 'v option) \<Rightarrow> ('v \<Rightarrow> string option) \<Rightarrow> string \<Rightarrow> 'v \<Rightarrow> string \<Rightarrow> ('v, 'cb) ConfigVar" where
  "new_ConfigVar T from to name default_value description =
     \<lparr>m_name = map tolower name, m_description = description, type_name = T, FromStr = from, ToStr = to,
      m_val = default_value, m_cbs = []\<rparr>"

definition toString :: "('v, 'cb) ConfigVar \<Rightarrow> string" where
  "toString x = (case ToStr x (m_val x) of Some s \<Rightarrow> s | None \<Rightarrow> [])"

text \<open>
  \<open>throws cb old new\<close> says that a listener throws; the calls are made in the order of the ids up to
  the first that does, and then the value is not stored.
\<close>

type_synonym ('v, 'cb) calls = "('cb \<times> 'v \<times> 'v) list"

fun call_cbs :: "('cb \<Rightarrow> 'v \<Rightarrow> 'v \<Rightarrow> bool) \<Rightarrow> (u64 \<times> 'cb) list \<Rightarrow> 'v \<Rightarrow> 'v \<Rightarrow> ('v, 'cb) calls \<times> bool" where
  "call_cbs throws [] old new = ([], True)"
| "call_cbs throws (i # is) old new =
     (if throws (snd i) old new then ([(snd i, old, new)], False)
      else let (cs, ok) = call_cbs throws is old new in ((snd i, old, new) # cs, ok))"

definition setValue ::
  "('cb \<Rightarrow> 'v \<Rightarrow> 'v \<Rightarrow> bool) \<Rightarrow> 'v \<Rightarrow> ('v, 'cb) ConfigVar \<Rightarrow> ('v, 'cb) calls \<times> bool \<times> ('v, 'cb) ConfigVar" where
  "setValue throws v x =
     (if v = m_val x then ([], True, x)
      else let (cs, ok) = call_cbs throws (m_cbs x) (m_val x) v
           in (cs, ok, if ok then x\<lparr>m_val := v\<rparr> else x))"

text \<open>Every exception is caught and logged; the result is \<open>false\<close> in every case.\<close>

definition fromString ::
  "('cb \<Rightarrow> 'v \<Rightarrow> 'v \<Rightarrow> bool) \<Rightarrow> string \<Rightarrow> ('v, 'cb) ConfigVar \<Rightarrow> ('v, 'cb) calls \<times> bool \<times> ('v, 'cb) ConfigVar" where
  "fromString throws val x =
     (case FromStr x val of None \<Rightarrow> ([], False, x)
      | Some v \<Rightarrow> let (cs, _, x) = setValue throws v x in (cs, False, x))"

text \<open>\<open>s_fun_id\<close> is a static of the instantiated template: one counter per type.\<close>

definition addListener ::
  "'cb \<Rightarrow> (string \<Rightarrow> u64) \<Rightarrow> ('v, 'cb) ConfigVar \<Rightarrow> u64 \<times> (string \<Rightarrow> u64) \<times> ('v, 'cb) ConfigVar" where
  "addListener cb s_fun_id x =
     (let i = s_fun_id (type_name x) + 1
      in (i, s_fun_id(type_name x := i), x\<lparr>m_cbs := map_put (<) i cb (m_cbs x)\<rparr>))"

definition delListener :: "u64 \<Rightarrow> ('v, 'cb) ConfigVar \<Rightarrow> ('v, 'cb) ConfigVar" where
  "delListener key x = x\<lparr>m_cbs := map_erase (<) key (m_cbs x)\<rparr>"

definition getListener :: "u64 \<Rightarrow> ('v, 'cb) ConfigVar \<Rightarrow> 'cb option" where
  "getListener key x = map_find (<) key (m_cbs x)"

definition clearListener :: "('v, 'cb) ConfigVar \<Rightarrow> ('v, 'cb) ConfigVar" where
  "clearListener x = x\<lparr>m_cbs := []\<rparr>"

section \<open>The registry\<close>

record ('v, 'cb) Config =
  s_datas :: "string \<Rightarrow> nat option"
  vars :: "nat \<Rightarrow> ('v, 'cb) ConfigVar option"

datatype config_error = InvalidArgument string | NullVar

definition name_chars :: string where
  "name_chars = ''abcdefghikjlmnopqrstuvwxyz._012345678''"

text \<open>
  \<open>Lookup<T>(name, default_value, description)\<close>: \<open>a\<close> is the address a new variable gets. The result
  is the pointer, null where the variable has another type.
\<close>

definition Lookup ::
  "nat \<Rightarrow> string \<Rightarrow> (string \<Rightarrow> 'v option) \<Rightarrow> ('v \<Rightarrow> string option) \<Rightarrow> string \<Rightarrow> 'v \<Rightarrow> string \<Rightarrow>
   ('v, 'cb) Config \<Rightarrow> config_error + nat option \<times> ('v, 'cb) Config" where
  "Lookup a T from to name default_value description c =
     (case s_datas c name of
        Some p \<Rightarrow>
          (case vars c p of None \<Rightarrow> Inl NullVar
           | Some x \<Rightarrow> if type_name x = T then Inr (Some p, c) else Inr (None, c))
      | None \<Rightarrow>
          if find_first_not_of name name_chars \<noteq> None then Inl (InvalidArgument name)
          else Inr (Some a, c\<lparr>s_datas := (s_datas c)(name \<mapsto> a),
            vars := (vars c)(a \<mapsto> new_ConfigVar T from to name default_value description)\<rparr>))"

definition Lookup_as :: "string \<Rightarrow> string \<Rightarrow> ('v, 'cb) Config \<Rightarrow> config_error + nat option" where
  "Lookup_as T name c =
     (case s_datas c name of None \<Rightarrow> Inr None
      | Some p \<Rightarrow> (case vars c p of None \<Rightarrow> Inl NullVar
          | Some x \<Rightarrow> Inr (if type_name x = T then Some p else None)))"

definition LookupBase :: "string \<Rightarrow> ('v, 'cb) Config \<Rightarrow> nat option" where
  "LookupBase name c = s_datas c name"

definition join_key :: "string \<Rightarrow> string \<Rightarrow> string" where
  "join_key p k = (if p = [] then k else p @ ''.'' @ k)"

fun ListAllMember :: "string \<Rightarrow> yaml \<Rightarrow> (string \<times> yaml) list" where
  "ListAllMember prefix node =
     (if find_first_not_of prefix name_chars \<noteq> None then []
      else (prefix, node) #
        (case node of
           YMap its \<Rightarrow> concat (map (\<lambda>it. ListAllMember (join_key prefix (Scalar (fst it))) (snd it)) its)
         | _ \<Rightarrow> []))"

declare ListAllMember.simps [simp del]

definition node_text :: "yaml_lib \<Rightarrow> yaml \<Rightarrow> string" where
  "node_text Y n = (case n of YScalar s \<Rightarrow> s | _ \<Rightarrow> emit Y n)"

definition load_node ::
  "yaml_lib \<Rightarrow> ('cb \<Rightarrow> 'v \<Rightarrow> 'v \<Rightarrow> bool) \<Rightarrow> string \<times> yaml \<Rightarrow> ('v, 'cb) calls \<times> ('v, 'cb) Config \<Rightarrow>
   ('v, 'cb) calls \<times> ('v, 'cb) Config" where
  "load_node Y throws i = (\<lambda>(cs, c).
     let key = fst i
     in if key = [] then (cs, c)
        else let key = map tolower key
             in case LookupBase key c of None \<Rightarrow> (cs, c)
                | Some p \<Rightarrow> (case vars c p of None \<Rightarrow> (cs, c)
                    | Some x \<Rightarrow>
                        let (cs', _, x') = fromString throws (node_text Y (snd i)) x
                        in (cs @ cs', c\<lparr>vars := (vars c)(p \<mapsto> x')\<rparr>)))"

definition LoadFromYaml ::
  "yaml_lib \<Rightarrow> ('cb \<Rightarrow> 'v \<Rightarrow> 'v \<Rightarrow> bool) \<Rightarrow> yaml \<Rightarrow> ('v, 'cb) Config \<Rightarrow> ('v, 'cb) calls \<times> ('v, 'cb) Config" where
  "LoadFromYaml Y throws root c = fold (load_node Y throws) (ListAllMember [] root) ([], c)"

section \<open>Names and paths\<close>

definition valid_name :: "string \<Rightarrow> bool" where
  "valid_name s \<longleftrightarrow> set s \<subseteq> set name_chars"

lemma find_first_not_of_None: "find_first_not_of s cs = None \<longleftrightarrow> set s \<subseteq> set cs"
proof -
  have "length (takeWhile (\<lambda>c. c \<in> set cs) s) = length s \<longleftrightarrow> takeWhile (\<lambda>c. c \<in> set cs) s = s"
    by (metis take_all takeWhile_eq_take order_refl)
  then show ?thesis by (auto simp: find_first_not_of_def Let_def takeWhile_eq_all_conv)
qed

lemma valid_name_iff [simp]: "find_first_not_of s name_chars = None \<longleftrightarrow> valid_name s"
  by (simp add: find_first_not_of_None valid_name_def)

lemma tolower_name_chars: "c \<in> set name_chars \<Longrightarrow> tolower c = c"
  by (auto simp: name_chars_def tolower_def)

lemma valid_name_lower: "valid_name s \<Longrightarrow> map tolower s = s"
  by (auto simp: valid_name_def intro: map_idI tolower_name_chars)

text \<open>The nodes below a node, with the keys that lead to them.\<close>

inductive yaml_path :: "yaml \<Rightarrow> string list \<Rightarrow> yaml \<Rightarrow> bool" where
  here: "yaml_path n [] n"
| below: "(k, m) \<in> set its \<Longrightarrow> yaml_path m ks n \<Longrightarrow> yaml_path (YMap its) (Scalar k # ks) n"

inductive_cases yaml_path_ConsE: "yaml_path n (k # ks) m"

lemma dot_valid [simp]: "CHR ''.'' \<in> set name_chars"
  by (simp add: name_chars_def)

lemma valid_join: "valid_name (foldl join_key p ks) \<Longrightarrow> valid_name p"
  by (induction ks arbitrary: p) (fastforce simp: join_key_def valid_name_def split: if_splits)+

lemma ListAllMember_iff:
  "x \<in> set (ListAllMember p n) \<longleftrightarrow> valid_name p \<and> (x = (p, n) \<or>
     (\<exists>its it. n = YMap its \<and> it \<in> set its \<and> x \<in> set (ListAllMember (join_key p (Scalar (fst it))) (snd it))))"
  by (subst ListAllMember.simps, cases n) (auto; force)+

lemma ListAllMember_sound:
  "(k, m) \<in> set (ListAllMember p n) \<Longrightarrow>
   \<exists>ks. yaml_path n ks m \<and> k = foldl join_key p ks \<and> valid_name k"
proof (induction p n rule: ListAllMember.induct)
  case (1 p n)
  from 1(2) [unfolded ListAllMember_iff [of _ p n]] consider
    (here) "valid_name p" "k = p" "m = n"
  | (below) its it where "n = YMap its" "valid_name p" "it \<in> set its"
      "(k, m) \<in> set (ListAllMember (join_key p (Scalar (fst it))) (snd it))" by blast
  then show ?case
  proof cases
    case here
    then show ?thesis using yaml_path.here by (intro exI [of _ "[]"]) simp
  next
    case below
    have "\<not> find_first_not_of p name_chars \<noteq> None" using below(2) by simp
    from 1(1) [OF this below(1,3)] below(4) obtain ks where "yaml_path (snd it) ks m" "k = foldl join_key (join_key p (Scalar (fst it))) ks" "valid_name k"
      by blast
    then show ?thesis
      using below(1,3) yaml_path.below [of "fst it" "snd it" its ks m]
      by (intro exI [of _ "Scalar (fst it) # ks"]) simp
  qed
qed

lemma ListAllMember_complete:
  "yaml_path n ks m \<Longrightarrow> valid_name (foldl join_key p ks) \<Longrightarrow> (foldl join_key p ks, m) \<in> set (ListAllMember p n)"
proof (induction arbitrary: p rule: yaml_path.induct)
  case (here n)
  then show ?case by (subst ListAllMember_iff) simp
next
  case (below k m its ks n)
  then have "valid_name p" using valid_join [of p "Scalar k # ks"] by simp
  moreover have "(foldl join_key (join_key p (Scalar k)) ks, n) \<in> set (ListAllMember (join_key p (Scalar k)) m)"
    using below by simp
  ultimately show ?case using below(1) by (subst ListAllMember_iff) force
qed

lemma set_ListAllMember:
  "set (ListAllMember p n) = {(foldl join_key p ks, m) | ks m. yaml_path n ks m \<and> valid_name (foldl join_key p ks)}"
  using ListAllMember_sound [of _ _ p n] ListAllMember_complete [of n _ _ p] by fast

section \<open>The registry's invariant\<close>

definition var_ok :: "string \<Rightarrow> ('v, 'cb) ConfigVar \<Rightarrow> bool" where
  "var_ok k x \<longleftrightarrow> m_name x = k \<and> lin.keys_sorted (m_cbs x)"

definition config_inv :: "('v, 'cb) Config \<Rightarrow> bool" where
  "config_inv c \<longleftrightarrow> (\<forall>k p. s_datas c k = Some p \<longrightarrow> valid_name k \<and> (\<exists>x. vars c p = Some x \<and> var_ok k x))"

text \<open>
  What a program can make of a registry, and the registries it can build from the empty one: it looks variables up, and through the pointers it got it sets
  values and adds, removes and clears listeners; documents are loaded in between.
\<close>

inductive config_from :: "('v, 'cb) Config \<Rightarrow> ('v, 'cb) Config \<Rightarrow> bool" for c0 :: "('v, 'cb) Config" where
  start: "config_from c0 c0"
| lookup: "config_from c0 c \<Longrightarrow> vars c a = None \<Longrightarrow> Lookup a T from to name d desc c = Inr (r, c') \<Longrightarrow> config_from c0 c'"
| set: "config_from c0 c \<Longrightarrow> vars c p = Some x \<Longrightarrow> setValue throws v x = (cs, ok, x') \<Longrightarrow>
    config_from c0 (c\<lparr>vars := (vars c)(p \<mapsto> x')\<rparr>)"
| add_listener: "config_from c0 c \<Longrightarrow> vars c p = Some x \<Longrightarrow> addListener cb ids x = (i, ids', x') \<Longrightarrow>
    config_from c0 (c\<lparr>vars := (vars c)(p \<mapsto> x')\<rparr>)"
| del_listener: "config_from c0 c \<Longrightarrow> vars c p = Some x \<Longrightarrow> config_from c0 (c\<lparr>vars := (vars c)(p \<mapsto> delListener i x)\<rparr>)"
| clear_listener: "config_from c0 c \<Longrightarrow> vars c p = Some x \<Longrightarrow> config_from c0 (c\<lparr>vars := (vars c)(p \<mapsto> clearListener x)\<rparr>)"
| load: "config_from c0 c \<Longrightarrow> LoadFromYaml Y throws root c = (cs, c') \<Longrightarrow> config_from c0 c'"

abbreviation config_reach :: "('v, 'cb) Config \<Rightarrow> bool" where
  "config_reach \<equiv> config_from \<lparr>s_datas = Map.empty, vars = Map.empty\<rparr>"

lemma config_invD: "config_inv c \<Longrightarrow> s_datas c k = Some p \<Longrightarrow> valid_name k \<and> (\<exists>x. vars c p = Some x \<and> var_ok k x)"
  by (simp add: config_inv_def)

lemma config_inv_update:
  "config_inv c \<Longrightarrow> vars c p = Some x \<Longrightarrow> (\<And>k. var_ok k x \<Longrightarrow> var_ok k x') \<Longrightarrow>
   config_inv (c\<lparr>vars := (vars c)(p \<mapsto> x')\<rparr>)"
  by (fastforce simp: config_inv_def)

lemma setValue_only_value: "snd (snd (setValue throws v x)) = x\<lparr>m_val := m_val (snd (snd (setValue throws v x)))\<rparr>"
  by (auto simp: setValue_def Let_def split: prod.splits)

lemma fromString_only_value:
  "snd (snd (fromString throws s x)) = x\<lparr>m_val := m_val (snd (snd (fromString throws s x)))\<rparr>"
proof (cases "FromStr x s")
  case (Some v)
  then show ?thesis using setValue_only_value [of throws v x] by (simp add: fromString_def Let_def split_beta)
qed (simp add: fromString_def)

lemma var_ok_value [simp]: "var_ok k (x\<lparr>m_val := v\<rparr>) = var_ok k x"
  by (simp add: var_ok_def)

lemma setValue_ok [simp]: "var_ok k (snd (snd (setValue throws v x))) = var_ok k x"
  by (metis setValue_only_value var_ok_value)

lemma fromString_ok [simp]: "var_ok k (snd (snd (fromString throws s x))) = var_ok k x"
  by (metis fromString_only_value var_ok_value)

lemma Lookup_inv:
  assumes "config_inv c" "vars c a = None" "Lookup a T from to name d desc c = Inr (r, c')"
  shows "config_inv c'"
proof -
  have "s_datas c k \<noteq> Some a" for k using config_invD [OF assms(1), of k a] assms(2) by auto
  moreover have "valid_name name \<Longrightarrow> var_ok name (new_ConfigVar T from to name d desc)"
    by (simp add: var_ok_def new_ConfigVar_def valid_name_lower)
  ultimately show ?thesis
    using assms by (auto simp: Lookup_def config_inv_def split: option.splits if_splits)
qed

lemma load_node_inv:
  assumes "config_inv c"
  shows "config_inv (snd (load_node Y throws i (cs, c)))"
  using assms by (auto simp: load_node_def Let_def split_beta' split: option.splits intro!: config_inv_update)

lemma load_nodes_inv: "config_inv (snd s) \<Longrightarrow> config_inv (snd (fold (load_node Y throws) is s))"
proof (induction "is" arbitrary: s)
  case (Cons i "is")
  then show ?case using load_node_inv [of "snd s" Y throws i "fst s"] by simp
qed simp

lemma config_from_inv: "config_from c0 c \<Longrightarrow> config_inv c0 \<Longrightarrow> config_inv c"
proof (induction rule: config_from.induct)
  case (load c Y throws root cs c')
  then show ?case using load_nodes_inv [of "([], c)" Y throws "ListAllMember [] root"] by (simp add: LoadFromYaml_def)
next
  case (add_listener c p x cb ids i ids' x')
  then show ?case
    by (auto intro!: config_inv_update simp: var_ok_def addListener_def Let_def lin.map_put_sorted)
next
  case (del_listener c p x i)
  then show ?case
    by (auto intro!: config_inv_update simp: var_ok_def delListener_def lin.map_erase_sorted)
next
  case (clear_listener c p x)
  then show ?case by (auto intro!: config_inv_update simp: var_ok_def clearListener_def)
next
  case (set c p x throws v cs ok x')
  then show ?case using setValue_ok [of _ throws v x] by (auto intro!: config_inv_update)
next
  case (lookup c a T "from" to name d desc r c')
  then show ?case by (simp add: Lookup_inv)
qed

lemma config_reach_inv: "config_reach c \<Longrightarrow> config_inv c"
  by (erule config_from_inv) (simp add: config_inv_def)

section \<open>What loading a document does\<close>

text \<open>
  The value a variable has after a text was offered to it: the converted one, unless the conversion
  or a listener throws.
\<close>

definition accept :: "('cb \<Rightarrow> 'v \<Rightarrow> 'v \<Rightarrow> bool) \<Rightarrow> ('v, 'cb) ConfigVar \<Rightarrow> 'v \<Rightarrow> string \<Rightarrow> 'v" where
  "accept throws x v s =
     (case FromStr x s of None \<Rightarrow> v
      | Some v' \<Rightarrow> if \<exists>cb\<in>snd ` set (m_cbs x). throws cb v v' then v else v')"

lemma accept_value [simp]: "accept throws (x\<lparr>m_val := w\<rparr>) = accept throws x"
  by (simp add: accept_def fun_eq_iff split: option.split)

lemma call_cbs_ok: "snd (call_cbs throws cbs old new) \<longleftrightarrow> (\<forall>cb\<in>snd ` set cbs. \<not> throws cb old new)"
  by (induction cbs) (auto simp: split_beta)

lemma fromString_accept: "snd (snd (fromString throws s x)) = x\<lparr>m_val := accept throws x (m_val x) s\<rparr>"
  by (cases "FromStr x s") (auto simp: fromString_def accept_def setValue_def split_beta call_cbs_ok)

lemma load_node_type:
  "map_option type_name (vars (snd (load_node Y throws i s)) p) = map_option type_name (vars (snd s) p)"
  by (auto simp: load_node_def Let_def split_beta fromString_accept split: option.splits)

lemma load_node_datas [simp]: "s_datas (snd (load_node Y throws i s)) = s_datas (snd s)"
  by (auto simp: load_node_def Let_def split_beta split: option.splits)

lemma load_nodes_datas [simp]: "s_datas (snd (fold (load_node Y throws) is s)) = s_datas (snd s)"
  by (induction "is" arbitrary: s) auto

lemma load_node_var:
  assumes "config_inv c" "valid_name (fst i)" "s_datas c k = Some p" "k \<noteq> []" "vars c p = Some x"
  shows "vars (snd (load_node Y throws i (cs, c))) p =
    Some (if fst i = k then x\<lparr>m_val := accept throws x (m_val x) (node_text Y (snd i))\<rparr> else x)"
proof -
  have "s_datas c (fst i) = Some p \<Longrightarrow> fst i = k"
    using config_invD [OF assms(1)] assms(3,5) by (metis option.inject var_ok_def)
  moreover have "snd (load_node Y throws i (cs, c)) = c \<or> (\<exists>q y. s_datas c (fst i) = Some q
      \<and> vars (snd (load_node Y throws i (cs, c))) = (vars c)(q \<mapsto> y) \<and> q \<noteq> p)" if "fst i \<noteq> k"
    using calculation that assms(2)
    by (fastforce simp: load_node_def LookupBase_def Let_def valid_name_lower split_beta split: option.splits)
  ultimately show ?thesis
    using assms by (cases "fst i = k")
      (auto simp: load_node_def LookupBase_def Let_def valid_name_lower split_beta fromString_accept)
qed

lemma load_nodes_var:
  assumes "config_inv (snd s)" "\<forall>i\<in>set is. valid_name (fst i)" "s_datas (snd s) k = Some p" "k \<noteq> []"
    "vars (snd s) p = Some x"
  shows "vars (snd (fold (load_node Y throws) is s)) p =
    Some (x\<lparr>m_val := foldl (accept throws x) (m_val x) (map (node_text Y \<circ> snd) (filter (\<lambda>i. fst i = k) is))\<rparr>)"
  using assms
proof (induction "is" arbitrary: s x)
  case (Cons i "is")
  let ?s = "load_node Y throws i s"
  have "vars (snd ?s) p = Some (if fst i = k then x\<lparr>m_val := accept throws x (m_val x) (node_text Y (snd i))\<rparr> else x)"
    using load_node_var [of "snd s" i k p x Y throws "fst s"] Cons.prems by simp
  from Cons.IH [OF _ _ _ _ this] Cons.prems load_node_inv [of "snd s" Y throws i "fst s"]
  show ?case by auto
qed simp

lemma load_node_other:
  "p \<notin> ran (s_datas (snd s)) \<Longrightarrow> vars (snd (load_node Y throws i s)) p = vars (snd s) p"
  by (auto simp: load_node_def LookupBase_def Let_def split_beta ran_def split: option.splits)

lemma load_nodes_other:
  "p \<notin> ran (s_datas (snd s)) \<Longrightarrow> vars (snd (fold (load_node Y throws) is s)) p = vars (snd s) p"
  by (induction "is" arbitrary: s) (auto simp: load_node_other)

text \<open>
  Who hears of a text that is offered to a variable with value \<open>v\<close>: when it converts to another value, the variable's
  listeners in the order of their ids, up to and with the first one that throws.
\<close>

definition told :: "('cb \<Rightarrow> bool) \<Rightarrow> 'cb list \<Rightarrow> 'cb list" where
  "told throw cbs = takeWhile (\<lambda>cb. \<not> throw cb) cbs @ take 1 (dropWhile (\<lambda>cb. \<not> throw cb) cbs)"

definition offered :: "('cb \<Rightarrow> 'v \<Rightarrow> 'v \<Rightarrow> bool) \<Rightarrow> ('v, 'cb) ConfigVar \<Rightarrow> 'v \<Rightarrow> string \<Rightarrow> ('v, 'cb) calls" where
  "offered throws x v s =
     (case FromStr x s of None \<Rightarrow> []
      | Some v' \<Rightarrow> if v' = v then [] else map (\<lambda>cb. (cb, v, v')) (told (\<lambda>cb. throws cb v v') (map snd (m_cbs x))))"

lemma call_cbs_told: "fst (call_cbs throws cbs old new) = map (\<lambda>cb. (cb, old, new)) (told (\<lambda>cb. throws cb old new) (map snd cbs))"
  by (induction cbs) (auto simp: told_def split_beta)

lemma fromString_offered: "fst (fromString throws s x) = offered throws x (m_val x) s"
  by (cases "FromStr x s") (auto simp: fromString_def offered_def setValue_def split_beta call_cbs_told)

lemma offered_value [simp]: "offered throws (x\<lparr>m_val := w\<rparr>) = offered throws x"
  by (simp add: offered_def fun_eq_iff split: option.split)

text \<open>
  The variable of a node, its value after the nodes before, and the calls that the node makes.
\<close>

definition var_of :: "('v, 'cb) Config \<Rightarrow> string \<Rightarrow> ('v, 'cb) ConfigVar option" where
  "var_of c k = (if k = [] then None else case s_datas c k of None \<Rightarrow> None | Some p \<Rightarrow> vars c p)"

definition value_after ::
  "yaml_lib \<Rightarrow> ('cb \<Rightarrow> 'v \<Rightarrow> 'v \<Rightarrow> bool) \<Rightarrow> ('v, 'cb) ConfigVar \<Rightarrow> string \<Rightarrow> (string \<times> yaml) list \<Rightarrow> 'v" where
  "value_after Y throws x k is = foldl (accept throws x) (m_val x) (map (node_text Y \<circ> snd) (filter (\<lambda>i. fst i = k) is))"

definition node_calls ::
  "yaml_lib \<Rightarrow> ('cb \<Rightarrow> 'v \<Rightarrow> 'v \<Rightarrow> bool) \<Rightarrow> ('v, 'cb) Config \<Rightarrow> (string \<times> yaml) list \<Rightarrow> nat \<Rightarrow> ('v, 'cb) calls" where
  "node_calls Y throws c is n =
     (case var_of c (fst (is ! n)) of None \<Rightarrow> []
      | Some x \<Rightarrow> offered throws x (value_after Y throws x (fst (is ! n)) (take n is)) (node_text Y (snd (is ! n))))"

lemma load_node_calls:
  "valid_name (fst i) \<Longrightarrow> fst (load_node Y throws i (cs, c)) =
     cs @ (case var_of c (fst i) of None \<Rightarrow> [] | Some x \<Rightarrow> offered throws x (m_val x) (node_text Y (snd i)))"
  by (auto simp: load_node_def LookupBase_def var_of_def Let_def split_beta valid_name_lower fromString_offered
      split: option.split)

lemma load_nodes_calls:
  assumes "config_inv c" "\<forall>i\<in>set is. valid_name (fst i)"
  shows "fst (fold (load_node Y throws) is ([], c)) = concat (map (node_calls Y throws c is) [0..<length is])"
  using assms(2)
proof (induction "is" rule: rev_induct)
  case (snoc i "is")
  let ?s = "fold (load_node Y throws) is ([], c)"
  have v: "valid_name (fst i)" and vs: "\<forall>i\<in>set is. valid_name (fst i)" using snoc.prems by simp_all
  have var: "var_of (snd ?s) (fst i) = map_option (\<lambda>x. x\<lparr>m_val := value_after Y throws x (fst i) is\<rparr>) (var_of c (fst i))"
  proof (cases "s_datas c (fst i)")
    case (Some p)
    then obtain x where "vars c p = Some x" using config_invD [OF assms(1)] by blast
    then show ?thesis using load_nodes_var [of "([], c)" "is" "fst i" p x Y throws] assms(1) vs Some
      by (cases "fst i = []") (simp_all add: var_of_def value_after_def)
  qed (simp add: var_of_def)
  have old: "map (node_calls Y throws c (is @ [i])) [0..<length is] = map (node_calls Y throws c is) [0..<length is]"
    by (auto simp: node_calls_def nth_append split: option.split)
  have "fst (fold (load_node Y throws) (is @ [i]) ([], c)) = fst ?s @
      (case var_of (snd ?s) (fst i) of None \<Rightarrow> [] | Some x \<Rightarrow> offered throws x (m_val x) (node_text Y (snd i)))"
    using load_node_calls [OF v, of Y throws "fst ?s" "snd ?s"] by simp
  also have "\<dots> = fst ?s @ node_calls Y throws c (is @ [i]) (length is)"
    by (simp add: var node_calls_def split: option.split)
  also have "\<dots> = concat (map (node_calls Y throws c (is @ [i])) [0..<length is]) @ node_calls Y throws c (is @ [i]) (length is)"
    unfolding snoc.IH [OF vs] old ..
  finally show ?case by simp
qed simp

text \<open>
  C27: loading a document, with any listeners, leaves every variable at the value its own nodes give
  it: the texts of all nodes whose path is its name are offered to it in document order, and a text is
  accepted when it converts and no listener throws. Names, listeners, variables that were created
  outside the registry and the registry itself do not change. The calls made are exactly these, in document order: a node
  whose text converts to a value that its variable does not have at that moment calls the listeners of that
  variable, in the order of their ids and with the old and the new value, up to and with the first that throws, after
  which the variable keeps the old value. The nodes considered are exactly those reached
  through keys that spell a valid dotted name.
\<close>

theorem LoadFromYaml_effect:
  assumes "config_reach c" "LoadFromYaml Y throws root c = (cs, c')"
  shows "s_datas c' = s_datas c \<and> config_reach c'
    \<and> (\<forall>k x. var_of c k = Some x \<longrightarrow>
        var_of c' k = Some (x\<lparr>m_val := value_after Y throws x k (ListAllMember [] root)\<rparr>))
    \<and> (\<forall>p. p \<notin> ran (s_datas c) \<longrightarrow> vars c' p = vars c p)
    \<and> cs = concat (map (node_calls Y throws c (ListAllMember [] root)) [0..<length (ListAllMember [] root)])
    \<and> set (ListAllMember [] root) =
        {(foldl join_key [] ks, n) | ks n. yaml_path root ks n \<and> valid_name (foldl join_key [] ks)}"
proof (intro conjI allI impI set_ListAllMember)
  have inv: "config_inv c" by (rule config_reach_inv [OF assms(1)])
  have c': "c' = snd (fold (load_node Y throws) (ListAllMember [] root) ([], c))"
    using assms(2) by (simp add: LoadFromYaml_def)
  have names: "\<forall>i\<in>set (ListAllMember [] root). valid_name (fst i)"
    using set_ListAllMember [of "[]" root] by auto
  show "s_datas c' = s_datas c" by (simp add: c')
  show "config_reach c'" by (rule config_from.load [OF assms])
  show "vars c' p = vars c p" if "p \<notin> ran (s_datas c)" for p
    using load_nodes_other [of p "([], c)"] that by (simp add: c')
  show "cs = concat (map (node_calls Y throws c (ListAllMember [] root)) [0..<length (ListAllMember [] root)])"
    using load_nodes_calls [OF inv names, of Y throws] assms(2) by (simp add: LoadFromYaml_def)
  show "var_of c' k = Some (x\<lparr>m_val := value_after Y throws x k (ListAllMember [] root)\<rparr>)" if v: "var_of c k = Some x" for k x
  proof -
    obtain p where "k \<noteq> []" "s_datas c k = Some p" "vars c p = Some x"
      using v by (auto simp: var_of_def split: if_splits option.splits)
    then show ?thesis
      using load_nodes_var [of "([], c)" "ListAllMember [] root" k p x] inv names by (simp add: c' var_of_def value_after_def)
  qed
qed

text \<open>What a name stands for never changes, whatever the program does next.\<close>

lemma Lookup_keeps:
  assumes "Lookup a T from to n d desc c = Inr (r, c')" "vars c a = None" "s_datas c k = Some p" "vars c p = Some x"
  shows "s_datas c' k = Some p \<and> vars c' p = Some x"
  using assms by (auto simp: Lookup_def split: option.splits if_splits)

lemma config_from_type:
  assumes "config_from c0 c" "s_datas c0 k = Some p" "map_option type_name (vars c0 p) = Some T"
  shows "s_datas c k = Some p \<and> map_option type_name (vars c p) = Some T"
  using assms
proof (induction rule: config_from.induct)
  case (lookup c a T' "from" to name d desc r c')
  then show ?case using Lookup_keeps [OF lookup(3,2), of k p] by auto
next
  case (set c q x throws v cs ok x')
  have "type_name x' = type_name x" using set.hyps(3) setValue_only_value [of throws v x] by (metis ConfigVar.surjective ConfigVar.update_convs(6) ConfigVar.select_convs(3) snd_conv)
  then show ?case using set by auto
next
  case (load c Y throws root cs c')
  have "map_option type_name (vars (snd (fold (load_node Y throws) is s)) p) = map_option type_name (vars (snd s) p)" for "is" s
    by (induction "is" arbitrary: s) (simp_all add: load_node_type)
  from this [of "ListAllMember [] root" "([], c)"] show ?case
    using load load_nodes_datas [of Y throws "ListAllMember [] root" "([], c)"] by (simp add: LoadFromYaml_def)
qed (auto simp: addListener_def delListener_def clearListener_def Let_def)

text \<open>
  The alphabet of names in the documentation is the digits, the small letters, the underscore and the dot; the one
  that is checked has no \<open>9\<close>.
\<close>

definition documented_chars :: string where
  "documented_chars = ''0123456789abcdefghijklmnopqrstuvwxyz_.''"

lemma no_nine: "CHR ''9'' \<in> set documented_chars \<and> (CHR ''9'' \<in> set name \<longrightarrow> \<not> valid_name name)"
proof -
  have "CHR ''9'' \<in> set documented_chars" "CHR ''9'' \<notin> set name_chars" by (simp_all add: documented_chars_def name_chars_def)
  then show ?thesis by (auto simp: valid_name_def)
qed

lemma valid_name_documented: "valid_name name \<Longrightarrow> set name \<subseteq> set documented_chars"
proof -
  have "set name_chars \<subseteq> set documented_chars" by (simp add: documented_chars_def name_chars_def)
  then show "valid_name name \<Longrightarrow> set name \<subseteq> set documented_chars" by (auto simp: valid_name_def)
qed

text \<open>
  C37: a variable looked up under a new valid name is created with the default, and is the one that every lookup of that
  name and type finds ever after, whatever default it brings and whatever the program has done with the registry in
  between: other lookups, new values, listeners that come and go, documents that are loaded. A lookup with another type
  gets a null pointer, and other names are not affected. A name with a character outside the documented alphabet is
  refused with an exception, and in a reachable registry no lookup follows a dangling pointer.
\<close>

theorem Lookup_laws:
  assumes "config_reach c" "vars c a = None"
  shows "(s_datas c name = None \<and> valid_name name \<longrightarrow>
      (\<exists>c'. Lookup a T from to name d desc c = Inr (Some a, c') \<and> config_reach c'
        \<and> map_option m_val (vars c' a) = Some d
        \<and> (\<forall>other. other \<noteq> name \<longrightarrow> LookupBase other c' = LookupBase other c)
        \<and> (\<forall>c''. config_from c' c'' \<longrightarrow> Lookup_as T name c'' = Inr (Some a)
            \<and> Lookup b T from' to' name d' desc' c'' = Inr (Some a, c'')
            \<and> (T' \<noteq> T \<longrightarrow> Lookup b T' from' to' name d' desc' c'' = Inr (None, c'')))))
    \<and> (\<not> set name \<subseteq> set documented_chars \<longrightarrow> Lookup a T from to name d desc c = Inl (InvalidArgument name))
    \<and> Lookup a T from to name d desc c \<noteq> Inl NullVar"
proof -
  let ?c = "c\<lparr>s_datas := (s_datas c)(name \<mapsto> a), vars := (vars c)(a \<mapsto> new_ConfigVar T from to name d desc)\<rparr>"
  note inv = config_invD [OF config_reach_inv [OF assms(1)]]
  have new: "Lookup a T from to name d desc c = Inr (Some a, ?c)" if "s_datas c name = None" "valid_name name"
    using that by (simp add: Lookup_def)
  have later: "s_datas c'' name = Some a \<and> map_option type_name (vars c'' a) = Some T" if "config_from ?c c''" for c''
    using config_from_type [OF that, of name a T] by (simp add: new_ConfigVar_def)
  have "Lookup_as T name c'' = Inr (Some a) \<and> Lookup b T from' to' name d' desc' c'' = Inr (Some a, c'')
      \<and> (T' \<noteq> T \<longrightarrow> Lookup b T' from' to' name d' desc' c'' = Inr (None, c''))" if "config_from ?c c''" for c''
    using later [OF that] by (auto simp: Lookup_def Lookup_as_def)
  moreover have "config_reach ?c" if "s_datas c name = None" "valid_name name"
    by (rule config_from.lookup [OF assms new [OF that]])
  moreover have "Lookup a T from to name d desc c = Inl (InvalidArgument name)" if "\<not> set name \<subseteq> set documented_chars"
  proof -
    have bad: "\<not> valid_name name" using that valid_name_documented by blast
    then have "s_datas c name = None" using inv [of name] by (cases "s_datas c name") auto
    then show ?thesis using bad by (simp add: Lookup_def)
  qed
  moreover have "Lookup a T from to name d desc c \<noteq> Inl NullVar"
    using inv [of name] by (auto simp: Lookup_def split: option.splits)
  ultimately show ?thesis using new by (auto simp: new_ConfigVar_def LookupBase_def)
qed

section \<open>Round trips of the container conversions\<close>

lemma cast_all_intro: "list_all2 (\<lambda>x y. f x = Some y) xs ys \<Longrightarrow> cast_all f xs = Some ys"
  by (induction rule: list_all2_induct) auto

text \<open>An element converts to text that parses to a node, and the printed node converts back to it.\<close>

definition elem_ok :: "yaml_lib \<Rightarrow> (string \<Rightarrow> 'a option) \<Rightarrow> ('a \<Rightarrow> string option) \<Rightarrow> 'a \<Rightarrow> yaml \<Rightarrow> bool" where
  "elem_ok Y from to x n \<longleftrightarrow> (\<exists>s. to x = Some s \<and> Load Y s = Some n) \<and> from (emit Y n) = Some x"

lemma elems_out:
  "list_all2 (elem_ok Y from to) v ns \<Longrightarrow>
   cast_all (\<lambda>i. case to i of None \<Rightarrow> None | Some s \<Rightarrow> Load Y s) v = Some ns"
  by (rule cast_all_intro, erule list_all2_mono) (auto simp: elem_ok_def)

lemma elems_in:
  "list_all2 (elem_ok Y from to) v ns \<Longrightarrow> cast_all (\<lambda>i. from (emit Y i)) ns = Some v"
  by (rule cast_all_intro) (auto simp: elem_ok_def list_all2_conv_all_nth)

lemma pairs_out:
  "list_all2 (\<lambda>i n. elem_ok Y from to (snd i) n) m ns \<Longrightarrow>
   cast_all (node_of_pair Y to) m = Some (zip (map fst m) ns)"
  by (rule cast_all_intro) (auto simp: elem_ok_def node_of_pair_def list_all2_conv_all_nth)

lemma pairs_in:
  "list_all2 (\<lambda>i n. elem_ok Y from to (snd i) n) m ns \<Longrightarrow>
   cast_all (pair_of_node Y from) (zip (map (YScalar \<circ> fst) m) ns) = Some m"
  by (rule cast_all_intro) (auto simp: elem_ok_def pair_of_node_def list_all2_conv_all_nth)

lemma node_assign_new: "YScalar k \<notin> fst ` set node \<Longrightarrow> node_assign k n node = node @ [(YScalar k, n)]"
  by (induction k n node rule: node_assign.induct) auto

lemma foldl_node_assign:
  "distinct ks \<Longrightarrow> length ks = length ns \<Longrightarrow> \<forall>k\<in>set ks. YScalar k \<notin> fst ` set node \<Longrightarrow>
   foldl (\<lambda>node (k, n). node_assign k n node) node (zip ks ns) = node @ zip (map YScalar ks) ns"
proof (induction ks ns arbitrary: node rule: list_induct2')
  case (4 k ks n ns)
  then have "foldl (\<lambda>node (k, n). node_assign k n node) (node @ [(YScalar k, n)]) (zip ks ns)
      = (node @ [(YScalar k, n)]) @ zip (map YScalar ks) ns" by (intro 4(1)) auto
  then show ?case using 4 by (simp add: node_assign_new)
qed auto

lemma foldl_map_insert:
  "str.keys_sorted (acc @ m) \<Longrightarrow> foldl (\<lambda>vec (k, x). map_insert k x vec) acc m = acc @ m"
proof (induction m arbitrary: acc)
  case (Cons i m)
  then have "\<forall>p\<in>set acc. str_less (fst p) (fst i)" by (auto simp: sorted_wrt_append)
  then have "map_insert (fst i) (snd i) acc = acc @ [i]"
    by (simp add: map_insert_def str.map_find_above str.map_put_last)
  then show ?case using Cons by (simp add: split_beta)
qed simp

lemma foldl_unordered_insert:
  "foldl (\<lambda>vec (k, x). if vec k = None then vec(k \<mapsto> x) else vec) M m = map_of m ++ M"
proof (induction m arbitrary: M)
  case (Cons i m)
  then show ?case by (cases "M (fst i)") (auto simp: split_beta fun_eq_iff map_add_def split: option.splits)
qed simp

lemma foldl_insert: "foldl (\<lambda>vec x. insert x vec) A xs = A \<union> set xs"
  by (induction xs arbitrary: A) auto

text \<open>
  For elements that survive their own conversion, and a YAML library that parses the one sequence
  and the one map printed here back to themselves, every container conversion is undone by its
  inverse: vectors and lists element by element, sets and maps in their order, the unordered ones as
  a set and as a function.
\<close>

theorem container_round_trip:
  assumes "list_all2 (elem_ok Y from to) v ns"
    and "Load Y (emit Y (YSeq ns)) = Some (YSeq ns)" "seq_items Y (YSeq ns) = ns"
    and "list_all2 (\<lambda>i n. elem_ok Y from to (snd i) n) m ms"
    and "let n = YMap (zip (map (YScalar \<circ> fst) m) ms) in Load Y (emit Y n) = Some n
      \<and> map_items Y n = zip (map (YScalar \<circ> fst) m) ms"
    and "strict_weak_order lt" "sorted_wrt lt v" "sorted_wrt str_less (map fst m)"
  shows "Option.bind (string_of_vector Y to v) (vector_of_string Y from) = Some v
    \<and> Option.bind (string_of_list Y to v) (list_of_string Y from) = Some v
    \<and> Option.bind (string_of_set Y to v) (set_of_string Y lt from) = Some v
    \<and> Option.bind (string_of_unordered_set Y to v) (unordered_set_of_string Y from) = Some (set v)
    \<and> Option.bind (string_of_map Y to m) (map_of_string Y from) = Some m
    \<and> Option.bind (string_of_unordered_map Y to m) (unordered_map_of_string Y from) = Some (map_of m)"
proof -
  have set: "foldl (\<lambda>vec x. fst (set_insert lt x vec)) [] v = v"
    using strict_weak_order.foldl_set_insert [OF assms(6), of "[]" v] assms(7) by simp
  have len: "length m = length ms" using assms(4) by (rule list_all2_lengthD)
  have node: "foldl (\<lambda>node (k, n). node_assign k n node) [] (zip (map fst m) ms) = zip (map (YScalar \<circ> fst) m) ms"
    using foldl_node_assign [of "map fst m" ms "[]"] str.sorted_distinct [OF assms(8)] len by simp
  have map: "foldl (\<lambda>vec (k, x). map_insert k x vec) [] m = m"
    using foldl_map_insert [of "[]" m] assms(8) by simp
  note elems = elems_out [OF assms(1)] elems_in [OF assms(1)] pairs_out [OF assms(4)] pairs_in [OF assms(4)]
  show ?thesis
    using assms(2,3,5) set node map
    by (simp add: string_of_vector_def vector_of_string_def string_of_list_def list_of_string_def
        string_of_set_def set_of_string_def string_of_unordered_set_def unordered_set_of_string_def
        string_of_map_def map_of_string_def string_of_unordered_map_def unordered_map_of_string_def
        elems foldl_insert foldl_unordered_insert Let_def)
qed

text \<open>A library that knows one sequence and one map besides scalars, and a registry with one variable.\<close>

definition sample_yaml :: yaml_lib where
  "sample_yaml = \<lparr>
     Load = (\<lambda>s. Some (if s = ''[7]'' then YSeq [YScalar ''7'']
       else if s = ''{a: 7}'' then YMap [(YScalar ''a'', YScalar ''7'')] else YScalar s)),
     emit = (\<lambda>n. case n of YScalar s \<Rightarrow> s | YSeq _ \<Rightarrow> ''[7]'' | YMap _ \<Rightarrow> ''{a: 7}'' | YNull \<Rightarrow> ''~''),
     seq_items = (\<lambda>n. case n of YSeq ns \<Rightarrow> ns | _ \<Rightarrow> []),
     map_items = (\<lambda>n. case n of YMap its \<Rightarrow> its | _ \<Rightarrow> [])\<rparr>"

theorem container_round_trip_witness:
  "Option.bind (string_of_map sample_yaml Some [(''a'', ''7'')]) (map_of_string sample_yaml Some) = Some [(''a'', ''7'')]
   \<and> Option.bind (string_of_vector sample_yaml Some [''7'']) (vector_of_string sample_yaml Some) = Some [''7'']"
  using container_round_trip [of sample_yaml Some Some "[''7'']" "[YScalar ''7'']" "[(''a'', ''7'')]" "[YScalar ''7'']" str_less]
  by (simp add: sample_yaml_def elem_ok_def str.strict_weak_order_axioms)

definition sample_var :: "(string, nat) ConfigVar" where
  "sample_var = (new_ConfigVar ''T'' Some Some ''a'' ''0'' [])\<lparr>m_cbs := [(1, 5)]\<rparr>"

definition sample_config :: "(string, nat) Config" where
  "sample_config = \<lparr>s_datas = [''a'' \<mapsto> 0], vars = [0 \<mapsto> sample_var]\<rparr>"

lemma sample_config_reach: "config_reach sample_config"
proof -
  let ?x = "new_ConfigVar ''T'' Some Some ''a'' ''0'' []" and ?c = "\<lparr>s_datas = [''a'' \<mapsto> 0], vars = [0 \<mapsto> new_ConfigVar ''T'' Some Some ''a'' ''0'' []]\<rparr>"
  have "valid_name ''a''" by (simp add: valid_name_def name_chars_def)
  then have "Lookup 0 ''T'' Some Some ''a'' ''0'' [] \<lparr>s_datas = Map.empty, vars = Map.empty\<rparr> = Inr (Some 0, ?c)"
    by (simp add: Lookup_def)
  from config_from.lookup [OF config_from.start _ this] have "config_reach ?c" by simp
  moreover have "addListener 5 (\<lambda>_. 0) ?x = (1, (\<lambda>_. 0)(''T'' := 1), sample_var)"
    by (simp add: addListener_def sample_var_def new_ConfigVar_def Let_def)
  ultimately have "config_reach (?c\<lparr>vars := (vars ?c)(0 \<mapsto> sample_var)\<rparr>)" by (intro config_from.add_listener) simp_all
  then show ?thesis by (simp add: sample_config_def)
qed

theorem LoadFromYaml_effect_witness:
  "map_option m_val (var_of (snd (LoadFromYaml sample_yaml (\<lambda>_ _ _. False) (YMap [(YScalar ''a'', YScalar ''7'')]) sample_config)) ''a'')
     = Some ''7''
   \<and> fst (LoadFromYaml sample_yaml (\<lambda>_ _ _. False) (YMap [(YScalar ''a'', YScalar ''7'')]) sample_config) = [(5, ''0'', ''7'')]"
proof -
  let ?r = "YMap [(YScalar ''a'', YScalar ''7'')]"
  have l: "ListAllMember [] ?r = [([], ?r), (''a'', YScalar ''7'')]"
    by (simp add: ListAllMember.simps find_first_not_of_def name_chars_def join_key_def)
  note e = LoadFromYaml_effect [OF sample_config_reach surjective_pairing, of sample_yaml "\<lambda>_ _ _. False" ?r]
  have "var_of sample_config ''a'' = Some sample_var" "var_of sample_config [] = None"
    by (simp_all add: var_of_def sample_config_def)
  then show ?thesis
    using e unfolding l
    by (simp add: node_calls_def value_after_def offered_def told_def node_text_def accept_def sample_var_def new_ConfigVar_def)
qed

theorem Lookup_laws_witness:
  "Lookup 1 ''T'' Some Some ''V!'' ''0'' [] sample_config = Inl (InvalidArgument ''V!'')
   \<and> (\<exists>c'. Lookup 1 ''T'' Some Some ''b'' ''0'' [] sample_config = Inr (Some 1, c')
        \<and> Lookup 2 ''U'' Some Some ''b'' ''5'' [] c' = Inr (None, c'))"
proof -
  have "vars sample_config 1 = None" "s_datas sample_config ''b'' = None" "valid_name ''b''" "\<not> set ''V!'' \<subseteq> set documented_chars"
    by (simp_all add: sample_config_def valid_name_def name_chars_def documented_chars_def)
  then show ?thesis
    using Lookup_laws [OF sample_config_reach, of 1 "''V!''" "''T''" Some Some "''0''" "[]" 2 Some Some "''5''" "[]" "''U''"]
      Lookup_laws [OF sample_config_reach, of 1 "''b''" "''T''" Some Some "''0''" "[]" 2 Some Some "''5''" "[]" "''U''"]
      config_from.start by auto
qed

end
