(* ===== verification/Env.thy ===== *)
theory Env
  imports StdContainers Util
begin

text \<open>
  The program's environment (\<open>env.h\<close>, \<open>env.cc\<close>): command-line options, their help texts and the
  paths derived from the executable. The contents of \<open>/proc/<pid>/exe\<close> and the process environment
  are arguments. The theorem on \<open>init\<close> says which command lines it accepts and what they mean.
\<close>

section \<open>State and operations\<close>

record Env =
  m_args :: "(string \<times> string) list"
  m_helps :: "(string \<times> string) list"
  m_program :: string
  m_exe :: string
  m_cwd :: string

definition env_add :: "string \<Rightarrow> string \<Rightarrow> Env \<Rightarrow> Env" where
  "env_add key val e = e\<lparr>m_args := map_put str_less key val (m_args e)\<rparr>"

definition env_has :: "string \<Rightarrow> Env \<Rightarrow> bool" where
  "env_has key e \<longleftrightarrow> map_find str_less key (m_args e) \<noteq> None"

definition env_del :: "string \<Rightarrow> Env \<Rightarrow> Env" where
  "env_del key e = e\<lparr>m_args := map_erase str_less key (m_args e)\<rparr>"

definition env_get :: "string \<Rightarrow> string \<Rightarrow> Env \<Rightarrow> string" where
  "env_get key default_value e = (case map_find str_less key (m_args e) of Some v \<Rightarrow> v | None \<Rightarrow> default_value)"

text \<open>
  The loop over \<open>argv\<close> from index 1, with the key that waits for its value. An argument is a C string,
  so \<open>argv[i][0]\<close> of an empty one is the terminating zero.
\<close>

fun init_loop :: "string list \<Rightarrow> string option \<Rightarrow> Env \<Rightarrow> bool \<times> Env" where
  "init_loop [] now_key e = (True, case now_key of Some k \<Rightarrow> env_add k [] e | None \<Rightarrow> e)"
| "init_loop (arg # args) now_key e =
     (if arg \<noteq> [] \<and> hd arg = CHR ''-'' then
        if length arg > 1 then
          init_loop args (Some (tl arg)) (case now_key of Some k \<Rightarrow> env_add k [] e | None \<Rightarrow> e)
        else (False, e)
      else
        case now_key of
          Some k \<Rightarrow> init_loop args None (env_add k arg e)
        | None \<Rightarrow> (False, e))"

text \<open>\<open>substr(0, npos)\<close> is the whole string.\<close>

definition env_init :: "string \<Rightarrow> string \<Rightarrow> string list \<Rightarrow> Env \<Rightarrow> bool \<times> Env" where
  "env_init path argv0 args e =
     (let e = e\<lparr>m_exe := path\<rparr>;
          e = e\<lparr>m_cwd := (case rfind (m_exe e) (CHR ''/'') of Some pos \<Rightarrow> take pos (m_exe e) | None \<Rightarrow> m_exe e) @ ''/''\<rparr>;
          e = e\<lparr>m_program := argv0\<rparr>
      in init_loop args None e)"

definition removeHelp :: "string \<Rightarrow> Env \<Rightarrow> Env" where
  "removeHelp key e = e\<lparr>m_helps := filter (\<lambda>it. fst it \<noteq> key) (m_helps e)\<rparr>"

definition addHelp :: "string \<Rightarrow> string \<Rightarrow> Env \<Rightarrow> Env" where
  "addHelp key desc e = (let e = removeHelp key e in e\<lparr>m_helps := m_helps e @ [(key, desc)]\<rparr>)"

definition printHelp :: "Env \<Rightarrow> string" where
  "printHelp e = ''Usage: '' @ m_program e @ '' [options]'' @ [CHR 0x0A]
     @ concat (map (\<lambda>i. ''    -'' @ fst i @ '' : '' @ snd i @ [CHR 0x0A]) (m_helps e))"

definition getEnv :: "(string \<Rightarrow> string option) \<Rightarrow> string \<Rightarrow> string \<Rightarrow> string" where
  "getEnv process_env key default_value =
     (case process_env (c_str key) of None \<Rightarrow> default_value | Some v \<Rightarrow> v)"

definition getAbsolutePath :: "string \<Rightarrow> Env \<Rightarrow> string" where
  "getAbsolutePath path e =
     (if path = [] then ''/'' else if hd path = CHR ''/'' then path else m_cwd e @ path)"

text \<open>\<open>work_path\<close> is the value of the variable \<open>server.work_path\<close>.\<close>

definition getAbsoluteWorkPath :: "string \<Rightarrow> string \<Rightarrow> string" where
  "getAbsoluteWorkPath work_path path =
     (if path = [] then ''/'' else if hd path = CHR ''/'' then path else work_path @ ''/'' @ path)"

definition getConfigPath :: "Env \<Rightarrow> string" where
  "getConfigPath e = getAbsolutePath (env_get ''c'' ''conf'' e) e"

section \<open>Which command lines are accepted\<close>

text \<open>A command line as options, each with a value or without one.\<close>

type_synonym option_line = "(string \<times> string option) list"

definition is_key :: "string \<Rightarrow> bool" where
  "is_key k \<longleftrightarrow> k \<noteq> []"

definition is_value :: "string \<Rightarrow> bool" where
  "is_value v \<longleftrightarrow> v = [] \<or> hd v \<noteq> CHR ''-''"

definition good_options :: "option_line \<Rightarrow> bool" where
  "good_options os \<longleftrightarrow> (\<forall>(k, v)\<in>set os. is_key k \<and> (case v of Some v \<Rightarrow> is_value v | None \<Rightarrow> True))"

fun spell :: "option_line \<Rightarrow> string list" where
  "spell [] = []"
| "spell ((k, v) # os) = (CHR ''-'' # k) # (case v of Some v \<Rightarrow> v # spell os | None \<Rightarrow> spell os)"

definition option_value :: "string option \<Rightarrow> string" where
  "option_value v = (case v of Some v \<Rightarrow> v | None \<Rightarrow> [])"

definition add_option :: "string \<times> string option \<Rightarrow> Env \<Rightarrow> Env" where
  "add_option kv e = env_add (fst kv) (option_value (snd kv)) e"

lemma init_loop_spell:
  "good_options os \<Longrightarrow> init_loop (spell os) now_key e =
     (True, fold add_option os (case now_key of Some k \<Rightarrow> env_add k [] e | None \<Rightarrow> e))"
proof (induction os arbitrary: now_key e)
  case (Cons kv os)
  obtain k v where kv: "kv = (k, v)" by (cases kv)
  have good: "good_options os" "k \<noteq> []" "case v of Some v \<Rightarrow> is_value v | None \<Rightarrow> True"
    using Cons.prems kv by (auto simp: good_options_def is_key_def)
  show ?case
  proof (cases v)
    case None
    then show ?thesis using Cons.IH [OF good(1)] good(2) kv
      by (auto simp: add_option_def option_value_def split: option.splits)
  next
    case (Some u)
    then show ?thesis using Cons.IH [OF good(1)] good(2,3) kv
      by (auto simp: add_option_def option_value_def is_value_def split: option.splits)
  qed
qed simp

definition waiting :: "string option \<Rightarrow> string list" where
  "waiting now_key = (case now_key of None \<Rightarrow> [] | Some k \<Rightarrow> [CHR ''-'' # k])"

lemma waiting_simps [simp]: "waiting None = []" "waiting (Some k) = [CHR ''-'' # k]"
  by (simp_all add: waiting_def)

lemma good_options_Cons [simp]:
  "good_options ((k, v) # os) \<longleftrightarrow> is_key k \<and> (case v of Some v \<Rightarrow> is_value v | None \<Rightarrow> True) \<and> good_options os"
  by (auto simp: good_options_def)

lemma good_options_Nil [simp]: "good_options []"
  by (simp add: good_options_def)

lemma spell_complete:
  "fst (init_loop args now_key e) \<Longrightarrow> (\<And>k. now_key = Some k \<Longrightarrow> is_key k) \<Longrightarrow>
   \<exists>os. good_options os \<and> waiting now_key @ args = spell os"
proof (induction args now_key e rule: init_loop.induct)
  case (1 now_key e)
  have "good_options (case now_key of None \<Rightarrow> [] | Some k \<Rightarrow> [(k, None)])
    \<and> waiting now_key @ [] = spell (case now_key of None \<Rightarrow> [] | Some k \<Rightarrow> [(k, None)])"
    using 1 by (auto split: option.split)
  then show ?case by blast
next
  case (2 arg args now_key e)
  show ?case
  proof (cases "arg \<noteq> [] \<and> hd arg = CHR ''-''")
    case True
    then have l: "length arg > 1" using 2(3) by (auto split: if_splits)
    then have k: "is_key (tl arg)" "CHR ''-'' # tl arg = arg"
      using True by (cases arg; auto simp: is_key_def)+
    then obtain os where os: "good_options os" "arg # args = spell os"
      using 2(1) [OF True l] 2(3) True l by auto
    have "\<exists>os. good_options os \<and> (CHR ''-'' # k) # arg # args = spell os" if "now_key = Some k" for k
      using os 2(4) [OF that] by (intro exI [of _ "(k, None) # os"]) simp
    then show ?thesis using os by (cases now_key) auto
  next
    case False
    then obtain k where k: "now_key = Some k" using 2(3) by (auto split: option.splits)
    then obtain os where os: "good_options os" "args = spell os"
      using 2(2) [OF False k] 2(3) False by auto
    then show ?thesis using k False 2(4) [OF k]
      by (intro exI [of _ "(k, Some arg) # os"]) (auto simp: is_value_def)
  qed
qed

text \<open>The last value given to an option.\<close>

definition last_value :: "string \<Rightarrow> option_line \<Rightarrow> string option" where
  "last_value key os = map_option option_value (map_of (rev os) key)"

lemma add_options_find:
  "str.keys_sorted (m_args e) \<Longrightarrow>
   str.keys_sorted (m_args (fold add_option os e)) \<and>
   map_find str_less key (m_args (fold add_option os e)) =
     (case last_value key os of Some v \<Rightarrow> Some v | None \<Rightarrow> map_find str_less key (m_args e))"
proof (induction os arbitrary: e)
  case (Cons kv os)
  have "str.keys_sorted (m_args (add_option kv e))"
    using Cons.prems by (simp add: add_option_def env_add_def str.map_put_sorted)
  from Cons.IH [OF this] show ?case
    using Cons.prems
    by (auto simp: add_option_def env_add_def last_value_def map_add_def str.map_find_put split: option.splits)
qed (simp add: last_value_def)

lemma add_options_frame:
  "m_exe (fold add_option os e) = m_exe e" "m_cwd (fold add_option os e) = m_cwd e"
  "m_program (fold add_option os e) = m_program e" "m_helps (fold add_option os e) = m_helps e"
  by (induction os arbitrary: e) (auto simp: add_option_def env_add_def)

text \<open>
  \<open>init\<close> accepts exactly the command lines that spell options, each a dash and a name with at most
  one value that does not begin with a dash, and then every option has the value given to it last, the
  empty one where it had none, while options that do not occur keep what they had. Relative paths are
  then resolved against the directory of the executable.
\<close>

theorem env_init_options:
  assumes "sorted_wrt str_less (map fst (m_args e))"
  shows "(fst (env_init path argv0 args e) \<longleftrightarrow> (\<exists>os. good_options os \<and> args = spell os))
    \<and> (good_options os \<longrightarrow>
        env_get key d (snd (env_init path argv0 (spell os) e))
          = (case last_value key os of Some v \<Rightarrow> v | None \<Rightarrow> env_get key d e)
      \<and> (env_has key (snd (env_init path argv0 (spell os) e)) \<longleftrightarrow> last_value key os \<noteq> None \<or> env_has key e))
    \<and> (good_options os \<and> path = dir @ CHR ''/'' # exe \<and> CHR ''/'' \<notin> set exe \<and> is_key rel \<and> hd rel \<noteq> CHR ''/'' \<longrightarrow>
        getAbsolutePath rel (snd (env_init path argv0 (spell os) e)) = dir @ CHR ''/'' # rel)"
proof (intro conjI impI)
  obtain e0 where e0: "\<And>args. env_init path argv0 args e = init_loop args None e0" "m_args e0 = m_args e"
    "m_cwd e0 = (case rfind path (CHR ''/'') of Some pos \<Rightarrow> take pos path | None \<Rightarrow> path) @ ''/''"
    by (rule that [of "e\<lparr>m_exe := path,
          m_cwd := (case rfind path (CHR ''/'') of Some pos \<Rightarrow> take pos path | None \<Rightarrow> path) @ ''/'',
          m_program := argv0\<rparr>"])
      (simp_all add: env_init_def Let_def split: option.split)
  show "fst (env_init path argv0 args e) \<longleftrightarrow> (\<exists>os. good_options os \<and> args = spell os)"
    using spell_complete [of args None e0] init_loop_spell [of _ None e0] by (auto simp: e0)
  note find = add_options_find [of e0 os key, unfolded e0(2), OF assms]
  {
    assume "good_options os"
    then have r: "snd (env_init path argv0 (spell os) e) = fold add_option os e0"
      by (simp add: e0(1) init_loop_spell)
    show "env_get key d (snd (env_init path argv0 (spell os) e))
        = (case last_value key os of Some v \<Rightarrow> v | None \<Rightarrow> env_get key d e)"
      using find by (simp add: r env_get_def split: option.splits)
    show "env_has key (snd (env_init path argv0 (spell os) e)) \<longleftrightarrow> last_value key os \<noteq> None \<or> env_has key e"
      using find by (simp add: r env_has_def split: option.splits)
  next
    assume *: "good_options os \<and> path = dir @ CHR ''/'' # exe \<and> CHR ''/'' \<notin> set exe \<and> is_key rel \<and> hd rel \<noteq> CHR ''/''"
    then have "rfind path (CHR ''/'') = Some (length dir)"
      by (simp add: rfind_eq)
    then have "m_cwd e0 = dir @ ''/''" using * by (simp add: e0(3))
    moreover have "snd (env_init path argv0 (spell os) e) = fold add_option os e0"
      using conjunct1 [OF *] by (simp only: e0(1) init_loop_spell option.case snd_conv)
    moreover have "rel \<noteq> []" "hd rel \<noteq> CHR ''/''" using * by (simp_all add: is_key_def)
    ultimately show "getAbsolutePath rel (snd (env_init path argv0 (spell os) e)) = dir @ CHR ''/'' # rel"
      by (simp add: getAbsolutePath_def add_options_frame)
  }
qed

theorem env_init_options_witness:
  "fst (env_init ''/opt/srv'' ''srv'' [''-c'', ''etc'', ''-d''] \<lparr>m_args = [], m_helps = [], m_program = [], m_exe = [], m_cwd = []\<rparr>)
   \<and> \<not> fst (env_init ''/opt/srv'' ''srv'' [''etc''] \<lparr>m_args = [], m_helps = [], m_program = [], m_exe = [], m_cwd = []\<rparr>)
   \<and> env_get ''c'' [] (snd (env_init ''/opt/srv'' ''srv'' [''-c'', ''etc'', ''-d'']
        \<lparr>m_args = [], m_helps = [], m_program = [], m_exe = [], m_cwd = []\<rparr>)) = ''etc''
   \<and> getAbsolutePath ''etc'' (snd (env_init ''/opt/srv'' ''srv'' [''-c'', ''etc'', ''-d'']
        \<lparr>m_args = [], m_helps = [], m_program = [], m_exe = [], m_cwd = []\<rparr>)) = ''/opt/etc''"
proof -
  let ?e = "\<lparr>m_args = [], m_helps = [], m_program = [], m_exe = [], m_cwd = []\<rparr>"
  let ?os = "[(''c'', Some ''etc''), (''d'', None)]"
  have os: "good_options ?os" "spell ?os = [''-c'', ''etc'', ''-d'']" "last_value ''c'' ?os = Some ''etc''"
    by (simp_all add: is_key_def is_value_def last_value_def option_value_def)
  have "\<not> fst (env_init ''/opt/srv'' ''srv'' [''etc''] ?e)" by (simp add: env_init_def Let_def)
  moreover note env_init_options [of ?e "''/opt/srv''" "''srv''" "spell ?os" ?os "''c''" "[]" "''/opt''" "''srv''" "''etc''"]
  moreover have "\<exists>os. good_options os \<and> [''-c'', ''etc'', ''-d''] = spell os" using os(1,2) by metis
  ultimately show ?thesis unfolding os(2) using os(1,3) by (simp add: is_key_def)
qed

end
