(* ===== verification/Servlets.thy ===== *)
theory Servlets
  imports Http
begin

text \<open>
  Servlets (\<open>http/servlet.h\<close>, \<open>http/servlet.cc\<close>). A servlet is one that wraps a callback, the one
  that answers 404, or another implementation \<open>'h\<close> of the abstract class; what callbacks and other
  implementations do to request and response is a parameter. A pointer may be null. The hash table
  of exact paths is a partial function, the list of patterns is in registration order. The abstract
  specification is two partial functions, of which the exact one is asked first.
\<close>

section \<open>Servlets\<close>

datatype 'h Servlet = FunctionServlet 'h | NotFoundServlet string | OtherServlet 'h

type_synonym 'h handler = "'h \<Rightarrow> HttpRequest \<Rightarrow> HttpResponse \<Rightarrow> int \<times> HttpRequest \<times> HttpResponse"

definition not_found_content :: "string \<Rightarrow> string" where
  "not_found_content name =
     ''<html><head><title>404 Not Found</title></head><body><center><h1>404 Not Found</h1></center><hr><center>''
     @ name @ ''</center></body></html>''"

definition not_found_handle :: "string \<Rightarrow> HttpResponse \<Rightarrow> int \<times> HttpResponse" where
  "not_found_handle name response =
     (let response = response\<lparr>m_status := 404\<rparr>;
          response = rsp_setHeader ''Server'' ''sylar/1.0.0'' response;
          response = rsp_setHeader ''Content-Type'' ''text/html'' response;
          response = response\<lparr>r_body := not_found_content name\<rparr>
      in (0, response))"

fun servlet_handle :: "'h handler \<Rightarrow> 'h Servlet \<Rightarrow> HttpRequest \<Rightarrow> HttpResponse \<Rightarrow> int \<times> HttpRequest \<times> HttpResponse" where
  "servlet_handle call (FunctionServlet cb) request response = call cb request response"
| "servlet_handle call (OtherServlet s) request response = call s request response"
| "servlet_handle call (NotFoundServlet name) request response =
     (let (rt, response) = not_found_handle name response in (rt, request, response))"

section \<open>The dispatcher\<close>

record 'h ServletDispatch =
  m_datas :: "string \<Rightarrow> 'h Servlet option option"
  m_globs :: "(string \<times> 'h Servlet option) list"
  m_default :: "'h Servlet option"

definition new_ServletDispatch :: "'h ServletDispatch" where
  "new_ServletDispatch = \<lparr>m_datas = Map.empty, m_globs = [], m_default = Some (NotFoundServlet ''sylar/1.0'')\<rparr>"

definition addServlet :: "string \<Rightarrow> 'h Servlet option \<Rightarrow> 'h ServletDispatch \<Rightarrow> 'h ServletDispatch" where
  "addServlet uri slt d = d\<lparr>m_datas := (m_datas d)(uri \<mapsto> slt)\<rparr>"

text \<open>The loop erases the first entry with the path and stops.\<close>

fun erase_first :: "string \<Rightarrow> (string \<times> 's) list \<Rightarrow> (string \<times> 's) list" where
  "erase_first uri [] = []"
| "erase_first uri (it # its) = (if fst it = uri then its else it # erase_first uri its)"

definition addGlobServlet :: "string \<Rightarrow> 'h Servlet option \<Rightarrow> 'h ServletDispatch \<Rightarrow> 'h ServletDispatch" where
  "addGlobServlet uri slt d = d\<lparr>m_globs := erase_first uri (m_globs d) @ [(uri, slt)]\<rparr>"

definition addServlet_cb :: "string \<Rightarrow> 'h \<Rightarrow> 'h ServletDispatch \<Rightarrow> 'h ServletDispatch" where
  "addServlet_cb uri cb d = addGlobServlet uri (Some (FunctionServlet cb)) d"

definition addGlobServlet_cb :: "string \<Rightarrow> 'h \<Rightarrow> 'h ServletDispatch \<Rightarrow> 'h ServletDispatch" where
  "addGlobServlet_cb uri cb d = addGlobServlet uri (Some (FunctionServlet cb)) d"

definition delServlet :: "string \<Rightarrow> 'h ServletDispatch \<Rightarrow> 'h ServletDispatch" where
  "delServlet uri d = d\<lparr>m_datas := (m_datas d)(uri := None)\<rparr>"

definition getServlet :: "string \<Rightarrow> 'h ServletDispatch \<Rightarrow> 'h Servlet option" where
  "getServlet uri d = (case m_datas d uri of None \<Rightarrow> None | Some slt \<Rightarrow> slt)"

fun glob_find :: "string \<Rightarrow> (string \<times> 's option) list \<Rightarrow> 's option option" where
  "glob_find uri [] = None"
| "glob_find uri (it # its) = (if fst it = uri then Some (snd it) else glob_find uri its)"

definition getGlobServlet :: "string \<Rightarrow> 'h ServletDispatch \<Rightarrow> 'h Servlet option" where
  "getGlobServlet uri d = (case glob_find uri (m_globs d) of None \<Rightarrow> None | Some slt \<Rightarrow> slt)"

definition getMatchServlet :: "string \<Rightarrow> 'h ServletDispatch \<Rightarrow> 'h Servlet option" where
  "getMatchServlet uri d =
     (case m_datas d uri of Some slt \<Rightarrow> slt
      | None \<Rightarrow> (case glob_find uri (m_globs d) of Some slt \<Rightarrow> slt | None \<Rightarrow> m_default d))"

definition dispatch_handle ::
  "'h handler \<Rightarrow> 'h ServletDispatch \<Rightarrow> HttpRequest \<Rightarrow> HttpResponse \<Rightarrow> int \<times> HttpRequest \<times> HttpResponse" where
  "dispatch_handle call d request response =
     (case getMatchServlet (m_path request) d of
        Some slt \<Rightarrow> servlet_handle call slt request response
      | None \<Rightarrow> (0, request, response))"

section \<open>Refinement of two maps\<close>

lemma glob_find_map_of: "glob_find uri gs = map_of gs uri"
  by (induction gs) auto

lemma set_erase_first: "distinct (map fst gs) \<Longrightarrow> set (erase_first uri gs) = {it \<in> set gs. fst it \<noteq> uri}"
  by (induction gs) (auto simp: image_iff)

lemma distinct_erase_first: "distinct (map fst gs) \<Longrightarrow> distinct (map fst (erase_first uri gs)) \<and> uri \<notin> fst ` set (erase_first uri gs)"
  by (induction gs) (auto simp: image_iff set_erase_first)

lemma map_of_erase_first: "distinct (map fst gs) \<Longrightarrow> map_of (erase_first uri gs) = (map_of gs)(uri := None)"
proof (induction gs)
  case (Cons it gs)
  then have "fst it = uri \<Longrightarrow> map_of gs uri = None" by (auto simp: map_of_eq_None_iff)
  then show ?case using Cons by (auto simp: fun_eq_iff)
qed simp

definition dispatch_inv :: "'h ServletDispatch \<Rightarrow> bool" where
  "dispatch_inv d \<longleftrightarrow> distinct (map fst (m_globs d))"

lemma addGlobServlet_refines:
  assumes "dispatch_inv d"
  shows "map_of (m_globs (addGlobServlet uri slt d)) = (map_of (m_globs d))(uri \<mapsto> slt)"
    "dispatch_inv (addGlobServlet uri slt d)"
proof -
  have "map_of (erase_first uri (m_globs d)) uri = None"
    using assms distinct_erase_first [of "m_globs d" uri] by (simp add: dispatch_inv_def map_of_eq_None_iff)
  then show "map_of (m_globs (addGlobServlet uri slt d)) = (map_of (m_globs d))(uri \<mapsto> slt)"
    using assms map_of_erase_first [of "m_globs d" uri]
    by (auto simp: addGlobServlet_def dispatch_inv_def map_add_def fun_eq_iff split: option.split)
  show "dispatch_inv (addGlobServlet uri slt d)"
    using assms distinct_erase_first [of "m_globs d" uri] by (auto simp: addGlobServlet_def dispatch_inv_def)
qed

text \<open>The registrations a program makes, and what they do to the two abstract maps and the default.\<close>

datatype 'h registration =
    AddServlet string "'h Servlet option" | AddServletCb string 'h | AddGlob string "'h Servlet option"
  | AddGlobCb string 'h | DelServlet string | SetDefault "'h Servlet option"

fun apply_reg :: "'h registration \<Rightarrow> 'h ServletDispatch \<Rightarrow> 'h ServletDispatch" where
  "apply_reg (AddServlet uri slt) = addServlet uri slt"
| "apply_reg (AddServletCb uri cb) = addServlet_cb uri cb"
| "apply_reg (AddGlob uri slt) = addGlobServlet uri slt"
| "apply_reg (AddGlobCb uri cb) = addGlobServlet_cb uri cb"
| "apply_reg (DelServlet uri) = delServlet uri"
| "apply_reg (SetDefault slt) = (\<lambda>d. d\<lparr>m_default := slt\<rparr>)"

type_synonym 'h maps = "(string \<rightharpoonup> 'h Servlet option) \<times> (string \<rightharpoonup> 'h Servlet option) \<times> 'h Servlet option"

fun spec_reg :: "'h registration \<Rightarrow> 'h maps \<Rightarrow> 'h maps" where
  "spec_reg (AddServlet uri slt) (e, g, d) = (e(uri \<mapsto> slt), g, d)"
| "spec_reg (AddServletCb uri cb) (e, g, d) = (e, g(uri \<mapsto> Some (FunctionServlet cb)), d)"
| "spec_reg (AddGlob uri slt) (e, g, d) = (e, g(uri \<mapsto> slt), d)"
| "spec_reg (AddGlobCb uri cb) (e, g, d) = (e, g(uri \<mapsto> Some (FunctionServlet cb)), d)"
| "spec_reg (DelServlet uri) (e, g, d) = (e(uri := None), g, d)"
| "spec_reg (SetDefault slt) (e, g, d) = (e, g, slt)"

definition abs_dispatch :: "'h ServletDispatch \<Rightarrow> 'h maps" where
  "abs_dispatch d = (m_datas d, map_of (m_globs d), m_default d)"

lemma apply_reg_refines:
  "dispatch_inv d \<Longrightarrow> dispatch_inv (apply_reg r d) \<and> abs_dispatch (apply_reg r d) = spec_reg r (abs_dispatch d)"
  using addGlobServlet_refines [of d]
  by (cases r) (auto simp: abs_dispatch_def addServlet_def addServlet_cb_def addGlobServlet_cb_def
      delServlet_def dispatch_inv_def addGlobServlet_def)

lemma apply_regs_refine:
  "dispatch_inv d \<Longrightarrow> dispatch_inv (fold apply_reg rs d) \<and> abs_dispatch (fold apply_reg rs d) = fold spec_reg rs (abs_dispatch d)"
  by (induction rs arbitrary: d) (auto simp: apply_reg_refines)

text \<open>
  C28: after any sequence of registrations the dispatcher finds what the two maps and the default of
  the specification give: the servlet registered last under the exact path, else the one registered
  last as a pattern under the same text, which is also where callbacks of \<open>addServlet\<close> go, else the
  default. A path that was never registered is answered with 404 and the page of the default servlet.
\<close>

theorem dispatch_refines:
  assumes "fold spec_reg rs (Map.empty, Map.empty, Some (NotFoundServlet ''sylar/1.0'')) = (e, g, def)"
    and "d = fold apply_reg rs new_ServletDispatch"
  shows "getMatchServlet uri d = (case e uri of Some slt \<Rightarrow> slt | None \<Rightarrow> (case g uri of Some slt \<Rightarrow> slt | None \<Rightarrow> def))
    \<and> getServlet uri d = (case e uri of Some slt \<Rightarrow> slt | None \<Rightarrow> None)
    \<and> getGlobServlet uri d = (case g uri of Some slt \<Rightarrow> slt | None \<Rightarrow> None)
    \<and> (e (m_path req) = None \<and> g (m_path req) = None \<and> def = Some (NotFoundServlet name) \<longrightarrow>
        dispatch_handle call d req rsp =
          (0, req, rsp\<lparr>m_status := 404, r_body := not_found_content name,
             r_headers := ci_put ''Content-Type'' ''text/html'' (ci_put ''Server'' ''sylar/1.0.0'' (r_headers rsp))\<rparr>))"
proof -
  have "abs_dispatch d = (e, g, def)"
    using apply_regs_refine [of new_ServletDispatch rs] assms
    by (simp add: dispatch_inv_def new_ServletDispatch_def abs_dispatch_def)
  then have "e = m_datas d" "g = map_of (m_globs d)" "def = m_default d" by (simp_all add: abs_dispatch_def)
  then show ?thesis
    by (simp add: getMatchServlet_def getServlet_def getGlobServlet_def glob_find_map_of dispatch_handle_def
        not_found_handle_def rsp_setHeader_def split: option.split)
qed

theorem dispatch_refines_witness:
  "getMatchServlet ''/a'' (fold apply_reg [AddServletCb ''/a'' (1::nat), AddServlet ''/a'' (Some (OtherServlet 2))] new_ServletDispatch)
     = Some (OtherServlet 2)
   \<and> getGlobServlet ''/a'' (fold apply_reg [AddServletCb ''/a'' (1::nat), AddServlet ''/a'' (Some (OtherServlet 2))] new_ServletDispatch)
     = Some (FunctionServlet 1)
   \<and> fst (dispatch_handle (\<lambda>_ q r. (1, q, r))
        (fold apply_reg [AddServletCb ''/a'' (1::nat), AddServlet ''/a'' (Some (OtherServlet 2))] new_ServletDispatch)
        (new_HttpRequest 0x11 True) (new_HttpResponse False 0x11 True)) = 0"
  using dispatch_refines [of "[AddServletCb ''/a'' (1::nat), AddServlet ''/a'' (Some (OtherServlet 2))]"
      "[''/a'' \<mapsto> Some (OtherServlet 2)]" "[''/a'' \<mapsto> Some (FunctionServlet 1)]" "Some (NotFoundServlet ''sylar/1.0'')"
      _ "''/a''" "new_HttpRequest 0x11 True" "''sylar/1.0''" "\<lambda>_ q r. (1, q, r)" "new_HttpResponse False 0x11 True", OF _ refl]
  by (simp add: new_HttpRequest_def)

end
