(* ===== verification/HttpTransfer.thy ===== *)
theory HttpTransfer
  imports Http
begin

text \<open>
  Receiving HTTP messages (\<open>http/http_parser.cc\<close>, \<open>HttpSession::recvRequest\<close> and
  \<open>HttpConnection::recvResponse\<close>). The state machines that Ragel generates are a parameter: one step
  over a buffer gives the new machine state, the number of bytes consumed, at most those in the buffer,
  and the callbacks it made. The traffic is what arrives until the peer closes or the receive timeout
  strikes, as the segments in which it arrives; a read returns a prefix of the next one. Every loop
  consumes traffic, so all functions here are total. Sizes are \<open>nat\<close>, the content length is the
  \<open>uint64_t\<close> of the source.
\<close>

section \<open>Reading from the peer\<close>

fun sock_read :: "nat \<Rightarrow> string list \<Rightarrow> string \<times> string list" where
  "sock_read n [] = ([], [])"
| "sock_read n (s # segs) = (take n s, if n < length s then drop n s # segs else segs)"

definition traffic :: "string list \<Rightarrow> nat" where
  "traffic segs = sum_list (map length segs)"

lemma sock_read_traffic:
  "traffic (snd (sock_read n segs)) + length (fst (sock_read n segs)) = traffic segs"
  by (cases segs) (auto simp: traffic_def)

lemma sock_read_le: "length (fst (sock_read n segs)) \<le> n"
  by (cases segs) auto

lemma sock_read_less:
  "sock_read n segs = (got, segs') \<Longrightarrow> got \<noteq> [] \<Longrightarrow> traffic segs' < traffic segs"
  using sock_read_traffic [of n segs] by (cases got) auto

section \<open>The generated machines\<close>

record ('m, 'e) ragel =
  r_init :: 'm
  r_execute :: "'m \<Rightarrow> string \<Rightarrow> 'm \<times> nat \<times> 'e list"
  r_finish :: "'m \<Rightarrow> int"
  r_has_error :: "'m \<Rightarrow> bool"

record ('m, 'e) client_ragel = "('m, 'e) ragel" +
  r_chunked :: "'m \<Rightarrow> int"
  r_content_len :: "'m \<Rightarrow> int"
  r_chunks_done :: "'m \<Rightarrow> int"

section \<open>The request parser\<close>

datatype request_event =
    EvMethod string | EvUri string | EvFragment string | EvPath string | EvQuery string | EvVersion string
  | EvHeaderDone string | EvField string string

record 'm HttpRequestParser =
  rq_machine :: 'm
  rq_data :: HttpRequest
  rq_error :: int

definition on_request_method :: "string \<Rightarrow> 'm HttpRequestParser \<Rightarrow> 'm HttpRequestParser" where
  "on_request_method at p =
     (let m = CharsToHttpMethod at
      in if m = INVALID_METHOD then p\<lparr>rq_error := 1000\<rparr>
         else p\<lparr>rq_data := (rq_data p)\<lparr>m_method := m\<rparr>\<rparr>)"

definition on_request_fragment :: "string \<Rightarrow> 'm HttpRequestParser \<Rightarrow> 'm HttpRequestParser" where
  "on_request_fragment at p = p\<lparr>rq_data := (rq_data p)\<lparr>m_fragment := at\<rparr>\<rparr>"

definition on_request_path :: "string \<Rightarrow> 'm HttpRequestParser \<Rightarrow> 'm HttpRequestParser" where
  "on_request_path at p = p\<lparr>rq_data := (rq_data p)\<lparr>m_path := at\<rparr>\<rparr>"

definition on_request_query :: "string \<Rightarrow> 'm HttpRequestParser \<Rightarrow> 'm HttpRequestParser" where
  "on_request_query at p = p\<lparr>rq_data := (rq_data p)\<lparr>m_query := at\<rparr>\<rparr>"

text \<open>The callbacks for the uri, the version, the end of the headers and the header fields are empty.\<close>

fun request_cb :: "request_event \<Rightarrow> 'm HttpRequestParser \<Rightarrow> 'm HttpRequestParser" where
  "request_cb (EvMethod at) p = on_request_method at p"
| "request_cb (EvFragment at) p = on_request_fragment at p"
| "request_cb (EvPath at) p = on_request_path at p"
| "request_cb (EvQuery at) p = on_request_query at p"
| "request_cb (EvUri _) p = p"
| "request_cb (EvVersion _) p = p"
| "request_cb (EvHeaderDone _) p = p"
| "request_cb (EvField _ _) p = p"

definition new_HttpRequestParser :: "('m, request_event) ragel \<Rightarrow> 'm HttpRequestParser" where
  "new_HttpRequestParser R = \<lparr>rq_machine = r_init R, rq_data = new_HttpRequest 0x11 True, rq_error = 0\<rparr>"

text \<open>\<open>execute\<close> returns how much was consumed; the caller's buffer is moved down by as much.\<close>

definition rq_execute ::
  "('m, request_event) ragel \<Rightarrow> 'm HttpRequestParser \<Rightarrow> string \<Rightarrow> 'm HttpRequestParser \<times> nat" where
  "rq_execute R p data =
     (let (m, offset, evs) = r_execute R (rq_machine p) data
      in (fold request_cb evs (p\<lparr>rq_machine := m\<rparr>), offset))"

definition rq_isFinished :: "('m, request_event) ragel \<Rightarrow> 'm HttpRequestParser \<Rightarrow> int" where
  "rq_isFinished R p = r_finish R (rq_machine p)"

definition rq_hasError :: "('m, request_event) ragel \<Rightarrow> 'm HttpRequestParser \<Rightarrow> bool" where
  "rq_hasError R p \<longleftrightarrow> rq_error p \<noteq> 0 \<or> r_has_error R (rq_machine p)"

definition rq_getContentLength :: "(string \<Rightarrow> u64 option) \<Rightarrow> 'm HttpRequestParser \<Rightarrow> u64" where
  "rq_getContentLength cast p = getAs cast (m_headers (rq_data p)) ''content-length'' 0"

section \<open>The response parser\<close>

datatype response_event =
    EvReason string | EvStatus string | EvRspVersion string nat | EvChunk string | EvLastChunk string
  | EvRspHeaderDone string | EvRspField string string

record 'm HttpResponseParser =
  rp_machine :: 'm
  rp_data :: HttpResponse
  rp_error :: int

definition isspace :: "char \<Rightarrow> bool" where
  "isspace c \<longleftrightarrow> c \<in> {CHR '' '', CHR 0x09, CHR 0x0A, CHR 0x0B, CHR 0x0C, CHR 0x0D}"

definition digit :: "char \<Rightarrow> bool" where
  "digit c \<longleftrightarrow> 48 \<le> (of_char c :: nat) \<and> (of_char c :: nat) \<le> 57"

text \<open>\<open>atoi\<close>, for a number that fits an \<open>int\<close>.\<close>

definition atoi :: "string \<Rightarrow> int" where
  "atoi at =
     (let s = dropWhile isspace at
      in case s of
           c # cs \<Rightarrow> if c = CHR ''-'' then - digits_value (takeWhile digit cs)
                     else if c = CHR ''+'' then digits_value (takeWhile digit cs)
                     else digits_value (takeWhile digit s)
         | [] \<Rightarrow> 0)"

definition strncmp_eq :: "string \<Rightarrow> string \<Rightarrow> nat \<Rightarrow> bool" where
  "strncmp_eq a b n \<longleftrightarrow> take n (c_str a @ [CHR 0x00]) = take n (c_str b @ [CHR 0x00])"

definition on_response_reason :: "string \<Rightarrow> 'm HttpResponseParser \<Rightarrow> 'm HttpResponseParser" where
  "on_response_reason at p = p\<lparr>rp_data := (rp_data p)\<lparr>m_reason := at\<rparr>\<rparr>"

definition on_response_status :: "string \<Rightarrow> 'm HttpResponseParser \<Rightarrow> 'm HttpResponseParser" where
  "on_response_status at p = p\<lparr>rp_data := (rp_data p)\<lparr>m_status := atoi at\<rparr>\<rparr>"

definition on_response_version :: "string \<Rightarrow> nat \<Rightarrow> 'm HttpResponseParser \<Rightarrow> 'm HttpResponseParser" where
  "on_response_version at len p =
     (if strncmp_eq at ''HTTP/1.1'' len then p\<lparr>rp_data := (rp_data p)\<lparr>r_version := 0x11\<rparr>\<rparr>
      else if strncmp_eq at ''HTTP/1.0'' len then p\<lparr>rp_data := (rp_data p)\<lparr>r_version := 0x10\<rparr>\<rparr>
      else p\<lparr>rp_error := 1001\<rparr>)"

definition on_response_http_field :: "string \<Rightarrow> string \<Rightarrow> 'm HttpResponseParser \<Rightarrow> 'm HttpResponseParser" where
  "on_response_http_field field val p =
     (if field = [] then p else p\<lparr>rp_data := rsp_setHeader field val (rp_data p)\<rparr>)"

fun response_cb :: "response_event \<Rightarrow> 'm HttpResponseParser \<Rightarrow> 'm HttpResponseParser" where
  "response_cb (EvReason at) p = on_response_reason at p"
| "response_cb (EvStatus at) p = on_response_status at p"
| "response_cb (EvRspVersion at n) p = on_response_version at n p"
| "response_cb (EvRspField f v) p = on_response_http_field f v p"
| "response_cb (EvChunk _) p = p"
| "response_cb (EvLastChunk _) p = p"
| "response_cb (EvRspHeaderDone _) p = p"

definition new_HttpResponseParser :: "bool \<Rightarrow> ('m, response_event, 'x) ragel_scheme \<Rightarrow> 'm HttpResponseParser" where
  "new_HttpResponseParser ws R = \<lparr>rp_machine = r_init R, rp_data = new_HttpResponse ws 0x11 True, rp_error = 0\<rparr>"

definition rp_execute ::
  "('m, response_event, 'x) ragel_scheme \<Rightarrow> bool \<Rightarrow> 'm HttpResponseParser \<Rightarrow> string \<Rightarrow> 'm HttpResponseParser \<times> nat" where
  "rp_execute R chunk p data =
     (let p = (if chunk then p\<lparr>rp_machine := r_init R\<rparr> else p);
          (m, offset, evs) = r_execute R (rp_machine p) data
      in (fold response_cb evs (p\<lparr>rp_machine := m\<rparr>), offset))"

definition rp_isFinished :: "('m, response_event, 'x) ragel_scheme \<Rightarrow> 'm HttpResponseParser \<Rightarrow> int" where
  "rp_isFinished R p = r_finish R (rp_machine p)"

definition rp_hasError :: "('m, response_event, 'x) ragel_scheme \<Rightarrow> 'm HttpResponseParser \<Rightarrow> bool" where
  "rp_hasError R p \<longleftrightarrow> rp_error p \<noteq> 0 \<or> r_has_error R (rp_machine p)"

definition rp_getContentLength :: "(string \<Rightarrow> u64 option) \<Rightarrow> 'm HttpResponseParser \<Rightarrow> u64" where
  "rp_getContentLength cast p = getAs cast (r_headers (rp_data p)) ''content-length'' 0"

section \<open>Receiving the head\<close>

text \<open>
  The loop that both receivers share: \<open>data\<close> is what is left over in the buffer, whose length is the
  \<open>offset\<close> of the source.
\<close>

function recv_head ::
  "('p \<Rightarrow> string \<Rightarrow> 'p \<times> nat) \<Rightarrow> ('p \<Rightarrow> bool) \<Rightarrow> ('p \<Rightarrow> int) \<Rightarrow> nat \<Rightarrow> 'p \<Rightarrow> string \<Rightarrow> string list \<Rightarrow>
   ('p \<times> string \<times> string list) option" where
  "recv_head exec err fin buffer_size p data segs =
     (case sock_read (buffer_size - length data) segs of (got, segs) \<Rightarrow>
        if got = [] then None
        else case exec p (data @ got) of (p, nparse) \<Rightarrow>
          if err p then None
          else let data = drop nparse (data @ got)
               in if length data = buffer_size then None
                  else if fin p \<noteq> 0 then Some (p, data, segs)
                  else recv_head exec err fin buffer_size p data segs)"
  by pat_completeness auto
termination
  by (relation "measure (\<lambda>(_, _, _, _, _, _, segs). traffic segs)") (auto dest: sock_read_less [OF sym])

declare recv_head.simps [simp del]

section \<open>Receiving the body\<close>

datatype http_error = BodyOverrun

text \<open>
  Both receivers reserve room in an empty string and copy into it. Copying does not change the size of
  the string, so in the first branch it stays empty, in the second the bytes read go over the copied
  ones. The rest still to read is computed by a subtraction that wraps around there, and what is
  received beyond the reserved room is written outside the string.
\<close>

definition recv_body :: "u64 \<Rightarrow> string \<Rightarrow> string list \<Rightarrow> http_error + (string \<times> string list) option" where
  "recv_body len data segs =
     (let offset = of_nat (length data) :: u64;
          body = (if len \<ge> offset then [] else take (unat len) data);
          rest = len - offset
      in if rest > 0 then
           case sock_read (unat rest) segs of (got, segs) \<Rightarrow>
             if got = [] then Inr None
             else if len \<ge> offset then Inr (Some (body, segs))
             else if length got > unat len then Inl BodyOverrun
             else Inr (Some (overwrite 0 got body, segs))
         else Inr (Some (body, segs)))"

definition recvRequest ::
  "(string \<Rightarrow> u64 option) \<Rightarrow> ('m, request_event) ragel \<Rightarrow> nat \<Rightarrow> string list \<Rightarrow>
   http_error + (HttpRequest \<times> string list) option" where
  "recvRequest cast R buffer_size segs =
     (case recv_head (rq_execute R) (rq_hasError R) (rq_isFinished R) buffer_size (new_HttpRequestParser R) [] segs of
        None \<Rightarrow> Inr None
      | Some (p, data, segs) \<Rightarrow>
          let len = rq_getContentLength cast p
          in if len > 0 then
               bindr (recv_body len data segs) (\<lambda>r.
                 case r of None \<Rightarrow> Inr None
                 | Some (body, segs) \<Rightarrow> Inr (Some ((rq_data p)\<lparr>m_body := body\<rparr>, segs)))
             else Inr (Some (rq_data p, segs)))"

text \<open>Reading what is left of a chunk.\<close>

function read_left :: "nat \<Rightarrow> nat \<Rightarrow> string \<Rightarrow> string list \<Rightarrow> (string \<times> string list) option" where
  "read_left buffer_size left body segs =
     (if left = 0 then Some (body, segs)
      else case sock_read (min left buffer_size) segs of (got, segs) \<Rightarrow>
        if got = [] then None else read_left buffer_size (left - length got) (body @ got) segs)"
  by pat_completeness auto
termination
  by (relation "measure (\<lambda>(_, _, _, segs). traffic segs)") (auto dest: sock_read_less [OF sym])

declare read_left.simps [simp del]

lemma read_left_traffic: "read_left b left body segs = Some (body', segs') \<Longrightarrow> traffic segs' \<le> traffic segs"
proof (induction b left body segs rule: read_left.induct)
  case (1 b left body segs)
  obtain got rest where r: "sock_read (min left b) segs = (got, rest)" by fastforce
  show ?case
  proof (cases "left = 0")
    case True
    then show ?thesis using 1(2) by (simp add: read_left.simps)
  next
    case False
    then have "got \<noteq> []" "read_left b (left - length got) (body @ got) rest = Some (body', segs')"
      using 1(2) r by (subst (asm) read_left.simps; auto split: if_splits)+
    then show ?thesis using 1(1) [OF False r [symmetric]] sock_read_less [OF r] by simp
  qed
qed

lemma recv_head_traffic:
  "recv_head exec err fin b p data segs = Some (p', data', segs') \<Longrightarrow> traffic segs' < traffic segs"
proof (induction exec err fin b p data segs rule: recv_head.induct)
  case (1 exec err fin b p data segs)
  obtain got rest where r: "sock_read (b - length data) segs = (got, rest)" by fastforce
  obtain q n where q: "exec p (data @ got) = (q, n)" by fastforce
  let ?d = "drop n (data @ got)"
  have e: "got \<noteq> []" "\<not> err q" "length ?d \<noteq> b"
    and s: "if fin q \<noteq> 0 then rest = segs' else recv_head exec err fin b q ?d rest = Some (p', data', segs')"
    using 1(2) r q by (subst (asm) recv_head.simps; auto simp: Let_def split: if_splits)+
  show ?case
    using s 1(1) [OF r [symmetric] e(1) q [symmetric] e(2) refl e(3)] sock_read_less [OF r e(1)]
    by (auto split: if_splits)
qed

text \<open>
  One chunk. \<open>left\<close> is computed after \<open>len\<close> was reset, so it is the whole chunk even when a part of it was
  in the buffer already. A negative length makes \<open>append\<close> run over the buffer.
\<close>

definition chunk_body :: "nat \<Rightarrow> int \<Rightarrow> string \<Rightarrow> string \<Rightarrow> string list \<Rightarrow> http_error + (string \<times> string \<times> string list) option" where
  "chunk_body buffer_size n body data segs =
     (if n < 0 then Inl BodyOverrun
      else if n \<le> int (length data) then Inr (Some (body @ take (nat n) data, drop (nat n) data, segs))
      else Inr (map_option (\<lambda>(body, segs). (body, [], segs)) (read_left buffer_size (nat n) (body @ data) segs)))"

lemma chunk_body_traffic:
  "chunk_body b n body data segs = Inr (Some (body', data', segs')) \<Longrightarrow> traffic segs' \<le> traffic segs"
  by (auto simp: chunk_body_def split: if_splits dest: read_left_traffic)

function chunk_loop ::
  "('m, response_event) client_ragel \<Rightarrow> nat \<Rightarrow> 'm HttpResponseParser \<Rightarrow> string \<Rightarrow> string \<Rightarrow> string list \<Rightarrow>
   http_error + ('m HttpResponseParser \<times> string \<times> string list) option" where
  "chunk_loop R buffer_size p body data segs =
     (case recv_head (rp_execute R True) (rp_hasError R) (rp_isFinished R) buffer_size p data segs of
        None \<Rightarrow> Inr None
      | Some (p, data, segs) \<Rightarrow>
          (case chunk_body buffer_size (r_content_len R (rp_machine p)) body data segs of
             Inl e \<Rightarrow> Inl e
           | Inr None \<Rightarrow> Inr None
           | Inr (Some (body, data, segs)) \<Rightarrow>
               if r_chunks_done R (rp_machine p) = 0 then chunk_loop R buffer_size p body data segs
               else Inr (Some (p, body, segs))))"
  by pat_completeness auto
termination
  by (relation "measure (\<lambda>(_, _, _, _, _, segs). traffic segs)")
    (auto dest!: recv_head_traffic chunk_body_traffic)

declare chunk_loop.simps [simp del]

text \<open>The body that the chunks make up is not stored in the response.\<close>

definition recvResponse ::
  "(string \<Rightarrow> u64 option) \<Rightarrow> bool \<Rightarrow> ('m, response_event) client_ragel \<Rightarrow> nat \<Rightarrow> string list \<Rightarrow>
   http_error + (HttpResponse \<times> string list) option" where
  "recvResponse cast ws R buffer_size segs =
     (case recv_head (rp_execute R False) (rp_hasError R) (rp_isFinished R) buffer_size
             (new_HttpResponseParser ws R) [] segs of
        None \<Rightarrow> Inr None
      | Some (p, data, segs) \<Rightarrow>
          if r_chunked R (rp_machine p) \<noteq> 0 then
            bindr (chunk_loop R buffer_size p [] data segs) (\<lambda>r.
              Inr (map_option (\<lambda>(p, body, segs). (rp_data p, segs)) r))
          else
            let len = rp_getContentLength cast p
            in if len > 0 then
                 bindr (recv_body len data segs) (\<lambda>r.
                   Inr (map_option (\<lambda>(body, segs). ((rp_data p)\<lparr>r_body := body\<rparr>, segs)) r))
               else Inr (Some (rp_data p, segs)))"

section \<open>The receive loop stays inside its buffer\<close>

lemma recv_head_step:
  assumes "sock_read (b - length data) segs = (got, rest)" "exec p (data @ got) = (q, n)"
  shows "recv_head exec err fin b p data segs =
    (if got = [] \<or> err q \<or> length (drop n (data @ got)) = b then None
     else if fin q \<noteq> 0 then Some (q, drop n (data @ got), rest)
     else recv_head exec err fin b q (drop n (data @ got)) rest)"
  using assms by (subst recv_head.simps) (simp add: Let_def)

text \<open>
  The receive loop never hands the parser more than the buffer holds: two parsers that agree on
  buffers of at most the buffer's size give the same result on every traffic, and what is left over
  is always smaller than the buffer. Only bytes that arrived are consumed, so the loop returns on
  every finite traffic.
\<close>

theorem recv_head_bounded:
  assumes "length data \<le> b" "\<forall>p d. length d \<le> b \<longrightarrow> exec p d = exec' p d"
  shows "recv_head exec err fin b p data segs = recv_head exec' err fin b p data segs
    \<and> (recv_head exec err fin b p data segs = Some (p', data', segs') \<longrightarrow>
        length data' < b \<and> traffic segs' < traffic segs)"
  using assms
proof (induction exec err fin b p data segs rule: recv_head.induct)
  case (1 exec err fin b p data segs)
  obtain got rest where r: "sock_read (b - length data) segs = (got, rest)" by fastforce
  have l: "length (data @ got) \<le> b" using sock_read_le [of "b - length data" segs] r 1(2) by simp
  obtain q n where q: "exec p (data @ got) = (q, n)" by fastforce
  then have q': "exec' p (data @ got) = (q, n)" using 1(3) l by simp
  let ?d = "drop n (data @ got)"
  have d: "length ?d \<le> b" using l by simp
  have IH: "recv_head exec err fin b q ?d rest = recv_head exec' err fin b q ?d rest
      \<and> (recv_head exec err fin b q ?d rest = Some (p', data', segs') \<longrightarrow> length data' < b \<and> traffic segs' < traffic rest)"
    if "got \<noteq> []" "\<not> err q" "length ?d \<noteq> b" "\<not> fin q \<noteq> 0"
    using 1(1) [OF r [symmetric] that(1) q [symmetric] that(2) refl that(3,4) d 1(3)] .
  have "recv_head exec err fin b p data segs = Some (p', data', segs') \<longrightarrow> length data' < b"
    using IH d unfolding recv_head_step [of b data segs got rest exec p q n, OF r q] by auto
  moreover have "recv_head exec err fin b p data segs = recv_head exec' err fin b p data segs"
    using IH unfolding recv_head_step [of b data segs got rest exec p q n, OF r q]
      recv_head_step [of b data segs got rest exec' p q n, OF r q'] by auto
  moreover have "recv_head exec err fin b p data segs = Some (p', data', segs') \<longrightarrow> traffic segs' < traffic segs"
    using recv_head_traffic by fastforce
  ultimately show ?case by blast
qed

section \<open>Requests\<close>

lemma request_cb_frame [simp]:
  "m_headers (rq_data (fold request_cb evs p)) = m_headers (rq_data p)"
  "m_body (rq_data (fold request_cb evs p)) = m_body (rq_data p)"
  "rq_machine (fold request_cb evs p) = rq_machine p"
proof (induction evs arbitrary: p)
  case (Cons e evs)
  case 1 show ?case using Cons by (cases e) (auto simp: on_request_method_def CharsToHttpMethod_def
      on_request_fragment_def on_request_path_def on_request_query_def Let_def)
  case 2 show ?case using Cons by (cases e) (auto simp: on_request_method_def CharsToHttpMethod_def
      on_request_fragment_def on_request_path_def on_request_query_def Let_def)
  case 3 show ?case using Cons by (cases e) (auto simp: on_request_method_def CharsToHttpMethod_def
      on_request_fragment_def on_request_path_def on_request_query_def Let_def)
qed auto

lemma request_cb_error: "rq_error p \<noteq> 0 \<Longrightarrow> rq_error (fold request_cb evs p) \<noteq> 0"
proof (induction evs arbitrary: p)
  case (Cons e evs)
  then show ?case by (cases e) (auto simp: on_request_method_def CharsToHttpMethod_def
      on_request_fragment_def on_request_path_def on_request_query_def Let_def)
qed simp

lemma request_cb_method: "EvMethod at \<in> set evs \<Longrightarrow> rq_error (fold request_cb evs p) \<noteq> 0"
proof (induction evs arbitrary: p)
  case (Cons e evs)
  show ?case
  proof (cases "e = EvMethod at")
    case True
    then have "rq_error (request_cb e p) \<noteq> 0" by (simp add: on_request_method_def CharsToHttpMethod_def)
    then show ?thesis by (simp add: request_cb_error)
  next
    case False
    then show ?thesis using Cons by simp
  qed
qed simp

text \<open>What the loop keeps of the parser: an invariant of every step that does not fail.\<close>

lemma recv_head_keeps:
  assumes "recv_head exec err fin b p data segs = Some (p', data', segs')" "P p"
    and "\<forall>p d q n. P p \<and> exec p d = (q, n) \<and> \<not> err q \<longrightarrow> P q \<and> Q q"
  shows "P p' \<and> Q p' \<and> fin p' \<noteq> 0"
  using assms
proof (induction exec err fin b p data segs rule: recv_head.induct)
  case (1 exec err fin b p data segs)
  obtain got rest where r: "sock_read (b - length data) segs = (got, rest)" by fastforce
  obtain q n where q: "exec p (data @ got) = (q, n)" by fastforce
  let ?d = "drop n (data @ got)"
  note s = 1(2) [unfolded recv_head_step [of b data segs got rest exec p q n err fin, OF r q]]
  have e: "got \<noteq> []" "\<not> err q" "length ?d \<noteq> b" using s by (auto split: if_splits)
  have "P q" "Q q" using 1(3,4) q e(2) by blast+
  then show ?case
    using 1(1) [OF r [symmetric] e(1) q [symmetric] e(2) refl e(3) _ _ _ 1(4)] s e by (auto split: if_splits)
qed

text \<open>
  A machine that reports the method before it finishes: \<open>seen\<close> tells from its state that it did, and
  nothing but reporting it makes \<open>seen\<close> true.
\<close>

definition reports_method :: "('m, request_event) ragel \<Rightarrow> ('m \<Rightarrow> bool) \<Rightarrow> bool" where
  "reports_method R seen \<longleftrightarrow> \<not> seen (r_init R) \<and>
     (\<forall>m d m' n evs. r_execute R m d = (m', n, evs) \<longrightarrow>
        (r_finish R m' \<noteq> 0 \<longrightarrow> seen m') \<and> (seen m' \<longrightarrow> seen m \<or> (\<exists>at. EvMethod at \<in> set evs)))"

lemma recvRequest_head:
  assumes "recv_head (rq_execute R) (rq_hasError R) (rq_isFinished R) b (new_HttpRequestParser R) [] segs = Some (p, data, rest)"
  shows "m_headers (rq_data p) = [] \<and> m_body (rq_data p) = []"
  by (rule recv_head_keeps [OF assms, where Q = "\<lambda>_. True", THEN conjunct1])
    (auto simp: new_HttpRequestParser_def new_HttpRequest_def rq_execute_def split_beta)

lemma recvRequest_method_fails:
  assumes R: "reports_method R seen"
  shows "recv_head (rq_execute R) (rq_hasError R) (rq_isFinished R) b (new_HttpRequestParser R) [] segs = None"
proof (rule ccontr)
  assume "\<not> ?thesis"
  then obtain p data rest where h:
    "recv_head (rq_execute R) (rq_hasError R) (rq_isFinished R) b (new_HttpRequestParser R) [] segs = Some (p, data, rest)"
    by auto
  let ?Q = "\<lambda>p. r_finish R (rq_machine p) \<noteq> 0 \<longrightarrow> seen (rq_machine p)"
  have step: "\<not> seen (rq_machine q) \<and> ?Q q"
    if ns: "\<not> seen (rq_machine p)" and ex: "rq_execute R p d = (q, n)" and ok: "\<not> rq_hasError R q" for p d q n
  proof -
    obtain m evs where x: "r_execute R (rq_machine p) d = (m, n, evs)" "q = fold request_cb evs (p\<lparr>rq_machine := m\<rparr>)"
      using ex by (auto simp: rq_execute_def split: prod.splits)
    then have "rq_machine q = m" by simp
    moreover have "EvMethod at \<notin> set evs" for at
      using ok request_cb_method [of at evs "p\<lparr>rq_machine := m\<rparr>"] x(2) by (auto simp: rq_hasError_def)
    ultimately show ?thesis using R ns x(1) unfolding reports_method_def by metis
  qed
  have "\<not> seen (rq_machine (new_HttpRequestParser R))"
    using R by (simp add: reports_method_def new_HttpRequestParser_def)
  then have "\<not> seen (rq_machine p) \<and> ?Q p \<and> rq_isFinished R p \<noteq> 0"
    by (rule recv_head_keeps [OF h, where P = "\<lambda>p. \<not> seen (rq_machine p)"]) (use step in blast)
  then show False by (auto simp: rq_isFinished_def)
qed

lemma recvRequest_cases:
  "\<exists>r. recvRequest cast R b segs = Inr r \<and> (reports_method R seen \<longrightarrow> r = None)
     \<and> (\<forall>req rest. r = Some (req, rest) \<longrightarrow> m_headers req = [] \<and> m_body req = [])"
proof (cases "recv_head (rq_execute R) (rq_hasError R) (rq_isFinished R) b (new_HttpRequestParser R) [] segs")
  case None
  then show ?thesis by (simp add: recvRequest_def)
next
  case (Some t)
  obtain p data rest where "t = (p, data, rest)" by (cases t)
  with Some show ?thesis
    using recvRequest_head [of R b segs p data rest] recvRequest_method_fails [of R seen b segs]
    by (auto simp: recvRequest_def rq_getContentLength_def getAs_def)
qed

text \<open>
  No request is ever accepted. The lookup of the method always answers invalid, so with a machine
  that reports the method of a request before it finishes, every traffic ends in a null pointer. With
  any machine at all a request that is returned has no header and no body, because the callback for
  header fields is empty, and receiving never writes outside the body.
\<close>

theorem recvRequest_refused:
  "\<exists>r. recvRequest cast R b segs = Inr r
     \<and> (reports_method R seen \<longrightarrow> r = None)
     \<and> (\<forall>req rest. r = Some (req, rest) \<longrightarrow> m_headers req = [] \<and> m_body req = [])"
  by (rule recvRequest_cases)

text \<open>A machine that takes the whole buffer as a method and finishes, and the same without the report.\<close>

definition sample_machine :: "bool \<Rightarrow> (bool, request_event) ragel" where
  "sample_machine report = \<lparr>r_init = False,
     r_execute = (\<lambda>m d. (True, length d, if report then [EvMethod d] else [EvPath d])),
     r_finish = (\<lambda>m. if m then 1 else 0), r_has_error = (\<lambda>_. False)\<rparr>"

theorem recv_head_bounded_witness:
  "recv_head (\<lambda>p d. (Suc p, length d)) (\<lambda>_. False) (\<lambda>p. if p = 2 then 1 else 0) 4 0 [] [''ab'', ''cdef'', ''g'']
   = recv_head (\<lambda>p d. (Suc p, min 4 (length d))) (\<lambda>_. False) (\<lambda>p. if p = 2 then 1 else 0) 4 0 [] [''ab'', ''cdef'', ''g'']"
  using recv_head_bounded [of "[]" 4 "\<lambda>p d. (Suc p, length d)" "\<lambda>p d. (Suc p, min 4 (length d))"
      "\<lambda>_. False" "\<lambda>p. if p = 2 then 1 else 0" 0 "[''ab'', ''cdef'', ''g'']"] by simp

theorem recvRequest_refused_witness:
  "recvRequest (\<lambda>_. None) (sample_machine True) 16 [''GET / HTTP/1.1''] = Inr None
   \<and> (\<exists>req. recvRequest (\<lambda>_. None) (sample_machine False) 16 [''GET''] = Inr (Some (req, [])) \<and> m_headers req = [])"
proof -
  have "reports_method (sample_machine True) (\<lambda>m. m)"
    by (auto simp: reports_method_def sample_machine_def)
  then have "recvRequest (\<lambda>_. None) (sample_machine True) 16 [''GET / HTTP/1.1''] = Inr None"
    using recvRequest_refused [of "\<lambda>_. None" "sample_machine True" 16 "[''GET / HTTP/1.1'']" "\<lambda>m. m"] by auto
  moreover have "recvRequest (\<lambda>_. None) (sample_machine False) 16 [''GET'']
      = Inr (Some ((new_HttpRequest 0x11 True)\<lparr>m_path := ''GET''\<rparr>, []))"
    by (simp add: recvRequest_def recv_head.simps sample_machine_def rq_execute_def rq_hasError_def rq_isFinished_def
        new_HttpRequestParser_def on_request_path_def rq_getContentLength_def getAs_def new_HttpRequest_def)
  ultimately show ?thesis
    using recvRequest_refused [of "\<lambda>_. None" "sample_machine False" 16 "[''GET'']" "\<lambda>m. m"] by auto
qed

section \<open>Responses\<close>

lemma response_cb_body [simp]: "r_body (rp_data (fold response_cb evs p)) = r_body (rp_data p)"
proof (induction evs arbitrary: p)
  case (Cons e evs)
  then show ?case
    by (cases e) (auto simp: on_response_reason_def on_response_status_def on_response_version_def
        on_response_http_field_def rsp_setHeader_def)
qed simp

lemma rp_execute_body: "rp_execute R chunk p d = (q, n) \<Longrightarrow> r_body (rp_data q) = r_body (rp_data p)"
  by (auto simp: rp_execute_def split_beta Let_def)

lemma recv_head_body:
  "recv_head (rp_execute R chunk) err fin b p data segs = Some (p', data', segs') \<Longrightarrow>
   r_body (rp_data p') = r_body (rp_data p)"
  by (rule recv_head_keeps [where P = "\<lambda>q. r_body (rp_data q) = r_body (rp_data p)" and Q = "\<lambda>_. True", THEN conjunct1])
    (auto dest: rp_execute_body)

lemma chunk_loop_body:
  "chunk_loop R b p body data segs = Inr (Some (p', body', segs')) \<Longrightarrow> r_body (rp_data p') = r_body (rp_data p)"
proof (induction R b p body data segs rule: chunk_loop.induct)
  case (1 R b p body data segs)
  obtain q d1 s1 where h: "recv_head (rp_execute R True) (rp_hasError R) (rp_isFinished R) b p data segs = Some (q, d1, s1)"
    using 1(2) by (subst (asm) chunk_loop.simps) (auto split: option.splits)
  obtain b2 d2 s2 where c: "chunk_body b (r_content_len R (rp_machine q)) body d1 s1 = Inr (Some (b2, d2, s2))"
    using 1(2) h by (subst (asm) chunk_loop.simps) (auto split: sum.splits option.splits)
  have s: "if r_chunks_done R (rp_machine q) = 0 then chunk_loop R b q b2 d2 s2 = Inr (Some (p', body', segs')) else p' = q"
    using 1(2) h c by (subst (asm) chunk_loop.simps) (auto split: if_splits)
  show ?case
    using s recv_head_body [OF h] 1(1) [OF h _ _ c] by (auto split: if_splits)
qed

text \<open>
  A body that arrives in chunks is never stored, and one announced by a content length is lost
  unless all of it, and more, was already in the buffer behind the headers: in every other case the
  response that is returned has an empty body.
\<close>

theorem response_body_lost:
  assumes "recvResponse cast ws R b segs = Inr (Some (rsp, rest))"
  shows "\<exists>p data segs'. recv_head (rp_execute R False) (rp_hasError R) (rp_isFinished R) b (new_HttpResponseParser ws R) [] segs
      = Some (p, data, segs')
    \<and> (r_chunked R (rp_machine p) = 0 \<and> 0 < rp_getContentLength cast p \<and> rp_getContentLength cast p < of_nat (length data)
       \<or> r_body rsp = [])"
proof -
  obtain p data s1 where h: "recv_head (rp_execute R False) (rp_hasError R) (rp_isFinished R) b (new_HttpResponseParser ws R) [] segs
      = Some (p, data, s1)"
    using assms by (auto simp: recvResponse_def split: option.splits)
  have body: "r_body (rp_data p) = []"
    using recv_head_body [OF h] by (simp add: new_HttpResponseParser_def new_HttpResponse_def)
  have "r_body rsp = []" if "r_chunked R (rp_machine p) \<noteq> 0"
    using assms h that body
    by (auto simp: recvResponse_def bindr_eq_Inr dest: chunk_loop_body)
  moreover have "r_body rsp = []"
    if "r_chunked R (rp_machine p) = 0" "\<not> (0 < rp_getContentLength cast p \<and> rp_getContentLength cast p < of_nat (length data))"
    using assms h that body
    by (auto simp: recvResponse_def bindr_eq_Inr recv_body_def Let_def split: if_splits prod.splits)
  ultimately show ?thesis using h by blast
qed

text \<open>A machine that takes one byte for the head, one for the size of a chunk of two, and is then done.\<close>

definition sample_client :: "(nat, response_event) client_ragel" where
  "sample_client = \<lparr>r_init = 0, r_execute = (\<lambda>m d. (1, 1, [EvStatus ''200''])), r_finish = (\<lambda>_. 1),
     r_has_error = (\<lambda>_. False), r_chunked = (\<lambda>_. 1), r_content_len = (\<lambda>_. 2), r_chunks_done = (\<lambda>_. 1)\<rparr>"

lemma sample_response:
  "recvResponse (\<lambda>_. None) False sample_client 16 [''h'', ''c'', ''xy'']
   = Inr (Some ((new_HttpResponse False 0x11 True)\<lparr>m_status := 200\<rparr>, []))"
  by (simp add: recvResponse_def recv_head.simps chunk_loop.simps read_left.simps chunk_body_def sample_client_def
      rp_execute_def rp_hasError_def rp_isFinished_def new_HttpResponseParser_def on_response_status_def atoi_def
      isspace_def digit_def digits_value_def new_HttpResponse_def)

theorem response_body_lost_witness:
  "\<exists>rsp. recvResponse (\<lambda>_. None) False sample_client 16 [''h'', ''c'', ''xy''] = Inr (Some (rsp, [])) \<and> r_body rsp = []"
proof -
  have "r_chunked sample_client m \<noteq> 0" for m by (simp add: sample_client_def)
  with response_body_lost [OF sample_response] show ?thesis using sample_response by blast
qed

section \<open>Printed fields\<close>

definition field_text :: "string \<times> string \<Rightarrow> string" where
  "field_text h = fst h @ '': '' @ snd h @ CRLF"

lemma concat_kept: "header_lines ws hs = concat (map field_text (kept_headers ws hs))"
  by (induction hs) (auto simp: header_lines_def kept_headers_def field_text_def)

lemma version_texts: "version_text 0x11 = ''HTTP/1.1''" "version_text 0x10 = ''HTTP/1.0''"
  by code_simp+

section \<open>Numbers that are printed and read\<close>

lemma atoi_dec_space: "atoi (dec n @ CHR '' '' # r) = int n"
proof -
  obtain c cs where c: "dec n = c # cs" using dec_nonempty by (cases "dec n") auto
  have "48 \<le> (of_char c :: nat)" "(of_char c :: nat) \<le> 57" using dec_digits [of c n] c by auto
  then have ws: "\<not> isspace c" "c \<noteq> CHR ''-''" "c \<noteq> CHR ''+''" by (auto simp: isspace_def)
  have "takeWhile digit (dec n @ CHR '' '' # r) = dec n"
    using dec_digits by (subst takeWhile_append2) (auto simp: digit_def)
  then show ?thesis using ws c dec_value [of n] by (simp add: atoi_def Let_def)
qed

end
