(* ===== verification/SocketApi.thy ===== *)
theory SocketApi
  imports FdManager Util "HOL-Library.Multiset"
begin

text \<open>
  Sockets (\<open>socket.h\<close>, \<open>socket.cc\<close>). The kernel is a parameter: it answers every system call from the
  history of calls and answers, which the model keeps as a log. A socket object is its descriptor, the
  arguments of its constructor, its connected flag and the cached addresses, of which only the log
  entry that filled them matters here. The theorems are about the descriptors: who closes what, and
  when a socket can be used at all. The TLS variant is in \<open>SslSocket\<close>.
\<close>

section \<open>System calls\<close>

text \<open>Of an address the family and whether it is a \<open>UnixAddress\<close> are looked at.\<close>

record sock_addr =
  addr_family :: int
  addr_is_unix :: bool

datatype syscall =
    SysSocket int int int | SysSetsockopt int int | SysBind int | SysConnect int | SysConnectTimeout int u64
  | SysListen int int | SysAccept int | SysClose int | SysSend int nat | SysRecv int nat
  | SysSendmsg int "nat list" "sock_addr option" | SysSendto int nat sock_addr
  | SysRecvmsg int "nat list" "sock_addr option" | SysRecvfrom int nat sock_addr
  | SysGetsockopt int int int | SysGetsockname int | SysGetpeername int | SysUnlink

type_synonym sys_log = "(syscall \<times> int) list"

record Sys =
  syslog :: sys_log
  answer :: "sys_log \<Rightarrow> syscall \<Rightarrow> int"

definition sys :: "syscall \<Rightarrow> Sys \<Rightarrow> int \<times> Sys" where
  "sys c w = (let a = answer w (syslog w) c in (a, w\<lparr>syslog := syslog w @ [(c, a)]\<rparr>))"

section \<open>Sockets\<close>

definition SO_REUSEADDR :: int where "SO_REUSEADDR = 2"
definition TCP_NODELAY :: int where "TCP_NODELAY = 1"
definition SOCK_STREAM :: int where "SOCK_STREAM = 1"
definition SOCK_DGRAM :: int where "SOCK_DGRAM = 2"
definition AF_UNIX :: int where "AF_UNIX = 1"

record Socket =
  m_sock :: int
  m_family :: int
  m_type :: int
  m_protocol :: int
  m_isConnected :: bool
  m_localAddress :: "nat option"
  m_remoteAddress :: "nat option"

definition new_Socket :: "int \<Rightarrow> int \<Rightarrow> int \<Rightarrow> Socket" where
  "new_Socket family type protocol =
     \<lparr>m_sock = - 1, m_family = family, m_type = type, m_protocol = protocol, m_isConnected = False,
      m_localAddress = None, m_remoteAddress = None\<rparr>"

definition isValid :: "Socket \<Rightarrow> bool" where
  "isValid s \<longleftrightarrow> m_sock s \<noteq> - 1"

definition initSock :: "Socket \<Rightarrow> Sys \<Rightarrow> Sys" where
  "initSock s w =
     (let (_, w) = sys (SysSetsockopt (m_sock s) SO_REUSEADDR) w
      in if m_type s = SOCK_STREAM then snd (sys (SysSetsockopt (m_sock s) TCP_NODELAY) w) else w)"

definition newSock :: "Socket \<Rightarrow> Sys \<Rightarrow> Socket \<times> Sys" where
  "newSock s w =
     (let (fd, w) = sys (SysSocket (m_family s) (m_type s) (m_protocol s)) w;
          s = s\<lparr>m_sock := fd\<rparr>
      in (s, if fd \<noteq> - 1 then initSock s w else w))"

definition CreateTCP :: "sock_addr \<Rightarrow> Socket" where
  "CreateTCP address = new_Socket (addr_family address) SOCK_STREAM 0"

definition CreateUDP :: "sock_addr \<Rightarrow> Sys \<Rightarrow> Socket \<times> Sys" where
  "CreateUDP address w =
     (let (s, w) = newSock (new_Socket (addr_family address) SOCK_DGRAM 0) w in (s\<lparr>m_isConnected := True\<rparr>, w))"

definition CreateUnixTCPSocket :: Socket where
  "CreateUnixTCPSocket = new_Socket AF_UNIX SOCK_STREAM 0"

definition CreateUnixUDPSocket :: Socket where
  "CreateUnixUDPSocket = new_Socket AF_UNIX SOCK_DGRAM 0"

definition sock_close :: "Socket \<Rightarrow> Sys \<Rightarrow> bool \<times> Socket \<times> Sys" where
  "sock_close s w =
     (if \<not> m_isConnected s \<and> m_sock s = - 1 then (True, s, w)
      else let s = s\<lparr>m_isConnected := False\<rparr>
           in if m_sock s \<noteq> - 1
              then let (_, w) = sys (SysClose (m_sock s)) w in (False, s\<lparr>m_sock := - 1\<rparr>, w)
              else (False, s, w))"

text \<open>The destructor closes.\<close>

definition destroy :: "Socket \<Rightarrow> Sys \<Rightarrow> Sys" where
  "destroy s w = snd (snd (sock_close s w))"

definition getLocalAddress :: "Socket \<Rightarrow> Sys \<Rightarrow> Socket \<times> Sys" where
  "getLocalAddress s w =
     (if m_localAddress s \<noteq> None then (s, w)
      else let (rt, w') = sys (SysGetsockname (m_sock s)) w
           in if rt \<noteq> 0 then (s, w') else (s\<lparr>m_localAddress := Some (length (syslog w))\<rparr>, w'))"

definition getRemoteAddress :: "Socket \<Rightarrow> Sys \<Rightarrow> Socket \<times> Sys" where
  "getRemoteAddress s w =
     (if m_remoteAddress s \<noteq> None then (s, w)
      else let (rt, w') = sys (SysGetpeername (m_sock s)) w
           in if rt \<noteq> 0 then (s, w') else (s\<lparr>m_remoteAddress := Some (length (syslog w))\<rparr>, w'))"

definition sock_connect :: "sock_addr \<Rightarrow> u64 \<Rightarrow> Socket \<Rightarrow> Sys \<Rightarrow> bool \<times> Socket \<times> Sys" where
  "sock_connect addr timeout_ms s w =
     (let (s, w) = (if isValid s then (s, w) else newSock s w)
      in if \<not> isValid s then (False, s, w)
         else if addr_family addr \<noteq> m_family s then (False, s, w)
         else if timeout_ms = - 1 then
           (let (rt, w) = sys (SysConnect (m_sock s)) w in if rt \<noteq> 0 then (False, s, w) else (True, s, w))
         else
           (let (_, w) = sys (SysConnectTimeout (m_sock s) timeout_ms) w in (True, s, w)))"

text \<open>
  For a Unix address a second socket tries to connect: when somebody listens there the bind fails,
  otherwise the stale path is removed. The second socket is closed by its destructor on both paths.
\<close>

definition bind_unix :: "sock_addr \<Rightarrow> Sys \<Rightarrow> bool \<times> Sys" where
  "bind_unix addr w =
     (let (ok, s, w) = sock_connect addr (- 1) CreateUnixTCPSocket w
      in if ok then (False, destroy s w)
         else let (_, w) = sys SysUnlink w in (True, destroy s w))"

definition sock_bind :: "sock_addr \<Rightarrow> Socket \<Rightarrow> Sys \<Rightarrow> bool \<times> Socket \<times> Sys" where
  "sock_bind addr s w =
     (let (s, w) = (if isValid s then (s, w) else newSock s w)
      in if \<not> isValid s then (False, s, w)
         else let (go, w) = (if addr_is_unix addr then bind_unix addr w else (True, w))
              in if \<not> go then (False, s, w)
                 else if addr_family addr \<noteq> m_family s then (False, s, w)
                 else let (rt, w) = sys (SysBind (m_sock s)) w
                      in if rt \<noteq> 0 then (False, s, w)
                         else let (s, w) = getLocalAddress s w in (True, s, w))"

definition sock_listen :: "int \<Rightarrow> Socket \<Rightarrow> Sys \<Rightarrow> bool \<times> Socket \<times> Sys" where
  "sock_listen backlog s w =
     (if \<not> isValid s then (False, s, w)
      else let (_, w) = sys (SysListen (m_sock s) backlog) w in (True, s, w))"

definition reconnect :: "sock_addr \<Rightarrow> u64 \<Rightarrow> Socket \<Rightarrow> Sys \<Rightarrow> bool \<times> Socket \<times> Sys" where
  "reconnect remote timeout_ms s w =
     (if m_remoteAddress s = None then (False, s, w)
      else sock_connect remote timeout_ms (s\<lparr>m_localAddress := None\<rparr>) w)"

definition sock_send :: "nat \<Rightarrow> Socket \<Rightarrow> Sys \<Rightarrow> int \<times> Sys" where
  "sock_send len s w = (if \<not> m_isConnected s then (- 1, w) else sys (SysSend (m_sock s) len) w)"

definition sock_recv :: "nat \<Rightarrow> Socket \<Rightarrow> Sys \<Rightarrow> int \<times> Sys" where
  "sock_recv len s w = (if m_isConnected s then sys (SysRecv (m_sock s) len) w else (- 1, w))"

text \<open>The variants with a list of buffers, of which the lengths are kept, and with the address of the other side.\<close>

definition sock_send_iov :: "nat list \<Rightarrow> Socket \<Rightarrow> Sys \<Rightarrow> int \<times> Sys" where
  "sock_send_iov lens s w = (if m_isConnected s then sys (SysSendmsg (m_sock s) lens None) w else (- 1, w))"

definition sendTo :: "nat \<Rightarrow> sock_addr \<Rightarrow> Socket \<Rightarrow> Sys \<Rightarrow> int \<times> Sys" where
  "sendTo len addr s w = (if m_isConnected s then sys (SysSendto (m_sock s) len addr) w else (- 1, w))"

definition sendTo_iov :: "nat list \<Rightarrow> sock_addr \<Rightarrow> Socket \<Rightarrow> Sys \<Rightarrow> int \<times> Sys" where
  "sendTo_iov lens addr s w = (if m_isConnected s then sys (SysSendmsg (m_sock s) lens (Some addr)) w else (- 1, w))"

definition sock_recv_iov :: "nat list \<Rightarrow> Socket \<Rightarrow> Sys \<Rightarrow> int \<times> Sys" where
  "sock_recv_iov lens s w = (if m_isConnected s then sys (SysRecvmsg (m_sock s) lens None) w else (- 1, w))"

definition recvFrom :: "nat \<Rightarrow> sock_addr \<Rightarrow> Socket \<Rightarrow> Sys \<Rightarrow> int \<times> Sys" where
  "recvFrom len from s w = (if m_isConnected s then sys (SysRecvfrom (m_sock s) len from) w else (- 1, w))"

definition recvFrom_iov :: "nat list \<Rightarrow> sock_addr \<Rightarrow> Socket \<Rightarrow> Sys \<Rightarrow> int \<times> Sys" where
  "recvFrom_iov lens from s w = (if m_isConnected s then sys (SysRecvmsg (m_sock s) lens (Some from)) w else (- 1, w))"

text \<open>
  Options. What \<open>getsockopt\<close> stores is an argument. The timeouts are asked of the descriptor table, whose index
  the descriptor of a socket that is not open is not.
\<close>

definition getOption :: "int \<Rightarrow> int \<Rightarrow> int \<Rightarrow> Socket \<Rightarrow> Sys \<Rightarrow> int option \<times> Sys" where
  "getOption level opt stored s w =
     (let (rt, w) = sys (SysGetsockopt (m_sock s) level opt) w in (if rt \<noteq> 0 then None else Some stored, w))"

definition setOption :: "int \<Rightarrow> Socket \<Rightarrow> Sys \<Rightarrow> bool \<times> Sys" where
  "setOption opt s w = (let (rt, w) = sys (SysSetsockopt (m_sock s) opt) w in (rt = 0, w))"

definition SOL_SOCKET :: int where "SOL_SOCKET = 1"
definition SO_ERROR :: int where "SO_ERROR = 4"

definition getError :: "int \<Rightarrow> Socket \<Rightarrow> Sys \<Rightarrow> int \<times> Sys" where
  "getError stored s w =
     (let (r, w) = getOption SOL_SOCKET SO_ERROR stored s w in (case r of None \<Rightarrow> - 1 | Some err \<Rightarrow> err, w))"

definition sock_timeout :: "int \<Rightarrow> fd_flags \<Rightarrow> FdManager \<Rightarrow> Socket \<Rightarrow> fd_error + u64" where
  "sock_timeout type k m s =
     bindr (fdm_get (m_sock s) False k m) (\<lambda>(ctx, _, _).
       case ctx of None \<Rightarrow> Inr (- 1) | Some c \<Rightarrow> Inr (getTimeout type c))"

definition getSendTimeout :: "fd_flags \<Rightarrow> FdManager \<Rightarrow> Socket \<Rightarrow> fd_error + u64" where
  "getSendTimeout = sock_timeout SO_SNDTIMEO"

definition getRecvTimeout :: "fd_flags \<Rightarrow> FdManager \<Rightarrow> Socket \<Rightarrow> fd_error + u64" where
  "getRecvTimeout = sock_timeout SO_RCVTIMEO"

text \<open>The text of a socket, over the texts of its addresses.\<close>

definition sock_dump :: "(nat \<Rightarrow> string) \<Rightarrow> Socket \<Rightarrow> string" where
  "sock_dump addr_text s =
     ''[Sock sock= '' @ int_text (m_sock s) @ ''is_connected= '' @ (if m_isConnected s then ''1'' else ''0'')
     @ ''family= '' @ int_text (m_family s) @ ''type='' @ int_text (m_type s) @ ''protocol='' @ int_text (m_protocol s)
     @ (case m_localAddress s of None \<Rightarrow> [] | Some a \<Rightarrow> '' local_address = '' @ addr_text a)
     @ (case m_remoteAddress s of None \<Rightarrow> [] | Some a \<Rightarrow> '' remote_address='' @ addr_text a) @ '']''"

text \<open>\<open>Socket::init\<close> and \<open>accept\<close>, with the descriptor table the hooked \<open>accept\<close> left behind.\<close>

definition sock_init :: "int \<Rightarrow> fd_flags \<Rightarrow> FdManager \<Rightarrow> Socket \<Rightarrow> Sys \<Rightarrow> fd_error + bool \<times> Socket \<times> Sys" where
  "sock_init fd k m s w =
     bindr (fdm_get fd False k m) (\<lambda>(ctx, _, _).
       case ctx of
         None \<Rightarrow> Inr (False, s, w)
       | Some c \<Rightarrow>
           if m_isSocket c \<and> \<not> m_isClosed c then
             let s = s\<lparr>m_sock := fd, m_isConnected := True\<rparr>;
                 w = initSock s w;
                 (s, w) = getLocalAddress s w;
                 (s, w) = getRemoteAddress s w
             in Inr (True, s, w)
           else Inr (False, s, w))"

definition sock_accept :: "fd_flags \<Rightarrow> FdManager \<Rightarrow> Socket \<Rightarrow> Sys \<Rightarrow> fd_error + Socket option \<times> Sys" where
  "sock_accept k m s w =
     (let new = new_Socket (m_family s) (m_type s) (m_protocol s);
          (newsock, w) = sys (SysAccept (m_sock s)) w
      in if newsock = - 1 then Inr (None, w)
         else bindr (sock_init newsock k m new w) (\<lambda>(ok, new, w).
           Inr (if ok then (Some new, w) else (None, destroy new w))))"

text \<open>\<open>setRecvTimeout\<close> splits milliseconds into the fields of a \<open>timeval\<close>.\<close>

definition timeval_of :: "int \<Rightarrow> int \<times> int" where
  "timeval_of v =
     (sint (word_of_int (sgn v * (\<bar>v\<bar> div 1000)) :: u32),
      sint (word_of_int (sgn v * (\<bar>v\<bar> mod 1000) * 1000) :: u32))"

section \<open>The calls an object makes\<close>

datatype sock_op = OpBind sock_addr | OpConnect sock_addr u64 | OpReconnect sock_addr u64 | OpListen int | OpClose
  | OpSend nat | OpRecv nat | OpLocal | OpRemote | OpSendIov "nat list" | OpSendTo nat sock_addr | OpSendToIov "nat list" sock_addr
  | OpRecvIov "nat list" | OpRecvFrom nat sock_addr | OpRecvFromIov "nat list" sock_addr | OpError int | OpSetOption int

fun sock_step :: "sock_op \<Rightarrow> Socket \<times> Sys \<Rightarrow> Socket \<times> Sys" where
  "sock_step (OpBind a) (s, w) = snd (sock_bind a s w)"
| "sock_step (OpConnect a t) (s, w) = snd (sock_connect a t s w)"
| "sock_step (OpReconnect a t) (s, w) = snd (reconnect a t s w)"
| "sock_step (OpListen n) (s, w) = snd (sock_listen n s w)"
| "sock_step OpClose (s, w) = snd (sock_close s w)"
| "sock_step (OpSend n) (s, w) = (s, snd (sock_send n s w))"
| "sock_step (OpRecv n) (s, w) = (s, snd (sock_recv n s w))"
| "sock_step OpLocal (s, w) = getLocalAddress s w"
| "sock_step OpRemote (s, w) = getRemoteAddress s w"
| "sock_step (OpSendIov ns) (s, w) = (s, snd (sock_send_iov ns s w))"
| "sock_step (OpSendTo n a) (s, w) = (s, snd (sendTo n a s w))"
| "sock_step (OpSendToIov ns a) (s, w) = (s, snd (sendTo_iov ns a s w))"
| "sock_step (OpRecvIov ns) (s, w) = (s, snd (sock_recv_iov ns s w))"
| "sock_step (OpRecvFrom n a) (s, w) = (s, snd (recvFrom n a s w))"
| "sock_step (OpRecvFromIov ns a) (s, w) = (s, snd (recvFrom_iov ns a s w))"
| "sock_step (OpError e) (s, w) = (s, snd (getError e s w))"
| "sock_step (OpSetOption opt) (s, w) = (s, snd (setOption opt s w))"

lemmas transfer_defs = sock_send_def sock_recv_def sock_send_iov_def sendTo_def sendTo_iov_def sock_recv_iov_def recvFrom_def recvFrom_iov_def
  getError_def getOption_def setOption_def

text \<open>The descriptors the kernel handed out, for new sockets and for accepted connections, and those that were closed.\<close>

fun opened :: "sys_log \<Rightarrow> int multiset" where
  "opened [] = {#}"
| "opened ((SysSocket _ _ _, a) # l) = (if a = - 1 then opened l else add_mset a (opened l))"
| "opened ((SysAccept _, a) # l) = (if a = - 1 then opened l else add_mset a (opened l))"
| "opened (_ # l) = opened l"

fun closed :: "sys_log \<Rightarrow> int multiset" where
  "closed [] = {#}"
| "closed ((SysClose fd, _) # l) = add_mset fd (closed l)"
| "closed (_ # l) = closed l"

definition own :: "Socket \<Rightarrow> int multiset" where
  "own s = (if m_sock s = - 1 then {#} else {#m_sock s#})"

text \<open>Everything opened is closed, held by this object, or held by others.\<close>

definition balanced :: "int multiset \<Rightarrow> Socket \<Rightarrow> Sys \<Rightarrow> bool" where
  "balanced others s w \<longleftrightarrow> opened (syslog w) = closed (syslog w) + own s + others"

lemma opened_append [simp]: "opened (a @ b) = opened a + opened b"
  by (induction a rule: opened.induct) auto

lemma closed_append [simp]: "closed (a @ b) = closed a + closed b"
  by (induction a rule: closed.induct) auto

definition quiet :: "syscall \<Rightarrow> bool" where
  "quiet c \<longleftrightarrow> (case c of SysSocket _ _ _ \<Rightarrow> False | SysAccept _ \<Rightarrow> False | SysClose _ \<Rightarrow> False | _ \<Rightarrow> True)"

lemma balanced_sys: "quiet c \<Longrightarrow> balanced others s (snd (sys c w)) = balanced others s w"
  by (cases c) (auto simp: balanced_def sys_def quiet_def Let_def)

section \<open>Descriptors are closed exactly once\<close>

lemma balanced_fields [simp]:
  "balanced others (s\<lparr>m_isConnected := b\<rparr>) w = balanced others s w"
  "balanced others (s\<lparr>m_localAddress := x\<rparr>) w = balanced others s w"
  "balanced others (s\<lparr>m_remoteAddress := x\<rparr>) w = balanced others s w"
  by (simp_all add: balanced_def own_def)

lemmas quiet_simps [simp] = balanced_sys [OF iffD2 [OF quiet_def]]

lemma balanced_initSock [simp]: "balanced others s (initSock t w) = balanced others s w"
  by (simp add: initSock_def split_beta)

lemma balanced_newSock:
  "balanced others s w \<Longrightarrow> m_sock s = - 1 \<Longrightarrow> balanced others (fst (newSock s w)) (snd (newSock s w))"
  by (auto simp: newSock_def split_beta Let_def sys_def balanced_def own_def initSock_def)

lemma balanced_close:
  "balanced others s w \<Longrightarrow> balanced others (fst (snd (sock_close s w))) (snd (snd (sock_close s w)))"
  by (auto simp: sock_close_def split_beta Let_def sys_def balanced_def own_def)

lemma close_releases [simp]: "own (fst (snd (sock_close s w))) = {#}"
  by (auto simp: sock_close_def split_beta Let_def own_def)

lemma balanced_destroy:
  assumes "balanced (others + own s) t w"
  shows "balanced others s (destroy t w)"
  using balanced_close [OF assms] by (simp add: balanced_def destroy_def ac_simps)

lemma balanced_connect:
  "balanced others s w \<Longrightarrow>
   balanced others (fst (snd (sock_connect addr t s w))) (snd (snd (sock_connect addr t s w)))"
  using balanced_newSock [of others s w] by (auto simp: sock_connect_def split_beta Let_def isValid_def)

lemma connect_others:
  assumes "balanced others s w"
  shows "balanced others s (snd (bind_unix addr w))"
proof -
  let ?r = "sock_connect addr (- 1) CreateUnixTCPSocket w"
  have "balanced (others + own s) CreateUnixTCPSocket w"
    using assms by (simp add: balanced_def own_def CreateUnixTCPSocket_def new_Socket_def ac_simps)
  then have "balanced (others + own s) (fst (snd ?r)) (snd (snd ?r))" by (rule balanced_connect)
  then show ?thesis by (auto simp: bind_unix_def split_beta Let_def intro!: balanced_destroy)
qed

lemma balanced_local [simp]: "balanced others (fst (getLocalAddress s w)) (snd (getLocalAddress s w)) = balanced others s w"
  by (simp add: getLocalAddress_def split_beta Let_def)

lemma balanced_remote [simp]: "balanced others (fst (getRemoteAddress s w)) (snd (getRemoteAddress s w)) = balanced others s w"
  by (simp add: getRemoteAddress_def split_beta Let_def)

lemma balanced_bind:
  assumes "balanced others s w"
  shows "balanced others (fst (snd (sock_bind addr s w))) (snd (snd (sock_bind addr s w)))"
proof -
  obtain s1 w1 where p: "(if isValid s then (s, w) else newSock s w) = (s1, w1)" by fastforce
  have b: "balanced others s1 w1"
    using assms balanced_newSock [of others s w] p by (auto simp: isValid_def split: if_splits)
  show ?thesis
    unfolding sock_bind_def p using b connect_others [OF b, of addr]
    by (auto simp: split_beta Let_def)
qed

lemma balanced_step: "balanced others (fst p) (snd p) \<Longrightarrow> balanced others (fst (sock_step op p)) (snd (sock_step op p))"
  by (cases p, cases op)
    (auto simp: balanced_bind balanced_connect balanced_close reconnect_def sock_listen_def transfer_defs
      split_beta Let_def)

lemma balanced_steps: "balanced others (fst p) (snd p) \<Longrightarrow> balanced others (fst (fold sock_step ops p)) (snd (fold sock_step ops p))"
  by (induction ops arbitrary: p) (auto simp: balanced_step)

lemma balanced_init:
  assumes "balanced (add_mset fd others) s w" "m_sock s = - 1" "fd \<noteq> - 1" "sock_init fd k m s w = Inr (ok, s', w')"
  shows "if ok then m_sock s' = fd \<and> balanced others s' w' else s' = s \<and> w' = w"
proof -
  let ?s = "s\<lparr>m_sock := fd, m_isConnected := True\<rparr>"
  have b: "balanced others ?s w" using assms(1-3) by (simp add: balanced_def own_def)
  have sock: "m_sock (fst (getRemoteAddress t v)) = m_sock t" "m_sock (fst (getLocalAddress t v)) = m_sock t" for t v
    by (simp_all add: getRemoteAddress_def getLocalAddress_def split_beta Let_def)
  let ?l = "getLocalAddress ?s (initSock ?s w)"
  let ?r = "getRemoteAddress (fst ?l) (snd ?l)"
  have ok: "m_sock (fst ?r) = fd" "balanced others (fst ?r) (snd ?r)" using b by (simp_all add: sock)
  from assms(4) have "if ok then ?r = (s', w') else (s', w') = (s, w)"
    by (auto simp: sock_init_def bindr_eq_Inr split_beta Let_def split: option.splits if_splits)
  then show ?thesis using ok by (cases ok) auto
qed

text \<open>
  What \<open>accept\<close> makes of the descriptor that the kernel gives it: a socket that owns it when the descriptor table has
  it as an open socket, and otherwise nobody's.
\<close>

lemma balanced_accept:
  assumes "balanced others s w" "sock_accept k m s w = Inr (r, w')" "answer w (syslog w) (SysAccept (m_sock s)) = fd"
  shows "case r of Some t \<Rightarrow> m_sock t = fd \<and> fd \<noteq> - 1 \<and> balanced (others + own t) s w'
    | None \<Rightarrow> balanced (if fd = - 1 then others else add_mset fd others) s w'"
proof (cases "fd = - 1")
  case True
  then have "r = None" "w' = snd (sys (SysAccept (m_sock s)) w)" using assms(2,3) by (simp_all add: sock_accept_def sys_def Let_def)
  then show ?thesis using True assms(1,3) by (simp add: sys_def balanced_def Let_def)
next
  case False
  let ?new = "new_Socket (m_family s) (m_type s) (m_protocol s)" and ?w = "snd (sys (SysAccept (m_sock s)) w)"
  obtain ok t v where i: "sock_init fd k m ?new ?w = Inr (ok, t, v)" "(r, w') = (if ok then (Some t, v) else (None, destroy t v))"
    using assms(2,3) False by (auto simp: sock_accept_def sys_def Let_def bindr_eq_Inr)
  have "balanced (add_mset fd (others + own s)) ?new ?w"
    using assms(1,3) False by (simp add: balanced_def own_def new_Socket_def sys_def ac_simps)
  from balanced_init [OF this _ False i(1)]
  have "if ok then m_sock t = fd \<and> balanced (others + own s) t v else t = ?new \<and> v = ?w" by (simp add: new_Socket_def)
  moreover have "destroy ?new ?w = ?w" by (simp add: destroy_def sock_close_def new_Socket_def)
  ultimately show ?thesis using i(2) assms(1,3) False
    by (auto simp: balanced_def sys_def ac_simps split: if_splits)
qed

lemma sock_accept_table:
  assumes "answer w (syslog w) (SysAccept (m_sock s)) = fd" "fd \<noteq> - 1"
    "fdm_get fd False k m = Inr (Some c, k', m')" "m_isSocket c" "\<not> m_isClosed c"
  shows "\<exists>t w'. sock_accept k m s w = Inr (Some t, w')"
  using assms by (simp add: sock_accept_def sock_init_def sys_def split_beta Let_def)

section \<open>All the sockets of a program\<close>

text \<open>
  The sockets that exist, the descriptors that were accepted and refused by \<open>init\<close>, and the kernel. Sockets of every
  kind are created, used, accepted and destroyed in any order.
\<close>

inductive socks_reach :: "Socket list \<Rightarrow> int multiset \<Rightarrow> Sys \<Rightarrow> bool" where
  socks_start: "syslog w = [] \<Longrightarrow> socks_reach [] {#} w"
| socks_new: "socks_reach ss lost w \<Longrightarrow> s \<in> {CreateTCP addr, CreateUnixTCPSocket, CreateUnixUDPSocket} \<Longrightarrow>
    socks_reach (s # ss) lost w"
| socks_udp: "socks_reach ss lost w \<Longrightarrow> CreateUDP addr w = (s, w') \<Longrightarrow> socks_reach (s # ss) lost w'"
| socks_op: "socks_reach (as @ s # bs) lost w \<Longrightarrow> sock_step op (s, w) = (s', w') \<Longrightarrow> socks_reach (as @ s' # bs) lost w'"
| socks_accept: "socks_reach ss lost w \<Longrightarrow> s \<in> set ss \<Longrightarrow> sock_accept k m s w = Inr (Some t, w') \<Longrightarrow>
    socks_reach (t # ss) lost w'"
| socks_accept_none: "socks_reach ss lost w \<Longrightarrow> s \<in> set ss \<Longrightarrow> answer w (syslog w) (SysAccept (m_sock s)) = fd \<Longrightarrow>
    sock_accept k m s w = Inr (None, w') \<Longrightarrow>
    socks_reach ss (if fd = - 1 then lost else add_mset fd lost) w'"
| socks_destroy: "socks_reach (as @ s # bs) lost w \<Longrightarrow> socks_reach (as @ bs) lost (destroy s w)"

definition held_by :: "Socket list \<Rightarrow> int multiset" where
  "held_by ss = sum_list (map own ss)"

lemma held_by_simps [simp]: "held_by [] = {#}" "held_by (s # ss) = own s + held_by ss" "held_by (as @ bs) = held_by as + held_by bs"
  by (simp_all add: held_by_def)

lemma held_by_split: "s \<in> set ss \<Longrightarrow> \<exists>others. held_by ss = own s + others"
  by (induction ss) (auto simp: ac_simps)

lemma socks_reach_held: "socks_reach ss lost w \<Longrightarrow> opened (syslog w) = closed (syslog w) + held_by ss + lost"
proof (induction rule: socks_reach.induct)
  case (socks_start w)
  then show ?case by simp
next
  case (socks_new ss lost w s addr)
  then have "own s = {#}"
    by (auto simp: own_def CreateTCP_def CreateUnixTCPSocket_def CreateUnixUDPSocket_def new_Socket_def)
  then show ?case using socks_new.IH by simp
next
  case (socks_udp ss lost w addr s w')
  let ?n = "new_Socket (addr_family addr) SOCK_DGRAM 0"
  have "balanced (held_by ss + lost) ?n w" using socks_udp.IH by (simp add: balanced_def own_def new_Socket_def)
  from balanced_newSock [OF this] show ?case
    using socks_udp.hyps by (auto simp: CreateUDP_def new_Socket_def split_beta Let_def balanced_def own_def ac_simps)
next
  case (socks_op as s bs lost w op s' w')
  have "balanced (held_by as + held_by bs + lost) s w" using socks_op.IH by (simp add: balanced_def ac_simps)
  then have "balanced (held_by as + held_by bs + lost) s' w'" using balanced_step [of _ "(s, w)" op] socks_op.hyps by simp
  then show ?case by (simp add: balanced_def ac_simps)
next
  case (socks_accept ss lost w s k m t w')
  obtain others where o: "held_by ss = own s + others" using held_by_split [OF socks_accept.hyps(2)] by blast
  have "balanced (others + lost) s w" using socks_accept.IH o by (simp add: balanced_def ac_simps)
  from balanced_accept [OF this socks_accept.hyps(3) refl] show ?case using o by (simp add: balanced_def ac_simps)
next
  case (socks_accept_none ss lost w s fd k m w')
  obtain others where o: "held_by ss = own s + others" using held_by_split [OF socks_accept_none.hyps(2)] by blast
  have "balanced (others + lost) s w" using socks_accept_none.IH o by (simp add: balanced_def ac_simps)
  from balanced_accept [OF this socks_accept_none.hyps(4,3)] show ?case using o by (simp add: balanced_def ac_simps)
next
  case (socks_destroy as s bs lost w)
  have "balanced (held_by as + held_by bs + lost) s w" using socks_destroy.IH by (simp add: balanced_def ac_simps)
  from balanced_close [OF this] show ?case by (simp add: balanced_def destroy_def ac_simps)
qed

text \<open>
  C29: descriptors and their sockets. Whatever sockets a program creates, accepts, uses and destroys, and whatever the
  kernel answers, every descriptor that was opened, for a socket, for an accepted connection or for the probing socket of
  a Unix bind, was closed once or is still held by exactly one socket, except the accepted ones that \<open>init\<close> refused;
  once the sockets are destroyed all the others are closed exactly once. \<open>init\<close> refuses none that the descriptor table
  has as an open socket, and a second close makes no system call.
\<close>

theorem descriptors_closed_once:
  assumes "socks_reach ss lost w"
  shows "opened (syslog w) = closed (syslog w) + held_by ss + lost
    \<and> opened (syslog (fold destroy ss w)) = closed (syslog (fold destroy ss w)) + lost
    \<and> (answer w (syslog w) (SysAccept (m_sock s)) \<noteq> - 1
        \<and> fdm_get (answer w (syslog w) (SysAccept (m_sock s))) False k m = Inr (Some c, k', m') \<and> m_isSocket c \<and> \<not> m_isClosed c
        \<longrightarrow> (\<exists>t w'. sock_accept k m s w = Inr (Some t, w')))
    \<and> sock_close (fst (snd (sock_close s w))) w'' = (True, fst (snd (sock_close s w)), w'')"
proof -
  have "socks_reach [] lost (fold destroy ss w)"
    using assms
  proof (induction ss arbitrary: w)
    case (Cons s ss)
    then show ?case using socks_destroy [of "[]" s ss lost w] by simp
  qed simp
  from socks_reach_held [OF this]
  have "opened (syslog (fold destroy ss w)) = closed (syslog (fold destroy ss w)) + lost" by simp
  moreover have "sock_close (fst (snd (sock_close s w))) w'' = (True, fst (snd (sock_close s w)), w'')"
    by (auto simp: sock_close_def split_beta Let_def)
  ultimately show ?thesis using socks_reach_held [OF assms] sock_accept_table by blast
qed

section \<open>A connected socket cannot be used\<close>

lemma newSock_connected [simp]: "m_isConnected (fst (newSock s w)) = m_isConnected s"
  by (simp add: newSock_def split_beta Let_def)

lemma connect_connected [simp]: "m_isConnected (fst (snd (sock_connect a t s w))) = m_isConnected s"
  by (simp add: sock_connect_def split_beta Let_def)

lemma local_connected [simp]: "m_isConnected (fst (getLocalAddress s w)) = m_isConnected s"
  by (simp add: getLocalAddress_def split_beta Let_def)

lemma remote_connected [simp]: "m_isConnected (fst (getRemoteAddress s w)) = m_isConnected s"
  by (simp add: getRemoteAddress_def split_beta Let_def)

lemma bind_connected [simp]: "m_isConnected (fst (snd (sock_bind a s w))) = m_isConnected s"
  by (simp add: sock_bind_def split_beta Let_def)

lemma step_connected: "\<not> m_isConnected (fst p) \<Longrightarrow> \<not> m_isConnected (fst (sock_step op p))"
  by (cases p, cases op) (auto simp: reconnect_def sock_listen_def sock_close_def split_beta Let_def)

lemma steps_connected: "\<not> m_isConnected (fst p) \<Longrightarrow> \<not> m_isConnected (fst (fold sock_step ops p))"
  by (induction ops arbitrary: p) (auto simp: step_connected)

text \<open>
  A TCP socket that the program created and connected never becomes usable: after any calls, a
  successful \<open>connect\<close> included, sending and receiving return -1 without a system call, because only
  \<open>accept\<close> and \<open>CreateUDP\<close> set the connected flag. A \<open>connect\<close> with a timeout reports success even when the
  call fails, and \<open>listen\<close> does too.
\<close>

theorem client_socket_unusable:
  assumes "fold sock_step ops (CreateTCP addr, w) = (s, w')"
  shows "sock_send n s w' = (- 1, w') \<and> sock_recv n s w' = (- 1, w') \<and> sock_send_iov ns s w' = (- 1, w')
    \<and> sock_recv_iov ns s w' = (- 1, w') \<and> sendTo n a s w' = (- 1, w') \<and> recvFrom n a s w' = (- 1, w')
    \<and> (m_sock s \<noteq> - 1 \<and> addr_family a = m_family s \<and> t \<noteq> - 1 \<longrightarrow> fst (sock_connect a t s w'))
    \<and> (m_sock s \<noteq> - 1 \<longrightarrow> fst (sock_listen b s w'))"
proof -
  have "\<not> m_isConnected s"
    using steps_connected [of "(CreateTCP addr, w)" ops] assms by (simp add: CreateTCP_def new_Socket_def)
  then show ?thesis
    by (simp add: transfer_defs sock_connect_def sock_listen_def isValid_def split_beta Let_def)
qed

text \<open>The timeouts of a socket that is not open are looked up at the index -1.\<close>

lemma timeout_of_unopened: "\<not> isValid s \<Longrightarrow> getSendTimeout k m s = Inl FdIndex \<and> getRecvTimeout k m s = Inl FdIndex"
  by (simp add: isValid_def getSendTimeout_def getRecvTimeout_def sock_timeout_def fdm_get_def fd_at_def)

definition sample_sys :: Sys where
  "sample_sys = \<lparr>syslog = [], answer = (\<lambda>_ c. case c of SysSocket _ _ _ \<Rightarrow> 7 | _ \<Rightarrow> 0)\<rparr>"

definition sample_addr :: sock_addr where
  "sample_addr = \<lparr>addr_family = 2, addr_is_unix = False\<rparr>"

lemma sample_connect:
  "fold sock_step [OpConnect sample_addr (- 1)] (CreateTCP sample_addr, sample_sys) =
    (\<lparr>m_sock = 7, m_family = 2, m_type = 1, m_protocol = 0, m_isConnected = False,
      m_localAddress = None, m_remoteAddress = None\<rparr>,
     sample_sys\<lparr>syslog := [(SysSocket 2 1 0, 7), (SysSetsockopt 7 2, 0), (SysSetsockopt 7 1, 0), (SysConnect 7, 0)]\<rparr>)"
  by (simp add: sample_sys_def sample_addr_def CreateTCP_def new_Socket_def sock_connect_def isValid_def newSock_def
      initSock_def sys_def SOCK_STREAM_def SO_REUSEADDR_def TCP_NODELAY_def Let_def)

text \<open>A server: its socket has descriptor 7, an accepted connection 8, a refused one 9.\<close>

definition server_sys :: Sys where
  "server_sys = \<lparr>syslog = [], answer = (\<lambda>l c. case c of SysSocket _ _ _ \<Rightarrow> 7
     | SysAccept _ \<Rightarrow> if 8 \<in># opened l then 9 else 8 | _ \<Rightarrow> 0)\<rparr>"

theorem descriptors_closed_once_witness:
  "\<exists>w s t. socks_reach [t, s] {#9#} w \<and> opened (syslog w) = {#7, 8, 9#}
    \<and> opened (syslog (fold destroy [t, s] w)) = closed (syslog (fold destroy [t, s] w)) + {#9#}"
proof -
  let ?c = "\<lparr>m_isInit = True, m_isSocket = True, m_sysNonblock = True, m_userNonblock = False, m_isClosed = False, m_fd = 8,
    m_recvTimeout = 0, m_sendTimeout = 0\<rparr>"
  let ?m = "replicate 8 None @ [Some ?c]"
  obtain s w1 where s: "sock_step (OpBind sample_addr) (CreateTCP sample_addr, server_sys) = (s, w1)" by fastforce
  have o1: "opened (syslog w1) = {#7#}" "answer w1 = answer server_sys"
    using s by (auto simp: server_sys_def sample_addr_def CreateTCP_def new_Socket_def sock_bind_def isValid_def newSock_def
      initSock_def sys_def getLocalAddress_def SOCK_STREAM_def Let_def)
  have "socks_reach [CreateTCP sample_addr] {#} server_sys"
    by (rule socks_new [OF socks_start, of _ _ sample_addr]) (simp_all add: server_sys_def)
  then have r1: "socks_reach [s] {#} w1" using socks_op [of "[]" _ "[]"] s by fastforce
  have get: "fdm_get 8 False k ?m = Inr (Some ?c, k, ?m)" "fdm_get 9 False k ?m = Inr (None, k, ?m)" for k
    by (simp_all add: fdm_get_def fd_at_def nth_append)
  have a1: "answer w1 (syslog w1) (SysAccept (m_sock s)) = 8" using o1 by (simp add: server_sys_def)
  obtain t w2 where t: "sock_accept Map.empty ?m s w1 = Inr (Some t, w2)"
    using sock_accept_table [OF a1 _ get(1) [of Map.empty]] by auto
  then have r2: "socks_reach [t, s] {#} w2" using socks_accept [OF r1] by simp
  have o2: "opened (syslog w2) = {#7, 8#}" "answer w2 = answer server_sys"
    using t a1 o1 get(1) by (auto simp: sock_accept_def sock_init_def sys_def initSock_def getLocalAddress_def
      getRemoteAddress_def Let_def split: if_splits)
  have a2: "answer w2 (syslog w2) (SysAccept (m_sock s)) = 9" using o2 by (simp add: server_sys_def)
  obtain w3 where u: "sock_accept Map.empty ?m s w2 = Inr (None, w3)"
    using a2 get(2) by (simp add: sock_accept_def sock_init_def sys_def Let_def)
  then have r3: "socks_reach [t, s] {#9#} w3" using socks_accept_none [OF r2 _ a2] by simp
  have "opened (syslog w3) = {#7, 8, 9#}"
    using u a2 o2 get(2) by (auto simp: sock_accept_def sock_init_def sys_def destroy_def sock_close_def new_Socket_def Let_def)
  then show ?thesis using r3 descriptors_closed_once [OF r3] by blast
qed

theorem client_socket_unusable_witness:
  "fst (sock_send 5 (fst (fold sock_step [OpConnect sample_addr (- 1)] (CreateTCP sample_addr, sample_sys)))
       (snd (fold sock_step [OpConnect sample_addr (- 1)] (CreateTCP sample_addr, sample_sys)))) = - 1"
  unfolding sample_connect
  using client_socket_unusable [OF sample_connect, of 5 "[]" sample_addr 0 0] by simp

end
