(* ===== verification/HttpPool.thy ===== *)
theory HttpPool
  imports HttpTransfer SocketApi SocketStream
begin

text \<open>
  The client side (\<open>http/http_connection.h\<close>, \<open>http/http_connection.cc\<close>): the connection pool and the
  requests made through it. Connections live in a heap, since the pool and the shared pointers it hands
  out refer to the same objects and delete them. Each operation is one step; the address of a new
  connection, the clock, the socket that resolving, creating and connecting gave, if any, and the
  outcome of the transfer are arguments. Error texts are not modelled.
\<close>

section \<open>The pool\<close>

record HttpConnection =
  m_socket :: "Socket option"
  m_createTime :: u64
  m_request :: u64

definition hc_isConnected :: "HttpConnection \<Rightarrow> bool" where
  "hc_isConnected c \<longleftrightarrow> (case m_socket c of None \<Rightarrow> False | Some s \<Rightarrow> m_isConnected s)"

definition new_HttpConnection :: "Socket \<Rightarrow> HttpConnection" where
  "new_HttpConnection sock = \<lparr>m_socket = Some sock, m_createTime = 0, m_request = 0\<rparr>"

record HttpConnectionPool =
  m_host :: string
  m_vhost :: string
  m_port :: u32
  m_maxSize :: u32
  m_maxAliveTime :: u32
  m_maxRequest :: u32
  m_isHttps :: bool
  m_conns :: "nat list"
  m_total :: u32
  live :: "nat \<Rightarrow> HttpConnection option"

datatype pool_error = DanglingConnection

definition new_HttpConnectionPool ::
  "string \<Rightarrow> string \<Rightarrow> u32 \<Rightarrow> bool \<Rightarrow> u32 \<Rightarrow> u32 \<Rightarrow> u32 \<Rightarrow> HttpConnectionPool" where
  "new_HttpConnectionPool host vhost port is_https max_size max_alive_time max_request =
     \<lparr>m_host = host, m_vhost = vhost, m_port = (if port \<noteq> 0 then port else if is_https then 443 else 80),
      m_maxSize = max_size, m_maxAliveTime = max_alive_time, m_maxRequest = max_request, m_isHttps = is_https,
      m_conns = [], m_total = 0, live = Map.empty\<rparr>"

text \<open>The loop under the lock: the connection taken, the invalid ones before it, and those that stay.\<close>

fun pick ::
  "u64 \<Rightarrow> u32 \<Rightarrow> (nat \<Rightarrow> HttpConnection option) \<Rightarrow> nat list \<Rightarrow> pool_error + nat option \<times> nat list \<times> nat list" where
  "pick now_ms max_alive h [] = Inr (None, [], [])"
| "pick now_ms max_alive h (conn # conns) =
     (case h conn of None \<Rightarrow> Inl DanglingConnection
      | Some c \<Rightarrow>
          if \<not> hc_isConnected c \<or> m_createTime c + ucast max_alive > now_ms then
            bindr (pick now_ms max_alive h conns) (\<lambda>(r, invalid, rest). Inr (r, conn # invalid, rest))
          else Inr (Some conn, [], conns))"

definition getConnection ::
  "u64 \<Rightarrow> Socket option \<Rightarrow> nat \<Rightarrow> HttpConnectionPool \<Rightarrow> pool_error + nat option \<times> HttpConnectionPool" where
  "getConnection now_ms sock a pool =
     bindr (pick now_ms (m_maxAliveTime pool) (live pool) (m_conns pool)) (\<lambda>(ptr, invalid, rest).
       let pool = pool\<lparr>m_conns := rest, live := (\<lambda>x. if x \<in> set invalid then None else live pool x),
                       m_total := m_total pool - of_nat (length invalid)\<rparr>
       in case ptr of
            Some c \<Rightarrow> Inr (Some c, pool)
          | None \<Rightarrow>
              (case sock of
                 None \<Rightarrow> Inr (None, pool)
               | Some s \<Rightarrow> Inr (Some a, pool\<lparr>live := (live pool)(a \<mapsto> new_HttpConnection s), m_total := m_total pool + 1\<rparr>)))"

definition ReleasePtr :: "u64 \<Rightarrow> nat \<Rightarrow> HttpConnectionPool \<Rightarrow> pool_error + HttpConnectionPool" where
  "ReleasePtr now_ms ptr pool =
     (case live pool ptr of None \<Rightarrow> Inl DanglingConnection
      | Some c \<Rightarrow>
          let c = c\<lparr>m_request := m_request c + 1\<rparr>
          in if \<not> hc_isConnected c \<or> m_createTime c + ucast (m_maxAliveTime pool) \<ge> now_ms
                \<or> m_request c \<ge> ucast (m_maxRequest pool)
             then Inr (pool\<lparr>live := (live pool)(ptr := None), m_total := m_total pool - 1\<rparr>)
             else Inr (pool\<lparr>live := (live pool)(ptr \<mapsto> c), m_conns := m_conns pool @ [ptr]\<rparr>))"

section \<open>Requests through the pool\<close>

fun header_loop :: "(string \<times> string) list \<Rightarrow> bool \<Rightarrow> HttpRequest \<Rightarrow> bool \<times> HttpRequest" where
  "header_loop [] has_host req = (has_host, req)"
| "header_loop (i # headers) has_host req =
     (if strcasecmp (fst i) ''connection'' = 0 then
        header_loop headers has_host (if strcasecmp (snd i) ''keep-alive'' = 0 then req\<lparr>m_close := False\<rparr> else req)
      else
        header_loop headers
          (if \<not> has_host \<and> strcasecmp (fst i) ''host'' = 0 then snd i \<noteq> [] else has_host)
          (setHeader (fst i) (snd i) req))"

definition make_request ::
  "HttpConnectionPool \<Rightarrow> HttpMethod \<Rightarrow> string \<Rightarrow> (string \<times> string) list \<Rightarrow> string \<Rightarrow> HttpRequest" where
  "make_request pool meth url headers body =
     (let req = new_HttpRequest 0x11 True;
          req = req\<lparr>m_path := url, m_method := meth, m_close := False\<rparr>;
          (has_host, req) = header_loop headers False req;
          req = (if has_host then req
                 else setHeader ''Host'' (if m_vhost pool = [] then m_host pool else m_vhost pool) req)
      in req\<lparr>m_body := body\<rparr>)"

text \<open>The target built from a parsed uri.\<close>

definition uri_target :: "string \<Rightarrow> string \<Rightarrow> string \<Rightarrow> string" where
  "uri_target path query fragment =
     path @ (if query = [] then [] else ''?'') @ query @ (if fragment = [] then [] else ''#'') @ fragment"

datatype result_code =
    OK | INVALID_URL | INVALID_HOST | CONNECT_FAIL | SEND_CLOSE_BY_PEER | SEND_SOCKET_ERROR | TIMEOUT
  | CREATE_SOCKET_ERROR | POOL_GET_CONNECTION | POOL_INVALID_CONNECTION

definition bytes_of :: "string \<Rightarrow> byte list" where
  "bytes_of = map (\<lambda>c. word_of_int (of_char c))"

definition sendRequest :: "bool \<Rightarrow> 's send_fun \<Rightarrow> HttpRequest \<Rightarrow> 's \<Rightarrow> ba_error + int \<times> byte list \<times> 's" where
  "sendRequest connected send req s =
     (let data = bytes_of (req_dump req) in writeFixSize connected send (of_nat (length data)) (data, s))"

definition sendResponse :: "bool \<Rightarrow> 's send_fun \<Rightarrow> HttpResponse \<Rightarrow> 's \<Rightarrow> ba_error + int \<times> byte list \<times> 's" where
  "sendResponse connected send rsp s =
     (let data = bytes_of (rsp_dump rsp) in writeFixSize connected send (of_nat (length data)) (data, s))"

text \<open>
  The transfer on a connection: \<open>rsp\<close> is what \<open>recvResponse\<close> returned. The result of \<open>sendRequest\<close> is an
  \<open>Inl\<close> only for byte arrays, which are not used here.
\<close>

definition transfer ::
  "HttpConnection \<Rightarrow> 's send_fun \<Rightarrow> 's \<Rightarrow> HttpRequest \<Rightarrow> HttpResponse option \<Rightarrow> result_code \<times> HttpResponse option" where
  "transfer c send s req rsp =
     (case m_socket c of None \<Rightarrow> (POOL_INVALID_CONNECTION, None)
      | Some sock \<Rightarrow>
          (case sendRequest (m_isConnected sock) send req s of
             Inl _ \<Rightarrow> (SEND_SOCKET_ERROR, None)
           | Inr (rt, _) \<Rightarrow>
               if rt = 0 then (SEND_CLOSE_BY_PEER, None)
               else if rt < 0 then (SEND_SOCKET_ERROR, None)
               else (case rsp of None \<Rightarrow> (TIMEOUT, None) | Some r \<Rightarrow> (OK, Some r))))"

text \<open>The shared pointer's deleter returns the connection when \<open>doRequest\<close> leaves its scope.\<close>

definition doRequest ::
  "u64 \<Rightarrow> Socket option \<Rightarrow> nat \<Rightarrow> 's send_fun \<Rightarrow> 's \<Rightarrow> HttpResponse option \<Rightarrow> u64 \<Rightarrow> HttpRequest \<Rightarrow>
   HttpConnectionPool \<Rightarrow> pool_error + (result_code \<times> HttpResponse option) \<times> HttpConnectionPool" where
  "doRequest now_ms sock a send s rsp later req pool =
     bindr (getConnection now_ms sock a pool) (\<lambda>(conn, pool).
       case conn of
         None \<Rightarrow> Inr ((POOL_GET_CONNECTION, None), pool)
       | Some p \<Rightarrow>
           (case live pool p of
              None \<Rightarrow> Inl DanglingConnection
            | Some c \<Rightarrow> bindr (ReleasePtr later p pool) (\<lambda>pool. Inr (transfer c send s req rsp, pool))))"

section \<open>Every connection is in the pool or with one client\<close>

text \<open>\<open>held\<close> are the connections whose shared pointers are alive.\<close>

definition pool_inv :: "nat set \<Rightarrow> HttpConnectionPool \<Rightarrow> bool" where
  "pool_inv held pool \<longleftrightarrow> distinct (m_conns pool) \<and> held \<inter> set (m_conns pool) = {}
     \<and> held \<union> set (m_conns pool) = dom (live pool) \<and> finite held
     \<and> m_total pool = of_nat (card (dom (live pool)))
     \<and> (\<forall>c\<in>ran (live pool). m_createTime c = 0)"

text \<open>
  Clients get and release connections in any order, and the state of a live connection's socket may
  change at any time.
\<close>

inductive pool_reach :: "nat set \<Rightarrow> HttpConnectionPool \<Rightarrow> bool" where
  start: "pool_reach {} (new_HttpConnectionPool host vhost port https size' alive reqs)"
| fetch: "pool_reach held pool \<Longrightarrow> live pool a = None \<Longrightarrow> getConnection now_ms sock a pool = Inr (Some c, pool') \<Longrightarrow>
    pool_reach (insert c held) pool'"
| fetch_fails: "pool_reach held pool \<Longrightarrow> live pool a = None \<Longrightarrow> getConnection now_ms sock a pool = Inr (None, pool') \<Longrightarrow>
    pool_reach held pool'"
| release: "pool_reach held pool \<Longrightarrow> c \<in> held \<Longrightarrow> ReleasePtr now_ms c pool = Inr pool' \<Longrightarrow>
    pool_reach (held - {c}) pool'"
| socket: "pool_reach held pool \<Longrightarrow> live pool c = Some h \<Longrightarrow>
    pool_reach held (pool\<lparr>live := (live pool)(c \<mapsto> h\<lparr>m_socket := s\<rparr>)\<rparr>)"

lemma pick_total:
  "set conns \<subseteq> dom h \<Longrightarrow> \<exists>r invalid rest. pick now_ms alive h conns = Inr (r, invalid, rest)
     \<and> conns = invalid @ (case r of Some c \<Rightarrow> [c] | None \<Rightarrow> []) @ rest \<and> (r = None \<longrightarrow> rest = [])
     \<and> (\<forall>c\<in>set invalid. \<not> (hc_isConnected (the (h c)) \<and> m_createTime (the (h c)) + ucast alive \<le> now_ms))
     \<and> (\<forall>c. r = Some c \<longrightarrow> hc_isConnected (the (h c)) \<and> m_createTime (the (h c)) + ucast alive \<le> now_ms)"
proof (induction conns)
  case (Cons c conns)
  then obtain k where k: "h c = Some k" by auto
  from Cons obtain r invalid rest where IH: "pick now_ms alive h conns = Inr (r, invalid, rest)"
    "conns = invalid @ (case r of Some c \<Rightarrow> [c] | None \<Rightarrow> []) @ rest" "r = None \<longrightarrow> rest = []"
    "\<forall>c\<in>set invalid. \<not> (hc_isConnected (the (h c)) \<and> m_createTime (the (h c)) + ucast alive \<le> now_ms)"
    "\<forall>c. r = Some c \<longrightarrow> hc_isConnected (the (h c)) \<and> m_createTime (the (h c)) + ucast alive \<le> now_ms" by auto
  show ?case
  proof (cases "\<not> hc_isConnected k \<or> m_createTime k + ucast alive > now_ms")
    case True
    then show ?thesis using IH k by (auto simp: not_le)
  next
    case False
    then show ?thesis using k by (auto simp: not_le)
  qed
qed simp

lemma dom_removed: "dom (\<lambda>x. if x \<in> A then None else h x) = dom h - A"
  by (auto split: if_splits)

lemma ran_removed: "ran (\<lambda>x. if x \<in> A then None else h x) \<subseteq> ran h"
  by (auto simp: ran_def split: if_splits)

lemma drop_invalid:
  assumes inv: "pool_inv held pool" and conns: "m_conns pool = invalid @ rest"
  shows "pool_inv held (pool\<lparr>m_conns := rest, live := (\<lambda>x. if x \<in> set invalid then None else live pool x),
           m_total := m_total pool - of_nat (length invalid)\<rparr>)"
proof -
  have d: "distinct (invalid @ rest)" "held \<inter> set (invalid @ rest) = {}" "held \<union> set (invalid @ rest) = dom (live pool)"
    using inv conns by (auto simp: pool_inv_def)
  then have fin: "finite (dom (live pool))" using inv by (metis finite_Un finite_set pool_inv_def)
  have sub: "set invalid \<subseteq> dom (live pool)" using d(3) by auto
  have "card (dom (live pool) - set invalid) = card (dom (live pool)) - length invalid"
    using fin sub d(1) by (simp add: card_Diff_subset distinct_card)
  moreover have "length invalid \<le> card (dom (live pool))"
    using card_mono [OF fin sub] d(1) by (simp add: distinct_card)
  ultimately have "(of_nat (card (dom (live pool))) :: u32) - of_nat (length invalid) = of_nat (card (dom (live pool) - set invalid))"
    by (simp add: of_nat_diff)
  moreover have "held \<union> set rest = dom (live pool) - set invalid" using d by auto
  ultimately show ?thesis
    using inv d ran_removed [of "set invalid" "live pool"] by (auto simp: pool_inv_def dom_removed conns)
qed

lemma add_connection:
  assumes "pool_inv held pool" "live pool a = None"
  shows "pool_inv (insert a held) (pool\<lparr>live := (live pool)(a \<mapsto> new_HttpConnection s), m_total := m_total pool + 1\<rparr>)"
proof -
  have "finite (dom (live pool))" using assms(1) by (metis finite_Un finite_set pool_inv_def)
  moreover have "a \<notin> dom (live pool)" using assms(2) by auto
  ultimately have "card (insert a (dom (live pool))) = Suc (card (dom (live pool)))" by simp
  then show ?thesis
    using assms by (auto simp: pool_inv_def new_HttpConnection_def ran_def split: if_splits)
qed

lemma getConnection_inv:
  assumes inv: "pool_inv held pool" and a: "live pool a = None"
  shows "\<exists>r pool'. getConnection now_ms sock a pool = Inr (r, pool')
    \<and> (case r of None \<Rightarrow> pool_inv held pool' | Some c \<Rightarrow> c \<notin> held \<and> pool_inv (insert c held) pool')
    \<and> (\<forall>c\<in>held. live pool' c = live pool c)"
proof -
  have sub: "set (m_conns pool) \<subseteq> dom (live pool)" using inv by (auto simp: pool_inv_def)
  from pick_total [OF sub, of now_ms "m_maxAliveTime pool"] obtain r invalid rest where
    p: "pick now_ms (m_maxAliveTime pool) (live pool) (m_conns pool) = Inr (r, invalid, rest)"
    and conns: "m_conns pool = invalid @ (case r of Some c \<Rightarrow> [c] | None \<Rightarrow> []) @ rest" and none: "r = None \<longrightarrow> rest = []"
    by blast
  have held: "held \<inter> set invalid = {}" "a \<notin> held" using inv conns a by (auto simp: pool_inv_def)
  note dropped = drop_invalid [OF inv conns]
  show ?thesis
  proof (cases r)
    case None
    let ?pool = "pool\<lparr>m_conns := [], live := (\<lambda>x. if x \<in> set invalid then None else live pool x),
           m_total := m_total pool - of_nat (length invalid)\<rparr>"
    have "pool_inv held ?pool" using dropped None none by simp
    moreover have "live ?pool a = None" using a by simp
    ultimately have "pool_inv (insert a held) (?pool\<lparr>live := (live ?pool)(a \<mapsto> new_HttpConnection s), m_total := m_total ?pool + 1\<rparr>)" for s
      by (rule add_connection)
    then show ?thesis
      using \<open>pool_inv held ?pool\<close> p None none held
      by (cases sock) (auto simp: getConnection_def Let_def)
  next
    case (Some c)
    let ?pool = "pool\<lparr>m_conns := c # rest, live := (\<lambda>x. if x \<in> set invalid then None else live pool x),
           m_total := m_total pool - of_nat (length invalid)\<rparr>"
    have i: "pool_inv held ?pool" using dropped Some by simp
    then have "pool_inv (insert c held) (pool\<lparr>m_conns := rest, live := (\<lambda>x. if x \<in> set invalid then None else live pool x),
           m_total := m_total pool - of_nat (length invalid)\<rparr>)" "c \<notin> held" by (auto simp: pool_inv_def)
    then show ?thesis using p Some held by (auto simp: getConnection_def Let_def)
  qed
qed

lemma ReleasePtr_inv:
  assumes inv: "pool_inv held pool" and c: "c \<in> held"
  shows "\<exists>pool'. ReleasePtr now_ms c pool = Inr pool' \<and> pool_inv (held - {c}) pool'"
proof -
  have "c \<in> dom (live pool)" using assms by (auto simp: pool_inv_def)
  then obtain h where h: "live pool c = Some h" by auto
  have fin: "finite (dom (live pool))" using inv by (metis finite_Un finite_set pool_inv_def)
  have ins: "insert c (dom (live pool)) = dom (live pool)" using h by auto
  have "card (dom (live pool)) = Suc (card (dom (live pool) - {c}))"
    by (rule card.remove [OF fin]) (use h in auto)
  then have "m_total pool - 1 = of_nat (card (dom (live pool) - {c}))"
    using inv by (simp add: pool_inv_def)
  then have "pool_inv (held - {c}) (pool\<lparr>live := (live pool)(c := None), m_total := m_total pool - 1\<rparr>)"
    using inv c h by (auto simp: pool_inv_def ran_def split: if_splits)
  moreover have "pool_inv (held - {c}) (pool\<lparr>live := (live pool)(c \<mapsto> h\<lparr>m_request := m_request h + 1\<rparr>), m_conns := m_conns pool @ [c]\<rparr>)"
    using inv c h fin by (auto simp: pool_inv_def ins ran_def split: if_splits)
  ultimately show ?thesis by (simp add: ReleasePtr_def Let_def h)
qed

lemma pool_reach_inv: "pool_reach held pool \<Longrightarrow> pool_inv held pool"
proof (induction rule: pool_reach.induct)
  case (start host vhost port https size' alive reqs)
  then show ?case by (simp add: pool_inv_def new_HttpConnectionPool_def)
next
  case (fetch held pool a now_ms sock c pool')
  then show ?case using getConnection_inv [of held pool a now_ms sock] by auto
next
  case (fetch_fails held pool a now_ms sock pool')
  then show ?case using getConnection_inv [of held pool a now_ms sock] by auto
next
  case (release held pool c now_ms pool')
  then show ?case using ReleasePtr_inv [of held pool c now_ms] by auto
next
  case (socket held pool c h s)
  then have "insert c (dom (live pool)) = dom (live pool)" by auto
  then show ?case using socket by (auto simp: pool_inv_def ran_def split: if_splits)
qed

text \<open>
  C30: under every order in which clients get and release connections, and whatever happens to the
  sockets, the connections alive are exactly those that wait in the pool and those that clients hold,
  no connection is handed to two clients, the total counts the live ones, and no operation follows a
  pointer to a deleted connection.
\<close>

theorem pool_reachable_inv:
  assumes "pool_reach held pool"
  shows "distinct (m_conns pool) \<and> held \<inter> set (m_conns pool) = {} \<and> held \<union> set (m_conns pool) = dom (live pool)
    \<and> m_total pool = of_nat (card (dom (live pool)))
    \<and> (live pool a = None \<longrightarrow> (\<exists>r pool'. getConnection now_ms sock a pool = Inr (r, pool') \<and> (\<forall>c. r = Some c \<longrightarrow> c \<notin> held)))
    \<and> (c \<in> held \<longrightarrow> (\<exists>pool'. ReleasePtr now_ms c pool = Inr pool'))"
  using pool_reach_inv [OF assms] getConnection_inv [OF pool_reach_inv [OF assms], of a now_ms sock]
    ReleasePtr_inv [OF pool_reach_inv [OF assms], of c now_ms]
  by (auto simp: pool_inv_def split: option.splits)

section \<open>The age limit\<close>

lemma alive_time_old: "2 ^ 32 \<le> uint now_ms \<Longrightarrow> 0 + ucast (x :: u32) \<le> (now_ms :: u64) \<and> 0 + ucast x \<noteq> now_ms"
proof -
  assume now: "2 ^ 32 \<le> uint now_ms"
  have "uint x < 2 ^ 32" using uint_lt2p [of x] by simp
  then have "uint (ucast x :: u64) < uint now_ms"
    using now by (simp add: unsigned_ucast_eq take_bit_int_eq_self)
  then show ?thesis by (auto simp: word_le_def)
qed

text \<open>
  The age of a connection is never looked at in effect: its creation time stays zero, so at any
  time of the clock from 50 days after the epoch on the pool keeps exactly the connections that are
  connected and have requests left, and hands out the first of them that is still connected, deleting
  the disconnected ones before it.
\<close>

theorem pool_ignores_age:
  assumes "pool_reach held pool" "2 ^ 32 \<le> uint now_ms" "live pool a = None"
  shows "(let gone = takeWhile (\<lambda>c. \<not> hc_isConnected (the (live pool c))) (m_conns pool);
              rest = drop (length gone) (m_conns pool)
          in \<exists>pool'. getConnection now_ms sock a pool =
               Inr (if rest \<noteq> [] then Some (hd rest) else if sock = None then None else Some a, pool')
             \<and> m_conns pool' = tl rest \<and> (\<forall>c\<in>set gone. live pool' c = None \<or> c = a))
    \<and> (\<forall>c h. live pool c = Some h \<longrightarrow> (\<exists>pool'. ReleasePtr now_ms c pool = Inr pool'
        \<and> (if hc_isConnected h \<and> m_request h + 1 < ucast (m_maxRequest pool)
           then m_conns pool' = m_conns pool @ [c] else live pool' c = None)))"
proof (intro conjI allI impI)
  note inv = pool_reach_inv [OF assms(1)]
  have zero: "m_createTime h = 0" if "live pool c = Some h" for c h
    using inv that by (auto simp: pool_inv_def ran_def)
  have sub: "set (m_conns pool) \<subseteq> dom (live pool)" using inv by (auto simp: pool_inv_def)
  then have old: "m_createTime (the (live pool c)) + ucast (m_maxAliveTime pool) \<le> now_ms" if "c \<in> set (m_conns pool)" for c
    using alive_time_old [OF assms(2), of "m_maxAliveTime pool"] zero that by fastforce
  from pick_total [OF sub, of now_ms "m_maxAliveTime pool"] obtain r invalid rest where
    p: "pick now_ms (m_maxAliveTime pool) (live pool) (m_conns pool) = Inr (r, invalid, rest)"
    and conns: "m_conns pool = invalid @ (case r of Some c \<Rightarrow> [c] | None \<Rightarrow> []) @ rest" and none: "r = None \<longrightarrow> rest = []"
    and inval: "\<forall>c\<in>set invalid. \<not> (hc_isConnected (the (live pool c)) \<and> m_createTime (the (live pool c)) + ucast (m_maxAliveTime pool) \<le> now_ms)"
    and good: "\<forall>c. r = Some c \<longrightarrow> hc_isConnected (the (live pool c))"
    by blast
  have "\<forall>c\<in>set invalid. \<not> hc_isConnected (the (live pool c))" using inval old conns by auto
  then have tw: "takeWhile (\<lambda>c. \<not> hc_isConnected (the (live pool c))) (m_conns pool) = invalid"
    using good none unfolding conns by (cases r) (auto simp: takeWhile_append2)
  show "let gone = takeWhile (\<lambda>c. \<not> hc_isConnected (the (live pool c))) (m_conns pool);
              rest = drop (length gone) (m_conns pool)
          in \<exists>pool'. getConnection now_ms sock a pool =
               Inr (if rest \<noteq> [] then Some (hd rest) else if sock = None then None else Some a, pool')
             \<and> m_conns pool' = tl rest \<and> (\<forall>c\<in>set gone. live pool' c = None \<or> c = a)"
    unfolding Let_def tw using p none conns
    by (cases r; cases sock) (auto simp: getConnection_def Let_def)
  fix c h
  assume h: "live pool c = Some h"
  have "\<not> m_createTime h + ucast (m_maxAliveTime pool) \<ge> now_ms"
    using alive_time_old [OF assms(2), of "m_maxAliveTime pool"] zero [OF h] by auto
  then show "\<exists>pool'. ReleasePtr now_ms c pool = Inr pool'
        \<and> (if hc_isConnected h \<and> m_request h + 1 < ucast (m_maxRequest pool)
           then m_conns pool' = m_conns pool @ [c] else live pool' c = None)"
    using h by (auto simp: ReleasePtr_def Let_def hc_isConnected_def not_le)
qed

section \<open>Requests through the pool never leave the program\<close>

lemma length_bytes_of [simp]: "length (bytes_of s) = length s"
  by (simp add: bytes_of_def)

lemma sendRequest_unconnected:
  assumes "length (req_dump req) < 2 ^ 31"
  shows "\<exists>bs. sendRequest False send req s = Inr (- 1, bs, s)"
proof -
  have n: "0 < length (req_dump req)" by (simp add: req_dump_def CRLF_def version_text_def)
  have u: "unat (of_nat (length (req_dump req)) :: u64) = length (req_dump req)"
    using assms by (simp add: unat_of_nat take_bit_nat_eq_self_iff)
  then have "0 < sint (of_nat (length (req_dump req)) :: u64)"
    using n assms sint_small(2) [of "of_nat (length (req_dump req))"] by simp
  then show ?thesis
    by (simp add: sendRequest_def writeFixSize_def fix_size_def fix_loop.simps SocketStream_write_def)
qed

text \<open>
  With an empty pool, a request over a socket that was created and connected the way the pool does
  it is never sent: whatever the peer would answer, the result is a socket error, because such a socket
  does not count as connected. The connection is deleted again and the pool is as before, so that the
  next request meets the same state; when no socket could be made the result says so.
\<close>

theorem doRequest_unsent:
  assumes "pool_reach held pool" "m_conns pool = []" "live pool a = None"
    and "fold sock_step ops (CreateTCP addr, w) = (s, w')" "length (req_dump req) < 2 ^ 31"
  shows "(\<exists>pool'. doRequest now_ms (Some s) a send st rsp later req pool = Inr ((SEND_SOCKET_ERROR, None), pool')
      \<and> m_conns pool' = [] \<and> live pool' = live pool \<and> m_total pool' = m_total pool)
    \<and> doRequest now_ms None a send st rsp later req pool = Inr ((POOL_GET_CONNECTION, None), pool)"
proof
  have s: "\<not> m_isConnected s"
    using steps_connected [of "(CreateTCP addr, w)" ops] assms(4) by (simp add: CreateTCP_def new_Socket_def)
  have live: "(live pool)(a := None) = live pool" using assms(3) by auto
  show "\<exists>pool'. doRequest now_ms (Some s) a send st rsp later req pool = Inr ((SEND_SOCKET_ERROR, None), pool')
      \<and> m_conns pool' = [] \<and> live pool' = live pool \<and> m_total pool' = m_total pool"
    using sendRequest_unconnected [OF assms(5), of send st] s assms(2) live
    by (auto simp: doRequest_def getConnection_def ReleasePtr_def new_HttpConnection_def transfer_def hc_isConnected_def Let_def)
  have "pool\<lparr>m_conns := [], live := live pool\<rparr> = pool" using assms(2) by (cases pool) simp
  then show "doRequest now_ms None a send st rsp later req pool = Inr ((POOL_GET_CONNECTION, None), pool)"
    using assms(2) by (simp add: doRequest_def getConnection_def)
qed

section \<open>The headers of a request\<close>

definition given :: "string \<Rightarrow> (string \<times> string) list \<Rightarrow> string option" where
  "given j hs = map_of (map (\<lambda>i. (ci_key (fst i), snd i)) hs) (ci_key j)"

lemma header_loop_frame:
  "m_path (snd (header_loop hs hh req)) = m_path req" "m_method (snd (header_loop hs hh req)) = m_method req"
  "m_close req = False \<Longrightarrow> m_close (snd (header_loop hs hh req)) = False"
  by (induction hs arbitrary: hh req) (auto simp: setHeader_def)

lemma header_loop_find:
  "map_ok (m_headers req) \<Longrightarrow> distinct (map (ci_key \<circ> fst) hs) \<Longrightarrow>
   map_ok (m_headers (snd (header_loop hs hh req))) \<and>
   ci_find j (m_headers (snd (header_loop hs hh req))) =
     (if ci_key j = ci_key ''connection'' then ci_find j (m_headers req)
      else case given j hs of Some v \<Rightarrow> Some v | None \<Rightarrow> ci_find j (m_headers req))"
proof (induction hs arbitrary: hh req)
  case (Cons i hs)
  have "given (fst i) hs = None"
    using Cons.prems(2) by (force simp: given_def map_of_eq_None_iff)
  then have none: "ci_key j = ci_key (fst i) \<Longrightarrow> given j hs = None" by (simp add: given_def)
  have "map_ok (m_headers (setHeader (fst i) (snd i) req))"
    using Cons.prems(1) by (simp add: setHeader_def ci.map_put_sorted)
  then show ?case
    using Cons.prems Cons.IH [of "setHeader (fst i) (snd i) req"]
      Cons.IH [of "if strcasecmp (snd i) ''keep-alive'' = 0 then req\<lparr>m_close := False\<rparr> else req"] none
    by (auto simp: strcasecmp_key setHeader_def ci.map_find_put given_def split: option.splits)
qed (simp add: given_def)

lemma header_loop_host:
  "distinct (map (ci_key \<circ> fst) hs) \<Longrightarrow>
   fst (header_loop hs hh req) = (hh \<or> (case given ''host'' hs of Some v \<Rightarrow> v \<noteq> [] | None \<Rightarrow> False))"
proof (induction hs arbitrary: hh req)
  case (Cons i hs)
  have "given (fst i) hs = None"
    using Cons.prems by (force simp: given_def map_of_eq_None_iff)
  then have none: "ci_key ''host'' = ci_key (fst i) \<Longrightarrow> given ''host'' hs = None" by (simp add: given_def)
  have ne: "ci_key ''connection'' \<noteq> ci_key ''host''" by (simp add: ci_key_def c_str_def tolower_def)
  show ?case
    using Cons none ne by (auto simp: strcasecmp_key given_def split: option.splits)
qed (simp add: given_def)

text \<open>
  A request built by the pool has the method, target and body it was given, keeps the connection
  open, never has a \<open>Connection\<close> header of the caller, and always names the host: the one the caller gave,
  if that is not empty, else the virtual host, else the host of the pool. The caller's other headers are
  found under their names in any case.
\<close>

theorem make_request_headers:
  assumes "distinct (map (ci_key \<circ> fst) headers)"
  shows "(let req = make_request pool meth url headers body
          in m_method req = meth \<and> m_path req = url \<and> m_body req = body \<and> \<not> m_close req
           \<and> hasHeader ''Connection'' req = None
           \<and> getHeader ''Host'' d req = (case given ''host'' headers of
                Some v \<Rightarrow> if v \<noteq> [] then v else if m_vhost pool = [] then m_host pool else m_vhost pool
              | None \<Rightarrow> if m_vhost pool = [] then m_host pool else m_vhost pool)
           \<and> (ci_key j \<notin> {ci_key ''connection'', ci_key ''host''} \<longrightarrow>
                getHeader j d req = (case given j headers of Some v \<Rightarrow> v | None \<Rightarrow> d)))"
proof -
  let ?r0 = "(new_HttpRequest 0x11 True)\<lparr>m_path := url, m_method := meth, m_close := False\<rparr>"
  have r0: "m_headers ?r0 = []" "m_path ?r0 = url" "m_method ?r0 = meth" "m_close ?r0 = False"
    by (simp_all add: new_HttpRequest_def)
  obtain hh req where l: "header_loop headers False ?r0 = (hh, req)" by fastforce
  have frame: "m_path req = url" "m_method req = meth" "m_close req = False"
    using header_loop_frame(1,2) [of headers False ?r0] header_loop_frame(3) [of ?r0 headers False] l r0 by simp_all
  have hh: "hh = (case given ''host'' headers of Some v \<Rightarrow> v \<noteq> [] | None \<Rightarrow> False)"
    using header_loop_host [OF assms, of False ?r0] l by simp
  have ok: "map_ok (m_headers req)" and find: "\<And>j. ci_find j (m_headers req) =
      (if ci_key j = ci_key ''connection'' then None else given j headers)"
    using header_loop_find [of ?r0 headers False] assms l r0 by (auto split: option.splits)
  have keys: "ci_key ''Connection'' = ci_key ''connection''" "ci_key ''Host'' = ci_key ''host''"
    "ci_key ''connection'' \<noteq> ci_key ''host''" by (simp_all add: ci_key_def c_str_def tolower_def)
  have given: "given ''Host'' headers = given ''host'' headers" by (simp add: given_def keys)
  show ?thesis
    using frame hh ok find keys given
    by (auto simp: make_request_def l Let_def setHeader_def getHeader_def hasHeader_def ci.map_find_put split: option.splits)
qed

definition sample_pool :: HttpConnectionPool where
  "sample_pool = new_HttpConnectionPool ''h'' [] 0 False 10 1000 5"

lemma sample_pool_reach: "pool_reach {} sample_pool"
  unfolding sample_pool_def by (rule pool_reach.start)

lemma sample_pool_fields [simp]:
  "m_conns sample_pool = []" "live sample_pool = Map.empty" "m_total sample_pool = 0" "m_host sample_pool = ''h''"
  "m_vhost sample_pool = []"
  by (simp_all add: sample_pool_def new_HttpConnectionPool_def)

theorem pool_reachable_inv_witness:
  "m_total sample_pool = 0 \<and> (\<exists>r pool'. getConnection 5 (Some (CreateTCP sample_addr)) 3 sample_pool = Inr (r, pool'))"
  using pool_reachable_inv [OF sample_pool_reach, of 3 5 "Some (CreateTCP sample_addr)" 0] by auto

theorem pool_ignores_age_witness:
  "\<exists>pool'. getConnection (2 ^ 40) (Some (CreateTCP sample_addr)) 3 sample_pool = Inr (Some 3, pool')"
proof -
  have "2 ^ 32 \<le> uint (2 ^ 40 :: u64)" by simp
  from pool_ignores_age [OF sample_pool_reach this, of 3 "Some (CreateTCP sample_addr)"] show ?thesis by auto
qed

theorem doRequest_unsent_witness:
  "\<exists>pool'. doRequest 5 (Some (fst (fold sock_step [OpConnect sample_addr (- 1)] (CreateTCP sample_addr, sample_sys)))) 3
      (\<lambda>bs s. (int (length bs), s)) () None 6 (make_request sample_pool GET ''/'' [] []) sample_pool
    = Inr ((SEND_SOCKET_ERROR, None), pool')"
proof -
  have "length (req_dump (make_request sample_pool GET ''/'' [] [])) < 2 ^ 31"
    by (simp add: make_request_def new_HttpRequest_def setHeader_def req_dump_def header_lines_def connection_line_def
        body_part_def version_text_def CRLF_def HttpMethodToString_def HTTP_METHOD_MAP_def dec.simps
        strcasecmp_def casecmp.simps c_str_def tolower_def)
  from doRequest_unsent [OF sample_pool_reach _ _ sample_connect this, of 3 5 "\<lambda>bs s. (int (length bs), s)" "()" None 6]
  show ?thesis unfolding sample_connect by auto
qed

theorem make_request_headers_witness:
  "getHeader ''Host'' [] (make_request sample_pool GET ''/'' [(''Connection'', ''close''), (''x'', ''1'')] []) = ''h''"
  using make_request_headers [of "[(''Connection'', ''close''), (''x'', ''1'')]" sample_pool GET "''/''" "[]" "[]" "''x''"]
  by (simp add: given_def ci_key_def c_str_def tolower_def Let_def)

end
