(* ===== verification/Servers.thy ===== *)
theory Servers
  imports HttpTransfer Servlets SocketApi
begin

text \<open>
  The servers (\<open>http/tcp_server.h\<close>, \<open>http/tcp_server.cc\<close>, \<open>http/http_server.cc\<close>). A server's sockets are
  bound before it starts; starting and stopping only schedule tasks, kept here in the order they were
  posted. The accept loop runs over the outcomes of \<open>accept\<close>, each with whether the server has been
  stopped by then. Serving a client composes the receiver, the dispatcher and the traffic of one
  connection.
\<close>

section \<open>TcpServer\<close>

datatype server_task = StartAccept Socket | CloseSockets | HandleClient Socket

record TcpServer =
  m_socks :: "Socket list"
  ts_recvTimeout :: u64
  ts_name :: string
  m_isStop :: bool
  m_ssl :: bool
  accept_queue :: "server_task list"
  io_queue :: "server_task list"

definition new_TcpServer :: "u64 \<Rightarrow> TcpServer" where
  "new_TcpServer read_timeout =
     \<lparr>m_socks = [], ts_recvTimeout = read_timeout, ts_name = ''hx_sylar/1.0.0'', m_isStop = True, m_ssl = False,
      accept_queue = [], io_queue = []\<rparr>"

text \<open>
  Binding: a socket that fails goes out of scope and is destroyed, and after a failure all sockets are
  dropped, those of earlier calls too. \<open>SSLSocket::CreateTCP\<close> is the inherited function, so both cases
  create the same kind of socket. The backlog is \<open>SOMAXCONN\<close>.
\<close>

definition SOMAXCONN :: int where "SOMAXCONN = 4096"

fun bind_loop ::
  "sock_addr list \<Rightarrow> sock_addr list \<Rightarrow> Socket list \<Rightarrow> Sys \<Rightarrow> sock_addr list \<times> Socket list \<times> Sys" where
  "bind_loop [] fails socks w = (fails, socks, w)"
| "bind_loop (addr # addrs) fails socks w =
     (let (bound, s, w) = sock_bind addr (CreateTCP addr) w
      in if \<not> bound then bind_loop addrs (fails @ [addr]) socks (destroy s w)
         else let (listening, s, w) = sock_listen SOMAXCONN s w
              in if \<not> listening then bind_loop addrs (fails @ [addr]) socks (destroy s w)
                 else bind_loop addrs fails (socks @ [s]) w)"

definition tcp_bind ::
  "sock_addr list \<Rightarrow> sock_addr list \<Rightarrow> bool \<Rightarrow> TcpServer \<Rightarrow> Sys \<Rightarrow> bool \<times> sock_addr list \<times> TcpServer \<times> Sys" where
  "tcp_bind addrs fails ssl srv w =
     (let srv = srv\<lparr>m_ssl := ssl\<rparr>;
          (fails, socks, w) = bind_loop addrs fails (m_socks srv) w
      in if fails \<noteq> [] then (False, fails, srv\<lparr>m_socks := []\<rparr>, fold destroy socks w)
         else (True, fails, srv\<lparr>m_socks := socks\<rparr>, w))"

definition tcp_bind_one :: "sock_addr \<Rightarrow> bool \<Rightarrow> TcpServer \<Rightarrow> Sys \<Rightarrow> bool \<times> TcpServer \<times> Sys" where
  "tcp_bind_one addr ssl srv w = (let (ok, _, srv, w) = tcp_bind [addr] [] ssl srv w in (ok, srv, w))"

definition tcp_start :: "TcpServer \<Rightarrow> bool \<times> TcpServer" where
  "tcp_start srv =
     (if \<not> m_isStop srv then (True, srv)
      else (True, srv\<lparr>m_isStop := False, accept_queue := accept_queue srv @ map StartAccept (m_socks srv)\<rparr>))"

definition tcp_stop :: "TcpServer \<Rightarrow> TcpServer" where
  "tcp_stop srv = srv\<lparr>m_isStop := True, accept_queue := accept_queue srv @ [CloseSockets]\<rparr>"

text \<open>
  One accept loop: each outcome is the client, if there was one; the flag says that the server was
  stopped before the next turn.
\<close>

fun startAccept :: "(Socket option \<times> bool) list \<Rightarrow> TcpServer \<Rightarrow> TcpServer" where
  "startAccept [] srv = srv"
| "startAccept ((client, stopped) # outcomes) srv =
     (if m_isStop srv then srv
      else let srv = (case client of None \<Rightarrow> srv | Some c \<Rightarrow> srv\<lparr>io_queue := io_queue srv @ [HandleClient c]\<rparr>)
           in startAccept outcomes (if stopped then srv\<lparr>m_isStop := True\<rparr> else srv))"

section \<open>HttpServer\<close>

text \<open>
  Serving one client: \<open>keepalive\<close> is the flag of the server and \<open>ws\<close> what the response's memory held. What the
  buffer of one \<open>recvRequest\<close> still holds is not given to the next. The result are the responses sent, in
  order; afterwards the session is closed on every path.
\<close>

lemma recvRequest_traffic:
  assumes "recvRequest cast R b segs = Inr (Some (req, rest))"
  shows "traffic rest < traffic segs"
proof -
  obtain p data s1 where h: "recv_head (rq_execute R) (rq_hasError R) (rq_isFinished R) b (new_HttpRequestParser R) [] segs
      = Some (p, data, s1)"
    using assms by (auto simp: recvRequest_def split: option.splits)
  have "traffic rest \<le> traffic s1"
    using assms h sock_read_traffic [of _ s1]
    by (auto simp: recvRequest_def recv_body_def bindr_eq_Inr Let_def split: if_splits option.splits prod.splits)
      (metis le_add1 snd_conv)+
  then show ?thesis using recv_head_traffic [OF h] by simp
qed

function handleClient ::
  "(string \<Rightarrow> u64 option) \<Rightarrow> ('m, request_event) ragel \<Rightarrow> nat \<Rightarrow> bool \<Rightarrow> bool \<Rightarrow> string \<Rightarrow> 'h handler \<Rightarrow>
   'h ServletDispatch \<Rightarrow> string list \<Rightarrow> http_error + HttpResponse list" where
  "handleClient cast R b keepalive ws name call d segs =
     (case recvRequest cast R b segs of
        Inl e \<Rightarrow> Inl e
      | Inr None \<Rightarrow> Inr []
      | Inr (Some (req, rest)) \<Rightarrow>
          let rsp = rsp_setHeader ''Server'' name (new_HttpResponse ws (m_version req) (m_close req \<or> \<not> keepalive));
              (rt, req, rsp) = dispatch_handle call d req rsp
          in if \<not> keepalive \<or> m_close req then Inr [rsp]
             else bindr (handleClient cast R b keepalive ws name call d rest) (\<lambda>rsps. Inr (rsp # rsps)))"
  by pat_completeness auto
termination
  by (relation "measure (\<lambda>(_, _, _, _, _, _, _, _, segs). traffic segs)") (auto dest: recvRequest_traffic)

declare handleClient.simps [simp del]

section \<open>Binding is all or nothing\<close>

definition owns :: "Socket list \<Rightarrow> int multiset" where
  "owns socks = sum_list (map own socks)"

definition accounted :: "Socket list \<Rightarrow> Sys \<Rightarrow> bool" where
  "accounted socks w \<longleftrightarrow> opened (syslog w) = closed (syslog w) + owns socks"

lemma accounted_balanced: "accounted (socks @ [s]) w = balanced (owns socks) s w"
  by (simp add: accounted_def balanced_def owns_def ac_simps)

lemma accounted_new: "accounted socks w \<Longrightarrow> balanced (owns socks) (CreateTCP addr) w"
  by (simp add: accounted_def balanced_def own_def CreateTCP_def new_Socket_def)

lemma accounted_destroy: "balanced (owns socks) s w \<Longrightarrow> accounted socks (destroy s w)"
  using balanced_close [of "owns socks" s w] by (simp add: balanced_def destroy_def accounted_def)

lemma destroy_all: "accounted socks w \<Longrightarrow> accounted [] (fold destroy socks w)"
proof (induction socks arbitrary: w)
  case (Cons s socks)
  then have "balanced (owns socks) s w" by (simp add: accounted_def balanced_def owns_def ac_simps)
  then show ?case using Cons.IH [OF accounted_destroy] by simp
qed simp

lemma bind_valid: "fst (sock_bind addr s w) \<Longrightarrow> isValid (fst (snd (sock_bind addr s w)))"
proof -
  assume ok: "fst (sock_bind addr s w)"
  obtain s1 w1 where p: "(if isValid s then (s, w) else newSock s w) = (s1, w1)" by fastforce
  show ?thesis
    using ok unfolding sock_bind_def p by (auto simp: split_beta Let_def getLocalAddress_def isValid_def split: if_splits)
qed

lemma listen_balanced: "balanced others s w \<Longrightarrow> balanced others (fst (snd (sock_listen n s w))) (snd (snd (sock_listen n s w)))"
  by (auto simp: sock_listen_def split_beta Let_def)

lemma bind_loop_accounted:
  assumes "accounted socks w" "bind_loop addrs fails socks w = (fails', socks', w')"
  shows "accounted socks' w' \<and> (\<exists>new bad. socks' = socks @ new \<and> fails' = fails @ bad \<and> set bad \<subseteq> set addrs
    \<and> length new + length bad = length addrs \<and> (\<forall>s\<in>set new. isValid s))"
  using assms
proof (induction addrs arbitrary: fails socks w)
  case (Cons addr addrs)
  obtain bound s w1 where b: "sock_bind addr (CreateTCP addr) w = (bound, s, w1)" by (cases "sock_bind addr (CreateTCP addr) w")
  have bal: "balanced (owns socks) s w1"
    using balanced_bind [OF accounted_new [OF Cons.prems(1)], of addr addr] b by simp
  show ?case
  proof (cases bound)
    case False
    then have "bind_loop addrs (fails @ [addr]) socks (destroy s w1) = (fails', socks', w')" using Cons.prems(2) b by simp
    from Cons.IH [OF accounted_destroy [OF bal] this] show ?thesis by fastforce
  next
    case True
    then have v: "isValid s" using bind_valid [of addr "CreateTCP addr" w] b by simp
    obtain w2 where l: "sock_listen SOMAXCONN s w1 = (True, s, w2)"
      using v by (simp add: sock_listen_def split_beta)
    have "accounted (socks @ [s]) w2"
      using listen_balanced [OF bal, of SOMAXCONN] l by (simp add: accounted_balanced)
    moreover have "bind_loop addrs fails (socks @ [s]) w2 = (fails', socks', w')" using Cons.prems(2) b True l by simp
    ultimately show ?thesis using Cons.IH v by fastforce
  qed
qed simp

text \<open>
  Binding a server to a list of addresses succeeds for all of them or keeps no socket at all: it
  reports success exactly when no address failed, and then there is one valid socket per address behind
  the earlier ones. On both paths every descriptor opened so far is held by one of the server's sockets
  or has been closed.
\<close>

theorem tcp_bind_all_or_nothing:
  assumes "accounted (m_socks srv) w" "tcp_bind addrs [] ssl srv w = (ok, fails, srv', w')"
  shows "(ok \<longleftrightarrow> fails = []) \<and> set fails \<subseteq> set addrs \<and> accounted (m_socks srv') w'
    \<and> (ok \<longrightarrow> (\<exists>new. m_socks srv' = m_socks srv @ new \<and> length new = length addrs \<and> (\<forall>s\<in>set new. isValid s)))
    \<and> (\<not> ok \<longrightarrow> m_socks srv' = [])"
proof -
  obtain f socks w1 where l: "bind_loop addrs [] (m_socks srv) w = (f, socks, w1)" by (cases "bind_loop addrs [] (m_socks srv) w")
  show ?thesis
    using bind_loop_accounted [OF assms(1) l] assms(2) l destroy_all [of socks w1]
    by (auto simp: tcp_bind_def Let_def split: if_splits)
qed

section \<open>Serving\<close>

text \<open>
  Serving a client returns on every traffic and never writes outside a body; without keep-alive at
  most one response is sent, and with a machine that reports the method of a request none is: the
  server closes every connection unanswered.
\<close>

theorem handleClient_serves:
  "\<exists>rsps. handleClient cast R b keepalive ws name call d segs = Inr rsps
     \<and> (\<not> keepalive \<longrightarrow> length rsps \<le> 1) \<and> (reports_method R seen \<longrightarrow> rsps = [])"
proof (induction cast R b keepalive ws name call d segs rule: handleClient.induct)
  case (1 cast R b keepalive ws name call d segs)
  obtain r where r: "recvRequest cast R b segs = Inr r" "reports_method R seen \<longrightarrow> r = None"
    using recvRequest_cases [of cast R b segs seen] by blast
  show ?case
  proof (cases r)
    case None
    then show ?thesis using r by (simp add: handleClient.simps)
  next
    case (Some t)
    obtain req rest where t: "t = (req, rest)" by (cases t)
    obtain rt req' rsp where d: "dispatch_handle call d req
        (rsp_setHeader ''Server'' name (new_HttpResponse ws (m_version req) (m_close req \<or> \<not> keepalive))) = (rt, req', rsp)"
      by (metis prod_cases3)
    show ?thesis
    proof (cases "\<not> keepalive \<or> m_close req'")
      case True
      then show ?thesis using r Some t d by (subst handleClient.simps) (simp add: Let_def)
    next
      case False
      then obtain rsps where "handleClient cast R b keepalive ws name call d rest = Inr rsps"
        using 1 [OF r(1) Some t [symmetric] refl refl d [symmetric] refl False] by blast
      then show ?thesis using False r Some t d by (subst handleClient.simps) (simp add: Let_def)
    qed
  qed
qed

theorem tcp_bind_all_or_nothing_witness:
  "fst (tcp_bind [sample_addr] [] False (new_TcpServer 1000) sample_sys)
   \<and> length (m_socks (fst (snd (snd (tcp_bind [sample_addr] [] False (new_TcpServer 1000) sample_sys))))) = 1"
proof -
  obtain ok fails srv w where t: "tcp_bind [sample_addr] [] False (new_TcpServer 1000) sample_sys = (ok, fails, srv, w)"
    by (metis prod_cases4)
  then have ok
    by (simp add: tcp_bind_def new_TcpServer_def sock_bind_def sock_listen_def CreateTCP_def new_Socket_def newSock_def
        initSock_def isValid_def getLocalAddress_def sample_addr_def sample_sys_def sys_def Let_def split: if_splits)
  moreover have "accounted (m_socks (new_TcpServer 1000)) sample_sys"
    by (simp add: accounted_def new_TcpServer_def owns_def sample_sys_def)
  ultimately show ?thesis
    using tcp_bind_all_or_nothing [OF _ t] t by (auto simp: new_TcpServer_def)
qed

theorem handleClient_serves_witness:
  "handleClient (\<lambda>_. None) (sample_machine True) 16 True False ''s'' (\<lambda>_ q r. (0, q, r)) new_ServletDispatch
     [''GET / HTTP/1.1''] = Inr []"
proof -
  have "reports_method (sample_machine True) (\<lambda>m. m)"
    by (auto simp: reports_method_def sample_machine_def)
  then show ?thesis
    using handleClient_serves [of "\<lambda>_. None" "sample_machine True" 16 True False "''s''" "\<lambda>_ q r. (0, q, r)"
        new_ServletDispatch "[''GET / HTTP/1.1'']" "\<lambda>m. m"] by auto
qed

end
