(* ===== verification/LogFormat.thy ===== *)
theory LogFormat
  imports Util
begin

text \<open>
  Log levels, events and the formatter (\<open>log.h\<close>, \<open>log.cc\<close>). The pattern is scanned with the indices of
  the source. A reference description of patterns as a list of literals and items is printed with
  \<open>spell\<close>; the formatter is shown to read exactly that list back. \<open>strftime\<close> on local time is a parameter.
\<close>

section \<open>Levels and events\<close>

datatype Level = UNKNOW | DEBUG | INFO | WARN | ERROR | FATAL

fun level_num :: "Level \<Rightarrow> nat" where
  "level_num UNKNOW = 0" | "level_num DEBUG = 1" | "level_num INFO = 2"
| "level_num WARN = 3" | "level_num ERROR = 4" | "level_num FATAL = 5"

lemma level_num_inj [simp]: "level_num a = level_num b \<longleftrightarrow> a = b"
  by (cases a; cases b) auto

instantiation Level :: linorder
begin

definition less_eq_Level :: "Level \<Rightarrow> Level \<Rightarrow> bool" where
  "less_eq_Level a b \<longleftrightarrow> level_num a \<le> level_num b"

definition less_Level :: "Level \<Rightarrow> Level \<Rightarrow> bool" where
  "less_Level a b \<longleftrightarrow> level_num a < level_num b"

instance
  by standard (auto simp: less_eq_Level_def less_Level_def)

end

fun level_ToString :: "Level \<Rightarrow> string" where
  "level_ToString DEBUG = ''DEBUG''"
| "level_ToString INFO = ''INFO''"
| "level_ToString WARN = ''WARN''"
| "level_ToString ERROR = ''ERROR''"
| "level_ToString FATAL = ''FATAL''"
| "level_ToString UNKNOW = ''UNKNOW''"

definition level_FromString :: "string \<Rightarrow> Level" where
  "level_FromString str =
     (if str = ''debug'' then DEBUG else if str = ''info'' then INFO else if str = ''warn'' then WARN
      else if str = ''error'' then ERROR else if str = ''fatal'' then FATAL
      else if str = ''DEBUG'' then DEBUG else if str = ''INFO'' then INFO else if str = ''WARN'' then WARN
      else if str = ''ERROR'' then ERROR else if str = ''FATAL'' then FATAL else UNKNOW)"

record LogEvent =
  m_file :: string
  m_line :: int
  m_elapse :: u32
  m_threadId :: u32
  m_fiberId :: u32
  m_time :: u64
  m_threadName :: string
  m_ss :: string
  ev_logger :: string
  ev_level :: Level

section \<open>Items\<close>

datatype FormatItem =
    MessageFormatItem | LevelFormatItem | ElapseFormatItem | NameFormatItem | ThreadIdFormatItem
  | FiberIdFormatItem | ThreadNameFormatItem | DateTimeFormatItem string | FilenameFormatItem
  | LineFormatItem | NewLineFormatItem | StringFormatItem string | TabFormatItem

definition default_time :: string where
  "default_time = ''%Y-%m-%d %H:%M:%S''"

fun item_format :: "(string \<Rightarrow> u64 \<Rightarrow> string) \<Rightarrow> FormatItem \<Rightarrow> Level \<Rightarrow> LogEvent \<Rightarrow> string" where
  "item_format strftime MessageFormatItem level event = m_ss event"
| "item_format strftime LevelFormatItem level event = level_ToString level"
| "item_format strftime ElapseFormatItem level event = dec (unat (m_elapse event))"
| "item_format strftime NameFormatItem level event = ev_logger event"
| "item_format strftime ThreadIdFormatItem level event = dec (unat (m_threadId event))"
| "item_format strftime FiberIdFormatItem level event = dec (unat (m_fiberId event))"
| "item_format strftime ThreadNameFormatItem level event = m_threadName event"
| "item_format strftime (DateTimeFormatItem fmt) level event = strftime fmt (m_time event)"
| "item_format strftime FilenameFormatItem level event = m_file event"
| "item_format strftime LineFormatItem level event = int_text (m_line event)"
| "item_format strftime NewLineFormatItem level event = [CHR 0x0A]"
| "item_format strftime (StringFormatItem s) level event = s"
| "item_format strftime TabFormatItem level event = [CHR 0x09]"

text \<open>The table of item letters; an item gets the text between braces, which only the time uses.\<close>

definition format_item_of :: "string \<Rightarrow> string \<Rightarrow> FormatItem option" where
  "format_item_of str fmt =
     (if str = ''m'' then Some MessageFormatItem else if str = ''p'' then Some LevelFormatItem
      else if str = ''r'' then Some ElapseFormatItem else if str = ''c'' then Some NameFormatItem
      else if str = ''t'' then Some ThreadIdFormatItem else if str = ''n'' then Some NewLineFormatItem
      else if str = ''d'' then Some (DateTimeFormatItem (if fmt = [] then default_time else fmt))
      else if str = ''f'' then Some FilenameFormatItem else if str = ''l'' then Some LineFormatItem
      else if str = ''T'' then Some TabFormatItem else if str = ''F'' then Some FiberIdFormatItem
      else if str = ''N'' then Some ThreadNameFormatItem else None)"

section \<open>Scanning a pattern\<close>

definition isalpha :: "char \<Rightarrow> bool" where
  "isalpha c \<longleftrightarrow> (let n = (of_char c :: nat) in 65 \<le> n \<and> n \<le> 90 \<or> 97 \<le> n \<and> n \<le> 122)"

definition substr :: "string \<Rightarrow> nat \<Rightarrow> nat \<Rightarrow> string" where
  "substr s pos n = take n (drop pos s)"

text \<open>
  The inner loop, from the character behind a percent sign: \<open>st\<close> is \<open>fmt_status = 1\<close>. The result is where it
  stopped, the status, the name of the item and its format.
\<close>

function item_scan ::
  "string \<Rightarrow> nat \<Rightarrow> nat \<Rightarrow> bool \<Rightarrow> nat \<Rightarrow> string \<Rightarrow> string \<Rightarrow> nat \<times> bool \<times> string \<times> string" where
  "item_scan pat i n st fmt_begin str fmt =
     (if n < length pat then
        let c = pat ! n
        in if \<not> st \<and> \<not> isalpha c \<and> c \<noteq> CHR ''{'' \<and> c \<noteq> CHR ''}'' then (n, st, substr pat (i + 1) (n - i - 1), fmt)
           else if \<not> st \<and> c = CHR ''{'' then item_scan pat i (n + 1) True n (substr pat (i + 1) (n - i - 1)) fmt
           else if st \<and> c = CHR ''}'' then (n + 1, False, str, substr pat (fmt_begin + 1) (n - fmt_begin - 1))
           else item_scan pat i (n + 1) st fmt_begin
                  (if n + 1 = length pat \<and> str = [] then drop (i + 1) pat else str) fmt
      else (n, st, str, fmt))"
  by pat_completeness auto
termination
  by (relation "measure (\<lambda>(pat, i, n, _). length pat - n)") auto

declare item_scan.simps [simp del]

lemma item_scan_ge: "n \<le> fst (item_scan pat i n st fb str fmt)"
proof (induction pat i n st fb str fmt rule: item_scan.induct)
  case (1 pat i n st fb str fmt)
  show ?case
    by (subst item_scan.simps) (use 1 in \<open>auto simp: Let_def\<close>)
qed

lemma item_scan_gt: "(n, r) = item_scan pat i (Suc i) st fb str fmt \<Longrightarrow> i < n"
  using item_scan_ge [of "Suc i" pat i st fb str fmt] by (metis Suc_le_lessD fst_conv)

text \<open>The outer loop: the parts found, as text, format and whether it is an item, and the pending text.\<close>

type_synonym part = "string \<times> string \<times> bool"

definition flush :: "string \<Rightarrow> part list" where
  "flush nstr = (if nstr = [] then [] else [(nstr, [], False)])"

function scan_parts :: "string \<Rightarrow> nat \<Rightarrow> string \<Rightarrow> part list \<Rightarrow> bool \<Rightarrow> part list \<times> bool" where
  "scan_parts pat i nstr vec err =
     (if i < length pat then
        if pat ! i \<noteq> CHR ''%'' then scan_parts pat (i + 1) (nstr @ [pat ! i]) vec err
        else if i + 1 < length pat \<and> pat ! (i + 1) = CHR ''%'' then scan_parts pat (i + 1) (nstr @ ''%'') vec err
        else (case item_scan pat i (i + 1) False 0 [] [] of (n, st, str, fmt) \<Rightarrow>
          if \<not> st then scan_parts pat n [] (vec @ flush nstr @ [(str, fmt, True)]) err
          else scan_parts pat (i + 1) nstr (vec @ [(''<<pattern_error>>'', fmt, False)]) True)
      else (vec @ flush nstr, err))"
  by pat_completeness auto
termination
  by (relation "measure (\<lambda>(pat, i, _). length pat - i)") (auto dest: item_scan_gt)

declare scan_parts.simps [simp del]

record LogFormatter =
  m_pattern :: string
  m_items :: "FormatItem list"
  m_error :: bool

definition part_item :: "part \<Rightarrow> FormatItem \<times> bool" where
  "part_item p = (case p of (str, fmt, is_item) \<Rightarrow>
     if \<not> is_item then (StringFormatItem str, False)
     else (case format_item_of str fmt of
             None \<Rightarrow> (StringFormatItem (''<<error_format %'' @ str @ ''>>''), True)
           | Some it \<Rightarrow> (it, False)))"

definition new_LogFormatter :: "string \<Rightarrow> LogFormatter" where
  "new_LogFormatter pattern =
     (let (vec, err) = scan_parts pattern 0 [] [] False
      in \<lparr>m_pattern = pattern, m_items = map (fst \<circ> part_item) vec, m_error = (err \<or> (\<exists>p\<in>set vec. snd (part_item p)))\<rparr>)"

definition formatter_format :: "(string \<Rightarrow> u64 \<Rightarrow> string) \<Rightarrow> LogFormatter \<Rightarrow> Level \<Rightarrow> LogEvent \<Rightarrow> string" where
  "formatter_format strftime f level event = concat (map (\<lambda>i. item_format strftime i level event) (m_items f))"

section \<open>Patterns read back\<close>

text \<open>A pattern as literal text and items, an item with its name and perhaps a format in braces.\<close>

datatype piece = Lit string | Item string "string option"

fun spell_piece :: "piece \<Rightarrow> string" where
  "spell_piece (Lit s) = s"
| "spell_piece (Item k None) = CHR ''%'' # k"
| "spell_piece (Item k (Some f)) = CHR ''%'' # k @ CHR ''{'' # f @ ''}''"

definition spell_pattern :: "piece list \<Rightarrow> string" where
  "spell_pattern ps = concat (map spell_piece ps)"

fun is_lit :: "piece \<Rightarrow> bool" where
  "is_lit (Lit _) = True"
| "is_lit _ = False"

definition ends_name :: "string \<Rightarrow> bool" where
  "ends_name s \<longleftrightarrow> s = [] \<or> \<not> isalpha (hd s) \<and> hd s \<noteq> CHR ''{'' \<and> hd s \<noteq> CHR ''}''"

definition good_name :: "string \<Rightarrow> bool" where
  "good_name k \<longleftrightarrow> k \<noteq> [] \<and> (\<forall>c\<in>set k. isalpha c)"

text \<open>
  The text is unambiguous: literals have no percent sign and do not follow each other, an item without
  a format is not followed by a letter or a brace, and a format has no closing brace.
\<close>

fun good_pieces :: "piece list \<Rightarrow> bool" where
  "good_pieces [] = True"
| "good_pieces (Lit s # ps) = (s \<noteq> [] \<and> CHR ''%'' \<notin> set s \<and> (ps = [] \<or> \<not> is_lit (hd ps)) \<and> good_pieces ps)"
| "good_pieces (Item k None # ps) = (good_name k \<and> ends_name (spell_pattern ps) \<and> good_pieces ps)"
| "good_pieces (Item k (Some f) # ps) = (good_name k \<and> CHR ''}'' \<notin> set f \<and> good_pieces ps)"

fun piece_part :: "piece \<Rightarrow> part" where
  "piece_part (Lit s) = (s, [], False)"
| "piece_part (Item k None) = (k, [], True)"
| "piece_part (Item k (Some f)) = (k, f, True)"

lemma not_alpha [simp]: "\<not> isalpha (CHR ''%'')" "\<not> isalpha (CHR ''{'')" "\<not> isalpha (CHR ''}'')"
  by (simp_all add: isalpha_def)

lemma item_scan_alpha:
  fixes pre :: string
  defines "i \<equiv> length pre"
  assumes "\<forall>c\<in>set k. isalpha c" "rest \<noteq> []" "j \<le> length k" and pat: "pat = pre @ CHR ''%'' # k @ rest"
  shows "item_scan pat i (i + 1 + j) False fb [] fmt = item_scan pat i (i + 1 + length k) False fb [] fmt"
  using assms(4)
proof (induction "length k - j" arbitrary: j)
  case (Suc d)
  then have j: "j < length k" by simp
  have "pat ! (i + 1 + j) = k ! j" using j by (simp add: pat i_def nth_append)
  moreover have "isalpha (k ! j)" using assms(2) j by simp
  ultimately have c: "isalpha (pat ! (i + 1 + j))" by simp
  then have ne: "pat ! (i + 1 + j) \<noteq> CHR ''{''" "pat ! (i + 1 + j) \<noteq> CHR ''}''" by auto
  have lt: "i + 1 + j < length pat" "i + 1 + j + 1 \<noteq> length pat" using j assms(3) by (cases rest; auto simp: pat i_def)+
  have "item_scan pat i (i + 1 + j) False fb [] fmt = item_scan pat i (i + 1 + Suc j) False fb [] fmt"
    using c ne lt by (subst item_scan.simps) (simp add: Let_def)
  also have "\<dots> = item_scan pat i (i + 1 + length k) False fb [] fmt" by (rule Suc(1)) (use Suc(2) j in auto)
  finally show ?case .
qed simp

lemma item_scan_plain:
  fixes pre :: string
  defines "i \<equiv> length pre"
  assumes "good_name k" "ends_name rest" and pat: "pat = pre @ CHR ''%'' # k @ rest"
  shows "item_scan pat i (i + 1) False fb [] fmt = (i + 1 + length k, False, k, fmt)"
proof (cases "rest = []")
  case True
  obtain k' c where k: "k = k' @ [c]" using assms(2) by (metis good_name_def rev_exhaust)
  have alpha: "\<forall>c\<in>set k'. isalpha c" "isalpha c" using assms(2) k by (auto simp: good_name_def)
  have p: "pat = pre @ CHR ''%'' # k' @ [c]" using pat k True by simp
  have "item_scan pat i (i + 1 + 0) False fb [] fmt = item_scan pat i (i + 1 + length k') False fb [] fmt"
    unfolding i_def by (rule item_scan_alpha [OF alpha(1) _ _ p]) auto
  moreover have "pat ! (i + 1 + length k') = c" by (simp add: p i_def nth_append)
  moreover have "drop (i + 1) pat = k" "length pat = i + 1 + length k' + 1" by (simp_all add: p i_def k)
  moreover have "c \<noteq> CHR ''{''" "c \<noteq> CHR ''}''" using alpha(2) by auto
  ultimately show ?thesis
    using alpha(2) k by (simp add: item_scan.simps [of _ _ "Suc (i + length k')"] item_scan.simps [of _ _ "Suc (Suc (i + length k'))"] Let_def)
next
  case False
  have "item_scan pat i (i + 1 + 0) False fb [] fmt = item_scan pat i (i + 1 + length k) False fb [] fmt"
    unfolding i_def by (rule item_scan_alpha [OF _ False _ pat]) (use assms(2) in \<open>auto simp: good_name_def\<close>)
  moreover have "pat ! (i + 1 + length k) = hd rest"
    using False by (simp add: pat i_def nth_append hd_conv_nth)
  moreover have "substr pat (i + 1) (length k) = k" "i + 1 + length k < length pat"
    using False by (simp_all add: substr_def pat i_def)
  ultimately show ?thesis
    using False assms(3) by (simp add: item_scan.simps [of _ _ "Suc (i + length k)"] Let_def ends_name_def)
qed

lemma item_scan_braces:
  assumes "CHR ''}'' \<notin> set f" "j \<le> length f" and pat: "pat = pre @ CHR ''{'' # f @ CHR ''}'' # rest"
  shows "item_scan pat i (length pre + 1 + j) True (length pre) str fmt = (length pre + length f + 2, False, str, f)"
  using assms(2)
proof (induction "length f - j" arbitrary: j)
  case 0
  then have j: "j = length f" by simp
  have "pat ! (length pre + 1 + j) = CHR ''}''" "length pre + 1 + j < length pat"
    "substr pat (length pre + 1) (length f) = f"
    by (simp_all add: pat j nth_append substr_def)
  then show ?case by (subst item_scan.simps) (simp add: Let_def j)
next
  case (Suc d)
  then have j: "j < length f" by simp
  have "pat ! (length pre + 1 + j) = f ! j" using j by (simp add: pat nth_append)
  then have ne: "pat ! (length pre + 1 + j) \<noteq> CHR ''}''" using assms(1) j nth_mem by metis
  have lt: "length pre + 1 + j < length pat" "length pre + 1 + j + 1 \<noteq> length pat" using j by (auto simp: pat)
  have "item_scan pat i (length pre + 1 + j) True (length pre) str fmt
      = item_scan pat i (length pre + 1 + Suc j) True (length pre) str fmt"
    using ne lt by (subst item_scan.simps) (simp add: Let_def)
  also have "\<dots> = (length pre + length f + 2, False, str, f)" by (rule Suc(1)) (use Suc(2) j in auto)
  finally show ?case .
qed

lemma item_scan_format:
  fixes pre :: string
  defines "i \<equiv> length pre"
  assumes "good_name k" "CHR ''}'' \<notin> set f" and pat: "pat = pre @ CHR ''%'' # k @ CHR ''{'' # f @ CHR ''}'' # rest"
  shows "item_scan pat i (i + 1) False fb [] fmt = (i + length k + length f + 3, False, k, f)"
proof -
  let ?n = "i + 1 + length k"
  have "item_scan pat i (i + 1 + 0) False fb [] fmt = item_scan pat i ?n False fb [] fmt"
    unfolding i_def by (rule item_scan_alpha [OF _ _ _ pat]) (use assms(2) in \<open>auto simp: good_name_def\<close>)
  moreover have "pat ! ?n = CHR ''{''" "?n < length pat" "substr pat (i + 1) (length k) = k"
    by (simp_all add: pat i_def nth_append substr_def)
  ultimately have "item_scan pat i (i + 1) False fb [] fmt = item_scan pat i (?n + 1) True ?n k fmt"
    by (simp add: item_scan.simps [of _ _ "Suc (i + length k)"] Let_def)
  moreover have "item_scan pat i (length (pre @ CHR ''%'' # k) + 1 + 0) True (length (pre @ CHR ''%'' # k)) k fmt
      = (length (pre @ CHR ''%'' # k) + length f + 2, False, k, f)"
    by (rule item_scan_braces [OF assms(3), of _ _ _ rest]) (simp_all add: pat)
  ultimately show ?thesis by (simp add: i_def)
qed

lemma scan_literal:
  assumes "CHR ''%'' \<notin> set s" and pat: "pat = pre @ s @ rest"
  shows "scan_parts pat (length pre) nstr vec err = scan_parts pat (length pre + length s) (nstr @ s) vec err"
  using assms
proof (induction s arbitrary: pre nstr)
  case (Cons c s)
  have "pat ! length pre = c" "length pre < length pat" using Cons.prems by (simp_all add: nth_append)
  then have "scan_parts pat (length pre) nstr vec err = scan_parts pat (length (pre @ [c])) (nstr @ [c]) vec err"
    using Cons.prems(1) by (subst scan_parts.simps) auto
  also have "\<dots> = scan_parts pat (length (pre @ [c]) + length s) ((nstr @ [c]) @ s) vec err"
    by (rule Cons.IH) (use Cons.prems in auto)
  finally show ?case by simp
qed simp

lemma scan_item:
  assumes "pat = pre @ CHR ''%'' # k @ rest" "good_name k"
    and "item_scan pat (length pre) (length pre + 1) False 0 [] [] = (n, False, str, fmt)"
  shows "scan_parts pat (length pre) nstr vec err = scan_parts pat n [] (vec @ flush nstr @ [(str, fmt, True)]) err"
proof -
  obtain c k' where k: "k = c # k'" "isalpha c" using assms(2) by (cases k) (auto simp: good_name_def)
  have "pat ! length pre = CHR ''%''" "length pre + 1 < length pat" "pat ! (length pre + 1) = c"
    using assms(1) k by (simp_all add: nth_append)
  moreover have "c \<noteq> CHR ''%''" using k(2) by auto
  ultimately show ?thesis using assms(3) by (subst scan_parts.simps) simp
qed

lemma scan_pieces:
  assumes "good_pieces ps" "nstr = [] \<or> ps = [] \<or> \<not> is_lit (hd ps)" "pat = pre @ spell_pattern ps"
  shows "scan_parts pat (length pre) nstr vec err = (vec @ flush nstr @ map piece_part ps, err)"
  using assms
proof (induction ps arbitrary: pre nstr vec rule: good_pieces.induct)
  case 1
  then show ?case by (simp add: scan_parts.simps spell_pattern_def)
next
  case (2 s ps)
  have p: "pat = pre @ s @ spell_pattern ps" using 2(4) by (simp add: spell_pattern_def)
  have "scan_parts pat (length pre) [] vec err = scan_parts pat (length (pre @ s)) s vec err"
    using scan_literal [OF _ p] 2(2) by simp
  also have "\<dots> = (vec @ flush s @ map piece_part ps, err)"
    by (rule 2(1)) (use 2 p in auto)
  finally show ?case using 2(2,3) by (simp add: flush_def)
next
  case (3 k ps)
  have p: "pat = pre @ CHR ''%'' # k @ spell_pattern ps" using 3(4) by (simp add: spell_pattern_def)
  have "item_scan pat (length pre) (length pre + 1) False 0 [] [] = (length pre + 1 + length k, False, k, [])"
    by (rule item_scan_plain [OF _ _ p]) (use 3(2) in simp_all)
  from scan_item [OF p _ this, of nstr vec err] 3(2)
  have "scan_parts pat (length pre) nstr vec err
      = scan_parts pat (length (pre @ CHR ''%'' # k)) [] (vec @ flush nstr @ [(k, [], True)]) err" by simp
  also have "\<dots> = ((vec @ flush nstr @ [(k, [], True)]) @ flush [] @ map piece_part ps, err)"
    by (rule 3(1)) (use 3 p in auto)
  finally show ?case by (simp add: flush_def)
next
  case (4 k f ps)
  have p: "pat = pre @ CHR ''%'' # k @ CHR ''{'' # f @ CHR ''}'' # spell_pattern ps"
    using 4(4) by (simp add: spell_pattern_def)
  have "item_scan pat (length pre) (length pre + 1) False 0 [] [] = (length pre + length k + length f + 3, False, k, f)"
    by (rule item_scan_format [OF _ _ p]) (use 4(2) in simp_all)
  from scan_item [OF p _ this, of nstr vec err] 4(2)
  have "scan_parts pat (length pre) nstr vec err
      = scan_parts pat (length (pre @ CHR ''%'' # k @ CHR ''{'' # f @ ''}'')) [] (vec @ flush nstr @ [(k, f, True)]) err"
    by (simp add: ac_simps numeral_3_eq_3)
  also have "\<dots> = ((vec @ flush nstr @ [(k, f, True)]) @ flush [] @ map piece_part ps, err)"
    by (rule 4(1)) (use 4 p in auto)
  finally show ?case by (simp add: flush_def)
qed

text \<open>
  The escape of a percent sign does not do what the comment above \<open>init\<close> says: the first of the two signs is taken as
  the literal, and the second one begins an item, here one without a name, which is in error.
\<close>

lemma escape_in_error: "m_error (new_LogFormatter ''%%'')"
proof -
  have "item_scan ''%%'' 1 2 False 0 [] [] = (2, False, [], [])" by (subst item_scan.simps) simp
  then have "scan_parts ''%%'' 1 ''%'' [] False = scan_parts ''%%'' 2 [] [(''%'', [], False), ([], [], True)] False"
    by (subst scan_parts.simps) (simp add: flush_def numeral_2_eq_2)
  moreover have "scan_parts ''%%'' 0 [] [] False = scan_parts ''%%'' 1 ''%'' [] False"
    by (subst scan_parts.simps) simp
  moreover have "scan_parts ''%%'' 2 [] [(''%'', [], False), ([], [], True)] False = ([(''%'', [], False), ([], [], True)], False)"
    by (subst scan_parts.simps) (simp add: flush_def)
  ultimately show ?thesis by (simp add: new_LogFormatter_def part_item_def format_item_of_def)
qed

text \<open>
  C31: a pattern that spells literals and items unambiguously is read back as exactly these literals and
  items, in order, and is in error exactly when an item's name is not in the table; a message is then
  the literals and the items' texts one after the other.
\<close>

theorem pattern_round_trip:
  assumes "good_pieces ps"
  shows "m_items (new_LogFormatter (spell_pattern ps)) = map (fst \<circ> part_item \<circ> piece_part) ps
    \<and> (m_error (new_LogFormatter (spell_pattern ps)) \<longleftrightarrow>
        (\<exists>k f. Item k f \<in> set ps \<and> format_item_of k (case f of Some x \<Rightarrow> x | None \<Rightarrow> []) = None))
    \<and> formatter_format strftime (new_LogFormatter (spell_pattern ps)) level event =
        concat (map (\<lambda>p. item_format strftime (fst (part_item (piece_part p))) level event) ps)"
proof -
  have s: "scan_parts (spell_pattern ps) 0 [] [] False = (map piece_part ps, False)"
    using scan_pieces [OF assms, of "[]" "spell_pattern ps" "[]" "[]" False] by (simp add: flush_def)
  have e: "(\<exists>p\<in>set ps. snd (part_item (piece_part p))) \<longleftrightarrow>
      (\<exists>k f. Item k f \<in> set ps \<and> format_item_of k (case f of Some x \<Rightarrow> x | None \<Rightarrow> []) = None)"
  proof -
    have "snd (part_item (piece_part p)) \<longleftrightarrow>
        (\<exists>k f. p = Item k f \<and> format_item_of k (case f of Some x \<Rightarrow> x | None \<Rightarrow> []) = None)" for p
    proof (cases p)
      case (Item k f)
      then show ?thesis by (cases f) (simp_all add: part_item_def split: option.split)
    qed (simp add: part_item_def)
    then show ?thesis by (simp only: Bex_def) blast
  qed
  show ?thesis using s e by (simp add: new_LogFormatter_def formatter_format_def o_def)
qed

theorem pattern_round_trip_witness:
  "formatter_format (\<lambda>fmt _. fmt) (new_LogFormatter ''%d{%H}%T[%p] %m%n'') INFO
      \<lparr>m_file = ''a.cc'', m_line = 3, m_elapse = 0, m_threadId = 1, m_fiberId = 0, m_time = 0, m_threadName = ''t'',
       m_ss = ''hi'', ev_logger = ''root'', ev_level = INFO\<rparr>
   = ''%H'' @ [CHR 0x09] @ ''[INFO] hi'' @ [CHR 0x0A]"
proof -
  let ?ps = "[Item ''d'' (Some ''%H''), Item ''T'' None, Lit ''['', Item ''p'' None, Lit ''] '', Item ''m'' None, Item ''n'' None]"
  have "good_pieces ?ps" "spell_pattern ?ps = ''%d{%H}%T[%p] %m%n''"
    by (simp_all add: good_name_def ends_name_def spell_pattern_def isalpha_def)
  with pattern_round_trip [of ?ps "\<lambda>fmt _. fmt" INFO] show ?thesis
    by (simp add: part_item_def format_item_of_def)
qed

end
