(* ===== verification/Loggers.thy ===== *)
theory Loggers
  imports LogFormat ConfigVars
begin

text \<open>
  Loggers, appenders and their configuration (\<open>log.h\<close>, \<open>log.cc\<close>). Loggers and appenders are shared
  objects in a heap; the manager maps names to loggers. What appenders write is recorded in order with
  the target it goes to; which files can be opened is part of the state of the world. A null pointer
  that is followed is an error value. The configuration listener is one function of the two sets of
  definitions.
\<close>

section \<open>Objects\<close>

datatype target = StdoutLogAppender | FileLogAppender string

record LogAppender =
  a_target :: target
  a_level :: Level
  m_hasFormatter :: bool
  a_formatter :: "LogFormatter option"
  m_lastTime :: u64
  a_good :: bool

definition new_LogAppender :: "target \<Rightarrow> LogAppender" where
  "new_LogAppender t = \<lparr>a_target = t, a_level = DEBUG, m_hasFormatter = False, a_formatter = None, m_lastTime = 0, a_good = True\<rparr>"

definition appender_setFormatter :: "LogFormatter option \<Rightarrow> LogAppender \<Rightarrow> LogAppender" where
  "appender_setFormatter val a = a\<lparr>a_formatter := val, m_hasFormatter := (val \<noteq> None)\<rparr>"

record Logger =
  l_name :: string
  l_level :: Level
  m_appenders :: "nat list"
  l_formatter :: "LogFormatter option"
  l_root :: "nat option"

definition default_pattern :: string where
  "default_pattern = ''%d{%Y-%m-%d %H:%M:%S}%T%t%T%N%T%F%T[%p]%T[%c]%T%f:%l%T%m%n''"

definition new_Logger :: "string \<Rightarrow> Logger" where
  "new_Logger name =
     \<lparr>l_name = name, l_level = DEBUG, m_appenders = [], l_formatter = Some (new_LogFormatter default_pattern), l_root = None\<rparr>"

record LogWorld =
  logs :: "nat \<Rightarrow> Logger option"
  apps :: "nat \<Rightarrow> LogAppender option"
  m_loggers :: "(string \<times> nat) list"
  m_root :: nat
  next_log :: nat
  next_app :: nat
  openable :: "string \<Rightarrow> bool"
  written :: "(target \<times> string) list"

datatype log_error = NullFormatter | NullLogger | NullAppender | RootChain

section \<open>Operations of a logger\<close>

definition update_app :: "nat \<Rightarrow> (LogAppender \<Rightarrow> LogAppender) \<Rightarrow> LogWorld \<Rightarrow> LogWorld" where
  "update_app p f w = w\<lparr>apps := (apps w)(p := map_option f (apps w p))\<rparr>"

definition update_log :: "nat \<Rightarrow> (Logger \<Rightarrow> Logger) \<Rightarrow> LogWorld \<Rightarrow> LogWorld" where
  "update_log l f w = w\<lparr>logs := (logs w)(l := map_option f (logs w l))\<rparr>"

definition logger_setFormatter :: "nat \<Rightarrow> LogFormatter option \<Rightarrow> LogWorld \<Rightarrow> LogWorld" where
  "logger_setFormatter l val w =
     (case logs w l of None \<Rightarrow> w
      | Some lg \<Rightarrow>
          fold (\<lambda>p. update_app p (\<lambda>a. if m_hasFormatter a then a else a\<lparr>a_formatter := val\<rparr>)) (m_appenders lg)
            (update_log l (\<lambda>lg. lg\<lparr>l_formatter := val\<rparr>) w))"

definition logger_setFormatter_text :: "nat \<Rightarrow> string \<Rightarrow> LogWorld \<Rightarrow> LogWorld" where
  "logger_setFormatter_text l val w =
     (let new_val = new_LogFormatter val in if m_error new_val then w else logger_setFormatter l (Some new_val) w)"

definition addAppender :: "nat \<Rightarrow> nat \<Rightarrow> LogWorld \<Rightarrow> LogWorld" where
  "addAppender l p w =
     (case logs w l of None \<Rightarrow> w
      | Some lg \<Rightarrow>
          update_log l (\<lambda>lg. lg\<lparr>m_appenders := m_appenders lg @ [p]\<rparr>)
            (update_app p (\<lambda>a. if a_formatter a = None then a\<lparr>a_formatter := l_formatter lg\<rparr> else a) w))"

definition delAppender :: "nat \<Rightarrow> nat \<Rightarrow> LogWorld \<Rightarrow> LogWorld" where
  "delAppender l p w = update_log l (\<lambda>lg. lg\<lparr>m_appenders := remove1 p (m_appenders lg)\<rparr>) w"

definition clearAppenders :: "nat \<Rightarrow> LogWorld \<Rightarrow> LogWorld" where
  "clearAppenders l w = update_log l (\<lambda>lg. lg\<lparr>m_appenders := []\<rparr>) w"

definition setLevel :: "nat \<Rightarrow> Level \<Rightarrow> LogWorld \<Rightarrow> LogWorld" where
  "setLevel l v w = update_log l (\<lambda>lg. lg\<lparr>l_level := v\<rparr>) w"

definition appender_setLevel :: "nat \<Rightarrow> Level \<Rightarrow> LogWorld \<Rightarrow> LogWorld" where
  "appender_setLevel p v w = update_app p (\<lambda>a. a\<lparr>a_level := v\<rparr>) w"

text \<open>
  A file appender reopens its file when three seconds have passed since it last did; \<open>a_good\<close> is the
  state of its stream. A line that cannot be written gives a line \<open>error\<close> on the standard output.
\<close>

definition reopen :: "(string \<Rightarrow> bool) \<Rightarrow> LogAppender \<Rightarrow> LogAppender" where
  "reopen ok a = (case a_target a of StdoutLogAppender \<Rightarrow> a | FileLogAppender f \<Rightarrow> a\<lparr>a_good := ok f\<rparr>)"

definition refresh :: "(string \<Rightarrow> bool) \<Rightarrow> u64 \<Rightarrow> LogAppender \<Rightarrow> LogAppender" where
  "refresh ok now a =
     (case a_target a of
        StdoutLogAppender \<Rightarrow> a
      | FileLogAppender _ \<Rightarrow> if now \<ge> m_lastTime a + 3 then (reopen ok a)\<lparr>m_lastTime := now\<rparr> else a)"

definition put_line :: "LogAppender \<Rightarrow> string \<Rightarrow> target \<times> string" where
  "put_line a s =
     (case a_target a of
        StdoutLogAppender \<Rightarrow> (StdoutLogAppender, s)
      | FileLogAppender f \<Rightarrow> if a_good a then (FileLogAppender f, s) else (StdoutLogAppender, ''error'' @ [CHR 0x0A]))"

definition appender_log ::
  "(string \<Rightarrow> u64 \<Rightarrow> string) \<Rightarrow> Level \<Rightarrow> LogEvent \<Rightarrow> nat \<Rightarrow> LogWorld \<Rightarrow> log_error + LogWorld" where
  "appender_log strftime level event p w =
     (case apps w p of None \<Rightarrow> Inl NullAppender
      | Some a \<Rightarrow>
          if level \<ge> a_level a then
            let a = refresh (openable w) (m_time event) a
            in (case a_formatter a of None \<Rightarrow> Inl NullFormatter
                | Some f \<Rightarrow> Inr (w\<lparr>apps := (apps w)(p \<mapsto> a),
                                   written := written w @ [put_line a (formatter_format strftime f level event)]\<rparr>))
          else Inr w)"

fun appenders_log ::
  "(string \<Rightarrow> u64 \<Rightarrow> string) \<Rightarrow> Level \<Rightarrow> LogEvent \<Rightarrow> nat list \<Rightarrow> LogWorld \<Rightarrow> log_error + LogWorld" where
  "appenders_log strftime level event [] w = Inr w"
| "appenders_log strftime level event (p # ps) w =
     bindr (appender_log strftime level event p w) (appenders_log strftime level event ps)"

text \<open>\<open>depth\<close> bounds the chain of root pointers, which has at most two loggers.\<close>

fun logger_log ::
  "nat \<Rightarrow> (string \<Rightarrow> u64 \<Rightarrow> string) \<Rightarrow> nat \<Rightarrow> Level \<Rightarrow> LogEvent \<Rightarrow> LogWorld \<Rightarrow> log_error + LogWorld" where
  "logger_log 0 strftime l level event w = Inl RootChain"
| "logger_log (Suc depth) strftime l level event w =
     (case logs w l of None \<Rightarrow> Inl NullLogger
      | Some lg \<Rightarrow>
          if level \<ge> l_level lg then
            if m_appenders lg \<noteq> [] then appenders_log strftime level event (m_appenders lg) w
            else (case l_root lg of Some r \<Rightarrow> logger_log depth strftime r level event w | None \<Rightarrow> Inr w)
          else Inr w)"

text \<open>The logging macros: the event goes to its logger when the wrapper is destroyed.\<close>

definition HX_LOG_LEVEL ::
  "(string \<Rightarrow> u64 \<Rightarrow> string) \<Rightarrow> nat \<Rightarrow> Level \<Rightarrow> LogEvent \<Rightarrow> LogWorld \<Rightarrow> log_error + LogWorld" where
  "HX_LOG_LEVEL strftime l level event w =
     (case logs w l of None \<Rightarrow> Inl NullLogger
      | Some lg \<Rightarrow> if l_level lg \<le> level then logger_log 2 strftime l level event w else Inr w)"

section \<open>The manager\<close>

definition getLogger :: "string \<Rightarrow> LogWorld \<Rightarrow> nat \<times> LogWorld" where
  "getLogger name w =
     (case map_find str_less name (m_loggers w) of
        Some l \<Rightarrow> (l, w)
      | None \<Rightarrow>
          let l = next_log w
          in (l, w\<lparr>logs := (logs w)(l \<mapsto> (new_Logger name)\<lparr>l_root := Some (m_root w)\<rparr>), next_log := l + 1,
                   m_loggers := map_put str_less name l (m_loggers w)\<rparr>))"

definition new_app :: "LogAppender \<Rightarrow> LogWorld \<Rightarrow> nat \<times> LogWorld" where
  "new_app a w = (next_app w, w\<lparr>apps := (apps w)(next_app w \<mapsto> a), next_app := next_app w + 1\<rparr>)"

definition new_LoggerManager :: "(string \<Rightarrow> bool) \<Rightarrow> LogWorld" where
  "new_LoggerManager ok =
     (let w = \<lparr>logs = [0 \<mapsto> new_Logger ''root''], apps = Map.empty, m_loggers = [], m_root = 0,
                next_log = 1, next_app = 0, openable = ok, written = []\<rparr>;
          (p, w) = new_app (new_LogAppender StdoutLogAppender) w;
          w = addAppender 0 p w
      in w\<lparr>m_loggers := map_put str_less ''root'' 0 (m_loggers w)\<rparr>)"

section \<open>The configuration\<close>

record LogAppenderDefine =
  ad_type :: nat
  ad_level :: Level
  ad_formatter :: string
  ad_file :: string

record LogDefine =
  d_name :: string
  d_level :: Level
  d_formatter :: string
  d_appenders :: "LogAppenderDefine list"

text \<open>The comparison of the source compares the appenders of the left side with themselves.\<close>

definition define_eq :: "LogDefine \<Rightarrow> LogDefine \<Rightarrow> bool" where
  "define_eq a b \<longleftrightarrow> d_name a = d_name b \<and> d_level a = d_level b \<and> d_formatter a = d_formatter b
     \<and> d_appenders a = d_appenders a"

text \<open>Sets of definitions are ordered by name: searching one looks for the name.\<close>

definition define_find :: "LogDefine \<Rightarrow> LogDefine list \<Rightarrow> LogDefine option" where
  "define_find i s = find (\<lambda>j. d_name j = d_name i) s"

text \<open>One appender of a definition; \<open>has_d\<close> is \<open>EnvMgr::has("d")\<close>. A type other than 1 and 2 leaves a null pointer.\<close>

definition apply_appender :: "bool \<Rightarrow> nat \<Rightarrow> LogAppenderDefine \<Rightarrow> LogWorld \<Rightarrow> log_error + LogWorld" where
  "apply_appender has_d l a w =
     (if ad_type a = 2 \<and> has_d then Inr w
      else if ad_type a \<noteq> 1 \<and> ad_type a \<noteq> 2 then Inl NullAppender
      else
        let ap = new_LogAppender (if ad_type a = 1 then FileLogAppender (ad_file a) else StdoutLogAppender);
            ap = (reopen (openable w) ap)\<lparr>a_level := ad_level a\<rparr>;
            fmt = new_LogFormatter (ad_formatter a);
            ap = (if ad_formatter a \<noteq> [] \<and> \<not> m_error fmt then appender_setFormatter (Some fmt) ap else ap);
            (p, w) = new_app ap w
        in Inr (addAppender l p w))"

fun apply_appenders :: "bool \<Rightarrow> nat \<Rightarrow> LogAppenderDefine list \<Rightarrow> LogWorld \<Rightarrow> log_error + LogWorld" where
  "apply_appenders has_d l [] w = Inr w"
| "apply_appenders has_d l (a # as) w = bindr (apply_appender has_d l a w) (apply_appenders has_d l as)"

definition apply_define :: "bool \<Rightarrow> LogDefine \<Rightarrow> LogWorld \<Rightarrow> log_error + LogWorld" where
  "apply_define has_d i w =
     (let (l, w) = getLogger (d_name i) w;
          w = setLevel l (d_level i) w;
          w = (if d_formatter i \<noteq> [] then logger_setFormatter_text l (d_formatter i) w else w);
          w = clearAppenders l w
      in apply_appenders has_d l (d_appenders i) w)"

fun apply_new :: "bool \<Rightarrow> LogDefine list \<Rightarrow> LogDefine list \<Rightarrow> LogWorld \<Rightarrow> log_error + LogWorld" where
  "apply_new has_d old [] w = Inr w"
| "apply_new has_d old (i # is) w =
     (case define_find i old of
        Some j \<Rightarrow> if define_eq i j then apply_new has_d old is w
                  else bindr (apply_define has_d i w) (apply_new has_d old is)
      | None \<Rightarrow> bindr (apply_define has_d i w) (apply_new has_d old is))"

definition remove_define :: "LogDefine list \<Rightarrow> LogDefine \<Rightarrow> LogWorld \<Rightarrow> LogWorld" where
  "remove_define new i w =
     (case define_find i new of
        Some _ \<Rightarrow> w
      | None \<Rightarrow> let (l, w) = getLogger (d_name i) w in clearAppenders l (setLevel l UNKNOW w))"

definition on_logger_conf_changed ::
  "(string \<Rightarrow> u64 \<Rightarrow> string) \<Rightarrow> LogEvent \<Rightarrow> bool \<Rightarrow> LogDefine list \<Rightarrow> LogDefine list \<Rightarrow> LogWorld \<Rightarrow> log_error + LogWorld" where
  "on_logger_conf_changed strftime event has_d old new w =
     bindr (HX_LOG_LEVEL strftime (m_root w) INFO event w)
       (\<lambda>w. bindr (apply_new has_d old new w)
         (\<lambda>w. Inr (fold (remove_define new) old w)))"

section \<open>Reachable states\<close>

definition log_ok :: "LogWorld \<Rightarrow> nat \<Rightarrow> Logger \<Rightarrow> bool" where
  "log_ok w l lg \<longleftrightarrow> l < next_log w \<and> l_formatter lg \<noteq> None \<and> l_root lg = (if l = m_root w then None else Some (m_root w))
     \<and> (\<forall>p\<in>set (m_appenders lg). \<exists>a f. apps w p = Some a \<and> a_formatter a = Some f)"

definition log_inv :: "LogWorld \<Rightarrow> bool" where
  "log_inv w \<longleftrightarrow> logs w (m_root w) \<noteq> None \<and> (\<forall>l lg. logs w l = Some lg \<longrightarrow> log_ok w l lg)
     \<and> (\<forall>p. apps w p \<noteq> None \<longrightarrow> p < next_app w) \<and> str.keys_sorted (m_loggers w)
     \<and> map_find str_less ''root'' (m_loggers w) = Some (m_root w)
     \<and> (\<forall>n l. map_find str_less n (m_loggers w) = Some l \<longrightarrow> (\<exists>lg. logs w l = Some lg \<and> l_name lg = n))"

lemma log_invD:
  assumes "log_inv w"
  shows "logs w (m_root w) \<noteq> None" "logs w l = Some lg \<Longrightarrow> log_ok w l lg"
    "apps w p \<noteq> None \<Longrightarrow> p < next_app w" "str.keys_sorted (m_loggers w)"
    "map_find str_less ''root'' (m_loggers w) = Some (m_root w)"
    "map_find str_less n (m_loggers w) = Some l \<Longrightarrow> \<exists>lg. logs w l = Some lg \<and> l_name lg = n"
  using assms by (auto simp: log_inv_def)

text \<open>Operations that keep the manager and the addresses, and change objects without undoing what is needed of them.\<close>

definition same_shape :: "LogWorld \<Rightarrow> LogWorld \<Rightarrow> bool" where
  "same_shape w w' \<longleftrightarrow> m_root w' = m_root w \<and> m_loggers w' = m_loggers w \<and> next_log w' = next_log w \<and> next_app w' = next_app w
     \<and> openable w' = openable w \<and> dom (logs w') = dom (logs w) \<and> dom (apps w') = dom (apps w)
     \<and> (\<forall>l lg lg'. logs w l = Some lg \<and> logs w' l = Some lg' \<longrightarrow>
          l_name lg' = l_name lg \<and> l_root lg' = l_root lg \<and> (l_formatter lg \<noteq> None \<longrightarrow> l_formatter lg' \<noteq> None)
          \<and> (\<forall>p\<in>set (m_appenders lg'). p \<in> set (m_appenders lg) \<or> (\<exists>a. apps w' p = Some a \<and> a_formatter a \<noteq> None)))
     \<and> (\<forall>p a a'. apps w p = Some a \<and> apps w' p = Some a' \<and> a_formatter a \<noteq> None \<longrightarrow> a_formatter a' \<noteq> None)"

lemma same_shape_inv:
  assumes "same_shape w w'" "log_inv w"
  shows "log_inv w'"
proof -
  have d: "m_root w' = m_root w" "m_loggers w' = m_loggers w" "next_log w' = next_log w" "next_app w' = next_app w"
    "dom (logs w') = dom (logs w)" "dom (apps w') = dom (apps w)" using assms(1) by (simp_all add: same_shape_def)
  have "log_ok w' l lg'" if l: "logs w' l = Some lg'" for l lg'
  proof -
    obtain lg where lg: "logs w l = Some lg" using l d(5) by (metis domIff option.exhaust option.distinct(1))
    have ok: "log_ok w l lg" using log_invD(2) [OF assms(2) lg] .
    have *: "l_root lg' = l_root lg" "l_formatter lg \<noteq> None \<longrightarrow> l_formatter lg' \<noteq> None"
      "\<forall>p\<in>set (m_appenders lg'). p \<in> set (m_appenders lg) \<or> (\<exists>a. apps w' p = Some a \<and> a_formatter a \<noteq> None)"
      using assms(1) l lg by (auto simp: same_shape_def)
    have "\<exists>a f. apps w' p = Some a \<and> a_formatter a = Some f" if p: "p \<in> set (m_appenders lg')" for p
    proof (cases "p \<in> set (m_appenders lg)")
      case True
      obtain a f where a: "apps w p = Some a" "a_formatter a = Some f" using ok True by (auto simp: log_ok_def)
      obtain a' where "apps w' p = Some a'" using a d(6) by (metis domIff option.exhaust option.distinct(1))
      moreover have "a_formatter a' \<noteq> None" using a \<open>apps w' p = Some a'\<close> assms(1) unfolding same_shape_def by blast
      ultimately show ?thesis by auto
    qed (use *(3) p in auto)
    with ok * d show ?thesis by (auto simp: log_ok_def)
  qed
  moreover have "\<exists>lg. logs w' l = Some lg \<and> l_name lg = n" if n: "map_find str_less n (m_loggers w') = Some l" for n l
  proof -
    obtain lg where lg: "logs w l = Some lg" "l_name lg = n" using log_invD(6) [OF assms(2)] n d by metis
    obtain lg' where "logs w' l = Some lg'" using lg d(5) by (metis domIff option.exhaust option.distinct(1))
    with lg assms(1) show ?thesis by (auto simp: same_shape_def)
  qed
  moreover have "logs w' (m_root w') \<noteq> None" using log_invD(1) [OF assms(2)] d by (metis domIff)
  moreover have "apps w' p \<noteq> None \<Longrightarrow> p < next_app w'" for p using log_invD(3) [OF assms(2), of p] d by (metis domIff)
  ultimately show ?thesis using log_invD(4,5) [OF assms(2)] d by (simp add: log_inv_def)
qed

lemma same_shape_refl [simp]: "same_shape w w"
  by (auto simp: same_shape_def)

lemma update_log_shape:
  assumes "\<And>lg. l_name (f lg) = l_name lg \<and> l_root (f lg) = l_root lg \<and> (l_formatter lg \<noteq> None \<longrightarrow> l_formatter (f lg) \<noteq> None)
      \<and> (\<forall>p\<in>set (m_appenders (f lg)). p \<in> set (m_appenders lg) \<or> (\<exists>a. apps w p = Some a \<and> a_formatter a \<noteq> None))"
  shows "same_shape w (update_log l f w)"
  using assms by (auto simp: same_shape_def update_log_def dom_def split: if_splits) (metis option.distinct(1))

lemma update_app_shape:
  assumes "\<And>a. a_formatter a \<noteq> None \<longrightarrow> a_formatter (f a) \<noteq> None"
  shows "same_shape w (update_app p f w)"
  using assms by (auto simp: same_shape_def update_app_def dom_def split: if_splits)

lemma update_log_inv:
  "log_inv w \<Longrightarrow> (\<And>lg. l_name (f lg) = l_name lg \<and> l_root (f lg) = l_root lg \<and> (l_formatter lg \<noteq> None \<longrightarrow> l_formatter (f lg) \<noteq> None)
      \<and> (\<forall>p\<in>set (m_appenders (f lg)). p \<in> set (m_appenders lg) \<or> (\<exists>a. apps w p = Some a \<and> a_formatter a \<noteq> None)))
   \<Longrightarrow> log_inv (update_log l f w)"
  by (rule same_shape_inv [OF update_log_shape])

lemma update_app_inv:
  "log_inv w \<Longrightarrow> (\<And>a. a_formatter a \<noteq> None \<longrightarrow> a_formatter (f a) \<noteq> None) \<Longrightarrow> log_inv (update_app p f w)"
  by (rule same_shape_inv [OF update_app_shape])

lemma fold_update_app_inv:
  "log_inv w \<Longrightarrow> (\<And>a. a_formatter a \<noteq> None \<longrightarrow> a_formatter (f a) \<noteq> None) \<Longrightarrow> log_inv (fold (\<lambda>p. update_app p f) ps w)"
  by (induction ps arbitrary: w) (simp_all add: update_app_inv)

lemma logger_setFormatter_inv: "log_inv w \<Longrightarrow> log_inv (logger_setFormatter l (Some f) w)"
  by (auto simp: logger_setFormatter_def split: option.split intro!: fold_update_app_inv update_log_inv)

lemma logger_setFormatter_text_inv: "log_inv w \<Longrightarrow> log_inv (logger_setFormatter_text l s w)"
  by (simp add: logger_setFormatter_text_def Let_def logger_setFormatter_inv)

lemma clearAppenders_inv: "log_inv w \<Longrightarrow> log_inv (clearAppenders l w)"
  by (auto simp: clearAppenders_def intro!: update_log_inv)

lemma delAppender_inv: "log_inv w \<Longrightarrow> log_inv (delAppender l p w)"
  by (auto simp: delAppender_def dest: notin_set_remove1 intro!: update_log_inv)

lemma setLevel_inv: "log_inv w \<Longrightarrow> log_inv (setLevel l v w)"
  by (auto simp: setLevel_def intro!: update_log_inv)

lemma addAppender_inv:
  assumes "log_inv w" "apps w p \<noteq> None"
  shows "log_inv (addAppender l p w)"
proof (cases "logs w l")
  case (Some lg)
  let ?f = "\<lambda>a. if a_formatter a = None then a\<lparr>a_formatter := l_formatter lg\<rparr> else a"
  obtain f where f: "l_formatter lg = Some f" using log_invD(2) [OF assms(1) Some] by (auto simp: log_ok_def)
  have "log_inv (update_app p ?f w)" by (rule update_app_inv [OF assms(1)]) (simp add: f)
  moreover have "\<exists>a. apps (update_app p ?f w) p = Some a \<and> a_formatter a \<noteq> None"
    using assms(2) f by (cases "apps w p") (auto simp: update_app_def)
  ultimately show ?thesis using Some by (auto simp: addAppender_def intro!: update_log_inv)
qed (simp add: addAppender_def assms)

lemma new_app_inv:
  assumes "log_inv w"
  shows "log_inv (snd (new_app a w))"
proof -
  have "log_ok (snd (new_app a w)) l lg" if "logs w l = Some lg" for l lg
    using log_invD(2) [OF assms that] log_invD(3) [OF assms] by (fastforce simp: log_ok_def new_app_def)
  moreover have "p < next_app w" if "apps w p = Some b" for p b using log_invD(3) [OF assms, of p] that by simp
  ultimately show ?thesis using log_invD [OF assms] assms by (fastforce simp: log_inv_def new_app_def)
qed

lemma getLogger_inv:
  assumes "log_inv w"
  shows "log_inv (snd (getLogger n w))"
proof (cases "map_find str_less n (m_loggers w)")
  case None
  let ?w = "snd (getLogger n w)" and ?l = "next_log w"
  have w: "?w = w\<lparr>logs := (logs w)(?l \<mapsto> (new_Logger n)\<lparr>l_root := Some (m_root w)\<rparr>), next_log := ?l + 1,
                   m_loggers := map_put str_less n ?l (m_loggers w)\<rparr>"
    using None by (simp add: getLogger_def Let_def)
  have fresh: "logs w ?l = None" using log_invD(2) [OF assms, of ?l] by (cases "logs w ?l") (auto simp: log_ok_def)
  have root: "m_root w \<noteq> ?l" using log_invD(1) [OF assms] fresh by auto
  have ok: "log_ok ?w l lg" if "logs ?w l = Some lg" for l lg
  proof (cases "l = ?l")
    case True
    then have "lg = (new_Logger n)\<lparr>l_root := Some (m_root w)\<rparr>" using that w by simp
    with True root show ?thesis by (simp add: log_ok_def w new_Logger_def)
  next
    case False
    then have "log_ok w l lg" using log_invD(2) [OF assms] that w by simp
    then show ?thesis by (simp add: log_ok_def w)
  qed
  have find: "map_find str_less k (m_loggers ?w) = (if k = n then Some ?l else map_find str_less k (m_loggers w))" for k
    using str.map_find_put [OF log_invD(4) [OF assms]] by (simp add: w eq_commute)
  have "\<exists>lg. logs ?w l = Some lg \<and> l_name lg = k" if "map_find str_less k (m_loggers ?w) = Some l" for k l
  proof (cases "k = n")
    case True
    with that find show ?thesis by (simp add: w new_Logger_def)
  next
    case False
    then have "map_find str_less k (m_loggers w) = Some l" using that find by simp
    then obtain lg where "logs w l = Some lg" "l_name lg = k" using log_invD(6) [OF assms] by blast
    with fresh show ?thesis by (auto simp: w)
  qed
  moreover have "n \<noteq> ''root''" using None log_invD(5) [OF assms] by auto
  moreover have "str.keys_sorted (m_loggers ?w)" using str.map_put_sorted [OF log_invD(4) [OF assms]] by (simp add: w)
  moreover have "map_find str_less ''root'' (m_loggers ?w) = Some (m_root ?w)" using find \<open>n \<noteq> ''root''\<close> log_invD(5) [OF assms] by (simp add: w)
  moreover have "logs ?w (m_root ?w) \<noteq> None" "\<forall>p. apps ?w p \<noteq> None \<longrightarrow> p < next_app ?w"
    using log_invD(1,3) [OF assms] by (simp_all add: w)
  ultimately show ?thesis using ok unfolding log_inv_def by blast
qed (simp add: getLogger_def assms)

lemma map_find_single: "map_find str_less k [(n, l)] = (if k = n then Some l else None)"
  using str_equiv [of k n] by (auto simp: equiv_by_def)

lemma new_LoggerManager_inv: "log_inv (new_LoggerManager ok)"
  by (simp del: map_find.simps add: log_inv_def new_LoggerManager_def new_app_def addAppender_def update_log_def update_app_def new_Logger_def
      new_LogAppender_def log_ok_def map_find_single)

section \<open>What a logger writes\<close>

text \<open>The line an appender gives for an event, and the appenders that hear an event sent to a logger.\<close>

definition line_of :: "(string \<Rightarrow> u64 \<Rightarrow> string) \<Rightarrow> (string \<Rightarrow> bool) \<Rightarrow> Level \<Rightarrow> LogEvent \<Rightarrow> LogAppender \<Rightarrow> (target \<times> string) list" where
  "line_of strftime ok level event a =
     (if a_level a \<le> level
      then [put_line (refresh ok (m_time event) a) (formatter_format strftime (the (a_formatter a)) level event)] else [])"

definition audience :: "LogWorld \<Rightarrow> nat \<Rightarrow> Level \<Rightarrow> nat list" where
  "audience w l level =
     (let lg = the (logs w l); rt = the (logs w (m_root w))
      in if level < l_level lg then []
         else if m_appenders lg \<noteq> [] then m_appenders lg
         else if level < l_level rt then [] else m_appenders rt)"

lemma refresh_simps [simp]:
  "a_target (refresh ok now a) = a_target a" "a_level (refresh ok now a) = a_level a"
  "a_formatter (refresh ok now a) = a_formatter a"
  by (auto simp: refresh_def reopen_def split: target.split)

lemma put_line_refresh: "put_line (refresh ok now (refresh ok now a)) s = put_line (refresh ok now a) s"
  by (auto simp: put_line_def refresh_def reopen_def split: target.split)

lemma line_of_refresh [simp]: "line_of strftime ok level event (refresh ok (m_time event) a) = line_of strftime ok level event a"
  by (simp add: line_of_def put_line_refresh)

text \<open>Logging changes nothing but what is written and when the files were opened.\<close>

definition config_of :: "LogAppender \<Rightarrow> target \<times> Level \<times> bool \<times> LogFormatter option" where
  "config_of a = (a_target a, a_level a, m_hasFormatter a, a_formatter a)"

definition only_written :: "LogWorld \<Rightarrow> LogWorld \<Rightarrow> bool" where
  "only_written w w' \<longleftrightarrow> logs w' = logs w \<and> m_root w' = m_root w \<and> m_loggers w' = m_loggers w \<and> next_log w' = next_log w
     \<and> next_app w' = next_app w \<and> openable w' = openable w \<and> map_option config_of \<circ> apps w' = map_option config_of \<circ> apps w"

lemma only_written_trans: "only_written w w' \<Longrightarrow> only_written w' w'' \<Longrightarrow> only_written w w''"
  by (simp add: only_written_def)

lemma only_written_app:
  assumes "only_written w w'"
  shows "map_option config_of (apps w' p) = map_option config_of (apps w p)"
proof -
  have "(map_option config_of \<circ> apps w') p = (map_option config_of \<circ> apps w) p" using assms by (simp only: only_written_def)
  then show ?thesis by simp
qed

lemma only_written_inv:
  assumes "only_written w w'" "log_inv w"
  shows "log_inv w'"
proof -
  have none: "apps w' p = None \<longleftrightarrow> apps w p = None" for p
    using only_written_app [OF assms(1), of p] by (cases "apps w p"; cases "apps w' p") auto
  have some: "a_formatter a' = a_formatter a" if "apps w p = Some a" "apps w' p = Some a'" for p a a'
    using only_written_app [OF assms(1), of p] that by (simp add: config_of_def)
  have "dom (apps w') = dom (apps w)" by (rule set_eqI) (simp only: domIff none)
  moreover have "\<forall>p a a'. apps w p = Some a \<and> apps w' p = Some a' \<and> a_formatter a \<noteq> None \<longrightarrow> a_formatter a' \<noteq> None"
    using some by metis
  ultimately have "same_shape w w'" using assms(1) by (auto simp: same_shape_def only_written_def)
  then show ?thesis using assms(2) by (rule same_shape_inv)
qed

lemma config_of_refresh [simp]: "config_of (refresh ok now a) = config_of a"
  by (simp add: config_of_def refresh_def reopen_def split: target.split)

lemma only_written_refl [simp]: "only_written w w"
  by (simp add: only_written_def)

lemma appender_log_line:
  assumes "apps w p = Some a" "a_formatter a = Some f"
  shows "\<exists>w'. appender_log strftime level event p w = Inr w' \<and> only_written w w'
    \<and> written w' = written w @ line_of strftime (openable w) level event a
    \<and> (\<forall>q b. apps w q = Some b \<longrightarrow> apps w' q = Some b \<or> apps w' q = Some (refresh (openable w) (m_time event) b))"
proof (cases "a_level a \<le> level")
  case True
  with assms show ?thesis by (auto simp: appender_log_def only_written_def line_of_def Let_def)
qed (use assms in \<open>simp add: appender_log_def line_of_def only_written_def\<close>)

definition heard_line :: "(string \<Rightarrow> u64 \<Rightarrow> string) \<Rightarrow> LogWorld \<Rightarrow> Level \<Rightarrow> LogEvent \<Rightarrow> nat \<Rightarrow> (target \<times> string) list" where
  "heard_line strftime w level event p = line_of strftime (openable w) level event (the (apps w p))"

lemma appenders_log_lines:
  assumes "\<forall>p\<in>set ps. \<exists>a f. apps w p = Some a \<and> a_formatter a = Some f"
  shows "\<exists>w'. appenders_log strftime level event ps w = Inr w' \<and> only_written w w'
    \<and> written w' = written w @ concat (map (heard_line strftime w level event) ps)"
  using assms
proof (induction ps arbitrary: w)
  case (Cons p ps)
  obtain a f where a: "apps w p = Some a" "a_formatter a = Some f" using Cons.prems by auto
  obtain w1 where w1: "appender_log strftime level event p w = Inr w1" "only_written w w1"
      "written w1 = written w @ line_of strftime (openable w) level event a"
      "\<forall>q b. apps w q = Some b \<longrightarrow> apps w1 q = Some b \<or> apps w1 q = Some (refresh (openable w) (m_time event) b)"
    using appender_log_line [OF a] by metis
  have op: "openable w1 = openable w" using w1(2) by (simp add: only_written_def)
  have ok: "\<exists>a f. apps w1 q = Some a \<and> a_formatter a = Some f" if "q \<in> set ps" for q
    using Cons.prems that w1(4) by (metis list.set_intros(2) refresh_simps(3))
  have same: "heard_line strftime w1 level event q = heard_line strftime w level event q" if q: "q \<in> set ps" for q
  proof -
    obtain b where b: "apps w q = Some b" using Cons.prems q by (metis list.set_intros(2))
    then have "apps w1 q = Some b \<or> apps w1 q = Some (refresh (openable w) (m_time event) b)" using w1(4) by blast
    with b op show ?thesis by (auto simp: heard_line_def)
  qed
  obtain w2 where w2: "appenders_log strftime level event ps w1 = Inr w2" "only_written w1 w2"
      "written w2 = written w1 @ concat (map (heard_line strftime w1 level event) ps)"
    using Cons.IH [of w1] ok by metis
  have "concat (map (heard_line strftime w1 level event) ps) = concat (map (heard_line strftime w level event) ps)"
    by (intro arg_cong [where f = concat] map_cong refl same)
  moreover have "heard_line strftime w level event p = line_of strftime (openable w) level event a"
    using a by (simp add: heard_line_def)
  ultimately show ?case using w1 w2 only_written_trans [OF w1(2) w2(2)] by simp
qed (simp add: only_written_def)

lemma logger_log_lines:
  assumes "log_inv w" "logs w l \<noteq> None"
  shows "\<exists>w'. logger_log 2 strftime l level event w = Inr w' \<and> only_written w w'
    \<and> written w' = written w @ concat (map (heard_line strftime w level event) (audience w l level))"
proof -
  obtain lg rt where lg: "logs w l = Some lg" "logs w (m_root w) = Some rt"
    using assms(2) log_invD(1) [OF assms(1)] by blast
  have ok: "log_ok w l lg" "log_ok w (m_root w) rt" using log_invD(2) [OF assms(1)] lg by blast+
  then have *: "\<forall>p\<in>set (m_appenders lg). \<exists>a f. apps w p = Some a \<and> a_formatter a = Some f"
    "\<forall>p\<in>set (m_appenders rt). \<exists>a f. apps w p = Some a \<and> a_formatter a = Some f"
    "l_root lg = (if l = m_root w then None else Some (m_root w))" by (simp_all add: log_ok_def)
  consider "level < l_level lg" | "\<not> level < l_level lg" "m_appenders lg \<noteq> []"
    | "\<not> level < l_level lg" "m_appenders lg = []" by blast
  then show ?thesis
  proof cases
    case 1
    then have "\<not> l_level lg \<le> level" by simp
    with 1 lg show ?thesis by (simp add: audience_def numeral_2_eq_2)
  next
    case 2
    with lg appenders_log_lines [OF *(1), of strftime level event] show ?thesis
      by (simp add: audience_def Let_def numeral_2_eq_2 not_less leD)
  next
    case 3
    show ?thesis
    proof (cases "l = m_root w")
      case True
      with 3 lg *(3) show ?thesis by (simp add: audience_def Let_def numeral_2_eq_2 not_less)
    next
      case False
      have "l_root rt = None" using ok(2) by (simp add: log_ok_def)
      with 3 lg *(3) False appenders_log_lines [OF *(2), of strftime level event] show ?thesis
        by (cases "m_appenders rt = []"; cases "l_level rt \<le> level")
          (simp_all add: audience_def Let_def numeral_2_eq_2 not_less leD)
    qed
  qed
qed

section \<open>What the configuration does\<close>

definition named :: "string \<Rightarrow> LogWorld \<Rightarrow> Logger option" where
  "named n w = (case map_find str_less n (m_loggers w) of None \<Rightarrow> None | Some l \<Rightarrow> logs w l)"

text \<open>A formatter text that is absent or in error leaves the formatter there was.\<close>

definition pick_formatter :: "string \<Rightarrow> LogFormatter option \<Rightarrow> LogFormatter option" where
  "pick_formatter s def = (if s \<noteq> [] \<and> \<not> m_error (new_LogFormatter s) then Some (new_LogFormatter s) else def)"

definition kept :: "bool \<Rightarrow> LogAppenderDefine \<Rightarrow> bool" where
  "kept has_d a \<longleftrightarrow> \<not> (ad_type a = 2 \<and> has_d)"

definition made_app :: "(string \<Rightarrow> bool) \<Rightarrow> LogFormatter option \<Rightarrow> LogAppenderDefine \<Rightarrow> LogAppender" where
  "made_app ok lf a =
     \<lparr>a_target = (if ad_type a = 1 then FileLogAppender (ad_file a) else StdoutLogAppender), a_level = ad_level a,
      m_hasFormatter = (pick_formatter (ad_formatter a) None \<noteq> None), a_formatter = pick_formatter (ad_formatter a) lf,
      m_lastTime = 0, a_good = (ad_type a = 1 \<longrightarrow> ok (ad_file a))\<rparr>"

definition made_apps :: "(string \<Rightarrow> bool) \<Rightarrow> bool \<Rightarrow> LogFormatter option \<Rightarrow> LogAppenderDefine list \<Rightarrow> LogAppender list" where
  "made_apps ok has_d lf as = map (made_app ok lf) (filter (kept has_d) as)"

definition types_ok :: "LogAppenderDefine list \<Rightarrow> bool" where
  "types_ok as \<longleftrightarrow> (\<forall>a\<in>set as. ad_type a = 1 \<or> ad_type a = 2)"

lemma apply_appender_effect:
  assumes "logs w l = Some lg" "ad_type a = 1 \<or> ad_type a = 2" "kept has_d a"
  shows "apply_appender has_d l a w =
    Inr (w\<lparr>logs := (logs w)(l \<mapsto> lg\<lparr>m_appenders := m_appenders lg @ [next_app w]\<rparr>),
           apps := (apps w)(next_app w \<mapsto> made_app (openable w) (l_formatter lg) a), next_app := next_app w + 1\<rparr>)"
  using assms
  by (auto simp: apply_appender_def kept_def Let_def new_app_def addAppender_def update_app_def update_log_def reopen_def
      new_LogAppender_def appender_setFormatter_def made_app_def pick_formatter_def)

lemma apply_appender_skip: "\<not> kept has_d a \<Longrightarrow> apply_appender has_d l a w = Inr w"
  by (simp add: apply_appender_def kept_def)

lemma apply_appenders_effect:
  fixes has_d :: bool
  assumes "logs w l = Some lg" "types_ok as"
  defines "ms \<equiv> made_apps (openable w) has_d (l_formatter lg) as"
  shows "apply_appenders has_d l as w =
    Inr (w\<lparr>logs := (logs w)(l \<mapsto> lg\<lparr>m_appenders := m_appenders lg @ [next_app w..<next_app w + length ms]\<rparr>),
           apps := (\<lambda>p. if next_app w \<le> p \<and> p < next_app w + length ms then Some (ms ! (p - next_app w)) else apps w p),
           next_app := next_app w + length ms\<rparr>)"
  using assms(1,2) unfolding ms_def
proof (induction as arbitrary: w lg)
  case Nil
  then have "(logs w)(l \<mapsto> lg) = logs w" by (simp add: fun_upd_idem)
  moreover have "(\<lambda>p. if next_app w \<le> p \<and> p < next_app w then x p else apps w p) = apps w" for x
    by (rule ext) auto
  ultimately show ?case by (simp add: made_apps_def)
next
  case (Cons a as)
  have t: "types_ok as" using Cons.prems(2) by (simp add: types_ok_def)
  show ?case
  proof (cases "kept has_d a")
    case False
    with Cons.IH [OF Cons.prems(1) t] show ?thesis
      by (simp add: apply_appender_skip made_apps_def cong: if_cong)
  next
    case True
    have a: "ad_type a = 1 \<or> ad_type a = 2" using Cons.prems(2) by (simp add: types_ok_def)
    let ?w = "w\<lparr>logs := (logs w)(l \<mapsto> lg\<lparr>m_appenders := m_appenders lg @ [next_app w]\<rparr>),
           apps := (apps w)(next_app w \<mapsto> made_app (openable w) (l_formatter lg) a), next_app := next_app w + 1\<rparr>"
    let ?lg = "lg\<lparr>m_appenders := m_appenders lg @ [next_app w]\<rparr>"
    let ?ms = "made_apps (openable w) has_d (l_formatter lg) as"
    have "logs ?w l = Some ?lg" by simp
    note IH = Cons.IH [OF this t]
    have ms: "made_apps (openable w) has_d (l_formatter lg) (a # as) = made_app (openable w) (l_formatter lg) a # ?ms"
      using True by (simp add: made_apps_def)
    have up: "[next_app w..<Suc (next_app w + length ?ms)] = next_app w # [Suc (next_app w)..<Suc (next_app w + length ?ms)]"
      by (simp add: upt_conv_Cons del: upt_Suc)
    have ap: "(\<lambda>p. if Suc (next_app w) \<le> p \<and> p < Suc (next_app w + length ?ms) then Some (?ms ! (p - Suc (next_app w)))
                else if p = next_app w then Some (made_app (openable w) (l_formatter lg) a) else apps w p)
        = (\<lambda>p. if next_app w \<le> p \<and> p < next_app w + Suc (length ?ms)
                then Some ((made_app (openable w) (l_formatter lg) a # ?ms) ! (p - next_app w)) else apps w p)"
      by (rule ext) (auto simp: nth_Cons' Suc_le_eq)
    show ?thesis using IH unfolding ms
      by (simp add: apply_appender_effect [OF Cons.prems(1) a True] up ap fun_upd_def [of "apps w"] del: upt_Suc cong: if_cong)
  qed
qed

lemma named_distinct:
  assumes "log_inv w" "map_find str_less n (m_loggers w) = Some l" "map_find str_less m (m_loggers w) = Some l"
  shows "n = m"
  using log_invD(6) [OF assms(1,2)] log_invD(6) [OF assms(1,3)] by auto

lemma getLogger_named:
  assumes "log_inv w"
  obtains l w1 lg where "getLogger n w = (l, w1)" "log_inv w1" "map_find str_less n (m_loggers w1) = Some l" "logs w1 l = Some lg"
    "lg = (case named n w of Some lg \<Rightarrow> lg | None \<Rightarrow> (new_Logger n)\<lparr>l_root := Some (m_root w)\<rparr>)"
    "\<And>m. m \<noteq> n \<Longrightarrow> named m w1 = named m w" "apps w1 = apps w" "next_app w1 = next_app w" "openable w1 = openable w"
    "m_root w1 = m_root w"
proof (cases "map_find str_less n (m_loggers w)")
  case (Some l)
  moreover obtain lg where "logs w l = Some lg" using log_invD(6) [OF assms Some] by blast
  ultimately show ?thesis using assms by (intro that [of l w lg]) (simp_all add: getLogger_def named_def)
next
  case None
  let ?w = "snd (getLogger n w)" and ?l = "next_log w" and ?lg = "(new_Logger n)\<lparr>l_root := Some (m_root w)\<rparr>"
  have w: "getLogger n w = (?l, w\<lparr>logs := (logs w)(?l \<mapsto> ?lg), next_log := ?l + 1, m_loggers := map_put str_less n ?l (m_loggers w)\<rparr>)"
    using None by (simp add: getLogger_def Let_def)
  have find: "map_find str_less k (m_loggers ?w) = (if k = n then Some ?l else map_find str_less k (m_loggers w))" for k
    using str.map_find_put [OF log_invD(4) [OF assms]] by (simp add: w)
  have fresh: "logs w ?l = None" using log_invD(2) [OF assms, of ?l] by (cases "logs w ?l") (auto simp: log_ok_def)
  have "named m ?w = named m w" if "m \<noteq> n" for m
  proof -
    have "map_find str_less m (m_loggers w) \<noteq> Some ?l" using log_invD(6) [OF assms, of m ?l] fresh by auto
    then show ?thesis using find that by (auto simp: named_def w split: option.split)
  qed
  moreover have "map_find str_less n (m_loggers ?w) = Some ?l" by (simp add: find)
  ultimately show ?thesis using getLogger_inv [OF assms, of n] None
    by (intro that [of ?l ?w ?lg]) (simp_all add: w named_def)
qed

lemma fold_update_app_fields [simp]:
  "logs (fold (\<lambda>p. update_app p f) ps w) = logs w" "next_app (fold (\<lambda>p. update_app p f) ps w) = next_app w"
  "m_loggers (fold (\<lambda>p. update_app p f) ps w) = m_loggers w" "openable (fold (\<lambda>p. update_app p f) ps w) = openable w"
  "m_root (fold (\<lambda>p. update_app p f) ps w) = m_root w"
  by (induction ps arbitrary: w) (simp_all add: update_app_def)

lemma fold_update_app_other: "q \<notin> set ps \<Longrightarrow> apps (fold (\<lambda>p. update_app p f) ps w) q = apps w q"
  by (induction ps arbitrary: w) (simp_all add: update_app_def)

definition defined_logger :: "LogDefine \<Rightarrow> Logger \<Rightarrow> Logger" where
  "defined_logger i lg = lg\<lparr>l_level := d_level i, l_formatter := pick_formatter (d_formatter i) (l_formatter lg)\<rparr>"

text \<open>The logger before its appenders are made: level and formatter set, no appender.\<close>

lemma define_prefix:
  fixes i :: LogDefine
  assumes "logs w l = Some lg"
  defines "w' \<equiv> clearAppenders l (let w = setLevel l (d_level i) w
      in if d_formatter i \<noteq> [] then logger_setFormatter_text l (d_formatter i) w else w)"
  shows "logs w' = (logs w)(l \<mapsto> (defined_logger i lg)\<lparr>m_appenders := []\<rparr>) \<and> next_app w' = next_app w
    \<and> m_loggers w' = m_loggers w \<and> openable w' = openable w \<and> m_root w' = m_root w \<and> (\<forall>q. q \<notin> set (m_appenders lg) \<longrightarrow> apps w' q = apps w q)"
  using assms(1) unfolding w'_def
  by (auto simp: setLevel_def update_log_def logger_setFormatter_text_def logger_setFormatter_def clearAppenders_def Let_def
      defined_logger_def pick_formatter_def fold_update_app_other)

lemma apply_appender_inv: "apply_appender has_d l a w = Inr w' \<Longrightarrow> log_inv w \<Longrightarrow> log_inv w'"
proof (cases "kept has_d a")
  case True
  assume w: "apply_appender has_d l a w = Inr w'" "log_inv w"
  then obtain ap p w1 where "new_app ap w = (p, w1)" "w' = addAppender l p w1"
    using True by (auto simp: apply_appender_def kept_def Let_def split: if_splits prod.splits)
  moreover from this have "log_inv w1" "apps w1 p \<noteq> None" using new_app_inv [OF w(2), of ap] by (auto simp: new_app_def)
  ultimately show "log_inv w'" using addAppender_inv by blast
qed (simp add: apply_appender_skip)

lemma apply_appenders_inv: "apply_appenders has_d l as w = Inr w' \<Longrightarrow> log_inv w \<Longrightarrow> log_inv w'"
  by (induction as arbitrary: w) (auto simp: result_simps dest: apply_appender_inv)

lemma define_inv:
  "log_inv w \<Longrightarrow> log_inv (clearAppenders l (let w = setLevel l (d_level i) w
      in if d_formatter i \<noteq> [] then logger_setFormatter_text l (d_formatter i) w else w))"
  by (simp add: clearAppenders_inv logger_setFormatter_text_inv setLevel_inv Let_def)

definition prior :: "LogDefine \<Rightarrow> LogWorld \<Rightarrow> Logger" where
  "prior i w = (case named (d_name i) w of Some lg \<Rightarrow> lg | None \<Rightarrow> (new_Logger (d_name i))\<lparr>l_root := Some (m_root w)\<rparr>)"

definition apps_of :: "string \<Rightarrow> LogWorld \<Rightarrow> nat set" where
  "apps_of n w = (case named n w of Some lg \<Rightarrow> set (m_appenders lg) | None \<Rightarrow> {})"

lemma apps_of_below:
  assumes "log_inv w" "p \<in> apps_of n w"
  shows "p < next_app w"
proof -
  obtain l lg where "logs w l = Some lg" "p \<in> set (m_appenders lg)" using assms(2) by (auto simp: apps_of_def named_def split: option.splits)
  then have "apps w p \<noteq> None" using log_invD(2) [OF assms(1), of l lg] by (auto simp: log_ok_def)
  then show ?thesis by (rule log_invD(3) [OF assms(1)])
qed

definition configured :: "(string \<Rightarrow> bool) \<Rightarrow> bool \<Rightarrow> LogDefine \<Rightarrow> Logger \<Rightarrow> LogWorld \<Rightarrow> bool" where
  "configured ok has_d i lg w \<longleftrightarrow>
     (\<exists>ps. named (d_name i) w = Some ((defined_logger i lg)\<lparr>m_appenders := ps\<rparr>)
       \<and> map (apps w) ps = map Some (made_apps ok has_d (pick_formatter (d_formatter i) (l_formatter lg)) (d_appenders i)))"

definition alone :: "string \<Rightarrow> LogWorld \<Rightarrow> bool" where
  "alone n w \<longleftrightarrow> (\<forall>m. m \<noteq> n \<longrightarrow> apps_of m w \<inter> apps_of n w = {})"

lemma apply_define_effect:
  assumes "log_inv w" "types_ok (d_appenders i)"
  shows "\<exists>w'. apply_define has_d i w = Inr w' \<and> log_inv w' \<and> openable w' = openable w \<and> m_root w' = m_root w
    \<and> (\<forall>m. m \<noteq> d_name i \<longrightarrow> named m w' = named m w) \<and> configured (openable w) has_d i (prior i w) w'
    \<and> (\<forall>p\<in>apps_of (d_name i) w'. next_app w \<le> p)
    \<and> (\<forall>q<next_app w. q \<notin> apps_of (d_name i) w \<longrightarrow> apps w' q = apps w q)"
proof -
  obtain l w1 lg where w1: "getLogger (d_name i) w = (l, w1)" "log_inv w1" "map_find str_less (d_name i) (m_loggers w1) = Some l"
    "logs w1 l = Some lg" "lg = prior i w" "\<And>m. m \<noteq> d_name i \<Longrightarrow> named m w1 = named m w" "apps w1 = apps w"
    "next_app w1 = next_app w" "openable w1 = openable w" "m_root w1 = m_root w"
    unfolding prior_def by (rule getLogger_named [OF assms(1)]) blast
  define w2 where "w2 = clearAppenders l (let w = setLevel l (d_level i) w1
      in if d_formatter i \<noteq> [] then logger_setFormatter_text l (d_formatter i) w else w)"
  let ?lg = "(defined_logger i lg)\<lparr>m_appenders := []\<rparr>"
  have w2: "logs w2 = (logs w1)(l \<mapsto> ?lg)" "next_app w2 = next_app w" "m_loggers w2 = m_loggers w1" "openable w2 = openable w" "m_root w2 = m_root w"
    "\<And>q. q \<notin> set (m_appenders lg) \<Longrightarrow> apps w2 q = apps w q"
    using define_prefix [OF w1(4), of i] w1 unfolding w2_def by simp_all
  have inv2: "log_inv w2" unfolding w2_def by (rule define_inv [OF w1(2)])
  let ?ms = "made_apps (openable w) has_d (pick_formatter (d_formatter i) (l_formatter lg)) (d_appenders i)"
  let ?w = "w2\<lparr>logs := (logs w1)(l \<mapsto> ?lg\<lparr>m_appenders := [next_app w..<next_app w + length ?ms]\<rparr>),
     apps := (\<lambda>p. if next_app w \<le> p \<and> p < next_app w + length ?ms then Some (?ms ! (p - next_app w)) else apps w2 p),
     next_app := next_app w + length ?ms\<rparr>"
  have l2: "logs w2 l = Some ?lg" by (simp add: w2)
  have run: "apply_define has_d i w = Inr ?w"
    using apply_appenders_effect [OF l2 assms(2), of has_d] w1(1)
    by (simp add: apply_define_def Let_def w2 defined_logger_def flip: w2_def [unfolded Let_def] cong: if_cong)
  have inv: "log_inv ?w"
    using run w1(1) inv2 by (auto simp: apply_define_def Let_def w2_def dest: apply_appenders_inv)
  have nm: "named (d_name i) ?w = Some ((defined_logger i lg)\<lparr>m_appenders := [next_app w..<next_app w + length ?ms]\<rparr>)"
    by (simp add: named_def w2 w1)
  have other: "named m ?w = named m w" if "m \<noteq> d_name i" for m
  proof -
    have "map_find str_less m (m_loggers w1) \<noteq> Some l" using named_distinct [OF w1(2) w1(3)] that by blast
    then have "named m ?w = named m w1" by (auto simp: named_def w2 split: option.split)
    then show ?thesis using w1(6) that by simp
  qed
  have "map (apps ?w) [next_app w..<next_app w + length ?ms] = map Some ?ms"
    by (rule nth_equalityI) simp_all
  then have "configured (openable w) has_d i lg ?w" unfolding configured_def using nm by blast
  moreover have "apps ?w q = apps w q" if "q < next_app w" "q \<notin> apps_of (d_name i) w" for q
  proof -
    have "q \<notin> set (m_appenders lg)" using that(2) w1(5)
      by (auto simp: apps_of_def prior_def new_Logger_def split: option.splits)
    with that(1) w2(6) show ?thesis by simp
  qed
  moreover have "\<forall>p\<in>apps_of (d_name i) ?w. next_app w \<le> p" using nm by (simp add: apps_of_def)
  ultimately show ?thesis using run inv other w2(4,5) w1(5) by (intro exI [of _ ?w]) simp
qed

lemma configured_keep:
  assumes "configured ok has_d i lg w" "named (d_name i) w' = named (d_name i) w" "\<forall>q\<in>apps_of (d_name i) w. apps w' q = apps w q"
  shows "configured ok has_d i lg w'"
proof -
  obtain ps where ps: "named (d_name i) w = Some ((defined_logger i lg)\<lparr>m_appenders := ps\<rparr>)"
    "map (apps w) ps = map Some (made_apps ok has_d (pick_formatter (d_formatter i) (l_formatter lg)) (d_appenders i))"
    using assms(1) by (auto simp: configured_def)
  have "map (apps w') ps = map (apps w) ps" using assms(3) ps(1) by (simp add: apps_of_def)
  with ps assms(2) show ?thesis by (auto simp: configured_def)
qed

lemma apps_of_named: "named n w' = named n w \<Longrightarrow> apps_of n w' = apps_of n w"
  by (simp add: apps_of_def)

text \<open>Defining another logger leaves a configured logger, whose appenders are its own, as it is.\<close>

lemma apply_define_other:
  assumes "log_inv w" "types_ok (d_appenders j)" "apply_define has_d j w = Inr w'" "d_name j \<noteq> d_name i"
    "configured ok has_d i lg w" "alone (d_name i) w"
  shows "configured ok has_d i lg w' \<and> alone (d_name i) w'"
proof -
  have w': "\<forall>m. m \<noteq> d_name j \<longrightarrow> named m w' = named m w" "\<forall>p\<in>apps_of (d_name j) w'. next_app w \<le> p"
    "\<forall>q<next_app w. q \<notin> apps_of (d_name j) w \<longrightarrow> apps w' q = apps w q"
    using apply_define_effect [OF assms(1,2), of has_d] assms(3) by auto
  have nm: "named (d_name i) w' = named (d_name i) w" using w'(1) assms(4) by auto
  have below: "\<forall>q\<in>apps_of (d_name i) w. q < next_app w" using apps_of_below [OF assms(1)] by blast
  have "apps_of (d_name j) w \<inter> apps_of (d_name i) w = {}" using assms(4,6) by (simp add: alone_def)
  then have "configured ok has_d i lg w'" using w'(3) below by (intro configured_keep [OF assms(5) nm]) blast
  moreover have "apps_of m w' \<inter> apps_of (d_name i) w' = {}" if "m \<noteq> d_name i" for m
  proof (cases "m = d_name j")
    case True
    then show ?thesis using w'(2) below apps_of_named [OF nm] by fastforce
  next
    case False
    then show ?thesis using assms(6) that w'(1) apps_of_named [OF nm] apps_of_named [of m w' w] by (simp add: alone_def)
  qed
  ultimately show ?thesis by (simp add: alone_def)
qed

lemma apply_define_alone:
  assumes "log_inv w" "types_ok (d_appenders i)" "apply_define has_d i w = Inr w'"
  shows "alone (d_name i) w'"
proof -
  have w': "\<forall>m. m \<noteq> d_name i \<longrightarrow> named m w' = named m w" "\<forall>p\<in>apps_of (d_name i) w'. next_app w \<le> p"
    using apply_define_effect [OF assms(1,2), of has_d] assms(3) by auto
  have "apps_of m w' \<inter> apps_of (d_name i) w' = {}" if "m \<noteq> d_name i" for m
  proof -
    have "apps_of m w' = apps_of m w" by (rule apps_of_named) (use w'(1) that in simp)
    then show ?thesis using apps_of_below [OF assms(1), of _ m] w'(2) by fastforce
  qed
  then show ?thesis by (simp add: alone_def)
qed

definition changed :: "LogDefine list \<Rightarrow> LogDefine \<Rightarrow> bool" where
  "changed old i \<longleftrightarrow> (\<forall>j\<in>set old. d_name j = d_name i \<longrightarrow> d_level j \<noteq> d_level i \<or> d_formatter j \<noteq> d_formatter i)"

lemma define_find_changed:
  assumes "distinct (map d_name old)"
  shows "(case define_find i old of Some j \<Rightarrow> \<not> define_eq i j | None \<Rightarrow> True) \<longleftrightarrow> changed old i"
proof (cases "define_find i old")
  case None
  then have "\<forall>j\<in>set old. d_name j \<noteq> d_name i" by (auto simp: define_find_def find_None_iff)
  with None show ?thesis by (simp add: changed_def)
next
  case (Some j)
  then have j: "j \<in> set old" "d_name j = d_name i" by (auto simp: define_find_def find_Some_iff)
  have "j' = j" if "j' \<in> set old" "d_name j' = d_name i" for j'
    using assms j that by (auto simp: distinct_map inj_on_def)
  then have "changed old i \<longleftrightarrow> d_level j \<noteq> d_level i \<or> d_formatter j \<noteq> d_formatter i" using j unfolding changed_def by blast
  with j Some show ?thesis by (auto simp: define_eq_def)
qed

lemma apply_new_step:
  assumes "distinct (map d_name old)"
  shows "apply_new has_d old (i # is) w =
    (if changed old i then bindr (apply_define has_d i w) (apply_new has_d old is) else apply_new has_d old is w)"
  using define_find_changed [OF assms, of i] by (cases "define_find i old") auto

lemma apply_new_keeps:
  assumes "distinct (map d_name old)" "\<forall>i\<in>set is. types_ok (d_appenders i)" "log_inv w"
    "d_name j \<notin> d_name ` set is" "configured ok has_d j lg w" "alone (d_name j) w" "apply_new has_d old is w = Inr w'"
  shows "configured ok has_d j lg w'"
  using assms(2-)
proof (induction "is" arbitrary: w)
  case (Cons i "is")
  show ?case
  proof (cases "changed old i")
    case True
    obtain w1 where w1: "apply_define has_d i w = Inr w1" "log_inv w1"
      using apply_define_effect [OF Cons.prems(2), of i has_d] Cons.prems(1) by auto
    have "configured ok has_d j lg w1 \<and> alone (d_name j) w1"
      by (rule apply_define_other [OF Cons.prems(2) _ w1(1) _ Cons.prems(4,5)]) (use Cons.prems in auto)
    then show ?thesis using Cons.IH [of w1] Cons.prems w1 True by (simp add: apply_new_step [OF assms(1)] del: apply_new.simps(2))
  next
    case False
    then show ?thesis using Cons by (simp add: apply_new_step [OF assms(1)] del: apply_new.simps(2))
  qed
qed simp

lemma apply_new_effect:
  assumes "distinct (map d_name old)" "distinct (map d_name is)" "\<forall>i\<in>set is. types_ok (d_appenders i)" "log_inv w"
  shows "\<exists>w'. apply_new has_d old is w = Inr w' \<and> log_inv w'
    \<and> (\<forall>i\<in>set is. changed old i \<longrightarrow> configured (openable w) has_d i (prior i w) w')
    \<and> (\<forall>m. m \<notin> d_name ` {i \<in> set is. changed old i} \<longrightarrow> named m w' = named m w)"
  using assms(2-)
proof (induction "is" arbitrary: w)
  case (Cons i "is")
  show ?case
  proof (cases "changed old i")
    case True
    obtain w1 where w1: "apply_define has_d i w = Inr w1" "log_inv w1" "openable w1 = openable w" "m_root w1 = m_root w"
        "\<forall>m. m \<noteq> d_name i \<longrightarrow> named m w1 = named m w" "configured (openable w) has_d i (prior i w) w1"
      using apply_define_effect [OF Cons.prems(3), of i has_d] Cons.prems(2) by auto
    obtain w2 where w2: "apply_new has_d old is w1 = Inr w2" "log_inv w2"
        "\<forall>i\<in>set is. changed old i \<longrightarrow> configured (openable w1) has_d i (prior i w1) w2"
        "\<forall>m. m \<notin> d_name ` {i \<in> set is. changed old i} \<longrightarrow> named m w2 = named m w1"
      using Cons.IH [of w1] Cons.prems w1(2) by auto
    have ni: "d_name i \<notin> d_name ` set is" using Cons.prems(1) by auto
    have "configured (openable w) has_d i (prior i w) w2"
      by (rule apply_new_keeps [OF assms(1) _ w1(2) ni w1(6) _ w2(1)])
        (use Cons.prems(2) apply_define_alone [OF Cons.prems(3) _ w1(1)] in simp_all)
    moreover have "prior k w1 = prior k w" if "k \<in> set is" for k
    proof -
      have "d_name k \<noteq> d_name i" using ni that by (metis imageI)
      then show ?thesis using w1(4,5) by (simp add: prior_def cong: option.case_cong)
    qed
    ultimately have "\<forall>k\<in>set (i # is). changed old k \<longrightarrow> configured (openable w) has_d k (prior k w) w2"
      using w2(3) w1(3) by simp
    moreover have "\<forall>m. m \<notin> d_name ` {k \<in> set (i # is). changed old k} \<longrightarrow> named m w2 = named m w"
    proof (intro allI impI)
      fix m
      assume m: "m \<notin> d_name ` {k \<in> set (i # is). changed old k}"
      then have "m \<noteq> d_name i" "m \<notin> d_name ` {k \<in> set is. changed old k}" using True by auto
      then show "named m w2 = named m w" using w1(5) w2(4) by simp
    qed
    ultimately show ?thesis using True w1(1) w2(1,2)
      by (simp add: apply_new_step [OF assms(1)] del: apply_new.simps(2))
  next
    case False
    then have "{k \<in> set (i # is). changed old k} = {k \<in> set is. changed old k}" by auto
    with False show ?thesis using Cons by (simp add: apply_new_step [OF assms(1)] del: apply_new.simps(2))
  qed
qed simp

text \<open>Appenders that no changed logger has are left alone.\<close>

lemma apply_new_frame:
  assumes "distinct (map d_name old)" "distinct (map d_name is)" "\<forall>i\<in>set is. types_ok (d_appenders i)" "log_inv w"
    "apply_new has_d old is w = Inr w'" "apps w q \<noteq> None" "\<forall>i\<in>set is. changed old i \<longrightarrow> q \<notin> apps_of (d_name i) w"
  shows "apps w' q = apps w q"
  using assms(2-)
proof (induction "is" arbitrary: w)
  case (Cons i "is")
  show ?case
  proof (cases "changed old i")
    case True
    obtain w1 where w1: "apply_define has_d i w = Inr w1" "log_inv w1" "\<forall>m. m \<noteq> d_name i \<longrightarrow> named m w1 = named m w"
      "\<forall>q<next_app w. q \<notin> apps_of (d_name i) w \<longrightarrow> apps w1 q = apps w q"
      using apply_define_effect [OF Cons.prems(3), of i has_d] Cons.prems(2) by auto
    have run: "apply_new has_d old is w1 = Inr w'"
      using Cons.prems(4) True w1(1) by (simp add: apply_new_step [OF assms(1)] del: apply_new.simps(2))
    have q: "apps w1 q = apps w q" using w1(4) Cons.prems(5,6) True log_invD(3) [OF Cons.prems(3)] by simp
    have "q \<notin> apps_of (d_name k) w1" if "k \<in> set is" "changed old k" for k
    proof -
      have "d_name k \<noteq> d_name i" using Cons.prems(1) that(1) by (metis distinct.simps(2) image_eqI list.simps(9) list.set_map)
      then have "apps_of (d_name k) w1 = apps_of (d_name k) w" using w1(3) by (intro apps_of_named) simp
      then show ?thesis using Cons.prems(6) that by simp
    qed
    then have "apps w' q = apps w1 q"
      using Cons.prems(1,2,5) q by (intro Cons.IH [OF _ _ w1(2) run]) simp_all
    then show ?thesis using q by simp
  next
    case False
    then have "apply_new has_d old is w = Inr w'"
      using Cons.prems(4) by (simp add: apply_new_step [OF assms(1)] del: apply_new.simps(2))
    from Cons.IH [OF _ _ Cons.prems(3) this Cons.prems(5)] show ?thesis using Cons.prems(1,2,6) by simp
  qed
qed simp

text \<open>
  A definition that is gone clears its logger, without touching any other or any appender: the lowest level and no
  appender, which sends every event that the logger gets on to the root logger.
\<close>

definition cleared :: "string \<Rightarrow> LogWorld \<Rightarrow> bool" where
  "cleared n w \<longleftrightarrow> (\<exists>lg. named n w = Some lg \<and> l_level lg = UNKNOW \<and> m_appenders lg = [])"

lemma remove_define_effect:
  assumes "log_inv w"
  shows "log_inv (remove_define new i w) \<and> apps (remove_define new i w) = apps w
    \<and> (\<forall>m. m \<noteq> d_name i \<or> d_name i \<in> d_name ` set new \<longrightarrow> named m (remove_define new i w) = named m w)
    \<and> (d_name i \<notin> d_name ` set new \<longrightarrow> cleared (d_name i) (remove_define new i w))"
proof (cases "define_find i new")
  case None
  then have no: "d_name i \<notin> d_name ` set new" by (force simp: define_find_def find_None_iff)
  obtain l w1 lg where w1: "getLogger (d_name i) w = (l, w1)" "log_inv w1" "map_find str_less (d_name i) (m_loggers w1) = Some l"
    "logs w1 l = Some lg" "\<And>m. m \<noteq> d_name i \<Longrightarrow> named m w1 = named m w" "apps w1 = apps w"
    by (rule getLogger_named [OF assms]) blast
  let ?w = "clearAppenders l (setLevel l UNKNOW w1)"
  have r: "remove_define new i w = ?w" using None w1(1) by (simp add: remove_define_def)
  have "log_inv ?w" using w1(2) by (simp add: clearAppenders_inv setLevel_inv)
  moreover have "cleared (d_name i) ?w"
    using w1(3,4) by (simp add: cleared_def named_def clearAppenders_def setLevel_def update_log_def)
  moreover have "apps ?w = apps w" using w1(6) by (simp add: clearAppenders_def setLevel_def update_log_def)
  moreover have "named m ?w = named m w" if "m \<noteq> d_name i" for m
  proof -
    have "map_find str_less m (m_loggers w1) \<noteq> Some l" using named_distinct [OF w1(2) w1(3)] that by blast
    then have "named m ?w = named m w1"
      by (auto simp: named_def clearAppenders_def setLevel_def update_log_def split: option.split)
    then show ?thesis using w1(5) that by simp
  qed
  ultimately show ?thesis using no r by simp
next
  case (Some j)
  then have "j \<in> set new" "d_name i = d_name j" by (auto simp: define_find_def find_Some_iff)
  then have "d_name i \<in> d_name ` set new" by blast
  with Some assms show ?thesis by (simp add: remove_define_def)
qed

lemma remove_all_effect:
  assumes "log_inv w"
  shows "log_inv (fold (remove_define new) is w) \<and> apps (fold (remove_define new) is w) = apps w
    \<and> (\<forall>m. m \<notin> d_name ` set is - d_name ` set new \<longrightarrow> named m (fold (remove_define new) is w) = named m w)
    \<and> (\<forall>m\<in>d_name ` set is - d_name ` set new. cleared m (fold (remove_define new) is w))"
  using assms
proof (induction "is" rule: rev_induct)
  case (snoc i "is")
  let ?w = "fold (remove_define new) is w"
  have IH: "log_inv ?w" "apps ?w = apps w" "\<forall>m. m \<notin> d_name ` set is - d_name ` set new \<longrightarrow> named m ?w = named m w"
    "\<forall>m\<in>d_name ` set is - d_name ` set new. cleared m ?w" using snoc by blast+
  note step = remove_define_effect [OF IH(1), of new i]
  have "cleared m (remove_define new i ?w)" if "m \<in> d_name ` set (is @ [i]) - d_name ` set new" for m
  proof (cases "m = d_name i")
    case False
    then have "cleared m ?w" "named m (remove_define new i ?w) = named m ?w" using that IH(4) step by auto
    then show ?thesis by (simp add: cleared_def)
  qed (use that step in auto)
  moreover have "named m (remove_define new i ?w) = named m w" if "m \<notin> d_name ` set (is @ [i]) - d_name ` set new" for m
  proof -
    have "m \<noteq> d_name i \<or> d_name i \<in> d_name ` set new" using that by auto
    then have "named m (remove_define new i ?w) = named m ?w" using step by blast
    also have "\<dots> = named m w" using IH(3) that by auto
    finally show ?thesis .
  qed
  ultimately show ?case using step IH by simp
qed simp

lemma HX_LOG_lines:
  assumes "log_inv w" "logs w l \<noteq> None"
  shows "\<exists>w'. HX_LOG_LEVEL strftime l level event w = Inr w' \<and> only_written w w'
    \<and> written w' = written w @ concat (map (heard_line strftime w level event) (audience w l level))"
proof -
  obtain lg where lg: "logs w l = Some lg" using assms(2) by blast
  show ?thesis
  proof (cases "l_level lg \<le> level")
    case True
    with lg logger_log_lines [OF assms, of strftime level event] show ?thesis by (simp add: HX_LOG_LEVEL_def)
  next
    case False
    then have "level < l_level lg" by simp
    with False lg show ?thesis by (simp add: HX_LOG_LEVEL_def audience_def)
  qed
qed

text \<open>What the program can do with loggers and appenders; a formatter that is set is never null.\<close>

inductive log_reach :: "LogWorld \<Rightarrow> bool" where
  start: "log_reach (new_LoggerManager ok)"
| get: "log_reach w \<Longrightarrow> log_reach (snd (getLogger n w))"
| create: "log_reach w \<Longrightarrow> log_reach (snd (new_app (reopen (openable w) (new_LogAppender t)) w))"
| add: "log_reach w \<Longrightarrow> apps w p \<noteq> None \<Longrightarrow> log_reach (addAppender l p w)"
| del: "log_reach w \<Longrightarrow> log_reach (delAppender l p w)"
| clear: "log_reach w \<Longrightarrow> log_reach (clearAppenders l w)"
| level: "log_reach w \<Longrightarrow> log_reach (setLevel l v w)"
| app_level: "log_reach w \<Longrightarrow> log_reach (appender_setLevel p v w)"
| app_formatter: "log_reach w \<Longrightarrow> log_reach (update_app p (appender_setFormatter (Some f)) w)"
| formatter: "log_reach w \<Longrightarrow> log_reach (logger_setFormatter l (Some f) w)"
| formatter_text: "log_reach w \<Longrightarrow> log_reach (logger_setFormatter_text l s w)"
| files: "log_reach w \<Longrightarrow> log_reach (w\<lparr>openable := ok\<rparr>)"
| logging: "log_reach w \<Longrightarrow> HX_LOG_LEVEL strftime l v e w = Inr w' \<Longrightarrow> log_reach w'"
| conf: "log_reach w \<Longrightarrow> distinct (map d_name old) \<Longrightarrow> distinct (map d_name new) \<Longrightarrow> \<forall>i\<in>set new. types_ok (d_appenders i)
    \<Longrightarrow> on_logger_conf_changed strftime e has_d old new w = Inr w' \<Longrightarrow> log_reach w'"

lemma conf_changed_effect:
  assumes "log_inv w" "distinct (map d_name old)" "distinct (map d_name new)" "\<forall>i\<in>set new. types_ok (d_appenders i)"
  shows "\<exists>w'. on_logger_conf_changed strftime e has_d old new w = Inr w' \<and> log_inv w'
    \<and> (\<forall>i\<in>set new. changed old i \<longrightarrow> configured (openable w) has_d i (prior i w) w')
    \<and> (\<forall>m\<in>d_name ` set old - d_name ` set new. cleared m w')
    \<and> (\<forall>m. m \<notin> d_name ` {i \<in> set new. changed old i} \<and> m \<notin> d_name ` set old - d_name ` set new \<longrightarrow> named m w' = named m w)
    \<and> (\<forall>q. apps w q \<noteq> None \<and> (\<forall>i\<in>set new. changed old i \<longrightarrow> q \<notin> apps_of (d_name i) w)
        \<longrightarrow> map_option config_of (apps w' q) = map_option config_of (apps w q))"
proof -
  obtain w1 where w1: "HX_LOG_LEVEL strftime (m_root w) INFO e w = Inr w1" "only_written w w1"
    using HX_LOG_lines [OF assms(1) log_invD(1) [OF assms(1)]] by blast
  have inv: "log_inv w1" by (rule only_written_inv [OF w1(2) assms(1)])
  have same: "openable w1 = openable w" "named m w1 = named m w" "prior i w1 = prior i w" for m i
    using w1(2) by (simp_all add: only_written_def named_def prior_def cong: option.case_cong)
  obtain w2 where w2: "apply_new has_d old new w1 = Inr w2" "log_inv w2"
      "\<forall>i\<in>set new. changed old i \<longrightarrow> configured (openable w) has_d i (prior i w) w2"
      "\<forall>m. m \<notin> d_name ` {i \<in> set new. changed old i} \<longrightarrow> named m w2 = named m w"
    using apply_new_effect [OF assms(2-4) inv, of has_d] by (auto simp: same)
  let ?w = "fold (remove_define new) old w2"
  note rm = remove_all_effect [OF w2(2), of new old]
  have "configured (openable w) has_d i (prior i w) ?w" if "i \<in> set new" "changed old i" for i
    by (rule configured_keep) (use that w2(3) rm in auto)
  moreover have "on_logger_conf_changed strftime e has_d old new w = Inr ?w"
    by (simp add: on_logger_conf_changed_def w1 w2)
  moreover have "map_option config_of (apps ?w q) = map_option config_of (apps w q)"
    if "apps w q \<noteq> None" "\<forall>i\<in>set new. changed old i \<longrightarrow> q \<notin> apps_of (d_name i) w" for q
  proof -
    have q1: "map_option config_of (apps w1 q) = map_option config_of (apps w q)" by (rule only_written_app [OF w1(2)])
    then have "apps w1 q \<noteq> None" using that(1) by (metis option.map_disc_iff)
    moreover have "apps_of n w1 = apps_of n w" for n by (rule apps_of_named [OF same(2)])
    ultimately have "apps w2 q = apps w1 q" using that(2) by (intro apply_new_frame [OF assms(2-4) inv w2(1)]) simp_all
    then show ?thesis using q1 rm by simp
  qed
  ultimately show ?thesis using rm w2(4) by (intro exI [of _ ?w]) simp
qed

lemma cleared_audience:
  assumes "cleared m w" "map_find str_less m (m_loggers w) = Some l"
  shows "audience w l level = audience w (m_root w) level"
proof -
  obtain lg where "logs w l = Some lg" "l_level lg = UNKNOW" "m_appenders lg = []"
    using assms by (auto simp: cleared_def named_def)
  moreover have "\<not> level < UNKNOW" by (cases level) (simp_all add: less_Level_def)
  ultimately show ?thesis by (simp add: audience_def Let_def)
qed

lemma log_reach_inv: "log_reach w \<Longrightarrow> log_inv w"
proof (induction rule: log_reach.induct)
  case (files w ok)
  then show ?case by (simp add: log_inv_def log_ok_def)
next
  case (logging w strftime l v e w')
  then have "logs w l \<noteq> None" by (auto simp: HX_LOG_LEVEL_def split: option.splits)
  then show ?case using HX_LOG_lines [OF logging(3), of l strftime v e] logging(2,3) only_written_inv by auto
next
  case (conf w old new strftime e has_d w')
  then show ?case using conf_changed_effect [OF conf(6,2,3,4), of strftime e has_d] by auto
qed (auto simp: appender_setLevel_def appender_setFormatter_def new_LoggerManager_inv getLogger_inv new_app_inv addAppender_inv
    delAppender_inv clearAppenders_inv setLevel_inv logger_setFormatter_inv logger_setFormatter_text_inv intro!: update_app_inv)

text \<open>
  C32: in every state the program can reach, logging an event succeeds: no null formatter is followed
  and the chain to the root logger has at most two loggers. It writes exactly the lines of the
  appenders that hear the event, in their order: those of the logger, or of the root logger when it
  has none, each with its own level and formatter; every logger and every appender keeps its settings.
\<close>

theorem logging_delivers:
  assumes "log_reach w" "logs w l \<noteq> None"
  shows "\<exists>w'. HX_LOG_LEVEL strftime l level event w = Inr w' \<and> only_written w w'
    \<and> written w' = written w @ concat (map (heard_line strftime w level event) (audience w l level))"
  by (rule HX_LOG_lines [OF log_reach_inv [OF assms(1)] assms(2)])

text \<open>
  C33: a new configuration of the loggers is applied without error. A definition whose name is new, or
  whose level or formatter differs from the old one, gives its logger that level, formatter and a fresh
  list of appenders. The logger of a definition that is gone has the lowest level and no appender left, so that its
  events are heard by exactly the appenders that hear those of the root logger. Every other logger keeps its level, its
  formatter and its list of appenders, also when only the appenders of its definition have changed, and every appender
  that none of the reconfigured loggers had keeps its settings.
\<close>

theorem conf_changed_applies:
  assumes "log_reach w" "distinct (map d_name old)" "distinct (map d_name new)" "\<forall>i\<in>set new. types_ok (d_appenders i)"
  shows "\<exists>w'. on_logger_conf_changed strftime e has_d old new w = Inr w'
    \<and> (\<forall>i\<in>set new. changed old i \<longrightarrow> configured (openable w) has_d i (prior i w) w')
    \<and> (\<forall>m\<in>d_name ` set old - d_name ` set new. cleared m w'
        \<and> (\<forall>l level. map_find str_less m (m_loggers w') = Some l \<longrightarrow> audience w' l level = audience w' (m_root w') level))
    \<and> (\<forall>m. m \<notin> d_name ` {i \<in> set new. changed old i} \<and> m \<notin> d_name ` set old - d_name ` set new \<longrightarrow> named m w' = named m w)
    \<and> (\<forall>q. apps w q \<noteq> None \<and> (\<forall>i\<in>set new. changed old i \<longrightarrow> q \<notin> apps_of (d_name i) w)
        \<longrightarrow> map_option config_of (apps w' q) = map_option config_of (apps w q))"
proof -
  obtain w' where "on_logger_conf_changed strftime e has_d old new w = Inr w'"
    "\<forall>i\<in>set new. changed old i \<longrightarrow> configured (openable w) has_d i (prior i w) w'"
    and clear: "\<forall>m\<in>d_name ` set old - d_name ` set new. cleared m w'"
    and rest: "\<forall>m. m \<notin> d_name ` {i \<in> set new. changed old i} \<and> m \<notin> d_name ` set old - d_name ` set new \<longrightarrow> named m w' = named m w"
    "\<forall>q. apps w q \<noteq> None \<and> (\<forall>i\<in>set new. changed old i \<longrightarrow> q \<notin> apps_of (d_name i) w)
      \<longrightarrow> map_option config_of (apps w' q) = map_option config_of (apps w q)"
    using conf_changed_effect [OF log_reach_inv [OF assms(1)] assms(2-4), of strftime e has_d] by blast
  moreover have "\<forall>m\<in>d_name ` set old - d_name ` set new. cleared m w'
      \<and> (\<forall>l level. map_find str_less m (m_loggers w') = Some l \<longrightarrow> audience w' l level = audience w' (m_root w') level)"
    using clear cleared_audience [where w = w'] by blast
  ultimately show ?thesis by blast
qed

definition sample_event :: LogEvent where
  "sample_event = \<lparr>m_file = ''a.cc'', m_line = 3, m_elapse = 0, m_threadId = 1, m_fiberId = 0, m_time = 7, m_threadName = ''t'',
     m_ss = ''hi'', ev_logger = ''root'', ev_level = INFO\<rparr>"

definition sample_define :: LogDefine where
  "sample_define = \<lparr>d_name = ''sys'', d_level = INFO, d_formatter = ''%m%n'',
     d_appenders = [\<lparr>ad_type = 1, ad_level = WARN, ad_formatter = [], ad_file = ''sys.log''\<rparr>]\<rparr>"

theorem logging_delivers_witness:
  "\<exists>w'. HX_LOG_LEVEL (\<lambda>fmt _. fmt) 0 INFO sample_event (new_LoggerManager (\<lambda>_. True)) = Inr w'
    \<and> written w' = [(StdoutLogAppender, formatter_format (\<lambda>fmt _. fmt) (new_LogFormatter default_pattern) INFO sample_event)]"
proof -
  let ?w = "new_LoggerManager (\<lambda>_. True)"
  have w: "log_reach ?w" by (rule log_reach.start)
  have l: "logs ?w 0 \<noteq> None" "written ?w = []" "audience ?w 0 INFO = [0]"
    "heard_line (\<lambda>fmt _. fmt) ?w INFO sample_event 0 =
       [(StdoutLogAppender, formatter_format (\<lambda>fmt _. fmt) (new_LogFormatter default_pattern) INFO sample_event)]"
    by (simp_all add: new_LoggerManager_def new_app_def addAppender_def update_log_def update_app_def new_Logger_def new_LogAppender_def
        audience_def less_Level_def less_eq_Level_def heard_line_def line_of_def put_line_def refresh_def)
  show ?thesis using logging_delivers [OF w l(1), of "\<lambda>fmt _. fmt" INFO sample_event] l(2-) by auto
qed

theorem conf_changed_applies_witness:
  "\<exists>w'. on_logger_conf_changed (\<lambda>fmt _. fmt) sample_event False [] [sample_define] (new_LoggerManager (\<lambda>_. True)) = Inr w'
    \<and> configured (\<lambda>_. True) False sample_define (prior sample_define (new_LoggerManager (\<lambda>_. True))) w'"
proof -
  let ?w = "new_LoggerManager (\<lambda>_. True)"
  have "log_reach ?w" by (rule log_reach.start)
  moreover have "\<forall>i\<in>set [sample_define]. types_ok (d_appenders i)" "openable ?w = (\<lambda>_. True)" "changed [] sample_define"
    by (simp_all add: sample_define_def types_ok_def changed_def new_LoggerManager_def new_app_def addAppender_def
        update_log_def update_app_def)
  ultimately show ?thesis using conf_changed_applies [of ?w "[]" "[sample_define]" "\<lambda>fmt _. fmt" sample_event False] by auto
qed

end
