(* ===== verification/LogConf.thy ===== *)
theory LogConf
  imports Loggers
begin

text \<open>
  Definitions of loggers as YAML text (\<open>log.cc\<close>): the two conversions of a \<open>LogDefine\<close> and the
  texts the loggers give of themselves. Access to the nodes of a document is a parameter.
\<close>

section \<open>Conversions\<close>

text \<open>
  What the conversions use of a node: the child under a key, which may be undefined, the elements by index
  and the scalar as a string; the first and the last may throw.
\<close>

record yaml_nodes =
  child :: "yaml \<Rightarrow> string \<Rightarrow> yaml option option"
  elements :: "yaml \<Rightarrow> yaml list"
  as_string :: "yaml \<Rightarrow> string option"

text \<open>The text under a key, with a default when there is no such key.\<close>

definition text_at :: "yaml_nodes \<Rightarrow> yaml \<Rightarrow> string \<Rightarrow> string \<Rightarrow> string option" where
  "text_at N n k def =
     (case child N n k of None \<Rightarrow> None
      | Some None \<Rightarrow> Some def
      | Some (Some x) \<Rightarrow> as_string N x)"

text \<open>One element of the list of appenders: \<open>Some None\<close> when the loop goes on without it.\<close>

definition appender_of_node :: "yaml_nodes \<Rightarrow> yaml \<Rightarrow> LogAppenderDefine option option" where
  "appender_of_node N a =
     (case child N a ''type'' of None \<Rightarrow> None
      | Some None \<Rightarrow> Some None
      | Some (Some t) \<Rightarrow>
          (case as_string N t of None \<Rightarrow> None
           | Some ty \<Rightarrow>
               if ty = ''FileLogAppender'' then
                 (case child N a ''file'' of None \<Rightarrow> None
                  | Some None \<Rightarrow> Some None
                  | Some (Some f) \<Rightarrow>
                      (case as_string N f of None \<Rightarrow> None
                       | Some file \<Rightarrow>
                           map_option (\<lambda>fmt. Some \<lparr>ad_type = 1, ad_level = UNKNOW, ad_formatter = fmt, ad_file = file\<rparr>)
                             (text_at N a ''formatter'' [])))
               else if ty = ''StdoutLogAppender'' then
                 map_option (\<lambda>fmt. Some \<lparr>ad_type = 2, ad_level = UNKNOW, ad_formatter = fmt, ad_file = []\<rparr>)
                   (text_at N a ''formatter'' [])
               else Some None))"

fun appenders_of_nodes :: "yaml_nodes \<Rightarrow> yaml list \<Rightarrow> LogAppenderDefine list option" where
  "appenders_of_nodes N [] = Some []"
| "appenders_of_nodes N (a # as) =
     (case appender_of_node N a of None \<Rightarrow> None
      | Some lad \<Rightarrow> map_option (\<lambda>rest. (case lad of Some d \<Rightarrow> [d] | None \<Rightarrow> []) @ rest) (appenders_of_nodes N as))"

definition LogDefine_of_string :: "yaml_lib \<Rightarrow> yaml_nodes \<Rightarrow> string \<Rightarrow> LogDefine option" where
  "LogDefine_of_string Y N v =
     (case Load Y v of None \<Rightarrow> None
      | Some n \<Rightarrow>
          (case child N n ''name'' of None \<Rightarrow> None
           | Some None \<Rightarrow> None
           | Some (Some nm) \<Rightarrow>
               (case as_string N nm of None \<Rightarrow> None
                | Some name \<Rightarrow>
                    (case text_at N n ''level'' [] of None \<Rightarrow> None
                     | Some lv \<Rightarrow>
                         (case text_at N n ''formatter'' [] of None \<Rightarrow> None
                          | Some fmt \<Rightarrow>
                              (case child N n ''appenders'' of None \<Rightarrow> None
                               | Some None \<Rightarrow>
                                   Some \<lparr>d_name = name, d_level = level_FromString lv, d_formatter = fmt, d_appenders = []\<rparr>
                               | Some (Some as) \<Rightarrow>
                                   map_option (\<lambda>ads. \<lparr>d_name = name, d_level = level_FromString lv, d_formatter = fmt, d_appenders = ads\<rparr>)
                                     (appenders_of_nodes N (elements N as))))))))"

definition opt_key :: "bool \<Rightarrow> string \<Rightarrow> string \<Rightarrow> (yaml \<times> yaml) list" where
  "opt_key b k v = (if b then [(YScalar k, YScalar v)] else [])"

text \<open>A node without any key assigned stays a null node.\<close>

definition map_node :: "(yaml \<times> yaml) list \<Rightarrow> yaml" where
  "map_node kvs = (if kvs = [] then YNull else YMap kvs)"

definition node_of_appender :: "LogAppenderDefine \<Rightarrow> yaml" where
  "node_of_appender a = map_node
     ((if ad_type a = 1 then [(YScalar ''type'', YScalar ''FileLogAppender''), (YScalar ''file'', YScalar (ad_file a))]
       else if ad_type a = 2 then [(YScalar ''type'', YScalar ''StdoutLogAppender'')] else [])
      @ opt_key (ad_level a \<noteq> UNKNOW) ''level'' (level_ToString (ad_level a))
      @ opt_key (ad_formatter a \<noteq> []) ''formatter'' (ad_formatter a))"

definition node_of_define :: "LogDefine \<Rightarrow> yaml" where
  "node_of_define i = YMap
     ([(YScalar ''name'', YScalar (d_name i))]
      @ opt_key (d_level i \<noteq> UNKNOW) ''level'' (level_ToString (d_level i))
      @ opt_key (d_formatter i \<noteq> []) ''formatter'' (d_formatter i)
      @ (if d_appenders i = [] then [] else [(YScalar ''appenders'', YSeq (map node_of_appender (d_appenders i)))]))"

definition string_of_LogDefine :: "yaml_lib \<Rightarrow> LogDefine \<Rightarrow> string" where
  "string_of_LogDefine Y i = emit Y (node_of_define i)"

section \<open>The texts of loggers\<close>

definition appender_node :: "LogAppender \<Rightarrow> yaml" where
  "appender_node a = YMap
     ((case a_target a of
         FileLogAppender f \<Rightarrow> [(YScalar ''type'', YScalar ''FileLogAppender''), (YScalar ''file'', YScalar f)]
       | StdoutLogAppender \<Rightarrow> [(YScalar ''type'', YScalar ''StdoutLogAppender'')])
      @ opt_key (a_level a \<noteq> UNKNOW) ''level'' (level_ToString (a_level a))
      @ (case a_formatter a of Some f \<Rightarrow> opt_key (m_hasFormatter a) ''formatter'' (m_pattern f) | None \<Rightarrow> []))"

definition appender_toYamlString :: "yaml_lib \<Rightarrow> LogAppender \<Rightarrow> string" where
  "appender_toYamlString Y a = emit Y (appender_node a)"

text \<open>A list of appenders is loaded again from its texts; a text that cannot be read throws.\<close>

definition logger_toYamlString :: "yaml_lib \<Rightarrow> LogWorld \<Rightarrow> Logger \<Rightarrow> string option" where
  "logger_toYamlString Y w lg =
     (case cast_all (\<lambda>p. case apps w p of None \<Rightarrow> None | Some a \<Rightarrow> Load Y (appender_toYamlString Y a)) (m_appenders lg) of
        None \<Rightarrow> None
      | Some ns \<Rightarrow>
          Some (emit Y (YMap
            ([(YScalar ''name'', YScalar (l_name lg))]
             @ opt_key (l_level lg \<noteq> UNKNOW) ''level'' (level_ToString (l_level lg))
             @ (case l_formatter lg of Some f \<Rightarrow> [(YScalar ''formatter'', YScalar (m_pattern f))] | None \<Rightarrow> [])
             @ (if ns = [] then [] else [(YScalar ''appenders'', YSeq ns)])))))"

definition LoggerManager_toYamlString :: "yaml_lib \<Rightarrow> LogWorld \<Rightarrow> string option" where
  "LoggerManager_toYamlString Y w =
     map_option (\<lambda>ns. emit Y (if ns = [] then YNull else YSeq ns))
       (cast_all (\<lambda>kl. case logs w (snd kl) of None \<Rightarrow> None
                       | Some lg \<Rightarrow> (case logger_toYamlString Y w lg of None \<Rightarrow> None | Some s \<Rightarrow> Load Y s)) (m_loggers w))"

section \<open>What survives\<close>

fun key_lookup :: "string \<Rightarrow> (yaml \<times> yaml) list \<Rightarrow> yaml option" where
  "key_lookup k [] = None"
| "key_lookup k ((x, v) # kvs) = (if x = YScalar k then Some v else key_lookup k kvs)"

text \<open>What a node of a document gives: the value under a key of a map, the items of a sequence, a scalar's text.\<close>

definition yaml_access :: "yaml_nodes \<Rightarrow> bool" where
  "yaml_access N \<longleftrightarrow> (\<forall>kvs k. child N (YMap kvs) k = Some (key_lookup k kvs)) \<and> (\<forall>k. child N YNull k = Some None)
     \<and> (\<forall>xs. elements N (YSeq xs) = xs) \<and> (\<forall>s. as_string N (YScalar s) = Some s)"

lemma yaml_accessD:
  assumes "yaml_access N"
  shows "child N (YMap kvs) k = Some (key_lookup k kvs)" "child N YNull k = Some None" "elements N (YSeq xs) = xs"
    "as_string N (YScalar s) = Some s"
  using assms by (simp_all add: yaml_access_def)

text \<open>What reading a definition back keeps of an appender: its level is lost.\<close>

definition read_back :: "LogAppenderDefine \<Rightarrow> LogAppenderDefine" where
  "read_back a = a\<lparr>ad_level := UNKNOW, ad_file := (if ad_type a = 1 then ad_file a else [])\<rparr>"

lemma level_back [simp]: "level_FromString (level_ToString l) = l" "level_FromString [] = UNKNOW"
  by (cases l) (simp_all add: level_FromString_def)

lemma appender_back:
  assumes "yaml_access N" "ad_type a = 1 \<or> ad_type a = 2"
  shows "appender_of_node N (node_of_appender a) = Some (Some (read_back a))"
  using assms(2)
  by (cases a) (auto simp: node_of_appender_def map_node_def opt_key_def appender_of_node_def text_at_def read_back_def
      yaml_accessD [OF assms(1)])

lemma appenders_back:
  assumes "yaml_access N"
  shows "types_ok as \<Longrightarrow> appenders_of_nodes N (map node_of_appender as) = Some (map read_back as)"
  by (induction as) (simp_all add: types_ok_def appender_back [OF assms])

text \<open>
  A definition printed and read again has the same name, level, formatter and appenders in the same
  order, except that the level of every appender is lost; the loggers made from what is read back
  write every message their logger lets pass.
\<close>

theorem LogDefine_round_trip:
  assumes "yaml_access N" "Load Y (emit Y (node_of_define i)) = Some (node_of_define i)" "types_ok (d_appenders i)"
  shows "LogDefine_of_string Y N (string_of_LogDefine Y i) = Some (i\<lparr>d_appenders := map read_back (d_appenders i)\<rparr>)
    \<and> (\<forall>a\<in>set (d_appenders i). a_level (made_app ok lf (read_back a)) = UNKNOW)"
proof -
  have "appenders_of_nodes N (map node_of_appender (d_appenders i)) = Some (map read_back (d_appenders i))"
    by (rule appenders_back [OF assms(1,3)])
  moreover have "text_at N (node_of_define i) ''level'' [] = Some (if d_level i = UNKNOW then [] else level_ToString (d_level i))"
    "text_at N (node_of_define i) ''formatter'' [] = Some (d_formatter i)"
    "child N (node_of_define i) ''name'' = Some (Some (YScalar (d_name i)))"
    "child N (node_of_define i) ''appenders'' =
       Some (if d_appenders i = [] then None else Some (YSeq (map node_of_appender (d_appenders i))))"
    by (simp_all add: node_of_define_def text_at_def opt_key_def yaml_accessD [OF assms(1)])
  ultimately show ?thesis
    using assms(2) by (cases "d_level i = UNKNOW")
      (auto simp: LogDefine_of_string_def string_of_LogDefine_def yaml_accessD [OF assms(1)] made_app_def read_back_def)
qed

definition sample_nodes :: yaml_nodes where
  "sample_nodes = \<lparr>child = (\<lambda>n k. case n of YMap kvs \<Rightarrow> Some (key_lookup k kvs) | YScalar _ \<Rightarrow> None | _ \<Rightarrow> Some None),
     elements = (\<lambda>n. case n of YSeq xs \<Rightarrow> xs | _ \<Rightarrow> []), as_string = (\<lambda>n. case n of YScalar s \<Rightarrow> Some s | _ \<Rightarrow> None)\<rparr>"

theorem LogDefine_round_trip_witness:
  "\<exists>Y. LogDefine_of_string Y sample_nodes (string_of_LogDefine Y sample_define)
     = Some (sample_define\<lparr>d_appenders := [\<lparr>ad_type = 1, ad_level = UNKNOW, ad_formatter = [], ad_file = ''sys.log''\<rparr>]\<rparr>)"
proof -
  let ?Y = "\<lparr>Load = (\<lambda>_. Some (node_of_define sample_define)), emit = (\<lambda>_. []), seq_items = (\<lambda>_. []), map_items = (\<lambda>_. [])\<rparr>"
  have "yaml_access sample_nodes" by (simp add: yaml_access_def sample_nodes_def)
  moreover have "Load ?Y (emit ?Y (node_of_define sample_define)) = Some (node_of_define sample_define)" by simp
  moreover have "types_ok (d_appenders sample_define)"
    "map read_back (d_appenders sample_define) = [\<lparr>ad_type = 1, ad_level = UNKNOW, ad_formatter = [], ad_file = ''sys.log''\<rparr>]"
    by (simp_all add: types_ok_def sample_define_def read_back_def)
  ultimately show ?thesis using LogDefine_round_trip [of sample_nodes ?Y sample_define "\<lambda>_. True" None] by metis
qed

end
