(* ===== verification/Uri.thy ===== *)
theory Uri
  imports UriTables Util
begin

text \<open>
  Uris (\<open>uri.h\<close>, \<open>uri.cc\<close>): the record, the table-driven parser and the printer. The parser is the loop of the
  source over the tables: binary searches for the transition of a state, the actions of a transition,
  the actions at the end. Positions in the text are indices; a null mark is \<open>None\<close>. Reading outside a
  table and building a string from a null mark are error values.
\<close>

section \<open>The record\<close>

record Uri =
  m_scheme :: string
  m_userinfo :: string
  m_host :: string
  m_port :: int
  m_path :: string
  m_query :: string
  m_fragment :: string

definition new_Uri :: Uri where
  "new_Uri = \<lparr>m_scheme = [], m_userinfo = [], m_host = [], m_port = 0, m_path = [], m_query = [], m_fragment = []\<rparr>"

definition isDefaultPort :: "Uri \<Rightarrow> bool" where
  "isDefaultPort u =
     (if m_port u = 0 then True
      else if m_scheme u = ''http'' \<or> m_scheme u = ''ws'' then m_port u = 80
      else if m_scheme u = ''https'' \<or> m_scheme u = ''wss'' then m_port u = 443
      else False)"

definition uri_getPath :: "Uri \<Rightarrow> string" where
  "uri_getPath u = (if m_path u = [] then ''/'' else m_path u)"

definition getPort :: "Uri \<Rightarrow> int" where
  "getPort u =
     (if m_port u \<noteq> 0 then m_port u
      else if m_scheme u = ''http'' \<or> m_scheme u = ''ws'' then 80
      else if m_scheme u = ''https'' \<or> m_scheme u = ''wss'' then 443
      else m_port u)"

definition uri_dump :: "Uri \<Rightarrow> string" where
  "uri_dump u =
     m_scheme u @ ''://'' @ m_userinfo u @ (if m_userinfo u = [] then [] else ''@'') @ m_host u
     @ (if isDefaultPort u then [] else CHR '':'' # int_text (m_port u))
     @ uri_getPath u @ (if m_query u = [] then [] else ''?'') @ m_query u
     @ (if m_fragment u = [] then [] else ''#'') @ m_fragment u"

section \<open>Finding a transition\<close>

datatype uri_fault = TableBounds | NullMark

text \<open>A read of a table through a pointer, here an index.\<close>

definition tab_at :: "'a list \<Rightarrow> int \<Rightarrow> uri_fault + 'a" where
  "tab_at T i = (if 0 \<le> i \<and> i < int (length T) then Inr (T ! nat i) else Inl TableBounds)"

function find_single :: "int list \<Rightarrow> int \<Rightarrow> int \<Rightarrow> int \<Rightarrow> int \<Rightarrow> uri_fault + int option" where
  "find_single K keys p lower upper =
     (if upper < lower then Inr None
      else
        let mid = lower + (upper - lower) div 2
        in bindr (tab_at K mid) (\<lambda>k.
             if p < k then find_single K keys p lower (mid - 1)
             else if p > k then find_single K keys p (mid + 1) upper
             else Inr (Some (mid - keys))))"
  by pat_completeness auto
termination
  by (relation "measure (\<lambda>(K, keys, p, lower, upper). nat (upper - lower + 1))") auto

function find_range :: "int list \<Rightarrow> int \<Rightarrow> int \<Rightarrow> int \<Rightarrow> int \<Rightarrow> uri_fault + int option" where
  "find_range K keys p lower upper =
     (if upper < lower then Inr None
      else
        let mid = lower + 2 * ((upper - lower) div 2 div 2)
        in bindr (tab_at K mid) (\<lambda>k.
             if p < k then find_range K keys p lower (mid - 2)
             else bindr (tab_at K (mid + 1)) (\<lambda>k'.
               if p > k' then find_range K keys p (mid + 2) upper
               else Inr (Some ((mid - keys) div 2)))))"
  by pat_completeness auto
termination
  by (relation "measure (\<lambda>(K, keys, p, lower, upper). nat (upper - lower + 1))") auto

declare find_single.simps [simp del] find_range.simps [simp del]

definition find_trans :: "int \<Rightarrow> int \<Rightarrow> uri_fault + int" where
  "find_trans cs p =
     bindr (tab_at uri_parser_key_offsets cs) (\<lambda>keys.
     bindr (tab_at uri_parser_index_offsets cs) (\<lambda>trans.
     bindr (tab_at uri_parser_single_lengths cs) (\<lambda>klen.
     bindr (if klen > 0
            then find_single uri_parser_trans_keys keys p keys (keys + klen - 1) else Inr None)
       (\<lambda>m. case m of
          Some i \<Rightarrow> Inr (trans + i)
        | None \<Rightarrow>
            let keys = keys + klen; trans = trans + klen
            in bindr (tab_at uri_parser_range_lengths cs) (\<lambda>klen.
               bindr (if klen > 0
                      then find_range uri_parser_trans_keys keys p keys (keys + 2 * klen - 2) else Inr None)
                 (\<lambda>m. case m of
                    Some i \<Rightarrow> Inr (trans + i)
                  | None \<Rightarrow> Inr (trans + klen)))))))"

section \<open>Actions\<close>

record uri_state =
  u_cs :: int
  u_mark :: "nat option"
  u_uri :: Uri

definition slice :: "string \<Rightarrow> nat \<Rightarrow> nat \<Rightarrow> string" where
  "slice s m p = take (p - m) (drop m s)"

text \<open>\<open>atoi\<close>: \<open>strtol\<close>, which stops at the bounds of a \<open>long\<close>, converted to an \<open>int\<close>.\<close>

definition atoi_value :: "string \<Rightarrow> int" where
  "atoi_value s =
     (let s = dropWhile (\<lambda>c. c = CHR '' '' \<or> 9 \<le> (of_char c :: nat) \<and> (of_char c :: nat) \<le> 13) s;
          neg = (s \<noteq> [] \<and> hd s = CHR ''-'');
          s = (if s \<noteq> [] \<and> (hd s = CHR ''-'' \<or> hd s = CHR ''+'') then tl s else s);
          n = foldl (\<lambda>n c. 10 * n + (of_char c - 48)) (0 :: int) (takeWhile (\<lambda>c. 48 \<le> (of_char c :: nat) \<and> (of_char c :: nat) \<le> 57) s);
          n = (if neg then max (- n) (- (2 ^ 63)) else min n (2 ^ 63 - 1))
      in sint (of_int n :: 32 word))"

definition set_part :: "(string \<Rightarrow> Uri \<Rightarrow> Uri) \<Rightarrow> string \<Rightarrow> nat \<Rightarrow> uri_state \<Rightarrow> uri_fault + uri_state" where
  "set_part f s p st =
     (case u_mark st of None \<Rightarrow> Inl NullMark
      | Some m \<Rightarrow> Inr (st\<lparr>u_uri := f (slice s m p) (u_uri st), u_mark := None\<rparr>))"

definition save_port :: "string \<Rightarrow> nat \<Rightarrow> uri_state \<Rightarrow> uri_fault + uri_state" where
  "save_port s p st =
     (if u_mark st = Some p then Inr (st\<lparr>u_mark := None\<rparr>)
      else (case u_mark st of None \<Rightarrow> Inl NullMark
            | Some m \<Rightarrow> Inr (st\<lparr>u_uri := (u_uri st)\<lparr>m_port := atoi_value (drop m s)\<rparr>, u_mark := None\<rparr>)))"

definition save_userinfo :: "string \<Rightarrow> nat \<Rightarrow> uri_state \<Rightarrow> uri_state" where
  "save_userinfo s p st =
     (case u_mark st of None \<Rightarrow> st
      | Some m \<Rightarrow> st\<lparr>u_uri := (u_uri st)\<lparr>m_userinfo := slice s m p\<rparr>, u_mark := None\<rparr>)"

definition save_host :: "string \<Rightarrow> nat \<Rightarrow> uri_state \<Rightarrow> uri_state" where
  "save_host s p st =
     (case u_mark st of None \<Rightarrow> st | Some m \<Rightarrow> st\<lparr>u_uri := (u_uri st)\<lparr>m_host := slice s m p\<rparr>\<rparr>)"

definition run_action :: "string \<Rightarrow> nat \<Rightarrow> int \<Rightarrow> uri_state \<Rightarrow> uri_fault + uri_state" where
  "run_action s p a st =
     (if a = 0 \<or> a = 1 then Inr (st\<lparr>u_mark := Some p\<rparr>)
      else if a = 2 then set_part (\<lambda>x u. u\<lparr>m_scheme := x\<rparr>) s p st
      else if a = 3 then save_port s p st
      else if a = 4 then Inr (save_userinfo s p st)
      else if a = 5 then Inr (save_host s p st)
      else if a = 6 then set_part (\<lambda>x u. u\<lparr>m_path := x\<rparr>) s p st
      else if a = 7 then set_part (\<lambda>x u. u\<lparr>m_query := x\<rparr>) s p st
      else Inr st)"

text \<open>At the end of the input the switch has no case for the scheme and the user, but one for the fragment.\<close>

definition run_eof_action :: "string \<Rightarrow> nat \<Rightarrow> int \<Rightarrow> uri_state \<Rightarrow> uri_fault + uri_state" where
  "run_eof_action s p a st =
     (if a = 2 \<or> a = 4 then Inr st
      else if a = 8 then set_part (\<lambda>x u. u\<lparr>m_fragment := x\<rparr>) s p st
      else run_action s p a st)"

fun run_acts ::
  "(int \<Rightarrow> uri_state \<Rightarrow> uri_fault + uri_state) \<Rightarrow> nat \<Rightarrow> int \<Rightarrow> uri_state \<Rightarrow> uri_fault + uri_state" where
  "run_acts run 0 acts st = Inr st"
| "run_acts run (Suc nacts) acts st =
     bindr (tab_at uri_parser_actions acts) (\<lambda>a. bindr (run a st) (run_acts run nacts (acts + 1)))"

definition do_actions ::
  "(int \<Rightarrow> uri_state \<Rightarrow> uri_fault + uri_state) \<Rightarrow> int \<Rightarrow> uri_state \<Rightarrow> uri_fault + uri_state" where
  "do_actions run off st =
     bindr (tab_at uri_parser_actions off) (\<lambda>n. run_acts run (nat n) (off + 1) st)"

section \<open>The loop\<close>

definition uri_step :: "string \<Rightarrow> nat \<Rightarrow> char \<Rightarrow> uri_state \<Rightarrow> uri_fault + uri_state" where
  "uri_step s p c st =
     bindr (find_trans (u_cs st) (schar c)) (\<lambda>i.
     bindr (tab_at uri_parser_indicies i) (\<lambda>trans.
     bindr (tab_at uri_parser_trans_targs trans) (\<lambda>cs.
     bindr (tab_at uri_parser_trans_actions trans) (\<lambda>off.
       let st = st\<lparr>u_cs := cs\<rparr>
       in if off = 0 then Inr st else do_actions (run_action s p) off st))))"

fun uri_run :: "string \<Rightarrow> nat \<Rightarrow> string \<Rightarrow> uri_state \<Rightarrow> uri_fault + uri_state" where
  "uri_run s p [] st = Inr st"
| "uri_run s p (c # rest) st =
     bindr (uri_step s p c st) (\<lambda>st. if u_cs st = 0 then Inr st else uri_run s (p + 1) rest st)"

text \<open>The actions at the end run when the input was consumed, not when the error state stopped the loop.\<close>

definition uri_eof :: "string \<Rightarrow> uri_state \<Rightarrow> uri_fault + uri_state" where
  "uri_eof s st =
     (if u_cs st = 0 then Inr st
      else bindr (tab_at uri_parser_eof_actions (u_cs st)) (\<lambda>off. do_actions (run_eof_action s (length s)) off st))"

definition Uri_Create :: "string \<Rightarrow> uri_fault + Uri option" where
  "Uri_Create s =
     bindr (uri_run s 0 s \<lparr>u_cs = uri_parser_start, u_mark = None, u_uri = new_Uri\<rparr>) (\<lambda>st.
     bindr (uri_eof s st) (\<lambda>st.
       Inr (if u_cs st = uri_parser_error then None
            else if u_cs st \<ge> uri_parser_first_final then Some (u_uri st) else None)))"

end
