(* ===== verification/UriRows.thy ===== *)
theory UriRows
  imports Uri
begin

text \<open>
  The tables of the Uri parser read as an automaton: one row per state with its single keys, its ranges
  and its transitions, one edge per transition with its target and its actions. The tables are the
  rows laid end to end, so a binary search in them finds what a linear search in the row finds, and
  no read leaves a table.
\<close>

section \<open>Rows and edges\<close>

type_synonym uri_row = "int list \<times> (int \<times> int) list \<times> int list"

definition uri_rows_0 :: "uri_row list" where
  "uri_rows_0 =
    [([], [(48, 57), (65, 70), (97, 102)], [0, 0, 0, 1]),
     ([], [(48, 57), (65, 70), (97, 102)], [2, 2, 2, 1]),
     ([], [(48, 57), (65, 70), (97, 102)], [3, 3, 3, 1]),
     ([], [(48, 57), (65, 70), (97, 102)], [4, 4, 4, 1]),
     ([], [(48, 57), (65, 70), (97, 102)], [5, 5, 5, 1]),
     ([], [(48, 57), (65, 70), (97, 102)], [6, 6, 6, 1]),
     ([], [(48, 57), (65, 70), (97, 102)], [7, 7, 7, 1]),
     ([], [(48, 57), (65, 70), (97, 102)], [8, 8, 8, 1]),
     ([], [(48, 52)], [9, 1]),
     ([], [(48, 57)], [10, 1]),
     ([46], [], [11, 1]),
     ([2, 48, 49, 50], [(51, 57)], [12, 13, 14, 15, 16, 1]),
     ([], [(48, 52)], [17, 1]),
     ([], [(48, 57)], [13, 1]),
     ([46], [], [18, 1]),
     ([2, 48, 49, 50], [(51, 57)], [19, 20, 21, 22, 23, 1]),
     ([], [(48, 52)], [24, 1]),
     ([], [(48, 57)], [20, 1]),
     ([46], [], [25, 1]),
     ([2, 48, 49, 50], [(51, 57)], [26, 27, 28, 29, 30, 1]),
     ([], [(48, 52)], [31, 1]),
     ([], [(48, 57)], [27, 1]),
     ([46], [(48, 57)], [25, 23, 1]),
     ([46], [(48, 57)], [25, 20, 1]),
     ([46, 53], [(48, 57)], [25, 32, 20, 1]),
     ([46], [(48, 53)], [25, 20, 1]),
     ([46], [(48, 57)], [18, 16, 1]),
     ([46], [(48, 57)], [18, 13, 1]),
     ([46, 53], [(48, 57)], [18, 33, 13, 1]),
     ([46], [(48, 53)], [18, 13, 1]),
     ([], [(48, 57), (65, 70), (97, 102)], [34, 34, 34, 1]),
     ([], [(48, 57), (65, 70), (97, 102)], [35, 35, 35, 1]),
     ([33, 37, 61, 64, 95, 126], [(36, 46), (48, 59), (65, 90), (97, 122)], [36, 37, 36, 38, 36, 36, 36, 36, 36, 36, 1]),
     ([], [(48, 57), (65, 70), (97, 102)], [39, 39, 39, 1]),
     ([], [(48, 57), (65, 70), (97, 102)], [36, 36, 36, 1]),
     ([], [(48, 57), (65, 70), (97, 102)], [40, 40, 40, 1]),
     ([], [(48, 57), (65, 70), (97, 102)], [41, 41, 41, 1]),
     ([58, 118], [(48, 57), (65, 70), (97, 102)], [43, 44, 42, 42, 42, 1]),
     ([58], [(48, 57), (65, 70), (97, 102)], [46, 45, 45, 45, 1]),
     ([58], [(48, 57), (65, 70), (97, 102)], [46, 47, 47, 47, 1]),
     ([58], [(48, 57), (65, 70), (97, 102)], [46, 48, 48, 48, 1]),
     ([58], [], [46, 1]),
     ([58], [(48, 57), (65, 70), (97, 102)], [50, 49, 49, 49, 1]),
     ([58], [(48, 57), (65, 70), (97, 102)], [52, 51, 51, 51, 1]),
     ([58], [(48, 57), (65, 70), (97, 102)], [52, 53, 53, 53, 1]),
     ([58], [(48, 57), (65, 70), (97, 102)], [52, 54, 54, 54, 1]),
     ([58], [], [52, 1]),
     ([58], [(48, 57), (65, 70), (97, 102)], [56, 55, 55, 55, 1]),
     ([58], [(48, 57), (65, 70), (97, 102)], [58, 57, 57, 57, 1]),
     ([58], [(48, 57), (65, 70), (97, 102)], [58, 59, 59, 59, 1]),
     ([58], [(48, 57), (65, 70), (97, 102)], [58, 60, 60, 60, 1]),
     ([58], [], [58, 1]),
     ([58], [(48, 57), (65, 70), (97, 102)], [62, 61, 61, 61, 1]),
     ([58], [(48, 57), (65, 70), (97, 102)], [64, 63, 63, 63, 1]),
     ([58], [(48, 57), (65, 70), (97, 102)], [64, 65, 65, 65, 1]),
     ([58], [(48, 57), (65, 70), (97, 102)], [64, 66, 66, 66, 1])]"

definition uri_rows_1 :: "uri_row list" where
  "uri_rows_1 =
    [([58], [], [64, 1]),
     ([58], [(48, 57), (65, 70), (97, 102)], [68, 67, 67, 67, 1]),
     ([58], [(48, 57), (65, 70), (97, 102)], [70, 69, 69, 69, 1]),
     ([58], [(48, 57), (65, 70), (97, 102)], [70, 71, 71, 71, 1]),
     ([58], [(48, 57), (65, 70), (97, 102)], [70, 72, 72, 72, 1]),
     ([58], [], [70, 1]),
     ([58], [(48, 57), (65, 70), (97, 102)], [74, 73, 73, 73, 1]),
     ([58], [(48, 57), (65, 70), (97, 102)], [76, 75, 75, 75, 1]),
     ([58], [(48, 57), (65, 70), (97, 102)], [76, 77, 77, 77, 1]),
     ([58], [(48, 57), (65, 70), (97, 102)], [76, 78, 78, 78, 1]),
     ([58], [], [76, 1]),
     ([2, 48, 49, 50, 58], [(51, 57), (65, 70), (97, 102)], [79, 80, 81, 82, 84, 83, 85, 85, 1]),
     ([], [(48, 52)], [86, 1]),
     ([], [(48, 57)], [87, 1]),
     ([46], [], [88, 1]),
     ([2, 48, 49, 50], [(51, 57)], [89, 90, 91, 92, 93, 1]),
     ([], [(48, 52)], [94, 1]),
     ([], [(48, 57)], [90, 1]),
     ([46], [], [95, 1]),
     ([2, 48, 49, 50], [(51, 57)], [96, 97, 98, 99, 100, 1]),
     ([], [(48, 52)], [101, 1]),
     ([], [(48, 57)], [97, 1]),
     ([46], [], [102, 1]),
     ([2, 48, 49, 50], [(51, 57)], [103, 104, 105, 106, 107, 1]),
     ([], [(48, 52)], [108, 1]),
     ([], [(48, 57)], [104, 1]),
     ([93], [], [27, 1]),
     ([93], [(48, 57)], [27, 107, 1]),
     ([93], [(48, 57)], [27, 104, 1]),
     ([53, 93], [(48, 57)], [109, 27, 104, 1]),
     ([93], [(48, 53)], [27, 104, 1]),
     ([46], [(48, 57)], [102, 100, 1]),
     ([46], [(48, 57)], [102, 97, 1]),
     ([46, 53], [(48, 57)], [102, 110, 97, 1]),
     ([46], [(48, 53)], [102, 97, 1]),
     ([46], [(48, 57)], [95, 93, 1]),
     ([46], [(48, 57)], [95, 90, 1]),
     ([46, 53], [(48, 57)], [95, 111, 90, 1]),
     ([46], [(48, 53)], [95, 90, 1]),
     ([46, 58], [(48, 57), (65, 70), (97, 102)], [88, 113, 112, 112, 112, 1]),
     ([58], [(48, 57), (65, 70), (97, 102)], [113, 114, 114, 114, 1]),
     ([58], [(48, 57), (65, 70), (97, 102)], [113, 115, 115, 115, 1]),
     ([58], [], [113, 1]),
     ([58], [(48, 57), (65, 70), (97, 102)], [104, 116, 116, 116, 1]),
     ([93], [(48, 57), (65, 70), (97, 102)], [27, 117, 117, 117, 1]),
     ([93], [(48, 57), (65, 70), (97, 102)], [27, 118, 118, 118, 1]),
     ([93], [(48, 57), (65, 70), (97, 102)], [27, 104, 104, 104, 1]),
     ([46, 58], [(48, 57), (65, 70), (97, 102)], [88, 113, 119, 112, 112, 1]),
     ([46, 58], [(48, 57), (65, 70), (97, 102)], [88, 113, 120, 114, 114, 1]),
     ([46, 58], [(48, 57), (65, 70), (97, 102)], [88, 113, 115, 115, 115, 1]),
     ([46, 53, 58], [(48, 57), (65, 70), (97, 102)], [88, 122, 113, 121, 112, 112, 1]),
     ([46, 58], [(48, 57), (65, 70), (97, 102)], [88, 113, 114, 114, 114, 1]),
     ([46, 58], [(48, 53), (54, 57), (65, 70), (97, 102)], [88, 113, 120, 114, 114, 114, 1]),
     ([46, 58], [(48, 57), (65, 70), (97, 102)], [88, 113, 121, 112, 112, 1]),
     ([], [(48, 57), (65, 70), (97, 102)], [116, 116, 116, 1]),
     ([58], [(48, 57), (65, 70), (97, 102)], [113, 112, 112, 112, 1])]"

definition uri_rows_2 :: "uri_row list" where
  "uri_rows_2 =
    [([2, 48, 49, 50], [(51, 57), (65, 70), (97, 102)], [79, 123, 124, 125, 126, 127, 127, 1]),
     ([46, 58], [(48, 57), (65, 70), (97, 102)], [88, 84, 128, 128, 128, 1]),
     ([58], [(48, 57), (65, 70), (97, 102)], [84, 129, 129, 129, 1]),
     ([58], [(48, 57), (65, 70), (97, 102)], [84, 130, 130, 130, 1]),
     ([58], [], [84, 1]),
     ([46, 58], [(48, 57), (65, 70), (97, 102)], [88, 84, 131, 128, 128, 1]),
     ([46, 58], [(48, 57), (65, 70), (97, 102)], [88, 84, 132, 129, 129, 1]),
     ([46, 58], [(48, 57), (65, 70), (97, 102)], [88, 84, 130, 130, 130, 1]),
     ([46, 53, 58], [(48, 57), (65, 70), (97, 102)], [88, 134, 84, 133, 128, 128, 1]),
     ([46, 58], [(48, 57), (65, 70), (97, 102)], [88, 84, 129, 129, 129, 1]),
     ([46, 58], [(48, 53), (54, 57), (65, 70), (97, 102)], [88, 84, 132, 129, 129, 129, 1]),
     ([46, 58], [(48, 57), (65, 70), (97, 102)], [88, 84, 133, 128, 128, 1]),
     ([58], [(48, 57), (65, 70), (97, 102)], [84, 128, 128, 128, 1]),
     ([], [(48, 57), (65, 70), (97, 102)], [135, 135, 135, 1]),
     ([58], [(48, 57), (65, 70), (97, 102)], [74, 136, 136, 136, 1]),
     ([58], [(48, 57), (65, 70), (97, 102)], [74, 137, 137, 137, 1]),
     ([58], [(48, 57), (65, 70), (97, 102)], [74, 138, 138, 138, 1]),
     ([58], [], [74, 1]),
     ([], [(48, 57), (65, 70), (97, 102)], [139, 139, 139, 1]),
     ([58], [(48, 57), (65, 70), (97, 102)], [68, 140, 140, 140, 1]),
     ([58], [(48, 57), (65, 70), (97, 102)], [68, 141, 141, 141, 1]),
     ([58], [(48, 57), (65, 70), (97, 102)], [68, 142, 142, 142, 1]),
     ([58], [], [68, 1]),
     ([], [(48, 57), (65, 70), (97, 102)], [143, 143, 143, 1]),
     ([58], [(48, 57), (65, 70), (97, 102)], [62, 144, 144, 144, 1]),
     ([58], [(48, 57), (65, 70), (97, 102)], [62, 145, 145, 145, 1]),
     ([58], [(48, 57), (65, 70), (97, 102)], [62, 146, 146, 146, 1]),
     ([58], [], [62, 1]),
     ([], [(48, 57), (65, 70), (97, 102)], [147, 147, 147, 1]),
     ([58], [(48, 57), (65, 70), (97, 102)], [56, 148, 148, 148, 1]),
     ([58], [(48, 57), (65, 70), (97, 102)], [56, 149, 149, 149, 1]),
     ([58], [(48, 57), (65, 70), (97, 102)], [56, 150, 150, 150, 1]),
     ([58], [], [56, 1]),
     ([58], [], [151, 1]),
     ([2, 48, 49, 50, 93], [(51, 57), (65, 70), (97, 102)], [79, 152, 153, 154, 27, 155, 156, 156, 1]),
     ([46, 58, 93], [(48, 57), (65, 70), (97, 102)], [88, 158, 27, 157, 157, 157, 1]),
     ([58, 93], [(48, 57), (65, 70), (97, 102)], [158, 27, 159, 159, 159, 1]),
     ([58, 93], [(48, 57), (65, 70), (97, 102)], [158, 27, 160, 160, 160, 1]),
     ([58, 93], [], [158, 27, 1]),
     ([2, 48, 49, 50], [(51, 57), (65, 70), (97, 102)], [79, 161, 162, 163, 164, 165, 165, 1]),
     ([46, 58, 93], [(48, 57), (65, 70), (97, 102)], [88, 167, 27, 166, 166, 166, 1]),
     ([58, 93], [(48, 57), (65, 70), (97, 102)], [167, 27, 168, 168, 168, 1]),
     ([58, 93], [(48, 57), (65, 70), (97, 102)], [167, 27, 169, 169, 169, 1]),
     ([58, 93], [], [167, 27, 1]),
     ([2, 48, 49, 50], [(51, 57), (65, 70), (97, 102)], [79, 170, 171, 172, 173, 174, 174, 1]),
     ([46, 58, 93], [(48, 57), (65, 70), (97, 102)], [88, 176, 27, 175, 175, 175, 1]),
     ([58, 93], [(48, 57), (65, 70), (97, 102)], [176, 27, 177, 177, 177, 1]),
     ([58, 93], [(48, 57), (65, 70), (97, 102)], [176, 27, 178, 178, 178, 1]),
     ([58, 93], [], [176, 27, 1]),
     ([2, 48, 49, 50], [(51, 57), (65, 70), (97, 102)], [79, 179, 180, 181, 182, 183, 183, 1]),
     ([46, 58, 93], [(48, 57), (65, 70), (97, 102)], [88, 185, 27, 184, 184, 184, 1]),
     ([58, 93], [(48, 57), (65, 70), (97, 102)], [185, 27, 186, 186, 186, 1]),
     ([58, 93], [(48, 57), (65, 70), (97, 102)], [185, 27, 187, 187, 187, 1]),
     ([58, 93], [], [185, 27, 1]),
     ([2, 48, 49, 50], [(51, 57), (65, 70), (97, 102)], [79, 188, 189, 190, 191, 192, 192, 1]),
     ([46, 58, 93], [(48, 57), (65, 70), (97, 102)], [88, 194, 27, 193, 193, 193, 1])]"

definition uri_rows_3 :: "uri_row list" where
  "uri_rows_3 =
    [([58, 93], [(48, 57), (65, 70), (97, 102)], [194, 27, 195, 195, 195, 1]),
     ([58, 93], [(48, 57), (65, 70), (97, 102)], [194, 27, 196, 196, 196, 1]),
     ([58, 93], [], [194, 27, 1]),
     ([2, 48, 49, 50], [(51, 57), (65, 70), (97, 102)], [79, 197, 198, 199, 200, 201, 201, 1]),
     ([46, 58, 93], [(48, 57), (65, 70), (97, 102)], [88, 84, 27, 202, 202, 202, 1]),
     ([58, 93], [(48, 57), (65, 70), (97, 102)], [84, 27, 203, 203, 203, 1]),
     ([58, 93], [(48, 57), (65, 70), (97, 102)], [84, 27, 204, 204, 204, 1]),
     ([58, 93], [], [84, 27, 1]),
     ([46, 58, 93], [(48, 57), (65, 70), (97, 102)], [88, 84, 27, 205, 202, 202, 1]),
     ([46, 58, 93], [(48, 57), (65, 70), (97, 102)], [88, 84, 27, 206, 203, 203, 1]),
     ([46, 58, 93], [(48, 57), (65, 70), (97, 102)], [88, 84, 27, 204, 204, 204, 1]),
     ([46, 53, 58, 93], [(48, 57), (65, 70), (97, 102)], [88, 208, 84, 27, 207, 202, 202, 1]),
     ([46, 58, 93], [(48, 57), (65, 70), (97, 102)], [88, 84, 27, 203, 203, 203, 1]),
     ([46, 58, 93], [(48, 53), (54, 57), (65, 70), (97, 102)], [88, 84, 27, 206, 203, 203, 203, 1]),
     ([46, 58, 93], [(48, 57), (65, 70), (97, 102)], [88, 84, 27, 207, 202, 202, 1]),
     ([58, 93], [(48, 57), (65, 70), (97, 102)], [84, 27, 202, 202, 202, 1]),
     ([46, 58, 93], [(48, 57), (65, 70), (97, 102)], [88, 194, 27, 209, 193, 193, 1]),
     ([46, 58, 93], [(48, 57), (65, 70), (97, 102)], [88, 194, 27, 210, 195, 195, 1]),
     ([46, 58, 93], [(48, 57), (65, 70), (97, 102)], [88, 194, 27, 196, 196, 196, 1]),
     ([46, 53, 58, 93], [(48, 57), (65, 70), (97, 102)], [88, 212, 194, 27, 211, 193, 193, 1]),
     ([46, 58, 93], [(48, 57), (65, 70), (97, 102)], [88, 194, 27, 195, 195, 195, 1]),
     ([46, 58, 93], [(48, 53), (54, 57), (65, 70), (97, 102)], [88, 194, 27, 210, 195, 195, 195, 1]),
     ([46, 58, 93], [(48, 57), (65, 70), (97, 102)], [88, 194, 27, 211, 193, 193, 1]),
     ([58, 93], [(48, 57), (65, 70), (97, 102)], [194, 27, 193, 193, 193, 1]),
     ([46, 58, 93], [(48, 57), (65, 70), (97, 102)], [88, 185, 27, 213, 184, 184, 1]),
     ([46, 58, 93], [(48, 57), (65, 70), (97, 102)], [88, 185, 27, 214, 186, 186, 1]),
     ([46, 58, 93], [(48, 57), (65, 70), (97, 102)], [88, 185, 27, 187, 187, 187, 1]),
     ([46, 53, 58, 93], [(48, 57), (65, 70), (97, 102)], [88, 216, 185, 27, 215, 184, 184, 1]),
     ([46, 58, 93], [(48, 57), (65, 70), (97, 102)], [88, 185, 27, 186, 186, 186, 1]),
     ([46, 58, 93], [(48, 53), (54, 57), (65, 70), (97, 102)], [88, 185, 27, 214, 186, 186, 186, 1]),
     ([46, 58, 93], [(48, 57), (65, 70), (97, 102)], [88, 185, 27, 215, 184, 184, 1]),
     ([58, 93], [(48, 57), (65, 70), (97, 102)], [185, 27, 184, 184, 184, 1]),
     ([46, 58, 93], [(48, 57), (65, 70), (97, 102)], [88, 176, 27, 217, 175, 175, 1]),
     ([46, 58, 93], [(48, 57), (65, 70), (97, 102)], [88, 176, 27, 218, 177, 177, 1]),
     ([46, 58, 93], [(48, 57), (65, 70), (97, 102)], [88, 176, 27, 178, 178, 178, 1]),
     ([46, 53, 58, 93], [(48, 57), (65, 70), (97, 102)], [88, 220, 176, 27, 219, 175, 175, 1]),
     ([46, 58, 93], [(48, 57), (65, 70), (97, 102)], [88, 176, 27, 177, 177, 177, 1]),
     ([46, 58, 93], [(48, 53), (54, 57), (65, 70), (97, 102)], [88, 176, 27, 218, 177, 177, 177, 1]),
     ([46, 58, 93], [(48, 57), (65, 70), (97, 102)], [88, 176, 27, 219, 175, 175, 1]),
     ([58, 93], [(48, 57), (65, 70), (97, 102)], [176, 27, 175, 175, 175, 1]),
     ([46, 58, 93], [(48, 57), (65, 70), (97, 102)], [88, 167, 27, 221, 166, 166, 1]),
     ([46, 58, 93], [(48, 57), (65, 70), (97, 102)], [88, 167, 27, 222, 168, 168, 1]),
     ([46, 58, 93], [(48, 57), (65, 70), (97, 102)], [88, 167, 27, 169, 169, 169, 1]),
     ([46, 53, 58, 93], [(48, 57), (65, 70), (97, 102)], [88, 224, 167, 27, 223, 166, 166, 1]),
     ([46, 58, 93], [(48, 57), (65, 70), (97, 102)], [88, 167, 27, 168, 168, 168, 1]),
     ([46, 58, 93], [(48, 53), (54, 57), (65, 70), (97, 102)], [88, 167, 27, 222, 168, 168, 168, 1]),
     ([46, 58, 93], [(48, 57), (65, 70), (97, 102)], [88, 167, 27, 223, 166, 166, 1]),
     ([58, 93], [(48, 57), (65, 70), (97, 102)], [167, 27, 166, 166, 166, 1]),
     ([46, 58, 93], [(48, 57), (65, 70), (97, 102)], [88, 158, 27, 225, 157, 157, 1]),
     ([46, 58, 93], [(48, 57), (65, 70), (97, 102)], [88, 158, 27, 226, 159, 159, 1]),
     ([46, 58, 93], [(48, 57), (65, 70), (97, 102)], [88, 158, 27, 160, 160, 160, 1]),
     ([46, 53, 58, 93], [(48, 57), (65, 70), (97, 102)], [88, 228, 158, 27, 227, 157, 157, 1]),
     ([46, 58, 93], [(48, 57), (65, 70), (97, 102)], [88, 158, 27, 159, 159, 159, 1]),
     ([46, 58, 93], [(48, 53), (54, 57), (65, 70), (97, 102)], [88, 158, 27, 226, 159, 159, 159, 1]),
     ([46, 58, 93], [(48, 57), (65, 70), (97, 102)], [88, 158, 27, 227, 157, 157, 1]),
     ([58, 93], [(48, 57), (65, 70), (97, 102)], [158, 27, 157, 157, 157, 1])]"

definition uri_rows_4 :: "uri_row list" where
  "uri_rows_4 =
    [([], [(48, 57), (65, 70), (97, 102)], [229, 229, 229, 1]),
     ([46], [(48, 57), (65, 70), (97, 102)], [230, 229, 229, 229, 1]),
     ([33, 36, 61, 95, 126], [(38, 46), (48, 59), (65, 90), (97, 122)], [231, 231, 231, 231, 231, 231, 231, 231, 231, 1]),
     ([33, 36, 61, 93, 95, 126], [(38, 46), (48, 59), (65, 90), (97, 122)], [231, 231, 231, 27, 231, 231, 231, 231, 231, 231, 1]),
     ([], [(48, 52)], [232, 1]),
     ([], [(48, 57)], [233, 1]),
     ([46], [], [234, 1]),
     ([2, 48, 49, 50], [(51, 57)], [235, 236, 237, 238, 239, 1]),
     ([], [(48, 52)], [240, 1]),
     ([], [(48, 57)], [236, 1]),
     ([46], [], [241, 1]),
     ([2, 48, 49, 50], [(51, 57)], [242, 243, 244, 245, 246, 1]),
     ([], [(48, 52)], [247, 1]),
     ([], [(48, 57)], [243, 1]),
     ([46], [], [248, 1]),
     ([2, 48, 49, 50], [(51, 57)], [249, 250, 251, 252, 253, 1]),
     ([], [(48, 52)], [254, 1]),
     ([], [(48, 57)], [250, 1]),
     ([], [(48, 57), (65, 70), (97, 102)], [255, 255, 255, 1]),
     ([], [(48, 57), (65, 70), (97, 102)], [256, 256, 256, 1]),
     ([46], [(48, 57)], [248, 246, 1]),
     ([46], [(48, 57)], [248, 243, 1]),
     ([46, 53], [(48, 57)], [248, 257, 243, 1]),
     ([46], [(48, 53)], [248, 243, 1]),
     ([46], [(48, 57)], [241, 239, 1]),
     ([46], [(48, 57)], [241, 236, 1]),
     ([46, 53], [(48, 57)], [241, 258, 236, 1]),
     ([46], [(48, 53)], [241, 236, 1]),
     ([], [(48, 57), (65, 70), (97, 102)], [259, 259, 259, 1]),
     ([], [(48, 57), (65, 70), (97, 102)], [260, 260, 260, 1]),
     ([33, 37, 61, 64, 95, 126], [(36, 46), (48, 59), (65, 90), (97, 122)], [261, 262, 261, 263, 261, 261, 261, 261, 261, 261, 1]),
     ([], [(48, 57), (65, 70), (97, 102)], [264, 264, 264, 1]),
     ([], [(48, 57), (65, 70), (97, 102)], [261, 261, 261, 1]),
     ([], [(48, 57), (65, 70), (97, 102)], [265, 265, 265, 1]),
     ([], [(48, 57), (65, 70), (97, 102)], [266, 266, 266, 1]),
     ([58, 118], [(48, 57), (65, 70), (97, 102)], [268, 269, 267, 267, 267, 1]),
     ([58], [(48, 57), (65, 70), (97, 102)], [271, 270, 270, 270, 1]),
     ([58], [(48, 57), (65, 70), (97, 102)], [271, 272, 272, 272, 1]),
     ([58], [(48, 57), (65, 70), (97, 102)], [271, 273, 273, 273, 1]),
     ([58], [], [271, 1]),
     ([58], [(48, 57), (65, 70), (97, 102)], [275, 274, 274, 274, 1]),
     ([58], [(48, 57), (65, 70), (97, 102)], [277, 276, 276, 276, 1]),
     ([58], [(48, 57), (65, 70), (97, 102)], [277, 278, 278, 278, 1]),
     ([58], [(48, 57), (65, 70), (97, 102)], [277, 279, 279, 279, 1]),
     ([58], [], [277, 1]),
     ([58], [(48, 57), (65, 70), (97, 102)], [281, 280, 280, 280, 1]),
     ([58], [(48, 57), (65, 70), (97, 102)], [283, 282, 282, 282, 1]),
     ([58], [(48, 57), (65, 70), (97, 102)], [283, 284, 284, 284, 1]),
     ([58], [(48, 57), (65, 70), (97, 102)], [283, 285, 285, 285, 1]),
     ([58], [], [283, 1]),
     ([58], [(48, 57), (65, 70), (97, 102)], [287, 286, 286, 286, 1]),
     ([58], [(48, 57), (65, 70), (97, 102)], [289, 288, 288, 288, 1]),
     ([58], [(48, 57), (65, 70), (97, 102)], [289, 290, 290, 290, 1]),
     ([58], [(48, 57), (65, 70), (97, 102)], [289, 291, 291, 291, 1]),
     ([58], [], [289, 1]),
     ([58], [(48, 57), (65, 70), (97, 102)], [293, 292, 292, 292, 1])]"

definition uri_rows_5 :: "uri_row list" where
  "uri_rows_5 =
    [([58], [(48, 57), (65, 70), (97, 102)], [295, 294, 294, 294, 1]),
     ([58], [(48, 57), (65, 70), (97, 102)], [295, 296, 296, 296, 1]),
     ([58], [(48, 57), (65, 70), (97, 102)], [295, 297, 297, 297, 1]),
     ([58], [], [295, 1]),
     ([58], [(48, 57), (65, 70), (97, 102)], [299, 298, 298, 298, 1]),
     ([58], [(48, 57), (65, 70), (97, 102)], [301, 300, 300, 300, 1]),
     ([58], [(48, 57), (65, 70), (97, 102)], [301, 302, 302, 302, 1]),
     ([58], [(48, 57), (65, 70), (97, 102)], [301, 303, 303, 303, 1]),
     ([58], [], [301, 1]),
     ([2, 48, 49, 50, 58], [(51, 57), (65, 70), (97, 102)], [304, 305, 306, 307, 309, 308, 310, 310, 1]),
     ([], [(48, 52)], [311, 1]),
     ([], [(48, 57)], [312, 1]),
     ([46], [], [313, 1]),
     ([2, 48, 49, 50], [(51, 57)], [314, 315, 316, 317, 318, 1]),
     ([], [(48, 52)], [319, 1]),
     ([], [(48, 57)], [315, 1]),
     ([46], [], [320, 1]),
     ([2, 48, 49, 50], [(51, 57)], [321, 322, 323, 324, 325, 1]),
     ([], [(48, 52)], [326, 1]),
     ([], [(48, 57)], [322, 1]),
     ([46], [], [327, 1]),
     ([2, 48, 49, 50], [(51, 57)], [328, 329, 330, 331, 332, 1]),
     ([], [(48, 52)], [333, 1]),
     ([], [(48, 57)], [329, 1]),
     ([93], [], [250, 1]),
     ([93], [(48, 57)], [250, 332, 1]),
     ([93], [(48, 57)], [250, 329, 1]),
     ([53, 93], [(48, 57)], [334, 250, 329, 1]),
     ([93], [(48, 53)], [250, 329, 1]),
     ([46], [(48, 57)], [327, 325, 1]),
     ([46], [(48, 57)], [327, 322, 1]),
     ([46, 53], [(48, 57)], [327, 335, 322, 1]),
     ([46], [(48, 53)], [327, 322, 1]),
     ([46], [(48, 57)], [320, 318, 1]),
     ([46], [(48, 57)], [320, 315, 1]),
     ([46, 53], [(48, 57)], [320, 336, 315, 1]),
     ([46], [(48, 53)], [320, 315, 1]),
     ([46, 58], [(48, 57), (65, 70), (97, 102)], [313, 338, 337, 337, 337, 1]),
     ([58], [(48, 57), (65, 70), (97, 102)], [338, 339, 339, 339, 1]),
     ([58], [(48, 57), (65, 70), (97, 102)], [338, 340, 340, 340, 1]),
     ([58], [], [338, 1]),
     ([58], [(48, 57), (65, 70), (97, 102)], [329, 341, 341, 341, 1]),
     ([93], [(48, 57), (65, 70), (97, 102)], [250, 342, 342, 342, 1]),
     ([93], [(48, 57), (65, 70), (97, 102)], [250, 343, 343, 343, 1]),
     ([93], [(48, 57), (65, 70), (97, 102)], [250, 329, 329, 329, 1]),
     ([46, 58], [(48, 57), (65, 70), (97, 102)], [313, 338, 344, 337, 337, 1]),
     ([46, 58], [(48, 57), (65, 70), (97, 102)], [313, 338, 345, 339, 339, 1]),
     ([46, 58], [(48, 57), (65, 70), (97, 102)], [313, 338, 340, 340, 340, 1]),
     ([46, 53, 58], [(48, 57), (65, 70), (97, 102)], [313, 347, 338, 346, 337, 337, 1]),
     ([46, 58], [(48, 57), (65, 70), (97, 102)], [313, 338, 339, 339, 339, 1]),
     ([46, 58], [(48, 53), (54, 57), (65, 70), (97, 102)], [313, 338, 345, 339, 339, 339, 1]),
     ([46, 58], [(48, 57), (65, 70), (97, 102)], [313, 338, 346, 337, 337, 1]),
     ([], [(48, 57), (65, 70), (97, 102)], [341, 341, 341, 1]),
     ([58], [(48, 57), (65, 70), (97, 102)], [338, 337, 337, 337, 1]),
     ([2, 48, 49, 50], [(51, 57), (65, 70), (97, 102)], [304, 348, 349, 350, 351, 352, 352, 1]),
     ([46, 58], [(48, 57), (65, 70), (97, 102)], [313, 309, 353, 353, 353, 1])]"

definition uri_rows_6 :: "uri_row list" where
  "uri_rows_6 =
    [([58], [(48, 57), (65, 70), (97, 102)], [309, 354, 354, 354, 1]),
     ([58], [(48, 57), (65, 70), (97, 102)], [309, 355, 355, 355, 1]),
     ([58], [], [309, 1]),
     ([46, 58], [(48, 57), (65, 70), (97, 102)], [313, 309, 356, 353, 353, 1]),
     ([46, 58], [(48, 57), (65, 70), (97, 102)], [313, 309, 357, 354, 354, 1]),
     ([46, 58], [(48, 57), (65, 70), (97, 102)], [313, 309, 355, 355, 355, 1]),
     ([46, 53, 58], [(48, 57), (65, 70), (97, 102)], [313, 359, 309, 358, 353, 353, 1]),
     ([46, 58], [(48, 57), (65, 70), (97, 102)], [313, 309, 354, 354, 354, 1]),
     ([46, 58], [(48, 53), (54, 57), (65, 70), (97, 102)], [313, 309, 357, 354, 354, 354, 1]),
     ([46, 58], [(48, 57), (65, 70), (97, 102)], [313, 309, 358, 353, 353, 1]),
     ([58], [(48, 57), (65, 70), (97, 102)], [309, 353, 353, 353, 1]),
     ([], [(48, 57), (65, 70), (97, 102)], [360, 360, 360, 1]),
     ([58], [(48, 57), (65, 70), (97, 102)], [299, 361, 361, 361, 1]),
     ([58], [(48, 57), (65, 70), (97, 102)], [299, 362, 362, 362, 1]),
     ([58], [(48, 57), (65, 70), (97, 102)], [299, 363, 363, 363, 1]),
     ([58], [], [299, 1]),
     ([], [(48, 57), (65, 70), (97, 102)], [364, 364, 364, 1]),
     ([58], [(48, 57), (65, 70), (97, 102)], [293, 365, 365, 365, 1]),
     ([58], [(48, 57), (65, 70), (97, 102)], [293, 366, 366, 366, 1]),
     ([58], [(48, 57), (65, 70), (97, 102)], [293, 367, 367, 367, 1]),
     ([58], [], [293, 1]),
     ([], [(48, 57), (65, 70), (97, 102)], [368, 368, 368, 1]),
     ([58], [(48, 57), (65, 70), (97, 102)], [287, 369, 369, 369, 1]),
     ([58], [(48, 57), (65, 70), (97, 102)], [287, 370, 370, 370, 1]),
     ([58], [(48, 57), (65, 70), (97, 102)], [287, 371, 371, 371, 1]),
     ([58], [], [287, 1]),
     ([], [(48, 57), (65, 70), (97, 102)], [372, 372, 372, 1]),
     ([58], [(48, 57), (65, 70), (97, 102)], [281, 373, 373, 373, 1]),
     ([58], [(48, 57), (65, 70), (97, 102)], [281, 374, 374, 374, 1]),
     ([58], [(48, 57), (65, 70), (97, 102)], [281, 375, 375, 375, 1]),
     ([58], [], [281, 1]),
     ([58], [], [376, 1]),
     ([2, 48, 49, 50, 93], [(51, 57), (65, 70), (97, 102)], [304, 377, 378, 379, 250, 380, 381, 381, 1]),
     ([46, 58, 93], [(48, 57), (65, 70), (97, 102)], [313, 383, 250, 382, 382, 382, 1]),
     ([58, 93], [(48, 57), (65, 70), (97, 102)], [383, 250, 384, 384, 384, 1]),
     ([58, 93], [(48, 57), (65, 70), (97, 102)], [383, 250, 385, 385, 385, 1]),
     ([58, 93], [], [383, 250, 1]),
     ([2, 48, 49, 50], [(51, 57), (65, 70), (97, 102)], [304, 386, 387, 388, 389, 390, 390, 1]),
     ([46, 58, 93], [(48, 57), (65, 70), (97, 102)], [313, 392, 250, 391, 391, 391, 1]),
     ([58, 93], [(48, 57), (65, 70), (97, 102)], [392, 250, 393, 393, 393, 1]),
     ([58, 93], [(48, 57), (65, 70), (97, 102)], [392, 250, 394, 394, 394, 1]),
     ([58, 93], [], [392, 250, 1]),
     ([2, 48, 49, 50], [(51, 57), (65, 70), (97, 102)], [304, 395, 396, 397, 398, 399, 399, 1]),
     ([46, 58, 93], [(48, 57), (65, 70), (97, 102)], [313, 401, 250, 400, 400, 400, 1]),
     ([58, 93], [(48, 57), (65, 70), (97, 102)], [401, 250, 402, 402, 402, 1]),
     ([58, 93], [(48, 57), (65, 70), (97, 102)], [401, 250, 403, 403, 403, 1]),
     ([58, 93], [], [401, 250, 1]),
     ([2, 48, 49, 50], [(51, 57), (65, 70), (97, 102)], [304, 404, 405, 406, 407, 408, 408, 1]),
     ([46, 58, 93], [(48, 57), (65, 70), (97, 102)], [313, 410, 250, 409, 409, 409, 1]),
     ([58, 93], [(48, 57), (65, 70), (97, 102)], [410, 250, 411, 411, 411, 1]),
     ([58, 93], [(48, 57), (65, 70), (97, 102)], [410, 250, 412, 412, 412, 1]),
     ([58, 93], [], [410, 250, 1]),
     ([2, 48, 49, 50], [(51, 57), (65, 70), (97, 102)], [304, 413, 414, 415, 416, 417, 417, 1]),
     ([46, 58, 93], [(48, 57), (65, 70), (97, 102)], [313, 419, 250, 418, 418, 418, 1]),
     ([58, 93], [(48, 57), (65, 70), (97, 102)], [419, 250, 420, 420, 420, 1]),
     ([58, 93], [(48, 57), (65, 70), (97, 102)], [419, 250, 421, 421, 421, 1])]"

definition uri_rows_7 :: "uri_row list" where
  "uri_rows_7 =
    [([58, 93], [], [419, 250, 1]),
     ([2, 48, 49, 50], [(51, 57), (65, 70), (97, 102)], [304, 422, 423, 424, 425, 426, 426, 1]),
     ([46, 58, 93], [(48, 57), (65, 70), (97, 102)], [313, 309, 250, 427, 427, 427, 1]),
     ([58, 93], [(48, 57), (65, 70), (97, 102)], [309, 250, 428, 428, 428, 1]),
     ([58, 93], [(48, 57), (65, 70), (97, 102)], [309, 250, 429, 429, 429, 1]),
     ([58, 93], [], [309, 250, 1]),
     ([46, 58, 93], [(48, 57), (65, 70), (97, 102)], [313, 309, 250, 430, 427, 427, 1]),
     ([46, 58, 93], [(48, 57), (65, 70), (97, 102)], [313, 309, 250, 431, 428, 428, 1]),
     ([46, 58, 93], [(48, 57), (65, 70), (97, 102)], [313, 309, 250, 429, 429, 429, 1]),
     ([46, 53, 58, 93], [(48, 57), (65, 70), (97, 102)], [313, 433, 309, 250, 432, 427, 427, 1]),
     ([46, 58, 93], [(48, 57), (65, 70), (97, 102)], [313, 309, 250, 428, 428, 428, 1]),
     ([46, 58, 93], [(48, 53), (54, 57), (65, 70), (97, 102)], [313, 309, 250, 431, 428, 428, 428, 1]),
     ([46, 58, 93], [(48, 57), (65, 70), (97, 102)], [313, 309, 250, 432, 427, 427, 1]),
     ([58, 93], [(48, 57), (65, 70), (97, 102)], [309, 250, 427, 427, 427, 1]),
     ([46, 58, 93], [(48, 57), (65, 70), (97, 102)], [313, 419, 250, 434, 418, 418, 1]),
     ([46, 58, 93], [(48, 57), (65, 70), (97, 102)], [313, 419, 250, 435, 420, 420, 1]),
     ([46, 58, 93], [(48, 57), (65, 70), (97, 102)], [313, 419, 250, 421, 421, 421, 1]),
     ([46, 53, 58, 93], [(48, 57), (65, 70), (97, 102)], [313, 437, 419, 250, 436, 418, 418, 1]),
     ([46, 58, 93], [(48, 57), (65, 70), (97, 102)], [313, 419, 250, 420, 420, 420, 1]),
     ([46, 58, 93], [(48, 53), (54, 57), (65, 70), (97, 102)], [313, 419, 250, 435, 420, 420, 420, 1]),
     ([46, 58, 93], [(48, 57), (65, 70), (97, 102)], [313, 419, 250, 436, 418, 418, 1]),
     ([58, 93], [(48, 57), (65, 70), (97, 102)], [419, 250, 418, 418, 418, 1]),
     ([46, 58, 93], [(48, 57), (65, 70), (97, 102)], [313, 410, 250, 438, 409, 409, 1]),
     ([46, 58, 93], [(48, 57), (65, 70), (97, 102)], [313, 410, 250, 439, 411, 411, 1]),
     ([46, 58, 93], [(48, 57), (65, 70), (97, 102)], [313, 410, 250, 412, 412, 412, 1]),
     ([46, 53, 58, 93], [(48, 57), (65, 70), (97, 102)], [313, 441, 410, 250, 440, 409, 409, 1]),
     ([46, 58, 93], [(48, 57), (65, 70), (97, 102)], [313, 410, 250, 411, 411, 411, 1]),
     ([46, 58, 93], [(48, 53), (54, 57), (65, 70), (97, 102)], [313, 410, 250, 439, 411, 411, 411, 1]),
     ([46, 58, 93], [(48, 57), (65, 70), (97, 102)], [313, 410, 250, 440, 409, 409, 1]),
     ([58, 93], [(48, 57), (65, 70), (97, 102)], [410, 250, 409, 409, 409, 1]),
     ([46, 58, 93], [(48, 57), (65, 70), (97, 102)], [313, 401, 250, 442, 400, 400, 1]),
     ([46, 58, 93], [(48, 57), (65, 70), (97, 102)], [313, 401, 250, 443, 402, 402, 1]),
     ([46, 58, 93], [(48, 57), (65, 70), (97, 102)], [313, 401, 250, 403, 403, 403, 1]),
     ([46, 53, 58, 93], [(48, 57), (65, 70), (97, 102)], [313, 445, 401, 250, 444, 400, 400, 1]),
     ([46, 58, 93], [(48, 57), (65, 70), (97, 102)], [313, 401, 250, 402, 402, 402, 1]),
     ([46, 58, 93], [(48, 53), (54, 57), (65, 70), (97, 102)], [313, 401, 250, 443, 402, 402, 402, 1]),
     ([46, 58, 93], [(48, 57), (65, 70), (97, 102)], [313, 401, 250, 444, 400, 400, 1]),
     ([58, 93], [(48, 57), (65, 70), (97, 102)], [401, 250, 400, 400, 400, 1]),
     ([46, 58, 93], [(48, 57), (65, 70), (97, 102)], [313, 392, 250, 446, 391, 391, 1]),
     ([46, 58, 93], [(48, 57), (65, 70), (97, 102)], [313, 392, 250, 447, 393, 393, 1]),
     ([46, 58, 93], [(48, 57), (65, 70), (97, 102)], [313, 392, 250, 394, 394, 394, 1]),
     ([46, 53, 58, 93], [(48, 57), (65, 70), (97, 102)], [313, 449, 392, 250, 448, 391, 391, 1]),
     ([46, 58, 93], [(48, 57), (65, 70), (97, 102)], [313, 392, 250, 393, 393, 393, 1]),
     ([46, 58, 93], [(48, 53), (54, 57), (65, 70), (97, 102)], [313, 392, 250, 447, 393, 393, 393, 1]),
     ([46, 58, 93], [(48, 57), (65, 70), (97, 102)], [313, 392, 250, 448, 391, 391, 1]),
     ([58, 93], [(48, 57), (65, 70), (97, 102)], [392, 250, 391, 391, 391, 1]),
     ([46, 58, 93], [(48, 57), (65, 70), (97, 102)], [313, 383, 250, 450, 382, 382, 1]),
     ([46, 58, 93], [(48, 57), (65, 70), (97, 102)], [313, 383, 250, 451, 384, 384, 1]),
     ([46, 58, 93], [(48, 57), (65, 70), (97, 102)], [313, 383, 250, 385, 385, 385, 1]),
     ([46, 53, 58, 93], [(48, 57), (65, 70), (97, 102)], [313, 453, 383, 250, 452, 382, 382, 1]),
     ([46, 58, 93], [(48, 57), (65, 70), (97, 102)], [313, 383, 250, 384, 384, 384, 1]),
     ([46, 58, 93], [(48, 53), (54, 57), (65, 70), (97, 102)], [313, 383, 250, 451, 384, 384, 384, 1]),
     ([46, 58, 93], [(48, 57), (65, 70), (97, 102)], [313, 383, 250, 452, 382, 382, 1]),
     ([58, 93], [(48, 57), (65, 70), (97, 102)], [383, 250, 382, 382, 382, 1]),
     ([], [(48, 57), (65, 70), (97, 102)], [454, 454, 454, 1]),
     ([46], [(48, 57), (65, 70), (97, 102)], [455, 454, 454, 454, 1])]"

definition uri_rows_8 :: "uri_row list" where
  "uri_rows_8 =
    [([33, 36, 61, 95, 126], [(38, 46), (48, 59), (65, 90), (97, 122)], [456, 456, 456, 456, 456, 456, 456, 456, 456, 1]),
     ([33, 36, 61, 93, 95, 126], [(38, 46), (48, 59), (65, 90), (97, 122)], [456, 456, 456, 250, 456, 456, 456, 456, 456, 456, 1]),
     ([34, 35, 37, 47, 58, 60, 62, 63, 96, 127], [(0, 32), (65, 90), (91, 94), (97, 122), (123, 125)], [1, 457, 458, 459, 1, 1, 1, 460, 1, 1, 1, 461, 1, 461, 1, 4]),
     ([34, 35, 37, 47, 58, 60, 62, 63, 96, 127], [(0, 32), (91, 94), (123, 125)], [1, 457, 458, 6, 1, 1, 1, 460, 1, 1, 1, 1, 1, 4]),
     ([37, 60, 62, 96, 127], [(0, 32), (34, 35), (91, 94), (123, 125)], [463, 1, 1, 1, 1, 1, 1, 1, 1, 462]),
     ([37, 60, 62, 96, 127], [(0, 32), (34, 35), (91, 94), (123, 125)], [464, 1, 1, 1, 1, 1, 1, 1, 1, 2]),
     ([34, 35, 37, 60, 62, 63, 96, 127], [(0, 32), (91, 94), (123, 125)], [1, 457, 465, 1, 1, 460, 1, 1, 1, 1, 1, 6]),
     ([34, 35, 37, 60, 62, 96, 127], [(0, 32), (91, 94), (123, 125)], [1, 467, 468, 1, 1, 1, 1, 1, 1, 1, 466]),
     ([34, 35, 37, 60, 62, 96, 127], [(0, 32), (91, 94), (123, 125)], [1, 469, 470, 1, 1, 1, 1, 1, 1, 1, 8]),
     ([34, 35, 37, 47, 60, 62, 63, 96, 127], [(0, 32), (91, 94), (123, 125)], [1, 457, 465, 471, 1, 1, 460, 1, 1, 1, 1, 1, 6]),
     ([2, 33, 35, 37, 47, 48, 49, 50, 58, 59, 61, 63, 64, 91, 95, 126], [(36, 46), (51, 57), (65, 90), (97, 122)], [472, 473, 474, 475, 476, 477, 478, 479, 481, 473, 473, 482, 483, 484, 473, 473, 473, 480, 473, 473, 1]),
     ([35, 47, 58, 63], [], [485, 486, 487, 488, 1]),
     ([35, 47, 63], [(48, 57)], [489, 490, 492, 491, 1]),
     ([35, 47, 63], [(48, 57)], [493, 494, 496, 495, 1]),
     ([35, 47, 58, 63], [(48, 57)], [485, 486, 487, 488, 30, 1]),
     ([35, 47, 58, 63], [(48, 57)], [485, 486, 487, 488, 27, 1]),
     ([35, 47, 53, 58, 63], [(48, 57)], [485, 486, 497, 487, 488, 27, 1]),
     ([35, 47, 58, 63], [(48, 53)], [485, 486, 487, 488, 27, 1]),
     ([33, 35, 37, 47, 58, 61, 63, 64, 95, 126], [(36, 59), (65, 90), (97, 122)], [35, 485, 498, 486, 499, 35, 488, 38, 35, 35, 35, 35, 35, 1]),
     ([33, 35, 37, 47, 61, 63, 64, 95, 126], [(36, 46), (48, 57), (58, 59), (65, 90), (97, 122)], [36, 489, 37, 490, 36, 492, 38, 36, 36, 36, 500, 36, 36, 36, 1]),
     ([2, 33, 35, 37, 47, 48, 49, 50, 58, 59, 61, 63, 91, 95, 126], [(36, 46), (51, 57), (65, 90), (97, 122)], [472, 501, 474, 502, 476, 503, 504, 505, 507, 501, 501, 482, 484, 501, 501, 501, 506, 501, 501, 1]),
     ([33, 35, 37, 47, 58, 61, 63, 95, 126], [(36, 59), (65, 90), (97, 122)], [41, 485, 508, 486, 487, 41, 488, 41, 41, 41, 41, 41, 1]),
     ([33, 35, 37, 46, 47, 58, 61, 63, 95, 126], [(36, 59), (65, 90), (97, 122)], [41, 485, 508, 509, 486, 487, 41, 488, 41, 41, 41, 41, 41, 1]),
     ([2, 33, 35, 37, 47, 48, 49, 50, 58, 59, 61, 63, 95, 126], [(36, 46), (51, 57), (65, 90), (97, 122)], [12, 41, 485, 508, 486, 510, 511, 512, 487, 41, 41, 488, 41, 41, 41, 513, 41, 41, 1]),
     ([33, 35, 37, 46, 47, 58, 61, 63, 95, 126], [(36, 59), (65, 90), (97, 122)], [41, 485, 508, 514, 486, 487, 41, 488, 41, 41, 41, 41, 41, 1]),
     ([2, 33, 35, 37, 47, 48, 49, 50, 58, 59, 61, 63, 95, 126], [(36, 46), (51, 57), (65, 90), (97, 122)], [19, 41, 485, 508, 486, 515, 516, 517, 487, 41, 41, 488, 41, 41, 41, 518, 41, 41, 1]),
     ([33, 35, 37, 46, 47, 58, 61, 63, 95, 126], [(36, 59), (65, 90), (97, 122)], [41, 485, 508, 519, 486, 487, 41, 488, 41, 41, 41, 41, 41, 1]),
     ([2, 33, 35, 37, 47, 58, 61, 63, 95, 126], [(36, 59), (65, 90), (97, 122)], [26, 41, 485, 508, 486, 487, 41, 488, 41, 41, 41, 41, 41, 1]),
     ([33, 35, 37, 46, 47, 58, 59, 61, 63, 95, 126], [(36, 45), (48, 57), (65, 90), (97, 122)], [41, 485, 508, 519, 486, 487, 41, 41, 488, 41, 41, 41, 518, 41, 41, 1]),
     ([33, 35, 37, 46, 47, 58, 59, 61, 63, 95, 126], [(36, 45), (48, 57), (65, 90), (97, 122)], [41, 485, 508, 519, 486, 487, 41, 41, 488, 41, 41, 41, 515, 41, 41, 1]),
     ([33, 35, 37, 46, 47, 53, 58, 59, 61, 63, 95, 126], [(36, 45), (48, 57), (65, 90), (97, 122)], [41, 485, 508, 519, 486, 520, 487, 41, 41, 488, 41, 41, 41, 515, 41, 41, 1]),
     ([33, 35, 37, 46, 47, 58, 61, 63, 95, 126], [(36, 45), (48, 53), (54, 59), (65, 90), (97, 122)], [41, 485, 508, 519, 486, 487, 41, 488, 41, 41, 41, 515, 41, 41, 41, 1]),
     ([33, 35, 37, 46, 47, 58, 59, 61, 63, 95, 126], [(36, 45), (48, 57), (65, 90), (97, 122)], [41, 485, 508, 514, 486, 487, 41, 41, 488, 41, 41, 41, 513, 41, 41, 1]),
     ([33, 35, 37, 46, 47, 58, 59, 61, 63, 95, 126], [(36, 45), (48, 57), (65, 90), (97, 122)], [41, 485, 508, 514, 486, 487, 41, 41, 488, 41, 41, 41, 510, 41, 41, 1]),
     ([33, 35, 37, 46, 47, 53, 58, 59, 61, 63, 95, 126], [(36, 45), (48, 57), (65, 90), (97, 122)], [41, 485, 508, 514, 486, 521, 487, 41, 41, 488, 41, 41, 41, 510, 41, 41, 1]),
     ([33, 35, 37, 46, 47, 58, 61, 63, 95, 126], [(36, 45), (48, 53), (54, 59), (65, 90), (97, 122)], [41, 485, 508, 514, 486, 487, 41, 488, 41, 41, 41, 510, 41, 41, 41, 1]),
     ([33, 35, 37, 46, 47, 58, 59, 61, 63, 95, 126], [(36, 45), (48, 57), (65, 90), (97, 122)], [41, 485, 508, 509, 486, 487, 41, 41, 488, 41, 41, 41, 522, 41, 41, 1]),
     ([33, 35, 37, 46, 47, 58, 59, 61, 63, 95, 126], [(36, 45), (48, 57), (65, 90), (97, 122)], [41, 485, 508, 509, 486, 487, 41, 41, 488, 41, 41, 41, 523, 41, 41, 1]),
     ([33, 35, 37, 46, 47, 53, 58, 59, 61, 63, 95, 126], [(36, 45), (48, 57), (65, 90), (97, 122)], [41, 485, 508, 509, 486, 524, 487, 41, 41, 488, 41, 41, 41, 523, 41, 41, 1]),
     ([33, 35, 37, 46, 47, 58, 61, 63, 95, 126], [(36, 45), (48, 53), (54, 59), (65, 90), (97, 122)], [41, 485, 508, 509, 486, 487, 41, 488, 41, 41, 41, 523, 41, 41, 41, 1]),
     ([33, 35, 37, 47, 61, 63, 64, 95, 126], [(36, 46), (48, 57), (58, 59), (65, 90), (97, 122)], [36, 493, 37, 494, 36, 496, 38, 36, 36, 36, 525, 36, 36, 36, 1]),
     ([33, 35, 37, 46, 47, 58, 61, 63, 64, 95, 126], [(36, 59), (65, 90), (97, 122)], [35, 485, 498, 526, 486, 499, 35, 488, 38, 35, 35, 35, 35, 35, 1]),
     ([2, 33, 35, 37, 47, 48, 49, 50, 58, 59, 61, 63, 64, 95, 126], [(36, 46), (51, 57), (65, 90), (97, 122)], [12, 35, 485, 498, 486, 527, 528, 529, 499, 35, 35, 488, 38, 35, 35, 35, 530, 35, 35, 1]),
     ([33, 35, 37, 46, 47, 58, 61, 63, 64, 95, 126], [(36, 59), (65, 90), (97, 122)], [35, 485, 498, 531, 486, 499, 35, 488, 38, 35, 35, 35, 35, 35, 1]),
     ([2, 33, 35, 37, 47, 48, 49, 50, 58, 59, 61, 63, 64, 95, 126], [(36, 46), (51, 57), (65, 90), (97, 122)], [19, 35, 485, 498, 486, 532, 533, 534, 499, 35, 35, 488, 38, 35, 35, 35, 535, 35, 35, 1]),
     ([33, 35, 37, 46, 47, 58, 61, 63, 64, 95, 126], [(36, 59), (65, 90), (97, 122)], [35, 485, 498, 536, 486, 499, 35, 488, 38, 35, 35, 35, 35, 35, 1]),
     ([2, 33, 35, 37, 47, 58, 61, 63, 64, 95, 126], [(36, 59), (65, 90), (97, 122)], [26, 35, 485, 498, 486, 499, 35, 488, 38, 35, 35, 35, 35, 35, 1]),
     ([33, 35, 37, 46, 47, 58, 59, 61, 63, 64, 95, 126], [(36, 45), (48, 57), (65, 90), (97, 122)], [35, 485, 498, 536, 486, 499, 35, 35, 488, 38, 35, 35, 35, 535, 35, 35, 1]),
     ([33, 35, 37, 46, 47, 58, 59, 61, 63, 64, 95, 126], [(36, 45), (48, 57), (65, 90), (97, 122)], [35, 485, 498, 536, 486, 499, 35, 35, 488, 38, 35, 35, 35, 532, 35, 35, 1]),
     ([33, 35, 37, 46, 47, 53, 58, 59, 61, 63, 64, 95, 126], [(36, 45), (48, 57), (65, 90), (97, 122)], [35, 485, 498, 536, 486, 537, 499, 35, 35, 488, 38, 35, 35, 35, 532, 35, 35, 1]),
     ([33, 35, 37, 46, 47, 58, 61, 63, 64, 95, 126], [(36, 45), (48, 53), (54, 59), (65, 90), (97, 122)], [35, 485, 498, 536, 486, 499, 35, 488, 38, 35, 35, 35, 532, 35, 35, 35, 1]),
     ([33, 35, 37, 46, 47, 58, 59, 61, 63, 64, 95, 126], [(36, 45), (48, 57), (65, 90), (97, 122)], [35, 485, 498, 531, 486, 499, 35, 35, 488, 38, 35, 35, 35, 530, 35, 35, 1]),
     ([33, 35, 37, 46, 47, 58, 59, 61, 63, 64, 95, 126], [(36, 45), (48, 57), (65, 90), (97, 122)], [35, 485, 498, 531, 486, 499, 35, 35, 488, 38, 35, 35, 35, 527, 35, 35, 1]),
     ([33, 35, 37, 46, 47, 53, 58, 59, 61, 63, 64, 95, 126], [(36, 45), (48, 57), (65, 90), (97, 122)], [35, 485, 498, 531, 486, 538, 499, 35, 35, 488, 38, 35, 35, 35, 527, 35, 35, 1]),
     ([33, 35, 37, 46, 47, 58, 61, 63, 64, 95, 126], [(36, 45), (48, 53), (54, 59), (65, 90), (97, 122)], [35, 485, 498, 531, 486, 499, 35, 488, 38, 35, 35, 35, 527, 35, 35, 35, 1]),
     ([33, 35, 37, 46, 47, 58, 59, 61, 63, 64, 95, 126], [(36, 45), (48, 57), (65, 90), (97, 122)], [35, 485, 498, 526, 486, 499, 35, 35, 488, 38, 35, 35, 35, 539, 35, 35, 1])]"

definition uri_rows_9 :: "uri_row list" where
  "uri_rows_9 =
    [([33, 35, 37, 46, 47, 58, 59, 61, 63, 64, 95, 126], [(36, 45), (48, 57), (65, 90), (97, 122)], [35, 485, 498, 526, 486, 499, 35, 35, 488, 38, 35, 35, 35, 540, 35, 35, 1]),
     ([33, 35, 37, 46, 47, 53, 58, 59, 61, 63, 64, 95, 126], [(36, 45), (48, 57), (65, 90), (97, 122)], [35, 485, 498, 526, 486, 541, 499, 35, 35, 488, 38, 35, 35, 35, 540, 35, 35, 1]),
     ([33, 35, 37, 46, 47, 58, 61, 63, 64, 95, 126], [(36, 45), (48, 53), (54, 59), (65, 90), (97, 122)], [35, 485, 498, 526, 486, 499, 35, 488, 38, 35, 35, 35, 540, 35, 35, 35, 1]),
     ([34, 35, 37, 43, 47, 58, 60, 62, 63, 96, 127], [(0, 32), (45, 57), (65, 90), (91, 94), (97, 122), (123, 125)], [1, 457, 458, 542, 6, 543, 1, 1, 460, 1, 1, 1, 542, 542, 1, 542, 1, 4]),
     ([34, 35, 37, 47, 60, 62, 63, 96, 127], [(0, 32), (91, 94), (123, 125)], [1, 457, 465, 544, 1, 1, 460, 1, 1, 1, 1, 1, 6]),
     ([34, 35, 37, 47, 60, 62, 63, 96, 127], [(0, 32), (91, 94), (123, 125)], [1, 457, 465, 545, 1, 1, 460, 1, 1, 1, 1, 1, 6]),
     ([2, 33, 35, 37, 47, 48, 49, 50, 58, 59, 61, 63, 64, 91, 95, 126], [(36, 46), (51, 57), (65, 90), (97, 122)], [546, 547, 548, 549, 550, 551, 552, 553, 555, 547, 547, 556, 557, 558, 547, 547, 547, 554, 547, 547, 1]),
     ([35, 47, 58, 63], [], [559, 560, 561, 562, 1]),
     ([34, 35, 37, 60, 62, 63, 96, 127], [(0, 32), (91, 94), (123, 125)], [1, 563, 564, 1, 1, 565, 1, 1, 1, 1, 1, 256]),
     ([35, 47, 63], [(48, 57)], [566, 567, 569, 568, 1]),
     ([35, 47, 63], [(48, 57)], [570, 571, 573, 572, 1]),
     ([35, 47, 58, 63], [(48, 57)], [559, 560, 561, 562, 253, 1]),
     ([35, 47, 58, 63], [(48, 57)], [559, 560, 561, 562, 250, 1]),
     ([35, 47, 53, 58, 63], [(48, 57)], [559, 560, 574, 561, 562, 250, 1]),
     ([35, 47, 58, 63], [(48, 53)], [559, 560, 561, 562, 250, 1]),
     ([33, 35, 37, 47, 58, 61, 63, 64, 95, 126], [(36, 59), (65, 90), (97, 122)], [260, 559, 575, 560, 576, 260, 562, 263, 260, 260, 260, 260, 260, 1]),
     ([33, 35, 37, 47, 61, 63, 64, 95, 126], [(36, 46), (48, 57), (58, 59), (65, 90), (97, 122)], [261, 566, 262, 567, 261, 569, 263, 261, 261, 261, 577, 261, 261, 261, 1]),
     ([2, 33, 35, 37, 47, 48, 49, 50, 58, 59, 61, 63, 91, 95, 126], [(36, 46), (51, 57), (65, 90), (97, 122)], [546, 578, 548, 579, 550, 580, 581, 582, 584, 578, 578, 556, 558, 578, 578, 578, 583, 578, 578, 1]),
     ([33, 35, 37, 47, 58, 61, 63, 95, 126], [(36, 59), (65, 90), (97, 122)], [266, 559, 585, 560, 561, 266, 562, 266, 266, 266, 266, 266, 1]),
     ([33, 35, 37, 46, 47, 58, 61, 63, 95, 126], [(36, 59), (65, 90), (97, 122)], [266, 559, 585, 586, 560, 561, 266, 562, 266, 266, 266, 266, 266, 1]),
     ([2, 33, 35, 37, 47, 48, 49, 50, 58, 59, 61, 63, 95, 126], [(36, 46), (51, 57), (65, 90), (97, 122)], [235, 266, 559, 585, 560, 587, 588, 589, 561, 266, 266, 562, 266, 266, 266, 590, 266, 266, 1]),
     ([33, 35, 37, 46, 47, 58, 61, 63, 95, 126], [(36, 59), (65, 90), (97, 122)], [266, 559, 585, 591, 560, 561, 266, 562, 266, 266, 266, 266, 266, 1]),
     ([2, 33, 35, 37, 47, 48, 49, 50, 58, 59, 61, 63, 95, 126], [(36, 46), (51, 57), (65, 90), (97, 122)], [242, 266, 559, 585, 560, 592, 593, 594, 561, 266, 266, 562, 266, 266, 266, 595, 266, 266, 1]),
     ([33, 35, 37, 46, 47, 58, 61, 63, 95, 126], [(36, 59), (65, 90), (97, 122)], [266, 559, 585, 596, 560, 561, 266, 562, 266, 266, 266, 266, 266, 1]),
     ([2, 33, 35, 37, 47, 58, 61, 63, 95, 126], [(36, 59), (65, 90), (97, 122)], [249, 266, 559, 585, 560, 561, 266, 562, 266, 266, 266, 266, 266, 1]),
     ([33, 35, 37, 46, 47, 58, 59, 61, 63, 95, 126], [(36, 45), (48, 57), (65, 90), (97, 122)], [266, 559, 585, 596, 560, 561, 266, 266, 562, 266, 266, 266, 595, 266, 266, 1]),
     ([33, 35, 37, 46, 47, 58, 59, 61, 63, 95, 126], [(36, 45), (48, 57), (65, 90), (97, 122)], [266, 559, 585, 596, 560, 561, 266, 266, 562, 266, 266, 266, 592, 266, 266, 1]),
     ([33, 35, 37, 46, 47, 53, 58, 59, 61, 63, 95, 126], [(36, 45), (48, 57), (65, 90), (97, 122)], [266, 559, 585, 596, 560, 597, 561, 266, 266, 562, 266, 266, 266, 592, 266, 266, 1]),
     ([33, 35, 37, 46, 47, 58, 61, 63, 95, 126], [(36, 45), (48, 53), (54, 59), (65, 90), (97, 122)], [266, 559, 585, 596, 560, 561, 266, 562, 266, 266, 266, 592, 266, 266, 266, 1]),
     ([33, 35, 37, 46, 47, 58, 59, 61, 63, 95, 126], [(36, 45), (48, 57), (65, 90), (97, 122)], [266, 559, 585, 591, 560, 561, 266, 266, 562, 266, 266, 266, 590, 266, 266, 1]),
     ([33, 35, 37, 46, 47, 58, 59, 61, 63, 95, 126], [(36, 45), (48, 57), (65, 90), (97, 122)], [266, 559, 585, 591, 560, 561, 266, 266, 562, 266, 266, 266, 587, 266, 266, 1]),
     ([33, 35, 37, 46, 47, 53, 58, 59, 61, 63, 95, 126], [(36, 45), (48, 57), (65, 90), (97, 122)], [266, 559, 585, 591, 560, 598, 561, 266, 266, 562, 266, 266, 266, 587, 266, 266, 1]),
     ([33, 35, 37, 46, 47, 58, 61, 63, 95, 126], [(36, 45), (48, 53), (54, 59), (65, 90), (97, 122)], [266, 559, 585, 591, 560, 561, 266, 562, 266, 266, 266, 587, 266, 266, 266, 1]),
     ([33, 35, 37, 46, 47, 58, 59, 61, 63, 95, 126], [(36, 45), (48, 57), (65, 90), (97, 122)], [266, 559, 585, 586, 560, 561, 266, 266, 562, 266, 266, 266, 599, 266, 266, 1]),
     ([33, 35, 37, 46, 47, 58, 59, 61, 63, 95, 126], [(36, 45), (48, 57), (65, 90), (97, 122)], [266, 559, 585, 586, 560, 561, 266, 266, 562, 266, 266, 266, 600, 266, 266, 1]),
     ([33, 35, 37, 46, 47, 53, 58, 59, 61, 63, 95, 126], [(36, 45), (48, 57), (65, 90), (97, 122)], [266, 559, 585, 586, 560, 601, 561, 266, 266, 562, 266, 266, 266, 600, 266, 266, 1]),
     ([33, 35, 37, 46, 47, 58, 61, 63, 95, 126], [(36, 45), (48, 53), (54, 59), (65, 90), (97, 122)], [266, 559, 585, 586, 560, 561, 266, 562, 266, 266, 266, 600, 266, 266, 266, 1]),
     ([33, 35, 37, 47, 61, 63, 64, 95, 126], [(36, 46), (48, 57), (58, 59), (65, 90), (97, 122)], [261, 570, 262, 571, 261, 573, 263, 261, 261, 261, 602, 261, 261, 261, 1]),
     ([33, 35, 37, 46, 47, 58, 61, 63, 64, 95, 126], [(36, 59), (65, 90), (97, 122)], [260, 559, 575, 603, 560, 576, 260, 562, 263, 260, 260, 260, 260, 260, 1]),
     ([2, 33, 35, 37, 47, 48, 49, 50, 58, 59, 61, 63, 64, 95, 126], [(36, 46), (51, 57), (65, 90), (97, 122)], [235, 260, 559, 575, 560, 604, 605, 606, 576, 260, 260, 562, 263, 260, 260, 260, 607, 260, 260, 1]),
     ([33, 35, 37, 46, 47, 58, 61, 63, 64, 95, 126], [(36, 59), (65, 90), (97, 122)], [260, 559, 575, 608, 560, 576, 260, 562, 263, 260, 260, 260, 260, 260, 1]),
     ([2, 33, 35, 37, 47, 48, 49, 50, 58, 59, 61, 63, 64, 95, 126], [(36, 46), (51, 57), (65, 90), (97, 122)], [242, 260, 559, 575, 560, 609, 610, 611, 576, 260, 260, 562, 263, 260, 260, 260, 612, 260, 260, 1]),
     ([33, 35, 37, 46, 47, 58, 61, 63, 64, 95, 126], [(36, 59), (65, 90), (97, 122)], [260, 559, 575, 613, 560, 576, 260, 562, 263, 260, 260, 260, 260, 260, 1]),
     ([2, 33, 35, 37, 47, 58, 61, 63, 64, 95, 126], [(36, 59), (65, 90), (97, 122)], [249, 260, 559, 575, 560, 576, 260, 562, 263, 260, 260, 260, 260, 260, 1]),
     ([33, 35, 37, 46, 47, 58, 59, 61, 63, 64, 95, 126], [(36, 45), (48, 57), (65, 90), (97, 122)], [260, 559, 575, 613, 560, 576, 260, 260, 562, 263, 260, 260, 260, 612, 260, 260, 1]),
     ([33, 35, 37, 46, 47, 58, 59, 61, 63, 64, 95, 126], [(36, 45), (48, 57), (65, 90), (97, 122)], [260, 559, 575, 613, 560, 576, 260, 260, 562, 263, 260, 260, 260, 609, 260, 260, 1]),
     ([33, 35, 37, 46, 47, 53, 58, 59, 61, 63, 64, 95, 126], [(36, 45), (48, 57), (65, 90), (97, 122)], [260, 559, 575, 613, 560, 614, 576, 260, 260, 562, 263, 260, 260, 260, 609, 260, 260, 1]),
     ([33, 35, 37, 46, 47, 58, 61, 63, 64, 95, 126], [(36, 45), (48, 53), (54, 59), (65, 90), (97, 122)], [260, 559, 575, 613, 560, 576, 260, 562, 263, 260, 260, 260, 609, 260, 260, 260, 1]),
     ([33, 35, 37, 46, 47, 58, 59, 61, 63, 64, 95, 126], [(36, 45), (48, 57), (65, 90), (97, 122)], [260, 559, 575, 608, 560, 576, 260, 260, 562, 263, 260, 260, 260, 607, 260, 260, 1]),
     ([33, 35, 37, 46, 47, 58, 59, 61, 63, 64, 95, 126], [(36, 45), (48, 57), (65, 90), (97, 122)], [260, 559, 575, 608, 560, 576, 260, 260, 562, 263, 260, 260, 260, 604, 260, 260, 1]),
     ([33, 35, 37, 46, 47, 53, 58, 59, 61, 63, 64, 95, 126], [(36, 45), (48, 57), (65, 90), (97, 122)], [260, 559, 575, 608, 560, 615, 576, 260, 260, 562, 263, 260, 260, 260, 604, 260, 260, 1]),
     ([33, 35, 37, 46, 47, 58, 61, 63, 64, 95, 126], [(36, 45), (48, 53), (54, 59), (65, 90), (97, 122)], [260, 559, 575, 608, 560, 576, 260, 562, 263, 260, 260, 260, 604, 260, 260, 260, 1]),
     ([33, 35, 37, 46, 47, 58, 59, 61, 63, 64, 95, 126], [(36, 45), (48, 57), (65, 90), (97, 122)], [260, 559, 575, 603, 560, 576, 260, 260, 562, 263, 260, 260, 260, 616, 260, 260, 1]),
     ([33, 35, 37, 46, 47, 58, 59, 61, 63, 64, 95, 126], [(36, 45), (48, 57), (65, 90), (97, 122)], [260, 559, 575, 603, 560, 576, 260, 260, 562, 263, 260, 260, 260, 617, 260, 260, 1]),
     ([33, 35, 37, 46, 47, 53, 58, 59, 61, 63, 64, 95, 126], [(36, 45), (48, 57), (65, 90), (97, 122)], [260, 559, 575, 603, 560, 618, 576, 260, 260, 562, 263, 260, 260, 260, 617, 260, 260, 1]),
     ([33, 35, 37, 46, 47, 58, 61, 63, 64, 95, 126], [(36, 45), (48, 53), (54, 59), (65, 90), (97, 122)], [260, 559, 575, 603, 560, 576, 260, 562, 263, 260, 260, 260, 617, 260, 260, 260, 1])]"

definition uri_rows :: "uri_row list" where
  "uri_rows = uri_rows_0 @ uri_rows_1 @ uri_rows_2 @ uri_rows_3 @ uri_rows_4 @ uri_rows_5 @ uri_rows_6 @ uri_rows_7 @ uri_rows_8 @ uri_rows_9"

lemmas uri_rows_parts = uri_rows_0_def uri_rows_1_def uri_rows_2_def uri_rows_3_def uri_rows_4_def uri_rows_5_def uri_rows_6_def uri_rows_7_def uri_rows_8_def uri_rows_9_def

definition uri_edge :: "int \<Rightarrow> int \<times> int" where
  "uri_edge t =
    (if t < 309 then
     (if t < 154 then
      (if t < 77 then
       (if t < 38 then
        (if t < 19 then
         (if t < 9 then
          (if t < 4 then
           (if t < 2 then (if t < 1 then (2, 0) else (0, 0)) else (if t < 3 then (454, 0) else (4, 0)))
           else (if t < 6 then
            (if t < 5 then (452, 0) else (6, 0))
            else (if t < 7 then (455, 0) else (if t < 8 then (8, 0) else (457, 0)))))
          else (if t < 14 then
           (if t < 11 then
            (if t < 10 then (10, 0) else (11, 0))
            else (if t < 12 then (12, 0) else (if t < 13 then (13, 0) else (15, 0))))
           else (if t < 16 then
            (if t < 15 then (27, 0) else (29, 0))
            else (if t < 17 then (28, 0) else (if t < 18 then (14, 0) else (16, 0))))))
         else (if t < 28 then
          (if t < 23 then
           (if t < 21 then (if t < 20 then (17, 0) else (19, 0)) else (if t < 22 then (23, 0) else (25, 0)))
           else (if t < 25 then
            (if t < 24 then (24, 0) else (18, 0))
            else (if t < 26 then (20, 0) else (if t < 27 then (21, 0) else (460, 0)))))
          else (if t < 33 then
           (if t < 30 then
            (if t < 29 then (463, 0) else (465, 0))
            else (if t < 31 then (464, 0) else (if t < 32 then (22, 0) else (26, 0))))
           else (if t < 35 then
            (if t < 34 then (30, 0) else (32, 0))
            else (if t < 36 then (467, 0) else (if t < 37 then (33, 0) else (34, 0)))))))
        else (if t < 57 then
         (if t < 47 then
          (if t < 42 then
           (if t < 40 then (if t < 39 then (469, 9) else (35, 0)) else (if t < 41 then (37, 0) else (470, 0)))
           else (if t < 44 then
            (if t < 43 then (39, 0) else (146, 0))
            else (if t < 45 then (225, 0) else (if t < 46 then (40, 0) else (43, 0)))))
          else (if t < 52 then
           (if t < 49 then
            (if t < 48 then (41, 0) else (42, 0))
            else (if t < 50 then (44, 0) else (if t < 51 then (141, 0) else (45, 0))))
           else (if t < 54 then
            (if t < 53 then (48, 0) else (46, 0))
            else (if t < 55 then (47, 0) else (if t < 56 then (49, 0) else (136, 0))))))
         else (if t < 67 then
          (if t < 62 then
           (if t < 59 then
            (if t < 58 then (50, 0) else (53, 0))
            else (if t < 60 then (51, 0) else (if t < 61 then (52, 0) else (54, 0))))
           else (if t < 64 then
            (if t < 63 then (131, 0) else (55, 0))
            else (if t < 65 then (58, 0) else (if t < 66 then (56, 0) else (57, 0)))))
          else (if t < 72 then
           (if t < 69 then
            (if t < 68 then (59, 0) else (126, 0))
            else (if t < 70 then (60, 0) else (if t < 71 then (63, 0) else (61, 0))))
           else (if t < 74 then
            (if t < 73 then (62, 0) else (64, 0))
            else (if t < 75 then (113, 0) else (if t < 76 then (65, 0) else (68, 0))))))))
       else (if t < 115 then
        (if t < 96 then
         (if t < 86 then
          (if t < 81 then
           (if t < 79 then (if t < 78 then (66, 0) else (67, 0)) else (if t < 80 then (69, 0) else (96, 0)))
           else (if t < 83 then
            (if t < 82 then (104, 0) else (107, 0))
            else (if t < 84 then (110, 0) else (if t < 85 then (111, 0) else (112, 0)))))
          else (if t < 91 then
           (if t < 88 then
            (if t < 87 then (70, 0) else (71, 0))
            else (if t < 89 then (72, 0) else (if t < 90 then (73, 0) else (75, 0))))
           else (if t < 93 then
            (if t < 92 then (92, 0) else (94, 0))
            else (if t < 94 then (93, 0) else (if t < 95 then (74, 0) else (76, 0))))))
         else (if t < 105 then
          (if t < 100 then
           (if t < 98 then (if t < 97 then (77, 0) else (79, 0)) else (if t < 99 then (88, 0) else (90, 0)))
           else (if t < 102 then
            (if t < 101 then (89, 0) else (78, 0))
            else (if t < 103 then (80, 0) else (if t < 104 then (81, 0) else (83, 0)))))
          else (if t < 110 then
           (if t < 107 then
            (if t < 106 then (84, 0) else (86, 0))
            else (if t < 108 then (85, 0) else (if t < 109 then (82, 0) else (87, 0))))
           else (if t < 112 then
            (if t < 111 then (91, 0) else (95, 0))
            else (if t < 113 then (97, 0) else (if t < 114 then (100, 0) else (98, 0)))))))
        else (if t < 134 then
         (if t < 124 then
          (if t < 119 then
           (if t < 117 then (if t < 116 then (99, 0) else (101, 0)) else (if t < 118 then (102, 0) else (103, 0)))
           else (if t < 121 then
            (if t < 120 then (105, 0) else (106, 0))
            else (if t < 122 then (108, 0) else (if t < 123 then (109, 0) else (114, 0)))))
          else (if t < 129 then
           (if t < 126 then
            (if t < 125 then (118, 0) else (121, 0))
            else (if t < 127 then (124, 0) else (if t < 128 then (125, 0) else (115, 0))))
           else (if t < 131 then
            (if t < 130 then (116, 0) else (117, 0))
            else (if t < 132 then (119, 0) else (if t < 133 then (120, 0) else (122, 0))))))
         else (if t < 144 then
          (if t < 139 then
           (if t < 136 then
            (if t < 135 then (123, 0) else (127, 0))
            else (if t < 137 then (128, 0) else (if t < 138 then (129, 0) else (130, 0))))
           else (if t < 141 then
            (if t < 140 then (132, 0) else (133, 0))
            else (if t < 142 then (134, 0) else (if t < 143 then (135, 0) else (137, 0)))))
          else (if t < 149 then
           (if t < 146 then
            (if t < 145 then (138, 0) else (139, 0))
            else (if t < 147 then (140, 0) else (if t < 148 then (142, 0) else (143, 0))))
           else (if t < 151 then
            (if t < 150 then (144, 0) else (145, 0))
            else (if t < 152 then (147, 0) else (if t < 153 then (148, 0) else (217, 0)))))))))
      else (if t < 231 then
       (if t < 192 then
        (if t < 173 then
         (if t < 163 then
          (if t < 158 then
           (if t < 156 then (if t < 155 then (220, 0) else (223, 0)) else (if t < 157 then (224, 0) else (149, 0)))
           else (if t < 160 then
            (if t < 159 then (152, 0) else (150, 0))
            else (if t < 161 then (151, 0) else (if t < 162 then (153, 0) else (209, 0)))))
          else (if t < 168 then
           (if t < 165 then
            (if t < 164 then (212, 0) else (215, 0))
            else (if t < 166 then (216, 0) else (if t < 167 then (154, 0) else (157, 0))))
           else (if t < 170 then
            (if t < 169 then (155, 0) else (156, 0))
            else (if t < 171 then (158, 0) else (if t < 172 then (201, 0) else (204, 0))))))
         else (if t < 182 then
          (if t < 177 then
           (if t < 175 then (if t < 174 then (207, 0) else (208, 0)) else (if t < 176 then (159, 0) else (162, 0)))
           else (if t < 179 then
            (if t < 178 then (160, 0) else (161, 0))
            else (if t < 180 then (163, 0) else (if t < 181 then (193, 0) else (196, 0)))))
          else (if t < 187 then
           (if t < 184 then
            (if t < 183 then (199, 0) else (200, 0))
            else (if t < 185 then (164, 0) else (if t < 186 then (167, 0) else (165, 0))))
           else (if t < 189 then
            (if t < 188 then (166, 0) else (168, 0))
            else (if t < 190 then (185, 0) else (if t < 191 then (188, 0) else (191, 0)))))))
        else (if t < 211 then
         (if t < 201 then
          (if t < 196 then
           (if t < 194 then (if t < 193 then (192, 0) else (169, 0)) else (if t < 195 then (172, 0) else (170, 0)))
           else (if t < 198 then
            (if t < 197 then (171, 0) else (173, 0))
            else (if t < 199 then (177, 0) else (if t < 200 then (180, 0) else (183, 0)))))
          else (if t < 206 then
           (if t < 203 then
            (if t < 202 then (184, 0) else (174, 0))
            else (if t < 204 then (175, 0) else (if t < 205 then (176, 0) else (178, 0))))
           else (if t < 208 then
            (if t < 207 then (179, 0) else (181, 0))
            else (if t < 209 then (182, 0) else (if t < 210 then (186, 0) else (187, 0))))))
         else (if t < 221 then
          (if t < 216 then
           (if t < 213 then
            (if t < 212 then (189, 0) else (190, 0))
            else (if t < 214 then (194, 0) else (if t < 215 then (195, 0) else (197, 0))))
           else (if t < 218 then
            (if t < 217 then (198, 0) else (202, 0))
            else (if t < 219 then (203, 0) else (if t < 220 then (205, 0) else (206, 0)))))
          else (if t < 226 then
           (if t < 223 then
            (if t < 222 then (210, 0) else (211, 0))
            else (if t < 224 then (213, 0) else (if t < 225 then (214, 0) else (218, 0))))
           else (if t < 228 then
            (if t < 227 then (219, 0) else (221, 0))
            else (if t < 229 then (222, 0) else (if t < 230 then (226, 0) else (227, 0))))))))
       else (if t < 270 then
        (if t < 250 then
         (if t < 240 then
          (if t < 235 then
           (if t < 233 then (if t < 232 then (228, 0) else (230, 0)) else (if t < 234 then (231, 0) else (232, 0)))
           else (if t < 237 then
            (if t < 236 then (233, 0) else (235, 0))
            else (if t < 238 then (249, 0) else (if t < 239 then (251, 0) else (250, 0)))))
          else (if t < 245 then
           (if t < 242 then
            (if t < 241 then (234, 0) else (236, 0))
            else (if t < 243 then (237, 0) else (if t < 244 then (239, 0) else (245, 0))))
           else (if t < 247 then
            (if t < 246 then (247, 0) else (246, 0))
            else (if t < 248 then (238, 0) else (if t < 249 then (240, 0) else (241, 0))))))
         else (if t < 260 then
          (if t < 255 then
           (if t < 252 then
            (if t < 251 then (512, 0) else (516, 0))
            else (if t < 253 then (518, 0) else (if t < 254 then (517, 0) else (242, 0))))
           else (if t < 257 then
            (if t < 256 then (244, 0) else (513, 0))
            else (if t < 258 then (248, 0) else (if t < 259 then (252, 0) else (254, 0)))))
          else (if t < 265 then
           (if t < 262 then
            (if t < 261 then (520, 0) else (255, 0))
            else (if t < 263 then (256, 0) else (if t < 264 then (522, 9) else (257, 0))))
           else (if t < 267 then
            (if t < 266 then (259, 0) else (523, 0))
            else (if t < 268 then (261, 0) else (if t < 269 then (368, 0) else (447, 0)))))))
        else (if t < 289 then
         (if t < 279 then
          (if t < 274 then
           (if t < 272 then (if t < 271 then (262, 0) else (265, 0)) else (if t < 273 then (263, 0) else (264, 0)))
           else (if t < 276 then
            (if t < 275 then (266, 0) else (363, 0))
            else (if t < 277 then (267, 0) else (if t < 278 then (270, 0) else (268, 0)))))
          else (if t < 284 then
           (if t < 281 then
            (if t < 280 then (269, 0) else (271, 0))
            else (if t < 282 then (358, 0) else (if t < 283 then (272, 0) else (275, 0))))
           else (if t < 286 then
            (if t < 285 then (273, 0) else (274, 0))
            else (if t < 287 then (276, 0) else (if t < 288 then (353, 0) else (277, 0))))))
         else (if t < 299 then
          (if t < 294 then
           (if t < 291 then
            (if t < 290 then (280, 0) else (278, 0))
            else (if t < 292 then (279, 0) else (if t < 293 then (281, 0) else (348, 0))))
           else (if t < 296 then
            (if t < 295 then (282, 0) else (285, 0))
            else (if t < 297 then (283, 0) else (if t < 298 then (284, 0) else (286, 0)))))
          else (if t < 304 then
           (if t < 301 then
            (if t < 300 then (335, 0) else (287, 0))
            else (if t < 302 then (290, 0) else (if t < 303 then (288, 0) else (289, 0))))
           else (if t < 306 then
            (if t < 305 then (291, 0) else (318, 0))
            else (if t < 307 then (326, 0) else (if t < 308 then (329, 0) else (332, 0))))))))))
     else (if t < 464 then
      (if t < 386 then
       (if t < 347 then
        (if t < 328 then
         (if t < 318 then
          (if t < 313 then
           (if t < 311 then (if t < 310 then (333, 0) else (334, 0)) else (if t < 312 then (292, 0) else (293, 0)))
           else (if t < 315 then
            (if t < 314 then (294, 0) else (295, 0))
            else (if t < 316 then (297, 0) else (if t < 317 then (314, 0) else (316, 0)))))
          else (if t < 323 then
           (if t < 320 then
            (if t < 319 then (315, 0) else (296, 0))
            else (if t < 321 then (298, 0) else (if t < 322 then (299, 0) else (301, 0))))
           else (if t < 325 then
            (if t < 324 then (310, 0) else (312, 0))
            else (if t < 326 then (311, 0) else (if t < 327 then (300, 0) else (302, 0))))))
         else (if t < 337 then
          (if t < 332 then
           (if t < 330 then (if t < 329 then (303, 0) else (305, 0)) else (if t < 331 then (306, 0) else (308, 0)))
           else (if t < 334 then
            (if t < 333 then (307, 0) else (304, 0))
            else (if t < 335 then (309, 0) else (if t < 336 then (313, 0) else (317, 0)))))
          else (if t < 342 then
           (if t < 339 then
            (if t < 338 then (319, 0) else (322, 0))
            else (if t < 340 then (320, 0) else (if t < 341 then (321, 0) else (323, 0))))
           else (if t < 344 then
            (if t < 343 then (324, 0) else (325, 0))
            else (if t < 345 then (327, 0) else (if t < 346 then (328, 0) else (330, 0)))))))
        else (if t < 366 then
         (if t < 356 then
          (if t < 351 then
           (if t < 349 then (if t < 348 then (331, 0) else (336, 0)) else (if t < 350 then (340, 0) else (343, 0)))
           else (if t < 353 then
            (if t < 352 then (346, 0) else (347, 0))
            else (if t < 354 then (337, 0) else (if t < 355 then (338, 0) else (339, 0)))))
          else (if t < 361 then
           (if t < 358 then
            (if t < 357 then (341, 0) else (342, 0))
            else (if t < 359 then (344, 0) else (if t < 360 then (345, 0) else (349, 0))))
           else (if t < 363 then
            (if t < 362 then (350, 0) else (351, 0))
            else (if t < 364 then (352, 0) else (if t < 365 then (354, 0) else (355, 0))))))
         else (if t < 376 then
          (if t < 371 then
           (if t < 368 then
            (if t < 367 then (356, 0) else (357, 0))
            else (if t < 369 then (359, 0) else (if t < 370 then (360, 0) else (361, 0))))
           else (if t < 373 then
            (if t < 372 then (362, 0) else (364, 0))
            else (if t < 374 then (365, 0) else (if t < 375 then (366, 0) else (367, 0)))))
          else (if t < 381 then
           (if t < 378 then
            (if t < 377 then (369, 0) else (370, 0))
            else (if t < 379 then (439, 0) else (if t < 380 then (442, 0) else (445, 0))))
           else (if t < 383 then
            (if t < 382 then (446, 0) else (371, 0))
            else (if t < 384 then (374, 0) else (if t < 385 then (372, 0) else (373, 0))))))))
       else (if t < 425 then
        (if t < 405 then
         (if t < 395 then
          (if t < 390 then
           (if t < 388 then (if t < 387 then (375, 0) else (431, 0)) else (if t < 389 then (434, 0) else (437, 0)))
           else (if t < 392 then
            (if t < 391 then (438, 0) else (376, 0))
            else (if t < 393 then (379, 0) else (if t < 394 then (377, 0) else (378, 0)))))
          else (if t < 400 then
           (if t < 397 then
            (if t < 396 then (380, 0) else (423, 0))
            else (if t < 398 then (426, 0) else (if t < 399 then (429, 0) else (430, 0))))
           else (if t < 402 then
            (if t < 401 then (381, 0) else (384, 0))
            else (if t < 403 then (382, 0) else (if t < 404 then (383, 0) else (385, 0))))))
         else (if t < 415 then
          (if t < 410 then
           (if t < 407 then
            (if t < 406 then (415, 0) else (418, 0))
            else (if t < 408 then (421, 0) else (if t < 409 then (422, 0) else (386, 0))))
           else (if t < 412 then
            (if t < 411 then (389, 0) else (387, 0))
            else (if t < 413 then (388, 0) else (if t < 414 then (390, 0) else (407, 0)))))
          else (if t < 420 then
           (if t < 417 then
            (if t < 416 then (410, 0) else (413, 0))
            else (if t < 418 then (414, 0) else (if t < 419 then (391, 0) else (394, 0))))
           else (if t < 422 then
            (if t < 421 then (392, 0) else (393, 0))
            else (if t < 423 then (395, 0) else (if t < 424 then (399, 0) else (402, 0)))))))
        else (if t < 444 then
         (if t < 434 then
          (if t < 429 then
           (if t < 427 then (if t < 426 then (405, 0) else (406, 0)) else (if t < 428 then (396, 0) else (397, 0)))
           else (if t < 431 then
            (if t < 430 then (398, 0) else (400, 0))
            else (if t < 432 then (401, 0) else (if t < 433 then (403, 0) else (404, 0)))))
          else (if t < 439 then
           (if t < 436 then
            (if t < 435 then (408, 0) else (409, 0))
            else (if t < 437 then (411, 0) else (if t < 438 then (412, 0) else (416, 0))))
           else (if t < 441 then
            (if t < 440 then (417, 0) else (419, 0))
            else (if t < 442 then (420, 0) else (if t < 443 then (424, 0) else (425, 0))))))
         else (if t < 454 then
          (if t < 449 then
           (if t < 446 then
            (if t < 445 then (427, 0) else (428, 0))
            else (if t < 447 then (432, 0) else (if t < 448 then (433, 0) else (435, 0))))
           else (if t < 451 then
            (if t < 450 then (436, 0) else (440, 0))
            else (if t < 452 then (441, 0) else (if t < 453 then (443, 0) else (444, 0)))))
          else (if t < 459 then
           (if t < 456 then
            (if t < 455 then (448, 0) else (449, 0))
            else (if t < 457 then (450, 0) else (if t < 458 then (453, 0) else (3, 0))))
           else (if t < 461 then
            (if t < 460 then (458, 0) else (456, 0))
            else (if t < 462 then (508, 1) else (if t < 463 then (454, 1) else (1, 1)))))))))
      else (if t < 541 then
       (if t < 502 then
        (if t < 483 then
         (if t < 473 then
          (if t < 468 then
           (if t < 466 then (if t < 465 then (1, 0) else (5, 0)) else (if t < 467 then (457, 1) else (453, 19)))
           else (if t < 470 then
            (if t < 469 then (7, 1) else (453, 15))
            else (if t < 471 then (7, 0) else (if t < 472 then (459, 0) else (9, 3)))))
          else (if t < 478 then
           (if t < 475 then
            (if t < 474 then (467, 3) else (453, 31))
            else (if t < 476 then (31, 3) else (if t < 477 then (455, 31) else (490, 3))))
           else (if t < 480 then
            (if t < 479 then (504, 3) else (506, 3))
            else (if t < 481 then (505, 3) else (if t < 482 then (468, 31) else (456, 31))))))
         else (if t < 492 then
          (if t < 487 then
           (if t < 485 then (if t < 484 then (469, 28) else (38, 3)) else (if t < 486 then (453, 11) else (455, 11)))
           else (if t < 489 then
            (if t < 488 then (461, 11) else (456, 11))
            else (if t < 490 then (453, 25) else (if t < 491 then (455, 25) else (462, 3)))))
          else (if t < 497 then
           (if t < 494 then
            (if t < 493 then (456, 25) else (453, 7))
            else (if t < 495 then (455, 7) else (if t < 496 then (462, 0) else (456, 7))))
           else (if t < 499 then
            (if t < 498 then (466, 0) else (31, 0))
            else (if t < 500 then (468, 11) else (if t < 501 then (489, 3) else (470, 3)))))))
        else (if t < 521 then
         (if t < 511 then
          (if t < 506 then
           (if t < 504 then (if t < 503 then (36, 3) else (471, 3)) else (if t < 505 then (485, 3) else (487, 3)))
           else (if t < 508 then
            (if t < 507 then (486, 3) else (461, 31))
            else (if t < 509 then (36, 0) else (if t < 510 then (472, 0) else (473, 0)))))
          else (if t < 516 then
           (if t < 513 then
            (if t < 512 then (481, 0) else (483, 0))
            else (if t < 514 then (482, 0) else (if t < 515 then (474, 0) else (475, 0))))
           else (if t < 518 then
            (if t < 517 then (477, 0) else (479, 0))
            else (if t < 519 then (478, 0) else (if t < 520 then (476, 0) else (480, 0))))))
         else (if t < 531 then
          (if t < 526 then
           (if t < 523 then
            (if t < 522 then (484, 0) else (486, 0))
            else (if t < 524 then (471, 0) else (if t < 525 then (488, 0) else (489, 0))))
           else (if t < 528 then
            (if t < 527 then (491, 0) else (492, 0))
            else (if t < 529 then (500, 0) else (if t < 530 then (502, 0) else (501, 0)))))
          else (if t < 536 then
           (if t < 533 then
            (if t < 532 then (493, 0) else (494, 0))
            else (if t < 534 then (496, 0) else (if t < 535 then (498, 0) else (497, 0))))
           else (if t < 538 then
            (if t < 537 then (495, 0) else (499, 0))
            else (if t < 539 then (503, 0) else (if t < 540 then (505, 0) else (490, 0))))))))
       else (if t < 580 then
        (if t < 560 then
         (if t < 550 then
          (if t < 545 then
           (if t < 543 then (if t < 542 then (507, 0) else (508, 0)) else (if t < 544 then (509, 5) else (510, 0)))
           else (if t < 547 then
            (if t < 546 then (511, 0) else (229, 3))
            else (if t < 548 then (520, 3) else (if t < 549 then (453, 44) else (253, 3)))))
          else (if t < 555 then
           (if t < 552 then
            (if t < 551 then (513, 31) else (543, 3))
            else (if t < 553 then (557, 3) else (if t < 554 then (559, 3) else (558, 3))))
           else (if t < 557 then
            (if t < 556 then (521, 31) else (456, 44))
            else (if t < 558 then (522, 28) else (if t < 559 then (260, 3) else (453, 52))))))
         else (if t < 570 then
          (if t < 565 then
           (if t < 562 then
            (if t < 561 then (513, 37) else (514, 11))
            else (if t < 563 then (456, 52) else (if t < 564 then (453, 13) else (243, 0))))
           else (if t < 567 then
            (if t < 566 then (456, 13) else (453, 40))
            else (if t < 568 then (513, 25) else (if t < 569 then (515, 3) else (456, 40)))))
          else (if t < 575 then
           (if t < 572 then
            (if t < 571 then (453, 48) else (513, 34))
            else (if t < 573 then (515, 0) else (if t < 574 then (456, 48) else (519, 0))))
           else (if t < 577 then
            (if t < 576 then (253, 0) else (521, 11))
            else (if t < 578 then (542, 3) else (if t < 579 then (523, 3) else (258, 3)))))))
        else (if t < 599 then
         (if t < 589 then
          (if t < 584 then
           (if t < 582 then (if t < 581 then (524, 3) else (538, 3)) else (if t < 583 then (540, 3) else (539, 3)))
           else (if t < 586 then
            (if t < 585 then (514, 31) else (258, 0))
            else (if t < 587 then (525, 0) else (if t < 588 then (526, 0) else (534, 0)))))
          else (if t < 594 then
           (if t < 591 then
            (if t < 590 then (536, 0) else (535, 0))
            else (if t < 592 then (527, 0) else (if t < 593 then (528, 0) else (530, 0))))
           else (if t < 596 then
            (if t < 595 then (532, 0) else (531, 0))
            else (if t < 597 then (529, 0) else (if t < 598 then (533, 0) else (537, 0))))))
         else (if t < 609 then
          (if t < 604 then
           (if t < 601 then
            (if t < 600 then (539, 0) else (524, 0))
            else (if t < 602 then (541, 0) else (if t < 603 then (542, 0) else (544, 0))))
           else (if t < 606 then
            (if t < 605 then (545, 0) else (553, 0))
            else (if t < 607 then (555, 0) else (if t < 608 then (554, 0) else (546, 0)))))
          else (if t < 614 then
           (if t < 611 then
            (if t < 610 then (547, 0) else (549, 0))
            else (if t < 612 then (551, 0) else (if t < 613 then (550, 0) else (548, 0))))
           else (if t < 616 then
            (if t < 615 then (552, 0) else (556, 0))
            else (if t < 617 then (558, 0) else (if t < 618 then (543, 0) else (560, 0)))))))))))"

fun row_keys :: "uri_row \<Rightarrow> int list" where
  "row_keys (s, r, t) = s @ concat (map (\<lambda>(a, b). [a, b]) r)"

fun row_trans :: "uri_row \<Rightarrow> int list" where
  "row_trans (s, r, t) = t"

fun row_singles :: "uri_row \<Rightarrow> int list" where
  "row_singles (s, r, t) = s"

fun row_ranges :: "uri_row \<Rightarrow> (int \<times> int) list" where
  "row_ranges (s, r, t) = r"

fun offs :: "int \<Rightarrow> int list \<Rightarrow> int list" where
  "offs n [] = []"
| "offs n (x # xs) = n # offs (n + x) xs"

section \<open>The tables are the rows laid end to end\<close>

lemma trans_keys_rows: "uri_parser_trans_keys = concat (map row_keys uri_rows) @ [0]"
  by (simp add: uri_rows_def uri_rows_parts uri_parser_trans_keys_def uri_parser_trans_keys_a_def
      uri_parser_trans_keys_b_def uri_parser_trans_keys_c_def)

lemma indicies_rows: "uri_parser_indicies = concat (map row_trans uri_rows) @ [0]"
  by (simp add: uri_rows_def uri_rows_parts uri_parser_indicies_def uri_parser_indicies_a_def uri_parser_indicies_b_def)

lemma single_lengths_rows: "uri_parser_single_lengths = 0 # map (\<lambda>w. int (length (row_singles w))) uri_rows"
  by (simp add: uri_rows_def uri_rows_parts uri_parser_single_lengths_def)

lemma range_lengths_rows: "uri_parser_range_lengths = 0 # map (\<lambda>w. int (length (row_ranges w))) uri_rows"
  by (simp add: uri_rows_def uri_rows_parts uri_parser_range_lengths_def)

lemma key_offsets_rows: "uri_parser_key_offsets = 0 # offs 0 (map (\<lambda>w. int (length (row_keys w))) uri_rows)"
  by (simp add: uri_rows_def uri_rows_parts uri_parser_key_offsets_def)

lemma index_offsets_rows: "uri_parser_index_offsets = 0 # offs 0 (map (\<lambda>w. int (length (row_trans w))) uri_rows)"
  by (simp add: uri_rows_def uri_rows_parts uri_parser_index_offsets_def)

fun range_sorted :: "(int \<times> int) list \<Rightarrow> bool" where
  "range_sorted [] = True"
| "range_sorted [(a, b)] = (a \<le> b)"
| "range_sorted ((a, b) # (c, d) # r) = (a \<le> b \<and> b < c \<and> range_sorted ((c, d) # r))"

fun chain :: "int list \<Rightarrow> bool" where
  "chain [] = True"
| "chain [a] = True"
| "chain (a # b # s) = (a < b \<and> chain (b # s))"

definition row_wf :: "uri_row \<Rightarrow> bool" where
  "row_wf w \<longleftrightarrow> chain (row_singles w) \<and> range_sorted (row_ranges w)
     \<and> length (row_trans w) = length (row_singles w) + length (row_ranges w) + 1
     \<and> list_all (\<lambda>t. 0 \<le> t \<and> t < 619) (row_trans w)"

lemma rows_wf: "list_all row_wf uri_rows"
  by (simp add: uri_rows_def uri_rows_parts row_wf_def)

lemma length_rows: "length uri_rows = 560"
  by (simp add: uri_rows_def uri_rows_parts)

lemma edges_tables: "map uri_edge [0..618] = zip uri_parser_trans_targs uri_parser_trans_actions"
  by (simp add: upto.simps uri_edge_def uri_parser_trans_targs_def uri_parser_trans_actions_def)

section \<open>Binary search\<close>

lemma chain_nth: "chain s \<Longrightarrow> i < j \<Longrightarrow> j < length s \<Longrightarrow> s ! i < s ! j"
proof (induction s arbitrary: i j rule: chain.induct)
  case (3 a b s)
  have first: "a < (b # s) ! j'" if "j' < length (b # s)" for j'
  proof (cases j')
    case (Suc k)
    then show ?thesis using 3(1) [of 0 j'] 3(2) that by force
  qed (use 3(2) in simp)
  obtain j' where j: "j = Suc j'" using 3(3) by (cases j) auto
  show ?case
  proof (cases i)
    case 0
    then show ?thesis using first [of j'] 3(4) j by simp
  next
    case (Suc i')
    then show ?thesis using 3(1) [of i' j'] 3(2-4) j by simp
  qed
qed auto

lemma range_nth: "range_sorted r \<Longrightarrow> i < j \<Longrightarrow> j < length r \<Longrightarrow> snd (r ! i) < fst (r ! j)"
  and range_le: "range_sorted r \<Longrightarrow> i < length r \<Longrightarrow> fst (r ! i) \<le> snd (r ! i)"
proof (induction r arbitrary: i j rule: range_sorted.induct)
  case (3 a b c d r)
  {
    case 1
    have first: "b < fst (((c, d) # r) ! j')" if "j' < length ((c, d) # r)" for j'
    proof (cases j')
      case (Suc k)
      then have "d < fst (((c, d) # r) ! j')" using 3(1) [of 0 j'] 1(1) that by simp
      then show ?thesis using 1(1) 3(2) [of 0] by simp
    qed (use 1(1) in simp)
    obtain j' where j: "j = Suc j'" using 1(2) by (cases j) auto
    show ?case
    proof (cases i)
      case 0
      then show ?thesis using first [of j'] 1(3) j by simp
    next
      case (Suc i')
      then show ?thesis using 3(1) [of i' j'] 1 j by simp
    qed
  next
    case 2
    then show ?case using 3(2) [of "i - 1"] by (cases i) auto
  }
qed auto

lemma tab_at_middle: "0 \<le> i \<Longrightarrow> i < int (length s) \<Longrightarrow> tab_at (pre @ s @ post) (int (length pre) + i) = Inr (s ! nat i)"
proof -
  assume i: "0 \<le> i" "i < int (length s)"
  then have "nat i < length s" by linarith
  with i show ?thesis by (simp add: tab_at_def nth_append nat_add_distrib)
qed

lemma find_single_step:
  assumes "tab_at K mid = Inr k" "\<not> up < lo" "lo + (up - lo) div 2 = mid"
  shows "find_single K b p lo up =
    (if p < k then find_single K b p lo (mid - 1) else if p > k then find_single K b p (mid + 1) up else Inr (Some (mid - b)))"
  using assms by (subst find_single.simps) (simp add: Let_def)

lemma find_range_step:
  assumes "tab_at K mid = Inr k" "tab_at K (mid + 1) = Inr k'" "\<not> up < lo" "lo + 2 * ((up - lo) div 2 div 2) = mid"
  shows "find_range K b p lo up =
    (if p < k then find_range K b p lo (mid - 2) else if p > k' then find_range K b p (mid + 2) up
     else Inr (Some ((mid - b) div 2)))"
  using assms by (subst find_range.simps) (simp add: Let_def)

lemma find_single_correct:
  assumes "chain s" "0 \<le> l" "u < int (length s)" "\<forall>i<length s. s ! i = p \<longrightarrow> l \<le> int i \<and> int i \<le> u"
  shows "\<exists>r. find_single (pre @ s @ post) (int (length pre)) p (int (length pre) + l) (int (length pre) + u) = Inr r
    \<and> (case r of None \<Rightarrow> p \<notin> set s | Some i \<Rightarrow> 0 \<le> i \<and> i < int (length s) \<and> s ! nat i = p)"
  using assms(2-)
proof (induction "nat (u - l + 1)" arbitrary: l u rule: less_induct)
  case less
  let ?K = "pre @ s @ post" and ?b = "int (length pre)"
  show ?case
  proof (cases "u < l")
    case True
    then have "p \<notin> set s" using less.prems(3) by (fastforce simp: in_set_conv_nth)
    with True show ?thesis by (simp add: find_single.simps)
  next
    case False
    define m where "m = l + (u - l) div 2"
    have m: "l \<le> m" "m \<le> u" "0 \<le> m" "m < int (length s)" using False less.prems by (auto simp: m_def)
    have nm: "nat m < length s" using m(3,4) by linarith
    have at: "tab_at ?K (?b + m) = Inr (s ! nat m)" by (rule tab_at_middle [OF m(3,4)])
    have mid: "?b + l + (?b + u - (?b + l)) div 2 = ?b + m" by (simp add: m_def)
    have unfold: "find_single ?K ?b p (?b + l) (?b + u) =
        (if p < s ! nat m then find_single ?K ?b p (?b + l) (?b + (m - 1))
         else if p > s ! nat m then find_single ?K ?b p (?b + (m + 1)) (?b + u) else Inr (Some m))"
      using False by (subst find_single_step [OF at _ mid]) (simp_all add: add_diff_eq add.assoc)
    consider "p < s ! nat m" | "p > s ! nat m" | "p = s ! nat m" by linarith
    then show ?thesis
    proof cases
      case 1
      have "int i \<le> m - 1" if "i < length s" "s ! i = p" for i
      proof -
        have "\<not> nat m \<le> i" using chain_nth [OF assms(1), of "nat m" i] that 1 by (cases "nat m = i") auto
        then show ?thesis using m by linarith
      qed
      then show ?thesis using less.hyps [of "m - 1" l] less.prems m 1 unfold by auto
    next
      case 2
      have "m + 1 \<le> int i" if "i < length s" "s ! i = p" for i
      proof -
        have "\<not> i \<le> nat m" using chain_nth [OF assms(1), of i "nat m"] that 2 m nm by (cases "nat m = i") auto
        then show ?thesis using m by linarith
      qed
      then show ?thesis using less.hyps [of u "m + 1"] less.prems m 2 unfold by auto
    next
      case 3
      then show ?thesis using unfold m by simp
    qed
  qed
qed

definition flat :: "(int \<times> int) list \<Rightarrow> int list" where
  "flat r = concat (map (\<lambda>(a, b). [a, b]) r)"

lemma length_flat [simp]: "length (flat r) = 2 * length r"
  by (induction r) (auto simp: flat_def)

lemma flat_nth: "i < length r \<Longrightarrow> flat r ! (2 * i) = fst (r ! i) \<and> flat r ! (2 * i + 1) = snd (r ! i)"
proof (induction r arbitrary: i)
  case (Cons x r)
  have "flat (x # r) = fst x # snd x # flat r" by (simp add: flat_def case_prod_beta)
  with Cons show ?case by (cases i) auto
qed simp

lemma find_range_correct:
  assumes "range_sorted r" "0 \<le> l" "u < int (length r)"
    "\<forall>i<length r. fst (r ! i) \<le> p \<and> p \<le> snd (r ! i) \<longrightarrow> l \<le> int i \<and> int i \<le> u"
  shows "\<exists>x. find_range (pre @ flat r @ post) (int (length pre)) p (int (length pre) + 2 * l) (int (length pre) + 2 * u) = Inr x
    \<and> (case x of None \<Rightarrow> \<forall>i<length r. \<not> (fst (r ! i) \<le> p \<and> p \<le> snd (r ! i))
       | Some i \<Rightarrow> 0 \<le> i \<and> i < int (length r) \<and> fst (r ! nat i) \<le> p \<and> p \<le> snd (r ! nat i))"
  using assms(2-)
proof (induction "nat (u - l + 1)" arbitrary: l u rule: less_induct)
  case less
  let ?K = "pre @ flat r @ post" and ?b = "int (length pre)"
  show ?case
  proof (cases "u < l")
    case True
    then have "\<forall>i<length r. \<not> (fst (r ! i) \<le> p \<and> p \<le> snd (r ! i))" using less.prems(3) by force
    with True show ?thesis by (simp add: find_range.simps)
  next
    case False
    define m where "m = l + (u - l) div 2"
    have m: "l \<le> m" "m \<le> u" "0 \<le> m" "m < int (length r)" using False less.prems by (auto simp: m_def)
    have nm: "nat m < length r" using m(3,4) by linarith
    have n: "nat (2 * m) = 2 * nat m" "nat (2 * m + 1) = 2 * nat m + 1" using m(3) by (simp_all add: nat_mult_distrib nat_add_distrib)
    have at: "tab_at ?K (?b + 2 * m) = Inr (fst (r ! nat m))" "tab_at ?K (?b + 2 * m + 1) = Inr (snd (r ! nat m))"
      using tab_at_middle [of "2 * m" "flat r" pre post] tab_at_middle [of "2 * m + 1" "flat r" pre post]
        flat_nth [of "nat m" r] m n by (simp_all add: add.assoc)
    have "2 * u - 2 * l = 2 * (u - l)" by simp
    then have mid: "?b + 2 * l + 2 * ((?b + 2 * u - (?b + 2 * l)) div 2 div 2) = ?b + 2 * m" by (simp add: m_def)
    have unfold: "find_range ?K ?b p (?b + 2 * l) (?b + 2 * u) =
        (if p < fst (r ! nat m) then find_range ?K ?b p (?b + 2 * l) (?b + 2 * (m - 1))
         else if p > snd (r ! nat m) then find_range ?K ?b p (?b + 2 * (m + 1)) (?b + 2 * u) else Inr (Some m))"
      using False by (subst find_range_step [OF at _ mid]) (simp_all add: right_diff_distrib add_diff_eq add.assoc distrib_left)
    consider "p < fst (r ! nat m)" | "p > snd (r ! nat m)" "\<not> p < fst (r ! nat m)"
      | "fst (r ! nat m) \<le> p" "p \<le> snd (r ! nat m)" by linarith
    then show ?thesis
    proof cases
      case 1
      have "int i \<le> m - 1" if "i < length r" "fst (r ! i) \<le> p" "p \<le> snd (r ! i)" for i
      proof -
        have "\<not> nat m \<le> i" using range_nth [OF assms(1), of "nat m" i] range_le [OF assms(1), of "nat m"] that 1 m
          by (cases "nat m = i") auto
        then show ?thesis using m by linarith
      qed
      then show ?thesis using less.hyps [of "m - 1" l] less.prems m 1 unfold by auto
    next
      case 2
      have "m + 1 \<le> int i" if "i < length r" "fst (r ! i) \<le> p" "p \<le> snd (r ! i)" for i
      proof -
        have "\<not> i \<le> nat m" using range_nth [OF assms(1), of i "nat m"] range_le [OF assms(1), of "nat m"] that 2 m nm
          by (cases "nat m = i") auto
        then show ?thesis using m by linarith
      qed
      then show ?thesis using less.hyps [of u "m + 1"] less.prems m 2 unfold by auto
    next
      case 3
      then show ?thesis using unfold m by simp
    qed
  qed
qed

section \<open>A transition is found in its row\<close>

fun idx :: "('a \<Rightarrow> bool) \<Rightarrow> 'a list \<Rightarrow> nat option" where
  "idx P [] = None"
| "idx P (x # xs) = (if P x then Some 0 else map_option Suc (idx P xs))"

lemma idx_None: "idx P xs = None \<longleftrightarrow> (\<forall>x\<in>set xs. \<not> P x)"
  by (induction xs) auto

lemma idx_Some: "idx P xs = Some i \<Longrightarrow> i < length xs \<and> P (xs ! i)"
  by (induction xs arbitrary: i) (auto split: if_splits)

lemma idx_unique: "i < length xs \<Longrightarrow> P (xs ! i) \<Longrightarrow> (\<And>j. j < length xs \<Longrightarrow> P (xs ! j) \<Longrightarrow> j = i) \<Longrightarrow> idx P xs = Some i"
proof (cases "idx P xs")
  case None
  assume "i < length xs" "P (xs ! i)"
  with None show ?thesis using nth_mem [of i xs] by (simp add: idx_None)
next
  case (Some j)
  assume "\<And>j. j < length xs \<Longrightarrow> P (xs ! j) \<Longrightarrow> j = i"
  then show ?thesis using idx_Some [OF Some] Some by blast
qed

fun row_pos :: "uri_row \<Rightarrow> int \<Rightarrow> nat" where
  "row_pos (s, r, t) p =
     (case idx (\<lambda>k. k = p) s of
        Some i \<Rightarrow> i
      | None \<Rightarrow>
          (case idx (\<lambda>(a, b). a \<le> p \<and> p \<le> b) r of
             Some i \<Rightarrow> length s + i
           | None \<Rightarrow> length s + length r))"

definition row_next :: "uri_row \<Rightarrow> int \<Rightarrow> int" where
  "row_next w p = row_trans w ! row_pos w p"

lemma row_pos_less: "row_wf w \<Longrightarrow> row_pos w p < length (row_trans w)"
  by (cases w) (auto simp: row_wf_def split: option.split dest: idx_Some)

lemma single_idx:
  assumes "chain s"
  shows "find_single (pre @ s @ post) (int (length pre)) p (int (length pre)) (int (length pre) + int (length s) - 1)
    = Inr (map_option int (idx (\<lambda>k. k = p) s))"
proof -
  obtain r where r: "find_single (pre @ s @ post) (int (length pre)) p (int (length pre) + 0) (int (length pre) + (int (length s) - 1)) = Inr r"
      "case r of None \<Rightarrow> p \<notin> set s | Some i \<Rightarrow> 0 \<le> i \<and> i < int (length s) \<and> s ! nat i = p"
    using find_single_correct [OF assms, of 0 "int (length s) - 1" p pre post] by auto
  have "r = map_option int (idx (\<lambda>k. k = p) s)"
  proof (cases r)
    case None
    then have "idx (\<lambda>k. k = p) s = None" using r(2) by (auto simp: idx_None)
    with None show ?thesis by simp
  next
    case (Some i)
    then have i: "0 \<le> i" "nat i < length s" "s ! nat i = p" using r(2) by auto
    have "idx (\<lambda>k. k = p) s = Some (nat i)"
      by (rule idx_unique) (use i chain_nth [OF assms] in \<open>auto, metis less_irrefl linorder_neqE_nat\<close>)
    with Some i(1) show ?thesis by simp
  qed
  with r(1) show ?thesis by (simp add: add_diff_eq)
qed

lemma range_idx:
  assumes "range_sorted r"
  shows "find_range (pre @ flat r @ post) (int (length pre)) p (int (length pre)) (int (length pre) + 2 * int (length r) - 2)
    = Inr (map_option int (idx (\<lambda>(a, b). a \<le> p \<and> p \<le> b) r))"
proof -
  let ?P = "\<lambda>(a, b). a \<le> p \<and> p \<le> b"
  obtain x where x: "find_range (pre @ flat r @ post) (int (length pre)) p (int (length pre) + 2 * 0)
        (int (length pre) + 2 * (int (length r) - 1)) = Inr x"
      "case x of None \<Rightarrow> \<forall>i<length r. \<not> (fst (r ! i) \<le> p \<and> p \<le> snd (r ! i))
       | Some i \<Rightarrow> 0 \<le> i \<and> i < int (length r) \<and> fst (r ! nat i) \<le> p \<and> p \<le> snd (r ! nat i)"
    using find_range_correct [OF assms, of 0 "int (length r) - 1" p pre post] by auto
  have "x = map_option int (idx ?P r)"
  proof (cases x)
    case None
    then have "idx ?P r = None" using x(2) by (fastforce simp: idx_None in_set_conv_nth)
    with None show ?thesis by simp
  next
    case (Some i)
    then have i: "0 \<le> i" "nat i < length r" "fst (r ! nat i) \<le> p" "p \<le> snd (r ! nat i)" using x(2) by auto
    have "idx ?P r = Some (nat i)"
    proof (rule idx_unique)
      fix j
      assume j: "j < length r" "?P (r ! j)"
      then show "j = nat i"
        using range_nth [OF assms, of j "nat i"] range_nth [OF assms, of "nat i" j] i by (auto simp: case_prod_beta) (linarith | force)+
    qed (use i in \<open>auto simp: case_prod_beta\<close>)
    with Some i(1) show ?thesis by simp
  qed
  with x(1) show ?thesis by (simp add: right_diff_distrib add_diff_eq)
qed

lemma offs_nth: "i < length xs \<Longrightarrow> offs n xs ! i = n + sum_list (take i xs)"
  by (induction xs arbitrary: n i) (auto simp: nth_Cons split: nat.split)

lemma length_offs [simp]: "length (offs n xs) = length xs"
  by (induction xs arbitrary: n) auto

lemma length_concat_int: "int (length (concat (map f xs))) = sum_list (map (\<lambda>x. int (length (f x))) xs)"
  by (induction xs) auto

lemma concat_split:
  "i < length ws \<Longrightarrow> concat (map f ws) @ e = concat (map f (take i ws)) @ f (ws ! i) @ concat (map f (drop (Suc i) ws)) @ e"
  using id_take_nth_drop [of i ws] by (metis append.assoc concat.simps(2) concat_append list.simps(9) map_append)

text \<open>The rows as a map from states, of which 0 has none.\<close>

definition row_of :: "int \<Rightarrow> uri_row" where
  "row_of cs = uri_rows ! nat (cs - 1)"

definition live :: "int \<Rightarrow> bool" where
  "live cs \<longleftrightarrow> 1 \<le> cs \<and> cs \<le> 560"

lemma row_of_wf: "live cs \<Longrightarrow> row_wf (row_of cs)"
  using rows_wf by (auto simp: list_all_length row_of_def length_rows live_def)

lemma tab_at_state: "live cs \<Longrightarrow> length xs = 560 \<Longrightarrow> tab_at (x # xs) cs = Inr (xs ! nat (cs - 1))"
  by (auto simp: tab_at_def live_def nth_Cons' nat_diff_distrib)

lemma find_trans_row:
  assumes "live cs"
  shows "find_trans cs p = Inr (uri_parser_index_offsets ! nat cs + int (row_pos (row_of cs) p))"
    "tab_at uri_parser_indicies (uri_parser_index_offsets ! nat cs + int (row_pos (row_of cs) p)) = Inr (row_next (row_of cs) p)"
proof -
  define i where "i = nat (cs - 1)"
  have i: "i < 560" "i < length uri_rows" using assms by (auto simp: i_def live_def length_rows)
  obtain s r t where w: "uri_rows ! i = (s, r, t)" by (metis surj_pair)
  have wf: "row_wf (s, r, t)" using rows_wf i(2) w by (auto simp: list_all_length)
  let ?pre = "concat (map row_keys (take i uri_rows))" and ?post = "concat (map row_keys (drop (Suc i) uri_rows)) @ [0]"
  have K: "uri_parser_trans_keys = ?pre @ s @ flat r @ ?post"
    using concat_split [OF i(2), of row_keys "[0]"] by (simp add: trans_keys_rows w flat_def)
  have ko: "tab_at uri_parser_key_offsets cs = Inr (int (length ?pre))"
    using assms i by (simp add: key_offsets_rows tab_at_state length_rows offs_nth length_concat_int take_map flip: i_def)
  have io: "uri_parser_index_offsets ! nat cs = int (length (concat (map row_trans (take i uri_rows))))"
    using assms i by (simp add: index_offsets_rows nth_Cons' offs_nth length_rows length_concat_int take_map i_def live_def nat_diff_distrib)
  have io': "tab_at uri_parser_index_offsets cs = Inr (uri_parser_index_offsets ! nat cs)"
    using assms by (simp add: tab_at_def index_offsets_rows length_rows live_def)
  have sl: "tab_at uri_parser_single_lengths cs = Inr (int (length s))" "tab_at uri_parser_range_lengths cs = Inr (int (length r))"
    using assms i by (simp_all add: single_lengths_rows range_lengths_rows tab_at_state length_rows w flip: i_def)
  have single: "find_single uri_parser_trans_keys (int (length ?pre)) p (int (length ?pre)) (int (length ?pre) + int (length s) - 1)
      = Inr (map_option int (idx (\<lambda>k. k = p) s))"
    unfolding K by (rule single_idx) (use wf in \<open>simp add: row_wf_def\<close>)
  have range: "find_range uri_parser_trans_keys (int (length ?pre) + int (length s)) p (int (length ?pre) + int (length s))
        (int (length ?pre) + int (length s) + 2 * int (length r) - 2)
      = Inr (map_option int (idx (\<lambda>(a, b). a \<le> p \<and> p \<le> b) r))"
    using range_idx [of r "?pre @ s" ?post p] wf by (simp add: K row_wf_def)
  have row: "row_of cs = (s, r, t)" using w by (simp add: row_of_def i_def)
  have e: "s = [] \<Longrightarrow> idx (\<lambda>k. k = p) s = None" "r = [] \<Longrightarrow> idx (\<lambda>(a, b). a \<le> p \<and> p \<le> b) r = None" by auto
  show "find_trans cs p = Inr (uri_parser_index_offsets ! nat cs + int (row_pos (row_of cs) p))"
    using single range e
    by (cases "s = []"; cases "r = []"; cases "idx (\<lambda>k. k = p) s"; cases "idx (\<lambda>(a, b). a \<le> p \<and> p \<le> b) r")
      (simp_all add: find_trans_def ko io' sl row Let_def)
  have pos: "row_pos (s, r, t) p < length t" using row_pos_less [OF wf, of p] by simp
  have I: "uri_parser_indicies = concat (map row_trans (take i uri_rows)) @ t @ concat (map row_trans (drop (Suc i) uri_rows)) @ [0]"
    using concat_split [OF i(2), of row_trans "[0]"] by (simp add: indicies_rows w)
  show "tab_at uri_parser_indicies (uri_parser_index_offsets ! nat cs + int (row_pos (row_of cs) p)) = Inr (row_next (row_of cs) p)"
    using tab_at_middle [of "int (row_pos (s, r, t) p)" t] pos by (simp add: I io row row_next_def)
qed

section \<open>Actions and edges\<close>

definition act_list :: "int \<Rightarrow> int list" where
  "act_list off = take (nat (uri_parser_actions ! nat off)) (drop (nat off + 1) uri_parser_actions)"

definition valid_off :: "int \<Rightarrow> bool" where
  "valid_off off \<longleftrightarrow> off \<in> {0, 1, 3, 5, 7, 9, 11, 13, 15, 17, 19, 22, 25, 28, 31, 34, 37, 40, 44, 48, 52}"

lemma act_list_simps [simp]:
  "act_list 0 = []" "act_list 1 = [0]" "act_list 3 = [1]" "act_list 5 = [2]" "act_list 7 = [3]" "act_list 9 = [4]"
  "act_list 11 = [5]" "act_list 13 = [6]" "act_list 15 = [7]" "act_list 17 = [8]" "act_list 19 = [0, 7]" "act_list 22 = [0, 8]"
  "act_list 25 = [1, 3]" "act_list 28 = [1, 4]" "act_list 31 = [1, 5]" "act_list 34 = [3, 1]" "act_list 37 = [5, 1]"
  "act_list 40 = [1, 3, 6]" "act_list 44 = [1, 5, 6]" "act_list 48 = [3, 1, 6]" "act_list 52 = [5, 1, 6]"
  by (simp_all add: act_list_def uri_parser_actions_def)

fun exec_acts :: "(int \<Rightarrow> uri_state \<Rightarrow> uri_fault + uri_state) \<Rightarrow> int list \<Rightarrow> uri_state \<Rightarrow> uri_fault + uri_state" where
  "exec_acts run [] st = Inr st"
| "exec_acts run (a # as) st = bindr (run a st) (exec_acts run as)"

lemma run_acts_exec:
  "off + n \<le> length uri_parser_actions \<Longrightarrow>
     run_acts run n (int off) st = exec_acts run (take n (drop off uri_parser_actions)) st"
proof (induction n arbitrary: off st)
  case (Suc n)
  let ?a = "uri_parser_actions ! off"
  have at: "tab_at uri_parser_actions (int off) = Inr ?a" using Suc.prems by (simp add: tab_at_def)
  have d: "drop off uri_parser_actions = ?a # drop (Suc off) uri_parser_actions" using Suc.prems by (simp add: Cons_nth_drop_Suc)
  have "run_acts run n (int off + 1) st' = exec_acts run (take n (drop (Suc off) uri_parser_actions)) st'" for st'
    using Suc.IH [of "Suc off" st'] Suc.prems by (simp add: add.commute)
  then have "run_acts run n (int off + 1) = exec_acts run (take n (drop (Suc off) uri_parser_actions))" by (rule ext)
  then show ?case by (simp add: at d)
qed simp

lemma do_actions_exec:
  assumes "valid_off off"
  shows "do_actions run off st = exec_acts run (act_list off) st"
proof -
  let ?n = "uri_parser_actions ! nat off"
  have b: "0 \<le> off" "off < 56" "0 \<le> ?n" "nat off + 1 + nat ?n \<le> length uri_parser_actions" "length uri_parser_actions = 56"
    using assms by (auto simp: valid_off_def uri_parser_actions_def)
  have "run_acts run (nat ?n) (int (nat off + 1)) st = exec_acts run (act_list off) st"
    unfolding act_list_def by (rule run_acts_exec) (use b in simp)
  moreover have "int (nat off + 1) = off + 1" using b(1) by simp
  ultimately show ?thesis using b by (simp add: do_actions_def tab_at_def add.commute)
qed

lemma edge_offs: "list_all valid_off uri_parser_trans_actions" "list_all valid_off uri_parser_eof_actions"
  by (simp_all add: valid_off_def uri_parser_trans_actions_def uri_parser_eof_actions_def)

text \<open>The fragment is stored only at the end.\<close>

lemma edge_no_fragment: "list_all (\<lambda>off. off \<noteq> 17 \<and> off \<noteq> 22) uri_parser_trans_actions"
  by (simp add: uri_parser_trans_actions_def)

lemma edge_targets: "list_all (\<lambda>t. 0 \<le> t \<and> t \<le> 560) uri_parser_trans_targs"
  by (simp add: uri_parser_trans_targs_def)

lemma table_lengths:
  "length uri_parser_trans_targs = 619" "length uri_parser_trans_actions = 619" "length uri_parser_eof_actions = 561"
  by (simp_all add: uri_parser_trans_targs_def uri_parser_trans_actions_def uri_parser_eof_actions_def)

lemma uri_edge_tables:
  assumes "0 \<le> t" "t < 619"
  shows "tab_at uri_parser_trans_targs t = Inr (fst (uri_edge t))" "tab_at uri_parser_trans_actions t = Inr (snd (uri_edge t))"
    "valid_off (snd (uri_edge t))" "0 \<le> fst (uri_edge t)" "fst (uri_edge t) \<le> 560" "8 \<notin> set (act_list (snd (uri_edge t)))"
proof -
  have n: "nat t < 619" using assms by simp
  have "map uri_edge [0..618] ! nat t = zip uri_parser_trans_targs uri_parser_trans_actions ! nat t" by (simp only: edges_tables)
  then have e: "uri_edge t = (uri_parser_trans_targs ! nat t, uri_parser_trans_actions ! nat t)"
    using assms n by (simp add: table_lengths nth_upto)
  then show "tab_at uri_parser_trans_targs t = Inr (fst (uri_edge t))" "tab_at uri_parser_trans_actions t = Inr (snd (uri_edge t))"
    using assms by (simp_all add: tab_at_def table_lengths)
  show v: "valid_off (snd (uri_edge t))" "0 \<le> fst (uri_edge t)" "fst (uri_edge t) \<le> 560"
    using e n edge_offs(1) edge_targets by (simp_all add: list_all_length table_lengths)
  have "snd (uri_edge t) \<noteq> 17" "snd (uri_edge t) \<noteq> 22" using e n edge_no_fragment by (simp_all add: list_all_length table_lengths)
  with v(1) show "8 \<notin> set (act_list (snd (uri_edge t)))" by (auto simp: valid_off_def)
qed

lemma row_next_range: "live cs \<Longrightarrow> 0 \<le> row_next (row_of cs) p \<and> row_next (row_of cs) p < 619"
  using row_of_wf [of cs] row_pos_less [of "row_of cs" p] by (auto simp: row_wf_def row_next_def list_all_length)

definition edge_of :: "int \<Rightarrow> int \<Rightarrow> int \<times> int" where
  "edge_of cs p = uri_edge (row_next (row_of cs) p)"

lemma uri_step_edge:
  assumes "live (u_cs st)" "edge_of (u_cs st) (schar c) = (cs', off)"
  shows "uri_step s p c st = exec_acts (run_action s p) (act_list off) (st\<lparr>u_cs := cs'\<rparr>)"
    "0 \<le> cs'" "cs' \<le> 560" "valid_off off" "8 \<notin> set (act_list off)"
proof -
  let ?t = "row_next (row_of (u_cs st)) (schar c)"
  have t: "0 \<le> ?t" "?t < 619" using row_next_range [OF assms(1)] by blast+
  note tab = uri_edge_tables [OF t]
  show "0 \<le> cs'" "cs' \<le> 560" "valid_off off" "8 \<notin> set (act_list off)" using assms(2) tab(3-6) by (simp_all add: edge_of_def)
  then show "uri_step s p c st = exec_acts (run_action s p) (act_list off) (st\<lparr>u_cs := cs'\<rparr>)"
    using assms tab(1,2) by (simp add: uri_step_def find_trans_row edge_of_def Let_def do_actions_exec)
qed

lemma uri_eof_acts:
  assumes "live (u_cs st)"
  shows "uri_eof s st = exec_acts (run_eof_action s (length s)) (act_list (uri_parser_eof_actions ! nat (u_cs st))) st"
    "valid_off (uri_parser_eof_actions ! nat (u_cs st))"
proof -
  have b: "0 \<le> u_cs st" "u_cs st < 561" "u_cs st \<noteq> 0" using assms by (auto simp: live_def)
  then show v: "valid_off (uri_parser_eof_actions ! nat (u_cs st))" using edge_offs(2) by (simp add: list_all_length table_lengths)
  show "uri_eof s st = exec_acts (run_eof_action s (length s)) (act_list (uri_parser_eof_actions ! nat (u_cs st))) st"
    using b by (simp add: uri_eof_def tab_at_def table_lengths do_actions_exec [OF v])
qed

end
