(* ===== verification/UriParse.thy ===== *)
theory UriParse
  imports UriRows
begin

text \<open>
  What the Uri parser does with every text: the states at which its mark may be null are computed from
  the rows and checked edge by edge, so that the only way to fail is an empty port; and a printed Uri is
  read back.
\<close>

section \<open>Marks along the edges\<close>

text \<open>Whether the mark is set after some actions, and whether one of them needs a mark that is null.\<close>

fun mark_after :: "int list \<Rightarrow> bool \<Rightarrow> bool option" where
  "mark_after [] m = Some m"
| "mark_after (a # as) m =
     (if a = 0 \<or> a = 1 then mark_after as True
      else if a = 2 \<or> a = 3 \<or> a = 6 \<or> a = 7 \<or> a = 8 then (if m then mark_after as False else None)
      else if a = 4 then mark_after as False
      else mark_after as m)"

definition may_null :: "int \<Rightarrow> bool" where
  "may_null i \<longleftrightarrow> i \<in> {0, 3, 4, 5, 6, 243, 244, 451, 452, 453, 455, 456, 458, 459, 469, 509, 510, 511, 513, 522}"

text \<open>The states of a path, of an authority, and behind the colon of a port.\<close>

definition in_path :: "int \<Rightarrow> bool" where
  "in_path i \<longleftrightarrow> i = 513 \<or> i = 243 \<or> i = 244"

definition in_auth :: "int \<Rightarrow> bool" where
  "in_auth i \<longleftrightarrow> 229 \<le> i \<and> i \<le> 242 \<or> 245 \<le> i \<and> i \<le> 450 \<or> i = 511 \<or> i = 512 \<or> 516 \<le> i"

definition at_port :: "int \<Rightarrow> bool" where
  "at_port i \<longleftrightarrow> i = 514 \<or> i = 521"

definition mark_ok :: "int \<Rightarrow> int option \<Rightarrow> int \<Rightarrow> int \<Rightarrow> bool \<Rightarrow> bool" where
  "mark_ok i k tgt off m =
     (case mark_after (act_list off) m of
        None \<Rightarrow> in_path i \<and> \<not> m \<or> at_port i \<and> (k = Some 63 \<or> k = Some 35)
      | Some m' \<Rightarrow> m' \<or> may_null tgt \<and> (in_path tgt \<longrightarrow> in_path i \<and> \<not> m \<or> at_port i \<and> k = Some 47))"

definition edge_ok :: "int \<Rightarrow> int option \<Rightarrow> int \<times> int \<Rightarrow> bool" where
  "edge_ok i k e =
     (case e of (tgt, off) \<Rightarrow>
        mark_ok i k tgt off True \<and> (may_null i \<longrightarrow> mark_ok i k tgt off False)
        \<and> (at_port tgt \<longrightarrow> k = Some 58 \<and> in_auth i)
        \<and> (in_auth tgt \<longrightarrow> in_auth i \<or> i = 510 \<and> k = Some 47)
        \<and> (tgt = 510 \<longrightarrow> k = Some 47))"

fun row_ok :: "int \<Rightarrow> int list \<Rightarrow> int list \<Rightarrow> bool" where
  "row_ok i ks [] = (ks = [])"
| "row_ok i [] (t # ts) = (edge_ok i None (uri_edge t) \<and> row_ok i [] ts)"
| "row_ok i (k # ks) (t # ts) = (edge_ok i (Some k) (uri_edge t) \<and> row_ok i ks ts)"

fun rows_ok :: "int \<Rightarrow> uri_row list \<Rightarrow> bool" where
  "rows_ok i [] = True"
| "rows_ok i ((s, r, t) # ws) = (row_ok i s t \<and> rows_ok (i + 1) ws)"

lemmas edge_checks = edge_ok_def mark_ok_def may_null_def in_path_def in_auth_def at_port_def uri_edge_def

lemma rows_ok_0: "rows_ok 1 uri_rows_0"
  by (simp add: uri_rows_0_def edge_checks)

lemma rows_ok_1: "rows_ok 57 uri_rows_1"
  by (simp add: uri_rows_1_def edge_checks)

lemma rows_ok_2: "rows_ok 113 uri_rows_2"
  by (simp add: uri_rows_2_def edge_checks)

lemma rows_ok_3: "rows_ok 169 uri_rows_3"
  by (simp add: uri_rows_3_def edge_checks)

lemma rows_ok_4: "rows_ok 225 uri_rows_4"
  by (simp add: uri_rows_4_def edge_checks)

lemma rows_ok_5: "rows_ok 281 uri_rows_5"
  by (simp add: uri_rows_5_def edge_checks)

lemma rows_ok_6: "rows_ok 337 uri_rows_6"
  by (simp add: uri_rows_6_def edge_checks)

lemma rows_ok_7: "rows_ok 393 uri_rows_7"
  by (simp add: uri_rows_7_def edge_checks)

lemma rows_ok_8: "rows_ok 449 uri_rows_8"
  by (simp add: uri_rows_8_def edge_checks)

lemma rows_ok_9: "rows_ok 505 uri_rows_9"
  by (simp add: uri_rows_9_def edge_checks)

lemma rows_ok_append: "rows_ok i (xs @ ys) \<longleftrightarrow> rows_ok i xs \<and> rows_ok (i + int (length xs)) ys"
  by (induction xs arbitrary: i) (auto simp: ac_simps)

lemma length_parts:
  "length uri_rows_0 = 56" "length uri_rows_1 = 56" "length uri_rows_2 = 56" "length uri_rows_3 = 56" "length uri_rows_4 = 56"
  "length uri_rows_5 = 56" "length uri_rows_6 = 56" "length uri_rows_7 = 56" "length uri_rows_8 = 56" "length uri_rows_9 = 56"
  by (simp_all add: uri_rows_parts)

lemma all_rows_ok: "rows_ok 1 uri_rows"
  by (simp add: uri_rows_def rows_ok_append length_parts rows_ok_0 rows_ok_1 rows_ok_2 rows_ok_3 rows_ok_4 rows_ok_5
      rows_ok_6 rows_ok_7 rows_ok_8 rows_ok_9)

lemma rows_ok_nth: "rows_ok i ws \<Longrightarrow> n < length ws \<Longrightarrow> row_ok (i + int n) (row_singles (ws ! n)) (row_trans (ws ! n))"
proof (induction ws arbitrary: i n)
  case (Cons w ws)
  obtain s r t where w: "w = (s, r, t)" by (metis surj_pair)
  show ?case
  proof (cases n)
    case (Suc m)
    then show ?thesis using Cons.IH [of "i + 1" m] Cons.prems w by (simp add: ac_simps)
  qed (use Cons.prems w in simp)
qed simp

lemma row_ok_at:
  "row_ok i ks ts \<Longrightarrow> n < length ts \<Longrightarrow> edge_ok i (if n < length ks then Some (ks ! n) else None) (uri_edge (ts ! n))"
proof (induction i ks ts arbitrary: n rule: row_ok.induct)
  case (2 i t ts)
  then show ?case by (cases n) auto
next
  case (3 i k ks t ts)
  show ?case
  proof (cases n)
    case (Suc m)
    then show ?thesis using 3(1) [of m] 3(2,3) by (simp split: if_split_asm)
  qed (use 3(2) in simp)
qed simp

lemma edge_of_ok:
  assumes "live cs"
  shows "\<exists>k. edge_ok cs k (edge_of cs p) \<and> (k = Some p \<or> k = None)"
proof -
  let ?w = "row_of cs" and ?n = "row_pos (row_of cs) p"
  have "row_ok cs (row_singles ?w) (row_trans ?w)"
    using rows_ok_nth [OF all_rows_ok, of "nat (cs - 1)"] assms by (auto simp: length_rows live_def row_of_def)
  from row_ok_at [OF this row_pos_less [OF row_of_wf [OF assms]], of p]
  have e: "edge_ok cs (if ?n < length (row_singles ?w) then Some (row_singles ?w ! ?n) else None) (edge_of cs p)"
    by (simp add: edge_of_def row_next_def)
  obtain s r t where w: "?w = (s, r, t)" by (metis surj_pair)
  have "s ! ?n = p" if "?n < length s" using that by (auto simp: w split: option.splits dest: idx_Some)
  with e w show ?thesis by (cases "?n < length s") auto
qed

section \<open>Running the actions\<close>

text \<open>Actions that do with the mark what \<^const>\<open>mark_after\<close> says.\<close>

definition marks_as :: "(int \<Rightarrow> uri_state \<Rightarrow> uri_fault + uri_state) \<Rightarrow> int list \<Rightarrow> bool" where
  "marks_as run as \<longleftrightarrow> (\<forall>a\<in>set as. \<forall>st.
     case mark_after [a] (u_mark st \<noteq> None) of
       None \<Rightarrow> run a st = Inl NullMark
     | Some m \<Rightarrow> \<exists>st'. run a st = Inr st' \<and> (u_mark st' \<noteq> None) = m \<and> u_cs st' = u_cs st)"

lemmas action_defs = run_action_def set_part_def save_port_def save_userinfo_def save_host_def

lemma run_action_marks: "8 \<notin> set as \<Longrightarrow> marks_as (run_action s p) as"
  by (auto simp: marks_as_def action_defs split: if_splits option.splits)

lemma run_eof_action_marks: "list_all (\<lambda>a. a \<noteq> 2 \<and> a \<noteq> 4) as \<Longrightarrow> marks_as (run_eof_action s p) as"
  by (auto simp: marks_as_def run_eof_action_def action_defs list_all_iff split: if_splits option.splits)

lemma mark_after_step: "mark_after (a # as) m = (case mark_after [a] m of None \<Rightarrow> None | Some m' \<Rightarrow> mark_after as m')"
  by simp

lemma exec_acts_mark:
  assumes "marks_as run as"
  shows "case mark_after as (u_mark st \<noteq> None) of
     None \<Rightarrow> exec_acts run as st = Inl NullMark
   | Some m \<Rightarrow> \<exists>st'. exec_acts run as st = Inr st' \<and> (u_mark st' \<noteq> None) = m \<and> u_cs st' = u_cs st"
  using assms
proof (induction as arbitrary: st)
  case (Cons a as)
  have a: "case mark_after [a] (u_mark st \<noteq> None) of None \<Rightarrow> run a st = Inl NullMark
     | Some m \<Rightarrow> \<exists>st'. run a st = Inr st' \<and> (u_mark st' \<noteq> None) = m \<and> u_cs st' = u_cs st"
    using Cons.prems by (simp only: marks_as_def list.set_intros)
  have as: "marks_as run as" using Cons.prems by (auto simp only: marks_as_def list.set_intros)
  show ?case
  proof (cases "mark_after [a] (u_mark st \<noteq> None)")
    case None
    then show ?thesis using a by (simp add: mark_after_step [of a as] del: mark_after.simps)
  next
    case (Some m)
    then obtain st' where st': "run a st = Inr st'" "(u_mark st' \<noteq> None) = m" "u_cs st' = u_cs st"
      using a by (auto simp del: mark_after.simps)
    show ?thesis using Cons.IH [OF as, of st'] Some st'
      by (simp add: mark_after_step [of a as] del: mark_after.simps split: option.splits)
  qed
qed simp

section \<open>The only way to fail\<close>

text \<open>An empty port: behind two slashes there is a colon at the end or before a slash, a question mark or a hash.\<close>

definition empty_port :: "string \<Rightarrow> bool" where
  "empty_port s \<longleftrightarrow> (\<exists>a b c. s = a @ ''//'' @ b @ '':'' @ c \<and> (c = [] \<or> hd c \<in> {CHR ''/'', CHR ''?'', CHR ''#''}))"

text \<open>What of it was read, by the end of the text read so far.\<close>

definition ends_slash :: "string \<Rightarrow> bool" where
  "ends_slash w \<longleftrightarrow> (\<exists>a. w = a @ ''/'')"

definition seen_auth :: "string \<Rightarrow> bool" where
  "seen_auth w \<longleftrightarrow> (\<exists>a b. w = a @ ''//'' @ b)"

definition seen_colon :: "string \<Rightarrow> bool" where
  "seen_colon w \<longleftrightarrow> (\<exists>a b. w = a @ ''//'' @ b @ '':'')"

definition seen_empty :: "string \<Rightarrow> bool" where
  "seen_empty w \<longleftrightarrow> (\<exists>a b d. w = a @ ''//'' @ b @ '':'' @ CHR ''/'' # d)"

lemma seen_steps:
  "ends_slash w \<Longrightarrow> seen_auth (w @ ''/'')" "seen_auth w \<Longrightarrow> seen_auth (w @ [c])" "seen_auth w \<Longrightarrow> seen_colon (w @ '':'')"
  "seen_colon w \<Longrightarrow> seen_empty (w @ ''/'')" "seen_empty w \<Longrightarrow> seen_empty (w @ [c])" "ends_slash (w @ ''/'')"
  unfolding ends_slash_def seen_auth_def seen_colon_def seen_empty_def by fastforce+

lemma seen_empty_port:
  "seen_empty w \<Longrightarrow> empty_port (w @ v)" "seen_colon w \<Longrightarrow> empty_port w"
  "seen_colon w \<Longrightarrow> c = CHR ''?'' \<or> c = CHR ''#'' \<Longrightarrow> empty_port (w @ c # v)"
proof -
  show "empty_port (w @ v)" if w: "seen_empty w"
  proof -
    obtain a b d where "w = a @ ''//'' @ b @ '':'' @ CHR ''/'' # d" using w unfolding seen_empty_def by blast
    then have "w @ v = a @ ''//'' @ b @ '':'' @ (CHR ''/'' # d @ v)" by simp
    then show ?thesis unfolding empty_port_def by (metis insertI1 list.sel(1))
  qed
  show "empty_port w" if "seen_colon w" using that by (auto simp: seen_colon_def empty_port_def)
  show "empty_port (w @ c # v)" if w: "seen_colon w" "c = CHR ''?'' \<or> c = CHR ''#''"
  proof -
    obtain a b where "w = a @ ''//'' @ b @ '':''" using w(1) unfolding seen_colon_def by blast
    then have "w @ c # v = a @ ''//'' @ b @ '':'' @ (c # v)" by simp
    with w(2) show ?thesis unfolding empty_port_def by (metis insertCI list.sel(1))
  qed
qed

definition run_inv :: "string \<Rightarrow> uri_state \<Rightarrow> bool" where
  "run_inv w st \<longleftrightarrow> 0 \<le> u_cs st \<and> u_cs st \<le> 560
     \<and> (u_mark st = None \<longrightarrow> may_null (u_cs st) \<and> (in_path (u_cs st) \<longrightarrow> seen_empty w))
     \<and> (in_auth (u_cs st) \<longrightarrow> seen_auth w) \<and> (at_port (u_cs st) \<longrightarrow> seen_colon w) \<and> (u_cs st = 510 \<longrightarrow> ends_slash w)"

lemma schar_keys:
  "schar c = 47 \<longleftrightarrow> c = CHR ''/''" "schar c = 58 \<longleftrightarrow> c = CHR '':''" "schar c = 63 \<longleftrightarrow> c = CHR ''?''" "schar c = 35 \<longleftrightarrow> c = CHR ''#''"
  using schar_inj [of c "CHR ''/''"] schar_inj [of c "CHR '':''"] schar_inj [of c "CHR ''?''"] schar_inj [of c "CHR ''#''"]
  by (simp_all add: schar_def)

lemma run_inv_step:
  assumes inv: "run_inv w st" and live: "live (u_cs st)"
  shows "(\<exists>st'. uri_step s p c st = Inr st' \<and> run_inv (w @ [c]) st') \<or> uri_step s p c st = Inl NullMark \<and> empty_port (w @ c # rest)"
proof -
  obtain cs' off where e: "edge_of (u_cs st) (schar c) = (cs', off)" by (cases "edge_of (u_cs st) (schar c)") auto
  note step = uri_step_edge [OF live e]
  obtain k where k: "edge_ok (u_cs st) k (cs', off)" "k = Some (schar c) \<or> k = None" using edge_of_ok [OF live] e by metis
  let ?m = "u_mark st \<noteq> None"
  have mk: "mark_ok (u_cs st) k cs' off ?m" using k(1) inv by (cases "u_mark st") (auto simp: edge_ok_def run_inv_def)
  have auth: "at_port cs' \<Longrightarrow> c = CHR '':'' \<and> in_auth (u_cs st)" "in_auth cs' \<Longrightarrow> in_auth (u_cs st) \<or> u_cs st = 510 \<and> c = CHR ''/''"
    "cs' = 510 \<Longrightarrow> c = CHR ''/''"
    using k by (auto simp: edge_ok_def schar_keys)
  have I: "at_port (u_cs st) \<Longrightarrow> seen_colon w" "in_auth (u_cs st) \<Longrightarrow> seen_auth w" "u_cs st = 510 \<Longrightarrow> ends_slash w"
    "\<not> ?m \<Longrightarrow> in_path (u_cs st) \<Longrightarrow> seen_empty w" using inv by (simp_all add: run_inv_def)
  show ?thesis
  proof (cases "mark_after (act_list off) ?m")
    case None
    have "uri_step s p c st = Inl NullMark"
      using exec_acts_mark [OF run_action_marks [OF step(5), of s p], of "st\<lparr>u_cs := cs'\<rparr>"] None step(1) by simp
    moreover have "in_path (u_cs st) \<and> \<not> ?m \<or> at_port (u_cs st) \<and> (c = CHR ''?'' \<or> c = CHR ''#'')"
      using mk None k(2) by (auto simp: mark_ok_def schar_keys)
    then have "empty_port (w @ c # rest)" using seen_empty_port(1,3) I(1,4) by blast
    ultimately show ?thesis by blast
  next
    case (Some m')
    obtain st' where st': "uri_step s p c st = Inr st'" "(u_mark st' \<noteq> None) = m'" "u_cs st' = cs'"
      using exec_acts_mark [OF run_action_marks [OF step(5), of s p], of "st\<lparr>u_cs := cs'\<rparr>"] Some step(1) by auto
    have null: "m' \<or> may_null cs' \<and> (in_path cs' \<longrightarrow> in_path (u_cs st) \<and> \<not> ?m \<or> at_port (u_cs st) \<and> c = CHR ''/'')"
      using mk Some k(2) by (auto simp: mark_ok_def schar_keys)
    then have "u_mark st' = None \<longrightarrow> may_null cs' \<and> (in_path cs' \<longrightarrow> seen_empty (w @ [c]))"
      using st'(2) I(1,4) seen_steps(4,5) by blast
    moreover have "in_auth cs' \<longrightarrow> seen_auth (w @ [c])" using auth(2) I(2,3) seen_steps(1,2) by blast
    moreover have "at_port cs' \<longrightarrow> seen_colon (w @ [c])" using auth(1) I(2) seen_steps(3) by blast
    moreover have "cs' = 510 \<longrightarrow> ends_slash (w @ [c])" using auth(3) seen_steps(6) by blast
    ultimately have "run_inv (w @ [c]) st'" using st'(3) step(2,3) by (simp add: run_inv_def)
    with st'(1) show ?thesis by blast
  qed
qed

lemma uri_run_inv:
  assumes "run_inv w st" "live (u_cs st)" "p = length w"
  shows "(\<exists>st'. uri_run s p rest st = Inr st' \<and> (u_cs st' = 0 \<or> live (u_cs st') \<and> run_inv (w @ rest) st'))
    \<or> uri_run s p rest st = Inl NullMark \<and> empty_port (w @ rest)"
  using assms
proof (induction rest arbitrary: w st p)
  case (Cons c rest)
  consider (ok) st' where "uri_step s p c st = Inr st'" "run_inv (w @ [c]) st'"
    | (fail) "uri_step s p c st = Inl NullMark" "empty_port (w @ c # rest)"
    using run_inv_step [OF Cons.prems(1,2), of s p c rest] by blast
  then show ?case
  proof cases
    case ok
    show ?thesis
    proof (cases "u_cs st' = 0")
      case False
      then have "live (u_cs st')" using ok(2) by (auto simp: run_inv_def live_def)
      from Cons.IH [OF ok(2) this, of "p + 1"] show ?thesis using ok(1) False Cons.prems(3) by simp
    qed (use ok(1) in simp)
  qed simp
qed simp

text \<open>The actions at the end of the text.\<close>

definition eof_ok :: "int \<Rightarrow> int \<Rightarrow> bool" where
  "eof_ok i off \<longleftrightarrow> (mark_after (act_list off) True \<noteq> None \<or> at_port i)
     \<and> (mark_after (act_list off) False \<noteq> None \<or> at_port i \<or> \<not> may_null i \<or> in_path i)
     \<and> list_all (\<lambda>a. a \<noteq> 2 \<and> a \<noteq> 4) (act_list off)"

fun eofs_ok :: "int \<Rightarrow> int list \<Rightarrow> bool" where
  "eofs_ok i [] = True"
| "eofs_ok i (off # os) = (eof_ok i off \<and> eofs_ok (i + 1) os)"

lemma all_eofs_ok: "eofs_ok 0 uri_parser_eof_actions"
  by (simp add: uri_parser_eof_actions_def eof_ok_def may_null_def in_path_def at_port_def)

lemma eofs_ok_nth: "eofs_ok i os \<Longrightarrow> n < length os \<Longrightarrow> eof_ok (i + int n) (os ! n)"
proof (induction os arbitrary: i n)
  case (Cons off os)
  then show ?case using Cons.IH [of "i + 1" "n - 1"] by (cases n) (auto simp: ac_simps)
qed simp

lemma uri_eof_inv:
  assumes "run_inv s st" "live (u_cs st)"
  shows "(\<exists>st'. uri_eof s st = Inr st') \<or> uri_eof s st = Inl NullMark \<and> empty_port s"
proof -
  let ?off = "uri_parser_eof_actions ! nat (u_cs st)" and ?m = "u_mark st \<noteq> None"
  have ok: "eof_ok (u_cs st) ?off"
    using eofs_ok_nth [OF all_eofs_ok, of "nat (u_cs st)"] assms(2) by (auto simp: table_lengths live_def)
  note run = uri_eof_acts(1) [OF assms(2)]
  have marks: "marks_as (run_eof_action s (length s)) (act_list ?off)" using ok by (intro run_eof_action_marks) (simp add: eof_ok_def)
  show ?thesis
  proof (cases "mark_after (act_list ?off) ?m")
    case None
    then have "at_port (u_cs st) \<or> \<not> ?m \<and> (\<not> may_null (u_cs st) \<or> in_path (u_cs st))" using ok by (cases ?m) (auto simp: eof_ok_def)
    then have "empty_port s" using assms(1) seen_empty_port(1) [of s "[]"] seen_empty_port(2) [of s] by (auto simp: run_inv_def)
    with None run show ?thesis using exec_acts_mark [OF marks, of st] by simp
  next
    case (Some m)
    with run show ?thesis using exec_acts_mark [OF marks, of st] by auto
  qed
qed

text \<open>
  C34: on every text the parser of Uris reads only inside its tables and returns, a Uri or none, unless the
  text has an empty port; only then may it build a string from a null pointer.
\<close>

theorem Uri_Create_total: "(\<exists>r. Uri_Create s = Inr r) \<or> Uri_Create s = Inl NullMark \<and> empty_port s"
proof -
  let ?st = "\<lparr>u_cs = uri_parser_start, u_mark = None, u_uri = new_Uri\<rparr>"
  have st: "run_inv [] ?st" "live (u_cs ?st)"
    by (simp_all add: run_inv_def live_def uri_parser_start_def may_null_def in_path_def in_auth_def at_port_def)
  consider (stop) st' where "uri_run s 0 s ?st = Inr st'" "u_cs st' = 0"
    | (finish) st' where "uri_run s 0 s ?st = Inr st'" "live (u_cs st')" "run_inv s st'"
    | (fail) "uri_run s 0 s ?st = Inl NullMark" "empty_port s"
    using uri_run_inv [OF st, of 0 s s] by auto
  then show ?thesis
  proof cases
    case finish
    from uri_eof_inv [OF finish(3,2)] show ?thesis using finish(1) by (auto simp: Uri_Create_def)
  qed (simp_all add: Uri_Create_def uri_eof_def)
qed

end
