(* ===== verification/UriEdges.thy ===== *)
theory UriEdges
  imports UriParse
begin

text \<open>
  The edges a printed Uri goes through, character class by character class: scheme, user, host with the
  states of decimal octets, port, path, query and fragment, with percent escapes.
\<close>

section \<open>Edges of the states a printed Uri goes through\<close>

lemma row_of_part: "uri_rows = xs @ ys @ zs \<Longrightarrow> length xs = k \<Longrightarrow> n < length ys \<Longrightarrow> row_of (int n + int k + 1) = ys ! n"
proof -
  assume *: "uri_rows = xs @ ys @ zs" "length xs = k" "n < length ys"
  have "(xs @ ys @ zs) ! (n + k) = ys ! n" using *(2,3) by (simp add: nth_append)
  moreover have "nat (int n + int k + 1 - 1) = n + k" by simp
  ultimately show ?thesis using *(1) by (simp only: row_of_def)
qed

lemma row_of_0: "n < 56 \<Longrightarrow> row_of (int n + 1) = uri_rows_0 ! n"
  using row_of_part [of "[]" uri_rows_0 _ 0 n] by (simp add: uri_rows_def length_parts)

lemma row_of_4: "n < 56 \<Longrightarrow> row_of (int n + 225) = uri_rows_4 ! n"
  using row_of_part [of "uri_rows_0 @ uri_rows_1 @ uri_rows_2 @ uri_rows_3" uri_rows_4 _ 224 n] by (simp add: uri_rows_def length_parts add.commute)

lemma row_of_8: "n < 56 \<Longrightarrow> row_of (int n + 449) = uri_rows_8 ! n"
  using row_of_part [of "uri_rows_0 @ uri_rows_1 @ uri_rows_2 @ uri_rows_3 @ uri_rows_4 @ uri_rows_5 @ uri_rows_6 @ uri_rows_7"
      uri_rows_8 _ 448 n] by (simp add: uri_rows_def length_parts add.commute)

lemma row_of_9: "n < 56 \<Longrightarrow> row_of (int n + 505) = uri_rows_9 ! n"
  using row_of_part [of "uri_rows_0 @ uri_rows_1 @ uri_rows_2 @ uri_rows_3 @ uri_rows_4 @ uri_rows_5 @ uri_rows_6 @ uri_rows_7 @ uri_rows_8"
      uri_rows_9 "[]" 504 n] by (simp add: uri_rows_def length_parts add.commute)

lemma row_simps:
  "row_of 1 = ([], [(48, 57), (65, 70), (97, 102)], [0, 0, 0, 1])"
  "row_of 2 = ([], [(48, 57), (65, 70), (97, 102)], [2, 2, 2, 1])"
  "row_of 7 = ([], [(48, 57), (65, 70), (97, 102)], [7, 7, 7, 1])"
  "row_of 8 = ([], [(48, 57), (65, 70), (97, 102)], [8, 8, 8, 1])"
  "row_of 243 = ([], [(48, 57), (65, 70), (97, 102)], [255, 255, 255, 1])"
  "row_of 244 = ([], [(48, 57), (65, 70), (97, 102)], [256, 256, 256, 1])"
  "row_of 451 = ([34, 35, 37, 47, 58, 60, 62, 63, 96, 127], [(0, 32), (65, 90), (91, 94), (97, 122), (123, 125)], [1, 457, 458, 459, 1, 1, 1, 460, 1, 1, 1, 461, 1, 461, 1, 4])"
  "row_of 453 = ([37, 60, 62, 96, 127], [(0, 32), (34, 35), (91, 94), (123, 125)], [463, 1, 1, 1, 1, 1, 1, 1, 1, 462])"
  "row_of 454 = ([37, 60, 62, 96, 127], [(0, 32), (34, 35), (91, 94), (123, 125)], [464, 1, 1, 1, 1, 1, 1, 1, 1, 2])"
  "row_of 456 = ([34, 35, 37, 60, 62, 96, 127], [(0, 32), (91, 94), (123, 125)], [1, 467, 468, 1, 1, 1, 1, 1, 1, 1, 466])"
  "row_of 457 = ([34, 35, 37, 60, 62, 96, 127], [(0, 32), (91, 94), (123, 125)], [1, 469, 470, 1, 1, 1, 1, 1, 1, 1, 8])"
  "row_of 508 = ([34, 35, 37, 43, 47, 58, 60, 62, 63, 96, 127], [(0, 32), (45, 57), (65, 90), (91, 94), (97, 122), (123, 125)], [1, 457, 458, 542, 6, 543, 1, 1, 460, 1, 1, 1, 542, 542, 1, 542, 1, 4])"
  "row_of 509 = ([34, 35, 37, 47, 60, 62, 63, 96, 127], [(0, 32), (91, 94), (123, 125)], [1, 457, 465, 544, 1, 1, 460, 1, 1, 1, 1, 1, 6])"
  "row_of 510 = ([34, 35, 37, 47, 60, 62, 63, 96, 127], [(0, 32), (91, 94), (123, 125)], [1, 457, 465, 545, 1, 1, 460, 1, 1, 1, 1, 1, 6])"
  "row_of 511 = ([2, 33, 35, 37, 47, 48, 49, 50, 58, 59, 61, 63, 64, 91, 95, 126], [(36, 46), (51, 57), (65, 90), (97, 122)], [546, 547, 548, 549, 550, 551, 552, 553, 555, 547, 547, 556, 557, 558, 547, 547, 547, 554, 547, 547, 1])"
  "row_of 513 = ([34, 35, 37, 60, 62, 63, 96, 127], [(0, 32), (91, 94), (123, 125)], [1, 563, 564, 1, 1, 565, 1, 1, 1, 1, 1, 256])"
  "row_of 514 = ([35, 47, 63], [(48, 57)], [566, 567, 569, 568, 1])"
  "row_of 515 = ([35, 47, 63], [(48, 57)], [570, 571, 573, 572, 1])"
  "row_of 520 = ([33, 35, 37, 47, 58, 61, 63, 64, 95, 126], [(36, 59), (65, 90), (97, 122)], [260, 559, 575, 560, 576, 260, 562, 263, 260, 260, 260, 260, 260, 1])"
  "row_of 521 = ([33, 35, 37, 47, 61, 63, 64, 95, 126], [(36, 46), (48, 57), (58, 59), (65, 90), (97, 122)], [261, 566, 262, 567, 261, 569, 263, 261, 261, 261, 577, 261, 261, 261, 1])"
  "row_of 522 = ([2, 33, 35, 37, 47, 48, 49, 50, 58, 59, 61, 63, 91, 95, 126], [(36, 46), (51, 57), (65, 90), (97, 122)], [546, 578, 548, 579, 550, 580, 581, 582, 584, 578, 578, 556, 558, 578, 578, 578, 583, 578, 578, 1])"
  "row_of 542 = ([33, 35, 37, 47, 61, 63, 64, 95, 126], [(36, 46), (48, 57), (58, 59), (65, 90), (97, 122)], [261, 570, 262, 571, 261, 573, 263, 261, 261, 261, 602, 261, 261, 261, 1])"
  using row_of_0 [of 0]
    row_of_0 [of 1]
    row_of_0 [of 6]
    row_of_0 [of 7]
    row_of_4 [of 18]
    row_of_4 [of 19]
    row_of_8 [of 2]
    row_of_8 [of 4]
    row_of_8 [of 5]
    row_of_8 [of 7]
    row_of_8 [of 8]
    row_of_9 [of 3]
    row_of_9 [of 4]
    row_of_9 [of 5]
    row_of_9 [of 6]
    row_of_9 [of 8]
    row_of_9 [of 9]
    row_of_9 [of 10]
    row_of_9 [of 15]
    row_of_9 [of 16]
    row_of_9 [of 17]
    row_of_9 [of 37]
  by (simp_all add: uri_rows_0_def uri_rows_4_def uri_rows_8_def uri_rows_9_def)

lemma edge_by_row: "row_of cs = (s, r, t) \<Longrightarrow> edge_of cs p = uri_edge (t ! row_pos (s, r, t) p)"
  by (simp add: edge_of_def row_next_def)

lemma edge_single_simps:
  "edge_of 508 58 = (509, 5)" "edge_of 509 47 = (510, 0)" "edge_of 510 47 = (511, 0)"
  "edge_of 521 47 = (513, 25)" "edge_of 542 47 = (513, 34)" "edge_of 515 47 = (513, 34)"
  "edge_of 513 63 = (456, 13)" "edge_of 513 35 = (453, 13)" "edge_of 457 35 = (453, 15)"
  "edge_of 513 37 = (243, 0)" "edge_of 456 37 = (7, 1)" "edge_of 457 37 = (7, 0)" "edge_of 453 37 = (1, 1)" "edge_of 454 37 = (1, 0)"
  by (simp_all add: edge_by_row row_simps uri_edge_def)

section \<open>Characters\<close>

definition alpha_keys :: "int list" where
  "alpha_keys = [65..90] @ [97..122]"

definition digit_keys :: "int list" where
  "digit_keys = [48..57]"

definition scheme_keys :: "int list" where
  "scheme_keys = [65..90] @ [97..122] @ [48..57] @ [43, 45, 46]"

text \<open>The unreserved characters and the sub-delimiters.\<close>

definition host_keys :: "int list" where
  "host_keys = [33, 36] @ [38..46] @ [48..57] @ [59, 61] @ [65..90] @ [95] @ [97..122] @ [126]"

definition query_key :: "int \<Rightarrow> bool" where
  "query_key k \<longleftrightarrow> k \<notin> {34, 35, 37, 60, 62, 96, 127} \<and> \<not> (0 \<le> k \<and> k \<le> 32) \<and> \<not> (91 \<le> k \<and> k \<le> 94) \<and> \<not> (123 \<le> k \<and> k \<le> 125)"

definition path_key :: "int \<Rightarrow> bool" where
  "path_key k \<longleftrightarrow> query_key k \<and> k \<noteq> 63"

text \<open>An edge by the position of its key in the row.\<close>

lemma edge_at: "row_of cs = w \<Longrightarrow> row_pos w k = n \<Longrightarrow> edge_of cs k = uri_edge (row_trans w ! n)"
  by (simp add: edge_of_def row_next_def)

lemma edge_default_simps:
  "path_key k \<Longrightarrow> edge_of 513 k = (513, 0)" "query_key k \<Longrightarrow> edge_of 456 k = (457, 1)" "query_key k \<Longrightarrow> edge_of 457 k = (457, 0)"
  "query_key k \<Longrightarrow> edge_of 453 k = (454, 1)" "query_key k \<Longrightarrow> edge_of 454 k = (454, 0)"
proof -
  show "path_key k \<Longrightarrow> edge_of 513 k = (513, 0)"
    by (subst edge_at [OF row_simps(16), of _ 11]) (auto simp: path_key_def query_key_def uri_edge_def)
  show "query_key k \<Longrightarrow> edge_of 456 k = (457, 1)"
    by (subst edge_at [OF row_simps(10), of _ 10]) (auto simp: query_key_def uri_edge_def)
  show "query_key k \<Longrightarrow> edge_of 457 k = (457, 0)"
    by (subst edge_at [OF row_simps(11), of _ 10]) (auto simp: query_key_def uri_edge_def)
  show "query_key k \<Longrightarrow> edge_of 453 k = (454, 1)"
    by (subst edge_at [OF row_simps(8), of _ 9]) (auto simp: query_key_def uri_edge_def)
  show "query_key k \<Longrightarrow> edge_of 454 k = (454, 0)"
    by (subst edge_at [OF row_simps(9), of _ 9]) (auto simp: query_key_def uri_edge_def)
qed

text \<open>Edges of finitely many keys, evaluated one by one.\<close>

fun class_ok :: "uri_row \<Rightarrow> int list \<Rightarrow> int \<times> int \<Rightarrow> bool" where
  "class_ok w [] e = True"
| "class_ok w (k # ks) e = (uri_edge (row_trans w ! row_pos w k) = e \<and> class_ok w ks e)"

lemma class_okD: "class_ok (row_of cs) ks e \<Longrightarrow> k \<in> set ks \<Longrightarrow> edge_of cs k = e"
  by (induction ks) (auto simp: edge_of_def row_next_def)

lemma class_rows:
  "class_ok (row_of 451) alpha_keys (508, 1)" "class_ok (row_of 508) scheme_keys (508, 0)"
  "class_ok (row_of 521) digit_keys (542, 3)" "class_ok (row_of 542) digit_keys (542, 0)"
  "class_ok (row_of 514) digit_keys (515, 3)" "class_ok (row_of 515) digit_keys (515, 0)"
  "class_ok (row_of 243) hex_keys (244, 0)" "class_ok (row_of 244) hex_keys (513, 0)"
  "class_ok (row_of 7) hex_keys (8, 0)" "class_ok (row_of 8) hex_keys (457, 0)"
  "class_ok (row_of 1) hex_keys (2, 0)" "class_ok (row_of 2) hex_keys (454, 0)"
  by (simp_all add: row_simps uri_edge_def upto.simps alpha_keys_def scheme_keys_def digit_keys_def hex_keys_def)

lemmas edge_class_simps = class_rows [THEN class_okD]

text \<open>The states of a host, without and with a user before it: decimal octets have states of their own.\<close>

definition host_state :: "bool \<Rightarrow> int \<Rightarrow> bool" where
  "host_state user q \<longleftrightarrow> (if user then 523 \<le> q \<and> q \<le> 541 else q = 520 \<or> 543 \<le> q \<and> q \<le> 560)"

fun host_keys_ok :: "bool \<Rightarrow> int \<Rightarrow> uri_row \<Rightarrow> int list \<Rightarrow> bool" where
  "host_keys_ok user off w [] = True"
| "host_keys_ok user off w (k # ks) =
     ((case uri_edge (row_trans w ! row_pos w k) of (q, o') \<Rightarrow> o' = off \<and> host_state user q) \<and> host_keys_ok user off w ks)"

lemma host_keys_okD:
  "host_keys_ok user off (row_of cs) ks \<Longrightarrow> k \<in> set ks \<Longrightarrow> \<exists>q. edge_of cs k = (q, off) \<and> host_state user q"
  by (induction ks) (auto simp: edge_of_def row_next_def)

fun hosts_ok :: "bool \<Rightarrow> uri_row list \<Rightarrow> bool" where
  "hosts_ok user [] = True"
| "hosts_ok user (w # ws) =
     (host_keys_ok user 0 w host_keys
      \<and> uri_edge (row_trans w ! row_pos w 58) = (if user then 514 else 521, 11)
      \<and> uri_edge (row_trans w ! row_pos w 47) = (513, 37)
      \<and> (\<not> user \<longrightarrow> uri_edge (row_trans w ! row_pos w 64) = (522, 9))
      \<and> hosts_ok user ws)"

lemma host_keys_list: "host_keys = [33, 36, 38, 39, 40, 41, 42, 43, 44, 45, 46, 48, 49, 50, 51, 52, 53, 54, 55, 56, 57, 59, 61, 65, 66, 67, 68,
    69, 70, 71, 72, 73, 74, 75, 76, 77, 78, 79, 80, 81, 82, 83, 84, 85, 86, 87, 88, 89, 90, 95, 97, 98, 99, 100, 101, 102, 103, 104,
    105, 106, 107, 108, 109, 110, 111, 112, 113, 114, 115, 116, 117, 118, 119, 120, 121, 122, 126]"
  by (simp add: host_keys_def upto.simps)

lemma host_rows_user: "hosts_ok True (take 19 (drop 18 uri_rows_9))"
  by (simp add: uri_rows_9_def host_state_def host_keys_list uri_edge_def)

lemma host_rows: "hosts_ok False [row_of 520]" "hosts_ok False (drop 38 uri_rows_9)"
  by (simp_all add: uri_rows_9_def row_simps host_state_def host_keys_list uri_edge_def)

lemma host_first: "host_keys_ok False 3 (row_of 511) host_keys" "host_keys_ok True 3 (row_of 522) host_keys"
  by (simp_all add: row_simps host_state_def host_keys_list uri_edge_def)

lemma hosts_ok_set: "hosts_ok user ws \<Longrightarrow> w \<in> set ws \<Longrightarrow> hosts_ok user [w]"
  by (induction ws) auto

lemma host_state_row:
  assumes "host_state user q"
  shows "hosts_ok user [row_of q]"
proof -
  define n where "n = nat (q - 505)"
  have n: "n < 56" "row_of q = uri_rows_9 ! n" if "505 \<le> q" "q \<le> 560"
    using row_of_9 [of n] that by (auto simp: n_def)
  consider "user" "18 \<le> n" "n < 37" "505 \<le> q" "q \<le> 560" | "\<not> user" "q = 520" | "\<not> user" "38 \<le> n" "n < 56" "505 \<le> q" "q \<le> 560"
    using assms by (auto simp: host_state_def n_def split: if_splits)
  then show ?thesis
  proof cases
    case 1
    have "uri_rows_9 ! n = take 19 (drop 18 uri_rows_9) ! (n - 18)" using 1 by (simp add: length_parts)
    moreover have "take 19 (drop 18 uri_rows_9) ! (n - 18) \<in> set (take 19 (drop 18 uri_rows_9))"
      using 1 by (intro nth_mem) (simp add: length_parts)
    ultimately show ?thesis using hosts_ok_set [OF host_rows_user] n 1 by simp
  next
    case 2
    then show ?thesis using host_rows(1) by simp
  next
    case 3
    have "uri_rows_9 ! n = drop 38 uri_rows_9 ! (n - 38)" using 3 by (simp add: length_parts)
    moreover have "drop 38 uri_rows_9 ! (n - 38) \<in> set (drop 38 uri_rows_9)"
      using 3 by (intro nth_mem) (simp add: length_parts)
    ultimately show ?thesis using hosts_ok_set [OF host_rows(2)] n 3 by simp
  qed
qed

lemma host_edges:
  assumes "host_state user q"
  shows "k \<in> set host_keys \<Longrightarrow> \<exists>q'. edge_of q k = (q', 0) \<and> host_state user q'"
    "edge_of q 58 = (if user then 514 else 521, 11)" "edge_of q 47 = (513, 37)" "\<not> user \<Longrightarrow> edge_of q 64 = (522, 9)"
proof -
  have ok: "hosts_ok user [row_of q]" by (rule host_state_row [OF assms])
  then have "host_keys_ok user 0 (row_of q) host_keys" by simp
  then show "k \<in> set host_keys \<Longrightarrow> \<exists>q'. edge_of q k = (q', 0) \<and> host_state user q'" by (rule host_keys_okD)
  show "edge_of q 58 = (if user then 514 else 521, 11)" "edge_of q 47 = (513, 37)" "\<not> user \<Longrightarrow> edge_of q 64 = (522, 9)"
    using ok by (auto simp: edge_of_def row_next_def)
qed

end
