(* ===== verification/UriRound.thy ===== *)
theory UriRound
  imports UriEdges
begin

text \<open>
  A Uri that is printed is read back. A run of the parser over a part of the text is followed with the
  edges of the character classes; the actions on the way cut the parts out of the text.
\<close>

section \<open>Runs\<close>

definition goes :: "string \<Rightarrow> nat \<Rightarrow> string \<Rightarrow> uri_state \<Rightarrow> uri_state \<Rightarrow> bool" where
  "goes s p w st st' \<longleftrightarrow> uri_run s p w st = Inr st' \<and> u_cs st' \<noteq> 0"

lemma uri_goes_Nil: "u_cs st \<noteq> 0 \<Longrightarrow> goes s p [] st st"
  by (simp add: goes_def)

lemma uri_goes_append:
  "goes s p v st st1 \<Longrightarrow> goes s (p + length v) w st1 st2 \<Longrightarrow> goes s p (v @ w) st st2"
proof (induction v arbitrary: p st)
  case (Cons c v)
  obtain st' where "uri_step s p c st = Inr st'" "u_cs st' \<noteq> 0" "goes s (p + 1) v st' st1"
    using Cons.prems(1) by (auto simp: goes_def result_simps split: if_splits)
  with Cons.IH [of "p + 1" st'] Cons.prems(2) show ?case by (simp add: goes_def)
qed (simp add: goes_def)

lemma goes_step:
  assumes "edge_of (u_cs st) (schar c) = (q, off)" "live (u_cs st)" "exec_acts (run_action s p) (act_list off) (st\<lparr>u_cs := q\<rparr>) = Inr st'"
    "u_cs st' \<noteq> 0"
  shows "goes s p [c] st st'"
  using uri_step_edge(1) [OF assms(2,1)] assms(3,4) by (simp add: goes_def)

lemma goes_move:
  assumes "edge_of (u_cs st) (schar c) = (q, 0)" "live (u_cs st)" "q \<noteq> 0"
  shows "goes s p [c] st (st\<lparr>u_cs := q\<rparr>)"
  by (rule goes_step [OF assms(1,2)]) (use assms(3) in simp_all)

text \<open>A loop over characters of a class within a set of states.\<close>

lemma uri_goes_loop:
  assumes "\<And>q c. Q q \<Longrightarrow> C c \<Longrightarrow> \<exists>q'. edge_of q (schar c) = (q', 0) \<and> Q q'" "\<And>q. Q q \<Longrightarrow> live q"
  shows "Q (u_cs st) \<Longrightarrow> \<forall>c\<in>set w. C c \<Longrightarrow> \<exists>q. Q q \<and> goes s p w st (st\<lparr>u_cs := q\<rparr>)"
proof (induction w arbitrary: p st)
  case Nil
  then show ?case using assms(2) [OF Nil(1)] by (intro exI [of _ "u_cs st"]) (auto simp: goes_def live_def)
next
  case (Cons c w)
  obtain q where q: "edge_of (u_cs st) (schar c) = (q, 0)" "Q q" using assms(1) Cons.prems by force
  have "q \<noteq> 0" using assms(2) [OF q(2)] by (auto simp: live_def)
  then have g: "goes s p [c] st (st\<lparr>u_cs := q\<rparr>)" using goes_move [OF q(1) assms(2) [OF Cons.prems(1)]] by simp
  obtain q' where "Q q'" "goes s (p + 1) w (st\<lparr>u_cs := q\<rparr>) (st\<lparr>u_cs := q, u_cs := q'\<rparr>)"
    using Cons.IH [of "st\<lparr>u_cs := q\<rparr>" "p + 1"] q(2) Cons.prems(2) by auto
  with uri_goes_append [OF g, of w] show ?case by auto
qed

text \<open>The loop state of a part with escapes, and the states after a percent sign.\<close>

definition escape_loop :: "(int \<Rightarrow> bool) \<Rightarrow> int \<Rightarrow> int \<Rightarrow> int \<Rightarrow> bool" where
  "escape_loop P q q1 q2 \<longleftrightarrow> live q \<and> live q1 \<and> live q2 \<and> (\<forall>k. P k \<longrightarrow> edge_of q k = (q, 0)) \<and> edge_of q 37 = (q1, 0)
     \<and> (\<forall>k\<in>set hex_keys. edge_of q1 k = (q2, 0) \<and> edge_of q2 k = (q, 0))"

lemma live_nz: "live q \<Longrightarrow> q \<noteq> 0"
  by (auto simp: live_def)

lemma uri_goes_escape:
  assumes "escape_loop P q q1 q2" "schar h \<in> set hex_keys" "schar l \<in> set hex_keys" "u_cs st = q1"
  shows "goes s p [h, l] st (st\<lparr>u_cs := q\<rparr>)"
proof -
  have "goes s p [h] st (st\<lparr>u_cs := q2\<rparr>)" by (rule goes_move) (use assms live_nz in \<open>auto simp: escape_loop_def\<close>)
  moreover have "goes s (p + 1) [l] (st\<lparr>u_cs := q2\<rparr>) (st\<lparr>u_cs := q2, u_cs := q\<rparr>)"
    by (rule goes_move) (use assms live_nz in \<open>auto simp: escape_loop_def\<close>)
  ultimately show ?thesis using uri_goes_append [of s p "[h]" st _ "[l]"] by simp
qed

lemma uri_goes_text:
  assumes "text_ok P w" "escape_loop P q q1 q2" "u_cs st = q"
  shows "goes s p w st st"
proof -
  have st: "st\<lparr>u_cs := q\<rparr> = st" using assms(3) by (cases st) simp
  show ?thesis using assms(1)
proof (induction arbitrary: p rule: text_ok_induct)
  case Nil
  then show ?case using assms live_nz by (auto simp: goes_def escape_loop_def)
next
  case (Percent h l r)
  have a: "goes s p ''%'' st (st\<lparr>u_cs := q1\<rparr>)" by (rule goes_move) (use assms live_nz in \<open>auto simp: escape_loop_def\<close>)
  have b: "goes s (p + 1) [h, l] (st\<lparr>u_cs := q1\<rparr>) st"
    using uri_goes_escape [OF assms(2) Percent(1,2), of "st\<lparr>u_cs := q1\<rparr>" s "p + 1"] st by simp
  show ?case using uri_goes_append [OF a uri_goes_append [OF _ Percent.IH], of "[h, l]"] b by simp
next
  case (Plain c r)
  have "goes s p [c] st (st\<lparr>u_cs := q\<rparr>)" by (rule goes_move) (use Plain assms live_nz in \<open>auto simp: escape_loop_def\<close>)
  then show ?case using uri_goes_append [where v = "[c]", OF _ Plain.IH] st by simp
qed
qed

text \<open>The first character of a part sets the mark.\<close>

abbreviation uri_at :: "int \<Rightarrow> nat option \<Rightarrow> Uri \<Rightarrow> uri_state" where
  "uri_at q m u \<equiv> \<lparr>u_cs = q, u_mark = m, u_uri = u\<rparr>"

lemma act_lists:
  "act_list 1 = [0]" "act_list 3 = [1]" "act_list 5 = [2]" "act_list 9 = [4]" "act_list 11 = [5]" "act_list 13 = [6]"
  "act_list 15 = [7]" "act_list 34 = [3, 1]" "act_list 37 = [5, 1]"
  by simp_all

lemma uri_goes_enter:
  assumes "text_ok P w" "w \<noteq> []" "escape_loop P q q1 q2" "live q0" "\<And>k. P k \<Longrightarrow> edge_of q0 k = (q, 1)" "edge_of q0 37 = (q1, 1)"
  shows "goes s p w (uri_at q0 m u) (uri_at q (Some p) u)"
proof -
  obtain c cs where 2: "w = c # cs" using assms(2) by (cases w) auto
  have nz: "q \<noteq> 0" "q1 \<noteq> 0" using assms(3) live_nz by (auto simp: escape_loop_def)
  show ?thesis
  proof (cases "c = CHR ''%''")
    case True
    then obtain h l r where r: "cs = h # l # r" "schar h \<in> set hex_keys" "schar l \<in> set hex_keys" "text_ok P r"
      using 2 assms(1) by (auto split: list.splits)
    have a: "goes s p ''%'' (uri_at q0 m u) (uri_at q1 (Some p) u)"
      by (rule goes_step) (use assms(4,6) nz in \<open>auto simp: run_action_def\<close>)
    have b: "goes s (p + 1) [h, l] (uri_at q1 (Some p) u) (uri_at q (Some p) u)"
      using uri_goes_escape [OF assms(3) r(2,3), of "uri_at q1 (Some p) u"] by simp
    have c: "goes s (p + 1 + 2) r (uri_at q (Some p) u) (uri_at q (Some p) u)" by (rule uri_goes_text [OF r(4) assms(3)]) simp
    show ?thesis using uri_goes_append [OF a uri_goes_append [of s _ "[h, l]"], of _ r] b c 2 True r(1) by simp
  next
    case False
    have a: "goes s p [c] (uri_at q0 m u) (uri_at q (Some p) u)"
      by (rule goes_step) (use 2 False assms(1,4,5) nz in \<open>auto simp: run_action_def\<close>)
    have "goes s (p + 1) cs (uri_at q (Some p) u) (uri_at q (Some p) u)" by (rule uri_goes_text [OF _ assms(3)]) (use 2 False assms(1) in auto)
    with uri_goes_append [OF a] 2 show ?thesis by simp
  qed
qed

section \<open>The parts\<close>

lemma slice_mid: "s = pre @ w @ post \<Longrightarrow> m = length pre \<Longrightarrow> p = m + length w \<Longrightarrow> slice s m p = w"
  by (simp add: slice_def)

lemma live_simps: "1 \<le> q \<Longrightarrow> q \<le> 560 \<Longrightarrow> live q"
  by (simp add: live_def)

lemma schar_simps:
  "schar (CHR '':'') = 58" "schar (CHR ''/'') = 47" "schar (CHR ''@'') = 64" "schar (CHR ''?'') = 63" "schar (CHR ''#'') = 35"
  by (simp_all add: schar_def)

definition class_text :: "int list \<Rightarrow> string \<Rightarrow> bool" where
  "class_text ks w \<longleftrightarrow> (\<forall>c\<in>set w. schar c \<in> set ks)"

lemma goes_class:
  assumes "\<And>k. k \<in> set ks \<Longrightarrow> edge_of q k = (q, 0)" "live q" "class_text ks w"
  shows "goes s p w (uri_at q m u) (uri_at q m u)"
  using uri_goes_loop [of "\<lambda>q'. q' = q" "\<lambda>c. schar c \<in> set ks" "uri_at q m u" w s p] assms by (auto simp: class_text_def)

text \<open>The scheme, with the separator after it.\<close>

lemma goes_scheme:
  assumes "w \<noteq> []" "schar (hd w) \<in> set alpha_keys" "class_text scheme_keys (tl w)" "s = w @ rest"
  shows "goes s 0 (w @ ''://'') (uri_at 451 None u) (uri_at 511 None (u\<lparr>m_scheme := w\<rparr>))"
proof -
  obtain c cs where w: "w = c # cs" using assms(1) by (cases w) auto
  have a: "goes s 0 [c] (uri_at 451 None u) (uri_at 508 (Some 0) u)"
    by (rule goes_step) (use assms(2) w edge_class_simps(1) in \<open>auto simp: run_action_def live_simps\<close>)
  have b: "goes s 1 cs (uri_at 508 (Some 0) u) (uri_at 508 (Some 0) u)"
    by (rule goes_class [OF edge_class_simps(2)]) (use assms(3) w in \<open>auto simp: live_simps\<close>)
  have ab: "goes s 0 w (uri_at 451 None u) (uri_at 508 (Some 0) u)" using uri_goes_append [OF a] b w by simp
  have c: "goes s (length w) '':'' (uri_at 508 (Some 0) u) (uri_at 509 None (u\<lparr>m_scheme := w\<rparr>))"
    by (rule goes_step) (use assms(4) in \<open>auto simp: run_action_def set_part_def slice_def live_simps edge_single_simps schar_simps\<close>)
  have d: "goes s p ''/'' (uri_at 509 None v) (uri_at 510 None v)" for p v
    by (rule goes_step) (auto simp: live_simps edge_single_simps schar_simps)
  have e: "goes s p ''/'' (uri_at 510 None v) (uri_at 511 None v)" for p v
    by (rule goes_step) (auto simp: live_simps edge_single_simps schar_simps)
  have "goes s 0 (w @ '':'' @ ''/'' @ ''/'') (uri_at 451 None u) (uri_at 511 None (u\<lparr>m_scheme := w\<rparr>))"
    by (intro uri_goes_append [OF ab] uri_goes_append [OF _ uri_goes_append [OF d e]]) (use c in simp)
  then show ?thesis by simp
qed

lemma host_state_live: "host_state user q \<Longrightarrow> live q"
  by (auto simp: host_state_def live_def split: if_splits)

text \<open>The characters of a user or a host.\<close>

lemma goes_host:
  assumes "class_text host_keys w" "w \<noteq> []"
  shows "\<exists>q. host_state user q \<and> goes s p w (uri_at (if user then 522 else 511) m u) (uri_at q (Some p) u)"
proof -
  obtain c cs where w: "w = c # cs" using assms(2) by (cases w) auto
  let ?q0 = "if user then 522 else 511 :: int"
  obtain q where q: "edge_of ?q0 (schar c) = (q, 3)" "host_state user q"
    using host_keys_okD [OF host_first(1), of "schar c"] host_keys_okD [OF host_first(2), of "schar c"] assms(1) w
    by (cases user) (auto simp: class_text_def)
  have a: "goes s p [c] (uri_at ?q0 m u) (uri_at q (Some p) u)"
    by (rule goes_step) (use q live_nz [OF host_state_live [OF q(2)]] in \<open>auto simp: live_simps run_action_def\<close>)
  have "\<exists>q'. host_state user q' \<and> goes s (p + 1) cs (uri_at q (Some p) u) (uri_at q (Some p) u\<lparr>u_cs := q'\<rparr>)"
    by (rule uri_goes_loop [where C = "\<lambda>c. schar c \<in> set host_keys"])
       (use host_edges(1) host_state_live q(2) assms(1) w in \<open>auto simp: class_text_def\<close>)
  then show ?thesis using uri_goes_append [OF a] w by fastforce
qed

lemma goes_userinfo:
  assumes "class_text host_keys w" "w \<noteq> []" "s = pre @ w @ rest"
  shows "goes s (length pre) (w @ ''@'') (uri_at 511 None u) (uri_at 522 None (u\<lparr>m_userinfo := w\<rparr>))"
proof -
  obtain q where q: "host_state False q" "goes s (length pre) w (uri_at 511 None u) (uri_at q (Some (length pre)) u)"
    using goes_host [OF assms(1,2), of False s "length pre" None u] by auto
  have "goes s (length pre + length w) ''@'' (uri_at q (Some (length pre)) u) (uri_at 522 None (u\<lparr>m_userinfo := w\<rparr>))"
    by (rule goes_step)
       (use q(1) host_edges(4) [OF q(1)] host_state_live assms(3) in \<open>auto simp: schar_simps run_action_def save_userinfo_def slice_def\<close>)
  then show ?thesis using uri_goes_append [OF q(2)] by simp
qed

text \<open>A port is printed as digits; \<open>atoi\<close> reads them up to the path.\<close>

lemma digit_schar: "48 \<le> (of_char c :: nat) \<Longrightarrow> (of_char c :: nat) \<le> 57 \<Longrightarrow> schar c \<in> set digit_keys"
proof -
  assume *: "48 \<le> (of_char c :: nat)" "(of_char c :: nat) \<le> 57"
  have "(of_char c :: int) = int (of_char c)" by (rule of_nat_of_char [symmetric])
  with * have "schar c = int (of_char c)" by (simp add: schar_def)
  with * show ?thesis unfolding digit_keys_def set_upto atLeastAtMost_iff by simp
qed

lemma class_dec: "class_text digit_keys (dec n)"
  using dec_digits digit_schar by (auto simp: class_text_def)

lemma atoi_dec:
  assumes "n \<le> 65535"
  shows "atoi_value (dec n @ CHR ''/'' # r) = int n"
proof -
  let ?t = "dec n @ CHR ''/'' # r"
  obtain c cs where c: "dec n = c # cs" using dec_nonempty by (cases "dec n") auto
  have d: "48 \<le> (of_char c :: nat)" "(of_char c :: nat) \<le> 57" using dec_digits [of c n] c by auto
  then have ws: "dropWhile (\<lambda>c. c = CHR '' '' \<or> 9 \<le> (of_char c :: nat) \<and> (of_char c :: nat) \<le> 13) ?t = ?t"
    and sign: "c \<noteq> CHR ''-''" "c \<noteq> CHR ''+''" using c by auto
  have tw: "takeWhile (\<lambda>c. 48 \<le> (of_char c :: nat) \<and> (of_char c :: nat) \<le> 57) ?t = dec n"
    using dec_digits by (subst takeWhile_append2) auto
  have "sint (of_int (int n) :: 32 word) = int n"
    using assms by (simp add: signed_of_nat signed_take_bit_int_eq_self)
  then show ?thesis
    using ws sign tw c dec_value [of n] assms by (simp add: atoi_value_def digits_value_def Let_def mult.commute)
qed

text \<open>The host is stored at a port or at the path; the port, when there is one, at the path.\<close>

definition port_text :: "nat option \<Rightarrow> string" where
  "port_text po = (case po of None \<Rightarrow> [] | Some n \<Rightarrow> CHR '':'' # dec n)"

definition port_value :: "nat option \<Rightarrow> int \<Rightarrow> int" where
  "port_value po k = (case po of None \<Rightarrow> k | Some n \<Rightarrow> int n)"

lemma goes_port:
  assumes "host_state user q" "s = pre @ h @ port_text po @ CHR ''/'' # rest" "\<forall>n. po = Some n \<longrightarrow> n \<le> 65535"
  shows "goes s (length pre + length h) (port_text po @ ''/'') (uri_at q (Some (length pre)) u)
     (uri_at 513 (Some (length pre + length h + length (port_text po)))
        (u\<lparr>m_host := h, m_port := port_value po (m_port u)\<rparr>))"
proof (cases po)
  case None
  have "goes s (length pre + length h) ''/'' (uri_at q (Some (length pre)) u) (uri_at 513 (Some (length pre + length h)) (u\<lparr>m_host := h\<rparr>))"
    by (rule goes_step) (use host_edges(3) [OF assms(1)] host_state_live [OF assms(1)] assms(2)
        in \<open>auto simp: schar_simps run_action_def save_host_def slice_def\<close>)
  then show ?thesis using None by (simp add: port_text_def port_value_def)
next
  case (Some n)
  let ?p = "length pre + length h" and ?q1 = "if user then 514 else 521 :: int" and ?q2 = "if user then 515 else 542 :: int"
  let ?u = "u\<lparr>m_host := h\<rparr>"
  obtain c cs where c: "dec n = c # cs" using dec_nonempty by (cases "dec n") auto
  have d: "schar c \<in> set digit_keys" "class_text digit_keys cs" using class_dec [of n] c by (auto simp: class_text_def)
  have e1: "goes s ?p '':'' (uri_at q (Some (length pre)) u) (uri_at ?q1 (Some (length pre)) ?u)"
    by (rule goes_step) (use host_edges(2) [OF assms(1)] host_state_live [OF assms(1)] assms(2)
        in \<open>auto simp: schar_simps run_action_def save_host_def slice_def\<close>)
  have e2: "goes s (?p + 1) [c] (uri_at ?q1 (Some (length pre)) ?u) (uri_at ?q2 (Some (?p + 1)) ?u)"
    by (rule goes_step [where q = ?q2 and off = 3]) (use d edge_class_simps(3,5) in \<open>auto simp: live_simps run_action_def\<close>)
  have e3: "goes s (?p + 1 + 1) cs (uri_at ?q2 (Some (?p + 1)) ?u) (uri_at ?q2 (Some (?p + 1)) ?u)"
    by (rule goes_class [OF _ _ d(2)]) (use edge_class_simps(4,6) in \<open>auto simp: live_simps\<close>)
  have at: "drop (?p + 1) s = dec n @ CHR ''/'' # rest" using assms(2) Some by (simp add: port_text_def)
  have len: "length (dec n) = length cs + 1" using c by simp
  have e4: "goes s (?p + 1 + 1 + length cs) ''/'' (uri_at ?q2 (Some (?p + 1)) ?u)
      (uri_at 513 (Some (?p + 1 + 1 + length cs)) (?u\<lparr>m_port := int n\<rparr>))"
    by (rule goes_step) (use at atoi_dec [of n rest] assms(3) Some edge_single_simps(5,6)
        in \<open>auto simp: live_simps schar_simps run_action_def save_port_def\<close>)
  have "goes s ?p ('':'' @ [c] @ cs @ ''/'') (uri_at q (Some (length pre)) u)
      (uri_at 513 (Some (?p + 1 + 1 + length cs)) (?u\<lparr>m_port := int n\<rparr>))"
    using uri_goes_append [OF e1, of "[c] @ cs @ ''/''"] uri_goes_append [OF e2, of "cs @ ''/''"] uri_goes_append [OF e3 e4] by simp
  then show ?thesis using Some c by (simp add: port_text_def port_value_def)
qed

section \<open>The end\<close>

definition finishes :: "string \<Rightarrow> nat \<Rightarrow> string \<Rightarrow> uri_state \<Rightarrow> Uri \<Rightarrow> bool" where
  "finishes s p w st u \<longleftrightarrow> (\<exists>st' st''. goes s p w st st' \<and> uri_eof s st' = Inr st'' \<and> u_cs st'' \<ge> uri_parser_first_final \<and> u_uri st'' = u)"

lemma finishes_goes: "goes s p v st st1 \<Longrightarrow> finishes s (p + length v) w st1 u \<Longrightarrow> finishes s p (v @ w) st u"
  using uri_goes_append unfolding finishes_def by blast

lemma finishes_create: "finishes s 0 s (uri_at 451 None new_Uri) u \<Longrightarrow> Uri_Create s = Inr (Some u)"
  by (auto simp: finishes_def goes_def Uri_Create_def uri_parser_start_def uri_parser_first_final_def uri_parser_error_def)

lemma eof_rows:
  "uri_parser_eof_actions ! 513 = 13" "uri_parser_eof_actions ! 457 = 15" "uri_parser_eof_actions ! 454 = 17"
  by (simp_all add: uri_parser_eof_actions_def)

lemma escape_loops: "escape_loop path_key 513 243 244" "escape_loop query_key 457 7 8" "escape_loop query_key 454 1 2"
  by (simp_all add: escape_loop_def live_simps edge_default_simps edge_single_simps edge_class_simps)

lemma finishes_path:
  assumes "s = pre @ w" "m = length pre"
  shows "finishes s (length s) [] (uri_at 513 (Some m) u) (u\<lparr>m_path := w\<rparr>)"
  using assms by (auto simp: finishes_def goes_def uri_eof_acts live_simps eof_rows run_eof_action_def run_action_def set_part_def slice_def
      uri_parser_first_final_def)

lemma finishes_query:
  assumes "s = pre @ w" "m = length pre"
  shows "finishes s (length s) [] (uri_at 457 (Some m) u) (u\<lparr>m_query := w\<rparr>)"
  using assms by (auto simp: finishes_def goes_def uri_eof_acts live_simps eof_rows run_eof_action_def run_action_def set_part_def slice_def
      uri_parser_first_final_def)

lemma finishes_fragment:
  assumes "s = pre @ w" "m = length pre"
  shows "finishes s (length s) [] (uri_at 454 (Some m) u) (u\<lparr>m_fragment := w\<rparr>)"
  using assms by (auto simp: finishes_def goes_def uri_eof_acts live_simps eof_rows run_eof_action_def run_action_def set_part_def slice_def
      uri_parser_first_final_def)

definition mark_text :: "char \<Rightarrow> string \<Rightarrow> string" where
  "mark_text c w = (if w = [] then [] else c # w)"

text \<open>A fragment from the state after its number sign.\<close>

lemma finishes_fragment_text:
  assumes "text_ok query_key f" "f \<noteq> []" "s = pre @ f" "p = length pre"
  shows "finishes s p f (uri_at 453 m u) (u\<lparr>m_fragment := f\<rparr>)"
proof -
  have "goes s p f (uri_at 453 m u) (uri_at 454 (Some p) u)"
    by (rule uri_goes_enter [OF assms(1,2) escape_loops(3)]) (simp_all add: live_simps edge_default_simps edge_single_simps)
  moreover have "finishes s (p + length f) [] (uri_at 454 (Some p) u) (u\<lparr>m_fragment := f\<rparr>)"
    using finishes_fragment [of s pre f p u] assms(3,4) by simp
  ultimately show ?thesis using finishes_goes [of s p f _ _ "[]"] by simp
qed

lemma finishes_query_text:
  assumes "text_ok query_key v" "v \<noteq> []" "text_ok query_key f" "s = pre @ v @ mark_text (CHR ''#'') f" "p = length pre"
  shows "finishes s p (v @ mark_text (CHR ''#'') f) (uri_at 456 m u) (u\<lparr>m_query := v, m_fragment := (if f = [] then m_fragment u else f)\<rparr>)"
proof -
  have g: "goes s p v (uri_at 456 m u) (uri_at 457 (Some p) u)"
    by (rule uri_goes_enter [OF assms(1,2) escape_loops(2)]) (simp_all add: live_simps edge_default_simps edge_single_simps)
  show ?thesis
  proof (cases "f = []")
    case True
    have "finishes s (p + length v) [] (uri_at 457 (Some p) u) (u\<lparr>m_query := v\<rparr>)"
      using finishes_query [of s pre v p u] assms(4,5) True by (simp add: mark_text_def)
    then show ?thesis using finishes_goes [OF g, of "[]"] True by (simp add: mark_text_def)
  next
    case False
    have h: "goes s (p + length v) ''#'' (uri_at 457 (Some p) u) (uri_at 453 None (u\<lparr>m_query := v\<rparr>))"
      by (rule goes_step) (use assms(4,5) in \<open>auto simp: live_simps schar_simps edge_single_simps run_action_def set_part_def slice_def\<close>)
    have "finishes s (p + length v + 1) f (uri_at 453 None (u\<lparr>m_query := v\<rparr>)) (u\<lparr>m_query := v, m_fragment := f\<rparr>)"
      by (rule finishes_fragment_text [OF assms(3) False, of _ "pre @ v @ ''#''"]) (use assms(4,5) False in \<open>auto simp: mark_text_def\<close>)
    then show ?thesis using finishes_goes [OF g finishes_goes [OF h]] False by (simp add: mark_text_def)
  qed
qed

text \<open>The path, the query and the fragment, from the state of the path.\<close>

lemma finishes_tail:
  assumes "text_ok path_key w" "text_ok query_key v" "text_ok query_key f" "m_query u = []" "m_fragment u = []"
    "s = pre @ CHR ''/'' # w @ mark_text (CHR ''?'') v @ mark_text (CHR ''#'') f" "p = length pre"
  shows "finishes s (p + 1) (w @ mark_text (CHR ''?'') v @ mark_text (CHR ''#'') f) (uri_at 513 (Some p) u)
     (u\<lparr>m_path := CHR ''/'' # w, m_query := v, m_fragment := f\<rparr>)"
proof -
  let ?u = "u\<lparr>m_path := CHR ''/'' # w\<rparr>"
  have g: "goes s (p + 1) w (uri_at 513 (Some p) u) (uri_at 513 (Some p) u)" by (rule uri_goes_text [OF assms(1) escape_loops(1)]) simp
  have h: "goes s (p + 1 + length w) [c] (uri_at 513 (Some p) u) (uri_at q None ?u)" if "edge_of 513 (schar c) = (q, 13)" "q \<noteq> 0" for c q
    by (rule goes_step) (use that assms(6,7) in \<open>auto simp: live_simps run_action_def set_part_def slice_def\<close>)
  have q: "goes s (p + 1 + length w) ''?'' (uri_at 513 (Some p) u) (uri_at 456 None ?u)"
    "goes s (p + 1 + length w) ''#'' (uri_at 513 (Some p) u) (uri_at 453 None ?u)"
    by (rule h; simp add: schar_simps edge_single_simps)+
  consider "v \<noteq> []" | "v = []" "f = []" | "v = []" "f \<noteq> []" by blast
  then show ?thesis
  proof cases
    case 1
    have "finishes s (p + 1 + length w + 1) (v @ mark_text (CHR ''#'') f) (uri_at 456 None ?u) (?u\<lparr>m_query := v, m_fragment := f\<rparr>)"
      using finishes_query_text [OF assms(2) 1 assms(3), of s "pre @ CHR ''/'' # w @ ''?''" _ None ?u] assms(5-7) 1 by (auto simp: mark_text_def)
    then show ?thesis using finishes_goes [OF g finishes_goes [OF q(1)]] 1 by (simp add: mark_text_def)
  next
    case 2
    have "finishes s (p + 1 + length w) [] (uri_at 513 (Some p) u) ?u"
      using finishes_path [of s pre "CHR ''/'' # w" p u] assms(6,7) 2 by (simp add: mark_text_def)
    moreover have "?u\<lparr>m_query := [], m_fragment := []\<rparr> = ?u" using assms(4,5) by (cases u) simp
    ultimately show ?thesis using finishes_goes [OF g, of "[]"] 2 by (simp add: mark_text_def)
  next
    case 3
    have "finishes s (p + 1 + length w + 1) f (uri_at 453 None ?u) (?u\<lparr>m_fragment := f\<rparr>)"
      by (rule finishes_fragment_text [OF assms(3) 3(2), of _ "pre @ CHR ''/'' # w @ ''#''"]) (use assms(6,7) 3 in \<open>auto simp: mark_text_def\<close>)
    moreover have "?u\<lparr>m_query := []\<rparr> = ?u" using assms(4) by (cases u) simp
    ultimately show ?thesis using finishes_goes [OF g finishes_goes [OF q(2)]] 3 by (simp add: mark_text_def)
  qed
qed

section \<open>The round trip\<close>

definition uri_ok :: "Uri \<Rightarrow> bool" where
  "uri_ok u \<longleftrightarrow>
     m_scheme u \<noteq> [] \<and> schar (hd (m_scheme u)) \<in> set alpha_keys \<and> class_text scheme_keys (tl (m_scheme u))
     \<and> class_text host_keys (m_userinfo u) \<and> m_host u \<noteq> [] \<and> class_text host_keys (m_host u)
     \<and> 0 \<le> m_port u \<and> m_port u \<le> 65535
     \<and> (m_path u = [] \<or> hd (m_path u) = CHR ''/'') \<and> text_ok path_key (m_path u)
     \<and> text_ok query_key (m_query u) \<and> text_ok query_key (m_fragment u)"

definition dump_port :: "Uri \<Rightarrow> nat option" where
  "dump_port u = (if isDefaultPort u then None else Some (nat (m_port u)))"

lemma slash_keys: "path_key 47"
  by (simp add: path_key_def query_key_def)

lemma getPath_slash:
  assumes "uri_ok u"
  shows "\<exists>w. uri_getPath u = CHR ''/'' # w \<and> text_ok path_key w"
  using assms by (cases "m_path u") (auto simp: uri_ok_def uri_getPath_def slash_keys schar_simps)

text \<open>The parts of a printed Uri.\<close>

lemma uri_dump_parts:
  assumes "uri_ok u" "uri_getPath u = CHR ''/'' # w"
  shows "uri_dump u = (m_scheme u @ ''://'') @ (m_userinfo u @ (if m_userinfo u = [] then [] else ''@'')) @ m_host u
     @ (port_text (dump_port u) @ ''/'') @ w @ mark_text (CHR ''?'') (m_query u) @ mark_text (CHR ''#'') (m_fragment u)"
  using assms by (auto simp: uri_dump_def port_text_def dump_port_def mark_text_def int_text_def uri_ok_def)

text \<open>The authority: a user when there is one, the host and the port.\<close>

lemma goes_authority:
  assumes "class_text host_keys us" "class_text host_keys h" "h \<noteq> []" "\<forall>n. po = Some n \<longrightarrow> n \<le> 65535"
    "v = us @ (if us = [] then [] else ''@'')" "s = pre @ v @ h @ port_text po @ CHR ''/'' # rest" "m_userinfo u = []" "p = length pre"
  shows "goes s p (v @ h @ port_text po @ ''/'') (uri_at 511 None u)
     (uri_at 513 (Some (p + length v + length h + length (port_text po)))
        (u\<lparr>m_userinfo := us, m_host := h, m_port := port_value po (m_port u)\<rparr>))"
proof -
  let ?user = "us \<noteq> []" and ?u = "u\<lparr>m_userinfo := us\<rparr>"
  have id: "u\<lparr>m_userinfo := []\<rparr> = u" using assms(7) by (cases u) simp
  have a: "goes s p v (uri_at 511 None u) (uri_at (if ?user then 522 else 511) None ?u)"
    using goes_userinfo [OF assms(1), of s pre "''@'' @ h @ port_text po @ CHR ''/'' # rest" u] assms(5,6,8) id
    by (cases ?user) (auto simp: goes_def)
  obtain q where q: "host_state ?user q"
    "goes s (p + length v) h (uri_at (if ?user then 522 else 511) None ?u) (uri_at q (Some (p + length v)) ?u)"
    using goes_host [OF assms(2,3)] by blast
  have c: "goes s (p + length v + length h) (port_text po @ ''/'') (uri_at q (Some (p + length v)) ?u)
     (uri_at 513 (Some (p + length v + length h + length (port_text po)))
        (?u\<lparr>m_host := h, m_port := port_value po (m_port u)\<rparr>))"
    using goes_port [OF q(1), of s "pre @ v" h po rest ?u] assms(4,6,8) by simp
  show ?thesis using uri_goes_append [OF a uri_goes_append [OF q(2) c]] by simp
qed

text \<open>
  C15: a Uri that is printed and parsed is the Uri again, up to the port, which is not printed when it is the
  default of the scheme, and the path, which is a slash when it was empty. The parts have to be texts that
  stand for themselves in a Uri: a scheme of letters, digits, plus, minus and dots, a user and a host of
  unreserved characters and sub-delimiters, a port of 16 bits, a path that begins with a slash, and percent
  signs only before two hexadecimal digits.
\<close>
theorem uri_round_trip:
  assumes "uri_ok u"
  shows "Uri_Create (uri_dump u) = Inr (Some (u\<lparr>m_port := if isDefaultPort u then 0 else m_port u, m_path := uri_getPath u\<rparr>))"
proof -
  obtain w where w: "uri_getPath u = CHR ''/'' # w" "text_ok path_key w" using getPath_slash [OF assms] by blast
  define v po where "v = m_userinfo u @ (if m_userinfo u = [] then [] else ''@'')" and "po = dump_port u"
  define s tl' where "s = uri_dump u" and "tl' = w @ mark_text (CHR ''?'') (m_query u) @ mark_text (CHR ''#'') (m_fragment u)"
  let ?sch = "m_scheme u @ ''://''" and ?auth = "v @ m_host u @ port_text po @ ''/''"
  let ?u1 = "new_Uri\<lparr>m_scheme := m_scheme u\<rparr>"
  let ?u2 = "?u1\<lparr>m_userinfo := m_userinfo u, m_host := m_host u, m_port := port_value po 0\<rparr>"
  have s: "s = ?sch @ ?auth @ tl'" using uri_dump_parts [OF assms w(1)] by (simp add: s_def v_def po_def tl'_def)
  have pok: "\<forall>n. po = Some n \<longrightarrow> n \<le> 65535" using assms by (auto simp: po_def dump_port_def uri_ok_def)
  have a: "goes s 0 ?sch (uri_at 451 None new_Uri) (uri_at 511 None ?u1)"
    by (rule goes_scheme) (use assms s in \<open>auto simp: uri_ok_def\<close>)
  have b: "goes s (length ?sch) ?auth (uri_at 511 None ?u1)
      (uri_at 513 (Some (length ?sch + length v + length (m_host u) + length (port_text po))) ?u2)"
    using goes_authority [OF _ _ _ pok v_def, of "m_host u" s ?sch tl' ?u1] assms s by (simp add: uri_ok_def new_Uri_def)
  have c: "finishes s (length ?sch + length ?auth) tl' (uri_at 513 (Some (length ?sch + length v + length (m_host u) + length (port_text po))) ?u2)
     (?u2\<lparr>m_path := CHR ''/'' # w, m_query := m_query u, m_fragment := m_fragment u\<rparr>)"
    using finishes_tail [OF w(2), of "m_query u" "m_fragment u" ?u2 s "?sch @ v @ m_host u @ port_text po"] assms s
    by (simp add: uri_ok_def tl'_def new_Uri_def add.assoc)
  have "finishes s 0 s (uri_at 451 None new_Uri) (?u2\<lparr>m_path := CHR ''/'' # w, m_query := m_query u, m_fragment := m_fragment u\<rparr>)"
    using finishes_goes [OF a, of "?auth @ tl'"] finishes_goes [OF b, of tl'] c s by simp
  moreover have "?u2\<lparr>m_path := CHR ''/'' # w, m_query := m_query u, m_fragment := m_fragment u\<rparr>
      = u\<lparr>m_port := if isDefaultPort u then 0 else m_port u, m_path := uri_getPath u\<rparr>"
    using assms w(1) by (cases u) (auto simp: po_def port_value_def dump_port_def new_Uri_def uri_ok_def)
  ultimately show ?thesis using finishes_create s_def by simp
qed

text \<open>The Uri of the tests, with a user and a port.\<close>

definition sample_Uri :: Uri where
  "sample_Uri = \<lparr>m_scheme = ''http'', m_userinfo = ''admin'', m_host = ''www.sylar.top'', m_port = 8020, m_path = ''/test%20/uri'',
     m_query = ''id=100&name=sylar'', m_fragment = ''frg''\<rparr>"

lemma sample_ok: "uri_ok sample_Uri"
  by (simp add: uri_ok_def sample_Uri_def class_text_def schar_def alpha_keys_def scheme_keys_def host_keys_list hex_keys_def upto.simps
      path_key_def query_key_def)

theorem uri_round_trip_witness: "Uri_Create (uri_dump sample_Uri) = Inr (Some sample_Uri)"
  using uri_round_trip [OF sample_ok] by (simp add: sample_Uri_def isDefaultPort_def uri_getPath_def)

section \<open>Ports without digits\<close>

text \<open>
  A colon with no digits after the host clears the mark and the path is stored from a null mark.
\<close>

lemma empty_port_fails:
  assumes "sch \<noteq> []" "schar (hd sch) \<in> set alpha_keys" "class_text scheme_keys (tl sch)" "class_text host_keys h" "h \<noteq> []" "text_ok path_key w"
  shows "Uri_Create (sch @ ''://'' @ h @ '':/'' @ w) = Inl NullMark"
proof -
  define s where "s = sch @ ''://'' @ h @ '':/'' @ w"
  let ?u = "new_Uri\<lparr>m_scheme := sch\<rparr>" and ?p = "length (sch @ ''://'')"
  have a: "goes s 0 (sch @ ''://'') (uri_at 451 None new_Uri) (uri_at 511 None ?u)" by (rule goes_scheme [OF assms(1-3)]) (simp add: s_def)
  obtain q where q: "host_state False q" "goes s ?p h (uri_at 511 None ?u) (uri_at q (Some ?p) ?u)"
    using goes_host [OF assms(4,5), of False s ?p None ?u] by (auto simp del: length_append)
  have c: "goes s (?p + length h) '':'' (uri_at q (Some ?p) ?u) (uri_at 521 (Some ?p) (?u\<lparr>m_host := h\<rparr>))"
    by (rule goes_step) (use host_edges(2) [OF q(1)] host_state_live [OF q(1)] in
        \<open>auto simp: schar_simps run_action_def save_host_def slice_def s_def\<close>)
  have d: "goes s (?p + length h + 1) ''/'' (uri_at 521 (Some ?p) (?u\<lparr>m_host := h\<rparr>)) (uri_at 513 None (?u\<lparr>m_host := h\<rparr>))"
    by (rule goes_step) (auto simp: schar_simps live_simps edge_single_simps run_action_def save_port_def)
  have e: "goes s (?p + length h + 1 + 1) w (uri_at 513 None (?u\<lparr>m_host := h\<rparr>)) (uri_at 513 None (?u\<lparr>m_host := h\<rparr>))"
    by (rule uri_goes_text [OF assms(6) escape_loops(1)]) simp
  have "goes s 0 ((sch @ ''://'') @ h @ '':'' @ ''/'' @ w) (uri_at 451 None new_Uri) (uri_at 513 None (?u\<lparr>m_host := h\<rparr>))"
    using uri_goes_append [OF a, of "h @ '':'' @ ''/'' @ w"] uri_goes_append [OF q(2), of "'':'' @ ''/'' @ w"] uri_goes_append [OF c, of "''/'' @ w"]
      uri_goes_append [OF d, of w] e by simp
  then have "uri_run s 0 s (uri_at 451 None new_Uri) = Inr (uri_at 513 None (?u\<lparr>m_host := h\<rparr>))" by (simp add: goes_def s_def)
  then show ?thesis
    by (simp add: Uri_Create_def s_def uri_parser_start_def uri_eof_acts live_simps eof_rows run_eof_action_def run_action_def set_part_def)
qed

end
