(* ===== verification/Ragel.thy ===== *)
theory Ragel
  imports Util
begin

text \<open>
  The goto code that Ragel generates (\<open>http/http11_parser.cc\<close>, \<open>http/httpclient_parser.cc\<close>). A state tests the
  character at hand: the cases of its \<open>switch\<close>, then ranges, then a default; each leads to a state or to a
  transition, which runs actions and goes on to a state. A state that is entered advances to the next
  character, and stops at the end of the input. The actions belong to the parser. Labels that do not
  exist are an error value.
\<close>

section \<open>Code\<close>

datatype label = St nat | Tr nat

text \<open>
  A state has its number, whether it widens the characters that depend on the condition, its cases, its
  ranges and its default; a transition its number, its actions and the state it goes to.
\<close>

datatype 'a block =
    State nat bool "(int \<times> label) list" "(int \<times> int \<times> label) list" label
  | Trans nat "'a list" nat

type_synonym row = "bool \<times> (int \<times> label) list \<times> (int \<times> int \<times> label) list \<times> label"

fun find_state :: "'a block list \<Rightarrow> nat \<Rightarrow> row option" where
  "find_state [] n = None"
| "find_state (State m w cases ranges d # bs) n = (if n = m then Some (w, cases, ranges, d) else find_state bs n)"
| "find_state (Trans t as k # bs) n = find_state bs n"

fun find_transition :: "'a block list \<Rightarrow> nat \<Rightarrow> ('a list \<times> nat) option" where
  "find_transition [] n = None"
| "find_transition (Trans t as k # bs) n = (if n = t then Some (as, k) else find_transition bs n)"
| "find_transition (State m w cases ranges d # bs) n = find_transition bs n"

text \<open>The characters \<open>^\<close>, \<open>{\<close> and \<open>}\<close> are shifted out of the way, and further when the condition holds.\<close>

definition widen :: "bool \<Rightarrow> int \<Rightarrow> int" where
  "widen relaxed c = (if c = 94 \<or> c = 123 \<or> c = 125 then 128 + (c + 128) + (if relaxed then 256 else 0) else c)"

fun in_range :: "(int \<times> int \<times> label) list \<Rightarrow> int \<Rightarrow> label option" where
  "in_range [] c = None"
| "in_range ((lo, hi, l) # rs) c = (if lo \<le> c \<and> c \<le> hi then Some l else in_range rs c)"

definition select :: "bool \<Rightarrow> row \<Rightarrow> int \<Rightarrow> label" where
  "select relaxed r c =
     (case r of (w, cases, ranges, d) \<Rightarrow>
        let c = (if w then widen relaxed c else c)
        in (case map_of cases c of Some l \<Rightarrow> l
            | None \<Rightarrow> (case in_range ranges c of Some l \<Rightarrow> l | None \<Rightarrow> d)))"

section \<open>Running\<close>

datatype ragel_fault = NoLabel

text \<open>An action that breaks leaves the loop with a state of its own, after the character.\<close>

fun run_actions :: "('a \<Rightarrow> nat \<Rightarrow> 's \<Rightarrow> 's) \<Rightarrow> ('a \<Rightarrow> nat option) \<Rightarrow> nat \<Rightarrow> 'a list \<Rightarrow> 's \<Rightarrow> nat option \<times> 's" where
  "run_actions act brk p [] s = (None, s)"
| "run_actions act brk p (a # as) s =
     (case brk a of Some k \<Rightarrow> (Some k, act a p s) | None \<Rightarrow> run_actions act brk p as (act a p s))"

datatype 's move = Next nat 's | Break nat 's | Stop 's | Unmatched 's

definition ragel_move ::
  "'a block list \<Rightarrow> ('a \<Rightarrow> nat \<Rightarrow> 's \<Rightarrow> 's) \<Rightarrow> ('a \<Rightarrow> nat option) \<Rightarrow> bool \<Rightarrow> nat \<Rightarrow> char \<Rightarrow> nat \<Rightarrow> 's \<Rightarrow> ragel_fault + 's move" where
  "ragel_move code act brk relaxed p c cs s =
     (case find_state code cs of None \<Rightarrow> Inr (Unmatched s)
      | Some r \<Rightarrow>
          (case select relaxed r (schar c) of
             St k \<Rightarrow> Inr (if k = 0 then Stop s else Next k s)
           | Tr t \<Rightarrow>
               (case find_transition code t of None \<Rightarrow> Inl NoLabel
                | Some (as, k) \<Rightarrow>
                    (case run_actions act brk p as s of
                       (Some b, s) \<Rightarrow> Inr (Break b s) | (None, s) \<Rightarrow> Inr (Next k s)))))"

text \<open>
  The loop, from the character at \<open>p\<close> on: the state, the position and the actions' state when it stops. A
  state number that the \<open>switch\<close> does not know falls out of it into the code that follows, which sets
  the state 2.
\<close>

fun ragel_run ::
  "'a block list \<Rightarrow> ('a \<Rightarrow> nat \<Rightarrow> 's \<Rightarrow> 's) \<Rightarrow> ('a \<Rightarrow> nat option) \<Rightarrow> bool \<Rightarrow> nat \<Rightarrow> string \<Rightarrow> nat \<Rightarrow> 's
   \<Rightarrow> ragel_fault + nat \<times> nat \<times> 's" where
  "ragel_run code act brk relaxed p [] cs s = Inr (cs, p, s)"
| "ragel_run code act brk relaxed p (c # rest) cs s =
     bindr (ragel_move code act brk relaxed p c cs s) (\<lambda>m.
       case m of
         Next k s \<Rightarrow> ragel_run code act brk relaxed (p + 1) rest k s
       | Break k s \<Rightarrow> Inr (k, p + 1, s)
       | Stop s \<Rightarrow> Inr (0, p, s)
       | Unmatched s \<Rightarrow> Inr (2, p, s))"

section \<open>What the parsers share\<close>

text \<open>A failed assertion and a missing label.\<close>

datatype parser_fault = Assertion string | Label

text \<open>A \<open>size_t\<close> converted to an \<open>int\<close>.\<close>

definition to_int :: "nat \<Rightarrow> int" where
  "to_int n = sint (of_nat n :: 32 word)"

lemma to_int_small: "n < 2 ^ 31 \<Longrightarrow> to_int n = int n"
  by (simp add: to_int_def signed_of_nat signed_take_bit_int_eq_self)

text \<open>\<open>LEN\<close> is a subtraction of \<open>size_t\<close>.\<close>

definition len_from :: "nat \<Rightarrow> nat \<Rightarrow> nat" where
  "len_from at p = usub p at"

text \<open>A callback with the ranges of the buffer that it is given.\<close>

datatype 'cb call = Element 'cb nat nat | Field nat nat nat nat

fun call_in :: "nat \<Rightarrow> 'cb call \<Rightarrow> bool" where
  "call_in len (Element cb at n) \<longleftrightarrow> at + n \<le> len"
| "call_in len (Field f n v m) \<longleftrightarrow> f + n \<le> len \<and> v + m \<le> len"

text \<open>The text of a range of the buffer, and the characters of the names of fields.\<close>

definition part_of :: "string \<Rightarrow> nat \<Rightarrow> nat \<Rightarrow> string" where
  "part_of buffer at n = take n (drop at buffer)"

lemma part_of_mid: "b = pre @ w @ post \<Longrightarrow> at = length pre \<Longrightarrow> n = length w \<Longrightarrow> part_of b at n = w"
  by (simp add: part_of_def)

definition token_class :: "(int \<times> int) list" where
  "token_class = [(33, 33), (35, 39), (42, 43), (45, 46), (48, 57), (65, 90), (94, 122), (124, 124), (126, 126)]"

section \<open>Closed code\<close>

fun goto_ok :: "'a block list \<Rightarrow> label \<Rightarrow> bool" where
  "goto_ok code (St k) \<longleftrightarrow> k = 0 \<or> find_state code k \<noteq> None"
| "goto_ok code (Tr t) \<longleftrightarrow> find_transition code t \<noteq> None"

fun block_ok :: "'a block list \<Rightarrow> 'a block \<Rightarrow> bool" where
  "block_ok code (State n w cases ranges d) \<longleftrightarrow>
     list_all (\<lambda>(c, l). goto_ok code l) cases \<and> list_all (\<lambda>(lo, hi, l). goto_ok code l) ranges \<and> goto_ok code d"
| "block_ok code (Trans t as k) \<longleftrightarrow> find_state code k \<noteq> None"

lemma find_state_block: "find_state code n = Some (w, cases, ranges, d) \<Longrightarrow> State n w cases ranges d \<in> set code"
  by (induction code n rule: find_state.induct) (auto split: if_splits)

lemma find_transition_block: "find_transition code t = Some (as, k) \<Longrightarrow> Trans t as k \<in> set code"
  by (induction code t rule: find_transition.induct) (auto split: if_splits)

lemma in_range_mem: "in_range rs c = Some l \<Longrightarrow> \<exists>lo hi. (lo, hi, l) \<in> set rs \<and> lo \<le> c \<and> c \<le> hi"
  by (induction rs c rule: in_range.induct) (auto split: if_splits)

text \<open>Where a state can go.\<close>

lemma select_cases:
  assumes "select relaxed (w, cases, ranges, d) c = l"
  shows "(\<exists>k. (k, l) \<in> set cases) \<or> (\<exists>lo hi. (lo, hi, l) \<in> set ranges) \<or> l = d"
  using assms by (auto simp: select_def Let_def split: option.splits dest!: map_of_SomeD in_range_mem)

fun trans_list :: "'a block list \<Rightarrow> (nat \<times> 'a list \<times> nat) list" where
  "trans_list [] = []"
| "trans_list (State m w cases ranges d # bs) = trans_list bs"
| "trans_list (Trans t as k # bs) = (t, as, k) # trans_list bs"

lemma find_transition_list: "find_transition code t = map_of (trans_list code) t"
  by (induction code rule: trans_list.induct) auto

text \<open>
  A machine whose labels all exist: it never faults, ends in one of its states, in the error state or in a
  state of a break, and keeps what its actions keep.
\<close>

locale ragel_machine =
  fixes code :: "'a block list" and act :: "'a \<Rightarrow> nat \<Rightarrow> 's \<Rightarrow> 's" and brk :: "'a \<Rightarrow> nat option"
  assumes closed: "list_all (block_ok code) code"
begin

lemma select_ok: "find_state code n = Some r \<Longrightarrow> goto_ok code (select relaxed r c)"
proof -
  assume *: "find_state code n = Some r"
  obtain w cases ranges d where r: "r = (w, cases, ranges, d)" by (metis surj_pair)
  have "block_ok code (State n w cases ranges d)"
    using bspec [OF closed [unfolded list_all_iff] find_state_block] * r by simp
  then show ?thesis using select_cases [of relaxed w cases ranges d c] r by (fastforce simp: list_all_iff)
qed

lemma move_total: "\<exists>m. ragel_move code act brk relaxed p c cs s = Inr m"
proof (cases "find_state code cs")
  case (Some r)
  have ok: "goto_ok code (select relaxed r (schar c))" by (rule select_ok [OF Some])
  show ?thesis
  proof (cases "select relaxed r (schar c)")
    case (Tr t)
    then obtain as k where "find_transition code t = Some (as, k)" using ok by auto
    then show ?thesis using Some Tr by (auto simp: ragel_move_def split: prod.splits option.splits)
  qed (use Some in \<open>simp add: ragel_move_def\<close>)
qed (simp add: ragel_move_def)

lemma move_next:
  assumes "ragel_move code act brk relaxed p c cs s = Inr (Next k s')"
  shows "find_state code k \<noteq> None"
proof -
  obtain r where r: "find_state code cs = Some r" using assms by (auto simp: ragel_move_def split: option.splits)
  have ok: "goto_ok code (select relaxed r (schar c))" by (rule select_ok [OF r])
  show ?thesis
  proof (cases "select relaxed r (schar c)")
    case (St m)
    then show ?thesis using assms r ok by (auto simp: ragel_move_def split: if_splits)
  next
    case (Tr t)
    then obtain as where "find_transition code t = Some (as, k)"
      using assms r by (auto simp: ragel_move_def split: option.splits prod.splits)
    then show ?thesis using closed find_transition_block [of code t] by (fastforce simp: list_all_iff)
  qed
qed

lemma run_total: "\<exists>r. ragel_run code act brk relaxed p w cs s = Inr r"
proof (induction w arbitrary: p cs s)
  case (Cons c w)
  obtain m where "ragel_move code act brk relaxed p c cs s = Inr m" using move_total by blast
  then show ?case using Cons.IH by (cases m) auto
qed simp

lemma run_bounds: "ragel_run code act brk relaxed p w cs s = Inr (cs', p', s') \<Longrightarrow> p \<le> p' \<and> p' \<le> p + length w"
proof (induction w arbitrary: p cs s)
  case (Cons c w)
  obtain m where m: "ragel_move code act brk relaxed p c cs s = Inr m" using move_total by blast
  show ?case
  proof (cases m)
    case (Next k s1)
    then show ?thesis using Cons.IH [of "p + 1" k s1] Cons.prems m by simp
  qed (use Cons.prems m in auto)
qed simp

lemma run_actions_break: "run_actions act brk p as s = (Some k, s') \<Longrightarrow> \<exists>a\<in>set as. brk a = Some k"
  by (induction as arbitrary: s) (auto split: option.splits)

lemma move_break:
  assumes "ragel_move code act brk relaxed p c cs s = Inr (Break k s')"
  shows "\<exists>t as m. (t, as, m) \<in> set (trans_list code) \<and> (\<exists>a\<in>set as. brk a = Some k)"
proof -
  obtain t as m where "find_transition code t = Some (as, m)" "run_actions act brk p as s = (Some k, s')"
    using assms by (auto simp: ragel_move_def split: option.splits label.splits prod.splits if_splits)
  then show ?thesis using run_actions_break map_of_SomeD unfolding find_transition_list by fastforce
qed

lemma run_state:
  assumes "find_state code cs \<noteq> None" "ragel_run code act brk relaxed p w cs s = Inr (cs', p', s')"
  shows "cs' = 0 \<or> find_state code cs' \<noteq> None \<or> (\<exists>t as m. (t, as, m) \<in> set (trans_list code) \<and> (\<exists>a\<in>set as. brk a = Some cs'))"
  using assms
proof (induction w arbitrary: p cs s)
  case (Cons c w)
  obtain m where m: "ragel_move code act brk relaxed p c cs s = Inr m" using move_total by blast
  show ?case
  proof (cases m)
    case (Next k s1)
    then show ?thesis using Cons m move_next [of relaxed p c cs s k s1] by auto
  next
    case (Break k s1)
    then show ?thesis using Cons.prems m move_break [of relaxed p c cs s k s1] by auto
  next
    case (Unmatched s1)
    then show ?thesis using Cons.prems(1) m by (auto simp: ragel_move_def split: option.splits label.splits prod.splits if_splits)
  qed (use Cons.prems m in auto)
qed simp

text \<open>An invariant of the loop, by state and position, and what it gives at the end.\<close>

lemma run_ends:
  assumes "\<And>cs p s. J cs p s \<Longrightarrow> F cs p s"
    "\<And>cs p c s m. J cs p s \<Longrightarrow> p < pe \<Longrightarrow> ragel_move code act brk relaxed p c cs s = Inr m \<Longrightarrow>
       (case m of Next k s' \<Rightarrow> J k (p + 1) s' | Break k s' \<Rightarrow> F k (p + 1) s' | Stop s' \<Rightarrow> F 0 p s' | Unmatched s' \<Rightarrow> F 2 p s')"
    "ragel_run code act brk relaxed p w cs s = Inr (cs', p', s')" "J cs p s" "p + length w \<le> pe"
  shows "F cs' p' s'"
  using assms(3-5)
proof (induction w arbitrary: p cs s)
  case Nil
  then show ?case using assms(1) by auto
next
  case (Cons c w)
  obtain m where m: "ragel_move code act brk relaxed p c cs s = Inr m" using move_total by blast
  have "case m of Next k s' \<Rightarrow> J k (p + 1) s' | Break k s' \<Rightarrow> F k (p + 1) s' | Stop s' \<Rightarrow> F 0 p s' | Unmatched s' \<Rightarrow> F 2 p s'"
    by (rule assms(2) [OF Cons.prems(2) _ m]) (use Cons.prems(3) in simp)
  then show ?case using Cons m by (cases m) auto
qed

lemmas run_inv = run_ends [where F = "\<lambda>_. F" for F]

end

section \<open>Labels by number\<close>

text \<open>The labels that code declares, so that closed code can be checked label by label.\<close>

fun state_nums :: "'a block list \<Rightarrow> nat list" where
  "state_nums [] = []"
| "state_nums (State m w cases ranges d # bs) = m # state_nums bs"
| "state_nums (Trans t as k # bs) = state_nums bs"

fun trans_nums :: "'a block list \<Rightarrow> nat list" where
  "trans_nums [] = []"
| "trans_nums (State m w cases ranges d # bs) = trans_nums bs"
| "trans_nums (Trans t as k # bs) = t # trans_nums bs"

lemma find_state_num: "find_state code n \<noteq> None \<longleftrightarrow> n \<in> set (state_nums code)"
  by (induction code rule: state_nums.induct) auto

lemma find_transition_num: "find_transition code t \<noteq> None \<longleftrightarrow> t \<in> set (trans_nums code)"
  by (induction code rule: trans_nums.induct) auto

fun label_in :: "(nat \<Rightarrow> bool) \<Rightarrow> (nat \<Rightarrow> bool) \<Rightarrow> label \<Rightarrow> bool" where
  "label_in S T (St k) \<longleftrightarrow> k = 0 \<or> S k"
| "label_in S T (Tr t) \<longleftrightarrow> T t"

fun block_in :: "(nat \<Rightarrow> bool) \<Rightarrow> (nat \<Rightarrow> bool) \<Rightarrow> 'a block \<Rightarrow> bool" where
  "block_in S T (State n w cases ranges d) \<longleftrightarrow>
     list_all (\<lambda>(c, l). label_in S T l) cases \<and> list_all (\<lambda>(lo, hi, l). label_in S T l) ranges \<and> label_in S T d"
| "block_in S T (Trans t as k) \<longleftrightarrow> S k"

lemma goto_ok_in:
  assumes "\<And>k. S k \<Longrightarrow> find_state code k \<noteq> None" "\<And>t. T t \<Longrightarrow> find_transition code t \<noteq> None"
  shows "label_in S T l \<Longrightarrow> goto_ok code l"
  using assms by (cases l) auto

lemma block_ok_in:
  assumes "\<And>k. S k \<Longrightarrow> find_state code k \<noteq> None" "\<And>t. T t \<Longrightarrow> find_transition code t \<noteq> None"
  shows "block_in S T b \<Longrightarrow> block_ok code b"
  using assms goto_ok_in [OF assms] by (cases b) (auto simp: list_all_iff)

lemma state_nums_append: "state_nums (xs @ ys) = state_nums xs @ state_nums ys"
  by (induction xs rule: state_nums.induct) auto

lemma trans_nums_append: "trans_nums (xs @ ys) = trans_nums xs @ trans_nums ys"
  by (induction xs rule: trans_nums.induct) auto

lemma find_state_append: "find_state (xs @ ys) n = (case find_state xs n of None \<Rightarrow> find_state ys n | Some r \<Rightarrow> Some r)"
  by (induction xs n rule: find_state.induct) auto

lemma find_transition_append:
  "find_transition (xs @ ys) n = (case find_transition xs n of None \<Rightarrow> find_transition ys n | Some r \<Rightarrow> Some r)"
  by (induction xs n rule: find_transition.induct) auto

section \<open>Checks along the edges\<close>

text \<open>A check of every edge of a state: to a state, or with actions to a state.\<close>

fun edge_holds :: "(nat \<times> 'a list \<times> nat) list \<Rightarrow> (nat \<Rightarrow> 'a list \<Rightarrow> nat \<Rightarrow> bool) \<Rightarrow> nat \<Rightarrow> label \<Rightarrow> bool" where
  "edge_holds ts E n (St k) \<longleftrightarrow> k = 0 \<or> E n [] k"
| "edge_holds ts E n (Tr t) \<longleftrightarrow> (case map_of ts t of None \<Rightarrow> True | Some (as, k) \<Rightarrow> E n as k)"

fun edges_hold :: "(nat \<times> 'a list \<times> nat) list \<Rightarrow> (nat \<Rightarrow> 'a list \<Rightarrow> nat \<Rightarrow> bool) \<Rightarrow> 'a block \<Rightarrow> bool" where
  "edges_hold ts E (Trans t as k) \<longleftrightarrow> True"
| "edges_hold ts E (State n w cases ranges d) \<longleftrightarrow>
     list_all (\<lambda>(c, l). edge_holds ts E n l) cases \<and> list_all (\<lambda>(lo, hi, l). edge_holds ts E n l) ranges \<and> edge_holds ts E n d"

lemma select_edge:
  assumes "list_all (edges_hold (trans_list code) E) code" "find_state code n = Some r"
  shows "edge_holds (trans_list code) E n (select relaxed r c)"
proof -
  obtain w cases ranges d where r: "r = (w, cases, ranges, d)" by (metis surj_pair)
  have "edges_hold (trans_list code) E (State n w cases ranges d)"
    using bspec [OF assms(1) [unfolded list_all_iff] find_state_block] assms(2) r by simp
  then show ?thesis using select_cases [of relaxed w cases ranges d c] r by (fastforce simp: list_all_iff)
qed

text \<open>A move takes an edge.\<close>

lemma move_edge:
  assumes "list_all (edges_hold (trans_list code) E) code" "ragel_move code act brk relaxed p c n s = Inr m"
  shows "(\<exists>as k. E n as k \<and> (case run_actions act brk p as s of (Some b, s') \<Rightarrow> m = Break b s' | (None, s') \<Rightarrow> m = Next k s'))
     \<or> m = Stop s \<or> m = Unmatched s"
proof (cases "find_state code n")
  case (Some r)
  note e = select_edge [OF assms(1) Some, of relaxed "schar c"]
  show ?thesis
  proof (cases "select relaxed r (schar c)")
    case (St k)
    then show ?thesis using e assms(2) Some by (cases "k = 0") (auto simp: ragel_move_def intro!: exI [of _ "[]"])
  next
    case (Tr t)
    then obtain as k where "find_transition code t = Some (as, k)" using assms(2) Some by (auto simp: ragel_move_def split: option.splits)
    then show ?thesis using Tr e assms(2) Some
      by (auto simp: ragel_move_def find_transition_list split: prod.splits option.splits intro!: exI [of _ as] exI [of _ k])
  qed
qed (use assms(2) in \<open>simp add: ragel_move_def\<close>)

section \<open>Following a text\<close>

text \<open>The machine gets over a text, whatever comes after it.\<close>

definition goes ::
  "'a block list \<Rightarrow> ('a \<Rightarrow> nat \<Rightarrow> 's \<Rightarrow> 's) \<Rightarrow> ('a \<Rightarrow> nat option) \<Rightarrow> bool \<Rightarrow> nat \<Rightarrow> string \<Rightarrow> nat \<Rightarrow> 's \<Rightarrow> nat \<Rightarrow> 's \<Rightarrow> bool" where
  "goes code act brk relaxed p w n s n' s' \<longleftrightarrow>
     (\<forall>rest. ragel_run code act brk relaxed p (w @ rest) n s = ragel_run code act brk relaxed (p + length w) rest n' s')"

lemma goes_Nil: "goes code act brk relaxed p [] n s n s"
  by (simp add: goes_def)

lemma goes_append:
  "goes code act brk relaxed p v n s n1 s1 \<Longrightarrow> goes code act brk relaxed (p + length v) w n1 s1 n2 s2 \<Longrightarrow>
   goes code act brk relaxed p (v @ w) n s n2 s2"
  by (simp add: goes_def add.assoc)

lemma goes_Cons:
  "goes code act brk relaxed p [c] n s n1 s1 \<Longrightarrow> goes code act brk relaxed (Suc p) w n1 s1 n2 s2 \<Longrightarrow>
   goes code act brk relaxed p (c # w) n s n2 s2"
  using goes_append [of code act brk relaxed p "[c]" n s n1 s1 w] by simp

lemma goes_St:
  assumes "find_state code n = Some r" "select relaxed r (schar c) = St k" "k \<noteq> 0"
  shows "goes code act brk relaxed p [c] n s k s"
  using assms by (simp add: goes_def ragel_move_def)

lemma goes_Tr:
  assumes "find_state code n = Some r" "select relaxed r (schar c) = Tr t" "find_transition code t = Some (as, k)"
    "run_actions act brk p as s = (None, s')"
  shows "goes code act brk relaxed p [c] n s k s'"
  using assms by (simp add: goes_def ragel_move_def)

lemma goes_loop:
  assumes "find_state code n = Some r" "\<And>k. C k \<Longrightarrow> select relaxed r k = St n" "n \<noteq> 0"
  shows "\<forall>c\<in>set w. C (schar c) \<Longrightarrow> goes code act brk relaxed p w n s n s"
proof (induction w arbitrary: p)
  case (Cons c w)
  show ?case by (rule goes_Cons [OF goes_St [OF assms(1) _ assms(3)] Cons.IH]) (use Cons.prems assms(2) in auto)
qed (rule goes_Nil)

text \<open>A loop with percent escapes, and the two states after a percent sign.\<close>

definition escape_loop :: "'a block list \<Rightarrow> bool \<Rightarrow> (int \<Rightarrow> bool) \<Rightarrow> nat \<Rightarrow> nat \<Rightarrow> nat \<Rightarrow> bool" where
  "escape_loop code relaxed P q q1 q2 \<longleftrightarrow> q \<noteq> 0 \<and> q1 \<noteq> 0 \<and> q2 \<noteq> 0 \<and>
     (\<exists>r r1 r2. find_state code q = Some r \<and> find_state code q1 = Some r1 \<and> find_state code q2 = Some r2
        \<and> (\<forall>k. P k \<longrightarrow> select relaxed r k = St q) \<and> select relaxed r 37 = St q1
        \<and> (\<forall>k\<in>set hex_keys. select relaxed r1 k = St q2 \<and> select relaxed r2 k = St q))"

lemma goes_escape:
  assumes "escape_loop code relaxed P q q1 q2" "schar h \<in> set hex_keys" "schar l \<in> set hex_keys"
  shows "goes code act brk relaxed p [h, l] q1 s q s"
  using assms by (auto simp: escape_loop_def intro!: goes_Cons [OF goes_St goes_St])

lemma goes_text:
  assumes "escape_loop code relaxed P q q1 q2"
  shows "text_ok P w \<Longrightarrow> goes code act brk relaxed p w q s q s"
proof (induction arbitrary: p rule: text_ok_induct)
  case Nil
  show ?case by (rule goes_Nil)
next
  case (Percent h l r)
  have "goes code act brk relaxed p ''%'' q s q1 s" using assms by (auto simp: escape_loop_def intro!: goes_St)
  then have "goes code act brk relaxed p (''%'' @ [h, l] @ r) q s q s"
    by (rule goes_append [OF _ goes_append [OF goes_escape [OF assms Percent(1,2)] Percent.IH]])
  then show ?case by simp
next
  case (Plain c r)
  have "goes code act brk relaxed p [c] q s q s" using assms Plain(2) by (auto simp: escape_loop_def intro!: goes_St)
  then show ?case by (rule goes_Cons [OF _ Plain.IH])
qed

text \<open>The first character of such a part, with the action of entering it.\<close>

lemma goes_enter:
  assumes "escape_loop code relaxed P q q1 q2" "find_state code q0 = Some r0"
    "\<And>k. P k \<Longrightarrow> select relaxed r0 k = Tr t" "find_transition code t = Some (as, q)"
    "select relaxed r0 37 = Tr t'" "find_transition code t' = Some (as, q1)"
    "run_actions act brk p as s = (None, s')" "text_ok P w" "w \<noteq> []"
  shows "goes code act brk relaxed p w q0 s q s'"
proof -
  obtain c cs where w: "w = c # cs" using assms(9) by (cases w) auto
  show ?thesis
  proof (cases "c = CHR ''%''")
    case True
    then obtain h l r where r: "cs = h # l # r" "schar h \<in> set hex_keys" "schar l \<in> set hex_keys" "text_ok P r"
      using assms(8) w by (auto split: list.splits)
    have "goes code act brk relaxed p ''%'' q0 s q1 s'" by (rule goes_Tr [OF assms(2) _ assms(6,7)]) (use assms(5) in simp)
    then have "goes code act brk relaxed p (''%'' @ [h, l] @ r) q0 s q s'"
      by (rule goes_append [OF _ goes_append [OF goes_escape [OF assms(1) r(2,3)] goes_text [OF assms(1) r(4)]]])
    then show ?thesis using w True r(1) by simp
  next
    case False
    have "goes code act brk relaxed p [c] q0 s q s'" by (rule goes_Tr [OF assms(2) _ assms(4,7)]) (use assms(3,8) w False in simp)
    then show ?thesis unfolding w by (rule goes_Cons [OF _ goes_text [OF assms(1)]]) (use assms(8) w False in simp)
  qed
qed

lemma goes_first:
  assumes "escape_loop code relaxed P q q1 q2" "find_state code q0 = Some r0"
    "\<And>k. P k \<Longrightarrow> k \<noteq> x \<Longrightarrow> select relaxed r0 k = St q" "select relaxed r0 37 = St q1" "text_ok P w" "w \<noteq> []" "schar (hd w) \<noteq> x"
  shows "goes code act brk relaxed p w q0 s q s"
proof -
  obtain c cs where w: "w = c # cs" using assms(6) by (cases w) auto
  have nz: "q \<noteq> 0" "q1 \<noteq> 0" using assms(1) by (simp_all add: escape_loop_def)
  show ?thesis
  proof (cases "c = CHR ''%''")
    case True
    then obtain h l r where r: "cs = h # l # r" "schar h \<in> set hex_keys" "schar l \<in> set hex_keys" "text_ok P r"
      using assms(5) w by (auto split: list.splits)
    have "goes code act brk relaxed p ''%'' q0 s q1 s" by (rule goes_St [OF assms(2) _ nz(2)]) (use assms(4) in simp)
    then have "goes code act brk relaxed p (''%'' @ [h, l] @ r) q0 s q s"
      by (rule goes_append [OF _ goes_append [OF goes_escape [OF assms(1) r(2,3)] goes_text [OF assms(1) r(4)]]])
    then show ?thesis using w True r(1) by simp
  next
    case False
    have "goes code act brk relaxed p [c] q0 s q s" by (rule goes_St [OF assms(2) _ nz(1)]) (use assms(3,5,7) w False in simp)
    then show ?thesis unfolding w by (rule goes_Cons [OF _ goes_text [OF assms(1)]]) (use assms(5) w False in simp)
  qed
qed

text \<open>The end of the loop after a text, by a break.\<close>

lemma goes_break:
  assumes "goes code act brk relaxed p w n s n' s'" "find_state code n' = Some r" "select relaxed r (schar c) = Tr t"
    "find_transition code t = Some (as, k)" "run_actions act brk (p + length w) as s' = (Some b, s'')"
  shows "ragel_run code act brk relaxed p (w @ c # rest) n s = Inr (b, p + length w + 1, s'')"
  using assms by (simp add: goes_def ragel_move_def)

section \<open>Looking a state up\<close>

lemma find_state_in:
  "distinct (state_nums code) \<Longrightarrow> State n w cases ranges d \<in> set code \<Longrightarrow> find_state code n = Some (w, cases, ranges, d)"
proof (induction code rule: state_nums.induct)
  case (2 m w' cases' ranges' d' bs)
  have "n \<in> set (state_nums bs)" if "State n w cases ranges d \<in> set bs"
    using that by (induction bs rule: state_nums.induct) auto
  then show ?case using 2 by auto
qed auto

lemma find_state_part:
  assumes "distinct (state_nums (concat parts))" "part \<in> set parts" "State n w cases ranges d \<in> set part"
  shows "find_state (concat parts) n = Some (w, cases, ranges, d)"
  by (rule find_state_in [OF assms(1)]) (use assms(2,3) in auto)

section \<open>Classes of characters\<close>

definition in_class :: "(int \<times> int) list \<Rightarrow> int \<Rightarrow> bool" where
  "in_class rs k \<longleftrightarrow> (\<exists>(lo, hi)\<in>set rs. lo \<le> k \<and> k \<le> hi)"

text \<open>Every character of an interval leads to the same label.\<close>

fun covers :: "row \<Rightarrow> label \<Rightarrow> int \<Rightarrow> int \<Rightarrow> bool" where
  "covers (w, cases, ranges, d) l lo hi \<longleftrightarrow>
     \<not> (w \<and> (lo \<le> 94 \<and> 94 \<le> hi \<or> lo \<le> 123 \<and> 123 \<le> hi \<or> lo \<le> 125 \<and> 125 \<le> hi))
     \<and> list_all (\<lambda>(k, l'). l' = l \<or> k < lo \<or> hi < k) cases \<and> list_all (\<lambda>(a, b, l'). l' = l \<or> b < lo \<or> hi < a) ranges
     \<and> (list_ex (\<lambda>(a, b, l'). l' = l \<and> a \<le> lo \<and> hi \<le> b) ranges \<or> lo = hi \<and> list_ex (\<lambda>(k, l'). k = lo \<and> l' = l) cases \<or> d = l)"

lemma in_range_same:
  "list_all (\<lambda>(a, b, l'). l' = l \<or> b < k \<or> k < a) ranges \<Longrightarrow> in_range ranges k = Some l' \<Longrightarrow> l' = l"
  by (induction ranges k rule: in_range.induct) (auto split: if_splits)

lemma in_range_hit:
  "list_ex (\<lambda>(a, b, l'). a \<le> k \<and> k \<le> b) ranges \<Longrightarrow> in_range ranges k \<noteq> None"
  by (induction ranges k rule: in_range.induct) auto

lemma map_of_same: "list_all (\<lambda>(k', l'). l' = l \<or> k' \<noteq> k) cases \<Longrightarrow> map_of cases k = Some l' \<Longrightarrow> l' = l"
  by (induction cases) (auto split: if_splits)

lemma map_of_hit: "list_ex (\<lambda>(k', l'). k' = k) cases \<Longrightarrow> map_of cases k \<noteq> None"
  by (induction cases) auto

lemma covers_select:
  assumes "covers (w, cases, ranges, d) l lo hi" "lo \<le> k" "k \<le> hi"
  shows "select relaxed (w, cases, ranges, d) k = l"
proof -
  have k: "(if w then widen relaxed k else k) = k" using assms by (auto simp: widen_def)
  have c: "list_all (\<lambda>(k', l'). l' = l \<or> k' \<noteq> k) cases" using assms by (fastforce simp: list_all_iff)
  have r: "list_all (\<lambda>(a, b, l'). l' = l \<or> b < k \<or> k < a) ranges" using assms by (fastforce simp: list_all_iff)
  have hit: "list_ex (\<lambda>(a, b, l'). a \<le> k \<and> k \<le> b) ranges \<or> list_ex (\<lambda>(k', l'). k' = k) cases \<or> d = l"
    using assms by (fastforce simp: list_ex_iff)
  show ?thesis
  proof (cases "map_of cases k")
    case (Some l')
    then show ?thesis using map_of_same [OF c Some] k by (simp add: select_def Let_def)
  next
    case None
    then have "in_range ranges k \<noteq> None \<or> d = l" using hit map_of_hit [of k cases] in_range_hit [of k ranges] by blast
    then show ?thesis using None k in_range_same [OF r] by (cases "in_range ranges k") (auto simp: select_def Let_def)
  qed
qed

fun class_to :: "row \<Rightarrow> (int \<times> int) list \<Rightarrow> label \<Rightarrow> bool" where
  "class_to r [] l = True"
| "class_to r ((lo, hi) # rs) l = (covers r l lo hi \<and> class_to r rs l)"

lemma class_to_select: "class_to r rs l \<Longrightarrow> in_class rs k \<Longrightarrow> select relaxed r k = l"
proof (induction r rs l rule: class_to.induct)
  case (2 r lo hi rs l)
  obtain w cases ranges d where "r = (w, cases, ranges, d)" by (metis surj_pair)
  then show ?case using 2 covers_select by (auto simp: in_class_def simp del: covers.simps)
qed (simp add: in_class_def)

lemma edges_hold_any: "list_all (edges_hold ts (\<lambda>_ _ _. True)) code"
proof -
  have "edge_holds ts (\<lambda>_ _ _. True) n l" for n l by (cases l) (auto split: option.splits)
  then have "edges_hold ts (\<lambda>_ _ _. True) b" for b by (cases b) (auto simp: list_all_iff)
  then show ?thesis by (simp add: list_all_iff)
qed

text \<open>An invariant that every action keeps, whatever the state.\<close>

lemma run_actions_keep:
  assumes "\<And>a s. K s \<Longrightarrow> K (act a p s)" "run_actions act brk p as s = (b, s')" "K s"
  shows "K s'"
  using assms(2,3) assms(1) by (induction as arbitrary: s) (auto split: option.splits)

lemma move_keeps:
  assumes "\<And>a s. K p s \<Longrightarrow> K p (act a p s)" "\<And>s. K p s \<Longrightarrow> K (p + 1) s" "ragel_move code act brk relaxed p c n s = Inr m" "K p s"
  shows "case m of Next k s' \<Rightarrow> K (p + 1) s' | Break k s' \<Rightarrow> K (p + 1) s' | Stop s' \<Rightarrow> K p s' | Unmatched s' \<Rightarrow> K p s'"
proof -
  have keep: "run_actions act brk p as s = (b, s') \<Longrightarrow> K p s'" for as b s'
    using run_actions_keep [of "K p" act p brk as s b s'] assms(1,4) by blast
  from move_edge [OF edges_hold_any assms(3)] show ?thesis
    using keep assms(2,4) by (fastforce split: prod.splits option.splits)
qed

section \<open>Reading a text and reporting\<close>

text \<open>
  A machine whose actions work on a parser and a list of calls. A call means an event; a part of the parser stays
  fixed, and decides the condition under which characters are widened.
\<close>

locale reporting =
  fixes code :: "'a block list" and act :: "'a \<Rightarrow> nat \<Rightarrow> 'p \<times> 'c list \<Rightarrow> 'p \<times> 'c list" and brk :: "'a \<Rightarrow> nat option"
    and event :: "'c \<Rightarrow> 'e" and fixed :: "'p \<Rightarrow> 'k" and relaxed :: "'p \<Rightarrow> bool"
  assumes relaxed_fixed: "fixed ps' = fixed ps \<Longrightarrow> relaxed ps' = relaxed ps"
begin

text \<open>A part of the text is read from a state to another, with what is reported on the way.\<close>

definition reads :: "nat \<Rightarrow> string \<Rightarrow> nat \<Rightarrow> 'p \<Rightarrow> 'e list \<Rightarrow> nat \<Rightarrow> 'p \<Rightarrow> bool" where
  "reads p w n ps evs n' ps' \<longleftrightarrow>
     fixed ps' = fixed ps
     \<and> (\<forall>cs. \<exists>new. map event new = evs \<and> goes code act brk (relaxed ps) p w n (ps, cs) n' (ps', cs @ new))"

lemma reads_fixed: "reads p w n ps evs n' ps' \<Longrightarrow> fixed ps' = fixed ps"
  by (simp add: reads_def)

lemma reads_append:
  assumes "reads p v n ps evs n1 ps1" "reads (p + length v) w n1 ps1 evs' n2 ps2"
  shows "reads p (v @ w) n ps (evs @ evs') n2 ps2"
  unfolding reads_def
proof (intro conjI allI)
  show "fixed ps2 = fixed ps" using assms by (simp add: reads_def)
  have rel: "relaxed ps1 = relaxed ps" by (rule relaxed_fixed) (use assms(1) in \<open>simp add: reads_def\<close>)
  fix cs
  obtain new where new: "map event new = evs" "goes code act brk (relaxed ps) p v n (ps, cs) n1 (ps1, cs @ new)"
    using assms(1) unfolding reads_def by blast
  obtain new' where new': "map event new' = evs'"
    "goes code act brk (relaxed ps) (p + length v) w n1 (ps1, cs @ new) n2 (ps2, (cs @ new) @ new')"
    using assms(2) [unfolded reads_def] by (elim conjE allE [of _ "cs @ new"]) (auto simp: rel)
  show "\<exists>new. map event new = evs @ evs' \<and> goes code act brk (relaxed ps) p (v @ w) n (ps, cs) n2 (ps2, cs @ new)"
    using new(1) new'(1) goes_append [OF new(2) new'(2)] by (intro exI [of _ "new @ new'"]) simp
qed

lemma reads_quiet:
  assumes "\<And>cs. goes code act brk (relaxed ps) p w n (ps, cs) n' (ps', cs)" "fixed ps' = fixed ps"
  shows "reads p w n ps [] n' ps'"
  using assms by (auto simp: reads_def intro!: exI [of _ "[]"])

lemma reads_Nil: "reads p [] n ps [] n ps"
  by (rule reads_quiet) (simp_all add: goes_Nil)

lemma reads_St:
  assumes "find_state code n = Some r" "select (relaxed ps) r (schar c) = St k" "k \<noteq> 0"
  shows "reads p [c] n ps [] k ps"
  by (rule reads_quiet) (use goes_St [OF assms] in auto)

lemma reads_Tr:
  assumes "find_state code n = Some r" "select (relaxed ps) r (schar c) = Tr t" "find_transition code t = Some (as, k)"
    "\<And>cs. run_actions act brk p as (ps, cs) = (None, ps', cs @ new)" "map event new = evs" "fixed ps' = fixed ps"
  shows "reads p [c] n ps evs k ps'"
  unfolding reads_def using assms(5,6) goes_Tr [OF assms(1-3) assms(4)] by blast

lemma reads_loop:
  assumes "find_state code n = Some r" "\<And>k. C k \<Longrightarrow> select (relaxed ps) r k = St n" "n \<noteq> 0" "\<forall>c\<in>set w. C (schar c)"
  shows "reads p w n ps [] n ps"
  by (rule reads_quiet [OF goes_loop [OF assms]]) simp_all

text \<open>A text that leads from state to state, with a relation between the state and what was read.\<close>

lemma reads_along:
  assumes "\<And>n s c. J n s \<Longrightarrow> C (schar c) \<Longrightarrow>
      \<exists>r m. find_state code n = Some r \<and> select (relaxed ps) r (schar c) = St m \<and> m \<noteq> 0 \<and> J m (s @ [c])"
  shows "J n s \<Longrightarrow> \<forall>c\<in>set w. C (schar c) \<Longrightarrow> \<exists>n'. J n' (s @ w) \<and> reads p w n ps [] n' ps"
proof (induction w arbitrary: n s p)
  case Nil
  then show ?case using reads_Nil by auto
next
  case (Cons c w)
  obtain r m where m: "find_state code n = Some r" "select (relaxed ps) r (schar c) = St m" "m \<noteq> 0" "J m (s @ [c])"
    using assms [OF Cons.prems(1), of c] Cons.prems(2) by (meson list.set_intros(1))
  obtain n' where n': "J n' ((s @ [c]) @ w)" "reads (p + length [c]) w m ps [] n' ps" using Cons.IH [OF m(4)] Cons.prems(2) by fastforce
  from reads_append [OF reads_St [OF m(1-3)] n'(2)] show ?case using n'(1) by auto
qed

text \<open>The end by a break, with what was reported before it.\<close>

lemma reads_break:
  assumes "reads p w n ps evs n' ps'" "find_state code n' = Some r" "select (relaxed ps) r (schar c) = Tr t"
    "find_transition code t = Some (as, k)"
    "\<And>cs. run_actions act brk (p + length w) as (ps', cs) = (Some b, ps'', cs @ new')" "map event new' = evs'"
  shows "\<exists>calls. ragel_run code act brk (relaxed ps) p (w @ c # rest) n (ps, []) = Inr (b, p + length w + 1, ps'', calls)
     \<and> map event calls = evs @ evs'"
proof -
  obtain new where new: "map event new = evs" "goes code act brk (relaxed ps) p w n (ps, []) n' (ps', [] @ new)"
    using assms(1) unfolding reads_def by blast
  have "ragel_run code act brk (relaxed ps) p (w @ c # rest) n (ps, []) = Inr (b, p + length w + 1, ps'', new @ new')"
    by (rule goes_break [OF new(2) assms(2-4)]) (use assms(5) in simp)
  then show ?thesis using new(1) assms(6) by auto
qed

end

end
