(* ===== verification/Http11Code.thy ===== *)
theory Http11Code
  imports Ragel
begin

text \<open>
  The states and transitions of \<open>http_parser_execute\<close> (\<open>http/http11_parser.cc\<close>), in the order of the source. The
  nested comparisons of a state are written as the ranges they test; an action is named after the rule that
  its block of code belongs to, and \<open>Done\<close> carries the state it leaves with.
\<close>

datatype http_parser_action =
    Mark | Start_field | Write_field | Write_value | Request_method | Request_uri | Fragment | Start_query | Query_string
  | Http_version | Request_path | Done nat | Xml | Json

definition http_parser_code_1 :: "http_parser_action block list" where
  "http_parser_code_1 =
    [State 1 False [(60, Tr 2), (64, Tr 3)] [(48, 57, Tr 0), (65, 90, Tr 0)] (St 0),
     Trans 0 [Mark] 2,
     State 2 False [(32, Tr 4)] [(48, 57, St 175), (65, 90, St 175)] (St 0),
     Trans 4 [Request_method] 3,
     State 3 True [(32, Tr 6), (33, Tr 7), (35, Tr 8), (37, Tr 9), (47, Tr 10), (59, Tr 7), (61, Tr 7), (63, Tr 11),
         (64, Tr 7), (95, Tr 7), (126, Tr 7), (606, Tr 7), (635, Tr 7), (637, Tr 7)] [(36, 57, Tr 7), (65, 90, Tr 12),
         (97, 122, Tr 12)] (St 0),
     Trans 6 [Mark, Request_path, Request_uri] 4,
     Trans 37 [Request_path, Request_uri] 4,
     Trans 44 [Mark, Fragment] 4,
     Trans 47 [Fragment] 4]"

definition http_parser_code_2 :: "http_parser_action block list" where
  "http_parser_code_2 =
    [Trans 54 [Start_query, Query_string, Request_uri] 4,
     Trans 58 [Query_string, Request_uri] 4,
     State 4 False [(72, Tr 13)] [] (St 0),
     Trans 13 [Mark] 5,
     State 5 False [(84, St 6)] [] (St 0),
     State 6 False [(84, St 7)] [] (St 0),
     State 7 False [(80, St 8)] [] (St 0),
     State 8 False [(47, St 9)] [] (St 0),
     State 9 False [(49, St 10)] [] (St 0),
     State 10 False [(46, St 11)] [] (St 0),
     State 11 False [] [(48, 49, St 12)] (St 0),
     State 12 False [(10, Tr 21), (13, Tr 22)] [] (St 0),
     Trans 21 [Http_version] 13,
     Trans 30 [Mark, Write_value] 13,
     Trans 33 [Write_value] 13]"

definition http_parser_code_3 :: "http_parser_action block list" where
  "http_parser_code_3 =
    [State 13 False [(10, Tr 24), (13, Tr 25), (33, Tr 23), (124, Tr 23), (126, Tr 23)] [(1, 8, Tr 23), (11, 31, Tr 23),
         (35, 39, Tr 23), (42, 43, Tr 23), (45, 46, Tr 23), (48, 57, Tr 23), (65, 90, Tr 23), (94, 122, Tr 23)] (St 0),
     Trans 23 [Start_field] 14,
     State 14 False [(33, St 14), (58, Tr 27), (124, St 14), (126, St 14)] [(1, 8, St 14), (10, 31, St 14),
         (35, 39, St 14), (42, 43, St 14), (45, 46, St 14), (48, 57, St 14), (65, 90, St 14), (94, 122, St 14)] (St 0),
     Trans 27 [Write_field] 15,
     Trans 29 [Mark] 15,
     State 15 False [(0, St 0), (9, Tr 29), (10, Tr 30), (13, Tr 31), (32, Tr 29), (127, St 0)] [] (Tr 28),
     Trans 28 [Mark] 16,
     State 16 False [(0, St 0), (10, Tr 33), (13, Tr 34), (127, St 0)] [] (St 16),
     Trans 22 [Http_version] 17,
     Trans 31 [Mark, Write_value] 17]"

definition http_parser_code_4 :: "http_parser_action block list" where
  "http_parser_code_4 =
    [Trans 34 [Write_value] 17,
     State 17 False [(10, St 13)] [] (St 0),
     Trans 24 [Start_field, Done 348] 348,
     Trans 36 [Done 348] 348,
     State 348 False [(33, St 14), (58, Tr 27), (124, St 14), (126, St 14)] [(1, 8, St 14), (10, 31, St 14),
         (35, 39, St 14), (42, 43, St 14), (45, 46, St 14), (48, 57, St 14), (65, 90, St 14), (94, 122, St 14)] (St 0),
     Trans 25 [Start_field] 18,
     State 18 False [(10, Tr 36), (33, St 14), (58, Tr 27), (124, St 14), (126, St 14)] [(1, 8, St 14), (11, 31, St 14),
         (35, 39, St 14), (42, 43, St 14), (45, 46, St 14), (48, 57, St 14), (65, 90, St 14), (94, 122, St 14)] (St 0),
     Trans 7 [Mark] 19]"

definition http_parser_code_5 :: "http_parser_action block list" where
  "http_parser_code_5 =
    [State 19 True [(32, Tr 37), (33, St 19), (35, Tr 39), (37, St 24), (47, St 26), (59, St 19), (61, St 19),
         (63, Tr 42), (95, St 19), (126, St 19), (606, St 19), (635, St 19), (637, St 19)] [(36, 57, St 19),
         (64, 90, St 19), (97, 122, St 19)] (St 0),
     Trans 8 [Mark, Request_path, Request_uri] 20,
     Trans 39 [Request_path, Request_uri] 20,
     Trans 55 [Start_query, Query_string, Request_uri] 20,
     Trans 59 [Query_string, Request_uri] 20]"

definition http_parser_code_6 :: "http_parser_action block list" where
  "http_parser_code_6 =
    [State 20 True [(32, Tr 44), (33, Tr 43), (37, Tr 45), (61, Tr 43), (95, Tr 43), (126, Tr 43), (606, Tr 43),
         (635, Tr 43), (637, Tr 43)] [(- 128, -1, Tr 43), (36, 59, Tr 43), (63, 90, Tr 43), (97, 122, Tr 43)] (St 0),
     Trans 43 [Mark] 21,
     State 21 True [(32, Tr 47), (33, St 21), (37, St 22), (61, St 21), (95, St 21), (126, St 21), (606, St 21),
         (635, St 21), (637, St 21)] [(- 128, -1, St 21), (36, 59, St 21), (63, 90, St 21), (97, 122, St 21)] (St 0),
     Trans 45 [Mark] 22,
     State 22 False [] [(48, 57, St 23), (65, 70, St 23), (97, 102, St 23)] (St 0),
     State 23 False [] [(48, 57, St 21), (65, 70, St 21), (97, 102, St 21)] (St 0)]"

definition http_parser_code_7 :: "http_parser_action block list" where
  "http_parser_code_7 =
    [Trans 9 [Mark] 24,
     State 24 False [] [(48, 57, St 25), (65, 70, St 25), (97, 102, St 25)] (St 0),
     State 25 False [] [(48, 57, St 19), (65, 70, St 19), (97, 102, St 19)] (St 0),
     Trans 203 [Mark] 26,
     State 26 True [(32, Tr 37), (33, St 26), (35, Tr 39), (37, St 27), (61, St 26), (63, Tr 42), (95, St 26),
         (126, St 26), (606, St 26), (635, St 26), (637, St 26)] [(- 128, -1, St 26), (36, 59, St 26), (64, 90, St 26),
         (97, 122, St 26)] (St 0),
     Trans 204 [Mark] 27,
     State 27 False [] [(48, 57, St 28), (65, 70, St 28), (97, 102, St 28)] (St 0),
     State 28 False [] [(48, 57, St 26), (65, 70, St 26), (97, 102, St 26)] (St 0),
     Trans 11 [Mark, Request_path] 29,
     Trans 42 [Request_path] 29]"

definition http_parser_code_8 :: "http_parser_action block list" where
  "http_parser_code_8 =
    [State 29 True [(32, Tr 54), (33, Tr 53), (35, Tr 55), (37, Tr 56), (61, Tr 53), (95, Tr 53), (126, Tr 53),
         (606, Tr 53), (635, Tr 53), (637, Tr 53)] [(- 128, -1, Tr 53), (36, 59, Tr 53), (63, 90, Tr 53),
         (97, 122, Tr 53)] (St 0),
     Trans 53 [Start_query] 30,
     State 30 True [(32, Tr 58), (33, St 30), (35, Tr 59), (37, St 31), (61, St 30), (95, St 30), (126, St 30),
         (606, St 30), (635, St 30), (637, St 30)] [(- 128, -1, St 30), (36, 59, St 30), (63, 90, St 30),
         (97, 122, St 30)] (St 0),
     Trans 56 [Start_query] 31,
     State 31 False [] [(48, 57, St 32), (65, 70, St 32), (97, 102, St 32)] (St 0)]"

definition http_parser_code_9 :: "http_parser_action block list" where
  "http_parser_code_9 =
    [State 32 False [] [(48, 57, St 30), (65, 70, St 30), (97, 102, St 30)] (St 0),
     Trans 10 [Mark] 33,
     State 33 True [(32, Tr 37), (33, St 26), (35, Tr 39), (37, St 27), (47, St 34), (61, St 26), (63, Tr 42),
         (95, St 26), (126, St 26), (606, St 26), (635, St 26), (637, St 26)] [(- 128, -1, St 26), (36, 59, St 26),
         (64, 90, St 26), (97, 122, St 26)] (St 0),
     State 34 True [(32, Tr 37), (33, St 35), (35, Tr 39), (37, St 36), (47, St 26), (58, St 38), (61, St 35),
         (63, Tr 42), (64, St 42), (91, St 47), (95, St 35), (126, St 35), (606, St 35), (635, St 35),
         (637, St 35)] [(36, 59, St 35), (65, 90, St 35), (97, 122, St 35)] (St 0)]"

definition http_parser_code_10 :: "http_parser_action block list" where
  "http_parser_code_10 =
    [State 35 True [(32, Tr 37), (33, St 35), (35, Tr 39), (37, St 36), (47, St 26), (58, St 38), (61, St 35),
         (63, Tr 42), (64, St 42), (95, St 35), (126, St 35), (606, St 35), (635, St 35), (637, St 35)] [(36, 59, St 35),
         (65, 90, St 35), (97, 122, St 35)] (St 0),
     State 36 False [] [(48, 57, St 37), (65, 70, St 37), (97, 102, St 37)] (St 0),
     State 37 False [] [(48, 57, St 35), (65, 70, St 35), (97, 102, St 35)] (St 0)]"

definition http_parser_code_11 :: "http_parser_action block list" where
  "http_parser_code_11 =
    [State 38 True [(32, Tr 37), (33, St 39), (35, Tr 39), (37, St 40), (47, St 26), (61, St 39), (63, Tr 42),
         (64, St 42), (95, St 39), (126, St 39), (606, St 39), (635, St 39), (637, St 39)] [(36, 46, St 39),
         (48, 57, St 38), (58, 59, St 39), (65, 90, St 39), (97, 122, St 39)] (St 0),
     State 39 True [(33, St 39), (37, St 40), (61, St 39), (64, St 42), (95, St 39), (126, St 39), (606, St 39),
         (635, St 39), (637, St 39)] [(36, 46, St 39), (48, 59, St 39), (65, 90, St 39), (97, 122, St 39)] (St 0),
     State 40 False [] [(48, 57, St 41), (65, 70, St 41), (97, 102, St 41)] (St 0),
     State 41 False [] [(48, 57, St 39), (65, 70, St 39), (97, 102, St 39)] (St 0)]"

definition http_parser_code_12 :: "http_parser_action block list" where
  "http_parser_code_12 =
    [State 42 True [(32, Tr 37), (33, St 43), (35, Tr 39), (37, St 44), (47, St 26), (58, St 46), (61, St 43),
         (63, Tr 42), (91, St 47), (95, St 43), (126, St 43), (606, St 43), (635, St 43), (637, St 43)] [(36, 59, St 43),
         (65, 90, St 43), (97, 122, St 43)] (St 0),
     State 43 True [(32, Tr 37), (33, St 43), (35, Tr 39), (37, St 44), (47, St 26), (58, St 46), (61, St 43),
         (63, Tr 42), (95, St 43), (126, St 43), (606, St 43), (635, St 43), (637, St 43)] [(36, 59, St 43),
         (65, 90, St 43), (97, 122, St 43)] (St 0),
     State 44 False [] [(48, 57, St 45), (65, 70, St 45), (97, 102, St 45)] (St 0),
     State 45 False [] [(48, 57, St 43), (65, 70, St 43), (97, 102, St 43)] (St 0)]"

definition http_parser_code_13 :: "http_parser_action block list" where
  "http_parser_code_13 =
    [State 46 False [(32, Tr 37), (35, Tr 39), (47, St 26), (63, Tr 42)] [(48, 57, St 46)] (St 0),
     State 47 False [(6, St 48), (58, St 167), (118, St 169)] [(48, 57, St 91), (65, 70, St 91), (97, 102, St 91)] (St 0),
     State 48 False [] [(48, 57, St 49), (65, 70, St 49), (97, 102, St 49)] (St 0),
     State 49 False [(58, St 53)] [(48, 57, St 50), (65, 70, St 50), (97, 102, St 50)] (St 0),
     State 50 False [(58, St 53)] [(48, 57, St 51), (65, 70, St 51), (97, 102, St 51)] (St 0),
     State 51 False [(58, St 53)] [(48, 57, St 52), (65, 70, St 52), (97, 102, St 52)] (St 0),
     State 52 False [(58, St 53)] [] (St 0),
     State 53 False [(49, St 84), (50, St 87)] [(48, 57, St 54), (65, 70, St 90), (97, 102, St 90)] (St 0),
     State 54 False [(46, St 55), (58, St 80)] [(48, 57, St 77), (65, 70, St 77), (97, 102, St 77)] (St 0),
     State 55 False [(49, St 72), (50, St 74)] [(48, 57, St 56)] (St 0),
     State 56 False [(46, St 57)] [] (St 0),
     State 57 False [(49, St 67), (50, St 69)] [(48, 57, St 58)] (St 0),
     State 58 False [(46, St 59)] [] (St 0)]"

definition http_parser_code_14 :: "http_parser_action block list" where
  "http_parser_code_14 =
    [State 59 False [(49, St 62), (50, St 64)] [(48, 57, St 60)] (St 0),
     State 60 False [(93, St 61)] [] (St 0),
     State 61 False [(32, Tr 37), (35, Tr 39), (47, St 26), (58, St 46), (63, Tr 42)] [] (St 0),
     State 62 False [(93, St 61)] [(48, 57, St 63)] (St 0),
     State 63 False [(93, St 61)] [(48, 57, St 60)] (St 0),
     State 64 False [(48, St 65), (53, St 66), (93, St 61)] [] (St 0),
     State 65 False [] [(48, 57, St 60)] (St 0),
     State 66 False [(48, St 60)] [] (St 0),
     State 67 False [(46, St 59)] [(48, 57, St 68)] (St 0),
     State 68 False [(46, St 59)] [(48, 57, St 58)] (St 0),
     State 69 False [(46, St 59), (48, St 70), (53, St 71)] [] (St 0),
     State 70 False [] [(48, 57, St 58)] (St 0),
     State 71 False [(48, St 58)] [] (St 0),
     State 72 False [(46, St 57)] [(48, 57, St 73)] (St 0),
     State 73 False [(46, St 57)] [(48, 57, St 56)] (St 0),
     State 74 False [(46, St 57), (48, St 75), (53, St 76)] [] (St 0),
     State 75 False [] [(48, 57, St 56)] (St 0),
     State 76 False [(48, St 56)] [] (St 0),
     State 77 False [(58, St 80)] [(48, 57, St 78), (65, 70, St 78), (97, 102, St 78)] (St 0)]"

definition http_parser_code_15 :: "http_parser_action block list" where
  "http_parser_code_15 =
    [State 78 False [(58, St 80)] [(48, 57, St 79), (65, 70, St 79), (97, 102, St 79)] (St 0),
     State 79 False [(58, St 80)] [] (St 0),
     State 80 False [] [(48, 57, St 81), (65, 70, St 81), (97, 102, St 81)] (St 0),
     State 81 False [(93, St 61)] [(48, 57, St 82), (65, 70, St 82), (97, 102, St 82)] (St 0),
     State 82 False [(93, St 61)] [(48, 57, St 83), (65, 70, St 83), (97, 102, St 83)] (St 0),
     State 83 False [(93, St 61)] [(48, 57, St 60), (65, 70, St 60), (97, 102, St 60)] (St 0),
     State 84 False [(46, St 55), (58, St 80)] [(48, 57, St 85), (65, 70, St 77), (97, 102, St 77)] (St 0),
     State 85 False [(46, St 55), (58, St 80)] [(48, 57, St 86), (65, 70, St 78), (97, 102, St 78)] (St 0),
     State 86 False [(46, St 55), (58, St 80)] [(48, 57, St 79), (65, 70, St 79), (97, 102, St 79)] (St 0),
     State 87 False [(46, St 55), (48, St 88), (53, St 89), (58, St 80)] [(49, 57, St 77), (65, 70, St 77),
         (97, 102, St 77)] (St 0),
     State 88 False [(58, St 80)] [(48, 57, St 86), (65, 70, St 78), (97, 102, St 78)] (St 0)]"

definition http_parser_code_16 :: "http_parser_action block list" where
  "http_parser_code_16 =
    [State 89 False [(48, St 86), (58, St 80)] [(49, 57, St 78), (65, 70, St 78), (97, 102, St 78)] (St 0),
     State 90 False [(58, St 80)] [(48, 57, St 77), (65, 70, St 77), (97, 102, St 77)] (St 0),
     State 91 False [(58, St 95)] [(48, 57, St 92), (65, 70, St 92), (97, 102, St 92)] (St 0),
     State 92 False [(58, St 95)] [(48, 57, St 93), (65, 70, St 93), (97, 102, St 93)] (St 0),
     State 93 False [(58, St 95)] [(48, 57, St 94), (65, 70, St 94), (97, 102, St 94)] (St 0),
     State 94 False [(58, St 95)] [] (St 0),
     State 95 False [(58, St 166)] [(48, 57, St 96), (65, 70, St 96), (97, 102, St 96)] (St 0),
     State 96 False [(58, St 100)] [(48, 57, St 97), (65, 70, St 97), (97, 102, St 97)] (St 0),
     State 97 False [(58, St 100)] [(48, 57, St 98), (65, 70, St 98), (97, 102, St 98)] (St 0),
     State 98 False [(58, St 100)] [(48, 57, St 99), (65, 70, St 99), (97, 102, St 99)] (St 0),
     State 99 False [(58, St 100)] [] (St 0),
     State 100 False [(58, St 165)] [(48, 57, St 101), (65, 70, St 101), (97, 102, St 101)] (St 0),
     State 101 False [(58, St 105)] [(48, 57, St 102), (65, 70, St 102), (97, 102, St 102)] (St 0),
     State 102 False [(58, St 105)] [(48, 57, St 103), (65, 70, St 103), (97, 102, St 103)] (St 0)]"

definition http_parser_code_17 :: "http_parser_action block list" where
  "http_parser_code_17 =
    [State 103 False [(58, St 105)] [(48, 57, St 104), (65, 70, St 104), (97, 102, St 104)] (St 0),
     State 104 False [(58, St 105)] [] (St 0),
     State 105 False [(58, St 164)] [(48, 57, St 106), (65, 70, St 106), (97, 102, St 106)] (St 0),
     State 106 False [(58, St 110)] [(48, 57, St 107), (65, 70, St 107), (97, 102, St 107)] (St 0),
     State 107 False [(58, St 110)] [(48, 57, St 108), (65, 70, St 108), (97, 102, St 108)] (St 0),
     State 108 False [(58, St 110)] [(48, 57, St 109), (65, 70, St 109), (97, 102, St 109)] (St 0),
     State 109 False [(58, St 110)] [] (St 0),
     State 110 False [(58, St 163)] [(48, 57, St 111), (65, 70, St 111), (97, 102, St 111)] (St 0),
     State 111 False [(58, St 115)] [(48, 57, St 112), (65, 70, St 112), (97, 102, St 112)] (St 0),
     State 112 False [(58, St 115)] [(48, 57, St 113), (65, 70, St 113), (97, 102, St 113)] (St 0),
     State 113 False [(58, St 115)] [(48, 57, St 114), (65, 70, St 114), (97, 102, St 114)] (St 0),
     State 114 False [(58, St 115)] [] (St 0),
     State 115 False [(58, St 151)] [(48, 57, St 116), (65, 70, St 116), (97, 102, St 116)] (St 0),
     State 116 False [(58, St 120)] [(48, 57, St 117), (65, 70, St 117), (97, 102, St 117)] (St 0),
     State 117 False [(58, St 120)] [(48, 57, St 118), (65, 70, St 118), (97, 102, St 118)] (St 0)]"

definition http_parser_code_18 :: "http_parser_action block list" where
  "http_parser_code_18 =
    [State 118 False [(58, St 120)] [(48, 57, St 119), (65, 70, St 119), (97, 102, St 119)] (St 0),
     State 119 False [(58, St 120)] [] (St 0),
     State 120 False [(58, St 150)] [(48, 57, St 121), (65, 70, St 121), (97, 102, St 121)] (St 0),
     State 121 False [(58, St 125)] [(48, 57, St 122), (65, 70, St 122), (97, 102, St 122)] (St 0),
     State 122 False [(58, St 125)] [(48, 57, St 123), (65, 70, St 123), (97, 102, St 123)] (St 0),
     State 123 False [(58, St 125)] [(48, 57, St 124), (65, 70, St 124), (97, 102, St 124)] (St 0),
     State 124 False [(58, St 125)] [] (St 0),
     State 125 False [(58, St 126)] [(48, 57, St 121), (65, 70, St 121), (97, 102, St 121)] (St 0),
     State 126 False [(49, St 143), (50, St 146), (93, St 61)] [(2, 3, St 48), (48, 57, St 127), (65, 70, St 149),
         (97, 102, St 149)] (St 0),
     State 127 False [(46, St 55), (58, St 131), (93, St 61)] [(48, 57, St 128), (65, 70, St 128),
         (97, 102, St 128)] (St 0),
     State 128 False [(58, St 131), (93, St 61)] [(48, 57, St 129), (65, 70, St 129), (97, 102, St 129)] (St 0),
     State 129 False [(58, St 131), (93, St 61)] [(48, 57, St 130), (65, 70, St 130), (97, 102, St 130)] (St 0)]"

definition http_parser_code_19 :: "http_parser_action block list" where
  "http_parser_code_19 =
    [State 130 False [(58, St 131), (93, St 61)] [] (St 0),
     State 131 False [(49, St 136), (50, St 139)] [(48, 57, St 132), (65, 70, St 142), (97, 102, St 142)] (St 0),
     State 132 False [(46, St 55), (58, St 80), (93, St 61)] [(48, 57, St 133), (65, 70, St 133), (97, 102, St 133)] (St 0),
     State 133 False [(58, St 80), (93, St 61)] [(48, 57, St 134), (65, 70, St 134), (97, 102, St 134)] (St 0),
     State 134 False [(58, St 80), (93, St 61)] [(48, 57, St 135), (65, 70, St 135), (97, 102, St 135)] (St 0),
     State 135 False [(58, St 80), (93, St 61)] [] (St 0),
     State 136 False [(46, St 55), (58, St 80), (93, St 61)] [(48, 57, St 137), (65, 70, St 133), (97, 102, St 133)] (St 0),
     State 137 False [(46, St 55), (58, St 80), (93, St 61)] [(48, 57, St 138), (65, 70, St 134), (97, 102, St 134)] (St 0),
     State 138 False [(46, St 55), (58, St 80), (93, St 61)] [(48, 57, St 135), (65, 70, St 135), (97, 102, St 135)] (St 0)]"

definition http_parser_code_20 :: "http_parser_action block list" where
  "http_parser_code_20 =
    [State 139 False [(46, St 55), (48, St 140), (53, St 141), (58, St 80), (93, St 61)] [(49, 57, St 133),
         (65, 70, St 133), (97, 102, St 133)] (St 0),
     State 140 False [(58, St 80), (93, St 61)] [(48, 57, St 138), (65, 70, St 134), (97, 102, St 134)] (St 0),
     State 141 False [(48, St 138), (58, St 80), (93, St 61)] [(49, 57, St 134), (65, 70, St 134),
         (97, 102, St 134)] (St 0),
     State 142 False [(58, St 80), (93, St 61)] [(48, 57, St 133), (65, 70, St 133), (97, 102, St 133)] (St 0),
     State 143 False [(46, St 55), (58, St 131), (93, St 61)] [(48, 57, St 144), (65, 70, St 128),
         (97, 102, St 128)] (St 0),
     State 144 False [(46, St 55), (58, St 131), (93, St 61)] [(48, 57, St 145), (65, 70, St 129),
         (97, 102, St 129)] (St 0),
     State 145 False [(46, St 55), (58, St 131), (93, St 61)] [(48, 57, St 130), (65, 70, St 130),
         (97, 102, St 130)] (St 0),
     State 146 False [(46, St 55), (48, St 147), (53, St 148), (58, St 131), (93, St 61)] [(49, 57, St 128),
         (65, 70, St 128), (97, 102, St 128)] (St 0)]"

definition http_parser_code_21 :: "http_parser_action block list" where
  "http_parser_code_21 =
    [State 147 False [(58, St 131), (93, St 61)] [(48, 57, St 145), (65, 70, St 129), (97, 102, St 129)] (St 0),
     State 148 False [(48, St 145), (58, St 131), (93, St 61)] [(49, 57, St 129), (65, 70, St 129),
         (97, 102, St 129)] (St 0),
     State 149 False [(58, St 131), (93, St 61)] [(48, 57, St 128), (65, 70, St 128), (97, 102, St 128)] (St 0),
     State 150 False [(49, St 143), (50, St 146)] [(2, 3, St 48), (48, 57, St 127), (65, 70, St 149),
         (97, 102, St 149)] (St 0),
     State 151 False [(49, St 156), (50, St 159)] [(2, 3, St 48), (48, 57, St 152), (65, 70, St 162),
         (97, 102, St 162)] (St 0),
     State 152 False [(46, St 55), (58, St 131)] [(48, 57, St 153), (65, 70, St 153), (97, 102, St 153)] (St 0),
     State 153 False [(58, St 131)] [(48, 57, St 154), (65, 70, St 154), (97, 102, St 154)] (St 0),
     State 154 False [(58, St 131)] [(48, 57, St 155), (65, 70, St 155), (97, 102, St 155)] (St 0),
     State 155 False [(58, St 131)] [] (St 0),
     State 156 False [(46, St 55), (58, St 131)] [(48, 57, St 157), (65, 70, St 153), (97, 102, St 153)] (St 0)]"

definition http_parser_code_22 :: "http_parser_action block list" where
  "http_parser_code_22 =
    [State 157 False [(46, St 55), (58, St 131)] [(48, 57, St 158), (65, 70, St 154), (97, 102, St 154)] (St 0),
     State 158 False [(46, St 55), (58, St 131)] [(48, 57, St 155), (65, 70, St 155), (97, 102, St 155)] (St 0),
     State 159 False [(46, St 55), (48, St 160), (53, St 161), (58, St 131)] [(49, 57, St 153), (65, 70, St 153),
         (97, 102, St 153)] (St 0),
     State 160 False [(58, St 131)] [(48, 57, St 158), (65, 70, St 154), (97, 102, St 154)] (St 0),
     State 161 False [(48, St 158), (58, St 131)] [(49, 57, St 154), (65, 70, St 154), (97, 102, St 154)] (St 0),
     State 162 False [(58, St 131)] [(48, 57, St 153), (65, 70, St 153), (97, 102, St 153)] (St 0),
     State 163 False [] [(2, 3, St 48), (48, 57, St 49), (65, 70, St 49), (97, 102, St 49)] (St 0),
     State 164 False [] [(2, 3, St 48)] (St 0),
     State 165 False [(3, St 48)] [] (St 0),
     State 166 False [(4, St 48)] [] (St 0),
     State 167 False [(58, St 168)] [] (St 0),
     State 168 False [(49, St 143), (50, St 146), (93, St 61)] [(2, 5, St 48), (48, 57, St 127), (65, 70, St 149),
         (97, 102, St 149)] (St 0)]"

definition http_parser_code_23 :: "http_parser_action block list" where
  "http_parser_code_23 =
    [State 169 False [] [(48, 57, St 170), (65, 70, St 170), (97, 102, St 170)] (St 0),
     State 170 False [(46, St 171)] [(48, 57, St 170), (65, 70, St 170), (97, 102, St 170)] (St 0),
     State 171 True [(33, St 172), (36, St 172), (61, St 172), (95, St 172), (126, St 172), (606, St 172), (635, St 172),
         (637, St 172)] [(38, 46, St 172), (48, 59, St 172), (65, 90, St 172), (97, 122, St 172)] (St 0),
     State 172 True [(33, St 172), (36, St 172), (61, St 172), (93, St 61), (95, St 172), (126, St 172), (606, St 172),
         (635, St 172), (637, St 172)] [(38, 46, St 172), (48, 59, St 172), (65, 90, St 172), (97, 122, St 172)] (St 0),
     Trans 12 [Mark] 173]"

definition http_parser_code_24 :: "http_parser_action block list" where
  "http_parser_code_24 =
    [State 173 True [(32, Tr 37), (33, St 19), (35, Tr 39), (37, St 24), (43, St 173), (47, St 26), (58, St 174),
         (59, St 19), (61, St 19), (63, Tr 42), (64, St 19), (95, St 19), (126, St 19), (606, St 19), (635, St 19),
         (637, St 19)] [(36, 44, St 19), (45, 57, St 173), (65, 90, St 173), (97, 122, St 173)] (St 0),
     State 174 True [(32, Tr 6), (33, Tr 203), (35, Tr 8), (37, Tr 204), (47, Tr 10), (61, Tr 203), (63, Tr 11),
         (95, Tr 203), (126, Tr 203), (606, Tr 203), (635, Tr 203), (637, Tr 203)] [(- 128, -1, Tr 203), (36, 59, Tr 203),
         (64, 90, Tr 203), (97, 122, Tr 203)] (St 0),
     State 175 False [(32, Tr 4)] [(48, 57, St 176), (65, 90, St 176)] (St 0)]"

definition http_parser_code_25 :: "http_parser_action block list" where
  "http_parser_code_25 =
    [State 176 False [(32, Tr 4)] [(48, 57, St 177), (65, 90, St 177)] (St 0),
     State 177 False [(32, Tr 4)] [(48, 57, St 178), (65, 90, St 178)] (St 0),
     State 178 False [(32, Tr 4)] [(48, 57, St 179), (65, 90, St 179)] (St 0),
     State 179 False [(32, Tr 4)] [(48, 57, St 180), (65, 90, St 180)] (St 0),
     State 180 False [(32, Tr 4)] [(48, 57, St 181), (65, 90, St 181)] (St 0),
     State 181 False [(32, Tr 4)] [(48, 57, St 182), (65, 90, St 182)] (St 0),
     State 182 False [(32, Tr 4)] [(48, 57, St 183), (65, 90, St 183)] (St 0),
     State 183 False [(32, Tr 4)] [(48, 57, St 184), (65, 90, St 184)] (St 0),
     State 184 False [(32, Tr 4)] [(48, 57, St 185), (65, 90, St 185)] (St 0),
     State 185 False [(32, Tr 4)] [(48, 57, St 186), (65, 90, St 186)] (St 0),
     State 186 False [(32, Tr 4)] [(48, 57, St 187), (65, 90, St 187)] (St 0),
     State 187 False [(32, Tr 4)] [(48, 57, St 188), (65, 90, St 188)] (St 0),
     State 188 False [(32, Tr 4)] [(48, 57, St 189), (65, 90, St 189)] (St 0),
     State 189 False [(32, Tr 4)] [(48, 57, St 190), (65, 90, St 190)] (St 0),
     State 190 False [(32, Tr 4)] [(48, 57, St 191), (65, 90, St 191)] (St 0),
     State 191 False [(32, Tr 4)] [(48, 57, St 192), (65, 90, St 192)] (St 0)]"

definition http_parser_code_26 :: "http_parser_action block list" where
  "http_parser_code_26 =
    [State 192 False [(32, Tr 4)] [(48, 57, St 193), (65, 90, St 193)] (St 0),
     State 193 False [(32, Tr 4)] [] (St 0),
     Trans 2 [Mark] 194,
     State 194 False [] [(45, 46, St 195), (48, 57, St 195), (65, 90, St 195), (97, 122, St 195)] (St 0),
     State 195 False [(32, Tr 224), (47, Tr 224), (62, Tr 224)] [(9, 13, Tr 224), (45, 57, St 195), (65, 90, St 195),
         (97, 122, St 195)] (St 0),
     Trans 224 [Request_path] 196,
     State 196 False [(62, St 197)] [] (St 196),
     State 197 False [(0, Tr 227), (62, St 197)] [] (St 196),
     Trans 227 [Xml, Done 349] 349,
     Trans 235 [Json, Done 349] 349,
     State 349 False [] [] (St 0),
     Trans 3 [Mark] 198]"

definition http_parser_code_27 :: "http_parser_action block list" where
  "http_parser_code_27 =
    [State 198 True [(32, Tr 228), (33, St 202), (37, St 203), (47, St 208), (59, St 202), (61, St 202), (95, St 202),
         (126, St 202), (606, St 202), (635, St 202), (637, St 202)] [(36, 57, St 202), (64, 90, St 202),
         (97, 122, St 202)] (St 0),
     Trans 228 [Request_path] 199,
     State 199 False [(123, Tr 232)] [] (St 0),
     Trans 232 [Mark] 200,
     State 200 False [(125, St 201)] [] (St 200),
     State 201 False [(0, Tr 235), (125, St 201)] [] (St 200)]"

definition http_parser_code_28 :: "http_parser_action block list" where
  "http_parser_code_28 =
    [State 202 True [(32, Tr 228), (33, St 202), (37, St 203), (47, St 205), (59, St 202), (61, St 202), (95, St 202),
         (126, St 202), (606, St 202), (635, St 202), (637, St 202)] [(36, 57, St 202), (64, 90, St 202),
         (97, 122, St 202)] (St 0),
     State 203 False [] [(48, 57, St 204), (65, 70, St 204), (97, 102, St 204)] (St 0),
     State 204 False [] [(48, 57, St 202), (65, 70, St 202), (97, 102, St 202)] (St 0),
     State 205 True [(32, Tr 228), (33, St 205), (37, St 206), (61, St 205), (95, St 205), (126, St 205), (606, St 205),
         (635, St 205), (637, St 205)] [(- 128, -1, St 205), (36, 59, St 205), (64, 90, St 205), (97, 122, St 205)] (St 0),
     State 206 False [] [(48, 57, St 207), (65, 70, St 207), (97, 102, St 207)] (St 0)]"

definition http_parser_code_29 :: "http_parser_action block list" where
  "http_parser_code_29 =
    [State 207 False [] [(48, 57, St 205), (65, 70, St 205), (97, 102, St 205)] (St 0),
     State 208 True [(32, Tr 228), (33, St 205), (37, St 206), (47, St 209), (61, St 205), (95, St 205), (126, St 205),
         (606, St 205), (635, St 205), (637, St 205)] [(- 128, -1, St 205), (36, 59, St 205), (64, 90, St 205),
         (97, 122, St 205)] (St 0),
     State 209 True [(32, Tr 228), (33, St 210), (37, St 211), (47, St 205), (58, St 213), (61, St 210), (64, St 217),
         (91, St 222), (95, St 210), (126, St 210), (606, St 210), (635, St 210), (637, St 210)] [(36, 59, St 210),
         (65, 90, St 210), (97, 122, St 210)] (St 0)]"

definition http_parser_code_30 :: "http_parser_action block list" where
  "http_parser_code_30 =
    [State 210 True [(32, Tr 228), (33, St 210), (37, St 211), (47, St 205), (58, St 213), (61, St 210), (64, St 217),
         (95, St 210), (126, St 210), (606, St 210), (635, St 210), (637, St 210)] [(36, 59, St 210), (65, 90, St 210),
         (97, 122, St 210)] (St 0),
     State 211 False [] [(48, 57, St 212), (65, 70, St 212), (97, 102, St 212)] (St 0),
     State 212 False [] [(48, 57, St 210), (65, 70, St 210), (97, 102, St 210)] (St 0),
     State 213 True [(32, Tr 228), (33, St 214), (37, St 215), (47, St 205), (61, St 214), (64, St 217), (95, St 214),
         (126, St 214), (606, St 214), (635, St 214), (637, St 214)] [(36, 46, St 214), (48, 57, St 213),
         (58, 59, St 214), (65, 90, St 214), (97, 122, St 214)] (St 0)]"

definition http_parser_code_31 :: "http_parser_action block list" where
  "http_parser_code_31 =
    [State 214 True [(33, St 214), (37, St 215), (61, St 214), (64, St 217), (95, St 214), (126, St 214), (606, St 214),
         (635, St 214), (637, St 214)] [(36, 46, St 214), (48, 59, St 214), (65, 90, St 214), (97, 122, St 214)] (St 0),
     State 215 False [] [(48, 57, St 216), (65, 70, St 216), (97, 102, St 216)] (St 0),
     State 216 False [] [(48, 57, St 214), (65, 70, St 214), (97, 102, St 214)] (St 0),
     State 217 True [(32, Tr 228), (33, St 218), (37, St 219), (47, St 205), (58, St 221), (61, St 218), (91, St 222),
         (95, St 218), (126, St 218), (606, St 218), (635, St 218), (637, St 218)] [(36, 59, St 218), (65, 90, St 218),
         (97, 122, St 218)] (St 0)]"

definition http_parser_code_32 :: "http_parser_action block list" where
  "http_parser_code_32 =
    [State 218 True [(32, Tr 228), (33, St 218), (37, St 219), (47, St 205), (58, St 221), (61, St 218), (95, St 218),
         (126, St 218), (606, St 218), (635, St 218), (637, St 218)] [(36, 59, St 218), (65, 90, St 218),
         (97, 122, St 218)] (St 0),
     State 219 False [] [(48, 57, St 220), (65, 70, St 220), (97, 102, St 220)] (St 0),
     State 220 False [] [(48, 57, St 218), (65, 70, St 218), (97, 102, St 218)] (St 0),
     State 221 False [(32, Tr 228), (47, St 205)] [(48, 57, St 221)] (St 0),
     State 222 False [(6, St 223), (58, St 342), (118, St 344)] [(48, 57, St 266), (65, 70, St 266),
         (97, 102, St 266)] (St 0),
     State 223 False [] [(48, 57, St 224), (65, 70, St 224), (97, 102, St 224)] (St 0),
     State 224 False [(58, St 228)] [(48, 57, St 225), (65, 70, St 225), (97, 102, St 225)] (St 0),
     State 225 False [(58, St 228)] [(48, 57, St 226), (65, 70, St 226), (97, 102, St 226)] (St 0),
     State 226 False [(58, St 228)] [(48, 57, St 227), (65, 70, St 227), (97, 102, St 227)] (St 0)]"

definition http_parser_code_33 :: "http_parser_action block list" where
  "http_parser_code_33 =
    [State 227 False [(58, St 228)] [] (St 0),
     State 228 False [(49, St 259), (50, St 262)] [(48, 57, St 229), (65, 70, St 265), (97, 102, St 265)] (St 0),
     State 229 False [(46, St 230), (58, St 255)] [(48, 57, St 252), (65, 70, St 252), (97, 102, St 252)] (St 0),
     State 230 False [(49, St 247), (50, St 249)] [(48, 57, St 231)] (St 0),
     State 231 False [(46, St 232)] [] (St 0),
     State 232 False [(49, St 242), (50, St 244)] [(48, 57, St 233)] (St 0),
     State 233 False [(46, St 234)] [] (St 0),
     State 234 False [(49, St 237), (50, St 239)] [(48, 57, St 235)] (St 0),
     State 235 False [(93, St 236)] [] (St 0),
     State 236 False [(32, Tr 228), (47, St 205), (58, St 221)] [] (St 0),
     State 237 False [(93, St 236)] [(48, 57, St 238)] (St 0),
     State 238 False [(93, St 236)] [(48, 57, St 235)] (St 0),
     State 239 False [(48, St 240), (53, St 241), (93, St 236)] [] (St 0),
     State 240 False [] [(48, 57, St 235)] (St 0),
     State 241 False [(48, St 235)] [] (St 0),
     State 242 False [(46, St 234)] [(48, 57, St 243)] (St 0),
     State 243 False [(46, St 234)] [(48, 57, St 233)] (St 0)]"

definition http_parser_code_34 :: "http_parser_action block list" where
  "http_parser_code_34 =
    [State 244 False [(46, St 234), (48, St 245), (53, St 246)] [] (St 0),
     State 245 False [] [(48, 57, St 233)] (St 0),
     State 246 False [(48, St 233)] [] (St 0),
     State 247 False [(46, St 232)] [(48, 57, St 248)] (St 0),
     State 248 False [(46, St 232)] [(48, 57, St 231)] (St 0),
     State 249 False [(46, St 232), (48, St 250), (53, St 251)] [] (St 0),
     State 250 False [] [(48, 57, St 231)] (St 0),
     State 251 False [(48, St 231)] [] (St 0),
     State 252 False [(58, St 255)] [(48, 57, St 253), (65, 70, St 253), (97, 102, St 253)] (St 0),
     State 253 False [(58, St 255)] [(48, 57, St 254), (65, 70, St 254), (97, 102, St 254)] (St 0),
     State 254 False [(58, St 255)] [] (St 0),
     State 255 False [] [(48, 57, St 256), (65, 70, St 256), (97, 102, St 256)] (St 0),
     State 256 False [(93, St 236)] [(48, 57, St 257), (65, 70, St 257), (97, 102, St 257)] (St 0),
     State 257 False [(93, St 236)] [(48, 57, St 258), (65, 70, St 258), (97, 102, St 258)] (St 0),
     State 258 False [(93, St 236)] [(48, 57, St 235), (65, 70, St 235), (97, 102, St 235)] (St 0),
     State 259 False [(46, St 230), (58, St 255)] [(48, 57, St 260), (65, 70, St 252), (97, 102, St 252)] (St 0)]"

definition http_parser_code_35 :: "http_parser_action block list" where
  "http_parser_code_35 =
    [State 260 False [(46, St 230), (58, St 255)] [(48, 57, St 261), (65, 70, St 253), (97, 102, St 253)] (St 0),
     State 261 False [(46, St 230), (58, St 255)] [(48, 57, St 254), (65, 70, St 254), (97, 102, St 254)] (St 0),
     State 262 False [(46, St 230), (48, St 263), (53, St 264), (58, St 255)] [(49, 57, St 252), (65, 70, St 252),
         (97, 102, St 252)] (St 0),
     State 263 False [(58, St 255)] [(48, 57, St 261), (65, 70, St 253), (97, 102, St 253)] (St 0),
     State 264 False [(48, St 261), (58, St 255)] [(49, 57, St 253), (65, 70, St 253), (97, 102, St 253)] (St 0),
     State 265 False [(58, St 255)] [(48, 57, St 252), (65, 70, St 252), (97, 102, St 252)] (St 0),
     State 266 False [(58, St 270)] [(48, 57, St 267), (65, 70, St 267), (97, 102, St 267)] (St 0),
     State 267 False [(58, St 270)] [(48, 57, St 268), (65, 70, St 268), (97, 102, St 268)] (St 0),
     State 268 False [(58, St 270)] [(48, 57, St 269), (65, 70, St 269), (97, 102, St 269)] (St 0),
     State 269 False [(58, St 270)] [] (St 0),
     State 270 False [(58, St 341)] [(48, 57, St 271), (65, 70, St 271), (97, 102, St 271)] (St 0),
     State 271 False [(58, St 275)] [(48, 57, St 272), (65, 70, St 272), (97, 102, St 272)] (St 0)]"

definition http_parser_code_36 :: "http_parser_action block list" where
  "http_parser_code_36 =
    [State 272 False [(58, St 275)] [(48, 57, St 273), (65, 70, St 273), (97, 102, St 273)] (St 0),
     State 273 False [(58, St 275)] [(48, 57, St 274), (65, 70, St 274), (97, 102, St 274)] (St 0),
     State 274 False [(58, St 275)] [] (St 0),
     State 275 False [(58, St 340)] [(48, 57, St 276), (65, 70, St 276), (97, 102, St 276)] (St 0),
     State 276 False [(58, St 280)] [(48, 57, St 277), (65, 70, St 277), (97, 102, St 277)] (St 0),
     State 277 False [(58, St 280)] [(48, 57, St 278), (65, 70, St 278), (97, 102, St 278)] (St 0),
     State 278 False [(58, St 280)] [(48, 57, St 279), (65, 70, St 279), (97, 102, St 279)] (St 0),
     State 279 False [(58, St 280)] [] (St 0),
     State 280 False [(58, St 339)] [(48, 57, St 281), (65, 70, St 281), (97, 102, St 281)] (St 0),
     State 281 False [(58, St 285)] [(48, 57, St 282), (65, 70, St 282), (97, 102, St 282)] (St 0),
     State 282 False [(58, St 285)] [(48, 57, St 283), (65, 70, St 283), (97, 102, St 283)] (St 0),
     State 283 False [(58, St 285)] [(48, 57, St 284), (65, 70, St 284), (97, 102, St 284)] (St 0),
     State 284 False [(58, St 285)] [] (St 0),
     State 285 False [(58, St 338)] [(48, 57, St 286), (65, 70, St 286), (97, 102, St 286)] (St 0),
     State 286 False [(58, St 290)] [(48, 57, St 287), (65, 70, St 287), (97, 102, St 287)] (St 0)]"

definition http_parser_code_37 :: "http_parser_action block list" where
  "http_parser_code_37 =
    [State 287 False [(58, St 290)] [(48, 57, St 288), (65, 70, St 288), (97, 102, St 288)] (St 0),
     State 288 False [(58, St 290)] [(48, 57, St 289), (65, 70, St 289), (97, 102, St 289)] (St 0),
     State 289 False [(58, St 290)] [] (St 0),
     State 290 False [(58, St 326)] [(48, 57, St 291), (65, 70, St 291), (97, 102, St 291)] (St 0),
     State 291 False [(58, St 295)] [(48, 57, St 292), (65, 70, St 292), (97, 102, St 292)] (St 0),
     State 292 False [(58, St 295)] [(48, 57, St 293), (65, 70, St 293), (97, 102, St 293)] (St 0),
     State 293 False [(58, St 295)] [(48, 57, St 294), (65, 70, St 294), (97, 102, St 294)] (St 0),
     State 294 False [(58, St 295)] [] (St 0),
     State 295 False [(58, St 325)] [(48, 57, St 296), (65, 70, St 296), (97, 102, St 296)] (St 0),
     State 296 False [(58, St 300)] [(48, 57, St 297), (65, 70, St 297), (97, 102, St 297)] (St 0),
     State 297 False [(58, St 300)] [(48, 57, St 298), (65, 70, St 298), (97, 102, St 298)] (St 0),
     State 298 False [(58, St 300)] [(48, 57, St 299), (65, 70, St 299), (97, 102, St 299)] (St 0),
     State 299 False [(58, St 300)] [] (St 0),
     State 300 False [(58, St 301)] [(48, 57, St 296), (65, 70, St 296), (97, 102, St 296)] (St 0)]"

definition http_parser_code_38 :: "http_parser_action block list" where
  "http_parser_code_38 =
    [State 301 False [(49, St 318), (50, St 321), (93, St 236)] [(2, 3, St 223), (48, 57, St 302), (65, 70, St 324),
         (97, 102, St 324)] (St 0),
     State 302 False [(46, St 230), (58, St 306), (93, St 236)] [(48, 57, St 303), (65, 70, St 303),
         (97, 102, St 303)] (St 0),
     State 303 False [(58, St 306), (93, St 236)] [(48, 57, St 304), (65, 70, St 304), (97, 102, St 304)] (St 0),
     State 304 False [(58, St 306), (93, St 236)] [(48, 57, St 305), (65, 70, St 305), (97, 102, St 305)] (St 0),
     State 305 False [(58, St 306), (93, St 236)] [] (St 0),
     State 306 False [(49, St 311), (50, St 314)] [(48, 57, St 307), (65, 70, St 317), (97, 102, St 317)] (St 0),
     State 307 False [(46, St 230), (58, St 255), (93, St 236)] [(48, 57, St 308), (65, 70, St 308),
         (97, 102, St 308)] (St 0),
     State 308 False [(58, St 255), (93, St 236)] [(48, 57, St 309), (65, 70, St 309), (97, 102, St 309)] (St 0),
     State 309 False [(58, St 255), (93, St 236)] [(48, 57, St 310), (65, 70, St 310), (97, 102, St 310)] (St 0)]"

definition http_parser_code_39 :: "http_parser_action block list" where
  "http_parser_code_39 =
    [State 310 False [(58, St 255), (93, St 236)] [] (St 0),
     State 311 False [(46, St 230), (58, St 255), (93, St 236)] [(48, 57, St 312), (65, 70, St 308),
         (97, 102, St 308)] (St 0),
     State 312 False [(46, St 230), (58, St 255), (93, St 236)] [(48, 57, St 313), (65, 70, St 309),
         (97, 102, St 309)] (St 0),
     State 313 False [(46, St 230), (58, St 255), (93, St 236)] [(48, 57, St 310), (65, 70, St 310),
         (97, 102, St 310)] (St 0),
     State 314 False [(46, St 230), (48, St 315), (53, St 316), (58, St 255), (93, St 236)] [(49, 57, St 308),
         (65, 70, St 308), (97, 102, St 308)] (St 0),
     State 315 False [(58, St 255), (93, St 236)] [(48, 57, St 313), (65, 70, St 309), (97, 102, St 309)] (St 0),
     State 316 False [(48, St 313), (58, St 255), (93, St 236)] [(49, 57, St 309), (65, 70, St 309),
         (97, 102, St 309)] (St 0),
     State 317 False [(58, St 255), (93, St 236)] [(48, 57, St 308), (65, 70, St 308), (97, 102, St 308)] (St 0)]"

definition http_parser_code_40 :: "http_parser_action block list" where
  "http_parser_code_40 =
    [State 318 False [(46, St 230), (58, St 306), (93, St 236)] [(48, 57, St 319), (65, 70, St 303),
         (97, 102, St 303)] (St 0),
     State 319 False [(46, St 230), (58, St 306), (93, St 236)] [(48, 57, St 320), (65, 70, St 304),
         (97, 102, St 304)] (St 0),
     State 320 False [(46, St 230), (58, St 306), (93, St 236)] [(48, 57, St 305), (65, 70, St 305),
         (97, 102, St 305)] (St 0),
     State 321 False [(46, St 230), (48, St 322), (53, St 323), (58, St 306), (93, St 236)] [(49, 57, St 303),
         (65, 70, St 303), (97, 102, St 303)] (St 0),
     State 322 False [(58, St 306), (93, St 236)] [(48, 57, St 320), (65, 70, St 304), (97, 102, St 304)] (St 0),
     State 323 False [(48, St 320), (58, St 306), (93, St 236)] [(49, 57, St 304), (65, 70, St 304),
         (97, 102, St 304)] (St 0),
     State 324 False [(58, St 306), (93, St 236)] [(48, 57, St 303), (65, 70, St 303), (97, 102, St 303)] (St 0),
     State 325 False [(49, St 318), (50, St 321)] [(2, 3, St 223), (48, 57, St 302), (65, 70, St 324),
         (97, 102, St 324)] (St 0)]"

definition http_parser_code_41 :: "http_parser_action block list" where
  "http_parser_code_41 =
    [State 326 False [(49, St 331), (50, St 334)] [(2, 3, St 223), (48, 57, St 327), (65, 70, St 337),
         (97, 102, St 337)] (St 0),
     State 327 False [(46, St 230), (58, St 306)] [(48, 57, St 328), (65, 70, St 328), (97, 102, St 328)] (St 0),
     State 328 False [(58, St 306)] [(48, 57, St 329), (65, 70, St 329), (97, 102, St 329)] (St 0),
     State 329 False [(58, St 306)] [(48, 57, St 330), (65, 70, St 330), (97, 102, St 330)] (St 0),
     State 330 False [(58, St 306)] [] (St 0),
     State 331 False [(46, St 230), (58, St 306)] [(48, 57, St 332), (65, 70, St 328), (97, 102, St 328)] (St 0),
     State 332 False [(46, St 230), (58, St 306)] [(48, 57, St 333), (65, 70, St 329), (97, 102, St 329)] (St 0),
     State 333 False [(46, St 230), (58, St 306)] [(48, 57, St 330), (65, 70, St 330), (97, 102, St 330)] (St 0),
     State 334 False [(46, St 230), (48, St 335), (53, St 336), (58, St 306)] [(49, 57, St 328), (65, 70, St 328),
         (97, 102, St 328)] (St 0),
     State 335 False [(58, St 306)] [(48, 57, St 333), (65, 70, St 329), (97, 102, St 329)] (St 0)]"

definition http_parser_code_42 :: "http_parser_action block list" where
  "http_parser_code_42 =
    [State 336 False [(48, St 333), (58, St 306)] [(49, 57, St 329), (65, 70, St 329), (97, 102, St 329)] (St 0),
     State 337 False [(58, St 306)] [(48, 57, St 328), (65, 70, St 328), (97, 102, St 328)] (St 0),
     State 338 False [] [(2, 3, St 223), (48, 57, St 224), (65, 70, St 224), (97, 102, St 224)] (St 0),
     State 339 False [] [(2, 3, St 223)] (St 0),
     State 340 False [(3, St 223)] [] (St 0),
     State 341 False [(4, St 223)] [] (St 0),
     State 342 False [(58, St 343)] [] (St 0),
     State 343 False [(49, St 318), (50, St 321), (93, St 236)] [(2, 5, St 223), (48, 57, St 302), (65, 70, St 324),
         (97, 102, St 324)] (St 0),
     State 344 False [] [(48, 57, St 345), (65, 70, St 345), (97, 102, St 345)] (St 0),
     State 345 False [(46, St 346)] [(48, 57, St 345), (65, 70, St 345), (97, 102, St 345)] (St 0)]"

definition http_parser_code_43 :: "http_parser_action block list" where
  "http_parser_code_43 =
    [State 346 True [(33, St 347), (36, St 347), (61, St 347), (95, St 347), (126, St 347), (606, St 347), (635, St 347),
         (637, St 347)] [(38, 46, St 347), (48, 59, St 347), (65, 90, St 347), (97, 122, St 347)] (St 0),
     State 347 True [(33, St 347), (36, St 347), (61, St 347), (93, St 236), (95, St 347), (126, St 347), (606, St 347),
         (635, St 347), (637, St 347)] [(38, 46, St 347), (48, 59, St 347), (65, 90, St 347), (97, 122, St 347)] (St 0)]"

definition http_parser_parts :: "http_parser_action block list list" where
  "http_parser_parts =
    [http_parser_code_1, http_parser_code_2, http_parser_code_3, http_parser_code_4, http_parser_code_5,
     http_parser_code_6, http_parser_code_7, http_parser_code_8, http_parser_code_9, http_parser_code_10,
     http_parser_code_11, http_parser_code_12, http_parser_code_13, http_parser_code_14, http_parser_code_15,
     http_parser_code_16, http_parser_code_17, http_parser_code_18, http_parser_code_19, http_parser_code_20,
     http_parser_code_21, http_parser_code_22, http_parser_code_23, http_parser_code_24, http_parser_code_25,
     http_parser_code_26, http_parser_code_27, http_parser_code_28, http_parser_code_29, http_parser_code_30,
     http_parser_code_31, http_parser_code_32, http_parser_code_33, http_parser_code_34, http_parser_code_35,
     http_parser_code_36, http_parser_code_37, http_parser_code_38, http_parser_code_39, http_parser_code_40,
     http_parser_code_41, http_parser_code_42, http_parser_code_43]"

definition http_parser_code :: "http_parser_action block list" where
  "http_parser_code = concat http_parser_parts"

lemmas http_parser_code_parts =
  http_parser_parts_def
  http_parser_code_1_def http_parser_code_2_def http_parser_code_3_def http_parser_code_4_def
  http_parser_code_5_def http_parser_code_6_def http_parser_code_7_def http_parser_code_8_def
  http_parser_code_9_def http_parser_code_10_def http_parser_code_11_def http_parser_code_12_def
  http_parser_code_13_def http_parser_code_14_def http_parser_code_15_def http_parser_code_16_def
  http_parser_code_17_def http_parser_code_18_def http_parser_code_19_def http_parser_code_20_def
  http_parser_code_21_def http_parser_code_22_def http_parser_code_23_def http_parser_code_24_def
  http_parser_code_25_def http_parser_code_26_def http_parser_code_27_def http_parser_code_28_def
  http_parser_code_29_def http_parser_code_30_def http_parser_code_31_def http_parser_code_32_def
  http_parser_code_33_def http_parser_code_34_def http_parser_code_35_def http_parser_code_36_def
  http_parser_code_37_def http_parser_code_38_def http_parser_code_39_def http_parser_code_40_def
  http_parser_code_41_def http_parser_code_42_def http_parser_code_43_def

end
