(* ===== verification/Http11.thy ===== *)
theory Http11
  imports Http11Code
begin

text \<open>
  The request parser (\<open>http/http11_parser.h\<close>, \<open>http/http11_parser.cc\<close>): its struct, its actions and the functions
  around the generated code. Positions are offsets into the buffer. A callback that is made is an entry of
  a list, with the offset and the length it was given; a failed assertion is an error value.
\<close>

section \<open>The parser\<close>

datatype http_cb =
    request_method_cb | request_uri_cb | fragment_cb | request_path_cb | query_string_cb | http_version_cb | header_done_cb | http_field_cb

text \<open>The callback pointers are the set of those that are not null. The data pointer is left out.\<close>

record http_parser =
  cs :: nat
  body_start :: nat
  content_len :: int
  nread :: nat
  mark :: nat
  field_start :: nat
  field_len :: nat
  query_start :: nat
  xml_sent :: int
  json_sent :: int
  uri_relaxed :: int
  callbacks :: "http_cb set"

type_synonym http_call = "http_cb call"

definition http_parser_start :: nat where
  "http_parser_start = 1"

definition http_parser_first_final :: nat where
  "http_parser_first_final = 348"

definition http_parser_error :: nat where
  "http_parser_error = 0"

definition http_parser_init :: "http_parser \<Rightarrow> http_parser" where
  "http_parser_init parser =
     parser\<lparr>cs := http_parser_start, body_start := 0, content_len := 0, mark := 0, nread := 0, field_len := 0, field_start := 0,
       xml_sent := 0, json_sent := 0\<rparr>"

section \<open>Actions\<close>

type_synonym http_world = "http_parser \<times> http_call list"

definition element :: "http_cb \<Rightarrow> nat \<Rightarrow> nat \<Rightarrow> http_world \<Rightarrow> http_world" where
  "element cb at n w = (case w of (parser, calls) \<Rightarrow> (parser, if cb \<in> callbacks parser then calls @ [Element cb at n] else calls))"

definition done_action :: "nat \<Rightarrow> nat \<Rightarrow> http_world \<Rightarrow> http_world" where
  "done_action pe p w =
     (case w of (parser, calls) \<Rightarrow>
        if xml_sent parser \<noteq> 0 \<or> json_sent parser \<noteq> 0
        then (parser\<lparr>body_start := mark parser, content_len := int p - int (mark parser) + 1\<rparr>, calls)
        else element header_done_cb (p + 1) (pe - p - 1) (parser\<lparr>body_start := p + 1\<rparr>, calls))"

fun http_act :: "nat \<Rightarrow> http_parser_action \<Rightarrow> nat \<Rightarrow> http_world \<Rightarrow> http_world" where
  "http_act pe Mark p (parser, calls) = (parser\<lparr>mark := p\<rparr>, calls)"
| "http_act pe Start_field p (parser, calls) = (parser\<lparr>field_start := p\<rparr>, calls)"
| "http_act pe Write_field p (parser, calls) = (parser\<lparr>field_len := len_from (field_start parser) p\<rparr>, calls)"
| "http_act pe Write_value p (parser, calls) =
     (parser, if http_field_cb \<in> callbacks parser
              then calls @ [Field (field_start parser) (field_len parser) (mark parser) (len_from (mark parser) p)] else calls)"
| "http_act pe Request_method p (parser, calls) = element request_method_cb (mark parser) (len_from (mark parser) p) (parser, calls)"
| "http_act pe Request_uri p (parser, calls) = element request_uri_cb (mark parser) (len_from (mark parser) p) (parser, calls)"
| "http_act pe Fragment p (parser, calls) = element fragment_cb (mark parser) (len_from (mark parser) p) (parser, calls)"
| "http_act pe Start_query p (parser, calls) = (parser\<lparr>query_start := p\<rparr>, calls)"
| "http_act pe Query_string p (parser, calls) =
     element query_string_cb (query_start parser) (len_from (query_start parser) p) (parser, calls)"
| "http_act pe Http_version p (parser, calls) = element http_version_cb (mark parser) (len_from (mark parser) p) (parser, calls)"
| "http_act pe Request_path p (parser, calls) = element request_path_cb (mark parser) (len_from (mark parser) p) (parser, calls)"
| "http_act pe (Done k) p w = done_action pe p w"
| "http_act pe Xml p (parser, calls) = (parser\<lparr>xml_sent := 1\<rparr>, calls)"
| "http_act pe Json p (parser, calls) = (parser\<lparr>json_sent := 1\<rparr>, calls)"

fun http_brk :: "http_parser_action \<Rightarrow> nat option" where
  "http_brk (Done k) = Some k"
| "http_brk _ = None"

section \<open>Execution\<close>

definition http_parser_exec :: "http_parser \<Rightarrow> string \<Rightarrow> nat \<Rightarrow> parser_fault + nat \<times> nat \<times> http_world" where
  "http_parser_exec parser buffer off =
     (case ragel_run http_parser_code (http_act (length buffer)) http_brk (uri_relaxed parser \<noteq> 0) off (drop off buffer) (cs parser) (parser, [])
      of Inl NoLabel \<Rightarrow> Inl Label | Inr r \<Rightarrow> Inr r)"

definition http_parser_has_error :: "http_parser \<Rightarrow> bool" where
  "http_parser_has_error parser \<longleftrightarrow> cs parser = http_parser_error"

definition http_parser_is_finished :: "http_parser \<Rightarrow> bool" where
  "http_parser_is_finished parser \<longleftrightarrow> cs parser \<ge> http_parser_first_final"

definition http_parser_finish :: "http_parser \<Rightarrow> int" where
  "http_parser_finish parser =
     (if http_parser_has_error parser then - 1 else if http_parser_is_finished parser then 1 else 0)"

definition http_parser_execute :: "http_parser \<Rightarrow> string \<Rightarrow> nat \<Rightarrow> parser_fault + http_parser \<times> nat \<times> http_call list" where
  "http_parser_execute parser buffer off =
     (let len = length buffer
      in if len = 0 then Inr (parser, 0, [])
         else
           let parser = parser\<lparr>nread := 0, mark := 0, field_len := 0, field_start := 0\<rparr>
           in if \<not> off \<le> len then Inl (Assertion ''offset past end of buffer'')
              else if int (len - off) \<noteq> to_int len - to_int off then Inl (Assertion ''pointers aren't same distance'')
              else bindr (http_parser_exec parser buffer off) (\<lambda>(cs', p, parser, calls).
                if \<not> p \<le> len then Inl (Assertion ''Buffer overflow after parsing.'')
                else
                  let parser = (if http_parser_has_error parser then parser else parser\<lparr>cs := cs'\<rparr>);
                      parser = parser\<lparr>nread := nread parser + (p - off)\<rparr>
                  in if \<not> nread parser \<le> len then Inl (Assertion ''nread longer than length'')
                     else if \<not> body_start parser \<le> len then Inl (Assertion ''body starts after buffer end'')
                     else if \<not> mark parser < len then Inl (Assertion ''mark is after buffer end'')
                     else if \<not> field_len parser \<le> len then Inl (Assertion ''field has length longer than whole buffer'')
                     else if \<not> field_start parser < len then Inl (Assertion ''field starts after buffer end'')
                     else Inr (parser, nread parser, calls)))"

section \<open>The code is closed\<close>

definition http_parser_transitions :: "(nat \<times> http_parser_action list \<times> nat) list" where
  "http_parser_transitions =
    [(0, [Mark], 2), (4, [Request_method], 3), (6, [Mark, Request_path, Request_uri], 4), 
     (37, [Request_path, Request_uri], 4), (44, [Mark, Fragment], 4), (47, [Fragment], 4), 
     (54, [Start_query, Query_string, Request_uri], 4), (58, [Query_string, Request_uri], 4), (13, [Mark], 5), 
     (21, [Http_version], 13), (30, [Mark, Write_value], 13), (33, [Write_value], 13), (23, [Start_field], 14), 
     (27, [Write_field], 15), (29, [Mark], 15), (28, [Mark], 16), (22, [Http_version], 17), 
     (31, [Mark, Write_value], 17), (34, [Write_value], 17), (24, [Start_field, Done 348], 348), (36, [Done 348], 348), 
     (25, [Start_field], 18), (7, [Mark], 19), (8, [Mark, Request_path, Request_uri], 20), 
     (39, [Request_path, Request_uri], 20), (55, [Start_query, Query_string, Request_uri], 20), 
     (59, [Query_string, Request_uri], 20), (43, [Mark], 21), (45, [Mark], 22), (9, [Mark], 24), (203, [Mark], 26), 
     (204, [Mark], 27), (11, [Mark, Request_path], 29), (42, [Request_path], 29), (53, [Start_query], 30), 
     (56, [Start_query], 31), (10, [Mark], 33), (12, [Mark], 173), (2, [Mark], 194), (224, [Request_path], 196), 
     (227, [Xml, Done 349], 349), (235, [Json, Done 349], 349), (3, [Mark], 198), (228, [Request_path], 199), 
     (232, [Mark], 200)]"

lemma http_lookup:
  "map_of http_parser_transitions 0 = Some ([Mark], 2)" "map_of http_parser_transitions 2 = Some ([Mark], 194)"
  "map_of http_parser_transitions 3 = Some ([Mark], 198)" "map_of http_parser_transitions 4 = Some ([Request_method], 3)"
  "map_of http_parser_transitions 6 = Some ([Mark, Request_path, Request_uri], 4)"
  "map_of http_parser_transitions 7 = Some ([Mark], 19)"
  "map_of http_parser_transitions 8 = Some ([Mark, Request_path, Request_uri], 20)"
  "map_of http_parser_transitions 9 = Some ([Mark], 24)" "map_of http_parser_transitions 10 = Some ([Mark], 33)"
  "map_of http_parser_transitions 11 = Some ([Mark, Request_path], 29)" "map_of http_parser_transitions 12 = Some ([Mark], 173)"
  "map_of http_parser_transitions 13 = Some ([Mark], 5)" "map_of http_parser_transitions 21 = Some ([Http_version], 13)"
  "map_of http_parser_transitions 22 = Some ([Http_version], 17)" "map_of http_parser_transitions 23 = Some ([Start_field], 14)"
  "map_of http_parser_transitions 24 = Some ([Start_field, Done 348], 348)"
  "map_of http_parser_transitions 25 = Some ([Start_field], 18)" "map_of http_parser_transitions 27 = Some ([Write_field], 15)"
  "map_of http_parser_transitions 28 = Some ([Mark], 16)" "map_of http_parser_transitions 29 = Some ([Mark], 15)"
  "map_of http_parser_transitions 30 = Some ([Mark, Write_value], 13)"
  "map_of http_parser_transitions 31 = Some ([Mark, Write_value], 17)"
  "map_of http_parser_transitions 33 = Some ([Write_value], 13)" "map_of http_parser_transitions 34 = Some ([Write_value], 17)"
  "map_of http_parser_transitions 36 = Some ([Done 348], 348)"
  "map_of http_parser_transitions 37 = Some ([Request_path, Request_uri], 4)"
  "map_of http_parser_transitions 39 = Some ([Request_path, Request_uri], 20)"
  "map_of http_parser_transitions 42 = Some ([Request_path], 29)" "map_of http_parser_transitions 43 = Some ([Mark], 21)"
  "map_of http_parser_transitions 44 = Some ([Mark, Fragment], 4)" "map_of http_parser_transitions 45 = Some ([Mark], 22)"
  "map_of http_parser_transitions 47 = Some ([Fragment], 4)" "map_of http_parser_transitions 53 = Some ([Start_query], 30)"
  "map_of http_parser_transitions 54 = Some ([Start_query, Query_string, Request_uri], 4)"
  "map_of http_parser_transitions 55 = Some ([Start_query, Query_string, Request_uri], 20)"
  "map_of http_parser_transitions 56 = Some ([Start_query], 31)"
  "map_of http_parser_transitions 58 = Some ([Query_string, Request_uri], 4)"
  "map_of http_parser_transitions 59 = Some ([Query_string, Request_uri], 20)"
  "map_of http_parser_transitions 203 = Some ([Mark], 26)" "map_of http_parser_transitions 204 = Some ([Mark], 27)"
  "map_of http_parser_transitions 224 = Some ([Request_path], 196)"
  "map_of http_parser_transitions 227 = Some ([Xml, Done 349], 349)"
  "map_of http_parser_transitions 228 = Some ([Request_path], 199)" "map_of http_parser_transitions 232 = Some ([Mark], 200)"
  "map_of http_parser_transitions 235 = Some ([Json, Done 349], 349)"
  by (simp_all add: http_parser_transitions_def)

lemmas http_parser_eval = http_parser_code_def http_parser_code_parts

lemma http_parser_states: "state_nums http_parser_code = 1 # [2..<18] @ [348] @ [18..<198] @ [349] @ [198..<348]"
  by (simp add: http_parser_eval)

lemma http_parser_trans_list: "trans_list http_parser_code = http_parser_transitions"
  by (simp add: http_parser_eval http_parser_transitions_def)

lemma http_parser_trans: "find_transition http_parser_code t = map_of http_parser_transitions t"
  by (simp add: find_transition_list http_parser_trans_list)

lemma http_parser_state: "find_state http_parser_code n \<noteq> None \<longleftrightarrow> 1 \<le> n \<and> n \<le> 349"
  unfolding find_state_num http_parser_states list.set set_append set_upt Un_iff insert_iff atLeastLessThan_iff empty_iff by presburger

lemma http_parser_blocks:
  "list_all (block_in (\<lambda>k. 1 \<le> k \<and> k \<le> 349) (\<lambda>t. map_of http_parser_transitions t \<noteq> None)) http_parser_code"
  by (simp add: http_parser_eval http_lookup)

lemma http_parser_closed: "list_all (block_ok http_parser_code) http_parser_code"
  using http_parser_blocks
  by (rule list.pred_mono_strong) (erule block_ok_in [rotated 2]; auto simp only: http_parser_state http_parser_trans)

interpretation hp: ragel_machine http_parser_code "http_act pe" http_brk for pe
  by unfold_locales (rule http_parser_closed)

section \<open>Callbacks stay inside the buffer\<close>

text \<open>
  Which of the two lengths that outlive a transition can be relied on in a state: the length of the field
  name, which is stale between the start of a name and its colon, and the start of the query, which is
  known only inside the query.
\<close>

definition field_known :: "nat \<Rightarrow> bool" where
  "field_known n \<longleftrightarrow> n \<noteq> 14 \<and> n \<noteq> 18 \<and> n \<noteq> 348"

definition query_known :: "nat \<Rightarrow> bool" where
  "query_known n \<longleftrightarrow> n = 30 \<or> n = 31 \<or> n = 32"

fun known_after :: "http_parser_action list \<Rightarrow> bool \<times> bool \<Rightarrow> (bool \<times> bool) option" where
  "known_after [] k = Some k"
| "known_after (a # as) (f, q) =
     (if a = Start_field then known_after as (False, q)
      else if a = Write_field then known_after as (True, q)
      else if a = Start_query then known_after as (f, True)
      else if a = Write_value \<and> \<not> f \<or> a = Query_string \<and> \<not> q then None
      else known_after as (f, q))"

definition known_edge :: "nat \<Rightarrow> http_parser_action list \<Rightarrow> nat \<Rightarrow> bool" where
  "known_edge n as k \<longleftrightarrow>
     (case known_after as (field_known n, query_known n) of None \<Rightarrow> False
      | Some (f, q) \<Rightarrow> (field_known k \<longrightarrow> f) \<and> (query_known k \<longrightarrow> q))"

lemma http_parser_known: "list_all (edges_hold (trans_list http_parser_code) known_edge) http_parser_code"
  unfolding http_parser_trans_list
  by (simp add: http_parser_eval http_lookup known_edge_def field_known_def query_known_def)

end
