(* ===== verification/Http11Safe.thy ===== *)
theory Http11Safe
  imports Http11
begin

text \<open>
  The request parser stays inside its buffer: from every state that it can get into, no assertion fails, and every
  callback is given a range of the buffer, but for the query string of a query that began in an earlier call.
\<close>

section \<open>Actions\<close>

text \<open>
  A callback is in order when its ranges lie in the buffer, or when it reports the query that began at \<open>stale\<close>, in the
  buffer of an earlier call.
\<close>

definition call_ok :: "nat \<Rightarrow> nat option \<Rightarrow> http_call \<Rightarrow> bool" where
  "call_ok len stale c \<longleftrightarrow> call_in len c \<or> (\<exists>q n. stale = Some q \<and> c = Element query_string_cb q n)"

lemma call_ok_None [simp]: "call_ok len None = call_in len"
  by (simp add: call_ok_def fun_eq_iff)

text \<open>What holds at a position, given which lengths are known.\<close>

definition parser_ok :: "nat \<Rightarrow> nat option \<Rightarrow> http_parser \<Rightarrow> bool \<Rightarrow> bool \<Rightarrow> nat \<Rightarrow> http_world \<Rightarrow> bool" where
  "parser_ok len stale parser0 f q p w \<longleftrightarrow>
     (case w of (parser, calls) \<Rightarrow>
        p \<le> len \<and> mark parser \<le> p \<and> mark parser < len \<and> field_start parser \<le> p \<and> field_start parser < len
        \<and> field_len parser \<le> len \<and> body_start parser \<le> len
        \<and> (f \<longrightarrow> field_start parser + field_len parser \<le> p)
        \<and> (q \<longrightarrow> query_start parser \<le> p \<or> stale = Some (query_start parser))
        \<and> cs parser = cs parser0 \<and> nread parser = 0 \<and> callbacks parser = callbacks parser0
        \<and> list_all (call_ok len stale) calls)"

lemma parser_ok_weak: "parser_ok len st p0 f q p w \<Longrightarrow> parser_ok len st p0 False False p w"
  by (cases w) (simp add: parser_ok_def)

lemma act_ok:
  assumes "parser_ok len st p0 f q p w" "p < len" "known_after [a] (f, q) = Some (f', q')"
  shows "parser_ok len st p0 f' q' p (http_act len a p w)"
proof -
  obtain parser calls where w: "w = (parser, calls)" by fastforce
  show ?thesis
    using assms unfolding w
    by (cases a) (auto simp: parser_ok_def call_ok_def len_from_def element_def done_action_def split: if_splits)
qed

lemma known_after_Cons:
  "known_after (a # as) k = Some k' \<longleftrightarrow> (\<exists>k1. known_after [a] k = Some k1 \<and> known_after as k1 = Some k')"
  by (cases k) auto

lemma acts_ok:
  assumes "parser_ok len st p0 f q p w" "p < len" "known_after as (f, q) = Some (f', q')" "run_actions (http_act len) http_brk p as w = (b, w')"
  shows "(b = None \<longrightarrow> parser_ok len st p0 f' q' p w') \<and> parser_ok len st p0 False False p w'"
  using assms
proof (induction as arbitrary: f q w)
  case (Cons a as)
  obtain k1 where k1: "known_after [a] (f, q) = Some k1" "known_after as k1 = Some (f', q')"
    using Cons.prems(3) known_after_Cons [of a as "(f, q)"] by blast
  obtain f1 q1 where "k1 = (f1, q1)" by fastforce
  note k = k1 [unfolded this]
  have ok: "parser_ok len st p0 f1 q1 p (http_act len a p w)" by (rule act_ok [OF Cons.prems(1,2) k(1)])
  then have weak: "parser_ok len st p0 False False p (http_act len a p w)" by (rule parser_ok_weak)
  show ?case
  proof (cases "http_brk a")
    case None
    then show ?thesis using Cons.IH [OF ok Cons.prems(2) k(2)] Cons.prems(4) by simp
  next
    case (Some k)
    then show ?thesis using Cons.prems(4) weak by auto
  qed
qed (auto intro: parser_ok_weak)

lemma parser_ok_step: "parser_ok len st p0 f q p w \<Longrightarrow> p < len \<Longrightarrow> (f' \<longrightarrow> f) \<Longrightarrow> (q' \<longrightarrow> q) \<Longrightarrow> parser_ok len st p0 f' q' (p + 1) w"
  by (cases w) (auto simp: parser_ok_def)

lemma http_move_ok:
  assumes "parser_ok len st p0 (field_known n) (query_known n) p w" "p < len"
    "ragel_move http_parser_code (http_act len) http_brk relaxed p c n w = Inr m"
  shows "case m of Next k w' \<Rightarrow> parser_ok len st p0 (field_known k) (query_known k) (p + 1) w'
     | Break k w' \<Rightarrow> parser_ok len st p0 False False (p + 1) w' | Stop w' \<Rightarrow> parser_ok len st p0 False False p w'
     | Unmatched w' \<Rightarrow> parser_ok len st p0 False False p w'"
proof -
  have weak: "parser_ok len st p0 False False p w" using assms(1) by (rule parser_ok_weak)
  from move_edge [OF http_parser_known assms(3)] show ?thesis
  proof (elim disjE exE conjE)
    fix as k
    assume e: "known_edge n as k"
      and m: "case run_actions (http_act len) http_brk p as w of (Some b, s') \<Rightarrow> m = Break b s' | (None, s') \<Rightarrow> m = Next k s'"
    obtain b w' where r: "run_actions (http_act len) http_brk p as w = (b, w')" by (metis surj_pair)
    obtain f q where fq: "known_after as (field_known n, query_known n) = Some (f, q)" "field_known k \<longrightarrow> f" "query_known k \<longrightarrow> q"
      using e by (auto simp: known_edge_def split: option.splits prod.splits)
    note ok = acts_ok [OF assms(1,2) fq(1) r]
    show ?thesis
    proof (cases b)
      case None
      then show ?thesis using m r ok parser_ok_step [OF _ assms(2) fq(2,3)] by simp
    next
      case (Some k')
      then show ?thesis using m r ok parser_ok_step [of len st p0 False False p w' False False] assms(2) by simp
    qed
  qed (use weak in simp_all)
qed

section \<open>The loop\<close>

text \<open>The states in which the code leaves the loop are the final ones, and only there the start of the body is set.\<close>

lemma http_parser_breaks:
  assumes "(t, as, m) \<in> set (trans_list http_parser_code)" "a \<in> set as" "http_brk a = Some k"
  shows "k = 348 \<or> k = 349"
proof -
  have "list_all (\<lambda>(t, as, m). list_all (\<lambda>a. case http_brk a of None \<Rightarrow> True | Some k \<Rightarrow> k = 348 \<or> k = 349) as) http_parser_transitions"
    by (simp add: http_parser_transitions_def)
  then show ?thesis using assms unfolding http_parser_trans_list by (fastforce simp: list_all_iff)
qed

lemma acts_body: "run_actions (http_act len) http_brk p as w = (None, w') \<Longrightarrow> body_start (fst w') = body_start (fst w)"
proof (induction as arbitrary: w)
  case (Cons a as)
  obtain parser calls where w: "w = (parser, calls)" by fastforce
  have a: "http_brk a = None" "run_actions (http_act len) http_brk p as (http_act len a p w) = (None, w')"
    using Cons.prems by (auto split: option.splits)
  have "body_start (fst (http_act len a p w)) = body_start (fst w)" using a(1) unfolding w by (cases a) (simp_all add: element_def)
  then show ?case using Cons.IH [OF a(2)] by simp
qed simp

lemma http_move_body:
  assumes "ragel_move http_parser_code (http_act len) http_brk relaxed p c n w = Inr m"
  shows "case m of Next k w' \<Rightarrow> body_start (fst w') = body_start (fst w) | Break k w' \<Rightarrow> 348 \<le> k
     | Stop w' \<Rightarrow> True | Unmatched w' \<Rightarrow> body_start (fst w') = body_start (fst w)"
  using move_edge [OF http_parser_known assms]
proof (elim disjE exE conjE)
  fix as k
  assume m: "case run_actions (http_act len) http_brk p as w of (Some b, s') \<Rightarrow> m = Break b s' | (None, s') \<Rightarrow> m = Next k s'"
  obtain b w' where r: "run_actions (http_act len) http_brk p as w = (b, w')" by (metis surj_pair)
  show ?thesis
  proof (cases b)
    case None
    then show ?thesis using m r acts_body by simp
  next
    case (Some k')
    then have "m = Break k' w'" using m r by simp
    then show ?thesis using hp.move_break [of len relaxed p c n w k' w'] assms http_parser_breaks by fastforce
  qed
qed simp_all

lemma http_exec_body:
  assumes "ragel_run http_parser_code (http_act len) http_brk relaxed p w n s = Inr (cs', p', s')" "cs' \<noteq> 0" "cs' < 348"
  shows "body_start (fst s') = body_start (fst s)"
proof -
  have "cs' \<noteq> 0 \<and> cs' < 348 \<longrightarrow> body_start (fst s') = body_start (fst s)"
    by (rule hp.run_ends [where J = "\<lambda>_ _ w. body_start (fst w) = body_start (fst s)"
          and F = "\<lambda>k _ w. k \<noteq> 0 \<and> k < 348 \<longrightarrow> body_start (fst w) = body_start (fst s)" and pe = "p + length w", OF _ _ assms(1)])
       (auto dest!: http_move_body split: move.splits)
  then show ?thesis using assms(2,3) by blast
qed

text \<open>The parser as it enters the loop, and as it leaves it.\<close>

lemma http_exec_ok:
  assumes "off \<le> len" "len = length buffer" "0 < len" "1 \<le> cs parser" "cs parser \<le> 349" "body_start parser \<le> len"
    "query_known (cs parser) \<longrightarrow> query_start parser \<le> off \<or> st = Some (query_start parser)"
    "nread parser = 0" "mark parser = 0" "field_len parser = 0" "field_start parser = 0"
  shows "\<exists>cs' p w. http_parser_exec parser buffer off = Inr (cs', p, w) \<and> parser_ok len st parser False False p w \<and> off \<le> p
    \<and> cs' \<le> 349 \<and> (cs' \<noteq> 0 \<and> cs' < 348 \<longrightarrow> body_start (fst w) = body_start parser)"
proof -
  obtain cs' p w where r: "ragel_run http_parser_code (http_act len) http_brk (uri_relaxed parser \<noteq> 0) off (drop off buffer) (cs parser) (parser, [])
      = Inr (cs', p, w)" using hp.run_total by (metis prod_cases3)
  have start: "parser_ok len st parser (field_known (cs parser)) (query_known (cs parser)) off (parser, [])"
    using assms by (simp add: parser_ok_def)
  have "parser_ok len st parser False False p w"
    by (rule hp.run_inv [where J = "\<lambda>n. parser_ok len st parser (field_known n) (query_known n)" and pe = len, OF parser_ok_weak http_move_ok r start])
       (use assms(1,2) in simp_all)
  moreover have "cs' \<le> 349"
    using hp.run_state [OF _ r] assms(4,5) http_parser_state http_parser_breaks by force
  ultimately show ?thesis using r hp.run_bounds [OF r] assms(2) http_exec_body [OF r] by (auto simp: http_parser_exec_def)
qed

text \<open>A call of the parser is a run of the loop: from every state but the error state no assertion fails.\<close>

lemma execute_ok:
  assumes "off \<le> length buffer" "length buffer < 2 ^ 31" "1 \<le> cs parser" "cs parser \<le> 349" "body_start parser \<le> length buffer"
    "cs parser \<in> {30, 31, 32} \<longrightarrow> query_start parser \<le> off \<or> st = Some (query_start parser)" "buffer \<noteq> []"
  obtains cs' p parser' calls where
    "http_parser_exec (parser\<lparr>nread := 0, mark := 0, field_len := 0, field_start := 0\<rparr>) buffer off = Inr (cs', p, parser', calls)"
    "http_parser_execute parser buffer off = Inr (parser'\<lparr>cs := cs', nread := p - off\<rparr>, p - off, calls)"
    "off \<le> p" "p \<le> length buffer" "cs' \<le> 349" "callbacks parser' = callbacks parser" "list_all (call_ok (length buffer) st) calls"
    "cs' \<noteq> 0 \<and> cs' < 348 \<longrightarrow> body_start parser' = body_start parser"
proof -
  let ?parser = "parser\<lparr>nread := 0, mark := 0, field_len := 0, field_start := 0\<rparr>" and ?len = "length buffer"
  obtain cs' p w where r: "http_parser_exec ?parser buffer off = Inr (cs', p, w)" "parser_ok ?len st ?parser False False p w" "off \<le> p" "cs' \<le> 349"
    "cs' \<noteq> 0 \<and> cs' < 348 \<longrightarrow> body_start (fst w) = body_start ?parser"
    using http_exec_ok [of off ?len buffer ?parser st] assms by (auto simp: query_known_def)
  obtain q calls where w: "w = (q, calls)" by fastforce
  have "int (?len - off) = to_int ?len - to_int off" using assms(1,2) by (simp add: to_int_small of_nat_diff)
  then have "http_parser_execute parser buffer off = Inr (q\<lparr>cs := cs', nread := p - off\<rparr>, p - off, calls)"
    using r assms(1,3,7) w by (auto simp: http_parser_execute_def parser_ok_def Let_def http_parser_has_error_def http_parser_error_def)
  then show thesis using that [OF r(1) [unfolded w]] r w by (auto simp: parser_ok_def)
qed

lemma execute_run:
  assumes "off \<le> length buffer" "length buffer < 2 ^ 31" "1 \<le> cs parser" "cs parser \<le> 349" "body_start parser \<le> length buffer"
    "cs parser \<in> {30, 31, 32} \<longrightarrow> query_start parser \<le> off" "buffer \<noteq> []"
  obtains cs' p parser' calls where
    "http_parser_exec (parser\<lparr>nread := 0, mark := 0, field_len := 0, field_start := 0\<rparr>) buffer off = Inr (cs', p, parser', calls)"
    "http_parser_execute parser buffer off = Inr (parser'\<lparr>cs := cs', nread := p - off\<rparr>, p - off, calls)"
    "off \<le> p" "p \<le> length buffer" "cs' \<le> 349" "callbacks parser' = callbacks parser" "list_all (call_in (length buffer)) calls"
  using assms by (auto intro: execute_ok [of off buffer parser None])

section \<open>Reachable parsers\<close>

text \<open>
  A parser is initialised in whatever memory it got, and then run over any buffers, each from any offset, as long as it
  has neither failed nor finished.
\<close>

inductive http_reach :: "http_parser \<Rightarrow> bool" where
  http_init: "http_reach (http_parser_init m)"
| http_call: "http_reach parser \<Longrightarrow> http_parser_finish parser = 0 \<Longrightarrow> off \<le> length buffer \<Longrightarrow> length buffer < 2 ^ 31 \<Longrightarrow>
    http_parser_execute parser buffer off = Inr (parser', n, calls) \<Longrightarrow> http_reach parser'"

lemma finish_0: "http_parser_finish parser = 0 \<longleftrightarrow> 1 \<le> cs parser \<and> cs parser < 348"
  by (auto simp: http_parser_finish_def http_parser_has_error_def http_parser_error_def http_parser_is_finished_def
      http_parser_first_final_def)

text \<open>The query that was open before a call and began behind the place where the call starts.\<close>

definition open_query :: "http_parser \<Rightarrow> nat \<Rightarrow> nat option" where
  "open_query parser off = (if cs parser \<in> {30, 31, 32} \<and> off < query_start parser then Some (query_start parser) else None)"

lemma http_call_ok:
  assumes "http_parser_finish parser = 0" "body_start parser = 0" "off \<le> length buffer" "length buffer < 2 ^ 31"
  shows "\<exists>parser' n calls. http_parser_execute parser buffer off = Inr (parser', n, calls) \<and> off + n \<le> length buffer
    \<and> cs parser' \<le> 349 \<and> (http_parser_finish parser' = 0 \<longrightarrow> body_start parser' = 0)
    \<and> list_all (call_ok (length buffer) (open_query parser off)) calls"
proof (cases "buffer = []")
  case True
  then show ?thesis using assms by (simp add: http_parser_execute_def finish_0)
next
  case False
  have cs: "1 \<le> cs parser" "cs parser \<le> 349" using assms(1) by (simp_all add: finish_0)
  have "cs parser \<in> {30, 31, 32} \<longrightarrow> query_start parser \<le> off \<or> open_query parser off = Some (query_start parser)"
    by (auto simp: open_query_def)
  then obtain cs' p parser' calls where
    e: "http_parser_execute parser buffer off = Inr (parser'\<lparr>cs := cs', nread := p - off\<rparr>, p - off, calls)"
    "off \<le> p" "p \<le> length buffer" "cs' \<le> 349" "list_all (call_ok (length buffer) (open_query parser off)) calls"
    "cs' \<noteq> 0 \<and> cs' < 348 \<longrightarrow> body_start parser' = body_start parser"
    using execute_ok [OF assms(3,4) cs, of "open_query parser off"] assms(2) False by (metis le0)
  then show ?thesis using assms(2) by (auto simp: finish_0)
qed

lemma http_reach_inv: "http_reach parser \<Longrightarrow> cs parser \<le> 349 \<and> (http_parser_finish parser = 0 \<longrightarrow> body_start parser = 0)"
proof (induction rule: http_reach.induct)
  case (http_init m)
  then show ?case by (simp add: http_parser_init_def http_parser_start_def)
next
  case (http_call parser off buffer parser' n calls)
  then show ?case using http_call_ok [of parser off buffer] by auto
qed

text \<open>
  C14: a parser that was initialised, in whatever memory, and then called any number of times, on any buffers and
  offsets, as long as it was neither finished nor in error, never fails an assertion: the next call consumes at most the
  buffer, ends in one of the parser's states, and every callback is given ranges inside the buffer, with one exception.
  When the call begins inside a query that started in an earlier call, at an offset behind the one where this call
  begins, the callback for that query is given the old offset.
\<close>
theorem http_parser_execute_safe:
  assumes "http_reach parser" "http_parser_finish parser = 0" "off \<le> length buffer" "length buffer < 2 ^ 31"
  shows "\<exists>parser' n calls. http_parser_execute parser buffer off = Inr (parser', n, calls) \<and> http_reach parser'
     \<and> off + n \<le> length buffer \<and> cs parser' \<le> 349
     \<and> (\<forall>c\<in>set calls. call_in (length buffer) c
         \<or> (cs parser \<in> {30, 31, 32} \<and> off < query_start parser \<and> (\<exists>n. c = Element query_string_cb (query_start parser) n)))"
proof -
  obtain parser' n calls where e: "http_parser_execute parser buffer off = Inr (parser', n, calls)" "off + n \<le> length buffer"
    "cs parser' \<le> 349" "list_all (call_ok (length buffer) (open_query parser off)) calls"
    using http_call_ok [OF assms(2) _ assms(3,4)] http_reach_inv [OF assms(1)] assms(2) by auto
  have "call_in (length buffer) c \<or> (cs parser \<in> {30, 31, 32} \<and> off < query_start parser
      \<and> (\<exists>n. c = Element query_string_cb (query_start parser) n))" if "c \<in> set calls" for c
    using e(4) that by (auto simp: list_all_iff call_ok_def open_query_def split: if_splits)
  then show ?thesis using e http_call [OF assms e(1)] by blast
qed

text \<open>A parser as the server makes it, with every callback set.\<close>

definition fresh_parser :: http_parser where
  "fresh_parser = http_parser_init \<lparr>cs = 0, body_start = 0, content_len = 0, nread = 0, mark = 0, field_start = 0, field_len = 0,
     query_start = 7, xml_sent = 0, json_sent = 0, uri_relaxed = 0, callbacks = UNIV\<rparr>"

text \<open>The second of two calls, the first of which ended inside the method.\<close>

theorem http_parser_execute_safe_witness:
  "\<exists>parser1 parser' n calls. http_parser_execute fresh_parser ''GE'' 0 = Inr (parser1, 2, [])
     \<and> http_parser_execute parser1 ''T / HTTP/1.1'' 0 = Inr (parser', n, calls) \<and> n \<le> 12 \<and> list_all (call_in 12) calls"
proof -
  let ?p = "fresh_parser\<lparr>cs := 175, mark := 0, nread := 2\<rparr>"
  have e: "http_parser_execute fresh_parser ''GE'' 0 = Inr (?p, 2, [])"
    by code_simp
  have "http_reach fresh_parser" unfolding fresh_parser_def by (rule http_init)
  moreover have "http_parser_finish fresh_parser = 0"
    by (simp add: finish_0 fresh_parser_def http_parser_init_def http_parser_start_def)
  ultimately have "http_reach ?p" by (rule http_call [OF _ _ _ _ e]) simp_all
  moreover have f: "http_parser_finish ?p = 0" "cs ?p \<notin> {30, 31, 32}" by (simp_all add: finish_0)
  have len: "length ''T / HTTP/1.1'' = 12" by simp
  obtain parser' n calls where "http_parser_execute ?p ''T / HTTP/1.1'' 0 = Inr (parser', n, calls)" "n \<le> 12" "list_all (call_in 12) calls"
    using http_parser_execute_safe [OF calculation f(1), of 0 "''T / HTTP/1.1''"] f(2) unfolding len list_all_iff by auto
  then show ?thesis using e by blast
qed

end
