(* ===== verification/Http11Rows.thy ===== *)
theory Http11Rows
  imports Http11
begin

text \<open>The states that a printed request goes through, looked up in the code.\<close>

lemma hp_find:
  assumes "part \<in> set http_parser_parts" "State n w cases ranges d \<in> set part"
  shows "find_state http_parser_code n = Some (w, cases, ranges, d)"
  unfolding http_parser_code_def
  by (rule find_state_part [OF _ assms]) (simp add: http_parser_states [unfolded http_parser_code_def])

lemma hp_rows_1:
  "find_state http_parser_code 1 = Some (False, [(60, Tr 2), (64, Tr 3)], [(48, 57, Tr 0), (65, 90, Tr 0)], St 0)"
  "find_state http_parser_code 2 = Some (False, [(32, Tr 4)], [(48, 57, St 175), (65, 90, St 175)], St 0)"
  "find_state http_parser_code 3 = Some (True, [(32, Tr 6), (33, Tr 7), (35, Tr 8), (37, Tr 9), (47, Tr 10), (59, Tr 7),
      (61, Tr 7), (63, Tr 11), (64, Tr 7), (95, Tr 7), (126, Tr 7), (606, Tr 7), (635, Tr 7),
      (637, Tr 7)], [(36, 57, Tr 7), (65, 90, Tr 12), (97, 122, Tr 12)], St 0)"
  by (rule hp_find [of http_parser_code_1], simp add: http_parser_parts_def, simp add: http_parser_code_1_def)+

lemma hp_rows_2:
  "find_state http_parser_code 4 = Some (False, [(72, Tr 13)], [], St 0)"
  "find_state http_parser_code 5 = Some (False, [(84, St 6)], [], St 0)"
  "find_state http_parser_code 6 = Some (False, [(84, St 7)], [], St 0)"
  "find_state http_parser_code 7 = Some (False, [(80, St 8)], [], St 0)"
  "find_state http_parser_code 8 = Some (False, [(47, St 9)], [], St 0)"
  "find_state http_parser_code 9 = Some (False, [(49, St 10)], [], St 0)"
  "find_state http_parser_code 10 = Some (False, [(46, St 11)], [], St 0)"
  "find_state http_parser_code 11 = Some (False, [], [(48, 49, St 12)], St 0)"
  "find_state http_parser_code 12 = Some (False, [(10, Tr 21), (13, Tr 22)], [], St 0)"
  by (rule hp_find [of http_parser_code_2], simp add: http_parser_parts_def, simp add: http_parser_code_2_def)+

lemma hp_rows_3:
  "find_state http_parser_code 13 = Some (False, [(10, Tr 24), (13, Tr 25), (33, Tr 23), (124, Tr 23),
      (126, Tr 23)], [(1, 8, Tr 23), (11, 31, Tr 23), (35, 39, Tr 23), (42, 43, Tr 23), (45, 46, Tr 23), (48, 57, Tr 23),
      (65, 90, Tr 23), (94, 122, Tr 23)], St 0)"
  "find_state http_parser_code 14 = Some (False, [(33, St 14), (58, Tr 27), (124, St 14), (126, St 14)], [(1, 8, St 14),
      (10, 31, St 14), (35, 39, St 14), (42, 43, St 14), (45, 46, St 14), (48, 57, St 14), (65, 90, St 14),
      (94, 122, St 14)], St 0)"
  "find_state http_parser_code 15 = Some (False, [(0, St 0), (9, Tr 29), (10, Tr 30), (13, Tr 31), (32, Tr 29),
      (127, St 0)], [], Tr 28)"
  "find_state http_parser_code 16 = Some (False, [(0, St 0), (10, Tr 33), (13, Tr 34), (127, St 0)], [], St 16)"
  by (rule hp_find [of http_parser_code_3], simp add: http_parser_parts_def, simp add: http_parser_code_3_def)+

lemma hp_rows_4:
  "find_state http_parser_code 17 = Some (False, [(10, St 13)], [], St 0)"
  "find_state http_parser_code 18 = Some (False, [(10, Tr 36), (33, St 14), (58, Tr 27), (124, St 14),
      (126, St 14)], [(1, 8, St 14), (11, 31, St 14), (35, 39, St 14), (42, 43, St 14), (45, 46, St 14), (48, 57, St 14),
      (65, 90, St 14), (94, 122, St 14)], St 0)"
  by (rule hp_find [of http_parser_code_4], simp add: http_parser_parts_def, simp add: http_parser_code_4_def)+

lemma hp_rows_6:
  "find_state http_parser_code 20 = Some (True, [(32, Tr 44), (33, Tr 43), (37, Tr 45), (61, Tr 43), (95, Tr 43),
      (126, Tr 43), (606, Tr 43), (635, Tr 43), (637, Tr 43)], [(- 128, -1, Tr 43), (36, 59, Tr 43), (63, 90, Tr 43),
      (97, 122, Tr 43)], St 0)"
  "find_state http_parser_code 21 = Some (True, [(32, Tr 47), (33, St 21), (37, St 22), (61, St 21), (95, St 21),
      (126, St 21), (606, St 21), (635, St 21), (637, St 21)], [(- 128, -1, St 21), (36, 59, St 21), (63, 90, St 21),
      (97, 122, St 21)], St 0)"
  "find_state http_parser_code 22 = Some (False, [], [(48, 57, St 23), (65, 70, St 23), (97, 102, St 23)], St 0)"
  "find_state http_parser_code 23 = Some (False, [], [(48, 57, St 21), (65, 70, St 21), (97, 102, St 21)], St 0)"
  by (rule hp_find [of http_parser_code_6], simp add: http_parser_parts_def, simp add: http_parser_code_6_def)+

lemma hp_rows_7:
  "find_state http_parser_code 26 = Some (True, [(32, Tr 37), (33, St 26), (35, Tr 39), (37, St 27), (61, St 26),
      (63, Tr 42), (95, St 26), (126, St 26), (606, St 26), (635, St 26), (637, St 26)], [(- 128, -1, St 26),
      (36, 59, St 26), (64, 90, St 26), (97, 122, St 26)], St 0)"
  "find_state http_parser_code 27 = Some (False, [], [(48, 57, St 28), (65, 70, St 28), (97, 102, St 28)], St 0)"
  "find_state http_parser_code 28 = Some (False, [], [(48, 57, St 26), (65, 70, St 26), (97, 102, St 26)], St 0)"
  by (rule hp_find [of http_parser_code_7], simp add: http_parser_parts_def, simp add: http_parser_code_7_def)+

lemma hp_rows_8:
  "find_state http_parser_code 29 = Some (True, [(32, Tr 54), (33, Tr 53), (35, Tr 55), (37, Tr 56), (61, Tr 53),
      (95, Tr 53), (126, Tr 53), (606, Tr 53), (635, Tr 53), (637, Tr 53)], [(- 128, -1, Tr 53), (36, 59, Tr 53),
      (63, 90, Tr 53), (97, 122, Tr 53)], St 0)"
  "find_state http_parser_code 30 = Some (True, [(32, Tr 58), (33, St 30), (35, Tr 59), (37, St 31), (61, St 30),
      (95, St 30), (126, St 30), (606, St 30), (635, St 30), (637, St 30)], [(- 128, -1, St 30), (36, 59, St 30),
      (63, 90, St 30), (97, 122, St 30)], St 0)"
  "find_state http_parser_code 31 = Some (False, [], [(48, 57, St 32), (65, 70, St 32), (97, 102, St 32)], St 0)"
  by (rule hp_find [of http_parser_code_8], simp add: http_parser_parts_def, simp add: http_parser_code_8_def)+

lemma hp_rows_9:
  "find_state http_parser_code 32 = Some (False, [], [(48, 57, St 30), (65, 70, St 30), (97, 102, St 30)], St 0)"
  "find_state http_parser_code 33 = Some (True, [(32, Tr 37), (33, St 26), (35, Tr 39), (37, St 27), (47, St 34),
      (61, St 26), (63, Tr 42), (95, St 26), (126, St 26), (606, St 26), (635, St 26), (637, St 26)], [(- 128, -1, St 26),
      (36, 59, St 26), (64, 90, St 26), (97, 122, St 26)], St 0)"
  by (rule hp_find [of http_parser_code_9], simp add: http_parser_parts_def, simp add: http_parser_code_9_def)+

lemma hp_rows_24:
  "find_state http_parser_code 175 = Some (False, [(32, Tr 4)], [(48, 57, St 176), (65, 90, St 176)], St 0)"
  by (rule hp_find [of http_parser_code_24], simp add: http_parser_parts_def, simp add: http_parser_code_24_def)+

lemma hp_rows_25:
  "find_state http_parser_code 176 = Some (False, [(32, Tr 4)], [(48, 57, St 177), (65, 90, St 177)], St 0)"
  "find_state http_parser_code 177 = Some (False, [(32, Tr 4)], [(48, 57, St 178), (65, 90, St 178)], St 0)"
  "find_state http_parser_code 178 = Some (False, [(32, Tr 4)], [(48, 57, St 179), (65, 90, St 179)], St 0)"
  "find_state http_parser_code 179 = Some (False, [(32, Tr 4)], [(48, 57, St 180), (65, 90, St 180)], St 0)"
  "find_state http_parser_code 180 = Some (False, [(32, Tr 4)], [(48, 57, St 181), (65, 90, St 181)], St 0)"
  "find_state http_parser_code 181 = Some (False, [(32, Tr 4)], [(48, 57, St 182), (65, 90, St 182)], St 0)"
  "find_state http_parser_code 182 = Some (False, [(32, Tr 4)], [(48, 57, St 183), (65, 90, St 183)], St 0)"
  "find_state http_parser_code 183 = Some (False, [(32, Tr 4)], [(48, 57, St 184), (65, 90, St 184)], St 0)"
  "find_state http_parser_code 184 = Some (False, [(32, Tr 4)], [(48, 57, St 185), (65, 90, St 185)], St 0)"
  "find_state http_parser_code 185 = Some (False, [(32, Tr 4)], [(48, 57, St 186), (65, 90, St 186)], St 0)"
  "find_state http_parser_code 186 = Some (False, [(32, Tr 4)], [(48, 57, St 187), (65, 90, St 187)], St 0)"
  "find_state http_parser_code 187 = Some (False, [(32, Tr 4)], [(48, 57, St 188), (65, 90, St 188)], St 0)"
  "find_state http_parser_code 188 = Some (False, [(32, Tr 4)], [(48, 57, St 189), (65, 90, St 189)], St 0)"
  "find_state http_parser_code 189 = Some (False, [(32, Tr 4)], [(48, 57, St 190), (65, 90, St 190)], St 0)"
  "find_state http_parser_code 190 = Some (False, [(32, Tr 4)], [(48, 57, St 191), (65, 90, St 191)], St 0)"
  "find_state http_parser_code 191 = Some (False, [(32, Tr 4)], [(48, 57, St 192), (65, 90, St 192)], St 0)"
  by (rule hp_find [of http_parser_code_25], simp add: http_parser_parts_def, simp add: http_parser_code_25_def)+

lemma hp_rows_26:
  "find_state http_parser_code 192 = Some (False, [(32, Tr 4)], [(48, 57, St 193), (65, 90, St 193)], St 0)"
  "find_state http_parser_code 193 = Some (False, [(32, Tr 4)], [], St 0)"
  by (rule hp_find [of http_parser_code_26], simp add: http_parser_parts_def, simp add: http_parser_code_26_def)+

lemma hp_rows_27:
  "find_state http_parser_code 198 = Some (True, [(32, Tr 228), (33, St 202), (37, St 203), (47, St 208), (59, St 202),
      (61, St 202), (95, St 202), (126, St 202), (606, St 202), (635, St 202), (637, St 202)], [(36, 57, St 202),
      (64, 90, St 202), (97, 122, St 202)], St 0)"
  "find_state http_parser_code 199 = Some (False, [(123, Tr 232)], [], St 0)"
  "find_state http_parser_code 200 = Some (False, [(125, St 201)], [], St 200)"
  "find_state http_parser_code 201 = Some (False, [(0, Tr 235), (125, St 201)], [], St 200)"
  by (rule hp_find [of http_parser_code_27], simp add: http_parser_parts_def, simp add: http_parser_code_27_def)+

lemma hp_rows_28:
  "find_state http_parser_code 202 = Some (True, [(32, Tr 228), (33, St 202), (37, St 203), (47, St 205), (59, St 202),
      (61, St 202), (95, St 202), (126, St 202), (606, St 202), (635, St 202), (637, St 202)], [(36, 57, St 202),
      (64, 90, St 202), (97, 122, St 202)], St 0)"
  by (rule hp_find [of http_parser_code_28], simp add: http_parser_parts_def, simp add: http_parser_code_28_def)+

lemmas hp_rows = hp_rows_1 hp_rows_2 hp_rows_3 hp_rows_4 hp_rows_6 hp_rows_7 hp_rows_8 hp_rows_9 hp_rows_24 hp_rows_25 hp_rows_26 hp_rows_27 hp_rows_28

end
