(* ===== verification/Http11Parse.thy ===== *)
theory Http11Parse
  imports Http11Safe Http11Rows HttpTransfer
begin

text \<open>
  What the request parser reports for a request that was printed by \<open>HttpRequest::dump\<close>: the parts of the
  request line, every header and the body, each as the text that was printed. The machine is followed part
  by part over the text.
\<close>

section \<open>Callbacks as texts\<close>

text \<open>The callback for the method is a pointer into the buffer; the others make strings of their lengths.\<close>

fun call_event :: "string \<Rightarrow> http_call \<Rightarrow> request_event" where
  "call_event b (Element cb at n) =
     (case cb of
        request_method_cb \<Rightarrow> EvMethod (drop at b)
      | request_uri_cb \<Rightarrow> EvUri (part_of b at n)
      | fragment_cb \<Rightarrow> EvFragment (part_of b at n)
      | request_path_cb \<Rightarrow> EvPath (part_of b at n)
      | query_string_cb \<Rightarrow> EvQuery (part_of b at n)
      | http_version_cb \<Rightarrow> EvVersion (part_of b at n)
      | header_done_cb \<Rightarrow> EvHeaderDone (part_of b at n)
      | http_field_cb \<Rightarrow> EvField [] [])"
| "call_event b (Field f n v m) = EvField (part_of b f n) (part_of b v m)"

section \<open>Steps\<close>

abbreviation hgoes :: "string \<Rightarrow> bool \<Rightarrow> nat \<Rightarrow> string \<Rightarrow> nat \<Rightarrow> http_world \<Rightarrow> nat \<Rightarrow> http_world \<Rightarrow> bool" where
  "hgoes b \<equiv> goes http_parser_code (http_act (length b)) http_brk"

lemma hp_trans:
  "find_transition http_parser_code 0 = Some ([Mark], 2)" "find_transition http_parser_code 4 = Some ([Request_method], 3)"
  "find_transition http_parser_code 10 = Some ([Mark], 33)" "find_transition http_parser_code 13 = Some ([Mark], 5)"
  "find_transition http_parser_code 22 = Some ([Http_version], 17)" "find_transition http_parser_code 23 = Some ([Start_field], 14)"
  "find_transition http_parser_code 25 = Some ([Start_field], 18)" "find_transition http_parser_code 27 = Some ([Write_field], 15)"
  "find_transition http_parser_code 28 = Some ([Mark], 16)" "find_transition http_parser_code 29 = Some ([Mark], 15)"
  "find_transition http_parser_code 31 = Some ([Mark, Write_value], 17)" "find_transition http_parser_code 34 = Some ([Write_value], 17)"
  "find_transition http_parser_code 36 = Some ([Done 348], 348)" "find_transition http_parser_code 37 = Some ([Request_path, Request_uri], 4)"
  "find_transition http_parser_code 39 = Some ([Request_path, Request_uri], 20)" "find_transition http_parser_code 42 = Some ([Request_path], 29)"
  "find_transition http_parser_code 43 = Some ([Mark], 21)" "find_transition http_parser_code 45 = Some ([Mark], 22)"
  "find_transition http_parser_code 47 = Some ([Fragment], 4)" "find_transition http_parser_code 53 = Some ([Start_query], 30)"
  "find_transition http_parser_code 56 = Some ([Start_query], 31)" "find_transition http_parser_code 58 = Some ([Query_string, Request_uri], 4)"
  "find_transition http_parser_code 59 = Some ([Query_string, Request_uri], 20)"
  by (simp_all add: http_parser_trans http_lookup)

lemmas select_simps = select_def Let_def widen_def

text \<open>The parsers that a run goes through differ in their offsets only.\<close>

definition fixed_part :: "http_parser \<Rightarrow> http_parser" where
  "fixed_part ps = ps\<lparr>mark := 0, field_start := 0, field_len := 0, query_start := 0\<rparr>"

lemma fixed_part_upd [simp]:
  "fixed_part (ps\<lparr>mark := m\<rparr>) = fixed_part ps" "fixed_part (ps\<lparr>field_start := m\<rparr>) = fixed_part ps"
  "fixed_part (ps\<lparr>field_len := m\<rparr>) = fixed_part ps" "fixed_part (ps\<lparr>query_start := m\<rparr>) = fixed_part ps"
  by (simp_all add: fixed_part_def)

lemma fixed_part_fields:
  assumes "fixed_part ps' = fixed_part ps"
  shows "callbacks ps' = callbacks ps" "cs ps' = cs ps" "nread ps' = nread ps" "xml_sent ps' = xml_sent ps" "json_sent ps' = json_sent ps"
    "uri_relaxed ps' = uri_relaxed ps" "body_start ps' = body_start ps"
  using arg_cong [OF assms, of callbacks] arg_cong [OF assms, of cs] arg_cong [OF assms, of nread] arg_cong [OF assms, of xml_sent]
    arg_cong [OF assms, of json_sent] arg_cong [OF assms, of uri_relaxed] arg_cong [OF assms, of body_start]
  by (simp_all add: fixed_part_def)

interpretation hr: reporting http_parser_code "http_act (length b)" http_brk "call_event b" fixed_part "\<lambda>ps. uri_relaxed ps \<noteq> 0" for b
  by unfold_locales (metis fixed_part_fields(6))

abbreviation reads :: "string \<Rightarrow> nat \<Rightarrow> string \<Rightarrow> nat \<Rightarrow> http_parser \<Rightarrow> request_event list \<Rightarrow> nat \<Rightarrow> http_parser \<Rightarrow> bool" where
  "reads \<equiv> hr.reads"

lemmas reads_append = hr.reads_append
lemmas reads_quiet = hr.reads_quiet
lemmas reads_St = hr.reads_St
lemmas reads_Tr = hr.reads_Tr
lemmas reads_loop = hr.reads_loop

section \<open>The method\<close>

definition method_key :: "int \<Rightarrow> bool" where
  "method_key k \<longleftrightarrow> 48 \<le> k \<and> k \<le> 57 \<or> 65 \<le> k \<and> k \<le> 90"

text \<open>The state after a number of characters of the method.\<close>

definition method_state :: "nat \<Rightarrow> nat" where
  "method_state k = (if k = 1 then 2 else 173 + k)"

lemma method_rows:
  "1 \<le> k \<Longrightarrow> k < 20 \<Longrightarrow> find_state http_parser_code (method_state k)
     = Some (False, [(32, Tr 4)], [(48, 57, St (method_state (k + 1))), (65, 90, St (method_state (k + 1)))], St 0)"
proof -
  assume "1 \<le> k" "k < 20"
  then have "k \<in> {1, 2, 3, 4, 5, 6, 7, 8, 9, 10, 11, 12, 13, 14, 15, 16, 17, 18, 19}" unfolding insert_iff empty_iff by presburger
  then show ?thesis by (elim insertE emptyE) (simp_all add: method_state_def hp_rows)
qed

lemma method_space: "1 \<le> k \<Longrightarrow> k \<le> 20 \<Longrightarrow> \<exists>r. find_state http_parser_code (method_state k) = Some r \<and> select rel r 32 = Tr 4"
  using method_rows [of k] by (cases "k = 20") (auto simp: method_state_def hp_rows select_simps)

lemma reads_method_loop:
  assumes "1 \<le> k"
  shows "k + length w \<le> 20 \<Longrightarrow> \<forall>c\<in>set w. method_key (schar c) \<Longrightarrow> reads b p w (method_state k) ps [] (method_state (k + length w)) ps"
  using assms
proof (induction w arbitrary: k p)
  case Nil
  show ?case by (simp add: hr.reads_Nil)
next
  case (Cons c w)
  have "reads b p [c] (method_state k) ps [] (method_state (k + 1)) ps"
    by (rule reads_St [OF method_rows]) (use Cons.prems in \<open>auto simp: method_key_def select_simps method_state_def\<close>)
  from reads_append [OF this, of w "[]" "method_state (k + 1 + length w)" ps] show ?case
    using Cons.IH [of "k + 1" "p + 1"] Cons.prems by simp
qed

lemma reads_method:
  assumes "w \<noteq> []" "length w \<le> 20" "\<forall>c\<in>set w. method_key (schar c)" "request_method_cb \<in> callbacks ps"
  shows "reads b p (w @ '' '') 1 ps [EvMethod (drop p b)] 3 (ps\<lparr>mark := p\<rparr>)"
proof -
  obtain c cs where w: "w = c # cs" using assms(1) by (cases w) auto
  let ?ps = "ps\<lparr>mark := p\<rparr>"
  have a: "reads b p [c] 1 ps [] 2 ?ps"
    by (rule reads_Tr [OF hp_rows(1) _ hp_trans(1), where new = "[]"]) (use assms(3) w in \<open>auto simp: method_key_def select_simps\<close>)
  have b: "reads b (p + length [c]) cs 2 ?ps [] (method_state (length w)) ?ps"
    using reads_method_loop [of 1 cs b "p + 1" ?ps] assms(2,3) w by (simp add: method_state_def)
  obtain r where r: "find_state http_parser_code (method_state (length w)) = Some r" "select (uri_relaxed ?ps \<noteq> 0) r 32 = Tr 4"
    using method_space [of "length w" "uri_relaxed ?ps \<noteq> 0"] assms(2) w by (auto simp del: http_parser.simps)
  have c: "reads b (p + length w) '' '' (method_state (length w)) ?ps [EvMethod (drop p b)] 3 ?ps"
    by (rule reads_Tr [OF r(1) _ hp_trans(2), where new = "[Element request_method_cb p (length w)]"])
       (use r(2) assms(4) in \<open>auto simp: schar_def element_def len_from_def\<close>)
  show ?thesis using reads_append [OF reads_append [OF a b], of "'' ''"] c w by simp
qed

section \<open>The target\<close>

text \<open>Unreserved characters, sub-delimiters, colons, at signs, slashes and characters that are not ASCII.\<close>

definition path_class :: "(int \<times> int) list" where
  "path_class = [(- 128, - 1), (33, 33), (36, 36), (38, 59), (61, 61), (64, 90), (95, 95), (97, 122), (126, 126)]"

definition query_class :: "(int \<times> int) list" where
  "query_class = (63, 63) # path_class"

definition rest_class :: "(int \<times> int) list" where
  "rest_class = [(- 128, - 1), (33, 33), (36, 36), (38, 46), (48, 59), (61, 61), (64, 90), (95, 95), (97, 122), (126, 126)]"

lemma in_rest_class: "in_class path_class k \<Longrightarrow> k \<noteq> 47 \<Longrightarrow> in_class rest_class k"
  by (auto simp: in_class_def path_class_def rest_class_def)

lemma hex_select:
  "k \<in> set hex_keys \<Longrightarrow> select rel (False, [], [(48, 57, St n), (65, 70, St n), (97, 102, St n)], St 0) k = St n"
  unfolding hex_keys_def set_append set_upto Un_iff atLeastAtMost_iff by (auto simp: select_simps)

lemma target_rows:
  "class_to (the (find_state http_parser_code 26)) path_class (St 26)" "class_to (the (find_state http_parser_code 33)) rest_class (St 26)"
  "class_to (the (find_state http_parser_code 30)) query_class (St 30)" "class_to (the (find_state http_parser_code 21)) query_class (St 21)"
  "class_to (the (find_state http_parser_code 29)) query_class (Tr 53)" "class_to (the (find_state http_parser_code 20)) query_class (Tr 43)"
  by (simp_all add: hp_rows path_class_def query_class_def rest_class_def)

lemma percent_select:
  "select rel (the (find_state http_parser_code 26)) 37 = St 27" "select rel (the (find_state http_parser_code 33)) 37 = St 27"
  "select rel (the (find_state http_parser_code 30)) 37 = St 31" "select rel (the (find_state http_parser_code 21)) 37 = St 22"
  "select rel (the (find_state http_parser_code 29)) 37 = Tr 56" "select rel (the (find_state http_parser_code 20)) 37 = Tr 45"
  by (simp_all add: hp_rows select_simps)

lemmas row_select = target_rows [THEN class_to_select, unfolded hp_rows option.sel] percent_select [unfolded hp_rows option.sel]

lemma target_escapes:
  "escape_loop http_parser_code rel (in_class path_class) 26 27 28" "escape_loop http_parser_code rel (in_class query_class) 30 31 32"
  "escape_loop http_parser_code rel (in_class query_class) 21 22 23"
  by (simp_all add: escape_loop_def hp_rows row_select hex_select)

lemma reads_text: "escape_loop http_parser_code (uri_relaxed ps \<noteq> 0) P q q1 q2 \<Longrightarrow> text_ok P w \<Longrightarrow> reads b p w q ps [] q ps"
  by (rule reads_quiet [OF goes_text]) simp_all

text \<open>The path begins with one slash; the states after it and in the rest of it end in the same ways.\<close>

definition path_end :: "nat \<Rightarrow> bool" where
  "path_end n \<longleftrightarrow> n = 33 \<or> n = 26"

lemma path_end_select:
  "path_end n \<Longrightarrow> \<exists>r. find_state http_parser_code n = Some r \<and> select rel r 32 = Tr 37 \<and> select rel r 35 = Tr 39 \<and> select rel r 63 = Tr 42"
  by (auto simp: path_end_def hp_rows select_simps)

definition path_ok :: "string \<Rightarrow> bool" where
  "path_ok w \<longleftrightarrow> (case w of [] \<Rightarrow> False | c # r \<Rightarrow> c = CHR ''/'' \<and> text_ok (in_class path_class) r \<and> (r = [] \<or> hd r \<noteq> CHR ''/''))"

lemma schar_slash: "schar c = 47 \<longleftrightarrow> c = CHR ''/''"
proof
  assume "schar c = 47"
  then have "int (of_char c) = 47 \<or> int (of_char c) = 303" by (auto simp: schar_def Let_def split: if_splits)
  with nat_of_char_less_256 [of c] have "(of_char c :: nat) = 47" by linarith
  then have "(of_char c :: nat) = of_char (CHR ''/'')" by simp
  then show "c = CHR ''/''" by (simp only: of_char_eq_iff)
qed (simp add: schar_def)

lemma reads_path:
  assumes "path_ok w"
  shows "\<exists>n. path_end n \<and> reads b p w 3 ps [] n (ps\<lparr>mark := p\<rparr>)"
proof -
  obtain r where r: "w = CHR ''/'' # r" "text_ok (in_class path_class) r" "r = [] \<or> hd r \<noteq> CHR ''/''"
    using assms by (auto simp: path_ok_def split: list.splits)
  let ?ps = "ps\<lparr>mark := p\<rparr>"
  have a: "reads b p ''/'' 3 ps [] 33 ?ps"
    by (rule reads_Tr [where new = "[]", OF _ _ hp_trans(3)], rule hp_rows) (simp_all add: select_simps schar_def)
  show ?thesis
  proof (cases "r = []")
    case True
    then show ?thesis using a r(1) by (auto simp: path_end_def)
  next
    case False
    have "reads b (p + length ''/'') r 33 ?ps [] 26 ?ps"
      by (intro reads_quiet goes_first [where x = 47, OF target_escapes(1)], rule hp_rows)
         (use r False in \<open>simp_all add: row_select in_rest_class schar_slash\<close>)
    then show ?thesis using reads_append [OF a, of r "[]" 26 ?ps] r(1) by (auto simp: path_end_def)
  qed
qed

text \<open>The query and the fragment, entered with their first character.\<close>

lemma reads_query:
  assumes "text_ok (in_class query_class) w" "w \<noteq> []"
  shows "reads b p w 29 ps [] 30 (ps\<lparr>query_start := p\<rparr>)"
  by (intro reads_quiet goes_enter [OF target_escapes(2) _ _ hp_trans(20) _ hp_trans(21) _ assms], rule hp_rows)
     (simp_all add: row_select)

lemma reads_fragment:
  assumes "text_ok (in_class query_class) w" "w \<noteq> []"
  shows "reads b p w 20 ps [] 21 (ps\<lparr>mark := p\<rparr>)"
  by (intro reads_quiet goes_enter [OF target_escapes(3) _ _ hp_trans(17) _ hp_trans(18) _ assms], rule hp_rows)
     (simp_all add: row_select)

lemmas report_simps = element_def len_from_def

text \<open>The ends of the parts, with the reports of what was read.\<close>

lemma reads_path_end:
  assumes "path_end n" "callbacks ps = UNIV" "b = pre @ w @ post" "mark ps = length pre" "p = length pre + length w"
  shows "reads b p '' '' n ps [EvPath w, EvUri w] 4 ps" "reads b p ''#'' n ps [EvPath w, EvUri w] 20 ps"
    "reads b p ''?'' n ps [EvPath w] 29 ps"
proof -
  obtain r where r: "find_state http_parser_code n = Some r" "select (uri_relaxed ps \<noteq> 0) r 32 = Tr 37"
      "select (uri_relaxed ps \<noteq> 0) r 35 = Tr 39" "select (uri_relaxed ps \<noteq> 0) r 63 = Tr 42"
    using path_end_select [OF assms(1), of "uri_relaxed ps \<noteq> 0"] by blast
  have part: "part_of b (length pre) (length w) = w" using part_of_mid assms(3) by blast
  show "reads b p '' '' n ps [EvPath w, EvUri w] 4 ps"
    by (rule reads_Tr [OF r(1) _ hp_trans(14), where new = "[Element request_path_cb (length pre) (length w), Element request_uri_cb (length pre) (length w)]"])
       (use r(2) assms(2,4,5) part in \<open>auto simp: schar_def report_simps\<close>)
  show "reads b p ''#'' n ps [EvPath w, EvUri w] 20 ps"
    by (rule reads_Tr [OF r(1) _ hp_trans(15), where new = "[Element request_path_cb (length pre) (length w), Element request_uri_cb (length pre) (length w)]"])
       (use r(3) assms(2,4,5) part in \<open>auto simp: schar_def report_simps\<close>)
  show "reads b p ''?'' n ps [EvPath w] 29 ps"
    by (rule reads_Tr [OF r(1) _ hp_trans(16), where new = "[Element request_path_cb (length pre) (length w)]"])
       (use r(4) assms(2,4,5) part in \<open>auto simp: schar_def report_simps\<close>)
qed

lemma reads_query_end:
  assumes "callbacks ps = UNIV" "b = pre @ w @ ''?'' @ v @ post" "mark ps = length pre" "query_start ps = length pre + length w + 1"
    "p = length pre + length w + 1 + length v"
  shows "reads b p '' '' 30 ps [EvQuery v, EvUri (w @ ''?'' @ v)] 4 ps" "reads b p ''#'' 30 ps [EvQuery v, EvUri (w @ ''?'' @ v)] 20 ps"
proof -
  let ?new = "[Element query_string_cb (length pre + length w + 1) (length v), Element request_uri_cb (length pre) (length w + 1 + length v)]"
  have part: "part_of b (length pre + length w + 1) (length v) = v" "part_of b (length pre) (length w + 1 + length v) = w @ ''?'' @ v"
    using part_of_mid [of b "pre @ w @ ''?''" v post] part_of_mid [of b pre "w @ ''?'' @ v" post] assms(2) by simp_all
  show "reads b p '' '' 30 ps [EvQuery v, EvUri (w @ ''?'' @ v)] 4 ps"
    by (rule reads_Tr [OF _ _ hp_trans(22), where new = ?new], rule hp_rows)
       (use assms(1,3-5) part in \<open>auto simp: schar_def select_simps report_simps\<close>)
  show "reads b p ''#'' 30 ps [EvQuery v, EvUri (w @ ''?'' @ v)] 20 ps"
    by (rule reads_Tr [OF _ _ hp_trans(23), where new = ?new], rule hp_rows)
       (use assms(1,3-5) part in \<open>auto simp: schar_def select_simps report_simps\<close>)
qed

lemma reads_fragment_end:
  assumes "callbacks ps = UNIV" "b = pre @ w @ post" "mark ps = length pre" "p = length pre + length w"
  shows "reads b p '' '' 21 ps [EvFragment w] 4 ps"
  by (rule reads_Tr [OF _ _ hp_trans(19), where new = "[Element fragment_cb (length pre) (length w)]"], rule hp_rows)
     (use assms part_of_mid [OF assms(2) refl refl] in \<open>auto simp: schar_def select_simps report_simps\<close>)

definition opt_text :: "char \<Rightarrow> string \<Rightarrow> string" where
  "opt_text c w = (if w = [] then [] else c # w)"

lemma reads_fragment_part:
  assumes "callbacks ps = UNIV" "text_ok (in_class query_class) f" "f \<noteq> []" "b = pre @ f @ post" "p = length pre"
  shows "reads b p (f @ '' '') 20 ps [EvFragment f] 4 (ps\<lparr>mark := p\<rparr>)"
  using reads_append [OF reads_fragment [OF assms(2,3), of b p ps] reads_fragment_end [of "ps\<lparr>mark := p\<rparr>" b pre f post]] assms by simp

text \<open>The query with what comes after it, up to the space.\<close>

lemma reads_query_part:
  assumes "callbacks ps = UNIV" "text_ok (in_class query_class) v" "v \<noteq> []" "text_ok (in_class query_class) f"
    "b = pre @ w @ ''?'' @ v @ opt_text (CHR ''#'') f @ post" "mark ps = length pre" "p = length pre + length w + 1"
  shows "\<exists>ps'. reads b p (v @ opt_text (CHR ''#'') f @ '' '') 29 ps ([EvQuery v, EvUri (w @ ''?'' @ v)] @ (if f = [] then [] else [EvFragment f])) 4 ps'"
proof -
  let ?ps = "ps\<lparr>query_start := p\<rparr>"
  note q = reads_query [OF assms(2,3), of b p ps]
  show ?thesis
  proof (cases "f = []")
    case True
    have "reads b (p + length v) '' '' 30 ?ps [EvQuery v, EvUri (w @ ''?'' @ v)] 4 ?ps"
      by (rule reads_query_end(1) [of _ _ pre w v "opt_text (CHR ''#'') f @ post"]) (use assms in simp_all)
    from reads_append [OF q this] show ?thesis using True by (auto simp: opt_text_def)
  next
    case False
    have h1: "reads b (p + length v) ''#'' 30 ?ps [EvQuery v, EvUri (w @ ''?'' @ v)] 20 ?ps"
      by (rule reads_query_end(2) [of _ _ pre w v "opt_text (CHR ''#'') f @ post"]) (use assms in simp_all)
    have h2: "reads b (p + length v + length ''#'') (f @ '' '') 20 ?ps [EvFragment f] 4 (?ps\<lparr>mark := p + length v + length ''#''\<rparr>)"
      by (rule reads_fragment_part [of _ _ _ "pre @ w @ ''?'' @ v @ ''#''" post]) (use assms False in \<open>simp_all add: opt_text_def\<close>)
    from reads_append [OF q reads_append [OF h1 h2]] show ?thesis using False by (auto simp: opt_text_def)
  qed
qed

definition target_events :: "string \<Rightarrow> string \<Rightarrow> string \<Rightarrow> request_event list" where
  "target_events w v f =
     [EvPath w] @ (if v = [] then [] else [EvQuery v]) @ [EvUri (w @ opt_text (CHR ''?'') v)] @ (if f = [] then [] else [EvFragment f])"

lemma reads_target:
  assumes "callbacks ps = UNIV" "path_ok w" "text_ok (in_class query_class) v" "text_ok (in_class query_class) f"
    "b = pre @ w @ opt_text (CHR ''?'') v @ opt_text (CHR ''#'') f @ post" "p = length pre"
  shows "\<exists>ps'. reads b p (w @ opt_text (CHR ''?'') v @ opt_text (CHR ''#'') f @ '' '') 3 ps (target_events w v f) 4 ps'"
proof -
  let ?ps = "ps\<lparr>mark := p\<rparr>"
  obtain n where n: "path_end n" "reads b p w 3 ps [] n ?ps" using reads_path [OF assms(2)] by blast
  have e: "b = pre @ w @ opt_text (CHR ''?'') v @ opt_text (CHR ''#'') f @ post" "callbacks ?ps = UNIV" "mark ?ps = length pre"
    "p + length w = length pre + length w" using assms by simp_all
  note pe = reads_path_end [OF n(1) e(2,1,3,4)]
  consider "v \<noteq> []" | "v = []" "f = []" | "v = []" "f \<noteq> []" by blast
  then show ?thesis
  proof cases
    case 1
    obtain ps' where "reads b (p + length w + length ''?'') (v @ opt_text (CHR ''#'') f @ '' '') 29 ?ps
        ([EvQuery v, EvUri (w @ ''?'' @ v)] @ (if f = [] then [] else [EvFragment f])) 4 ps'"
      using reads_query_part [of ?ps v f b pre w post "p + length w + 1"] assms 1 by (auto simp: opt_text_def)
    from reads_append [OF n(2) reads_append [OF pe(3) this]] show ?thesis
      using 1 by (auto simp: opt_text_def target_events_def)
  next
    case 2
    then show ?thesis using reads_append [OF n(2) pe(1)] by (auto simp: opt_text_def target_events_def)
  next
    case 3
    have "reads b (p + length w + length ''#'') (f @ '' '') 20 ?ps [EvFragment f] 4 (?ps\<lparr>mark := p + length w + length ''#''\<rparr>)"
      by (rule reads_fragment_part [of _ _ _ "pre @ w @ ''#''" post]) (use assms 3 in \<open>simp_all add: opt_text_def\<close>)
    from reads_append [OF n(2) reads_append [OF pe(2) this]] show ?thesis using 3 by (auto simp: opt_text_def target_events_def)
  qed
qed

section \<open>The version\<close>

lemma reads_version:
  assumes "callbacks ps = UNIV" "w = ''HTTP/1.1'' \<or> w = ''HTTP/1.0''" "b = pre @ w @ post" "p = length pre"
  shows "reads b p (w @ CRLF) 4 ps [EvVersion w] 13 (ps\<lparr>mark := p\<rparr>)"
proof -
  let ?ps = "ps\<lparr>mark := p\<rparr>"
  have H: "reads b p ''H'' 4 ps [] 5 ?ps"
    by (rule reads_Tr [where new = "[]", OF _ _ hp_trans(4)], rule hp_rows) (simp_all add: select_simps schar_def)
  have st: "reads b q ''T'' 5 ?ps [] 6 ?ps" "reads b q ''T'' 6 ?ps [] 7 ?ps" "reads b q ''P'' 7 ?ps [] 8 ?ps" "reads b q ''/'' 8 ?ps [] 9 ?ps"
    "reads b q ''1'' 9 ?ps [] 10 ?ps" "reads b q ''.'' 10 ?ps [] 11 ?ps" "reads b q ''1'' 11 ?ps [] 12 ?ps" "reads b q ''0'' 11 ?ps [] 12 ?ps"
    "reads b q [CHR 0x0A] 17 ?ps [] 13 ?ps" for q
    by (rule reads_St, rule hp_rows, simp_all add: select_simps schar_def)+
  have head: "reads b p ''HTTP/1.'' 4 ps [] 11 ?ps"
    using reads_append [OF H reads_append [OF st(1) reads_append [OF st(2) reads_append [OF st(3) reads_append [OF st(4) reads_append [OF st(5) st(6)]]]]]]
    by simp
  have dig: "reads b p w 4 ps [] 12 ?ps" using reads_append [OF head st(7)] reads_append [OF head st(8)] assms(2) by auto
  have "reads b (p + length w) [CHR 0x0D] 12 ?ps [EvVersion w] 17 ?ps"
    by (rule reads_Tr [where new = "[Element http_version_cb p (length w)]", OF _ _ hp_trans(5)], rule hp_rows)
       (use assms(1,4) part_of_mid [OF assms(3) refl refl] in \<open>simp_all add: select_simps schar_def report_simps\<close>)
  from reads_append [OF dig reads_append [OF this st(9)]] show ?thesis by (simp add: CRLF_def)
qed

section \<open>Headers\<close>

definition value_class :: "(int \<times> int) list" where
  "value_class = [(- 128, - 1), (1, 9), (11, 12), (14, 126)]"

text \<open>A value does not begin with a space or a tabulator.\<close>

definition value_first_class :: "(int \<times> int) list" where
  "value_first_class = [(- 128, - 1), (1, 8), (11, 12), (14, 31), (33, 126)]"

definition field_ok :: "string \<times> string \<Rightarrow> bool" where
  "field_ok h \<longleftrightarrow>
     fst h \<noteq> [] \<and> (\<forall>c\<in>set (fst h). in_class token_class (schar c)) \<and> (\<forall>c\<in>set (snd h). in_class value_class (schar c))
     \<and> (snd h \<noteq> [] \<longrightarrow> in_class value_first_class (schar (hd (snd h))))"

lemma header_rows:
  "class_to (the (find_state http_parser_code 13)) token_class (Tr 23)" "class_to (the (find_state http_parser_code 14)) token_class (St 14)"
  "class_to (the (find_state http_parser_code 15)) value_first_class (Tr 28)" "class_to (the (find_state http_parser_code 16)) value_class (St 16)"
  by (simp_all add: hp_rows token_class_def value_class_def value_first_class_def)

lemmas header_select = header_rows [THEN class_to_select, unfolded hp_rows option.sel]

text \<open>The name up to the space after the colon.\<close>

lemma reads_name:
  assumes "k \<noteq> []" "\<forall>c\<in>set k. in_class token_class (schar c)"
  shows "reads b p (k @ '': '') 13 ps [] 15 (ps\<lparr>field_start := p, field_len := length k, mark := p + length k + 1\<rparr>)"
proof -
  obtain c cs where k: "k = c # cs" using assms(1) by (cases k) auto
  let ?ps = "ps\<lparr>field_start := p\<rparr>"
  have a: "reads b p [c] 13 ps [] 14 ?ps"
    by (rule reads_Tr [where new = "[]", OF _ _ hp_trans(6)], rule hp_rows) (use assms(2) k in \<open>simp_all add: header_select\<close>)
  have b: "reads b (p + length [c]) cs 14 ?ps [] 14 ?ps"
    by (rule reads_loop, rule hp_rows, rule header_select) (use assms(2) k in auto)
  have c: "reads b (p + length k) '':'' 14 ?ps [] 15 (?ps\<lparr>field_len := length k\<rparr>)"
    by (rule reads_Tr [where new = "[]", OF _ _ hp_trans(8)], rule hp_rows) (simp_all add: select_simps schar_def report_simps)
  have d: "reads b (p + length k + length '':'') '' '' 15 (?ps\<lparr>field_len := length k\<rparr>) [] 15 (?ps\<lparr>field_len := length k, mark := p + length k + 1\<rparr>)"
    by (rule reads_Tr [where new = "[]", OF _ _ hp_trans(10)], rule hp_rows) (simp_all add: select_simps schar_def)
  show ?thesis using reads_append [OF reads_append [OF a b], of "'':'' @ '' ''"] reads_append [OF c d] k by simp
qed

lemma reads_value:
  assumes "callbacks ps = UNIV" "\<forall>c\<in>set v. in_class value_class (schar c)" "v \<noteq> [] \<longrightarrow> in_class value_first_class (schar (hd v))"
    "p = at"
  shows "\<exists>ps'. reads b p (v @ CRLF) 15 ps [EvField (part_of b (field_start ps) (field_len ps)) (part_of b p (length v))] 13 ps'"
proof -
  let ?ps = "ps\<lparr>mark := p\<rparr>" and ?ev = "EvField (part_of b (field_start ps) (field_len ps)) (part_of b p (length v))"
  have lf: "reads b q [CHR 0x0A] 17 ps' [] 13 ps'" for q ps'
    by (rule reads_St, rule hp_rows) (simp_all add: select_simps schar_def)
  show ?thesis
  proof (cases v)
    case Nil
    have "reads b p [CHR 0x0D] 15 ps [?ev] 17 ?ps"
      by (rule reads_Tr [where new = "[Field (field_start ps) (field_len ps) p 0]", OF _ _ hp_trans(11)], rule hp_rows)
         (use assms(1) Nil in \<open>simp_all add: select_simps schar_def report_simps\<close>)
    from reads_append [OF this lf] show ?thesis using Nil by (auto simp: CRLF_def)
  next
    case (Cons c cs)
    have a: "reads b p [c] 15 ps [] 16 ?ps"
      by (rule reads_Tr [where new = "[]", OF _ _ hp_trans(9)], rule hp_rows) (use assms(3) Cons in \<open>simp_all add: header_select\<close>)
    have b: "reads b (p + length [c]) cs 16 ?ps [] 16 ?ps"
      by (rule reads_loop, rule hp_rows, rule header_select) (use assms(2) Cons in auto)
    have c: "reads b (p + length v) [CHR 0x0D] 16 ?ps [?ev] 17 ?ps"
      by (rule reads_Tr [where new = "[Field (field_start ps) (field_len ps) p (length v)]", OF _ _ hp_trans(12)], rule hp_rows)
         (use assms(1) in \<open>simp_all add: select_simps schar_def report_simps\<close>)
    show ?thesis using reads_append [OF reads_append [OF a b], of "CRLF"] reads_append [OF c lf] Cons by (auto simp: CRLF_def)
  qed
qed

lemma reads_field:
  assumes "callbacks ps = UNIV" "field_ok (k, v)" "b = pre @ k @ '': '' @ v @ post" "p = length pre"
  shows "\<exists>ps'. reads b p (k @ '': '' @ v @ CRLF) 13 ps [EvField k v] 13 ps'"
proof -
  let ?ps = "ps\<lparr>field_start := p, field_len := length k, mark := p + length k + 1\<rparr>"
  have n: "reads b p (k @ '': '') 13 ps [] 15 ?ps" by (rule reads_name) (use assms(2) in \<open>simp_all add: field_ok_def\<close>)
  have parts: "part_of b p (length k) = k" "part_of b (p + length (k @ '': '')) (length v) = v"
    using part_of_mid [of b pre k "'': '' @ v @ post"] part_of_mid [of b "pre @ k @ '': ''" v post] assms(3,4) by simp_all
  obtain ps' where "reads b (p + length (k @ '': '')) (v @ CRLF) 15 ?ps [EvField k v] 13 ps'"
    using reads_value [of ?ps v "p + length (k @ '': '')" "p + length (k @ '': '')" b] assms(1,2) parts by (auto simp: field_ok_def)
  from reads_append [OF n this] show ?thesis by auto
qed

lemma reads_fields:
  "callbacks ps = UNIV \<Longrightarrow> list_all field_ok hs \<Longrightarrow> b = pre @ concat (map field_text hs) @ post \<Longrightarrow> p = length pre \<Longrightarrow>
   \<exists>ps'. reads b p (concat (map field_text hs)) 13 ps (map (\<lambda>(k, v). EvField k v) hs) 13 ps'"
proof (induction hs arbitrary: ps pre p)
  case Nil
  show ?case by (rule exI [of _ ps]) (simp add: hr.reads_Nil)
next
  case (Cons h hs)
  obtain k v where h: "h = (k, v)" by fastforce
  have "b = pre @ k @ '': '' @ v @ CRLF @ concat (map field_text hs) @ post"
    unfolding Cons.prems(3) h by (simp add: field_text_def [of "(k, v)"])
  then obtain ps1 where 1: "reads b p (field_text h) 13 ps [EvField k v] 13 ps1"
    using reads_field [of ps k v b pre "CRLF @ concat (map field_text hs) @ post" p] Cons.prems(1,2,4) h
    by (auto simp: field_text_def [of "(k, v)"])
  have "callbacks ps1 = UNIV" using fixed_part_fields(1) [OF hr.reads_fixed [OF 1]] Cons.prems(1) by simp
  then obtain ps2 where "reads b (p + length (field_text h)) (concat (map field_text hs)) 13 ps1 (map (\<lambda>(k, v). EvField k v) hs) 13 ps2"
    using Cons.IH [of ps1 "pre @ field_text h" "p + length (field_text h)"] Cons.prems by auto
  from reads_append [OF 1 this] show ?case using h by auto
qed

section \<open>Requests\<close>

definition request_fields :: "HttpRequest \<Rightarrow> (string \<times> string) list" where
  "request_fields r =
     (if m_websocket r then [] else [(''connection'', if m_close r then ''close'' else ''keep-alive'')])
     @ kept_headers (m_websocket r) (m_headers r)
     @ (if m_body r = [] then [] else [(''content-length'', dec (length (m_body r)))])"

definition request_ok :: "HttpRequest \<Rightarrow> bool" where
  "request_ok r \<longleftrightarrow>
     list_all (\<lambda>c. method_key (schar c)) (HttpMethodToString (m_method r)) \<and> HttpMethodToString (m_method r) \<noteq> []
     \<and> length (HttpMethodToString (m_method r)) \<le> 20
     \<and> path_ok (m_path r) \<and> text_ok (in_class query_class) (m_query r) \<and> text_ok (in_class query_class) (m_fragment r)
     \<and> (m_version r = 0x11 \<or> m_version r = 0x10) \<and> list_all field_ok (m_headers r)"

text \<open>What is to be reported: every part as it was printed, in the order of the text.\<close>

definition request_events :: "HttpRequest \<Rightarrow> request_event list" where
  "request_events r =
     [EvMethod (req_dump r)] @ target_events (m_path r) (m_query r) (m_fragment r) @ [EvVersion (version_text (m_version r))]
     @ map (\<lambda>(k, v). EvField k v) (request_fields r) @ [EvHeaderDone (m_body r)]"

lemma req_dump_parts:
  "req_dump r = (HttpMethodToString (m_method r) @ '' '')
     @ (m_path r @ opt_text (CHR ''?'') (m_query r) @ opt_text (CHR ''#'') (m_fragment r) @ '' '')
     @ (version_text (m_version r) @ CRLF) @ concat (map field_text (request_fields r)) @ CRLF @ m_body r"
  by (auto simp: req_dump_def opt_text_def connection_line_def body_part_def request_fields_def concat_kept field_text_def)

lemma digits_in_value: "c \<in> set (dec n) \<Longrightarrow> 48 \<le> schar c \<and> schar c \<le> 57"
  using dec_digits [of c n] by (simp add: schar_def Let_def)

lemma fields_ok:
  assumes "list_all field_ok (m_headers r)"
  shows "list_all field_ok (request_fields r)"
proof -
  have "field_ok (''connection'', ''close'')" "field_ok (''connection'', ''keep-alive'')"
    by (simp_all add: field_ok_def in_class_def token_class_def value_class_def value_first_class_def schar_def)
  moreover have "field_ok (''content-length'', dec n)" for n
  proof -
    have "\<forall>c\<in>set (dec n). in_class value_class (schar c) \<and> in_class value_first_class (schar c)"
      using digits_in_value [of _ n] by (fastforce simp: in_class_def value_class_def value_first_class_def)
    moreover have "hd (dec n) \<in> set (dec n)" using dec_nonempty by simp
    ultimately show ?thesis by (simp add: field_ok_def in_class_def token_class_def schar_def)
  qed
  moreover have "list_all field_ok (kept_headers ws (m_headers r))" for ws
    using assms by (auto simp: kept_headers_def list_all_iff)
  ultimately show ?thesis by (simp add: request_fields_def)
qed

lemma reads_callbacks: "reads b p w n ps evs n' ps' \<Longrightarrow> callbacks ps' = callbacks ps"
  by (rule fixed_part_fields(1) [OF hr.reads_fixed])

text \<open>The head of a request, from the start to the empty line.\<close>

lemma reads_head:
  assumes "request_ok r" "callbacks ps = UNIV" "req_dump r = head @ CRLF @ m_body r"
  shows "\<exists>ps'. reads (req_dump r) 0 head 1 ps (butlast (request_events r)) 13 ps'"
proof -
  define b m t v fs where "b = req_dump r" and "m = HttpMethodToString (m_method r) @ '' ''"
    and "t = m_path r @ opt_text (CHR ''?'') (m_query r) @ opt_text (CHR ''#'') (m_fragment r) @ '' ''"
    and "v = version_text (m_version r) @ CRLF" and "fs = concat (map field_text (request_fields r))"
  have b: "b = m @ t @ v @ fs @ CRLF @ m_body r" using req_dump_parts by (simp add: b_def m_def t_def v_def fs_def)
  then have head: "head = m @ t @ v @ fs" using assms(3) by (simp add: b_def)
  have 1: "reads b 0 m 1 ps [EvMethod (drop 0 b)] 3 (ps\<lparr>mark := 0\<rparr>)"
    unfolding m_def by (rule reads_method) (use assms(1,2) in \<open>auto simp: request_ok_def list_all_iff\<close>)
  obtain ps2 where 2: "reads b (0 + length m) t 3 (ps\<lparr>mark := 0\<rparr>) (target_events (m_path r) (m_query r) (m_fragment r)) 4 ps2"
    using reads_target [of "ps\<lparr>mark := 0\<rparr>" "m_path r" "m_query r" "m_fragment r" b m "'' '' @ v @ fs @ CRLF @ m_body r" "0 + length m"]
      assms(1,2) b by (auto simp: request_ok_def t_def)
  have c2: "callbacks ps2 = UNIV" using reads_callbacks [OF 2] assms(2) by simp
  have 3: "reads b (0 + length m + length t) v 4 ps2 [EvVersion (version_text (m_version r))] 13 (ps2\<lparr>mark := 0 + length m + length t\<rparr>)"
    unfolding v_def
    by (rule reads_version [OF c2, of _ _ "m @ t" "CRLF @ fs @ CRLF @ m_body r"])
       (use assms(1) b in \<open>auto simp: request_ok_def version_texts v_def\<close>)
  obtain ps4 where 4: "reads b (0 + length m + length t + length v) fs 13 (ps2\<lparr>mark := 0 + length m + length t\<rparr>)
      (map (\<lambda>(k, v). EvField k v) (request_fields r)) 13 ps4"
    using reads_fields [of "ps2\<lparr>mark := 0 + length m + length t\<rparr>" "request_fields r" b "m @ t @ v" "CRLF @ m_body r" "0 + length m + length t + length v"]
      fields_ok [of r] assms(1) c2 b by (auto simp: request_ok_def fs_def)
  have "reads b 0 (m @ t @ v @ fs) 1 ps ([EvMethod (drop 0 b)] @ target_events (m_path r) (m_query r) (m_fragment r)
      @ [EvVersion (version_text (m_version r))] @ map (\<lambda>(k, v). EvField k v) (request_fields r)) 13 ps4"
    by (intro reads_append [OF 1] reads_append [OF 2] reads_append [OF 3] 4)
  then show ?thesis unfolding head b_def [symmetric] by (auto simp: request_events_def butlast_append b_def)
qed

text \<open>The empty line ends the loop.\<close>

lemma exec_head:
  assumes "reads b 0 head (cs ps) ps evs 13 ps'" "b = head @ CRLF @ body" "callbacks ps = UNIV" "xml_sent ps = 0" "json_sent ps = 0"
  shows "\<exists>w. http_parser_exec ps b 0 = Inr (348, length head + 2, w) \<and> map (call_event b) (snd w) = evs @ [EvHeaderDone body]"
proof -
  note same = fixed_part_fields [OF hr.reads_fixed [OF assms(1)]]
  have cr: "reads b (0 + length head) [CHR 0x0D] 13 ps' [] 18 (ps'\<lparr>field_start := length head\<rparr>)"
    by (rule reads_Tr [where new = "[]", OF _ _ hp_trans(7)], rule hp_rows) (simp_all add: select_simps schar_def)
  let ?call = "Element header_done_cb (length head + 2) (length b - (length head + 1) - 1)"
  let ?ps = "ps'\<lparr>field_start := length head, body_start := length head + 2\<rparr>"
  have body: "part_of b (length head + 2) (length b - (length head + 1) - 1) = body" by (simp add: assms(2) CRLF_def part_of_def)
  have "\<exists>calls. ragel_run http_parser_code (http_act (length b)) http_brk (uri_relaxed ps \<noteq> 0) 0 ((head @ [CHR 0x0D]) @ CHR 0x0A # body) (cs ps) (ps, [])
       = Inr (348, 0 + length (head @ [CHR 0x0D]) + 1, ?ps, calls)
     \<and> map (call_event b) calls = (evs @ []) @ [EvHeaderDone body]"
    by (rule hr.reads_break [where new' = "[?call]", OF reads_append [OF assms(1) cr] _ _ hp_trans(13)], rule hp_rows)
       (use same assms(3-5) body in \<open>simp_all add: select_simps schar_def done_action_def element_def\<close>)
  then show ?thesis by (auto simp: http_parser_exec_def assms(2) CRLF_def)
qed

text \<open>
  C10: a request that was printed and arrives in one buffer is parsed as what it is: the parser stops where the
  body begins, is finished, and has reported the method, path, query, uri, fragment and version, every header
  and the body as they were printed, in this order. The parts have to be texts of their grammar: a method of
  capital letters and digits, a path that begins with exactly one slash, percent signs only before two
  hexadecimal digits, names of headers that are tokens, and values without control characters at their ends.
\<close>
theorem request_parsed:
  assumes "request_ok r" "length (req_dump r) < 2 ^ 31" "callbacks parser = UNIV"
  shows "\<exists>parser' calls. http_parser_execute (http_parser_init parser) (req_dump r) 0
       = Inr (parser', length (req_dump r) - length (m_body r), calls)
     \<and> http_parser_finish parser' = 1 \<and> map (call_event (req_dump r)) calls = request_events r"
proof -
  define b where "b = req_dump r"
  let ?ps = "(http_parser_init parser)\<lparr>nread := 0, mark := 0, field_len := 0, field_start := 0\<rparr>"
  obtain head where head: "b = head @ CRLF @ m_body r" using req_dump_parts [of r] by (simp add: b_def)
  have ps: "callbacks ?ps = UNIV" "xml_sent ?ps = 0" "json_sent ?ps = 0" "cs ?ps = 1" "body_start ?ps = 0" "nread ?ps = 0"
    using assms(3) by (simp_all add: http_parser_init_def http_parser_start_def)
  obtain ps' where "reads b 0 head (cs ?ps) ?ps (butlast (request_events r)) 13 ps'"
    using reads_head [OF assms(1) ps(1)] head ps(4) by (auto simp: b_def)
  then obtain w where w: "http_parser_exec ?ps b 0 = Inr (348, length head + 2, w)"
    "map (call_event b) (snd w) = butlast (request_events r) @ [EvHeaderDone (m_body r)]"
    using exec_head [OF _ head ps(1-3)] by blast
  have len: "length b = length head + 2 + length (m_body r)" using head by (simp add: CRLF_def)
  have bn: "b \<noteq> []" using len by auto
  obtain cs' p q calls where e: "http_parser_exec ?ps b 0 = Inr (cs', p, q, calls)"
    "http_parser_execute (http_parser_init parser) b 0 = Inr (q\<lparr>cs := cs', nread := p - 0\<rparr>, p - 0, calls)"
    by (rule execute_run [of 0 b "http_parser_init parser"]) (use assms(2) bn ps(4,5) in \<open>auto simp: b_def [symmetric]\<close>)
  then have "http_parser_execute (http_parser_init parser) b 0 = Inr (q\<lparr>cs := 348, nread := length head + 2\<rparr>, length head + 2, calls)"
    using w(1) by auto
  moreover have "map (call_event b) calls = request_events r" using w e(1) by (auto simp: request_events_def butlast_append)
  moreover have "length b - length (m_body r) = length head + 2" using len by simp
  ultimately show ?thesis
    unfolding b_def [symmetric]
    by (auto simp: http_parser_finish_def http_parser_has_error_def http_parser_is_finished_def http_parser_error_def http_parser_first_final_def)
qed

text \<open>The request of a client for a page, with a query and a body.\<close>

definition sample_request :: HttpRequest where
  "sample_request = (new_HttpRequest 0x11 True)
     \<lparr>m_method := POST, m_path := ''/a%20b'', m_query := ''id=1'', m_headers := [(''Host'', ''x'')], m_body := ''hello''\<rparr>"

lemma sample_request_ok: "request_ok sample_request"
  by code_simp

theorem request_parsed_witness:
  "\<exists>parser' calls. http_parser_execute (http_parser_init fresh_parser) (req_dump sample_request) 0
       = Inr (parser', length (req_dump sample_request) - length ''hello'', calls)
     \<and> http_parser_finish parser' = 1 \<and> map (call_event (req_dump sample_request)) calls = request_events sample_request"
proof -
  have "length (req_dump sample_request) = 81" by code_simp
  then show ?thesis
    using request_parsed [OF sample_request_ok, of fresh_parser]
    by (simp add: fresh_parser_def http_parser_init_def sample_request_def)
qed

section \<open>A query across two buffers\<close>

text \<open>
  The start of the query is the only offset that is kept from one call to the next. When a query that began in
  one buffer ends in the next, its length wraps around.
\<close>

lemma query_split_wraps:
  assumes "cs parser = 30" "callbacks parser = UNIV" "body_start parser = 0" "0 < query_start parser"
  shows "\<exists>parser'. http_parser_execute parser '' '' 0
     = Inr (parser', 1, [Element query_string_cb (query_start parser) (size_max - query_start parser), Element request_uri_cb 0 0])"
proof -
  have "find_transition http_parser_code 58 = Some ([Query_string, Request_uri], 4)" by (rule hp_trans)
  then show ?thesis
    using assms
    by (simp add: http_parser_execute_def http_parser_exec_def ragel_move_def hp_rows select_simps schar_def report_simps usub_def to_int_def
        http_parser_has_error_def http_parser_error_def)
qed

section \<open>Lines without a colon\<close>

text \<open>
  The names of fields take control characters, line ends among them: a line without a colon does not end, and
  neither does the head.
\<close>

definition name_class :: "(int \<times> int) list" where
  "name_class = (1, 8) # (10, 31) # token_class"

lemma line_without_colon:
  assumes "in_class token_class (schar c)" "\<forall>c\<in>set w. in_class name_class (schar c)"
  shows "reads b p (c # w) 13 ps [] 14 (ps\<lparr>field_start := p\<rparr>)"
proof -
  have a: "reads b p [c] 13 ps [] 14 (ps\<lparr>field_start := p\<rparr>)"
    by (rule reads_Tr [where new = "[]", OF _ _ hp_trans(6)], rule hp_rows) (use assms(1) in \<open>simp_all add: header_select\<close>)
  have "class_to (the (find_state http_parser_code 14)) name_class (St 14)" by (simp add: hp_rows name_class_def token_class_def)
  note s = class_to_select [OF this [unfolded hp_rows option.sel]]
  have "reads b (p + length [c]) w 14 (ps\<lparr>field_start := p\<rparr>) [] 14 (ps\<lparr>field_start := p\<rparr>)"
    by (rule reads_loop, rule hp_rows, rule s) (use assms(2) in auto)
  from reads_append [OF a this] show ?thesis by simp
qed

end
