(* ===== verification/HttpService.thy ===== *)
theory HttpService
  imports Http11Parse Servers
begin

text \<open>
  The server with its own request parser: \<open>HttpRequestParser\<close> over the machine of \<open>http11_parser.cc\<close>, in the
  receive loop of \<open>HttpSession::recvRequest\<close> and in \<open>HttpServer::handleClient\<close>. The theorems say which traffic is
  answered. Nothing is assumed of the machine.
\<close>

section \<open>The machine\<close>

text \<open>
  The machine as \<open>HttpRequestParser\<close> uses it: every callback is set, and a buffer is parsed from its start. The
  memory of the struct is \<open>m0\<close>. What would happen after a failed assertion is \<open>crash\<close>, an argument that the
  results do not depend on.
\<close>

definition request_machine ::
  "http_parser \<Rightarrow> (http_parser \<Rightarrow> string \<Rightarrow> http_parser \<times> nat \<times> request_event list) \<Rightarrow> (http_parser, request_event) ragel" where
  "request_machine m0 crash =
     \<lparr>r_init = (http_parser_init m0)\<lparr>callbacks := UNIV\<rparr>,
      r_execute = (\<lambda>m b. case http_parser_execute m b 0 of Inl _ \<Rightarrow> crash m b | Inr (m, n, calls) \<Rightarrow> (m, n, map (call_event b) calls)),
      r_finish = http_parser_finish, r_has_error = http_parser_has_error\<rparr>"

section \<open>Before the method is reported\<close>

text \<open>The states inside a method.\<close>

definition awaiting :: "nat \<Rightarrow> bool" where
  "awaiting n \<longleftrightarrow> n = 2 \<or> 175 \<le> n \<and> n \<le> 193"

definition await_edge :: "nat \<Rightarrow> http_parser_action list \<Rightarrow> nat \<Rightarrow> bool" where
  "await_edge n as k \<longleftrightarrow> (awaiting n \<longrightarrow> as = [] \<and> awaiting k \<or> as = [Request_method])"

lemma await_edges: "list_all (edges_hold (trans_list http_parser_code) await_edge) http_parser_code"
  unfolding http_parser_trans_list
  by (simp add: http_parser_eval http_lookup await_edge_def awaiting_def)

definition method_reported :: "http_call list \<Rightarrow> bool" where
  "method_reported calls \<longleftrightarrow> (\<exists>at n. Element request_method_cb at n \<in> set calls)"

lemma act_reported: "method_reported (snd w) \<Longrightarrow> method_reported (snd (http_act pe a p w))"
  by (cases w; cases a) (auto simp: method_reported_def element_def done_action_def)

lemma run_reported:
  assumes "ragel_run http_parser_code (http_act pe) http_brk rel p w n s = Inr (cs', p', s')" "method_reported (snd s)" "p + length w \<le> pe"
  shows "method_reported (snd s')"
proof (rule hp.run_inv [where J = "\<lambda>_ _ s. method_reported (snd s)" and F = "\<lambda>_ s. method_reported (snd s)", OF _ _ assms])
  fix cs p c s m
  assume "method_reported (snd s)" and m: "ragel_move http_parser_code (http_act pe) http_brk rel p c cs s = Inr m"
  then show "case m of Next k s' \<Rightarrow> method_reported (snd s') | Break k s' \<Rightarrow> method_reported (snd s')
      | Stop s' \<Rightarrow> method_reported (snd s') | Unmatched s' \<Rightarrow> method_reported (snd s')"
    by (intro move_keeps [where K = "\<lambda>_ s. method_reported (snd s)", OF _ _ m]) (auto intro: act_reported)
qed simp

lemma await_run:
  assumes "ragel_run http_parser_code (http_act pe) http_brk rel p w n (ps, calls) = Inr (cs', p', ps', calls')" "awaiting n"
    "request_method_cb \<in> callbacks ps" "p + length w \<le> pe"
  shows "method_reported calls' \<or> (cs' = 0 \<or> awaiting cs') \<and> ps' = ps"
  using assms
proof (induction w arbitrary: p n)
  case (Cons c w)
  obtain m where m: "ragel_move http_parser_code (http_act pe) http_brk rel p c n (ps, calls) = Inr m"
    using hp.move_total by blast
  from move_edge [OF await_edges m] show ?case
  proof (elim disjE exE conjE)
    fix as k
    assume e: "await_edge n as k" and
      r: "case run_actions (http_act pe) http_brk p as (ps, calls) of (Some b, s') \<Rightarrow> m = Break b s' | (None, s') \<Rightarrow> m = Next k s'"
    from e Cons.prems(2) consider "as = []" "awaiting k" | "as = [Request_method]" by (auto simp: await_edge_def)
    then show ?thesis
    proof cases
      case 1
      then have "ragel_run http_parser_code (http_act pe) http_brk rel (p + 1) w k (ps, calls) = Inr (cs', p', ps', calls')"
        using Cons.prems(1) m r by simp
      then show ?thesis using Cons.IH [OF _ 1(2)] Cons.prems(3,4) by simp
    next
      case 2
      let ?calls = "calls @ [Element request_method_cb (mark ps) (len_from (mark ps) p)]"
      have "ragel_run http_parser_code (http_act pe) http_brk rel (p + 1) w k (ps, ?calls) = Inr (cs', p', ps', calls')"
        using Cons.prems(1,3) m r 2 by (simp add: element_def)
      from run_reported [OF this] show ?thesis using Cons.prems(4) by (auto simp: method_reported_def)
    qed
  qed (use Cons.prems m in \<open>auto simp: awaiting_def\<close>)
qed simp

text \<open>The first character of a method.\<close>

lemma first_run:
  assumes "ragel_run http_parser_code (http_act pe) http_brk rel p (c # w) 1 (ps, calls) = Inr (cs', p', ps', calls')"
    "c \<noteq> CHR ''<''" "c \<noteq> CHR ''@''" "request_method_cb \<in> callbacks ps" "p + length (c # w) \<le> pe"
  shows "method_reported calls' \<or> (cs' = 0 \<or> awaiting cs') \<and> (\<exists>m. ps' = ps\<lparr>mark := m\<rparr>)"
proof -
  have c: "schar c \<noteq> 60" "schar c \<noteq> 64" using assms(2,3) schar_inj [of c "CHR ''<''"] schar_inj [of c "CHR ''@''"] by (auto simp: schar_def)
  show ?thesis
  proof (cases "method_key (schar c)")
    case True
    then have "ragel_move http_parser_code (http_act pe) http_brk rel p c 1 (ps, calls) = Inr (Next 2 (ps\<lparr>mark := p\<rparr>, calls))"
      using hp_trans(1) c by (auto simp: ragel_move_def hp_rows select_simps method_key_def simp del: One_nat_def)
    then have "ragel_run http_parser_code (http_act pe) http_brk rel (p + 1) w 2 (ps\<lparr>mark := p\<rparr>, calls) = Inr (cs', p', ps', calls')"
      using assms(1) by simp
    from await_run [OF this] show ?thesis using assms(4,5) by (auto simp: awaiting_def)
  next
    case False
    then have "ragel_move http_parser_code (http_act pe) http_brk rel p c 1 (ps, calls) = Inr (Stop (ps, calls))"
      using c by (auto simp: ragel_move_def hp_rows select_simps method_key_def simp del: One_nat_def)
    then show ?thesis using assms(1) by (auto intro: exI [of _ "mark ps"])
  qed
qed

section \<open>The receive loop\<close>

definition unreported :: "http_parser \<Rightarrow> bool" where
  "unreported m \<longleftrightarrow> awaiting (cs m) \<and> body_start m = 0 \<and> callbacks m = UNIV"

definition fresh :: "http_parser \<Rightarrow> string \<Rightarrow> bool" where
  "fresh m d \<longleftrightarrow> cs m = 1 \<and> body_start m = 0 \<and> callbacks m = UNIV \<and> hd d \<noteq> CHR ''<'' \<and> hd d \<noteq> CHR ''@''"

lemma execute_unreported:
  assumes "unreported m \<or> fresh m d" "d \<noteq> []" "length d < 2 ^ 31"
  shows "\<exists>m' n calls. http_parser_execute m d 0 = Inr (m', n, calls) \<and> (method_reported calls \<or> cs m' = 0 \<or> unreported m')"
proof -
  let ?m = "m\<lparr>nread := 0, mark := 0, field_len := 0, field_start := 0\<rparr>"
  have m: "1 \<le> cs m" "cs m \<le> 349" "body_start m \<le> length d" "cs m \<notin> {30, 31, 32}" "callbacks m = UNIV"
    using assms(1) by (auto simp: unreported_def fresh_def awaiting_def)
  obtain cs' p q calls where e: "http_parser_exec ?m d 0 = Inr (cs', p, q, calls)"
    "http_parser_execute m d 0 = Inr (q\<lparr>cs := cs', nread := p - 0\<rparr>, p - 0, calls)"
    by (rule execute_run [of 0 d m]) (use m assms(2,3) in auto)
  have r: "ragel_run http_parser_code (http_act (length d)) http_brk (uri_relaxed m \<noteq> 0) 0 d (cs m) (?m, []) = Inr (cs', p, q, calls)"
    using e(1) by (auto simp: http_parser_exec_def split: sum.splits ragel_fault.splits)
  have "method_reported calls \<or> (cs' = 0 \<or> awaiting cs') \<and> body_start q = 0 \<and> callbacks q = UNIV"
  proof (cases "fresh m d")
    case True
    obtain c w where d: "d = c # w" using assms(2) by (cases d) auto
    have "ragel_run http_parser_code (http_act (length d)) http_brk (uri_relaxed m \<noteq> 0) 0 (c # w) 1 (?m, []) = Inr (cs', p, q, calls)"
      using r True d by (simp add: fresh_def del: ragel_run.simps)
    from first_run [OF this] show ?thesis using True d by (auto simp: fresh_def)
  next
    case False
    then have "unreported m" using assms(1) by blast
    then show ?thesis using await_run [OF r] by (auto simp: unreported_def)
  qed
  then show ?thesis using e(2) by (auto simp: unreported_def)
qed

lemma rq_execute_unreported:
  assumes "unreported (rq_machine p) \<or> fresh (rq_machine p) d" "d \<noteq> []" "length d < 2 ^ 31" "rq_execute (request_machine m0 crash) p d = (q, n)"
  shows "rq_hasError (request_machine m0 crash) q \<or> unreported (rq_machine q) \<and> rq_isFinished (request_machine m0 crash) q = 0"
proof -
  obtain m' calls where e: "http_parser_execute (rq_machine p) d 0 = Inr (m', n, calls)" "method_reported calls \<or> cs m' = 0 \<or> unreported m'"
    and q: "q = fold request_cb (map (call_event d) calls) (p\<lparr>rq_machine := m'\<rparr>)"
    using execute_unreported [OF assms(1-3)] assms(4) by (auto simp: rq_execute_def request_machine_def)
  have "rq_machine q = m'" by (simp add: q)
  moreover have "rq_error q \<noteq> 0" if "method_reported calls"
  proof -
    from that obtain at k where "Element request_method_cb at k \<in> set calls" by (auto simp: method_reported_def)
    then have "EvMethod (drop at d) \<in> set (map (call_event d) calls)" by force
    then show ?thesis unfolding q by (rule request_cb_method)
  qed
  ultimately show ?thesis
    using e(2) by (auto simp: rq_hasError_def rq_isFinished_def request_machine_def http_parser_has_error_def http_parser_error_def
        http_parser_finish_def http_parser_is_finished_def http_parser_first_final_def unreported_def awaiting_def)
qed

lemma recv_head_none:
  assumes "P p" "length data \<le> b"
    "\<And>p d q n. P p \<Longrightarrow> d \<noteq> [] \<Longrightarrow> length d \<le> b \<Longrightarrow> exec p d = (q, n) \<Longrightarrow> err q \<or> P q \<and> fin q = 0"
  shows "recv_head exec err fin b p data segs = None"
  using assms
proof (induction exec err fin b p data segs rule: recv_head.induct)
  case (1 exec err fin b p data segs)
  obtain got rest where r: "sock_read (b - length data) segs = (got, rest)" by fastforce
  obtain q n where q: "exec p (data @ got) = (q, n)" by fastforce
  have l: "length (data @ got) \<le> b" using sock_read_le [of "b - length data" segs] r 1(3) by simp
  have s: "err q \<or> P q \<and> fin q = 0" if "got \<noteq> []" by (rule 1(4) [OF 1(2) _ l q]) (use that in simp)
  have "recv_head exec err fin b q (drop n (data @ got)) rest = None"
    if "got \<noteq> []" "\<not> err q" "length (drop n (data @ got)) \<noteq> b" "\<not> fin q \<noteq> 0" "P q"
    by (rule 1(1) [OF r [symmetric] that(1) q [symmetric] that(2) refl that(3,4,5) _ 1(4)]) (use l in simp_all)
  then show ?case using s unfolding recv_head_step [of b data segs got rest exec p q n, OF r q] by auto
qed

lemma request_head_none:
  assumes "b < 2 ^ 31" "\<forall>c rest. concat segs = c # rest \<longrightarrow> c \<noteq> CHR ''<'' \<and> c \<noteq> CHR ''@''"
  shows "recv_head (rq_execute (request_machine m0 crash)) (rq_hasError (request_machine m0 crash)) (rq_isFinished (request_machine m0 crash)) b
     (new_HttpRequestParser (request_machine m0 crash)) [] segs = None"
proof -
  let ?R = "request_machine m0 crash"
  let ?p = "new_HttpRequestParser ?R"
  obtain got rest where r: "sock_read (b - length ([] :: string)) segs = (got, rest)" by fastforce
  obtain q n where q: "rq_execute ?R ?p ([] @ got) = (q, n)" by fastforce
  have l: "length got \<le> b" using sock_read_le [of b segs] r by simp
  have first: "rq_hasError ?R q \<or> unreported (rq_machine q) \<and> rq_isFinished ?R q = 0" if "got \<noteq> []"
  proof (rule rq_execute_unreported [of ?p got])
    have "hd got \<noteq> CHR ''<'' \<and> hd got \<noteq> CHR ''@''"
      using that r assms(2) by (cases segs; cases "hd segs"; cases b) auto
    then show "unreported (rq_machine ?p) \<or> fresh (rq_machine ?p) got"
      by (simp add: fresh_def new_HttpRequestParser_def request_machine_def http_parser_init_def http_parser_start_def)
  qed (use that l q assms(1) in simp_all)
  have rest: "recv_head (rq_execute ?R) (rq_hasError ?R) (rq_isFinished ?R) b q (drop n got) rest = None" if "unreported (rq_machine q)"
    by (rule recv_head_none [where P = "\<lambda>p. unreported (rq_machine p)"])
       (use that l assms(1) in \<open>auto dest!: rq_execute_unreported [rotated 3]\<close>)
  show ?thesis using first rest unfolding recv_head_step [of b "[]" segs got rest "rq_execute ?R" ?p q n, OF r q] by auto
qed

section \<open>What is answered\<close>

text \<open>
  C11: no HTTP request is answered. Unless the first byte of a connection is \<open><\<close> or \<open>@\<close>, the machine reports a
  method before it can finish, the method counts as invalid, and the server closes the connection without a
  response: on every traffic, however it is cut into segments. No assertion of the parser fails on the way.
\<close>
theorem http_requests_refused:
  assumes "b < 2 ^ 31" "\<forall>c rest. concat segs = c # rest \<longrightarrow> c \<noteq> CHR ''<'' \<and> c \<noteq> CHR ''@''"
  shows "handleClient cast (request_machine m0 crash) b keepalive ws name call d segs = Inr []"
  using request_head_none [OF assms] by (subst handleClient.simps) (simp add: recvRequest_def)

theorem http_requests_refused_witness:
  "handleClient (\<lambda>_. None) (request_machine fresh_parser (\<lambda>m _. (m, 0, []))) 4096 True False ''s'' (\<lambda>_ q r. (0, q, r)) new_ServletDispatch
     [''GET / HT'', ''TP/1.1'', CRLF @ CRLF] = Inr []"
  using http_requests_refused [of 4096 "[''GET / HT'', ''TP/1.1'', CRLF @ CRLF]"] by simp

section \<open>Messages in braces\<close>

text \<open>The characters of a name that need no further states: no slashes and no percent signs.\<close>

definition json_class :: "(int \<times> int) list" where
  "json_class = [(33, 33), (36, 36), (38, 46), (48, 57), (59, 59), (61, 61), (64, 90), (95, 95), (97, 122), (126, 126)]"

lemma json_trans:
  "find_transition http_parser_code 3 = Some ([Mark], 198)" "find_transition http_parser_code 228 = Some ([Request_path], 199)"
  "find_transition http_parser_code 232 = Some ([Mark], 200)" "find_transition http_parser_code 235 = Some ([Json, Done 349], 349)"
  by (simp_all add: http_parser_trans http_lookup)

lemma json_rows:
  "class_to (the (find_state http_parser_code 198)) json_class (St 202)" "class_to (the (find_state http_parser_code 202)) json_class (St 202)"
  by (simp_all add: hp_rows json_class_def)

lemmas json_select = json_rows [THEN class_to_select, unfolded hp_rows option.sel]

lemma reads_json_name:
  assumes "\<forall>c\<in>set v. in_class json_class (schar c)"
  shows "\<exists>n\<in>{198, 202}. reads b p v 198 ps [] n ps"
proof (cases v)
  case Nil
  then show ?thesis by (auto simp: hr.reads_Nil)
next
  case (Cons c w)
  have a: "reads b p [c] 198 ps [] 202 ps" by (rule reads_St, rule hp_rows) (use assms Cons in \<open>simp_all add: json_select\<close>)
  have "reads b (p + length [c]) w 202 ps [] 202 ps"
    by (rule reads_loop, rule hp_rows, rule json_select) (use assms Cons in auto)
  from reads_append [OF a this] show ?thesis using Cons by auto
qed

lemma reads_json_text:
  assumes "n \<in> {200, 201}" "CHR 0x00 \<notin> set w"
  shows "\<exists>n'\<in>{200, 201}. reads b p w n ps [] n' ps"
proof -
  have step: "\<exists>r m. find_state http_parser_code n = Some r \<and> select (uri_relaxed ps \<noteq> 0) r (schar c) = St m \<and> m \<noteq> 0 \<and> m \<in> {200, 201}"
    if "n \<in> {200, 201}" "schar c \<noteq> 0" for n and s :: string and c
    using that by (elim insertE emptyE) (auto simp: hp_rows select_simps)
  have "\<forall>c\<in>set w. schar c \<noteq> 0" using assms(2) schar_inj [of _ "CHR 0x00"] by (auto simp: schar_def)
  from hr.reads_along [where J = "\<lambda>n _. n \<in> {200, 201}" and C = "\<lambda>k. k \<noteq> 0" and s = "[]", OF step assms(1) this]
  show ?thesis by blast
qed

definition json_message :: "string \<Rightarrow> string \<Rightarrow> string" where
  "json_message name text = ''@'' @ name @ '' {'' @ text @ ''}'' @ [CHR 0x00]"

lemma exec_json:
  assumes "\<forall>c\<in>set name. in_class json_class (schar c)" "CHR 0x00 \<notin> set text" "cs ps = 1" "callbacks ps = UNIV" "b = json_message name text"
  shows "\<exists>w. http_parser_exec ps b 0 = Inr (349, length b, w) \<and> map (call_event b) (snd w) = [EvPath (CHR ''@'' # name)]"
proof -
  let ?k = "1 + length name"
  let ?ps = "ps\<lparr>mark := 0\<rparr>" and ?qs = "ps\<lparr>mark := ?k + 1\<rparr>"
  have 1: "reads b 0 ''@'' 1 ps [] 198 ?ps"
    by (rule reads_Tr [where new = "[]", OF hp_rows(1) _ json_trans(1)]) (simp_all add: select_simps schar_def)
  obtain n where n: "n \<in> {198, 202}" and 2: "reads b (0 + length ''@'') name 198 ?ps [] n ?ps" using reads_json_name [OF assms(1)] by blast
  have path: "part_of b 0 ?k = CHR ''@'' # name" using assms(5) by (simp add: part_of_def json_message_def)
  have 3: "reads b (0 + length ''@'' + length name) '' '' n ?ps [EvPath (CHR ''@'' # name)] 199 ?ps"
    using n path assms(4)
    by (elim insertE emptyE; intro reads_Tr [where new = "[Element request_path_cb 0 ?k]", OF _ _ json_trans(2)])
       (auto simp: hp_rows select_simps schar_def report_simps)
  have 4: "reads b (0 + length ''@'' + length name + length '' '') ''{'' 199 ?ps [] 200 ?qs"
    by (rule reads_Tr [where new = "[]", OF _ _ json_trans(3)], rule hp_rows) (simp_all add: select_simps schar_def)
  obtain n' where n': "n' \<in> {200, 201}" and 5: "reads b (0 + length ''@'' + length name + length '' '' + length ''{'') text 200 ?qs [] n' ?qs"
    using reads_json_text [OF _ assms(2)] by blast
  have 6: "reads b (0 + length ''@'' + length name + length '' '' + length ''{'' + length text) ''}'' n' ?qs [] 201 ?qs"
    using n' by (elim insertE emptyE) (auto intro!: reads_St simp: hp_rows select_simps schar_def)
  have all: "reads b 0 (''@'' @ name @ '' '' @ ''{'' @ text @ ''}'') (cs ps) ps ([] @ [] @ [EvPath (CHR ''@'' # name)] @ [] @ [] @ []) 201 ?qs"
    unfolding assms(3) by (intro reads_append [OF 1] reads_append [OF 2] reads_append [OF 3] reads_append [OF 4] reads_append [OF 5] 6)
  have "\<exists>ps'. \<exists>calls. ragel_run http_parser_code (http_act (length b)) http_brk (uri_relaxed ps \<noteq> 0) 0
       ((''@'' @ name @ '' '' @ ''{'' @ text @ ''}'') @ CHR 0x00 # []) (cs ps) (ps, [])
     = Inr (349, 0 + length (''@'' @ name @ '' '' @ ''{'' @ text @ ''}'') + 1, ps', calls)
     \<and> map (call_event b) calls = ([] @ [] @ [EvPath (CHR ''@'' # name)] @ [] @ [] @ []) @ []"
    by (rule exI, rule hr.reads_break [where new' = "[]", OF all _ _ json_trans(4)], rule hp_rows)
       (simp_all add: select_simps schar_def done_action_def)
  then show ?thesis by (auto simp: http_parser_exec_def assms(5) json_message_def)
qed

text \<open>The request that the server makes of it.\<close>

definition json_request :: "string \<Rightarrow> HttpRequest" where
  "json_request name = (new_HttpRequest 0x11 True)\<lparr>m_path := CHR ''@'' # name\<rparr>"

lemma rq_execute_json:
  assumes "\<forall>c\<in>set name. in_class json_class (schar c)" "CHR 0x00 \<notin> set text" "length (json_message name text) < 2 ^ 31"
  shows "\<exists>q. rq_execute (request_machine m0 crash) (new_HttpRequestParser (request_machine m0 crash)) (json_message name text)
       = (q, length (json_message name text))
     \<and> \<not> rq_hasError (request_machine m0 crash) q \<and> rq_isFinished (request_machine m0 crash) q = 1 \<and> rq_data q = json_request name"
proof -
  define b m where "b = json_message name text" and "m = (http_parser_init m0)\<lparr>callbacks := UNIV\<rparr>"
  have m: "cs m = 1" "callbacks m = UNIV" "body_start m = 0" by (simp_all add: m_def http_parser_init_def http_parser_start_def)
  have bn: "b \<noteq> []" by (simp add: b_def json_message_def)
  obtain cs' p q calls where e: "http_parser_exec (m\<lparr>nread := 0, mark := 0, field_len := 0, field_start := 0\<rparr>) b 0 = Inr (cs', p, q, calls)"
    "http_parser_execute m b 0 = Inr (q\<lparr>cs := cs', nread := p - 0\<rparr>, p - 0, calls)"
    by (rule execute_run [of 0 b m]) (use m bn assms(3) in \<open>auto simp: b_def [symmetric]\<close>)
  moreover obtain w where "http_parser_exec (m\<lparr>nread := 0, mark := 0, field_len := 0, field_start := 0\<rparr>) b 0 = Inr (349, length b, w)"
    "map (call_event b) (snd w) = [EvPath (CHR ''@'' # name)]"
    using exec_json [OF assms(1,2), of "m\<lparr>nread := 0, mark := 0, field_len := 0, field_start := 0\<rparr>" b] m b_def by auto
  ultimately have "http_parser_execute m b 0 = Inr (q\<lparr>cs := 349, nread := length b\<rparr>, length b, calls)"
    "map (call_event b) calls = [EvPath (CHR ''@'' # name)]" by auto
  then show ?thesis
    unfolding b_def [symmetric]
    by (auto simp: rq_execute_def new_HttpRequestParser_def request_machine_def m_def [symmetric] on_request_path_def json_request_def
        rq_hasError_def rq_isFinished_def http_parser_has_error_def http_parser_error_def http_parser_finish_def
        http_parser_is_finished_def http_parser_first_final_def)
qed



end
