(* ===== verification/HttpClientCode.thy ===== *)
theory HttpClientCode
  imports Ragel
begin

text \<open>
  The states and transitions of \<open>httpclient_parser_execute\<close> (\<open>http/httpclient_parser.cc\<close>), in the order of the
  source. The nested comparisons of a state are written as the ranges they test; an action is named after
  what its block of code does, and \<open>Done\<close> carries the state it leaves with.
\<close>

datatype httpclient_parser_action =
    Mark | Start_field | Write_field | Write_value | Reason_phrase | Status_code | Http_version | Close | Chunked
  | Write_content_len | Chunk_size | Done nat

definition httpclient_parser_code_1 :: "httpclient_parser_action block list" where
  "httpclient_parser_code_1 =
    [State 1 False [(72, Tr 2)] [(48, 57, Tr 0), (65, 70, Tr 0), (97, 102, Tr 0)] (St 0),
     Trans 0 [Mark] 2,
     State 2 False [(10, Tr 3), (13, Tr 4), (59, Tr 6)] [(48, 57, St 2), (65, 70, St 2), (97, 102, St 2)] (St 0),
     Trans 3 [Chunk_size, Done 120] 120,
     Trans 7 [Done 120] 120,
     Trans 9 [Write_field, Mark, Write_value, Done 120] 120,
     Trans 15 [Write_value, Done 120] 120,
     Trans 74 [Close, Done 120] 120,
     State 120 False [] [] (St 0)]"

definition httpclient_parser_code_2 :: "httpclient_parser_action block list" where
  "httpclient_parser_code_2 =
    [Trans 4 [Chunk_size] 3,
     Trans 10 [Write_field, Mark, Write_value] 3,
     Trans 16 [Write_value] 3,
     Trans 75 [Close] 3,
     State 3 False [(10, Tr 7)] [] (St 0),
     Trans 6 [Chunk_size] 4,
     Trans 12 [Write_field, Mark, Write_value] 4,
     Trans 18 [Write_value] 4,
     State 4 False [(33, Tr 8), (124, Tr 8), (126, Tr 8)] [(35, 39, Tr 8), (42, 43, Tr 8), (45, 46, Tr 8), (48, 57, Tr 8),
         (65, 90, Tr 8), (94, 122, Tr 8)] (St 0),
     Trans 8 [Start_field] 5]"

definition httpclient_parser_code_3 :: "httpclient_parser_action block list" where
  "httpclient_parser_code_3 =
    [State 5 False [(10, Tr 9), (13, Tr 10), (33, St 5), (59, Tr 12), (61, Tr 13), (124, St 5),
         (126, St 5)] [(35, 39, St 5), (42, 43, St 5), (45, 46, St 5), (48, 57, St 5), (65, 90, St 5),
         (94, 122, St 5)] (St 0),
     Trans 13 [Write_field, Mark] 6,
     State 6 False [(33, Tr 14), (124, Tr 14), (126, Tr 14)] [(35, 39, Tr 14), (42, 43, Tr 14), (45, 46, Tr 14),
         (48, 57, Tr 14), (65, 90, Tr 14), (94, 122, Tr 14)] (St 0),
     Trans 14 [Mark] 7,
     State 7 False [(10, Tr 15), (13, Tr 16), (33, St 7), (59, Tr 18), (124, St 7), (126, St 7)] [(35, 39, St 7),
         (42, 43, St 7), (45, 46, St 7), (48, 57, St 7), (65, 90, St 7), (94, 122, St 7)] (St 0),
     Trans 2 [Mark] 8,
     State 8 False [(84, St 9)] [] (St 0),
     State 9 False [(84, St 10)] [] (St 0),
     State 10 False [(80, St 11)] [] (St 0),
     State 11 False [(47, St 12)] [] (St 0),
     State 12 False [] [(48, 57, St 13)] (St 0),
     State 13 False [(46, St 14)] [(48, 57, St 13)] (St 0)]"

definition httpclient_parser_code_4 :: "httpclient_parser_action block list" where
  "httpclient_parser_code_4 =
    [State 14 False [] [(48, 57, St 15)] (St 0),
     State 15 False [(32, Tr 26)] [(48, 57, St 15)] (St 0),
     Trans 26 [Http_version] 16,
     State 16 False [] [(48, 57, Tr 27)] (St 0),
     Trans 27 [Mark] 17,
     State 17 False [(32, Tr 28)] [(48, 57, St 17)] (St 0),
     Trans 28 [Status_code] 18,
     State 18 False [(10, St 0)] [] (Tr 30),
     Trans 30 [Mark] 19,
     State 19 False [(10, Tr 32), (13, Tr 33)] [] (St 19),
     Trans 45 [Write_value] 20,
     Trans 32 [Reason_phrase] 20,
     Trans 42 [Mark, Write_value] 20,
     Trans 111 [Write_value, Chunked] 20,
     Trans 113 [Chunked] 20,
     Trans 158 [Write_content_len, Write_value] 20]"

definition httpclient_parser_code_5 :: "httpclient_parser_action block list" where
  "httpclient_parser_code_5 =
    [State 20 False [(10, Tr 7), (13, St 3), (33, Tr 35), (67, Tr 36), (84, Tr 37), (99, Tr 36), (116, Tr 37),
         (124, Tr 35), (126, Tr 35)] [(35, 39, Tr 35), (42, 43, Tr 35), (45, 46, Tr 35), (48, 57, Tr 35), (65, 90, Tr 35),
         (94, 122, Tr 35)] (St 0),
     Trans 35 [Start_field] 21,
     Trans 76 [Close, Start_field] 21,
     State 21 False [(33, St 21), (58, Tr 39), (124, St 21), (126, St 21)] [(35, 39, St 21), (42, 43, St 21),
         (45, 46, St 21), (48, 57, St 21), (65, 90, St 21), (94, 122, St 21)] (St 0),
     Trans 41 [Mark] 22,
     Trans 39 [Write_field] 22,
     State 22 False [(10, Tr 42), (13, Tr 43), (32, Tr 41)] [(9, 12, Tr 41)] (Tr 40),
     Trans 40 [Mark] 23,
     State 23 False [(10, Tr 45), (13, Tr 46)] [] (St 23),
     Trans 46 [Write_value] 24,
     Trans 33 [Reason_phrase] 24]"

definition httpclient_parser_code_6 :: "httpclient_parser_action block list" where
  "httpclient_parser_code_6 =
    [Trans 43 [Mark, Write_value] 24,
     Trans 159 [Write_content_len, Write_value] 24,
     State 24 False [(10, St 20)] [] (St 0),
     Trans 36 [Start_field] 25,
     Trans 77 [Close, Start_field] 25,
     State 25 False [(33, St 21), (58, Tr 39), (79, St 26), (111, St 26), (124, St 21), (126, St 21)] [(35, 39, St 21),
         (42, 43, St 21), (45, 46, St 21), (48, 57, St 21), (65, 90, St 21), (94, 122, St 21)] (St 0),
     State 26 False [(33, St 21), (58, Tr 39), (78, St 27), (110, St 27), (124, St 21), (126, St 21)] [(35, 39, St 21),
         (42, 43, St 21), (45, 46, St 21), (48, 57, St 21), (65, 90, St 21), (94, 122, St 21)] (St 0),
     State 27 False [(33, St 21), (58, Tr 39), (78, St 28), (84, St 101), (110, St 28), (116, St 101), (124, St 21),
         (126, St 21)] [(35, 39, St 21), (42, 43, St 21), (45, 46, St 21), (48, 57, St 21), (65, 90, St 21),
         (94, 122, St 21)] (St 0)]"

definition httpclient_parser_code_7 :: "httpclient_parser_action block list" where
  "httpclient_parser_code_7 =
    [State 28 False [(33, St 21), (58, Tr 39), (69, St 29), (101, St 29), (124, St 21), (126, St 21)] [(35, 39, St 21),
         (42, 43, St 21), (45, 46, St 21), (48, 57, St 21), (65, 90, St 21), (94, 122, St 21)] (St 0),
     State 29 False [(33, St 21), (58, Tr 39), (67, St 30), (99, St 30), (124, St 21), (126, St 21)] [(35, 39, St 21),
         (42, 43, St 21), (45, 46, St 21), (48, 57, St 21), (65, 90, St 21), (94, 122, St 21)] (St 0),
     State 30 False [(33, St 21), (58, Tr 39), (84, St 31), (116, St 31), (124, St 21), (126, St 21)] [(35, 39, St 21),
         (42, 43, St 21), (45, 46, St 21), (48, 57, St 21), (65, 90, St 21), (94, 122, St 21)] (St 0),
     State 31 False [(33, St 21), (58, Tr 39), (73, St 32), (105, St 32), (124, St 21), (126, St 21)] [(35, 39, St 21),
         (42, 43, St 21), (45, 46, St 21), (48, 57, St 21), (65, 90, St 21), (94, 122, St 21)] (St 0)]"

definition httpclient_parser_code_8 :: "httpclient_parser_action block list" where
  "httpclient_parser_code_8 =
    [State 32 False [(33, St 21), (58, Tr 39), (79, St 33), (111, St 33), (124, St 21), (126, St 21)] [(35, 39, St 21),
         (42, 43, St 21), (45, 46, St 21), (48, 57, St 21), (65, 90, St 21), (94, 122, St 21)] (St 0),
     State 33 False [(33, St 21), (58, Tr 39), (78, St 34), (110, St 34), (124, St 21), (126, St 21)] [(35, 39, St 21),
         (42, 43, St 21), (45, 46, St 21), (48, 57, St 21), (65, 90, St 21), (94, 122, St 21)] (St 0),
     State 34 False [(33, St 21), (58, Tr 58), (124, St 21), (126, St 21)] [(35, 39, St 21), (42, 43, St 21),
         (45, 46, St 21), (48, 57, St 21), (65, 90, St 21), (94, 122, St 21)] (St 0),
     Trans 59 [Mark] 35,
     Trans 58 [Write_field] 35,
     State 35 False [(10, Tr 60), (13, Tr 61), (32, Tr 59), (67, Tr 62), (99, Tr 62)] [(9, 12, Tr 59)] (Tr 40),
     Trans 60 [Mark, Write_value] 36]"

definition httpclient_parser_code_9 :: "httpclient_parser_action block list" where
  "httpclient_parser_code_9 =
    [State 36 False [(10, Tr 64), (13, St 89), (32, St 37), (33, Tr 35), (67, Tr 66), (84, Tr 37), (99, Tr 66),
         (116, Tr 37), (124, Tr 35), (126, Tr 35)] [(9, 12, St 37), (35, 39, Tr 35), (42, 43, Tr 35), (45, 46, Tr 35),
         (48, 57, Tr 35), (65, 90, Tr 35), (94, 122, Tr 35)] (St 0),
     State 37 False [(32, St 37), (67, St 38), (99, St 38)] [(9, 13, St 37)] (St 0),
     State 38 False [(76, St 39), (108, St 39)] [] (St 0),
     State 39 False [(79, St 40), (111, St 40)] [] (St 0),
     State 40 False [(83, St 41), (115, St 41)] [] (St 0),
     State 41 False [(69, St 42), (101, St 42)] [] (St 0),
     State 42 False [(10, St 43), (13, St 88)] [] (St 0),
     Trans 136 [Write_value] 43]"

definition httpclient_parser_code_10 :: "httpclient_parser_action block list" where
  "httpclient_parser_code_10 =
    [State 43 False [(10, Tr 74), (13, Tr 75), (33, Tr 76), (67, Tr 77), (84, Tr 78), (99, Tr 77), (116, Tr 78),
         (124, Tr 76), (126, Tr 76)] [(35, 39, Tr 76), (42, 43, Tr 76), (45, 46, Tr 76), (48, 57, Tr 76), (65, 90, Tr 76),
         (94, 122, Tr 76)] (St 0),
     Trans 37 [Start_field] 44,
     Trans 78 [Close, Start_field] 44,
     State 44 False [(33, St 21), (58, Tr 39), (82, St 45), (114, St 45), (124, St 21), (126, St 21)] [(35, 39, St 21),
         (42, 43, St 21), (45, 46, St 21), (48, 57, St 21), (65, 90, St 21), (94, 122, St 21)] (St 0),
     State 45 False [(33, St 21), (58, Tr 39), (65, St 46), (97, St 46), (124, St 21), (126, St 21)] [(35, 39, St 21),
         (42, 43, St 21), (45, 46, St 21), (48, 57, St 21), (66, 90, St 21), (94, 122, St 21)] (St 0),
     State 46 False [(33, St 21), (58, Tr 39), (78, St 47), (110, St 47), (124, St 21), (126, St 21)] [(35, 39, St 21),
         (42, 43, St 21), (45, 46, St 21), (48, 57, St 21), (65, 90, St 21), (94, 122, St 21)] (St 0)]"

definition httpclient_parser_code_11 :: "httpclient_parser_action block list" where
  "httpclient_parser_code_11 =
    [State 47 False [(33, St 21), (58, Tr 39), (83, St 48), (115, St 48), (124, St 21), (126, St 21)] [(35, 39, St 21),
         (42, 43, St 21), (45, 46, St 21), (48, 57, St 21), (65, 90, St 21), (94, 122, St 21)] (St 0),
     State 48 False [(33, St 21), (58, Tr 39), (70, St 49), (102, St 49), (124, St 21), (126, St 21)] [(35, 39, St 21),
         (42, 43, St 21), (45, 46, St 21), (48, 57, St 21), (65, 90, St 21), (94, 122, St 21)] (St 0),
     State 49 False [(33, St 21), (58, Tr 39), (69, St 50), (101, St 50), (124, St 21), (126, St 21)] [(35, 39, St 21),
         (42, 43, St 21), (45, 46, St 21), (48, 57, St 21), (65, 90, St 21), (94, 122, St 21)] (St 0),
     State 50 False [(33, St 21), (58, Tr 39), (82, St 51), (114, St 51), (124, St 21), (126, St 21)] [(35, 39, St 21),
         (42, 43, St 21), (45, 46, St 21), (48, 57, St 21), (65, 90, St 21), (94, 122, St 21)] (St 0)]"

definition httpclient_parser_code_12 :: "httpclient_parser_action block list" where
  "httpclient_parser_code_12 =
    [State 51 False [(33, St 21), (45, St 52), (46, St 21), (58, Tr 39), (124, St 21), (126, St 21)] [(35, 39, St 21),
         (42, 43, St 21), (48, 57, St 21), (65, 90, St 21), (94, 122, St 21)] (St 0),
     State 52 False [(33, St 21), (58, Tr 39), (69, St 53), (101, St 53), (124, St 21), (126, St 21)] [(35, 39, St 21),
         (42, 43, St 21), (45, 46, St 21), (48, 57, St 21), (65, 90, St 21), (94, 122, St 21)] (St 0),
     State 53 False [(33, St 21), (58, Tr 39), (78, St 54), (110, St 54), (124, St 21), (126, St 21)] [(35, 39, St 21),
         (42, 43, St 21), (45, 46, St 21), (48, 57, St 21), (65, 90, St 21), (94, 122, St 21)] (St 0),
     State 54 False [(33, St 21), (58, Tr 39), (67, St 55), (99, St 55), (124, St 21), (126, St 21)] [(35, 39, St 21),
         (42, 43, St 21), (45, 46, St 21), (48, 57, St 21), (65, 90, St 21), (94, 122, St 21)] (St 0)]"

definition httpclient_parser_code_13 :: "httpclient_parser_action block list" where
  "httpclient_parser_code_13 =
    [State 55 False [(33, St 21), (58, Tr 39), (79, St 56), (111, St 56), (124, St 21), (126, St 21)] [(35, 39, St 21),
         (42, 43, St 21), (45, 46, St 21), (48, 57, St 21), (65, 90, St 21), (94, 122, St 21)] (St 0),
     State 56 False [(33, St 21), (58, Tr 39), (68, St 57), (100, St 57), (124, St 21), (126, St 21)] [(35, 39, St 21),
         (42, 43, St 21), (45, 46, St 21), (48, 57, St 21), (65, 90, St 21), (94, 122, St 21)] (St 0),
     State 57 False [(33, St 21), (58, Tr 39), (73, St 58), (105, St 58), (124, St 21), (126, St 21)] [(35, 39, St 21),
         (42, 43, St 21), (45, 46, St 21), (48, 57, St 21), (65, 90, St 21), (94, 122, St 21)] (St 0),
     State 58 False [(33, St 21), (58, Tr 39), (78, St 59), (110, St 59), (124, St 21), (126, St 21)] [(35, 39, St 21),
         (42, 43, St 21), (45, 46, St 21), (48, 57, St 21), (65, 90, St 21), (94, 122, St 21)] (St 0)]"

definition httpclient_parser_code_14 :: "httpclient_parser_action block list" where
  "httpclient_parser_code_14 =
    [State 59 False [(33, St 21), (58, Tr 39), (71, St 60), (103, St 60), (124, St 21), (126, St 21)] [(35, 39, St 21),
         (42, 43, St 21), (45, 46, St 21), (48, 57, St 21), (65, 90, St 21), (94, 122, St 21)] (St 0),
     State 60 False [(33, St 21), (58, Tr 95), (124, St 21), (126, St 21)] [(35, 39, St 21), (42, 43, St 21),
         (45, 46, St 21), (48, 57, St 21), (65, 90, St 21), (94, 122, St 21)] (St 0),
     Trans 96 [Mark] 61,
     Trans 95 [Write_field] 61,
     State 61 False [(10, Tr 97), (13, Tr 98), (32, Tr 96), (67, Tr 99), (99, Tr 99)] [(9, 12, Tr 96)] (Tr 40),
     Trans 97 [Mark, Write_value] 62,
     State 62 False [(10, Tr 101), (13, St 72), (32, St 63), (33, Tr 35), (67, Tr 103), (84, Tr 37), (99, Tr 103),
         (116, Tr 37), (124, Tr 35), (126, Tr 35)] [(9, 12, St 63), (35, 39, Tr 35), (42, 43, Tr 35), (45, 46, Tr 35),
         (48, 57, Tr 35), (65, 90, Tr 35), (94, 122, Tr 35)] (St 0)]"

definition httpclient_parser_code_15 :: "httpclient_parser_action block list" where
  "httpclient_parser_code_15 =
    [State 63 False [(32, St 63), (67, Tr 104), (99, Tr 104)] [(9, 13, St 63)] (St 0),
     Trans 104 [Mark] 64,
     State 64 False [(72, St 65), (104, St 65)] [] (St 0),
     State 65 False [(85, St 66), (117, St 66)] [] (St 0),
     State 66 False [(78, St 67), (110, St 67)] [] (St 0),
     State 67 False [(75, St 68), (107, St 68)] [] (St 0),
     State 68 False [(69, St 69), (101, St 69)] [] (St 0),
     State 69 False [(68, St 70), (100, St 70)] [] (St 0),
     State 70 False [(10, Tr 111), (13, Tr 112)] [] (St 0),
     Trans 112 [Write_value] 71,
     State 71 False [(10, Tr 113)] [] (St 0),
     Trans 101 [Done 121] 121,
     State 121 False [(32, St 63), (67, Tr 104), (99, Tr 104)] [(9, 13, St 63)] (St 0),
     State 72 False [(10, Tr 101), (32, St 63), (67, Tr 104), (99, Tr 104)] [(9, 13, St 63)] (St 0)]"

definition httpclient_parser_code_16 :: "httpclient_parser_action block list" where
  "httpclient_parser_code_16 =
    [Trans 103 [Mark, Start_field] 73,
     State 73 False [(33, St 21), (58, Tr 39), (72, St 74), (79, St 26), (104, St 74), (111, St 26), (124, St 21),
         (126, St 21)] [(35, 39, St 21), (42, 43, St 21), (45, 46, St 21), (48, 57, St 21), (65, 90, St 21),
         (94, 122, St 21)] (St 0),
     State 74 False [(33, St 21), (58, Tr 39), (85, St 75), (117, St 75), (124, St 21), (126, St 21)] [(35, 39, St 21),
         (42, 43, St 21), (45, 46, St 21), (48, 57, St 21), (65, 90, St 21), (94, 122, St 21)] (St 0),
     State 75 False [(33, St 21), (58, Tr 39), (78, St 76), (110, St 76), (124, St 21), (126, St 21)] [(35, 39, St 21),
         (42, 43, St 21), (45, 46, St 21), (48, 57, St 21), (65, 90, St 21), (94, 122, St 21)] (St 0),
     State 76 False [(33, St 21), (58, Tr 39), (75, St 77), (107, St 77), (124, St 21), (126, St 21)] [(35, 39, St 21),
         (42, 43, St 21), (45, 46, St 21), (48, 57, St 21), (65, 90, St 21), (94, 122, St 21)] (St 0)]"

definition httpclient_parser_code_17 :: "httpclient_parser_action block list" where
  "httpclient_parser_code_17 =
    [State 77 False [(33, St 21), (58, Tr 39), (69, St 78), (101, St 78), (124, St 21), (126, St 21)] [(35, 39, St 21),
         (42, 43, St 21), (45, 46, St 21), (48, 57, St 21), (65, 90, St 21), (94, 122, St 21)] (St 0),
     State 78 False [(33, St 21), (58, Tr 39), (68, St 79), (100, St 79), (124, St 21), (126, St 21)] [(35, 39, St 21),
         (42, 43, St 21), (45, 46, St 21), (48, 57, St 21), (65, 90, St 21), (94, 122, St 21)] (St 0),
     State 79 False [(10, Tr 111), (13, Tr 112), (33, St 21), (58, Tr 39), (124, St 21), (126, St 21)] [(35, 39, St 21),
         (42, 43, St 21), (45, 46, St 21), (48, 57, St 21), (65, 90, St 21), (94, 122, St 21)] (St 0),
     Trans 98 [Mark, Write_value] 80,
     State 80 False [(10, St 62), (32, St 63), (67, Tr 104), (99, Tr 104)] [(9, 13, St 63)] (St 0),
     Trans 99 [Mark] 81,
     State 81 False [(10, Tr 45), (13, Tr 46), (72, St 82), (104, St 82)] [] (St 23)]"

definition httpclient_parser_code_18 :: "httpclient_parser_action block list" where
  "httpclient_parser_code_18 =
    [State 82 False [(10, Tr 45), (13, Tr 46), (85, St 83), (117, St 83)] [] (St 23),
     State 83 False [(10, Tr 45), (13, Tr 46), (78, St 84), (110, St 84)] [] (St 23),
     State 84 False [(10, Tr 45), (13, Tr 46), (75, St 85), (107, St 85)] [] (St 23),
     State 85 False [(10, Tr 45), (13, Tr 46), (69, St 86), (101, St 86)] [] (St 23),
     State 86 False [(10, Tr 45), (13, Tr 46), (68, St 87), (100, St 87)] [] (St 23),
     State 87 False [(10, Tr 111), (13, Tr 112)] [] (St 23),
     Trans 137 [Write_value] 88,
     State 88 False [(10, St 43)] [] (St 0),
     Trans 64 [Done 122] 122,
     State 122 False [(32, St 37), (67, St 38), (99, St 38)] [(9, 13, St 37)] (St 0),
     State 89 False [(10, Tr 64), (32, St 37), (67, St 38), (99, St 38)] [(9, 13, St 37)] (St 0),
     Trans 66 [Start_field] 90]"

definition httpclient_parser_code_19 :: "httpclient_parser_action block list" where
  "httpclient_parser_code_19 =
    [State 90 False [(33, St 21), (58, Tr 39), (76, St 91), (79, St 26), (108, St 91), (111, St 26), (124, St 21),
         (126, St 21)] [(35, 39, St 21), (42, 43, St 21), (45, 46, St 21), (48, 57, St 21), (65, 90, St 21),
         (94, 122, St 21)] (St 0),
     State 91 False [(33, St 21), (58, Tr 39), (79, St 92), (111, St 92), (124, St 21), (126, St 21)] [(35, 39, St 21),
         (42, 43, St 21), (45, 46, St 21), (48, 57, St 21), (65, 90, St 21), (94, 122, St 21)] (St 0),
     State 92 False [(33, St 21), (58, Tr 39), (83, St 93), (115, St 93), (124, St 21), (126, St 21)] [(35, 39, St 21),
         (42, 43, St 21), (45, 46, St 21), (48, 57, St 21), (65, 90, St 21), (94, 122, St 21)] (St 0),
     State 93 False [(33, St 21), (58, Tr 39), (69, St 94), (101, St 94), (124, St 21), (126, St 21)] [(35, 39, St 21),
         (42, 43, St 21), (45, 46, St 21), (48, 57, St 21), (65, 90, St 21), (94, 122, St 21)] (St 0)]"

definition httpclient_parser_code_20 :: "httpclient_parser_action block list" where
  "httpclient_parser_code_20 =
    [State 94 False [(10, St 43), (13, St 88), (33, St 21), (58, Tr 39), (124, St 21), (126, St 21)] [(35, 39, St 21),
         (42, 43, St 21), (45, 46, St 21), (48, 57, St 21), (65, 90, St 21), (94, 122, St 21)] (St 0),
     Trans 61 [Mark, Write_value] 95,
     State 95 False [(10, St 36), (32, St 37), (67, St 38), (99, St 38)] [(9, 13, St 37)] (St 0),
     Trans 62 [Mark] 96,
     State 96 False [(10, Tr 45), (13, Tr 46), (76, St 97), (108, St 97)] [] (St 23),
     State 97 False [(10, Tr 45), (13, Tr 46), (79, St 98), (111, St 98)] [] (St 23),
     State 98 False [(10, Tr 45), (13, Tr 46), (83, St 99), (115, St 99)] [] (St 23),
     State 99 False [(10, Tr 45), (13, Tr 46), (69, St 100), (101, St 100)] [] (St 23),
     State 100 False [(10, Tr 136), (13, Tr 137)] [] (St 23)]"

definition httpclient_parser_code_21 :: "httpclient_parser_action block list" where
  "httpclient_parser_code_21 =
    [State 101 False [(33, St 21), (58, Tr 39), (69, St 102), (101, St 102), (124, St 21), (126, St 21)] [(35, 39, St 21),
         (42, 43, St 21), (45, 46, St 21), (48, 57, St 21), (65, 90, St 21), (94, 122, St 21)] (St 0),
     State 102 False [(33, St 21), (58, Tr 39), (78, St 103), (110, St 103), (124, St 21), (126, St 21)] [(35, 39, St 21),
         (42, 43, St 21), (45, 46, St 21), (48, 57, St 21), (65, 90, St 21), (94, 122, St 21)] (St 0),
     State 103 False [(33, St 21), (58, Tr 39), (84, St 104), (116, St 104), (124, St 21), (126, St 21)] [(35, 39, St 21),
         (42, 43, St 21), (45, 46, St 21), (48, 57, St 21), (65, 90, St 21), (94, 122, St 21)] (St 0),
     State 104 False [(33, St 21), (45, St 105), (46, St 21), (58, Tr 39), (124, St 21), (126, St 21)] [(35, 39, St 21),
         (42, 43, St 21), (48, 57, St 21), (65, 90, St 21), (94, 122, St 21)] (St 0)]"

definition httpclient_parser_code_22 :: "httpclient_parser_action block list" where
  "httpclient_parser_code_22 =
    [State 105 False [(33, St 21), (58, Tr 39), (76, St 106), (108, St 106), (124, St 21), (126, St 21)] [(35, 39, St 21),
         (42, 43, St 21), (45, 46, St 21), (48, 57, St 21), (65, 90, St 21), (94, 122, St 21)] (St 0),
     State 106 False [(33, St 21), (58, Tr 39), (69, St 107), (101, St 107), (124, St 21), (126, St 21)] [(35, 39, St 21),
         (42, 43, St 21), (45, 46, St 21), (48, 57, St 21), (65, 90, St 21), (94, 122, St 21)] (St 0),
     State 107 False [(33, St 21), (58, Tr 39), (78, St 108), (110, St 108), (124, St 21), (126, St 21)] [(35, 39, St 21),
         (42, 43, St 21), (45, 46, St 21), (48, 57, St 21), (65, 90, St 21), (94, 122, St 21)] (St 0),
     State 108 False [(33, St 21), (58, Tr 39), (71, St 109), (103, St 109), (124, St 21), (126, St 21)] [(35, 39, St 21),
         (42, 43, St 21), (45, 46, St 21), (48, 57, St 21), (65, 90, St 21), (94, 122, St 21)] (St 0)]"

definition httpclient_parser_code_23 :: "httpclient_parser_action block list" where
  "httpclient_parser_code_23 =
    [State 109 False [(33, St 21), (58, Tr 39), (84, St 110), (116, St 110), (124, St 21), (126, St 21)] [(35, 39, St 21),
         (42, 43, St 21), (45, 46, St 21), (48, 57, St 21), (65, 90, St 21), (94, 122, St 21)] (St 0),
     State 110 False [(33, St 21), (58, Tr 39), (72, St 111), (104, St 111), (124, St 21), (126, St 21)] [(35, 39, St 21),
         (42, 43, St 21), (45, 46, St 21), (48, 57, St 21), (65, 90, St 21), (94, 122, St 21)] (St 0),
     State 111 False [(33, St 21), (58, Tr 148), (124, St 21), (126, St 21)] [(35, 39, St 21), (42, 43, St 21),
         (45, 46, St 21), (48, 57, St 21), (65, 90, St 21), (94, 122, St 21)] (St 0),
     Trans 149 [Mark] 112,
     Trans 148 [Write_field] 112,
     State 112 False [(10, Tr 150), (13, Tr 151), (32, Tr 149)] [(9, 12, Tr 149), (48, 57, Tr 152)] (Tr 40),
     Trans 150 [Mark, Write_value] 113]"

definition httpclient_parser_code_24 :: "httpclient_parser_action block list" where
  "httpclient_parser_code_24 =
    [State 113 False [(10, Tr 154), (13, St 116), (32, St 114), (33, Tr 35), (67, Tr 36), (84, Tr 37), (99, Tr 36),
         (116, Tr 37), (124, Tr 35), (126, Tr 35)] [(9, 12, St 114), (35, 39, Tr 35), (42, 43, Tr 35), (45, 46, Tr 35),
         (48, 57, Tr 156), (65, 90, Tr 35), (94, 122, Tr 35)] (St 0),
     State 114 False [(32, St 114)] [(9, 13, St 114), (48, 57, Tr 157)] (St 0),
     Trans 157 [Mark] 115,
     State 115 False [(10, Tr 158), (13, Tr 159)] [(48, 57, St 115)] (St 0),
     Trans 154 [Done 123] 123,
     State 123 False [(32, St 114)] [(9, 13, St 114), (48, 57, Tr 157)] (St 0),
     State 116 False [(10, Tr 154), (32, St 114)] [(9, 13, St 114), (48, 57, Tr 157)] (St 0),
     Trans 156 [Mark, Start_field] 117,
     State 117 False [(10, Tr 158), (13, Tr 159), (33, St 21), (58, Tr 39), (124, St 21), (126, St 21)] [(35, 39, St 21),
         (42, 43, St 21), (45, 46, St 21), (48, 57, St 117), (65, 90, St 21), (94, 122, St 21)] (St 0)]"

definition httpclient_parser_code_25 :: "httpclient_parser_action block list" where
  "httpclient_parser_code_25 =
    [Trans 151 [Mark, Write_value] 118,
     State 118 False [(10, St 113), (32, St 114)] [(9, 13, St 114), (48, 57, Tr 157)] (St 0),
     Trans 152 [Mark] 119,
     State 119 False [(10, Tr 158), (13, Tr 159)] [(48, 57, St 119)] (St 23)]"

definition httpclient_parser_parts :: "httpclient_parser_action block list list" where
  "httpclient_parser_parts =
    [httpclient_parser_code_1, httpclient_parser_code_2, httpclient_parser_code_3, httpclient_parser_code_4, httpclient_parser_code_5,
     httpclient_parser_code_6, httpclient_parser_code_7, httpclient_parser_code_8, httpclient_parser_code_9, httpclient_parser_code_10,
     httpclient_parser_code_11, httpclient_parser_code_12, httpclient_parser_code_13, httpclient_parser_code_14, httpclient_parser_code_15,
     httpclient_parser_code_16, httpclient_parser_code_17, httpclient_parser_code_18, httpclient_parser_code_19, httpclient_parser_code_20,
     httpclient_parser_code_21, httpclient_parser_code_22, httpclient_parser_code_23, httpclient_parser_code_24, httpclient_parser_code_25]"

definition httpclient_parser_code :: "httpclient_parser_action block list" where
  "httpclient_parser_code = concat httpclient_parser_parts"

lemmas httpclient_parser_code_parts =
  httpclient_parser_parts_def
  httpclient_parser_code_1_def httpclient_parser_code_2_def httpclient_parser_code_3_def httpclient_parser_code_4_def
  httpclient_parser_code_5_def httpclient_parser_code_6_def httpclient_parser_code_7_def httpclient_parser_code_8_def
  httpclient_parser_code_9_def httpclient_parser_code_10_def httpclient_parser_code_11_def httpclient_parser_code_12_def
  httpclient_parser_code_13_def httpclient_parser_code_14_def httpclient_parser_code_15_def httpclient_parser_code_16_def
  httpclient_parser_code_17_def httpclient_parser_code_18_def httpclient_parser_code_19_def httpclient_parser_code_20_def
  httpclient_parser_code_21_def httpclient_parser_code_22_def httpclient_parser_code_23_def httpclient_parser_code_24_def
  httpclient_parser_code_25_def

end
