(* ===== verification/HttpClient.thy ===== *)
theory HttpClient
  imports HttpClientCode
begin

text \<open>
  The response parser (\<open>http/httpclient_parser.h\<close>, \<open>http/httpclient_parser.cc\<close>): its struct, its actions and the
  functions around the generated code, in the style of the request parser. The theorems say that it runs over
  every buffer that ends in a zero byte, and what of its callbacks stays inside the buffer.
\<close>

section \<open>The parser\<close>

datatype client_cb =
    reason_phrase_cb | status_code_cb | chunk_size_cb | http_version_cb | header_done_cb | last_chunk_cb | http_field_cb

text \<open>The callback pointers are the set of those that are not null. The data pointer is left out.\<close>

record httpclient_parser =
  cs :: nat
  body_start :: nat
  content_len :: int
  status :: int
  chunked :: int
  chunks_done :: int
  close :: int
  nread :: nat
  mark :: nat
  field_start :: nat
  field_len :: nat
  callbacks :: "client_cb set"

type_synonym client_call = "client_cb call"

definition httpclient_parser_start :: nat where
  "httpclient_parser_start = 1"

definition httpclient_parser_first_final :: nat where
  "httpclient_parser_first_final = 120"

definition httpclient_parser_error :: nat where
  "httpclient_parser_error = 0"

definition httpclient_parser_init :: "httpclient_parser \<Rightarrow> httpclient_parser" where
  "httpclient_parser_init parser =
     parser\<lparr>cs := httpclient_parser_start, body_start := 0, content_len := - 1, chunked := 0, chunks_done := 0, mark := 0, nread := 0,
       field_len := 0, field_start := 0, close := 0\<rparr>"

section \<open>Actions\<close>

text \<open>\<open>strtol\<close> for the bases 10 and 16, which stops at the bounds of a \<open>long\<close>, converted to an \<open>int\<close>.\<close>

definition digit_value :: "char \<Rightarrow> nat" where
  "digit_value c =
     (let n = (of_char c :: nat)
      in if 48 \<le> n \<and> n \<le> 57 then n - 48 else if 65 \<le> n \<and> n \<le> 90 then n - 55 else if 97 \<le> n \<and> n \<le> 122 then n - 87 else 99)"

definition strtol :: "nat \<Rightarrow> string \<Rightarrow> int" where
  "strtol base s =
     (let s = dropWhile (\<lambda>c. c = CHR '' '' \<or> 9 \<le> (of_char c :: nat) \<and> (of_char c :: nat) \<le> 13) s;
          neg = (s \<noteq> [] \<and> hd s = CHR ''-'');
          s = (if s \<noteq> [] \<and> (hd s = CHR ''-'' \<or> hd s = CHR ''+'') then tl s else s);
          s = (case s of
                 z # x # d # r \<Rightarrow> if base = 16 \<and> z = CHR ''0'' \<and> (x = CHR ''x'' \<or> x = CHR ''X'') \<and> digit_value d < 16 then d # r else s
               | _ \<Rightarrow> s);
          n = foldl (\<lambda>n c. int base * n + int (digit_value c)) 0 (takeWhile (\<lambda>c. digit_value c < base) s);
          n = (if neg then max (- n) (- (2 ^ 63)) else min n (2 ^ 63 - 1))
      in sint (of_int n :: 32 word))"

type_synonym client_world = "httpclient_parser \<times> client_call list"

definition element :: "client_cb \<Rightarrow> nat \<Rightarrow> nat \<Rightarrow> client_world \<Rightarrow> client_world" where
  "element cb at n w = (case w of (parser, calls) \<Rightarrow> (parser, if cb \<in> callbacks parser then calls @ [Element cb at n] else calls))"

definition chunk_size_action :: "string \<Rightarrow> nat \<Rightarrow> client_world \<Rightarrow> client_world" where
  "chunk_size_action buffer p w =
     (case w of (parser, calls) \<Rightarrow>
        let n = strtol 16 (drop (mark parser) buffer); last = n \<le> 0;
            parser = parser\<lparr>chunked := 1, content_len := n, chunks_done := (if last then 1 else 0)\<rparr>;
            cb = (if last \<and> last_chunk_cb \<in> callbacks parser then last_chunk_cb else chunk_size_cb)
        in element cb (mark parser) (len_from (mark parser) p) (parser, calls))"

text \<open>The number is read from the mark on; the text ends in the zero byte after the buffer at the latest.\<close>

fun client_act :: "string \<Rightarrow> httpclient_parser_action \<Rightarrow> nat \<Rightarrow> client_world \<Rightarrow> client_world" where
  "client_act b Mark p (parser, calls) = (parser\<lparr>mark := p\<rparr>, calls)"
| "client_act b Start_field p (parser, calls) = (parser\<lparr>field_start := p\<rparr>, calls)"
| "client_act b Write_field p (parser, calls) = (parser\<lparr>field_len := len_from (field_start parser) p\<rparr>, calls)"
| "client_act b Write_value p (parser, calls) =
     (parser, if http_field_cb \<in> callbacks parser
              then calls @ [Field (field_start parser) (field_len parser) (mark parser) (len_from (mark parser) p)] else calls)"
| "client_act b Reason_phrase p (parser, calls) = element reason_phrase_cb (mark parser) (len_from (mark parser) p) (parser, calls)"
| "client_act b Status_code p (parser, calls) =
     element status_code_cb (mark parser) (len_from (mark parser) p) (parser\<lparr>status := strtol 10 (drop (mark parser) b)\<rparr>, calls)"
| "client_act b Http_version p (parser, calls) = element http_version_cb (mark parser) (len_from (mark parser) p) (parser, calls)"
| "client_act b Close p (parser, calls) = (parser\<lparr>close := 1\<rparr>, calls)"
| "client_act b Chunked p (parser, calls) = (parser\<lparr>chunked := 1\<rparr>, calls)"
| "client_act b Write_content_len p (parser, calls) = (parser\<lparr>content_len := strtol 10 (drop (mark parser) b)\<rparr>, calls)"
| "client_act b Chunk_size p w = chunk_size_action b p w"
| "client_act b (Done k) p (parser, calls) =
     element header_done_cb (p + 1) (length b - p - 1) (parser\<lparr>body_start := p + 1\<rparr>, calls)"

fun client_brk :: "httpclient_parser_action \<Rightarrow> nat option" where
  "client_brk (Done k) = Some k"
| "client_brk _ = None"

section \<open>Execution\<close>

definition httpclient_parser_exec :: "httpclient_parser \<Rightarrow> string \<Rightarrow> nat \<Rightarrow> parser_fault + nat \<times> nat \<times> client_world" where
  "httpclient_parser_exec parser buffer off =
     (case ragel_run httpclient_parser_code (client_act buffer) client_brk False off (drop off buffer) (cs parser) (parser, [])
      of Inl NoLabel \<Rightarrow> Inl Label | Inr r \<Rightarrow> Inr r)"

text \<open>The byte after the buffer, \<open>at_pe\<close>, has to be zero. A failed check returns \<open>-1\<close>.\<close>

definition httpclient_parser_execute ::
  "httpclient_parser \<Rightarrow> string \<Rightarrow> char \<Rightarrow> nat \<Rightarrow> parser_fault + httpclient_parser \<times> int \<times> client_call list" where
  "httpclient_parser_execute parser buffer at_pe off =
     (let len = length buffer; parser = parser\<lparr>nread := 0, mark := 0, field_len := 0, field_start := 0\<rparr>
      in if \<not> off \<le> len then Inl (Assertion ''offset past end of buffer'')
         else if at_pe \<noteq> CHR 0x00 then Inl (Assertion ''pointer does not end on NUL'')
         else if int (len - off) \<noteq> to_int len - to_int off then Inl (Assertion ''pointers aren't same distance'')
         else bindr (httpclient_parser_exec parser buffer off) (\<lambda>(cs', p, parser, calls).
           let parser = parser\<lparr>cs := cs', nread := nread parser + (p - off)\<rparr>
           in if \<not> p \<le> len then Inl (Assertion ''buffer overflow after parsing execute'')
              else if \<not> nread parser \<le> len then Inl (Assertion ''nread longer than length'')
              else if \<not> body_start parser \<le> len then Inl (Assertion ''body starts after buffer end'')
              else if \<not> mark parser < len \<or> \<not> field_len parser \<le> len \<or> \<not> field_start parser < len then Inr (parser, - 1, calls)
              else Inr (parser, int (nread parser), calls)))"

definition httpclient_parser_has_error :: "httpclient_parser \<Rightarrow> bool" where
  "httpclient_parser_has_error parser \<longleftrightarrow> cs parser = httpclient_parser_error"

definition httpclient_parser_is_finished :: "httpclient_parser \<Rightarrow> bool" where
  "httpclient_parser_is_finished parser \<longleftrightarrow> cs parser = httpclient_parser_first_final"

definition httpclient_parser_finish :: "httpclient_parser \<Rightarrow> int" where
  "httpclient_parser_finish parser =
     (if httpclient_parser_has_error parser then - 1 else if httpclient_parser_is_finished parser then 1 else 0)"

section \<open>The code is closed\<close>

definition httpclient_parser_transitions :: "(nat \<times> httpclient_parser_action list \<times> nat) list" where
  "httpclient_parser_transitions =
    [(0, [Mark], 2), (3, [Chunk_size, Done 120], 120), (7, [Done 120], 120),
     (9, [Write_field, Mark, Write_value, Done 120], 120), (15, [Write_value, Done 120], 120),
     (74, [Close, Done 120], 120), (4, [Chunk_size], 3), (10, [Write_field, Mark, Write_value], 3),
     (16, [Write_value], 3), (75, [Close], 3), (6, [Chunk_size], 4), (12, [Write_field, Mark, Write_value], 4),
     (18, [Write_value], 4), (8, [Start_field], 5), (13, [Write_field, Mark], 6), (14, [Mark], 7), (2, [Mark], 8),
     (26, [Http_version], 16), (27, [Mark], 17), (28, [Status_code], 18), (30, [Mark], 19), (45, [Write_value], 20),
     (32, [Reason_phrase], 20), (42, [Mark, Write_value], 20), (111, [Write_value, Chunked], 20), (113, [Chunked], 20),
     (158, [Write_content_len, Write_value], 20), (35, [Start_field], 21), (76, [Close, Start_field], 21),
     (41, [Mark], 22), (39, [Write_field], 22), (40, [Mark], 23), (46, [Write_value], 24), (33, [Reason_phrase], 24),
     (43, [Mark, Write_value], 24), (159, [Write_content_len, Write_value], 24), (36, [Start_field], 25),
     (77, [Close, Start_field], 25), (59, [Mark], 35), (58, [Write_field], 35), (60, [Mark, Write_value], 36),
     (136, [Write_value], 43), (37, [Start_field], 44), (78, [Close, Start_field], 44), (96, [Mark], 61),
     (95, [Write_field], 61), (97, [Mark, Write_value], 62), (104, [Mark], 64), (112, [Write_value], 71),
     (101, [Done 121], 121), (103, [Mark, Start_field], 73), (98, [Mark, Write_value], 80), (99, [Mark], 81),
     (137, [Write_value], 88), (64, [Done 122], 122), (66, [Start_field], 90), (61, [Mark, Write_value], 95),
     (62, [Mark], 96), (149, [Mark], 112), (148, [Write_field], 112), (150, [Mark, Write_value], 113),
     (157, [Mark], 115), (154, [Done 123], 123), (156, [Mark, Start_field], 117), (151, [Mark, Write_value], 118),
     (152, [Mark], 119)]"

lemma client_lookup:
  "map_of httpclient_parser_transitions 0 = Some ([Mark], 2)" "map_of httpclient_parser_transitions 2 = Some ([Mark], 8)"
  "map_of httpclient_parser_transitions 3 = Some ([Chunk_size, Done 120], 120)"
  "map_of httpclient_parser_transitions 4 = Some ([Chunk_size], 3)"
  "map_of httpclient_parser_transitions 6 = Some ([Chunk_size], 4)"
  "map_of httpclient_parser_transitions 7 = Some ([Done 120], 120)"
  "map_of httpclient_parser_transitions 8 = Some ([Start_field], 5)"
  "map_of httpclient_parser_transitions 9 = Some ([Write_field, Mark, Write_value, Done 120], 120)"
  "map_of httpclient_parser_transitions 10 = Some ([Write_field, Mark, Write_value], 3)"
  "map_of httpclient_parser_transitions 12 = Some ([Write_field, Mark, Write_value], 4)"
  "map_of httpclient_parser_transitions 13 = Some ([Write_field, Mark], 6)"
  "map_of httpclient_parser_transitions 14 = Some ([Mark], 7)"
  "map_of httpclient_parser_transitions 15 = Some ([Write_value, Done 120], 120)"
  "map_of httpclient_parser_transitions 16 = Some ([Write_value], 3)"
  "map_of httpclient_parser_transitions 18 = Some ([Write_value], 4)"
  "map_of httpclient_parser_transitions 26 = Some ([Http_version], 16)"
  "map_of httpclient_parser_transitions 27 = Some ([Mark], 17)"
  "map_of httpclient_parser_transitions 28 = Some ([Status_code], 18)"
  "map_of httpclient_parser_transitions 30 = Some ([Mark], 19)"
  "map_of httpclient_parser_transitions 32 = Some ([Reason_phrase], 20)"
  "map_of httpclient_parser_transitions 33 = Some ([Reason_phrase], 24)"
  "map_of httpclient_parser_transitions 35 = Some ([Start_field], 21)"
  "map_of httpclient_parser_transitions 36 = Some ([Start_field], 25)"
  "map_of httpclient_parser_transitions 37 = Some ([Start_field], 44)"
  "map_of httpclient_parser_transitions 39 = Some ([Write_field], 22)"
  "map_of httpclient_parser_transitions 40 = Some ([Mark], 23)" "map_of httpclient_parser_transitions 41 = Some ([Mark], 22)"
  "map_of httpclient_parser_transitions 42 = Some ([Mark, Write_value], 20)"
  "map_of httpclient_parser_transitions 43 = Some ([Mark, Write_value], 24)"
  "map_of httpclient_parser_transitions 45 = Some ([Write_value], 20)"
  "map_of httpclient_parser_transitions 46 = Some ([Write_value], 24)"
  "map_of httpclient_parser_transitions 58 = Some ([Write_field], 35)"
  "map_of httpclient_parser_transitions 59 = Some ([Mark], 35)"
  "map_of httpclient_parser_transitions 60 = Some ([Mark, Write_value], 36)"
  "map_of httpclient_parser_transitions 61 = Some ([Mark, Write_value], 95)"
  "map_of httpclient_parser_transitions 62 = Some ([Mark], 96)" "map_of httpclient_parser_transitions 64 = Some ([Done 122], 122)"
  "map_of httpclient_parser_transitions 66 = Some ([Start_field], 90)"
  "map_of httpclient_parser_transitions 74 = Some ([Close, Done 120], 120)"
  "map_of httpclient_parser_transitions 75 = Some ([Close], 3)"
  "map_of httpclient_parser_transitions 76 = Some ([Close, Start_field], 21)"
  "map_of httpclient_parser_transitions 77 = Some ([Close, Start_field], 25)"
  "map_of httpclient_parser_transitions 78 = Some ([Close, Start_field], 44)"
  "map_of httpclient_parser_transitions 95 = Some ([Write_field], 61)"
  "map_of httpclient_parser_transitions 96 = Some ([Mark], 61)"
  "map_of httpclient_parser_transitions 97 = Some ([Mark, Write_value], 62)"
  "map_of httpclient_parser_transitions 98 = Some ([Mark, Write_value], 80)"
  "map_of httpclient_parser_transitions 99 = Some ([Mark], 81)"
  "map_of httpclient_parser_transitions 101 = Some ([Done 121], 121)"
  "map_of httpclient_parser_transitions 103 = Some ([Mark, Start_field], 73)"
  "map_of httpclient_parser_transitions 104 = Some ([Mark], 64)"
  "map_of httpclient_parser_transitions 111 = Some ([Write_value, Chunked], 20)"
  "map_of httpclient_parser_transitions 112 = Some ([Write_value], 71)"
  "map_of httpclient_parser_transitions 113 = Some ([Chunked], 20)"
  "map_of httpclient_parser_transitions 136 = Some ([Write_value], 43)"
  "map_of httpclient_parser_transitions 137 = Some ([Write_value], 88)"
  "map_of httpclient_parser_transitions 148 = Some ([Write_field], 112)"
  "map_of httpclient_parser_transitions 149 = Some ([Mark], 112)"
  "map_of httpclient_parser_transitions 150 = Some ([Mark, Write_value], 113)"
  "map_of httpclient_parser_transitions 151 = Some ([Mark, Write_value], 118)"
  "map_of httpclient_parser_transitions 152 = Some ([Mark], 119)"
  "map_of httpclient_parser_transitions 154 = Some ([Done 123], 123)"
  "map_of httpclient_parser_transitions 156 = Some ([Mark, Start_field], 117)"
  "map_of httpclient_parser_transitions 157 = Some ([Mark], 115)"
  "map_of httpclient_parser_transitions 158 = Some ([Write_content_len, Write_value], 20)"
  "map_of httpclient_parser_transitions 159 = Some ([Write_content_len, Write_value], 24)"
  by (simp_all add: httpclient_parser_transitions_def)

lemmas httpclient_parser_eval = httpclient_parser_code_def httpclient_parser_code_parts

lemma httpclient_parser_states:
  "state_nums httpclient_parser_code = 1 # 2 # 120 # [3..<72] @ [121] @ [72..<89] @ [122] @ [89..<116] @ [123] @ [116..<120]"
  by (simp add: httpclient_parser_eval)

lemma httpclient_parser_trans_list: "trans_list httpclient_parser_code = httpclient_parser_transitions"
  by (simp add: httpclient_parser_eval httpclient_parser_transitions_def)

lemma httpclient_parser_trans: "find_transition httpclient_parser_code t = map_of httpclient_parser_transitions t"
  by (simp add: find_transition_list httpclient_parser_trans_list)

lemma httpclient_parser_state: "find_state httpclient_parser_code n \<noteq> None \<longleftrightarrow> 1 \<le> n \<and> n \<le> 123"
  unfolding find_state_num httpclient_parser_states list.set set_append set_upt Un_iff insert_iff atLeastLessThan_iff empty_iff by presburger

lemma httpclient_parser_blocks:
  "list_all (block_in (\<lambda>k. 1 \<le> k \<and> k \<le> 123) (\<lambda>t. map_of httpclient_parser_transitions t \<noteq> None)) httpclient_parser_code"
  by (simp add: httpclient_parser_eval client_lookup)

lemma httpclient_parser_closed: "list_all (block_ok httpclient_parser_code) httpclient_parser_code"
  using httpclient_parser_blocks
  by (rule list.pred_mono_strong) (erule block_ok_in [rotated 2]; auto simp only: httpclient_parser_state httpclient_parser_trans)

interpretation cp: ragel_machine httpclient_parser_code "client_act b" client_brk for b
  by unfold_locales (rule httpclient_parser_closed)

section \<open>Execution over every buffer\<close>

text \<open>The ranges that stay inside the buffer: all but the names of fields.\<close>

fun value_in :: "nat \<Rightarrow> client_call \<Rightarrow> bool" where
  "value_in len (Element cb at n) \<longleftrightarrow> at + n \<le> len"
| "value_in len (Field f n v m) \<longleftrightarrow> f < len \<and> n \<le> len \<and> v + m \<le> len"

definition client_ok :: "nat \<Rightarrow> nat \<Rightarrow> client_world \<Rightarrow> bool" where
  "client_ok len p w \<longleftrightarrow>
     (case w of (parser, calls) \<Rightarrow>
        p \<le> len \<and> mark parser \<le> p \<and> mark parser < len \<and> field_start parser \<le> p \<and> field_start parser < len
        \<and> field_len parser \<le> len \<and> body_start parser \<le> len \<and> nread parser = 0 \<and> list_all (value_in len) calls)"

lemma client_act_ok:
  assumes "client_ok len p w" "p < len" "len = length b"
  shows "client_ok len p (client_act b a p w)"
proof -
  obtain parser calls where w: "w = (parser, calls)" by fastforce
  show ?thesis
    using assms unfolding w
    by (cases a) (auto simp: client_ok_def len_from_def element_def chunk_size_action_def Let_def)
qed

lemma client_move_ok:
  assumes "client_ok len p w" "p < len" "len = length b" "ragel_move httpclient_parser_code (client_act b) client_brk False p c n w = Inr m"
  shows "case m of Next k w' \<Rightarrow> client_ok len (p + 1) w' | Break k w' \<Rightarrow> client_ok len (p + 1) w'
     | Stop w' \<Rightarrow> client_ok len p w' | Unmatched w' \<Rightarrow> client_ok len p w'"
  by (rule move_keeps [where K = "client_ok len", OF _ _ assms(4,1)]) (use client_act_ok [OF _ assms(2,3)] assms(2) in \<open>auto simp: client_ok_def\<close>)

lemma client_breaks: "(t, as, m) \<in> set (trans_list httpclient_parser_code) \<Longrightarrow> a \<in> set as \<Longrightarrow> client_brk a = Some k \<Longrightarrow> k \<le> 123"
proof -
  have "list_all (\<lambda>(t, as, m). list_all (\<lambda>a. case client_brk a of None \<Rightarrow> True | Some k \<Rightarrow> k \<le> 123) as) httpclient_parser_transitions"
    by (simp add: httpclient_parser_transitions_def)
  then show "(t, as, m) \<in> set (trans_list httpclient_parser_code) \<Longrightarrow> a \<in> set as \<Longrightarrow> client_brk a = Some k \<Longrightarrow> k \<le> 123"
    unfolding httpclient_parser_trans_list by (fastforce simp: list_all_iff)
qed

lemma client_exec_ok:
  assumes "off \<le> len" "len = length buffer" "0 < len" "1 \<le> cs parser" "cs parser \<le> 123" "body_start parser \<le> len"
    "nread parser = 0" "mark parser = 0" "field_len parser = 0" "field_start parser = 0"
  shows "\<exists>cs' p w. httpclient_parser_exec parser buffer off = Inr (cs', p, w) \<and> client_ok len p w \<and> off \<le> p \<and> cs' \<le> 123"
proof -
  obtain cs' p w where r: "ragel_run httpclient_parser_code (client_act buffer) client_brk False off (drop off buffer) (cs parser) (parser, [])
      = Inr (cs', p, w)" using cp.run_total by (metis prod_cases3)
  have start: "client_ok len off (parser, [])" using assms by (simp add: client_ok_def)
  have "client_ok len p w"
    by (rule cp.run_inv [where J = "\<lambda>_. client_ok len" and pe = len, OF _ client_move_ok r start]) (use assms(1,2) in simp_all)
  moreover have "cs' \<le> 123"
    using cp.run_state [OF _ r] assms(4,5) httpclient_parser_state client_breaks by blast
  ultimately show ?thesis using r cp.run_bounds [OF r] assms(2) by (auto simp: httpclient_parser_exec_def)
qed

text \<open>A call of the parser is a run of the loop: no assertion fails and no check.\<close>

lemma client_execute_run:
  assumes "off \<le> length buffer" "buffer \<noteq> []" "length buffer < 2 ^ 31" "1 \<le> cs parser" "cs parser \<le> 123" "body_start parser \<le> length buffer"
  obtains cs' p parser' calls where
    "httpclient_parser_exec (parser\<lparr>nread := 0, mark := 0, field_len := 0, field_start := 0\<rparr>) buffer off = Inr (cs', p, parser', calls)"
    "httpclient_parser_execute parser buffer (CHR 0x00) off = Inr (parser'\<lparr>cs := cs', nread := p - off\<rparr>, int (p - off), calls)"
    "off \<le> p" "p \<le> length buffer" "cs' \<le> 123" "list_all (value_in (length buffer)) calls"
proof -
  let ?parser = "parser\<lparr>nread := 0, mark := 0, field_len := 0, field_start := 0\<rparr>" and ?len = "length buffer"
  obtain cs' p w where r: "httpclient_parser_exec ?parser buffer off = Inr (cs', p, w)" "client_ok ?len p w" "off \<le> p" "cs' \<le> 123"
    using client_exec_ok [of off ?len buffer ?parser] assms by auto
  obtain q calls where w: "w = (q, calls)" by fastforce
  have "int (?len - off) = to_int ?len - to_int off" using assms(1,3) by (simp add: to_int_small of_nat_diff)
  then have "httpclient_parser_execute parser buffer (CHR 0x00) off = Inr (q\<lparr>cs := cs', nread := p - off\<rparr>, int (p - off), calls)"
    using r assms(1) w by (auto simp: httpclient_parser_execute_def client_ok_def Let_def)
  then show thesis using that [OF r(1) [unfolded w]] r w by (auto simp: client_ok_def)
qed


definition fresh_client :: httpclient_parser where
  "fresh_client = httpclient_parser_init \<lparr>cs = 0, body_start = 0, content_len = 0, status = 0, chunked = 0, chunks_done = 0, close = 0,
     nread = 0, mark = 0, field_start = 0, field_len = 0, callbacks = UNIV\<rparr>"


end
