(* ===== verification/HttpClientRows.thy ===== *)
theory HttpClientRows
  imports HttpClient
begin

text \<open>The states that printed responses go through, looked up in the code.\<close>

lemma cp_find:
  assumes "part \<in> set httpclient_parser_parts" "State n w cases ranges d \<in> set part"
  shows "find_state httpclient_parser_code n = Some (w, cases, ranges, d)"
  unfolding httpclient_parser_code_def
  by (rule find_state_part [OF _ assms]) (simp add: httpclient_parser_states [unfolded httpclient_parser_code_def])

lemma cp_rows_1:
  "find_state httpclient_parser_code 1 = Some (False, [(72, Tr 2)], [(48, 57, Tr 0), (65, 70, Tr 0),
      (97, 102, Tr 0)], St 0)"
  by (rule cp_find [of httpclient_parser_code_1], simp add: httpclient_parser_parts_def, simp add: httpclient_parser_code_1_def)+

lemma cp_rows_2:
  "find_state httpclient_parser_code 3 = Some (False, [(10, Tr 7)], [], St 0)"
  by (rule cp_find [of httpclient_parser_code_2], simp add: httpclient_parser_parts_def, simp add: httpclient_parser_code_2_def)+

lemma cp_rows_3:
  "find_state httpclient_parser_code 8 = Some (False, [(84, St 9)], [], St 0)"
  "find_state httpclient_parser_code 9 = Some (False, [(84, St 10)], [], St 0)"
  "find_state httpclient_parser_code 10 = Some (False, [(80, St 11)], [], St 0)"
  "find_state httpclient_parser_code 11 = Some (False, [(47, St 12)], [], St 0)"
  "find_state httpclient_parser_code 12 = Some (False, [], [(48, 57, St 13)], St 0)"
  "find_state httpclient_parser_code 13 = Some (False, [(46, St 14)], [(48, 57, St 13)], St 0)"
  by (rule cp_find [of httpclient_parser_code_3], simp add: httpclient_parser_parts_def, simp add: httpclient_parser_code_3_def)+

lemma cp_rows_4:
  "find_state httpclient_parser_code 14 = Some (False, [], [(48, 57, St 15)], St 0)"
  "find_state httpclient_parser_code 15 = Some (False, [(32, Tr 26)], [(48, 57, St 15)], St 0)"
  "find_state httpclient_parser_code 16 = Some (False, [], [(48, 57, Tr 27)], St 0)"
  "find_state httpclient_parser_code 17 = Some (False, [(32, Tr 28)], [(48, 57, St 17)], St 0)"
  "find_state httpclient_parser_code 18 = Some (False, [(10, St 0)], [], Tr 30)"
  "find_state httpclient_parser_code 19 = Some (False, [(10, Tr 32), (13, Tr 33)], [], St 19)"
  by (rule cp_find [of httpclient_parser_code_4], simp add: httpclient_parser_parts_def, simp add: httpclient_parser_code_4_def)+

lemma cp_rows_5:
  "find_state httpclient_parser_code 20 = Some (False, [(10, Tr 7), (13, St 3), (33, Tr 35), (67, Tr 36), (84, Tr 37),
      (99, Tr 36), (116, Tr 37), (124, Tr 35), (126, Tr 35)], [(35, 39, Tr 35), (42, 43, Tr 35), (45, 46, Tr 35),
      (48, 57, Tr 35), (65, 90, Tr 35), (94, 122, Tr 35)], St 0)"
  "find_state httpclient_parser_code 21 = Some (False, [(33, St 21), (58, Tr 39), (124, St 21),
      (126, St 21)], [(35, 39, St 21), (42, 43, St 21), (45, 46, St 21), (48, 57, St 21), (65, 90, St 21),
      (94, 122, St 21)], St 0)"
  "find_state httpclient_parser_code 22 = Some (False, [(10, Tr 42), (13, Tr 43), (32, Tr 41)], [(9, 12, Tr 41)], Tr 40)"
  "find_state httpclient_parser_code 23 = Some (False, [(10, Tr 45), (13, Tr 46)], [], St 23)"
  by (rule cp_find [of httpclient_parser_code_5], simp add: httpclient_parser_parts_def, simp add: httpclient_parser_code_5_def)+

lemma cp_rows_6:
  "find_state httpclient_parser_code 24 = Some (False, [(10, St 20)], [], St 0)"
  "find_state httpclient_parser_code 25 = Some (False, [(33, St 21), (58, Tr 39), (79, St 26), (111, St 26), (124, St 21),
      (126, St 21)], [(35, 39, St 21), (42, 43, St 21), (45, 46, St 21), (48, 57, St 21), (65, 90, St 21),
      (94, 122, St 21)], St 0)"
  "find_state httpclient_parser_code 26 = Some (False, [(33, St 21), (58, Tr 39), (78, St 27), (110, St 27), (124, St 21),
      (126, St 21)], [(35, 39, St 21), (42, 43, St 21), (45, 46, St 21), (48, 57, St 21), (65, 90, St 21),
      (94, 122, St 21)], St 0)"
  "find_state httpclient_parser_code 27 = Some (False, [(33, St 21), (58, Tr 39), (78, St 28), (84, St 101), (110, St 28),
      (116, St 101), (124, St 21), (126, St 21)], [(35, 39, St 21), (42, 43, St 21), (45, 46, St 21), (48, 57, St 21),
      (65, 90, St 21), (94, 122, St 21)], St 0)"
  by (rule cp_find [of httpclient_parser_code_6], simp add: httpclient_parser_parts_def, simp add: httpclient_parser_code_6_def)+

lemma cp_rows_7:
  "find_state httpclient_parser_code 28 = Some (False, [(33, St 21), (58, Tr 39), (69, St 29), (101, St 29), (124, St 21),
      (126, St 21)], [(35, 39, St 21), (42, 43, St 21), (45, 46, St 21), (48, 57, St 21), (65, 90, St 21),
      (94, 122, St 21)], St 0)"
  "find_state httpclient_parser_code 29 = Some (False, [(33, St 21), (58, Tr 39), (67, St 30), (99, St 30), (124, St 21),
      (126, St 21)], [(35, 39, St 21), (42, 43, St 21), (45, 46, St 21), (48, 57, St 21), (65, 90, St 21),
      (94, 122, St 21)], St 0)"
  "find_state httpclient_parser_code 30 = Some (False, [(33, St 21), (58, Tr 39), (84, St 31), (116, St 31), (124, St 21),
      (126, St 21)], [(35, 39, St 21), (42, 43, St 21), (45, 46, St 21), (48, 57, St 21), (65, 90, St 21),
      (94, 122, St 21)], St 0)"
  "find_state httpclient_parser_code 31 = Some (False, [(33, St 21), (58, Tr 39), (73, St 32), (105, St 32), (124, St 21),
      (126, St 21)], [(35, 39, St 21), (42, 43, St 21), (45, 46, St 21), (48, 57, St 21), (65, 90, St 21),
      (94, 122, St 21)], St 0)"
  by (rule cp_find [of httpclient_parser_code_7], simp add: httpclient_parser_parts_def, simp add: httpclient_parser_code_7_def)+

lemma cp_rows_8:
  "find_state httpclient_parser_code 32 = Some (False, [(33, St 21), (58, Tr 39), (79, St 33), (111, St 33), (124, St 21),
      (126, St 21)], [(35, 39, St 21), (42, 43, St 21), (45, 46, St 21), (48, 57, St 21), (65, 90, St 21),
      (94, 122, St 21)], St 0)"
  "find_state httpclient_parser_code 33 = Some (False, [(33, St 21), (58, Tr 39), (78, St 34), (110, St 34), (124, St 21),
      (126, St 21)], [(35, 39, St 21), (42, 43, St 21), (45, 46, St 21), (48, 57, St 21), (65, 90, St 21),
      (94, 122, St 21)], St 0)"
  "find_state httpclient_parser_code 34 = Some (False, [(33, St 21), (58, Tr 58), (124, St 21),
      (126, St 21)], [(35, 39, St 21), (42, 43, St 21), (45, 46, St 21), (48, 57, St 21), (65, 90, St 21),
      (94, 122, St 21)], St 0)"
  "find_state httpclient_parser_code 35 = Some (False, [(10, Tr 60), (13, Tr 61), (32, Tr 59), (67, Tr 62),
      (99, Tr 62)], [(9, 12, Tr 59)], Tr 40)"
  by (rule cp_find [of httpclient_parser_code_8], simp add: httpclient_parser_parts_def, simp add: httpclient_parser_code_8_def)+

lemma cp_rows_9:
  "find_state httpclient_parser_code 36 = Some (False, [(10, Tr 64), (13, St 89), (32, St 37), (33, Tr 35), (67, Tr 66),
      (84, Tr 37), (99, Tr 66), (116, Tr 37), (124, Tr 35), (126, Tr 35)], [(9, 12, St 37), (35, 39, Tr 35),
      (42, 43, Tr 35), (45, 46, Tr 35), (48, 57, Tr 35), (65, 90, Tr 35), (94, 122, Tr 35)], St 0)"
  "find_state httpclient_parser_code 37 = Some (False, [(32, St 37), (67, St 38), (99, St 38)], [(9, 13, St 37)], St 0)"
  "find_state httpclient_parser_code 38 = Some (False, [(76, St 39), (108, St 39)], [], St 0)"
  "find_state httpclient_parser_code 39 = Some (False, [(79, St 40), (111, St 40)], [], St 0)"
  "find_state httpclient_parser_code 40 = Some (False, [(83, St 41), (115, St 41)], [], St 0)"
  "find_state httpclient_parser_code 41 = Some (False, [(69, St 42), (101, St 42)], [], St 0)"
  "find_state httpclient_parser_code 42 = Some (False, [(10, St 43), (13, St 88)], [], St 0)"
  by (rule cp_find [of httpclient_parser_code_9], simp add: httpclient_parser_parts_def, simp add: httpclient_parser_code_9_def)+

lemma cp_rows_10:
  "find_state httpclient_parser_code 43 = Some (False, [(10, Tr 74), (13, Tr 75), (33, Tr 76), (67, Tr 77), (84, Tr 78),
      (99, Tr 77), (116, Tr 78), (124, Tr 76), (126, Tr 76)], [(35, 39, Tr 76), (42, 43, Tr 76), (45, 46, Tr 76),
      (48, 57, Tr 76), (65, 90, Tr 76), (94, 122, Tr 76)], St 0)"
  "find_state httpclient_parser_code 44 = Some (False, [(33, St 21), (58, Tr 39), (82, St 45), (114, St 45), (124, St 21),
      (126, St 21)], [(35, 39, St 21), (42, 43, St 21), (45, 46, St 21), (48, 57, St 21), (65, 90, St 21),
      (94, 122, St 21)], St 0)"
  "find_state httpclient_parser_code 45 = Some (False, [(33, St 21), (58, Tr 39), (65, St 46), (97, St 46), (124, St 21),
      (126, St 21)], [(35, 39, St 21), (42, 43, St 21), (45, 46, St 21), (48, 57, St 21), (66, 90, St 21),
      (94, 122, St 21)], St 0)"
  "find_state httpclient_parser_code 46 = Some (False, [(33, St 21), (58, Tr 39), (78, St 47), (110, St 47), (124, St 21),
      (126, St 21)], [(35, 39, St 21), (42, 43, St 21), (45, 46, St 21), (48, 57, St 21), (65, 90, St 21),
      (94, 122, St 21)], St 0)"
  by (rule cp_find [of httpclient_parser_code_10], simp add: httpclient_parser_parts_def, simp add: httpclient_parser_code_10_def)+

lemma cp_rows_11:
  "find_state httpclient_parser_code 47 = Some (False, [(33, St 21), (58, Tr 39), (83, St 48), (115, St 48), (124, St 21),
      (126, St 21)], [(35, 39, St 21), (42, 43, St 21), (45, 46, St 21), (48, 57, St 21), (65, 90, St 21),
      (94, 122, St 21)], St 0)"
  "find_state httpclient_parser_code 48 = Some (False, [(33, St 21), (58, Tr 39), (70, St 49), (102, St 49), (124, St 21),
      (126, St 21)], [(35, 39, St 21), (42, 43, St 21), (45, 46, St 21), (48, 57, St 21), (65, 90, St 21),
      (94, 122, St 21)], St 0)"
  "find_state httpclient_parser_code 49 = Some (False, [(33, St 21), (58, Tr 39), (69, St 50), (101, St 50), (124, St 21),
      (126, St 21)], [(35, 39, St 21), (42, 43, St 21), (45, 46, St 21), (48, 57, St 21), (65, 90, St 21),
      (94, 122, St 21)], St 0)"
  "find_state httpclient_parser_code 50 = Some (False, [(33, St 21), (58, Tr 39), (82, St 51), (114, St 51), (124, St 21),
      (126, St 21)], [(35, 39, St 21), (42, 43, St 21), (45, 46, St 21), (48, 57, St 21), (65, 90, St 21),
      (94, 122, St 21)], St 0)"
  by (rule cp_find [of httpclient_parser_code_11], simp add: httpclient_parser_parts_def, simp add: httpclient_parser_code_11_def)+

lemma cp_rows_12:
  "find_state httpclient_parser_code 51 = Some (False, [(33, St 21), (45, St 52), (46, St 21), (58, Tr 39), (124, St 21),
      (126, St 21)], [(35, 39, St 21), (42, 43, St 21), (48, 57, St 21), (65, 90, St 21), (94, 122, St 21)], St 0)"
  "find_state httpclient_parser_code 52 = Some (False, [(33, St 21), (58, Tr 39), (69, St 53), (101, St 53), (124, St 21),
      (126, St 21)], [(35, 39, St 21), (42, 43, St 21), (45, 46, St 21), (48, 57, St 21), (65, 90, St 21),
      (94, 122, St 21)], St 0)"
  "find_state httpclient_parser_code 53 = Some (False, [(33, St 21), (58, Tr 39), (78, St 54), (110, St 54), (124, St 21),
      (126, St 21)], [(35, 39, St 21), (42, 43, St 21), (45, 46, St 21), (48, 57, St 21), (65, 90, St 21),
      (94, 122, St 21)], St 0)"
  "find_state httpclient_parser_code 54 = Some (False, [(33, St 21), (58, Tr 39), (67, St 55), (99, St 55), (124, St 21),
      (126, St 21)], [(35, 39, St 21), (42, 43, St 21), (45, 46, St 21), (48, 57, St 21), (65, 90, St 21),
      (94, 122, St 21)], St 0)"
  by (rule cp_find [of httpclient_parser_code_12], simp add: httpclient_parser_parts_def, simp add: httpclient_parser_code_12_def)+

lemma cp_rows_13:
  "find_state httpclient_parser_code 55 = Some (False, [(33, St 21), (58, Tr 39), (79, St 56), (111, St 56), (124, St 21),
      (126, St 21)], [(35, 39, St 21), (42, 43, St 21), (45, 46, St 21), (48, 57, St 21), (65, 90, St 21),
      (94, 122, St 21)], St 0)"
  "find_state httpclient_parser_code 56 = Some (False, [(33, St 21), (58, Tr 39), (68, St 57), (100, St 57), (124, St 21),
      (126, St 21)], [(35, 39, St 21), (42, 43, St 21), (45, 46, St 21), (48, 57, St 21), (65, 90, St 21),
      (94, 122, St 21)], St 0)"
  "find_state httpclient_parser_code 57 = Some (False, [(33, St 21), (58, Tr 39), (73, St 58), (105, St 58), (124, St 21),
      (126, St 21)], [(35, 39, St 21), (42, 43, St 21), (45, 46, St 21), (48, 57, St 21), (65, 90, St 21),
      (94, 122, St 21)], St 0)"
  "find_state httpclient_parser_code 58 = Some (False, [(33, St 21), (58, Tr 39), (78, St 59), (110, St 59), (124, St 21),
      (126, St 21)], [(35, 39, St 21), (42, 43, St 21), (45, 46, St 21), (48, 57, St 21), (65, 90, St 21),
      (94, 122, St 21)], St 0)"
  by (rule cp_find [of httpclient_parser_code_13], simp add: httpclient_parser_parts_def, simp add: httpclient_parser_code_13_def)+

lemma cp_rows_14:
  "find_state httpclient_parser_code 59 = Some (False, [(33, St 21), (58, Tr 39), (71, St 60), (103, St 60), (124, St 21),
      (126, St 21)], [(35, 39, St 21), (42, 43, St 21), (45, 46, St 21), (48, 57, St 21), (65, 90, St 21),
      (94, 122, St 21)], St 0)"
  "find_state httpclient_parser_code 60 = Some (False, [(33, St 21), (58, Tr 95), (124, St 21),
      (126, St 21)], [(35, 39, St 21), (42, 43, St 21), (45, 46, St 21), (48, 57, St 21), (65, 90, St 21),
      (94, 122, St 21)], St 0)"
  by (rule cp_find [of httpclient_parser_code_14], simp add: httpclient_parser_parts_def, simp add: httpclient_parser_code_14_def)+

lemma cp_rows_18:
  "find_state httpclient_parser_code 88 = Some (False, [(10, St 43)], [], St 0)"
  by (rule cp_find [of httpclient_parser_code_18], simp add: httpclient_parser_parts_def, simp add: httpclient_parser_code_18_def)+

lemma cp_rows_20:
  "find_state httpclient_parser_code 95 = Some (False, [(10, St 36), (32, St 37), (67, St 38),
      (99, St 38)], [(9, 13, St 37)], St 0)"
  "find_state httpclient_parser_code 96 = Some (False, [(10, Tr 45), (13, Tr 46), (76, St 97), (108, St 97)], [], St 23)"
  "find_state httpclient_parser_code 97 = Some (False, [(10, Tr 45), (13, Tr 46), (79, St 98), (111, St 98)], [], St 23)"
  "find_state httpclient_parser_code 98 = Some (False, [(10, Tr 45), (13, Tr 46), (83, St 99), (115, St 99)], [], St 23)"
  "find_state httpclient_parser_code 99 = Some (False, [(10, Tr 45), (13, Tr 46), (69, St 100), (101, St 100)], [], St 23)"
  "find_state httpclient_parser_code 100 = Some (False, [(10, Tr 136), (13, Tr 137)], [], St 23)"
  by (rule cp_find [of httpclient_parser_code_20], simp add: httpclient_parser_parts_def, simp add: httpclient_parser_code_20_def)+

lemma cp_rows_21:
  "find_state httpclient_parser_code 101 = Some (False, [(33, St 21), (58, Tr 39), (69, St 102), (101, St 102),
      (124, St 21), (126, St 21)], [(35, 39, St 21), (42, 43, St 21), (45, 46, St 21), (48, 57, St 21), (65, 90, St 21),
      (94, 122, St 21)], St 0)"
  "find_state httpclient_parser_code 102 = Some (False, [(33, St 21), (58, Tr 39), (78, St 103), (110, St 103),
      (124, St 21), (126, St 21)], [(35, 39, St 21), (42, 43, St 21), (45, 46, St 21), (48, 57, St 21), (65, 90, St 21),
      (94, 122, St 21)], St 0)"
  "find_state httpclient_parser_code 103 = Some (False, [(33, St 21), (58, Tr 39), (84, St 104), (116, St 104),
      (124, St 21), (126, St 21)], [(35, 39, St 21), (42, 43, St 21), (45, 46, St 21), (48, 57, St 21), (65, 90, St 21),
      (94, 122, St 21)], St 0)"
  "find_state httpclient_parser_code 104 = Some (False, [(33, St 21), (45, St 105), (46, St 21), (58, Tr 39), (124, St 21),
      (126, St 21)], [(35, 39, St 21), (42, 43, St 21), (48, 57, St 21), (65, 90, St 21), (94, 122, St 21)], St 0)"
  by (rule cp_find [of httpclient_parser_code_21], simp add: httpclient_parser_parts_def, simp add: httpclient_parser_code_21_def)+

lemma cp_rows_22:
  "find_state httpclient_parser_code 105 = Some (False, [(33, St 21), (58, Tr 39), (76, St 106), (108, St 106),
      (124, St 21), (126, St 21)], [(35, 39, St 21), (42, 43, St 21), (45, 46, St 21), (48, 57, St 21), (65, 90, St 21),
      (94, 122, St 21)], St 0)"
  "find_state httpclient_parser_code 106 = Some (False, [(33, St 21), (58, Tr 39), (69, St 107), (101, St 107),
      (124, St 21), (126, St 21)], [(35, 39, St 21), (42, 43, St 21), (45, 46, St 21), (48, 57, St 21), (65, 90, St 21),
      (94, 122, St 21)], St 0)"
  "find_state httpclient_parser_code 107 = Some (False, [(33, St 21), (58, Tr 39), (78, St 108), (110, St 108),
      (124, St 21), (126, St 21)], [(35, 39, St 21), (42, 43, St 21), (45, 46, St 21), (48, 57, St 21), (65, 90, St 21),
      (94, 122, St 21)], St 0)"
  "find_state httpclient_parser_code 108 = Some (False, [(33, St 21), (58, Tr 39), (71, St 109), (103, St 109),
      (124, St 21), (126, St 21)], [(35, 39, St 21), (42, 43, St 21), (45, 46, St 21), (48, 57, St 21), (65, 90, St 21),
      (94, 122, St 21)], St 0)"
  by (rule cp_find [of httpclient_parser_code_22], simp add: httpclient_parser_parts_def, simp add: httpclient_parser_code_22_def)+

lemma cp_rows_23:
  "find_state httpclient_parser_code 109 = Some (False, [(33, St 21), (58, Tr 39), (84, St 110), (116, St 110),
      (124, St 21), (126, St 21)], [(35, 39, St 21), (42, 43, St 21), (45, 46, St 21), (48, 57, St 21), (65, 90, St 21),
      (94, 122, St 21)], St 0)"
  "find_state httpclient_parser_code 110 = Some (False, [(33, St 21), (58, Tr 39), (72, St 111), (104, St 111),
      (124, St 21), (126, St 21)], [(35, 39, St 21), (42, 43, St 21), (45, 46, St 21), (48, 57, St 21), (65, 90, St 21),
      (94, 122, St 21)], St 0)"
  "find_state httpclient_parser_code 111 = Some (False, [(33, St 21), (58, Tr 148), (124, St 21),
      (126, St 21)], [(35, 39, St 21), (42, 43, St 21), (45, 46, St 21), (48, 57, St 21), (65, 90, St 21),
      (94, 122, St 21)], St 0)"
  "find_state httpclient_parser_code 112 = Some (False, [(10, Tr 150), (13, Tr 151), (32, Tr 149)], [(9, 12, Tr 149),
      (48, 57, Tr 152)], Tr 40)"
  by (rule cp_find [of httpclient_parser_code_23], simp add: httpclient_parser_parts_def, simp add: httpclient_parser_code_23_def)+

lemma cp_rows_24:
  "find_state httpclient_parser_code 113 = Some (False, [(10, Tr 154), (13, St 116), (32, St 114), (33, Tr 35),
      (67, Tr 36), (84, Tr 37), (99, Tr 36), (116, Tr 37), (124, Tr 35), (126, Tr 35)], [(9, 12, St 114), (35, 39, Tr 35),
      (42, 43, Tr 35), (45, 46, Tr 35), (48, 57, Tr 156), (65, 90, Tr 35), (94, 122, Tr 35)], St 0)"
  "find_state httpclient_parser_code 114 = Some (False, [(32, St 114)], [(9, 13, St 114), (48, 57, Tr 157)], St 0)"
  "find_state httpclient_parser_code 115 = Some (False, [(10, Tr 158), (13, Tr 159)], [(48, 57, St 115)], St 0)"
  "find_state httpclient_parser_code 116 = Some (False, [(10, Tr 154), (32, St 114)], [(9, 13, St 114),
      (48, 57, Tr 157)], St 0)"
  "find_state httpclient_parser_code 117 = Some (False, [(10, Tr 158), (13, Tr 159), (33, St 21), (58, Tr 39),
      (124, St 21), (126, St 21)], [(35, 39, St 21), (42, 43, St 21), (45, 46, St 21), (48, 57, St 117), (65, 90, St 21),
      (94, 122, St 21)], St 0)"
  by (rule cp_find [of httpclient_parser_code_24], simp add: httpclient_parser_parts_def, simp add: httpclient_parser_code_24_def)+

lemma cp_rows_25:
  "find_state httpclient_parser_code 118 = Some (False, [(10, St 113), (32, St 114)], [(9, 13, St 114),
      (48, 57, Tr 157)], St 0)"
  "find_state httpclient_parser_code 119 = Some (False, [(10, Tr 158), (13, Tr 159)], [(48, 57, St 119)], St 23)"
  by (rule cp_find [of httpclient_parser_code_25], simp add: httpclient_parser_parts_def, simp add: httpclient_parser_code_25_def)+

lemmas cp_rows = cp_rows_1 cp_rows_2 cp_rows_3 cp_rows_4 cp_rows_5 cp_rows_6 cp_rows_7 cp_rows_8 cp_rows_9 cp_rows_10 cp_rows_11 cp_rows_12 cp_rows_13 cp_rows_14 cp_rows_18 cp_rows_20 cp_rows_21 cp_rows_22 cp_rows_23 cp_rows_24 cp_rows_25

end
