(* ===== verification/HttpClientParse.thy ===== *)
theory HttpClientParse
  imports HttpClientRows HttpTransfer
begin

text \<open>
  Responses that the client parser reads wrongly, and what it reports for a response that was printed by
  \<open>HttpResponse::dump\<close>: version, status and reason, every header and the body.
\<close>

section \<open>Running the parser on a text\<close>

lemmas client_run_simps =
  httpclient_parser_execute_def httpclient_parser_exec_def ragel_move_def cp_rows select_def widen_def schar_def Let_def
  httpclient_parser_trans client_lookup element_def len_from_def usub_def to_int_def fresh_client_def httpclient_parser_init_def
  httpclient_parser_start_def

text \<open>
  The number of a content length on the next line: the parser takes it for the start of a new field, but keeps
  the length of the old name. The name it reports is longer than the buffer.
\<close>

lemma field_name_overrun:
  "\<exists>parser' n. httpclient_parser_execute fresh_client
       (''HTTP/1.1 200 OK'' @ [CHR 0x0A] @ ''Content-Length:'' @ [CHR 0x0A] @ ''5'' @ [CHR 0x0A]) (CHR 0x00) 0
     = Inr (parser', n, [Element http_version_cb 0 8, Element status_code_cb 9 3, Element reason_phrase_cb 13 2, Field 16 14 31 0, Field 32 14 32 1])"
  by (simp add: client_run_simps del: One_nat_def)

text \<open>
  An empty \<open>Connection\<close> header as the last one: the end of the head is found, in a state that does not count as
  finished.
\<close>

lemma empty_header_unfinished:
  "\<exists>parser' calls. httpclient_parser_execute fresh_client
       (''HTTP/1.1 200 OK'' @ [CHR 0x0A] @ ''Connection:'' @ [CHR 0x0A, CHR 0x0A]) (CHR 0x00) 0 = Inr (parser', 29, calls)
     \<and> Element header_done_cb 29 0 \<in> set calls \<and> httpclient_parser_finish parser' = 0"
  by (simp add: client_run_simps httpclient_parser_finish_def httpclient_parser_has_error_def httpclient_parser_is_finished_def
      httpclient_parser_error_def httpclient_parser_first_final_def del: One_nat_def)

section \<open>Callbacks as texts\<close>

text \<open>The callbacks for the status and the version are given a pointer into the buffer; the others make strings of their lengths.\<close>

fun client_event :: "string \<Rightarrow> client_call \<Rightarrow> response_event" where
  "client_event b (Element cb at n) =
     (case cb of
        reason_phrase_cb \<Rightarrow> EvReason (part_of b at n)
      | status_code_cb \<Rightarrow> EvStatus (drop at b)
      | chunk_size_cb \<Rightarrow> EvChunk (part_of b at n)
      | http_version_cb \<Rightarrow> EvRspVersion (drop at b) n
      | header_done_cb \<Rightarrow> EvRspHeaderDone (part_of b at n)
      | last_chunk_cb \<Rightarrow> EvLastChunk (part_of b at n)
      | http_field_cb \<Rightarrow> EvRspField [] [])"
| "client_event b (Field f n v m) = EvRspField (part_of b f n) (part_of b v m)"

section \<open>Steps\<close>

lemma cp_trans:
  "find_transition httpclient_parser_code 2 = Some ([Mark], 8)" "find_transition httpclient_parser_code 7 = Some ([Done 120], 120)"
  "find_transition httpclient_parser_code 26 = Some ([Http_version], 16)" "find_transition httpclient_parser_code 27 = Some ([Mark], 17)"
  "find_transition httpclient_parser_code 28 = Some ([Status_code], 18)" "find_transition httpclient_parser_code 30 = Some ([Mark], 19)"
  "find_transition httpclient_parser_code 33 = Some ([Reason_phrase], 24)" "find_transition httpclient_parser_code 35 = Some ([Start_field], 21)"
  "find_transition httpclient_parser_code 36 = Some ([Start_field], 25)" "find_transition httpclient_parser_code 37 = Some ([Start_field], 44)"
  "find_transition httpclient_parser_code 39 = Some ([Write_field], 22)" "find_transition httpclient_parser_code 40 = Some ([Mark], 23)"
  "find_transition httpclient_parser_code 41 = Some ([Mark], 22)" "find_transition httpclient_parser_code 43 = Some ([Mark, Write_value], 24)"
  "find_transition httpclient_parser_code 46 = Some ([Write_value], 24)" "find_transition httpclient_parser_code 58 = Some ([Write_field], 35)"
  "find_transition httpclient_parser_code 59 = Some ([Mark], 35)" "find_transition httpclient_parser_code 62 = Some ([Mark], 96)"
  "find_transition httpclient_parser_code 75 = Some ([Close], 3)" "find_transition httpclient_parser_code 76 = Some ([Close, Start_field], 21)"
  "find_transition httpclient_parser_code 77 = Some ([Close, Start_field], 25)" "find_transition httpclient_parser_code 78 = Some ([Close, Start_field], 44)"
  "find_transition httpclient_parser_code 137 = Some ([Write_value], 88)" "find_transition httpclient_parser_code 148 = Some ([Write_field], 112)"
  "find_transition httpclient_parser_code 149 = Some ([Mark], 112)" "find_transition httpclient_parser_code 152 = Some ([Mark], 119)"
  "find_transition httpclient_parser_code 159 = Some ([Write_content_len, Write_value], 24)"
  by (simp_all add: httpclient_parser_trans client_lookup)

lemmas client_select = select_def Let_def
lemmas client_report = element_def len_from_def

text \<open>The parsers that a run goes through differ in their offsets and in what they note of the response.\<close>

definition client_fixed :: "httpclient_parser \<Rightarrow> httpclient_parser" where
  "client_fixed ps = ps\<lparr>mark := 0, field_start := 0, field_len := 0, status := 0, content_len := 0, close := 0\<rparr>"

lemma client_fixed_upd [simp]:
  "client_fixed (ps\<lparr>mark := m\<rparr>) = client_fixed ps" "client_fixed (ps\<lparr>field_start := m\<rparr>) = client_fixed ps"
  "client_fixed (ps\<lparr>field_len := m\<rparr>) = client_fixed ps" "client_fixed (ps\<lparr>status := i\<rparr>) = client_fixed ps"
  "client_fixed (ps\<lparr>content_len := i\<rparr>) = client_fixed ps" "client_fixed (ps\<lparr>close := i\<rparr>) = client_fixed ps"
  by (simp_all add: client_fixed_def)

lemma client_fixed_fields:
  assumes "client_fixed ps' = client_fixed ps"
  shows "callbacks ps' = callbacks ps" "cs ps' = cs ps" "nread ps' = nread ps" "chunked ps' = chunked ps" "body_start ps' = body_start ps"
  using arg_cong [OF assms, of callbacks] arg_cong [OF assms, of cs] arg_cong [OF assms, of nread] arg_cong [OF assms, of chunked]
    arg_cong [OF assms, of body_start]
  by (simp_all add: client_fixed_def)

interpretation cr: reporting httpclient_parser_code "client_act b" client_brk "client_event b" client_fixed "\<lambda>_. False" for b
  by unfold_locales simp

lemma client_callbacks: "cr.reads b p w n ps evs n' ps' \<Longrightarrow> callbacks ps' = callbacks ps"
  by (rule client_fixed_fields(1) [OF cr.reads_fixed])

section \<open>The status line\<close>

definition digits_only :: "string \<Rightarrow> bool" where
  "digits_only ds \<longleftrightarrow> ds \<noteq> [] \<and> (\<forall>c\<in>set ds. 48 \<le> schar c \<and> schar c \<le> 57)"

lemma reads_rsp_version:
  assumes "callbacks ps = UNIV" "w = ''HTTP/1.1'' \<or> w = ''HTTP/1.0''"
  shows "cr.reads b p (w @ '' '') 1 ps [EvRspVersion (drop p b) 8] 16 (ps\<lparr>mark := p\<rparr>)"
proof -
  let ?ps = "ps\<lparr>mark := p\<rparr>"
  have H: "cr.reads b p ''H'' 1 ps [] 8 ?ps"
    by (rule cr.reads_Tr [where new = "[]", OF cp_rows(1) _ cp_trans(1)]) (simp_all add: client_select schar_def)
  have st: "cr.reads b q ''T'' 8 ?ps [] 9 ?ps" "cr.reads b q ''T'' 9 ?ps [] 10 ?ps" "cr.reads b q ''P'' 10 ?ps [] 11 ?ps"
    "cr.reads b q ''/'' 11 ?ps [] 12 ?ps" "cr.reads b q ''1'' 12 ?ps [] 13 ?ps" "cr.reads b q ''.'' 13 ?ps [] 14 ?ps"
    "cr.reads b q ''1'' 14 ?ps [] 15 ?ps" "cr.reads b q ''0'' 14 ?ps [] 15 ?ps" for q
    by (rule cr.reads_St, rule cp_rows, simp_all add: client_select schar_def)+
  have head: "cr.reads b p ''HTTP/1.'' 1 ps [] 14 ?ps"
    using cr.reads_append [OF H cr.reads_append [OF st(1) cr.reads_append [OF st(2) cr.reads_append [OF st(3)
        cr.reads_append [OF st(4) cr.reads_append [OF st(5) st(6)]]]]]] by simp
  have dig: "cr.reads b p w 1 ps [] 15 ?ps" using cr.reads_append [OF head st(7)] cr.reads_append [OF head st(8)] assms(2) by auto
  have "cr.reads b (p + length w) '' '' 15 ?ps [EvRspVersion (drop p b) 8] 16 ?ps"
    by (rule cr.reads_Tr [where new = "[Element http_version_cb p 8]", OF _ _ cp_trans(3)], rule cp_rows)
       (use assms in \<open>auto simp: client_select schar_def client_report\<close>)
  from cr.reads_append [OF dig this] show ?thesis by simp
qed

lemma reads_status:
  assumes "callbacks ps = UNIV" "digits_only ds"
  shows "\<exists>i. cr.reads b p (ds @ '' '') 16 ps [EvStatus (drop p b)] 18 (ps\<lparr>mark := p, status := i\<rparr>)"
proof -
  let ?ps = "ps\<lparr>mark := p\<rparr>" and ?i = "strtol 10 (drop p b)"
  obtain c cs where ds: "ds = c # cs" using assms(2) by (cases ds) (auto simp: digits_only_def)
  have a: "cr.reads b p [c] 16 ps [] 17 ?ps"
    by (rule cr.reads_Tr [where new = "[]", OF _ _ cp_trans(4)], rule cp_rows) (use assms(2) ds in \<open>auto simp: digits_only_def client_select\<close>)
  have b: "cr.reads b (p + length [c]) cs 17 ?ps [] 17 ?ps"
    by (rule cr.reads_loop [where C = "\<lambda>k. 48 \<le> k \<and> k \<le> 57"], rule cp_rows) (use assms(2) ds in \<open>auto simp: digits_only_def client_select\<close>)
  have "cr.reads b (p + length ds) '' '' 17 ?ps [EvStatus (drop p b)] 18 (?ps\<lparr>status := ?i\<rparr>)"
    by (rule cr.reads_Tr [where new = "[Element status_code_cb p (length ds)]", OF _ _ cp_trans(5)], rule cp_rows)
       (use assms(1) in \<open>simp_all add: client_select schar_def client_report\<close>)
  with cr.reads_append [OF a b] show ?thesis using cr.reads_append ds by fastforce
qed

text \<open>A text without line ends, and one that is not empty.\<close>

definition line_text :: "string \<Rightarrow> bool" where
  "line_text s \<longleftrightarrow> (\<forall>c\<in>set s. schar c \<noteq> 10 \<and> schar c \<noteq> 13)"

lemma reads_lf: "cr.reads b q [CHR 0x0A] 24 ps [] 20 ps" "cr.reads b q [CHR 0x0A] 88 ps [] 43 ps"
  by (rule cr.reads_St, rule cp_rows, simp_all add: client_select schar_def)+

lemma reads_reason:
  assumes "callbacks ps = UNIV" "line_text w" "w \<noteq> []" "b = pre @ w @ post" "p = length pre"
  shows "cr.reads b p (w @ CRLF) 18 ps [EvReason w] 20 (ps\<lparr>mark := p\<rparr>)"
proof -
  let ?ps = "ps\<lparr>mark := p\<rparr>"
  obtain c cs where w: "w = c # cs" using assms(3) by (cases w) auto
  have a: "cr.reads b p [c] 18 ps [] 19 ?ps"
    by (rule cr.reads_Tr [where new = "[]", OF _ _ cp_trans(6)], rule cp_rows) (use assms(2) w in \<open>auto simp: line_text_def client_select\<close>)
  have b: "cr.reads b (p + length [c]) cs 19 ?ps [] 19 ?ps"
    by (rule cr.reads_loop [where C = "\<lambda>k. k \<noteq> 10 \<and> k \<noteq> 13"], rule cp_rows) (use assms(2) w in \<open>auto simp: line_text_def client_select\<close>)
  have "cr.reads b (p + length w) [CHR 0x0D] 19 ?ps [EvReason w] 24 ?ps"
    by (rule cr.reads_Tr [where new = "[Element reason_phrase_cb p (length w)]", OF _ _ cp_trans(7)], rule cp_rows)
       (use assms(1,5) part_of_mid [OF assms(4) refl refl] in \<open>simp_all add: client_select schar_def client_report\<close>)
  from cr.reads_append [OF cr.reads_append [OF a b], of "CRLF"] cr.reads_append [OF this reads_lf(1)] show ?thesis
    using w by (auto simp: CRLF_def)
qed

section \<open>The names of fields\<close>

text \<open>
  The states inside a name spell the three names that the parser treats on its own; state 21 is every other
  name.
\<close>

definition name_prefix :: "nat \<Rightarrow> string option" where
  "name_prefix n =
     (if 25 \<le> n \<and> n \<le> 34 then Some (take (n - 24) ''connection'')
      else if 101 \<le> n \<and> n \<le> 111 then Some (take (n - 97) ''content-length'')
      else if 44 \<le> n \<and> n \<le> 60 then Some (take (n - 43) ''transfer-encoding'')
      else None)"

definition name_at :: "nat \<Rightarrow> string \<Rightarrow> bool" where
  "name_at n s \<longleftrightarrow> n = 21 \<or> name_prefix n = Some (map tolower s)"

lemma name_states: "name_prefix n \<noteq> None \<Longrightarrow> n \<in> set ([25..<35] @ [101..<112] @ [44..<61])"
  unfolding set_append set_upt Un_iff atLeastLessThan_iff by (auto simp: name_prefix_def split: if_splits)

definition name_next :: "nat \<Rightarrow> int \<Rightarrow> nat" where
  "name_next n key =
     (if n = 27 \<and> (key = 116 \<or> key = 84) then 101
      else if n \<in> {21, 34, 60, 111} then 21
      else let l = schar (last (the (name_prefix (n + 1)))) in if key = l \<or> l \<noteq> 45 \<and> key = l - 32 then n + 1 else 21)"

lemma name_rows:
  "list_all (\<lambda>n. \<forall>k. in_class token_class k \<longrightarrow> select False (the (find_state httpclient_parser_code n)) k = St (name_next n k))
     ([21] @ [25..<35] @ [101..<112] @ [44..<61])"
  by (simp add: upt_rec cp_rows)
     (auto simp: client_select in_class_def token_class_def name_next_def name_prefix_def schar_def)

lemma tolower_key:
  assumes "schar c = schar l \<or> schar c = schar l - 32" "97 \<le> schar l" "schar l \<le> 122"
  shows "tolower c = l"
proof -
  have pos: "schar x = int (of_char x)" if "0 \<le> schar x" for x
  proof (rule ccontr)
    assume "schar x \<noteq> int (of_char x)"
    then have "schar x = int (of_char x) - 256" by (auto simp: schar_def Let_def split: if_splits)
    moreover have "(of_char x :: nat) < 256" by simp
    ultimately show False using that by linarith
  qed
  have l: "schar l = int (of_char l)" and c: "schar c = int (of_char c)" using pos [of l] pos [of c] assms by auto
  show ?thesis
  proof (cases "schar c = schar l")
    case True
    then have "c = l" by (simp add: schar_inj)
    then show ?thesis using assms(2) l by (simp add: tolower_def)
  next
    case False
    then have "int (of_char c) + 32 = int (of_char l)" using assms l c by auto
    then have "of_char c + 32 = (of_char l :: nat)" by linarith
    moreover from this have "65 \<le> (of_char c :: nat)" "of_char c \<le> (90 :: nat)" using assms(2,3) l by linarith+
    ultimately show ?thesis by (simp add: tolower_def)
  qed
qed

lemma name_prefixes:
  "list_all (\<lambda>n. \<exists>p l. name_prefix n = Some p \<and> name_prefix (n + 1) = Some (p @ [l]) \<and> (l = CHR ''-'' \<or> 97 \<le> schar l \<and> schar l \<le> 122))
     ([25..<34] @ [101..<111] @ [44..<60])"
  by (simp add: upt_rec name_prefix_def schar_def)

lemma name_next_at:
  assumes "name_at n s"
  shows "name_at (name_next n (schar c)) (s @ [c])"
proof (cases "name_next n (schar c) = 21")
  case True
  then show ?thesis by (simp add: name_at_def)
next
  case False
  then have n: "n \<notin> {21, 34, 60, 111}" by (auto simp: name_next_def)
  then have s: "name_prefix n = Some (map tolower s)" using assms by (simp add: name_at_def)
  show ?thesis
  proof (cases "n = 27 \<and> (schar c = 116 \<or> schar c = 84)")
    case True
    then have "tolower c = CHR ''t''" by (intro tolower_key) (auto simp: schar_def)
    moreover have "map tolower s = ''con''" using s True by (simp add: name_prefix_def)
    ultimately show ?thesis using True by (simp add: name_next_def name_at_def name_prefix_def)
  next
    case other: False
    have "n \<in> set ([25..<34] @ [101..<111] @ [44..<60])"
      using name_states [of n] s n unfolding set_append set_upt Un_iff atLeastLessThan_iff by fastforce
    then obtain l where l: "name_prefix (n + 1) = Some (map tolower s @ [l])" "l = CHR ''-'' \<or> 97 \<le> schar l \<and> schar l \<le> 122"
      using name_prefixes s unfolding list_all_iff by fastforce
    have k: "name_next n (schar c) = n + 1" "schar c = schar l \<or> schar l \<noteq> 45 \<and> schar c = schar l - 32"
      using False other n l(1) by (auto simp: name_next_def Let_def split: if_splits)
    have "tolower c = l"
    proof (cases "l = CHR ''-''")
      case True
      then have "c = CHR ''-''" using k(2) schar_inj [of c l] by (auto simp: schar_def)
      then show ?thesis using True by (simp add: tolower_def)
    next
      case False
      then show ?thesis using tolower_key l(2) k(2) by blast
    qed
    then show ?thesis using k(1) l(1) by (simp add: name_at_def)
  qed
qed

lemma name_step:
  assumes "name_at n s" "in_class token_class (schar c)"
  shows "\<exists>r m. find_state httpclient_parser_code n = Some r \<and> select False r (schar c) = St m \<and> m \<noteq> 0 \<and> name_at m (s @ [c])"
proof -
  have n: "n \<in> set ([21] @ [25..<35] @ [101..<112] @ [44..<61])"
    using assms(1) name_states [of n] by (cases "n = 21") (simp_all add: name_at_def del: set_upt)
  moreover from n have "1 \<le> n \<and> n \<le> 123" unfolding set_append set_upt Un_iff atLeastLessThan_iff by fastforce
  then obtain r where r: "find_state httpclient_parser_code n = Some r" using httpclient_parser_state by blast
  ultimately have "select False r (schar c) = St (name_next n (schar c))" using name_rows assms(2) unfolding list_all_iff by fastforce
  moreover have "name_next n (schar c) \<noteq> 0" by (simp add: name_next_def Let_def)
  ultimately show ?thesis using r name_next_at [OF assms(1)] by blast
qed

definition first_state :: "int \<Rightarrow> nat" where
  "first_state k = (if k = 67 \<or> k = 99 then 25 else if k = 84 \<or> k = 116 then 44 else 21)"

definition other_class :: "(int \<times> int) list" where
  "other_class = [(33, 33), (35, 39), (42, 43), (45, 46), (48, 57), (65, 66), (68, 83), (85, 90), (94, 98), (100, 115), (117, 122), (124, 124), (126, 126)]"

lemma other_rows:
  "class_to (the (find_state httpclient_parser_code 20)) other_class (Tr 35)" "class_to (the (find_state httpclient_parser_code 43)) other_class (Tr 76)"
  by (simp_all add: cp_rows other_class_def)

lemma in_class_Cons: "in_class ((lo, hi) # rs) k \<longleftrightarrow> lo \<le> k \<and> k \<le> hi \<or> in_class rs k"
  by (simp add: in_class_def)

lemma other_token:
  assumes "in_class token_class k" "k \<notin> {67, 99, 84, 116}"
  shows "in_class other_class k"
proof -
  have "65 \<le> k \<and> k \<le> 90 \<Longrightarrow> 65 \<le> k \<and> k \<le> 66 \<or> 68 \<le> k \<and> k \<le> 83 \<or> 85 \<le> k \<and> k \<le> 90"
    "94 \<le> k \<and> k \<le> 122 \<Longrightarrow> 94 \<le> k \<and> k \<le> 98 \<or> 100 \<le> k \<and> k \<le> 115 \<or> 117 \<le> k \<and> k \<le> 122"
    using assms(2) unfolding insert_iff by linarith+
  then show ?thesis using assms(1) unfolding token_class_def other_class_def in_class_Cons by (elim disjE) (simp_all, blast+)
qed

lemma first_select:
  assumes "in_class token_class k"
  shows "select False (the (find_state httpclient_parser_code 20)) k = Tr (if first_state k = 25 then 36 else if first_state k = 44 then 37 else 35)"
    "select False (the (find_state httpclient_parser_code 43)) k = Tr (if first_state k = 25 then 77 else if first_state k = 44 then 78 else 76)"
proof -
  show "select False (the (find_state httpclient_parser_code 20)) k = Tr (if first_state k = 25 then 36 else if first_state k = 44 then 37 else 35)"
  proof (cases "k \<in> {67, 99, 84, 116}")
    case True
    then show ?thesis by (elim insertE emptyE) (simp_all add: cp_rows client_select first_state_def)
  next
    case False
    then show ?thesis using class_to_select [OF other_rows(1) other_token [OF assms False]] by (simp add: first_state_def)
  qed
  show "select False (the (find_state httpclient_parser_code 43)) k = Tr (if first_state k = 25 then 77 else if first_state k = 44 then 78 else 76)"
  proof (cases "k \<in> {67, 99, 84, 116}")
    case True
    then show ?thesis by (elim insertE emptyE) (simp_all add: cp_rows client_select first_state_def)
  next
    case False
    then show ?thesis using class_to_select [OF other_rows(2) other_token [OF assms False]] by (simp add: first_state_def)
  qed
qed

lemma first_at: "name_at (first_state (schar c)) [c]"
proof -
  have "schar c = 67 \<or> schar c = 99 \<Longrightarrow> tolower c = CHR ''c''" "schar c = 84 \<or> schar c = 116 \<Longrightarrow> tolower c = CHR ''t''"
    by (rule tolower_key; auto simp: schar_def)+
  then show ?thesis by (auto simp: first_state_def name_at_def name_prefix_def)
qed

lemma state_row: "1 \<le> n \<Longrightarrow> n \<le> 123 \<Longrightarrow> find_state httpclient_parser_code n = Some (the (find_state httpclient_parser_code n))"
  using httpclient_parser_state by simp

lemma reads_first:
  assumes "n \<in> {20, 43}" "in_class token_class (schar c)"
  shows "\<exists>i. cr.reads b p [c] n ps [] (first_state (schar c)) (ps\<lparr>close := i, field_start := p\<rparr>)"
proof -
  have k: "first_state (schar c) \<in> {25, 44, 21}" by (simp add: first_state_def)
  have a: "cr.reads b p [c] 20 ps [] (first_state (schar c)) (ps\<lparr>close := close ps, field_start := p\<rparr>)"
    by (rule cr.reads_Tr [where new = "[]" and as = "[Start_field]", OF state_row first_select(1) [OF assms(2)]]) (use k in \<open>auto simp: cp_trans\<close>)
  have b: "cr.reads b p [c] 43 ps [] (first_state (schar c)) (ps\<lparr>close := 1, field_start := p\<rparr>)"
    by (rule cr.reads_Tr [where new = "[]" and as = "[Close, Start_field]", OF state_row first_select(2) [OF assms(2)]]) (use k in \<open>auto simp: cp_trans\<close>)
  from assms(1) show ?thesis
  proof (elim insertE emptyE)
    assume "n = 20"
    then show ?thesis by (intro exI) (simp only:, rule a)
  next
    assume "n = 43"
    then show ?thesis by (intro exI) (simp only:, rule b)
  qed
qed

text \<open>Where the value begins: two names have states of their own, and the third one is for chunked bodies.\<close>

definition value_start :: "nat \<Rightarrow> nat" where
  "value_start n = (if n = 34 then 35 else if n = 111 then 112 else 22)"

definition colon_label :: "nat \<Rightarrow> nat" where
  "colon_label n = (if n = 34 then 58 else if n = 111 then 148 else 39)"

lemma colon_rows:
  "list_all (\<lambda>n. select False (the (find_state httpclient_parser_code n)) 58 = Tr (colon_label n)) ([21] @ [25..<35] @ [101..<112] @ [44..<60])"
  by (simp add: upt_rec cp_rows client_select colon_label_def)

lemma colon_trans: "find_transition httpclient_parser_code (colon_label n) = Some ([Write_field], value_start n)"
  by (simp add: colon_label_def value_start_def cp_trans)

definition space_label :: "nat \<Rightarrow> nat" where
  "space_label a = (if a = 35 then 59 else if a = 112 then 149 else 41)"

lemma space_rows:
  assumes "a \<in> {22, 35, 112}"
  shows "select False (the (find_state httpclient_parser_code a)) 32 = Tr (space_label a)"
    "find_transition httpclient_parser_code (space_label a) = Some ([Mark], a)"
  using assms by (auto simp: cp_rows client_select cp_trans space_label_def)

definition special_name :: "string \<Rightarrow> bool" where
  "special_name k \<longleftrightarrow> map tolower k = ''connection'' \<or> map tolower k = ''content-length''"

definition chunk_name :: "string \<Rightarrow> bool" where
  "chunk_name k \<longleftrightarrow> map tolower k = ''transfer-encoding''"

lemma reads_field_name:
  assumes "k \<noteq> []" "\<forall>c\<in>set k. in_class token_class (schar c)" "\<not> chunk_name k" "n \<in> {20, 43}"
  shows "\<exists>a i. a \<in> {22, 35, 112} \<and> (a \<noteq> 22 \<longrightarrow> special_name k)
     \<and> cr.reads b p (k @ '': '') n ps [] a (ps\<lparr>close := i, field_start := p, field_len := length k, mark := p + length k + 1\<rparr>)"
proof -
  obtain c cs where k: "k = c # cs" using assms(1) by (cases k) auto
  obtain i where i: "cr.reads b p [c] n ps [] (first_state (schar c)) (ps\<lparr>close := i, field_start := p\<rparr>)"
    using reads_first [OF assms(4), of c] assms(2) k by (meson list.set_intros(1))
  let ?ps = "ps\<lparr>close := i, field_start := p\<rparr>"
  obtain m where m: "name_at m ([c] @ cs)" "cr.reads b (p + length [c]) cs (first_state (schar c)) ?ps [] m ?ps"
    using cr.reads_along [where J = name_at and C = "in_class token_class", OF name_step first_at, of cs c] assms(2) k by fastforce
  have "m \<in> set ([21] @ [25..<35] @ [101..<112] @ [44..<60])"
    using name_states [of m] m(1) assms(3) k unfolding set_append set_upt Un_iff atLeastLessThan_iff
    by (cases "m = 60") (auto simp: name_at_def name_prefix_def chunk_name_def)
  then have r: "select False (the (find_state httpclient_parser_code m)) 58 = Tr (colon_label m)" and ms: "1 \<le> m" "m \<le> 123"
    using colon_rows unfolding list_all_iff set_append set_upt Un_iff atLeastLessThan_iff by auto
  have c: "cr.reads b (p + length k) '':'' m ?ps [] (value_start m) (?ps\<lparr>field_len := length k\<rparr>)"
    by (rule cr.reads_Tr [where new = "[]", OF state_row [OF ms] _ colon_trans]) (use r in \<open>simp_all add: schar_def client_report\<close>)
  have a: "value_start m \<in> {22, 35, 112}" by (simp add: value_start_def)
  have d: "cr.reads b (p + length k + length '':'') '' '' (value_start m) (?ps\<lparr>field_len := length k\<rparr>) [] (value_start m)
      (?ps\<lparr>field_len := length k, mark := p + length k + 1\<rparr>)"
    by (rule cr.reads_Tr [where new = "[]", OF state_row _ space_rows(2) [OF a]])
       (use space_rows(1) [OF a] a in \<open>auto simp: schar_def\<close>)
  have "value_start m \<noteq> 22 \<longrightarrow> special_name k"
    using m(1) k by (auto simp: value_start_def name_at_def name_prefix_def special_name_def)
  moreover have "cr.reads b p (k @ '': '') n ps [] (value_start m) (?ps\<lparr>field_len := length k, mark := p + length k + 1\<rparr>)"
    using cr.reads_append [OF cr.reads_append [OF i m(2)], of "'':'' @ '' ''"] cr.reads_append [OF c d] k by simp
  ultimately show ?thesis using a by (intro exI [of _ "value_start m"] exI [of _ i]) simp
qed

section \<open>The values of fields\<close>

text \<open>The states inside a value: the two values that the parser treats on its own, and every other value.\<close>

definition value_states :: "nat set" where
  "value_states = {23, 96, 97, 98, 99, 100, 119}"

lemma value_step:
  assumes "n \<in> value_states" "k \<noteq> 10" "k \<noteq> 13"
  shows "\<exists>m. select False (the (find_state httpclient_parser_code n)) k = St m \<and> m \<noteq> 0 \<and> m \<in> value_states"
  using assms unfolding value_states_def by (elim insertE emptyE) (simp_all add: cp_rows client_select)

lemma value_end:
  assumes "n \<in> value_states"
  shows "\<exists>t as m. select False (the (find_state httpclient_parser_code n)) 13 = Tr t \<and> find_transition httpclient_parser_code t = Some (as, m)
     \<and> (as = [Write_value] \<or> as = [Write_content_len, Write_value]) \<and> m \<in> {24, 88}"
  using assms unfolding value_states_def by (elim insertE emptyE) (simp_all add: cp_rows client_select cp_trans)

definition value_first :: "string \<Rightarrow> bool" where
  "value_first v \<longleftrightarrow> (v \<noteq> [] \<longrightarrow> schar (hd v) \<noteq> 32 \<and> \<not> (9 \<le> schar (hd v) \<and> schar (hd v) \<le> 13))"

lemma value_enter:
  assumes "a \<in> {22, 35, 112}" "k \<noteq> 32" "\<not> (9 \<le> k \<and> k \<le> 13)"
  shows "\<exists>t m. select False (the (find_state httpclient_parser_code a)) k = Tr t \<and> find_transition httpclient_parser_code t = Some ([Mark], m)
     \<and> m \<in> value_states"
  using assms unfolding value_states_def by (elim insertE emptyE) (auto simp: cp_rows client_select cp_trans)

lemma value_state_bounds: "n \<in> value_states \<Longrightarrow> 1 \<le> n \<and> n \<le> 123"
  by (auto simp: value_states_def)

lemma reads_field_value:
  assumes "callbacks ps = UNIV" "line_text v" "value_first v" "a \<in> {22, 35, 112}" "v = [] \<longrightarrow> a = 22"
  shows "\<exists>n ps'. n \<in> {20, 43}
     \<and> cr.reads b p (v @ CRLF) a ps [EvRspField (part_of b (field_start ps) (field_len ps)) (part_of b p (length v))] n ps'"
proof -
  let ?ps = "ps\<lparr>mark := p\<rparr>" and ?ev = "EvRspField (part_of b (field_start ps) (field_len ps)) (part_of b p (length v))"
  have lf: "\<exists>n. n \<in> {20, 43} \<and> cr.reads b q [CHR 0x0A] m ps' [] n ps'" if "m \<in> {24, 88}" for m q ps'
    using that reads_lf by auto
  show ?thesis
  proof (cases v)
    case Nil
    have "cr.reads b p [CHR 0x0D] 22 ps [?ev] 24 ?ps"
      by (rule cr.reads_Tr [where new = "[Field (field_start ps) (field_len ps) p 0]", OF _ _ cp_trans(14)], rule cp_rows)
         (use assms(1) Nil in \<open>simp_all add: client_select schar_def client_report\<close>)
    from cr.reads_append [OF this reads_lf(1)] show ?thesis using Nil assms(5) by (auto simp: CRLF_def)
  next
    case (Cons c cs)
    obtain t m where m: "select False (the (find_state httpclient_parser_code a)) (schar c) = Tr t"
      "find_transition httpclient_parser_code t = Some ([Mark], m)" "m \<in> value_states"
      using value_enter [OF assms(4), of "schar c"] assms(3) Cons by (auto simp: value_first_def)
    have 1: "cr.reads b p [c] a ps [] m ?ps"
      by (rule cr.reads_Tr [where new = "[]", OF state_row m(1,2)]) (use assms(4) in auto)
    have step: "\<exists>r m. find_state httpclient_parser_code n = Some r \<and> select False r (schar c) = St m \<and> m \<noteq> 0 \<and> m \<in> value_states"
      if "n \<in> value_states" "schar c \<noteq> 10 \<and> schar c \<noteq> 13" for n and s :: string and c
      using value_step [of n "schar c"] that state_row [of n] value_state_bounds [of n] by blast
    have "\<forall>c\<in>set cs. schar c \<noteq> 10 \<and> schar c \<noteq> 13" using assms(2) Cons by (simp add: line_text_def)
    from cr.reads_along [where J = "\<lambda>n _. n \<in> value_states" and C = "\<lambda>k. k \<noteq> 10 \<and> k \<noteq> 13" and s = "[]", OF step m(3) this]
    obtain m' where m': "m' \<in> value_states" "cr.reads b (p + length [c]) cs m ?ps [] m' ?ps" by blast
    obtain t' as n' where e: "select False (the (find_state httpclient_parser_code m')) 13 = Tr t'"
      "find_transition httpclient_parser_code t' = Some (as, n')" "as = [Write_value] \<or> as = [Write_content_len, Write_value]" "n' \<in> {24, 88}"
      using value_end [OF m'(1)] by blast
    define ps' where "ps' = (if as = [Write_value] then ?ps else ?ps\<lparr>content_len := strtol 10 (drop p b)\<rparr>)"
    have 2: "cr.reads b (p + length v) [CHR 0x0D] m' ?ps [?ev] n' ps'"
      by (rule cr.reads_Tr [where new = "[Field (field_start ps) (field_len ps) p (length v)]", OF state_row _ e(2)])
         (use value_state_bounds [OF m'(1)] e(1,3) assms(1) in \<open>auto simp: ps'_def schar_def client_report\<close>)
    obtain n where n: "n \<in> {20, 43}" "cr.reads b (p + length v + length [CHR 0x0D]) [CHR 0x0A] n' ps' [] n ps'" using lf [OF e(4)] by blast
    have "cr.reads b p (v @ CRLF) a ps [?ev] n ps'"
      using cr.reads_append [OF cr.reads_append [OF 1 m'(2)], of CRLF] cr.reads_append [OF 2 n(2)] Cons by (simp add: CRLF_def)
    then show ?thesis using n(1) by blast
  qed
qed

section \<open>Fields\<close>

definition rsp_field_ok :: "string \<times> string \<Rightarrow> bool" where
  "rsp_field_ok h \<longleftrightarrow>
     fst h \<noteq> [] \<and> (\<forall>c\<in>set (fst h). in_class token_class (schar c)) \<and> line_text (snd h) \<and> value_first (snd h)
     \<and> \<not> chunk_name (fst h) \<and> (snd h = [] \<longrightarrow> \<not> special_name (fst h))"

lemma reads_rsp_field:
  assumes "callbacks ps = UNIV" "rsp_field_ok (k, v)" "b = pre @ k @ '': '' @ v @ post" "p = length pre" "n \<in> {20, 43}"
  shows "\<exists>n' ps'. n' \<in> {20, 43} \<and> cr.reads b p (k @ '': '' @ v @ CRLF) n ps [EvRspField k v] n' ps'"
proof -
  have ok: "k \<noteq> []" "\<forall>c\<in>set k. in_class token_class (schar c)" "\<not> chunk_name k" "line_text v" "value_first v"
    "v = [] \<longrightarrow> \<not> special_name k"
    using assms(2) by (simp_all add: rsp_field_ok_def)
  obtain a i where a: "a \<in> {22, 35, 112}" "a \<noteq> 22 \<longrightarrow> special_name k"
    "cr.reads b p (k @ '': '') n ps [] a (ps\<lparr>close := i, field_start := p, field_len := length k, mark := p + length k + 1\<rparr>)"
    using reads_field_name [OF ok(1-3) assms(5)] by blast
  let ?ps = "ps\<lparr>close := i, field_start := p, field_len := length k, mark := p + length k + 1\<rparr>"
  have parts: "part_of b p (length k) = k" "part_of b (p + length (k @ '': '')) (length v) = v"
    using part_of_mid [of b pre k "'': '' @ v @ post"] part_of_mid [of b "pre @ k @ '': ''" v post] assms(3,4) by simp_all
  have "v = [] \<longrightarrow> a = 22" using a(2) ok(6) by blast
  then obtain n' ps' where "n' \<in> {20, 43}" "cr.reads b (p + length (k @ '': '')) (v @ CRLF) a ?ps [EvRspField k v] n' ps'"
    using reads_field_value [of ?ps v a b "p + length (k @ '': '')"] a(1) assms(1) ok(4,5) parts by auto
  then show ?thesis using cr.reads_append [OF a(3)] by fastforce
qed

lemma reads_rsp_fields:
  "callbacks ps = UNIV \<Longrightarrow> list_all rsp_field_ok hs \<Longrightarrow> b = pre @ concat (map field_text hs) @ post \<Longrightarrow> p = length pre \<Longrightarrow> n \<in> {20, 43} \<Longrightarrow>
   \<exists>n' ps'. n' \<in> {20, 43} \<and> cr.reads b p (concat (map field_text hs)) n ps (map (\<lambda>(k, v). EvRspField k v) hs) n' ps'"
proof (induction hs arbitrary: ps pre p n)
  case Nil
  then show ?case by (intro exI [of _ n] exI [of _ ps]) (simp add: cr.reads_Nil)
next
  case (Cons h hs)
  obtain k v where h: "h = (k, v)" by fastforce
  have "b = pre @ k @ '': '' @ v @ CRLF @ concat (map field_text hs) @ post"
    unfolding Cons.prems(3) h by (simp add: field_text_def [of "(k, v)"])
  then obtain n1 ps1 where 1: "n1 \<in> {20, 43}" "cr.reads b p (field_text h) n ps [EvRspField k v] n1 ps1"
    using reads_rsp_field [of ps k v b pre "CRLF @ concat (map field_text hs) @ post" p n] Cons.prems h by (auto simp: field_text_def)
  have "callbacks ps1 = UNIV" using client_callbacks [OF 1(2)] Cons.prems(1) by simp
  then obtain n' ps' where "n' \<in> {20, 43}"
    "cr.reads b (p + length (field_text h)) (concat (map field_text hs)) n1 ps1 (map (\<lambda>(k, v). EvRspField k v) hs) n' ps'"
    using Cons.IH [of ps1 "pre @ field_text h" "p + length (field_text h)" n1] Cons.prems(2-4) 1(1) by auto
  then show ?case using cr.reads_append [OF 1(2)] h by fastforce
qed

section \<open>Responses\<close>

definition reason_text :: "HttpResponse \<Rightarrow> string" where
  "reason_text r = (if m_reason r = [] then HttpStatusToString (m_status r) else m_reason r)"

definition response_fields :: "HttpResponse \<Rightarrow> (string \<times> string) list" where
  "response_fields r =
     kept_headers (r_websocket r) (r_headers r) @ map (\<lambda>c. (''Set-Cookie'', c)) (r_cookies r)
     @ (if r_websocket r then [] else [(''connection'', if r_close r then ''close'' else ''keep-alive'')])
     @ (if r_body r = [] then [] else [(''content-length'', dec (length (r_body r)))])"

definition response_ok :: "HttpResponse \<Rightarrow> bool" where
  "response_ok r \<longleftrightarrow>
     (r_version r = 0x11 \<or> r_version r = 0x10) \<and> line_text (m_reason r) \<and> list_all rsp_field_ok (r_headers r)
     \<and> list_all (\<lambda>c. line_text c \<and> value_first c) (r_cookies r)"

definition response_events :: "HttpResponse \<Rightarrow> response_event list" where
  "response_events r =
     [EvRspVersion (rsp_dump r) 8, EvStatus (drop 9 (rsp_dump r)), EvReason (reason_text r)]
     @ map (\<lambda>(k, v). EvRspField k v) (response_fields r) @ [EvRspHeaderDone (r_body r)]"

lemma rsp_dump_parts:
  "rsp_dump r = (version_text (r_version r) @ '' '') @ (status_text (m_status r) @ '' '') @ (reason_text r @ CRLF)
     @ concat (map field_text (response_fields r)) @ CRLF @ r_body r"
proof -
  have "concat (map (\<lambda>c. ''Set-Cookie: '' @ c @ CRLF) cs) = concat (map field_text (map (\<lambda>c. (''Set-Cookie'', c)) cs))" for cs
    by (induction cs) (auto simp: field_text_def)
  then show ?thesis
    by (auto simp: rsp_dump_def reason_text_def connection_line_def body_part_def response_fields_def concat_kept field_text_def)
qed

lemma dec_field: "line_text (dec n)" "value_first (dec n)" "digits_only (dec n)"
proof -
  have d: "c \<in> set (dec n) \<Longrightarrow> 48 \<le> schar c \<and> schar c \<le> 57" for c using dec_digits [of c n] by (simp add: schar_def Let_def)
  then show "line_text (dec n)" by (fastforce simp: line_text_def)
  have "hd (dec n) \<in> set (dec n)" using dec_nonempty by simp
  then show "value_first (dec n)" using d by (fastforce simp: value_first_def)
  show "digits_only (dec n)" using d dec_nonempty by (simp add: digits_only_def)
qed

lemma reason_ok: "line_text (m_reason r) \<Longrightarrow> line_text (reason_text r) \<and> reason_text r \<noteq> []"
proof -
  have t: "list_all (\<lambda>e. snd e \<noteq> [] \<and> line_text (snd e)) HTTP_STATUS_MAP" by (simp add: HTTP_STATUS_MAP_def line_text_def schar_def)
  have "line_text ''<unknown>''" by (simp add: line_text_def schar_def)
  then have "HttpStatusToString s \<noteq> [] \<and> line_text (HttpStatusToString s)" for s
    using t by (auto simp: HttpStatusToString_def list_all_iff split: option.split dest!: map_of_SomeD)
  then show "line_text (m_reason r) \<Longrightarrow> line_text (reason_text r) \<and> reason_text r \<noteq> []" by (simp add: reason_text_def)
qed

lemma response_fields_ok:
  assumes "response_ok r"
  shows "list_all rsp_field_ok (response_fields r)"
proof -
  have "rsp_field_ok (''connection'', ''close'')" "rsp_field_ok (''connection'', ''keep-alive'')"
    by (simp_all add: rsp_field_ok_def in_class_def token_class_def schar_def line_text_def value_first_def tolower_def special_name_def chunk_name_def)
  moreover have "rsp_field_ok (''content-length'', dec n)" for n
    using dec_field [of n] dec_nonempty [of n] by (simp add: rsp_field_ok_def in_class_def token_class_def schar_def tolower_def special_name_def chunk_name_def)
  moreover have "rsp_field_ok (''Set-Cookie'', c)" if "line_text c" "value_first c" for c
    using that by (simp add: rsp_field_ok_def in_class_def token_class_def schar_def tolower_def special_name_def chunk_name_def)
  moreover have "list_all rsp_field_ok (kept_headers ws (r_headers r))" for ws
    using assms by (auto simp: kept_headers_def list_all_iff response_ok_def)
  ultimately show ?thesis using assms by (auto simp: response_fields_def response_ok_def list_all_iff)
qed

text \<open>The head of a response, from the start to the empty line.\<close>

lemma reads_rsp_head:
  assumes "response_ok r" "callbacks ps = UNIV" "rsp_dump r = head @ CRLF @ r_body r"
  shows "\<exists>n ps'. n \<in> {20, 43} \<and> cr.reads (rsp_dump r) 0 head 1 ps (butlast (response_events r)) n ps'"
proof -
  define b v s t fs where "b = rsp_dump r" and "v = version_text (r_version r) @ '' ''" and "s = status_text (m_status r) @ '' ''"
    and "t = reason_text r @ CRLF" and "fs = concat (map field_text (response_fields r))"
  have b: "b = v @ s @ t @ fs @ CRLF @ r_body r" using rsp_dump_parts by (simp add: b_def v_def s_def t_def fs_def)
  then have head: "head = v @ s @ t @ fs" using assms(3) by (simp add: b_def)
  have vt: "version_text (r_version r) = ''HTTP/1.1'' \<or> version_text (r_version r) = ''HTTP/1.0''"
    using assms(1) version_texts by (auto simp: response_ok_def)
  then have lv: "length v = 9" by (auto simp: v_def)
  have 1: "cr.reads b 0 v 1 ps [EvRspVersion (drop 0 b) 8] 16 (ps\<lparr>mark := 0\<rparr>)"
    unfolding v_def by (rule reads_rsp_version [OF assms(2) vt])
  obtain i where 2: "cr.reads b (0 + length v) s 16 (ps\<lparr>mark := 0\<rparr>) [EvStatus (drop 9 b)] 18 (ps\<lparr>mark := 9, status := i\<rparr>)"
    using reads_status [of "ps\<lparr>mark := 0\<rparr>" "status_text (m_status r)" b 9] assms(2) lv dec_field(3) by (auto simp: s_def status_text_def)
  let ?ps = "ps\<lparr>mark := 9, status := i\<rparr>"
  have 3: "cr.reads b (0 + length v + length s) t 18 ?ps [EvReason (reason_text r)] 20 (?ps\<lparr>mark := 0 + length v + length s\<rparr>)"
    unfolding t_def
    by (rule reads_reason [where pre = "v @ s" and post = "CRLF @ fs @ CRLF @ r_body r"])
       (use assms(1,2) reason_ok [of r] b in \<open>auto simp: response_ok_def t_def\<close>)
  obtain n ps' where 4: "n \<in> {20, 43}" "cr.reads b (0 + length v + length s + length t) fs 20 (?ps\<lparr>mark := 0 + length v + length s\<rparr>)
      (map (\<lambda>(k, v). EvRspField k v) (response_fields r)) n ps'"
    using reads_rsp_fields [of "?ps\<lparr>mark := 0 + length v + length s\<rparr>" "response_fields r" b "v @ s @ t" "CRLF @ r_body r" "0 + length v + length s + length t" 20]
      response_fields_ok [OF assms(1)] assms(2) b by (auto simp: fs_def)
  have "cr.reads b 0 (v @ s @ t @ fs) 1 ps ([EvRspVersion (drop 0 b) 8] @ [EvStatus (drop 9 b)] @ [EvReason (reason_text r)]
      @ map (\<lambda>(k, v). EvRspField k v) (response_fields r)) n ps'"
    by (intro cr.reads_append [OF 1] cr.reads_append [OF 2] cr.reads_append [OF 3] 4(2))
  then show ?thesis using 4(1) unfolding head b_def [symmetric] by (auto simp: response_events_def butlast_append b_def)
qed

text \<open>The empty line ends the loop.\<close>

lemma exec_rsp_head:
  assumes "cr.reads b 0 head (cs ps) ps evs n ps'" "n \<in> {20, 43}" "b = head @ CRLF @ body" "callbacks ps = UNIV"
  shows "\<exists>q calls. httpclient_parser_exec ps b 0 = Inr (120, length head + 2, q, calls)
     \<and> map (client_event b) calls = evs @ [EvRspHeaderDone body] \<and> chunked q = chunked ps"
proof -
  note same = client_fixed_fields [OF cr.reads_fixed [OF assms(1)]]
  have "\<exists>i. cr.reads b (0 + length head) [CHR 0x0D] n ps' [] 3 (ps'\<lparr>close := i\<rparr>)"
  proof (cases "n = 20")
    case True
    have "cr.reads b (0 + length head) [CHR 0x0D] 20 ps' [] 3 (ps'\<lparr>close := close ps'\<rparr>)"
      by (simp, rule cr.reads_St, rule cp_rows) (simp_all add: client_select schar_def)
    then show ?thesis unfolding True by (rule exI)
  next
    case False
    have "cr.reads b (0 + length head) [CHR 0x0D] 43 ps' [] 3 (ps'\<lparr>close := 1\<rparr>)"
      by (rule cr.reads_Tr [where new = "[]", OF _ _ cp_trans(19)], rule cp_rows) (simp_all add: client_select schar_def)
    then show ?thesis using False assms(2) by auto
  qed
  then obtain i where cr: "cr.reads b (0 + length head) [CHR 0x0D] n ps' [] 3 (ps'\<lparr>close := i\<rparr>)" ..
  let ?call = "Element header_done_cb (length head + 2) (length b - (length head + 1) - 1)"
  let ?ps = "ps'\<lparr>close := i, body_start := length head + 2\<rparr>"
  have body: "part_of b (length head + 2) (length b - (length head + 1) - 1) = body" by (simp add: assms(3) CRLF_def part_of_def)
  have "\<exists>calls. ragel_run httpclient_parser_code (client_act b) client_brk False 0 ((head @ [CHR 0x0D]) @ CHR 0x0A # body) (cs ps) (ps, [])
       = Inr (120, 0 + length (head @ [CHR 0x0D]) + 1, ?ps, calls)
     \<and> map (client_event b) calls = (evs @ []) @ [EvRspHeaderDone body]"
    by (rule cr.reads_break [where new' = "[?call]", OF cr.reads_append [OF assms(1) cr] _ _ cp_trans(2)], rule cp_rows)
       (use same assms(4) body in \<open>simp_all add: client_select schar_def element_def\<close>)
  then show ?thesis using same(4) by (auto simp: httpclient_parser_exec_def assms(3) CRLF_def)
qed

lemma response_run:
  assumes "response_ok r" "length (rsp_dump r) < 2 ^ 31" "callbacks parser = UNIV"
  shows "\<exists>parser' calls. httpclient_parser_execute (httpclient_parser_init parser) (rsp_dump r) (CHR 0x00) 0
       = Inr (parser', int (length (rsp_dump r) - length (r_body r)), calls)
     \<and> httpclient_parser_finish parser' = 1 \<and> chunked parser' = 0 \<and> map (client_event (rsp_dump r)) calls = response_events r"
proof -
  define b where "b = rsp_dump r"
  let ?ps = "(httpclient_parser_init parser)\<lparr>nread := 0, mark := 0, field_len := 0, field_start := 0\<rparr>"
  obtain head where head: "b = head @ CRLF @ r_body r" using rsp_dump_parts [of r] by (simp add: b_def)
  have ps: "callbacks ?ps = UNIV" "chunked ?ps = 0" "cs ?ps = 1" "body_start ?ps = 0"
    using assms(3) by (simp_all add: httpclient_parser_init_def httpclient_parser_start_def)
  obtain n ps' where "n \<in> {20, 43}" "cr.reads b 0 head (cs ?ps) ?ps (butlast (response_events r)) n ps'"
    using reads_rsp_head [OF assms(1) ps(1)] head ps(3) by (auto simp: b_def)
  then obtain q calls where q: "httpclient_parser_exec ?ps b 0 = Inr (120, length head + 2, q, calls)"
    "map (client_event b) calls = butlast (response_events r) @ [EvRspHeaderDone (r_body r)]" "chunked q = 0"
    using exec_rsp_head [OF _ _ head ps(1)] ps(2) by metis
  have len: "length b = length head + 2 + length (r_body r)" using head by (simp add: CRLF_def)
  have bn: "b \<noteq> []" using len by auto
  obtain cs' p q' calls' where e: "httpclient_parser_exec ?ps b 0 = Inr (cs', p, q', calls')"
    "httpclient_parser_execute (httpclient_parser_init parser) b (CHR 0x00) 0 = Inr (q'\<lparr>cs := cs', nread := p - 0\<rparr>, int (p - 0), calls')"
    by (rule client_execute_run [of 0 b "httpclient_parser_init parser"]) (use assms(2) bn ps(3,4) in \<open>auto simp: b_def [symmetric]\<close>)
  then have "httpclient_parser_execute (httpclient_parser_init parser) b (CHR 0x00) 0
      = Inr (q\<lparr>cs := 120, nread := length head + 2\<rparr>, int (length head + 2), calls)" using q(1) by auto
  moreover have "map (client_event b) calls = response_events r" using q(2) by (simp add: response_events_def butlast_append)
  moreover have "length b - length (r_body r) = length head + 2" using len by simp
  ultimately show ?thesis
    unfolding b_def [symmetric] using q(3)
    by (auto simp: httpclient_parser_finish_def httpclient_parser_has_error_def httpclient_parser_is_finished_def
        httpclient_parser_error_def httpclient_parser_first_final_def)
qed

text \<open>
  C12: a response that was printed, arrives in one buffer and is followed by a zero byte is parsed as what it is:
  the parser stops where the body begins, is finished and not in chunks, and has reported the version, the
  status and the reason, every header, cookie and the body as they were printed, in this order. Names have to
  be tokens other than \<open>Transfer-Encoding\<close>, values have no line ends and do not begin with a space.
\<close>
theorem response_parsed:
  assumes "response_ok r" "length (rsp_dump r) < 2 ^ 31" "callbacks parser = UNIV"
  shows "\<exists>parser' calls. httpclient_parser_execute (httpclient_parser_init parser) (rsp_dump r) (CHR 0x00) 0
       = Inr (parser', int (length (rsp_dump r) - length (r_body r)), calls)
     \<and> httpclient_parser_finish parser' = 1 \<and> chunked parser' = 0 \<and> map (client_event (rsp_dump r)) calls = response_events r"
  by (rule response_run [OF assms])

text \<open>The answer to a request for a page.\<close>

definition sample_rsp :: HttpResponse where
  "sample_rsp = (new_HttpResponse False 0x11 True)
     \<lparr>m_status := 200, r_headers := [(''Content-Type'', ''text/html'')], r_cookies := [''id=1''], r_body := ''hello''\<rparr>"

lemma sample_rsp_ok: "response_ok sample_rsp"
  by code_simp

theorem response_parsed_witness:
  "\<exists>parser' calls. httpclient_parser_execute (httpclient_parser_init fresh_client) (rsp_dump sample_rsp) (CHR 0x00) 0
       = Inr (parser', int (length (rsp_dump sample_rsp) - length ''hello''), calls)
     \<and> httpclient_parser_finish parser' = 1 \<and> chunked parser' = 0 \<and> map (client_event (rsp_dump sample_rsp)) calls = response_events sample_rsp"
proof -
  have "length (rsp_dump sample_rsp) = 105" by code_simp
  then show ?thesis
    using response_parsed [OF sample_rsp_ok, of fresh_client]
    by (simp add: fresh_client_def httpclient_parser_init_def sample_rsp_def)
qed

end
