(* ===== verification/HttpExchange.thy ===== *)
theory HttpExchange
  imports HttpClientParse
begin

text \<open>
  The client with its own response parser: \<open>HttpResponseParser\<close> over the machine of \<open>httpclient_parser.cc\<close>, in
  \<open>HttpConnection::recvResponse\<close>. The theorem says what becomes of a response that the server prints.
\<close>

section \<open>The machine\<close>

text \<open>
  The machine as \<open>HttpResponseParser\<close> uses it: every callback is set, and a buffer is parsed from its start. The
  memory of the struct is \<open>m0\<close>, the byte behind what was received is \<open>at_pe\<close>. What would happen after a failed
  assertion, or after the result \<open>-1\<close>, which is taken for a length, is \<open>crash\<close>.
\<close>

definition client_machine ::
  "httpclient_parser \<Rightarrow> (string \<Rightarrow> char) \<Rightarrow> (httpclient_parser \<Rightarrow> string \<Rightarrow> httpclient_parser \<times> nat \<times> response_event list)
   \<Rightarrow> (httpclient_parser, response_event) client_ragel" where
  "client_machine m0 at_pe crash =
     \<lparr>r_init = (httpclient_parser_init m0)\<lparr>callbacks := UNIV\<rparr>,
      r_execute = (\<lambda>m b. case httpclient_parser_execute m b (at_pe b) 0 of Inl _ \<Rightarrow> crash m b
        | Inr (m', n, calls) \<Rightarrow> if n < 0 then crash m b else (m', nat n, map (client_event b) calls)),
      r_finish = httpclient_parser_finish, r_has_error = httpclient_parser_has_error,
      r_chunked = chunked, r_content_len = content_len, r_chunks_done = chunks_done\<rparr>"

section \<open>The callbacks of a response\<close>

definition set_fields :: "(string \<times> string) list \<Rightarrow> HttpResponse \<Rightarrow> HttpResponse" where
  "set_fields hs rsp = fold (\<lambda>(k, v). rsp_setHeader k v) hs rsp"

lemma fold_fields:
  "list_all (\<lambda>h. fst h \<noteq> []) hs \<Longrightarrow>
   fold response_cb (map (\<lambda>(k, v). EvRspField k v) hs) p = p\<lparr>rp_data := set_fields hs (rp_data p)\<rparr>"
proof (induction hs arbitrary: p)
  case (Cons h hs)
  then show ?case by (cases h) (simp add: on_response_http_field_def set_fields_def)
qed (simp add: set_fields_def)

text \<open>What the client makes of a printed response.\<close>

definition received :: "bool \<Rightarrow> HttpResponse \<Rightarrow> HttpResponse" where
  "received ws r = set_fields (response_fields r)
     ((new_HttpResponse ws 0x11 True)\<lparr>r_version := r_version r, m_status := m_status r, m_reason := reason_text r\<rparr>)"

lemma set_fields_frame [simp]:
  "r_body (set_fields hs rsp) = r_body rsp" "r_version (set_fields hs rsp) = r_version rsp"
  "m_status (set_fields hs rsp) = m_status rsp" "m_reason (set_fields hs rsp) = m_reason rsp"
  "r_cookies (set_fields hs rsp) = r_cookies rsp" "r_close (set_fields hs rsp) = r_close rsp"
  by (induction hs arbitrary: rsp) (auto simp: set_fields_def rsp_setHeader_def split_beta)

lemma received_frame:
  "r_version (received ws r) = r_version r" "m_status (received ws r) = m_status r" "m_reason (received ws r) = reason_text r"
  "r_cookies (received ws r) = []" "r_close (received ws r)" "r_body (received ws r) = []"
  by (simp_all add: received_def new_HttpResponse_def)

lemma version_event:
  assumes "v = 0x11 \<or> v = 0x10"
  shows "on_response_version (version_text v @ rest) 8 p = p\<lparr>rp_data := (rp_data p)\<lparr>r_version := v\<rparr>\<rparr>"
proof -
  have "c_str (''HTTP/1.1'' @ rest) = ''HTTP/1.1'' @ c_str rest" "c_str (''HTTP/1.0'' @ rest) = ''HTTP/1.0'' @ c_str rest"
    by (simp_all add: c_str_def)
  then show ?thesis using assms by (auto simp: on_response_version_def strncmp_eq_def version_texts c_str_def)
qed

lemma status_event:
  assumes "0 \<le> s" "s < 2 ^ 31"
  shows "on_response_status (status_text s @ CHR '' '' # rest) p = p\<lparr>rp_data := (rp_data p)\<lparr>m_status := s\<rparr>\<rparr>"
proof -
  have "int (unat (word_of_int s :: u32)) = s"
    using assms by (simp add: uint_word_of_int_eq take_bit_int_eq_self)
  then show ?thesis by (simp add: on_response_status_def status_text_def atoi_dec_space)
qed

lemma response_fold:
  assumes "response_ok r" "0 \<le> m_status r" "m_status r < 2 ^ 31"
  shows "fold response_cb (response_events r) \<lparr>rp_machine = m, rp_data = new_HttpResponse ws 0x11 True, rp_error = 0\<rparr>
     = \<lparr>rp_machine = m, rp_data = received ws r, rp_error = 0\<rparr>"
proof -
  have ne: "list_all (\<lambda>h. fst h \<noteq> []) (response_fields r)"
    using response_fields_ok [OF assms(1)] by (auto simp: list_all_iff rsp_field_ok_def)
  obtain rest where d: "rsp_dump r = version_text (r_version r) @ '' '' @ status_text (m_status r) @ CHR '' '' # rest"
    using rsp_dump_parts [of r] by simp
  have v: "r_version r = 0x11 \<or> r_version r = 0x10" using assms(1) by (simp add: response_ok_def)
  then have "drop 9 (rsp_dump r) = status_text (m_status r) @ CHR '' '' # rest" using d version_texts by auto
  then show ?thesis
    by (simp add: response_events_def on_response_reason_def received_def d fold_fields [OF ne] version_event [OF v] status_event [OF assms(2,3)])
qed

section \<open>Receiving a response\<close>

lemma set_fields_ok: "map_ok (r_headers rsp) \<Longrightarrow> map_ok (r_headers (set_fields hs rsp))"
  by (induction hs arbitrary: rsp) (auto simp: set_fields_def rsp_setHeader_def split_beta ci.map_put_sorted)

text \<open>Of the fields with one name the last one counts.\<close>

definition last_field :: "string \<Rightarrow> (string \<times> string) list \<Rightarrow> string option" where
  "last_field key hs = map_of (rev (map (\<lambda>(k, v). (ci_key k, v)) hs)) (ci_key key)"

lemma last_field_append: "last_field key (hs @ hs') = (case last_field key hs' of Some v \<Rightarrow> Some v | None \<Rightarrow> last_field key hs)"
  by (simp add: last_field_def map_add_def split: option.split)

lemma last_field_none: "\<forall>h\<in>set hs. ci_key (fst h) \<noteq> ci_key key \<Longrightarrow> last_field key hs = None"
  by (auto simp: last_field_def map_of_eq_None_iff image_image)

lemma set_fields_find:
  "map_ok (r_headers rsp) \<Longrightarrow> ci_find key (r_headers (set_fields hs rsp)) =
     (case last_field key hs of Some v \<Rightarrow> Some v | None \<Rightarrow> ci_find key (r_headers rsp))"
proof (induction hs rule: rev_induct)
  case (snoc h hs)
  then show ?case using set_fields_ok [OF snoc.prems, of hs]
    by (auto simp: set_fields_def rsp_setHeader_def split_beta ci.map_find_put last_field_def map_add_def)
qed (simp add: set_fields_def last_field_def)

lemma received_find: "ci_find key (r_headers (received ws r)) = last_field key (response_fields r)"
  unfolding received_def by (subst set_fields_find) (simp_all add: new_HttpResponse_def split: option.split)

text \<open>The names that the printer adds itself.\<close>

abbreviation own_field :: "string \<Rightarrow> bool" where
  "own_field k \<equiv> ci_key k \<in> {ci_key ''Set-Cookie'', ci_key ''connection'', ci_key ''content-length''}"

lemma own_fields: "ci_key ''Set-Cookie'' \<noteq> ci_key ''content-length''" "ci_key ''connection'' \<noteq> ci_key ''content-length''"
  "ci_key ''Set-Cookie'' \<noteq> ci_key ''connection''"
  by (simp_all add: ci_key_def c_str_def tolower_def)

lemma received_length:
  assumes "\<forall>h\<in>set (r_headers r). ci_key (fst h) \<noteq> ci_key ''content-length''"
  shows "ci_find ''content-length'' (r_headers (received ws r)) = (if r_body r = [] then None else Some (dec (length (r_body r))))"
proof -
  let ?hs = "kept_headers (r_websocket r) (r_headers r) @ map (\<lambda>c. (''Set-Cookie'', c)) (r_cookies r)
     @ (if r_websocket r then [] else [(''connection'', if r_close r then ''close'' else ''keep-alive'')])"
  have "last_field ''content-length'' ?hs = None" by (rule last_field_none) (use assms own_fields in \<open>auto simp: kept_headers_def\<close>)
  then show ?thesis
    unfolding received_find response_fields_def append.assoc [symmetric]
    by (subst last_field_append) (simp add: last_field_def)
qed

lemma received_cookie:
  assumes "r_cookies r \<noteq> []"
  shows "ci_find ''Set-Cookie'' (r_headers (received ws r)) = Some (last (r_cookies r))"
  unfolding received_find response_fields_def
  using assms own_fields by (cases "r_cookies r" rule: rev_cases) (simp_all add: last_field_def map_add_def)

lemma map_ok_keys: "map_ok m \<Longrightarrow> distinct (map (\<lambda>h. ci_key (fst h)) m)"
  by (induction m) (auto simp: ci_less_iff)

lemma last_field_unique:
  assumes "distinct (map (\<lambda>h. ci_key (fst h)) hs)" "(k, v) \<in> set hs"
  shows "last_field k hs = Some v"
proof -
  have "map fst (rev (map (\<lambda>(k, v). (ci_key k, v)) hs)) = rev (map (\<lambda>h. ci_key (fst h)) hs)" by (simp add: rev_map split_beta)
  then have "distinct (map fst (rev (map (\<lambda>(k, v). (ci_key k, v)) hs)))" using assms(1) by (simp only: distinct_rev)
  then show ?thesis unfolding last_field_def by (rule map_of_is_SomeI) (use assms(2) in force)
qed

lemma received_header:
  assumes "map_ok (r_headers r)" "(k, v) \<in> set (r_headers r)" "\<not> own_field k"
  shows "ci_find k (r_headers (received ws r)) = Some v"
proof -
  let ?kept = "kept_headers (r_websocket r) (r_headers r)"
  let ?own = "map (\<lambda>c. (''Set-Cookie'', c)) (r_cookies r)
     @ (if r_websocket r then [] else [(''connection'', if r_close r then ''close'' else ''keep-alive'')])
     @ (if r_body r = [] then [] else [(''content-length'', dec (length (r_body r)))])"
  have "(k, v) \<in> set ?kept" using assms(2,3) by (simp add: kept_headers_def strcasecmp_key(2))
  moreover have "distinct (map (\<lambda>h. ci_key (fst h)) ?kept)"
    using map_ok_keys [OF assms(1)] by (simp add: kept_headers_def distinct_map_filter)
  ultimately have "last_field k ?kept = Some v" by (intro last_field_unique)
  moreover have "last_field k ?own = None" by (rule last_field_none) (use assms(3) in auto)
  ultimately show ?thesis unfolding received_find response_fields_def last_field_append [of k ?kept ?own] by simp
qed

lemma rp_execute_response:
  assumes "response_ok r" "0 \<le> m_status r" "m_status r < 2 ^ 31" "length (rsp_dump r) < 2 ^ 31" "at_pe (rsp_dump r) = CHR 0x00"
  shows "\<exists>q. rp_execute (client_machine m0 at_pe crash) False (new_HttpResponseParser ws (client_machine m0 at_pe crash)) (rsp_dump r)
       = (q, length (rsp_dump r) - length (r_body r))
     \<and> \<not> rp_hasError (client_machine m0 at_pe crash) q \<and> rp_isFinished (client_machine m0 at_pe crash) q = 1
     \<and> r_chunked (client_machine m0 at_pe crash) (rp_machine q) = 0 \<and> rp_data q = received ws r"
proof -
  let ?m = "m0\<lparr>callbacks := UNIV\<rparr>"
  have init: "(httpclient_parser_init m0)\<lparr>callbacks := UNIV\<rparr> = httpclient_parser_init ?m" by (simp add: httpclient_parser_init_def)
  obtain m' calls where e: "httpclient_parser_execute (httpclient_parser_init ?m) (rsp_dump r) (CHR 0x00) 0
      = Inr (m', int (length (rsp_dump r) - length (r_body r)), calls)" "httpclient_parser_finish m' = 1" "chunked m' = 0"
    "map (client_event (rsp_dump r)) calls = response_events r"
    using response_run [OF assms(1,4), of ?m] by auto
  have "\<not> httpclient_parser_has_error m'" using e(2) by (auto simp: httpclient_parser_finish_def split: if_splits)
  then show ?thesis
    using e response_fold [OF assms(1-3), of m' ws]
    by (simp add: rp_execute_def new_HttpResponseParser_def client_machine_def init assms(5) rp_hasError_def rp_isFinished_def)
qed

lemma recvResponse_received:
  assumes "response_ok r" "0 \<le> m_status r" "m_status r < 2 ^ 31" "length (rsp_dump r) \<le> b" "b < 2 ^ 31" "at_pe (rsp_dump r) = CHR 0x00"
    "\<forall>h\<in>set (r_headers r). ci_key (fst h) \<noteq> ci_key ''content-length''" "\<forall>n<2 ^ 64. cast (dec n) = Some (of_nat n)"
  shows "recvResponse cast ws (client_machine m0 at_pe crash) b (rsp_dump r # segs) = Inr (Some (received ws r, segs))"
proof -
  let ?R = "client_machine m0 at_pe crash" and ?d = "rsp_dump r"
  let ?p = "new_HttpResponseParser ws ?R"
  obtain q where q: "rp_execute ?R False ?p ([] @ ?d) = (q, length ?d - length (r_body r))" "\<not> rp_hasError ?R q" "rp_isFinished ?R q = 1"
    "r_chunked ?R (rp_machine q) = 0" "rp_data q = received ws r"
    using rp_execute_response [of r at_pe m0 crash ws] assms(1-6) by auto
  obtain head where head: "?d = head @ r_body r" "head \<noteq> []" using rsp_dump_parts [of r] by (metis append.assoc append_is_Nil_conv not_Cons_self2)
  have r: "sock_read (b - length ([] :: string)) (?d # segs) = (?d, segs)" using assms(4) by simp
  have "drop (length ?d - length (r_body r)) ?d = r_body r" using head(1) by simp
  moreover have "length (r_body r) \<noteq> b" using head assms(4) by (cases head) auto
  ultimately have h: "recv_head (rp_execute ?R False) (rp_hasError ?R) (rp_isFinished ?R) b ?p [] (?d # segs) = Some (q, r_body r, segs)"
    unfolding recv_head_step [of b "[]" "?d # segs" ?d segs "rp_execute ?R False" ?p q, OF r q(1)] using q(2,3) head by simp
  have n: "length (r_body r) < 2 ^ 31" using head(1) assms(4,5) by simp
  have len: "rp_getContentLength cast q = of_nat (length (r_body r))"
    using received_length [OF assms(7), of ws] assms(8) n q(5) by (simp add: rp_getContentLength_def getAs_def)
  have "recv_body (of_nat (length (r_body r))) (r_body r) segs = Inr (Some ([], segs))" by (simp add: recv_body_def)
  moreover have "(received ws r)\<lparr>r_body := []\<rparr> = received ws r" using received_frame(6) [of ws r] by simp
  ultimately show "recvResponse cast ws ?R b (?d # segs) = Inr (Some (received ws r, segs))"
    using h q(4,5) len by (simp add: recvResponse_def Let_def)
qed


definition sample_cast :: "string \<Rightarrow> u64 option" where
  "sample_cast s = Some (of_int (digits_value s))"


end
