(* ===== verification/Locks.thy ===== *)
theory Locks
  imports Prelude "HOL-Library.Multiset"
begin

text \<open>
  Locks and scoped guards (\<open>mutex.h\<close>, \<open>mutex.cc\<close>). A lock is the state that the threads share: the thread that has
  it, or the threads that read and the one that writes. Taking it gives the new state, or nothing when the caller has
  to wait; what the standards leave undefined, to lock a mutex again or to release what the thread does not hold, is an
  error value. \<open>RWMutex\<close> and \<open>Spinlock\<close> drop the return code of the \<open>pthread\<close> calls: a call that refuses the lock ends
  like one that took it. Guards are created, locked, unlocked and destroyed in every order by every thread. The
  interface between guards and locks is the locale \<open>guarded_lock\<close>, interpreted by every lock of the program that
  excludes anything.
\<close>

section \<open>Locks\<close>

datatype lock_error = NotHeld | Relock

type_synonym thread = nat

text \<open>
  What POSIX leaves to the implementation: whether a call that can never return, because the thread itself has the
  lock, is refused with \<open>EDEADLK\<close>, and how many readers a lock takes before it refuses with \<open>EAGAIN\<close>.
\<close>

record pthread_env =
  detects :: bool
  max_readers :: nat

text \<open>\<open>Mutex\<close>: \<open>std::mutex\<close>, which its owner must not lock again.\<close>

definition Mutex_lock :: "thread \<Rightarrow> thread option \<Rightarrow> lock_error + thread option option" where
  "Mutex_lock t m_mutex =
     (case m_mutex of None \<Rightarrow> Inr (Some (Some t)) | Some u \<Rightarrow> if u = t then Inl Relock else Inr None)"

definition Mutex_unlock :: "thread \<Rightarrow> thread option \<Rightarrow> lock_error + thread option" where
  "Mutex_unlock t m_mutex = (if m_mutex = Some t then Inr None else Inl NotHeld)"

text \<open>\<open>Spinlock\<close>: \<open>pthread_spinlock_t\<close>; the first component of an answer is whether the call returned 0.\<close>

definition pthread_spin_lock :: "pthread_env \<Rightarrow> thread \<Rightarrow> thread option \<Rightarrow> (bool \<times> thread option) option" where
  "pthread_spin_lock env t m =
     (case m of None \<Rightarrow> Some (True, Some t) | Some u \<Rightarrow> if u = t \<and> detects env then Some (False, m) else None)"

definition Spinlock_lock :: "pthread_env \<Rightarrow> thread \<Rightarrow> thread option \<Rightarrow> lock_error + thread option option" where
  "Spinlock_lock env t m_mutex = Inr (map_option snd (pthread_spin_lock env t m_mutex))"

definition Spinlock_unlock :: "thread \<Rightarrow> thread option \<Rightarrow> lock_error + thread option" where
  "Spinlock_unlock t m_mutex = (if m_mutex = Some t then Inr None else Inl NotHeld)"

text \<open>
  \<open>CASLock\<close>: a flag that is set and tested in one step, again and again until it was clear before; one test. The
  flag is cleared whoever set it.
\<close>

definition test_and_set :: "bool \<Rightarrow> bool \<times> bool" where
  "test_and_set m_mutex = (m_mutex, True)"

definition CASLock_lock :: "thread \<Rightarrow> bool \<Rightarrow> lock_error + bool option" where
  "CASLock_lock t m_mutex = (case test_and_set m_mutex of (before, now) \<Rightarrow> Inr (if before then None else Some now))"

definition CASLock_unlock :: "thread \<Rightarrow> bool \<Rightarrow> lock_error + bool" where
  "CASLock_unlock t m_mutex = Inr False"

text \<open>\<open>NullMutex\<close> does nothing.\<close>

definition NullMutex_lock :: "unit \<Rightarrow> unit option" where
  "NullMutex_lock m = Some m"

definition NullMutex_unlock :: "unit \<Rightarrow> lock_error + unit" where
  "NullMutex_unlock m = Inr m"

text \<open>
  \<open>RWMutex\<close>: \<open>pthread_rwlock_t\<close>, its readers, once for each time they took it, and its writer. A thread that asks
  to read what it writes, or to write what it reads or writes, is refused or waits for ever; one that asks to read while
  the lock has all the readers it can have is refused. In both cases nothing is locked.
\<close>

record RWMutex =
  readers :: "thread multiset"
  writer :: "thread option"

definition new_RWMutex :: RWMutex where
  "new_RWMutex = \<lparr>readers = {#}, writer = None\<rparr>"

definition pthread_rwlock_rdlock :: "pthread_env \<Rightarrow> thread \<Rightarrow> RWMutex \<Rightarrow> (bool \<times> RWMutex) option" where
  "pthread_rwlock_rdlock env t m =
     (case writer m of
        Some u \<Rightarrow> if u = t \<and> detects env then Some (False, m) else None
      | None \<Rightarrow> if size (readers m) < max_readers env then Some (True, m\<lparr>readers := add_mset t (readers m)\<rparr>)
          else Some (False, m))"

definition pthread_rwlock_wrlock :: "pthread_env \<Rightarrow> thread \<Rightarrow> RWMutex \<Rightarrow> (bool \<times> RWMutex) option" where
  "pthread_rwlock_wrlock env t m =
     (if writer m = Some t \<or> t \<in># readers m then if detects env then Some (False, m) else None
      else if writer m \<noteq> None \<or> readers m \<noteq> {#} then None
      else Some (True, m\<lparr>writer := Some t\<rparr>))"

definition rdlock :: "pthread_env \<Rightarrow> thread \<Rightarrow> RWMutex \<Rightarrow> lock_error + RWMutex option" where
  "rdlock env t m = Inr (map_option snd (pthread_rwlock_rdlock env t m))"

definition wrlock :: "pthread_env \<Rightarrow> thread \<Rightarrow> RWMutex \<Rightarrow> lock_error + RWMutex option" where
  "wrlock env t m = Inr (map_option snd (pthread_rwlock_wrlock env t m))"

definition RWMutex_unlock :: "thread \<Rightarrow> RWMutex \<Rightarrow> lock_error + RWMutex" where
  "RWMutex_unlock t m =
     (if writer m = Some t then Inr (m\<lparr>writer := None\<rparr>)
      else if t \<in># readers m then Inr (m\<lparr>readers := readers m - {#t#}\<rparr>)
      else Inl NotHeld)"

section \<open>Scoped guards\<close>

text \<open>
  The three templates \<open>ScopedLockImpl\<close>, \<open>ReadScopedLockImpl\<close> and \<open>WriteScopedLockImpl\<close> differ in how they take the
  lock. A guard is its \<open>m_locked\<close>; the lock it refers to is passed along. It is locked when the call that takes the
  lock has returned, whatever it returned.
\<close>

definition guard_new :: "('m \<Rightarrow> lock_error + 'm option) \<Rightarrow> 'm \<Rightarrow> lock_error + (bool \<times> 'm) option" where
  "guard_new acquire m = bindr (acquire m) (\<lambda>r. Inr (map_option (\<lambda>m. (True, m)) r))"

definition guard_lock :: "('m \<Rightarrow> lock_error + 'm option) \<Rightarrow> bool \<times> 'm \<Rightarrow> lock_error + (bool \<times> 'm) option" where
  "guard_lock acquire g = (case g of (m_locked, m) \<Rightarrow>
     if \<not> m_locked then bindr (acquire m) (\<lambda>r. Inr (map_option (\<lambda>m. (True, m)) r)) else Inr (Some (m_locked, m)))"

definition guard_unlock :: "('m \<Rightarrow> lock_error + 'm) \<Rightarrow> bool \<times> 'm \<Rightarrow> lock_error + bool \<times> 'm" where
  "guard_unlock release g =
     (case g of (m_locked, m) \<Rightarrow> if m_locked then bindr (release m) (\<lambda>m. Inr (False, m)) else Inr (m_locked, m))"

definition guard_destroy :: "('m \<Rightarrow> lock_error + 'm) \<Rightarrow> bool \<times> 'm \<Rightarrow> lock_error + 'm" where
  "guard_destroy release g = bindr (guard_unlock release g) (\<lambda>(_, m). Inr m)"

datatype rw_kind = ReadLock | WriteLock

definition RWMutex_take :: "pthread_env \<Rightarrow> rw_kind \<Rightarrow> thread \<Rightarrow> RWMutex \<Rightarrow> lock_error + RWMutex option" where
  "RWMutex_take env k = (case k of ReadLock \<Rightarrow> rdlock env | WriteLock \<Rightarrow> wrlock env)"

text \<open>
  The states that any number of threads can bring about: the lock, and the guards that exist, each with the thread
  that made and uses it, its kind and whether it is locked. \<open>may\<close> says which thread may take the lock beside which
  guards: \<open>careful\<close> is a program that never takes a lock it already has and keeps the number of holders below
  \<open>n\<close>; \<open>\<lambda>_ _. True\<close> is any program.
\<close>

type_synonym 'k guards = "(thread \<times> 'k \<times> bool) multiset"

definition holders :: "'k guards \<Rightarrow> (thread \<times> 'k) multiset" where
  "holders gs = image_mset (\<lambda>(t, k, l). (t, k)) (filter_mset (\<lambda>(t, k, l). l) gs)"

lemma holders_simps [simp]:
  "holders {#} = {#}" "holders (add_mset (t, k, True) gs) = add_mset (t, k) (holders gs)"
  "holders (add_mset (t, k, False) gs) = holders gs"
  by (simp_all add: holders_def)

definition careful :: "nat \<Rightarrow> thread \<Rightarrow> 'k guards \<Rightarrow> bool" where
  "careful n t gs \<longleftrightarrow> t \<notin> fst ` set_mset (holders gs) \<and> size (holders gs) < n"

inductive guard_reach ::
  "(thread \<Rightarrow> 'k guards \<Rightarrow> bool) \<Rightarrow> ('k \<Rightarrow> thread \<Rightarrow> 'm \<Rightarrow> lock_error + 'm option) \<Rightarrow> (thread \<Rightarrow> 'm \<Rightarrow> lock_error + 'm)
    \<Rightarrow> 'm \<Rightarrow> 'm \<Rightarrow> 'k guards \<Rightarrow> bool"
  for may :: "thread \<Rightarrow> 'k guards \<Rightarrow> bool" and lock :: "'k \<Rightarrow> thread \<Rightarrow> 'm \<Rightarrow> lock_error + 'm option"
    and release :: "thread \<Rightarrow> 'm \<Rightarrow> lock_error + 'm" and m0 :: 'm where
  start: "guard_reach may lock release m0 m0 {#}"
| new: "guard_reach may lock release m0 m gs \<Longrightarrow> may t gs \<Longrightarrow> guard_new (lock k t) m = Inr (Some (l, m')) \<Longrightarrow>
    guard_reach may lock release m0 m' (add_mset (t, k, l) gs)"
| lock: "guard_reach may lock release m0 m (add_mset (t, k, l) gs) \<Longrightarrow> l \<or> may t gs \<Longrightarrow>
    guard_lock (lock k t) (l, m) = Inr (Some (l', m')) \<Longrightarrow> guard_reach may lock release m0 m' (add_mset (t, k, l') gs)"
| unlock: "guard_reach may lock release m0 m (add_mset (t, k, l) gs) \<Longrightarrow> guard_unlock (release t) (l, m) = Inr (l', m') \<Longrightarrow>
    guard_reach may lock release m0 m' (add_mset (t, k, l') gs)"
| destroy: "guard_reach may lock release m0 m (add_mset (t, k, l) gs) \<Longrightarrow> guard_destroy (release t) (l, m) = Inr m' \<Longrightarrow>
    guard_reach may lock release m0 m' gs"

section \<open>The contract\<close>

text \<open>
  What a lock promises to the guards of a careful program: \<open>holds m hs\<close> says that exactly \<open>hs\<close> have it, each a
  thread and how it took it. Taking it adds the caller and is never undefined, whoever has it can give it back, and a
  lock that nobody has is taken without waiting.
\<close>

locale guarded_lock =
  fixes lock :: "'k \<Rightarrow> thread \<Rightarrow> 'm \<Rightarrow> lock_error + 'm option" and release :: "thread \<Rightarrow> 'm \<Rightarrow> lock_error + 'm"
    and m0 :: 'm and holds :: "'m \<Rightarrow> (thread \<times> 'k) multiset \<Rightarrow> bool" and n :: nat
  assumes init: "holds m0 {#}"
    and take_adds: "holds m hs \<Longrightarrow> t \<notin> fst ` set_mset hs \<Longrightarrow> size hs < n \<Longrightarrow> lock k t m = Inr (Some m') \<Longrightarrow>
      holds m' (add_mset (t, k) hs)"
    and take_defined: "holds m hs \<Longrightarrow> t \<notin> fst ` set_mset hs \<Longrightarrow> lock k t m \<noteq> Inl e"
    and give: "holds m (add_mset (t, k) hs) \<Longrightarrow> \<exists>m'. release t m = Inr m' \<and> holds m' hs"
    and free: "holds m {#} \<Longrightarrow> lock k t m \<noteq> Inr None"
begin

lemma unlock_held:
  assumes "holds m (holders (add_mset (t, k, l) gs))"
  shows "\<exists>m'. guard_unlock (release t) (l, m) = Inr (False, m') \<and> holds m' (holders gs)"
  using assms give [of m t k "holders gs"] by (cases l) (auto simp: guard_unlock_def)

text \<open>The lock is had by exactly the guards that are locked.\<close>

lemma reach_held: "guard_reach (careful n) lock release m0 m gs \<Longrightarrow> holds m (holders gs)"
proof (induction rule: guard_reach.induct)
  case start
  then show ?case by (simp add: init)
next
  case (new m gs t k l m')
  then show ?case using take_adds [of m "holders gs" t k] by (auto simp: guard_new_def careful_def bindr_eq_Inr)
next
  case (lock m t k l gs l' m')
  then show ?case
    using take_adds [of m "holders gs" t k] by (cases l) (auto simp: guard_lock_def careful_def bindr_eq_Inr)
next
  case (unlock m t k l gs l' m')
  then show ?case using unlock_held [of m t k l gs] by auto
next
  case (destroy m t k l gs m')
  then show ?case using unlock_held [of m t k l gs] by (auto simp: guard_destroy_def)
qed

text \<open>
  No guard releases what its thread does not have, no guard of a careful program takes the lock in an undefined way, and
  a lock without locked guards can be taken at once.
\<close>

lemma reach_release:
  assumes "guard_reach (careful n) lock release m0 m (add_mset (t, k, l) gs)"
  shows "guard_unlock (release t) (l, m) \<noteq> Inl e" "guard_destroy (release t) (l, m) \<noteq> Inl e"
  using unlock_held [of m t k l gs] reach_held [OF assms] by (auto simp: guard_destroy_def)

lemma reach_take:
  assumes "guard_reach (careful n) lock release m0 m gs" "careful n t gs"
  shows "guard_new (lock k t) m \<noteq> Inl e"
  using take_defined [OF reach_held [OF assms(1)], of t k] assms(2)
  by (cases "lock k t m") (auto simp: guard_new_def careful_def)

lemma reach_free: "guard_reach (careful n) lock release m0 m gs \<Longrightarrow> holders gs = {#} \<Longrightarrow> lock k t m \<noteq> Inr None"
  using reach_held free by fastforce

end

section \<open>The locks of the program\<close>

definition owner_holds :: "thread option \<Rightarrow> (thread \<times> unit) multiset \<Rightarrow> bool" where
  "owner_holds m hs \<longleftrightarrow> hs = (case m of None \<Rightarrow> {#} | Some t \<Rightarrow> {#(t, ())#})"

definition flag_holds :: "bool \<Rightarrow> (thread \<times> unit) multiset \<Rightarrow> bool" where
  "flag_holds m hs \<longleftrightarrow> (if m then size hs = 1 else hs = {#})"

definition rw_holds :: "RWMutex \<Rightarrow> (thread \<times> rw_kind) multiset \<Rightarrow> bool" where
  "rw_holds m hs \<longleftrightarrow>
     (case writer m of
        Some t \<Rightarrow> readers m = {#} \<and> hs = {#(t, WriteLock)#}
      | None \<Rightarrow> hs = image_mset (\<lambda>t. (t, ReadLock)) (readers m))"

interpretation mutex: guarded_lock "\<lambda>_. Mutex_lock" Mutex_unlock None owner_holds n for n
  by unfold_locales (auto simp: Mutex_lock_def Mutex_unlock_def owner_holds_def split: if_splits option.splits)

lemmas spin_defs = Spinlock_lock_def pthread_spin_lock_def Spinlock_unlock_def owner_holds_def

interpretation spin: guarded_lock "\<lambda>_. Spinlock_lock env" Spinlock_unlock None owner_holds n for env n
  by unfold_locales (auto simp: spin_defs split: if_splits option.splits)

interpretation cas: guarded_lock "\<lambda>_. CASLock_lock" CASLock_unlock False flag_holds n for n
  by unfold_locales (auto simp: CASLock_lock_def test_and_set_def CASLock_unlock_def flag_holds_def split: if_splits)

lemmas rw_defs = RWMutex_take_def rdlock_def wrlock_def pthread_rwlock_rdlock_def pthread_rwlock_wrlock_def

lemma rw_holds_give:
  assumes "rw_holds m (add_mset (t, k) hs)"
  shows "\<exists>m'. RWMutex_unlock t m = Inr m' \<and> rw_holds m' hs"
proof (cases "writer m")
  case None
  then have eq: "image_mset (\<lambda>t. (t, ReadLock)) (readers m) = add_mset (t, k) hs" using assms by (simp add: rw_holds_def)
  then obtain rs where "readers m = add_mset t rs" "hs = image_mset (\<lambda>t. (t, ReadLock)) rs"
    by (auto dest!: msed_map_invR)
  then show ?thesis using None by (simp add: RWMutex_unlock_def rw_holds_def)
next
  case (Some u)
  then show ?thesis using assms by (auto simp: rw_holds_def RWMutex_unlock_def)
qed

interpretation rw: guarded_lock "RWMutex_take env" RWMutex_unlock new_RWMutex rw_holds "max_readers env" for env
proof
  show "rw_holds new_RWMutex {#}" by (simp add: rw_holds_def new_RWMutex_def)
next
  fix m hs t k m'
  assume "rw_holds m hs" "t \<notin> fst ` set_mset hs" "size hs < max_readers env" "RWMutex_take env k t m = Inr (Some m')"
  then show "rw_holds m' (add_mset (t, k) hs)"
    by (cases k) (auto simp: rw_defs rw_holds_def image_image split: option.splits if_splits)
next
  fix m hs t k e
  show "RWMutex_take env k t m \<noteq> Inl e" by (cases k) (simp_all add: rw_defs)
next
  fix m t k hs
  assume "rw_holds m (add_mset (t, k) hs)"
  then show "\<exists>m'. RWMutex_unlock t m = Inr m' \<and> rw_holds m' hs" by (rule rw_holds_give)
next
  fix m k t
  assume "rw_holds m {#}"
  then show "RWMutex_take env k t m \<noteq> Inr None"
    by (cases k) (auto simp: rw_defs rw_holds_def split: option.splits)
qed

text \<open>
  What the dropped return code costs a program that is not careful. Thread 1 has a write guard and makes a read guard
  of the same lock, which the system refuses; both guards are locked, though the lock knows the writer only. The end of
  the inner guard gives the write lock away, thread 2 gets it, and two write guards are locked at once; the end of the
  outer guard then releases a lock that thread 1 does not have.
\<close>

lemma relock_breaks_guards:
  assumes "detects env"
  shows "guard_reach (\<lambda>_ _. True) (RWMutex_take env) RWMutex_unlock new_RWMutex \<lparr>readers = {#}, writer = Some 2\<rparr>
      {#(2, WriteLock, True), (1, WriteLock, True)#}
    \<and> guard_destroy (RWMutex_unlock 1) (True, \<lparr>readers = {#}, writer = Some 2\<rparr>) = Inl NotHeld"
proof -
  let ?reach = "guard_reach (\<lambda>_ _. True) (RWMutex_take env) RWMutex_unlock new_RWMutex"
  have "?reach \<lparr>readers = {#}, writer = Some 1\<rparr> {#(1, WriteLock, True)#}"
    by (rule guard_reach.new [OF guard_reach.start]) (simp_all add: guard_new_def rw_defs new_RWMutex_def)
  then have "?reach \<lparr>readers = {#}, writer = Some 1\<rparr> {#(1, ReadLock, True), (1, WriteLock, True)#}"
    by (rule guard_reach.new) (simp_all add: guard_new_def rw_defs assms)
  then have "?reach \<lparr>readers = {#}, writer = None\<rparr> {#(1, WriteLock, True)#}"
    by (rule guard_reach.destroy) (simp add: guard_destroy_def guard_unlock_def RWMutex_unlock_def)
  then have "?reach \<lparr>readers = {#}, writer = Some 2\<rparr> {#(2, WriteLock, True), (1, WriteLock, True)#}"
    by (rule guard_reach.new) (simp_all add: guard_new_def rw_defs)
  then show ?thesis by (simp add: guard_destroy_def guard_unlock_def RWMutex_unlock_def)
qed

text \<open>
  C38: guards exclude each other. However threads create, lock, unlock and destroy guards, as long as no thread takes
  a lock that it already has and the readers of a lock stay below the system's maximum, at most one guard of a \<open>Mutex\<close>,
  a \<open>Spinlock\<close> or a \<open>CASLock\<close> is locked, and a locked write guard of a \<open>RWMutex\<close> is the only locked one. No guard
  ever releases a lock that its thread does not hold, and when no guard is locked nobody has to wait for the lock.
\<close>
theorem guards_exclusive:
  assumes "guard_reach (careful n) (\<lambda>_ :: unit. Mutex_lock) Mutex_unlock None mutex g1"
    "guard_reach (careful n) (\<lambda>_ :: unit. Spinlock_lock env) Spinlock_unlock None spin g2"
    "guard_reach (careful n) (\<lambda>_ :: unit. CASLock_lock) CASLock_unlock False cas g3"
    "guard_reach (careful (max_readers env)) (RWMutex_take env) RWMutex_unlock new_RWMutex rw g4"
  shows "size (holders g1) \<le> 1 \<and> size (holders g2) \<le> 1 \<and> size (holders g3) \<le> 1
    \<and> (\<forall>t. (t, WriteLock) \<in># holders g4 \<longrightarrow> holders g4 = {#(t, WriteLock)#})
    \<and> (\<forall>t l g. g1 = add_mset (t, (), l) g \<longrightarrow> guard_destroy (Mutex_unlock t) (l, mutex) \<noteq> Inl NotHeld)
    \<and> (\<forall>t l g. g2 = add_mset (t, (), l) g \<longrightarrow> guard_destroy (Spinlock_unlock t) (l, spin) \<noteq> Inl NotHeld)
    \<and> (\<forall>t k l g. g4 = add_mset (t, k, l) g \<longrightarrow> guard_destroy (RWMutex_unlock t) (l, rw) \<noteq> Inl NotHeld)
    \<and> (holders g1 = {#} \<longrightarrow> Mutex_lock t mutex \<noteq> Inr None) \<and> (holders g2 = {#} \<longrightarrow> Spinlock_lock env t spin \<noteq> Inr None)
    \<and> (holders g3 = {#} \<longrightarrow> CASLock_lock t cas \<noteq> Inr None) \<and> (holders g4 = {#} \<longrightarrow> RWMutex_take env k t rw \<noteq> Inr None)"
proof -
  have held: "owner_holds mutex (holders g1)" "owner_holds spin (holders g2)" "flag_holds cas (holders g3)"
    "rw_holds rw (holders g4)"
    using mutex.reach_held [OF assms(1)] spin.reach_held [OF assms(2)] cas.reach_held [OF assms(3)]
      rw.reach_held [OF assms(4)] by simp_all
  have "size (holders g1) \<le> 1 \<and> size (holders g2) \<le> 1 \<and> size (holders g3) \<le> 1"
    using held(1-3) by (auto simp: owner_holds_def flag_holds_def split: option.splits if_splits)
  moreover have "\<forall>t. (t, WriteLock) \<in># holders g4 \<longrightarrow> holders g4 = {#(t, WriteLock)#}"
    using held(4) by (auto simp: rw_holds_def split: option.splits)
  moreover note mutex.reach_free [OF assms(1), of t] spin.reach_free [OF assms(2), of t]
    cas.reach_free [OF assms(3), of t] rw.reach_free [OF assms(4), of k t]
  moreover have "guard_destroy (Mutex_unlock t) (l, mutex) \<noteq> Inl NotHeld" if "g1 = add_mset (t, (), l) g" for t l g
    using mutex.reach_release(2) assms(1) unfolding that by blast
  moreover have "guard_destroy (Spinlock_unlock t) (l, spin) \<noteq> Inl NotHeld" if "g2 = add_mset (t, (), l) g" for t l g
    using spin.reach_release(2) assms(2) unfolding that by blast
  moreover have "guard_destroy (RWMutex_unlock t) (l, rw) \<noteq> Inl NotHeld" if "g4 = add_mset (t, k, l) g" for t k l g
    using rw.reach_release(2) assms(4) unfolding that by blast
  ultimately show ?thesis by simp
qed

text \<open>Two threads read, a third has to wait to write, and the readers leave without an error.\<close>

theorem guards_exclusive_witness:
  "(1, WriteLock) \<notin># holders {#(2, ReadLock, True), (1, ReadLock, True)#}
   \<and> guard_destroy (RWMutex_unlock 1) (True, \<lparr>readers = {#2, 1#}, writer = None\<rparr>) \<noteq> Inl NotHeld
   \<and> guard_destroy (RWMutex_unlock 2) (True, \<lparr>readers = {#2, 1#}, writer = None\<rparr>) \<noteq> Inl NotHeld
   \<and> wrlock \<lparr>detects = True, max_readers = 8\<rparr> 3 \<lparr>readers = {#2, 1#}, writer = None\<rparr> = Inr None"
proof -
  let ?env = "\<lparr>detects = True, max_readers = 8\<rparr>"
  let ?reach = "guard_reach (careful (max_readers ?env)) (RWMutex_take ?env) RWMutex_unlock new_RWMutex"
  have "?reach \<lparr>readers = {#1#}, writer = None\<rparr> {#(1, ReadLock, True)#}"
    by (rule guard_reach.new [OF guard_reach.start]) (simp_all add: guard_new_def rw_defs new_RWMutex_def careful_def)
  then have r: "?reach \<lparr>readers = {#2, 1#}, writer = None\<rparr> {#(2, ReadLock, True), (1, ReadLock, True)#}"
    by (rule guard_reach.new) (simp_all add: guard_new_def rw_defs careful_def)
  note e = guards_exclusive [OF guard_reach.start guard_reach.start guard_reach.start r]
  have "(1, WriteLock) \<notin># holders {#(2, ReadLock, True), (1, ReadLock, True)#}" using e by auto
  moreover have "guard_destroy (RWMutex_unlock t) (True, \<lparr>readers = {#2, 1#}, writer = None\<rparr>) \<noteq> Inl NotHeld"
    if "t = 1 \<or> t = 2" for t
  proof -
    have "{#(2, ReadLock, True), (1, ReadLock, True)#} = add_mset (t, ReadLock, True) {#(3 - t, ReadLock, True)#}"
      using that by auto
    then show ?thesis using e by blast
  qed
  ultimately show ?thesis by (simp add: wrlock_def pthread_rwlock_wrlock_def)
qed

end
