(* ===== verification/Threads.thy ===== *)
theory Threads
  imports Locks
begin

text \<open>
  Semaphores (\<open>mutex.cc\<close>) and the start of a thread (\<open>thread.cc\<close>). The constructor of
  \<open>Thread\<close> and the new thread's \<open>run\<close> are two processes that interleave statement by statement; the owner may
  destroy the object as soon as the constructor has returned. An access to a destroyed object is an error
  value. The theorem says what the semaphore between the two is for.
\<close>

section \<open>Semaphores\<close>

datatype thread_error = LogicError string | Dangling

text \<open>\<open>sem_wait\<close> can be interrupted, and is called again; each answer of the kernel is an element of the list.\<close>

fun Semaphore_wait :: "bool list \<Rightarrow> nat \<Rightarrow> nat option" where
  "Semaphore_wait [] n = None"
| "Semaphore_wait (interrupted # rs) n =
     (if interrupted then Semaphore_wait rs n else if n > 0 then Some (n - 1) else None)"

definition SEM_VALUE_MAX :: nat where
  "SEM_VALUE_MAX = 2147483647"

definition Semaphore_notify :: "nat \<Rightarrow> thread_error + nat" where
  "Semaphore_notify n = (if n < SEM_VALUE_MAX then Inr (n + 1) else Inl (LogicError ''sem_post error''))"

section \<open>Threads\<close>

record 'cb Thread =
  m_id :: int
  m_thread :: nat
  m_cb :: "'cb option"
  m_name :: string
  m_semaphore :: nat

definition new_Thread :: "'cb \<Rightarrow> string \<Rightarrow> 'cb Thread" where
  "new_Thread cb name =
     \<lparr>m_id = - 1, m_thread = 0, m_cb = Some cb, m_name = (if name = [] then ''UNKNOWN'' else name), m_semaphore = 0\<rparr>"

datatype maker_pc = Creating | Waiting | Returned | Thrown

datatype run_pc = NotStarted | SetThis | SetThreadName | SetId | SetOsName | SwapCb | Notify | Call | Finished

text \<open>The object, while it exists, where the two processes are, and what the new thread keeps for itself.\<close>

record 'cb start_state =
  object :: "'cb Thread option"
  maker :: maker_pc
  runner :: run_pc
  t_thread :: bool
  t_thread_name :: string
  os_name :: string
  cb :: "'cb option"

definition start_state_of :: "'cb \<Rightarrow> string \<Rightarrow> 'cb start_state" where
  "start_state_of f name =
     \<lparr>object = Some (new_Thread f name), maker = Creating, runner = NotStarted, t_thread = False, t_thread_name = ''UNKNOWN'', os_name = [], cb = None\<rparr>"

text \<open>\<open>pthread_create\<close> with its result and the handle it stores.\<close>

definition create_step :: "int \<Rightarrow> nat \<Rightarrow> 'cb start_state \<Rightarrow> 'cb start_state" where
  "create_step rt handle s =
     (if rt \<noteq> 0 then s\<lparr>maker := Thrown\<rparr>
      else s\<lparr>object := map_option (m_thread_update (\<lambda>_. handle)) (object s), maker := Waiting, runner := SetThis\<rparr>)"

definition wait_step :: "'cb start_state \<Rightarrow> 'cb start_state option" where
  "wait_step s =
     (case object s of None \<Rightarrow> None
      | Some t \<Rightarrow> map_option (\<lambda>n. s\<lparr>object := Some (t\<lparr>m_semaphore := n\<rparr>), maker := Returned\<rparr>) (Semaphore_wait [False] (m_semaphore t)))"

text \<open>One statement of \<open>run\<close>. Only the last one does not need the object.\<close>

definition run_step :: "int \<Rightarrow> 'cb start_state \<Rightarrow> thread_error + 'cb start_state" where
  "run_step tid s =
     (if runner s = NotStarted \<or> runner s = Finished then Inr s
      else if runner s = Call then Inr (s\<lparr>runner := Finished\<rparr>)
      else case object s of None \<Rightarrow> Inl Dangling
      | Some t \<Rightarrow>
          (case runner s of
             SetThis \<Rightarrow> Inr (s\<lparr>t_thread := True, runner := SetThreadName\<rparr>)
           | SetThreadName \<Rightarrow> Inr (s\<lparr>t_thread_name := m_name t, runner := SetId\<rparr>)
           | SetId \<Rightarrow> Inr (s\<lparr>object := Some (t\<lparr>m_id := tid\<rparr>), runner := SetOsName\<rparr>)
           | SetOsName \<Rightarrow> Inr (s\<lparr>os_name := take 15 (m_name t), runner := SwapCb\<rparr>)
           | SwapCb \<Rightarrow> Inr (s\<lparr>cb := m_cb t, object := Some (t\<lparr>m_cb := cb s\<rparr>), runner := Notify\<rparr>)
           | _ \<Rightarrow> bindr (Semaphore_notify (m_semaphore t)) (\<lambda>n. Inr (s\<lparr>object := Some (t\<lparr>m_semaphore := n\<rparr>), runner := Call\<rparr>))))"

text \<open>
  \<open>join\<close>, and the destructor, which detaches a thread that was not joined. \<open>SetName\<close> is called by the thread
  itself, which keeps a pointer to the object after it was destroyed.
\<close>

definition Thread_join :: "int \<Rightarrow> 'cb Thread \<Rightarrow> thread_error + 'cb Thread" where
  "Thread_join rt t =
     (if m_thread t \<noteq> 0 then if rt \<noteq> 0 then Inl (LogicError ''pthread_join error'') else Inr (t\<lparr>m_thread := 0\<rparr>) else Inr t)"

definition Thread_detaches :: "'cb Thread \<Rightarrow> bool" where
  "Thread_detaches t \<longleftrightarrow> m_thread t \<noteq> 0"

definition SetName :: "string \<Rightarrow> 'cb start_state \<Rightarrow> thread_error + 'cb start_state" where
  "SetName name s =
     (if name = [] then Inr s
      else if t_thread s then
        (case object s of None \<Rightarrow> Inl Dangling
         | Some t \<Rightarrow> Inr (s\<lparr>object := Some (t\<lparr>m_name := name\<rparr>), t_thread_name := name\<rparr>))
      else Inr (s\<lparr>t_thread_name := name\<rparr>))"

text \<open>
  The interleavings. The callback runs between the statements \<open>Call\<close> and \<open>Finished\<close>; of what it does, the calls of
  \<open>SetName\<close> concern the object, and \<open>ns\<close> are the names it has set so far.
\<close>

inductive start_reach :: "int \<Rightarrow> 'cb \<Rightarrow> string \<Rightarrow> string list \<Rightarrow> 'cb start_state \<Rightarrow> bool" for tid :: int and f :: 'cb and name :: string where
  start: "start_reach tid f name [] (start_state_of f name)"
| create: "start_reach tid f name ns s \<Longrightarrow> maker s = Creating \<Longrightarrow> start_reach tid f name ns (create_step rt handle s)"
| wait: "start_reach tid f name ns s \<Longrightarrow> maker s = Waiting \<Longrightarrow> wait_step s = Some s' \<Longrightarrow> start_reach tid f name ns s'"
| run: "start_reach tid f name ns s \<Longrightarrow> run_step tid s = Inr s' \<Longrightarrow> start_reach tid f name ns s'"
| rename: "start_reach tid f name ns s \<Longrightarrow> runner s = Call \<Longrightarrow> SetName n s = Inr s' \<Longrightarrow> start_reach tid f name (ns @ [n]) s'"
| join: "start_reach tid f name ns s \<Longrightarrow> maker s = Returned \<Longrightarrow> runner s = Finished \<Longrightarrow> object s = Some t \<Longrightarrow> Thread_join rt t = Inr t' \<Longrightarrow>
    start_reach tid f name ns (s\<lparr>object := Some t'\<rparr>)"
| destroy: "start_reach tid f name ns s \<Longrightarrow> maker s = Returned \<Longrightarrow> start_reach tid f name ns (s\<lparr>object := None\<rparr>)"

text \<open>The last name set, an empty one being ignored.\<close>

definition current_name :: "string \<Rightarrow> string list \<Rightarrow> string" where
  "current_name name ns = last ((if name = [] then ''UNKNOWN'' else name) # filter (\<lambda>n. n \<noteq> []) ns)"

section \<open>The handshake\<close>

text \<open>What the new thread has done so far.\<close>

definition ran :: "run_pc \<Rightarrow> nat" where
  "ran pc = (case pc of NotStarted \<Rightarrow> 0 | SetThis \<Rightarrow> 1 | SetThreadName \<Rightarrow> 2 | SetId \<Rightarrow> 3 | SetOsName \<Rightarrow> 4 | SwapCb \<Rightarrow> 5 | Notify \<Rightarrow> 6 | Call \<Rightarrow> 7 | Finished \<Rightarrow> 8)"

definition start_inv :: "int \<Rightarrow> 'cb \<Rightarrow> string \<Rightarrow> string list \<Rightarrow> 'cb start_state \<Rightarrow> bool" where
  "start_inv tid f name ns s \<longleftrightarrow>
     (maker s = Creating \<or> maker s = Thrown \<longrightarrow> runner s = NotStarted) \<and> (maker s = Waiting \<longrightarrow> runner s \<noteq> NotStarted)
     \<and> (maker s = Returned \<longrightarrow> ran (runner s) \<ge> 7)
     \<and> (ran (runner s) \<ge> 2 \<longrightarrow> t_thread s) \<and> (ran (runner s) < 7 \<longrightarrow> ns = [])
     \<and> (ran (runner s) \<ge> 3 \<longrightarrow> t_thread_name s = current_name name ns) \<and> (ran (runner s) < 6 \<longrightarrow> cb s = None)
     \<and> (ran (runner s) \<ge> 6 \<longrightarrow> cb s = Some f)
     \<and> (case object s of None \<Rightarrow> maker s = Returned
        | Some t \<Rightarrow> m_name t = current_name name ns \<and> (ran (runner s) \<ge> 4 \<longrightarrow> m_id t = tid)
          \<and> m_cb t = (if ran (runner s) \<ge> 6 then None else Some f)
          \<and> m_semaphore t = (if maker s = Waiting \<and> ran (runner s) \<ge> 7 then 1 else 0))"

lemma ran_simps [simp]:
  "ran NotStarted = 0" "ran SetThis = 1" "ran SetThreadName = 2" "ran SetId = 3" "ran SetOsName = 4" "ran SwapCb = 5" "ran Notify = 6"
  "ran Call = 7" "ran Finished = 8"
  by (simp_all add: ran_def)

text \<open>The statements of \<open>run\<close>, one by one.\<close>

lemma run_step_simps:
  assumes "object s = Some t"
  shows "runner s = SetThis \<Longrightarrow> run_step tid s = Inr (s\<lparr>t_thread := True, runner := SetThreadName\<rparr>)"
    "runner s = SetThreadName \<Longrightarrow> run_step tid s = Inr (s\<lparr>t_thread_name := m_name t, runner := SetId\<rparr>)"
    "runner s = SetId \<Longrightarrow> run_step tid s = Inr (s\<lparr>object := Some (t\<lparr>m_id := tid\<rparr>), runner := SetOsName\<rparr>)"
    "runner s = SetOsName \<Longrightarrow> run_step tid s = Inr (s\<lparr>os_name := take 15 (m_name t), runner := SwapCb\<rparr>)"
    "runner s = SwapCb \<Longrightarrow> run_step tid s = Inr (s\<lparr>cb := m_cb t, object := Some (t\<lparr>m_cb := cb s\<rparr>), runner := Notify\<rparr>)"
    "runner s = Notify \<Longrightarrow> m_semaphore t = 0 \<Longrightarrow> run_step tid s = Inr (s\<lparr>object := Some (t\<lparr>m_semaphore := 1\<rparr>), runner := Call\<rparr>)"
  using assms by (simp_all add: run_step_def Semaphore_notify_def SEM_VALUE_MAX_def)

lemma run_step_rest:
  "runner s = NotStarted \<or> runner s = Finished \<Longrightarrow> run_step tid s = Inr s" "runner s = Call \<Longrightarrow> run_step tid s = Inr (s\<lparr>runner := Finished\<rparr>)"
  by (auto simp: run_step_def)

lemma run_step_ok:
  assumes "start_inv tid f name ns s"
  shows "\<exists>s'. run_step tid s = Inr s' \<and> start_inv tid f name ns s' \<and> maker s' = maker s
    \<and> (ran (runner s) \<in> {1..6} \<longrightarrow> ran (runner s') = ran (runner s) + 1)"
proof (cases "object s")
  case None
  then have "ran (runner s) \<ge> 7" using assms by (simp add: start_inv_def)
  then consider "runner s = Call" | "runner s = Finished" by (cases "runner s") simp_all
  then show ?thesis using assms None by cases (simp_all add: start_inv_def run_step_rest)
next
  case (Some t)
  show ?thesis
  proof (cases "runner s")
    case NotStarted
    then show ?thesis using assms by (simp add: run_step_rest)
  next
    case Finished
    then show ?thesis using assms by (simp add: run_step_rest)
  next
    case Call
    then show ?thesis using assms by (cases "object s") (simp_all add: start_inv_def run_step_rest)
  next
    case Notify
    then have "m_semaphore t = 0" using assms Some by (simp add: start_inv_def)
    then show ?thesis using assms Some Notify by (cases "maker s") (simp_all add: start_inv_def run_step_simps [OF Some])
  qed (use assms Some in \<open>cases "maker s"; simp add: start_inv_def run_step_simps [OF Some]\<close>)+
qed

lemma current_name_snoc: "current_name name (ns @ [n]) = (if n = [] then current_name name ns else n)"
  by (simp add: current_name_def)

lemma SetName_inv:
  assumes "start_inv tid f name ns s" "runner s = Call" "SetName n s = Inr s'"
  shows "start_inv tid f name (ns @ [n]) s'"
proof (cases "n = []")
  case True
  then have "s' = s" using assms(3) by (simp add: SetName_def)
  then show ?thesis using assms(1,2) True by (cases "object s") (simp_all add: start_inv_def current_name_snoc)
next
  case False
  have t: "t_thread s" using assms(1,2) by (simp add: start_inv_def)
  then obtain t where o: "object s = Some t" using assms(3) False by (cases "object s") (simp_all add: SetName_def)
  then have "s' = s\<lparr>object := Some (t\<lparr>m_name := n\<rparr>), t_thread_name := n\<rparr>" using assms(3) False t by (simp add: SetName_def)
  then show ?thesis using assms(1,2) False o by (simp add: start_inv_def current_name_snoc)
qed

lemma start_reach_inv: "start_reach tid f name ns s \<Longrightarrow> start_inv tid f name ns s"
proof (induction rule: start_reach.induct)
  case start
  then show ?case by (simp add: start_inv_def start_state_of_def new_Thread_def current_name_def)
next
  case (create ns s rt handle)
  then show ?case by (cases "object s") (auto simp: start_inv_def create_step_def)
next
  case (wait ns s s')
  then show ?case by (cases "object s") (auto simp: start_inv_def wait_step_def split: if_splits)
next
  case (run ns s s')
  then show ?case using run_step_ok [OF run.IH] by simp
next
  case (rename ns s n s')
  then show ?case using SetName_inv by metis
next
  case (join ns s t rt t')
  then show ?case by (auto simp: start_inv_def Thread_join_def split: if_splits)
next
  case (destroy ns s)
  then show ?case by (auto simp: start_inv_def)
qed

text \<open>The new thread alone, for a number of statements.\<close>

fun run_steps :: "nat \<Rightarrow> int \<Rightarrow> 'cb start_state \<Rightarrow> thread_error + 'cb start_state" where
  "run_steps 0 tid s = Inr s"
| "run_steps (Suc k) tid s = bindr (run_step tid s) (run_steps k tid)"

lemma waiting_returns:
  assumes "start_inv tid f name ns s" "maker s = Waiting"
  shows "\<exists>s' s''. run_steps (7 - ran (runner s)) tid s = Inr s' \<and> wait_step s' = Some s'' \<and> maker s'' = Returned"
  using assms
proof (induction "7 - ran (runner s)" arbitrary: s)
  case 0
  then have "ran (runner s) \<ge> 7" by simp
  then show ?case using 0 by (cases "object s") (auto simp: start_inv_def wait_step_def)
next
  case (Suc k)
  then have "ran (runner s) \<in> {1..6}" by (cases "runner s") (simp_all add: start_inv_def)
  then obtain s' where s': "run_step tid s = Inr s'" "start_inv tid f name ns s'" "maker s' = Waiting" "ran (runner s') = ran (runner s) + 1"
    using run_step_ok [OF Suc.prems(1)] Suc.prems(2) by auto
  then have k: "k = 7 - ran (runner s')" using Suc.hyps(2) by simp
  from Suc.hyps(1) [OF k s'(2,3)] show ?case unfolding Suc.hyps(2) [symmetric] k [symmetric] by (simp add: s'(1))
qed

text \<open>
  The pointer \<open>t_thread\<close> outlives the object: a thread whose \<open>Thread\<close> was destroyed, which detaches it, must not
  rename itself.
\<close>

lemma SetName_dangling:
  assumes "start_inv tid f name ns s" "runner s = Call"
  shows "SetName n s = Inl Dangling \<longleftrightarrow> object s = None \<and> n \<noteq> []"
  using assms by (auto simp: start_inv_def SetName_def split: option.splits)

text \<open>
  C39: the handshake that starts a thread. Once the constructor has returned, the object's \<open>m_id\<close> is the
  thread's id, the callback has moved from the object to the thread, and the thread has the name it was given or gave
  itself last. No statement of \<open>run\<close> itself touches a destroyed object or fails, even if the owner destroys the object as
  soon as the constructor returns; the callback touches a destroyed object exactly when it calls \<open>SetName\<close> with a
  name that is not empty after that. A constructor that waits does return: the statements that the thread still has
  before its \<open>notify\<close> are enough.
\<close>
theorem thread_started:
  assumes "start_reach tid f name ns s"
  shows "(maker s = Returned \<longrightarrow> cb s = Some f \<and> t_thread_name s = current_name name ns
        \<and> (\<forall>t. object s = Some t \<longrightarrow> m_id t = tid \<and> m_cb t = None \<and> m_name t = current_name name ns))
    \<and> (\<exists>s'. run_step tid s = Inr s')
    \<and> (runner s = Call \<longrightarrow> (SetName n s = Inl Dangling \<longleftrightarrow> object s = None \<and> n \<noteq> []))
    \<and> (maker s = Waiting \<longrightarrow>
         (\<exists>k s' s''. k \<le> 6 \<and> run_steps k tid s = Inr s' \<and> wait_step s' = Some s'' \<and> maker s'' = Returned))"
proof -
  note inv = start_reach_inv [OF assms]
  have "7 - ran (runner s) \<le> 6" if "maker s = Waiting" using inv that by (cases "runner s") (auto simp: start_inv_def)
  then have "maker s = Waiting \<longrightarrow>
      (\<exists>k s' s''. k \<le> 6 \<and> run_steps k tid s = Inr s' \<and> wait_step s' = Some s'' \<and> maker s'' = Returned)"
    using waiting_returns [OF inv] by blast
  moreover have "maker s = Returned \<longrightarrow> cb s = Some f \<and> t_thread_name s = current_name name ns
      \<and> (\<forall>t. object s = Some t \<longrightarrow> m_id t = tid \<and> m_cb t = None \<and> m_name t = current_name name ns)"
    using inv by (cases "object s"; cases "runner s") (simp_all add: start_inv_def)
  moreover have "runner s = Call \<longrightarrow> (SetName n s = Inl Dangling \<longleftrightarrow> object s = None \<and> n \<noteq> [])"
    using SetName_dangling [OF inv] by blast
  ultimately show ?thesis using run_step_ok [OF inv] by blast
qed

theorem thread_started_witness:
  "\<exists>k s' s''. k \<le> 6 \<and> run_steps k 42 (create_step 0 7 (start_state_of (1 :: nat) ''worker'')) = Inr s' \<and> wait_step s' = Some s'' \<and> maker s'' = Returned"
proof -
  have "start_reach 42 1 ''worker'' [] (create_step 0 7 (start_state_of (1 :: nat) ''worker''))"
    by (rule start_reach.create [OF start_reach.start]) (simp add: start_state_of_def)
  from thread_started [OF this] show ?thesis by (simp add: create_step_def)
qed

end
