(* ===== verification/Daemon.thy ===== *)
theory Daemon
  imports Util
begin

text \<open>
  Daemon mode (\<open>daemon.cc\<close>). \<open>fork\<close> answers twice, so the loop of \<open>real_daemon\<close> is followed along one process: the
  answers that it gets are a list, and a loop that has used them up is still running. The theorem says which
  ends of a child are followed by a new one, how they are counted and what the two processes return.
\<close>

section \<open>The model\<close>

record ProcessInfo =
  parent_id :: int
  main_id :: int
  parent_start_time :: u64
  main_start_time :: u64
  restart_count :: u64

definition new_ProcessInfo :: ProcessInfo where
  "new_ProcessInfo = \<lparr>parent_id = 0, main_id = 0, parent_start_time = 0, main_start_time = 0, restart_count = 0\<rparr>"

text \<open>
  What \<open>toString\<close> prints, over the text of a time (\<open>Time2Str\<close>, a call of \<open>strftime\<close>) and the text of the pointer
  that is printed in the place of the count.
\<close>

definition ProcessInfo_toString :: "(u64 \<Rightarrow> string) \<Rightarrow> string \<Rightarrow> ProcessInfo \<Rightarrow> string" where
  "ProcessInfo_toString Time2Str pointer info =
     ''[ProcessInfo parent_id= '' @ int_text (parent_id info) @ '' main_id='' @ int_text (main_id info)
     @ '' parent_start_time= '' @ Time2Str (parent_start_time info) @ '' main_start_time='' @ Time2Str (main_start_time info)
     @ '' restart_count='' @ pointer @ '']''"

lemma toString_without_count:
  "ProcessInfo_toString Time2Str pointer (info\<lparr>restart_count := n\<rparr>) = ProcessInfo_toString Time2Str pointer info"
  by (simp add: ProcessInfo_toString_def)

text \<open>What \<open>getpid\<close> and \<open>time\<close> answer, and the main function of the program, with its arguments, as its result.\<close>

definition real_start :: "int \<Rightarrow> u64 \<Rightarrow> ('args \<Rightarrow> int) \<Rightarrow> 'args \<Rightarrow> ProcessInfo \<Rightarrow> int \<times> ProcessInfo" where
  "real_start pid now main_cb args info = (main_cb args, info\<lparr>main_id := pid, main_start_time := now\<rparr>)"

text \<open>
  The answer of one \<open>fork\<close>: the process is the child, with its id, the time, and the time when \<open>real_start\<close> asks
  again; there is no child, with \<open>errno\<close>; or the process is the parent, with the child's id, the status that
  \<open>waitpid\<close> stores, if it stores one, and the configured interval.
\<close>

datatype fork_answer =
    InChild int u64 u64
  | NoChild int
  | InParent int "int option" u32

text \<open>The seconds that the parent has slept, in order, are kept beside the process information.\<close>

fun daemon_loop :: "('args \<Rightarrow> int) \<Rightarrow> 'args \<Rightarrow> fork_answer list \<Rightarrow> ProcessInfo \<times> u32 list \<Rightarrow> (int \<times> ProcessInfo \<times> u32 list) option" where
  "daemon_loop main_cb args [] st = None"
| "daemon_loop main_cb args (InChild pid now later # as) (info, slept) =
     (case real_start pid later main_cb args (info\<lparr>main_id := pid, main_start_time := now\<rparr>) of (rc, info) \<Rightarrow> Some (rc, info, slept))"
| "daemon_loop main_cb args (NoChild err # as) (info, slept) = Some (- 1, info, slept)"
| "daemon_loop main_cb args (InParent pid stored interval # as) (info, slept) =
     (let status = (case stored of None \<Rightarrow> 0 | Some st \<Rightarrow> st) in
      if status \<noteq> 0 then
        if status = 9 then Some (0, info, slept)
        else daemon_loop main_cb args as (info\<lparr>restart_count := restart_count info + 1\<rparr>, slept @ [interval])
      else Some (0, info, slept))"

definition real_daemon :: "int \<Rightarrow> u64 \<Rightarrow> ('args \<Rightarrow> int) \<Rightarrow> 'args \<Rightarrow> fork_answer list \<Rightarrow> ProcessInfo \<Rightarrow> (int \<times> ProcessInfo \<times> u32 list) option" where
  "real_daemon pid now main_cb args as info = daemon_loop main_cb args as (info\<lparr>parent_id := pid, parent_start_time := now\<rparr>, [])"

definition start_daemon ::
  "int \<Rightarrow> u64 \<Rightarrow> u64 \<Rightarrow> ('args \<Rightarrow> int) \<Rightarrow> 'args \<Rightarrow> bool \<Rightarrow> fork_answer list \<Rightarrow> ProcessInfo \<Rightarrow> (int \<times> ProcessInfo \<times> u32 list) option" where
  "start_daemon pid now later main_cb args is_daemon as info =
     (if \<not> is_daemon then
        (case real_start pid later main_cb args (info\<lparr>parent_id := pid, parent_start_time := now\<rparr>) of (rc, info) \<Rightarrow> Some (rc, info, []))
      else real_daemon pid now main_cb args as info)"

section \<open>Restarts\<close>

text \<open>The ends of a child that are followed by a new child.\<close>

fun crashed :: "fork_answer \<Rightarrow> bool" where
  "crashed (InParent pid (Some status) interval) \<longleftrightarrow> status \<noteq> 0 \<and> status \<noteq> 9"
| "crashed a \<longleftrightarrow> False"

fun interval_of :: "fork_answer \<Rightarrow> u32" where
  "interval_of (InParent pid stored interval) = interval"
| "interval_of a = 0"

text \<open>How the process ends with an answer that ends it.\<close>

fun outcome :: "('args \<Rightarrow> int) \<Rightarrow> 'args \<Rightarrow> fork_answer \<Rightarrow> ProcessInfo \<Rightarrow> int \<times> ProcessInfo" where
  "outcome main_cb args (InChild pid now later) info = (main_cb args, info\<lparr>main_id := pid, main_start_time := later\<rparr>)"
| "outcome main_cb args (NoChild err) info = (- 1, info)"
| "outcome main_cb args (InParent pid stored interval) info = (0, info)"

lemma daemon_loop_crash:
  "crashed a \<Longrightarrow> daemon_loop main_cb args (a # as) (info, slept)
     = daemon_loop main_cb args as (info\<lparr>restart_count := restart_count info + 1\<rparr>, slept @ [interval_of a])"
  by (cases a rule: crashed.cases) simp_all

lemma daemon_loop_ends:
  "\<not> crashed a \<Longrightarrow> daemon_loop main_cb args (a # as) (info, slept)
     = (case outcome main_cb args a info of (rc, info) \<Rightarrow> Some (rc, info, slept))"
  by (cases a rule: crashed.cases) (auto simp: real_start_def)

lemma daemon_loop_restarts:
  "list_all crashed cs \<Longrightarrow> daemon_loop main_cb args (cs @ as) (info, slept)
     = daemon_loop main_cb args as (info\<lparr>restart_count := restart_count info + of_nat (length cs)\<rparr>, slept @ map interval_of cs)"
proof (induction cs arbitrary: info slept)
  case Nil
  then show ?case by simp
next
  case (Cons c cs)
  then show ?case by (simp add: daemon_loop_crash algebra_simps)
qed

text \<open>
  Daemon mode. A child that ends with a status other than 0 and 9 is followed by a new one after
  the interval that is configured then, and counted modulo \<open>2 ^ 64\<close>; while children crash the daemon runs. The
  first other answer ends the process: the parent returns 0 after a child that finished, was killed or could not be
  waited for, -1 without a child, and the child returns what the main function returns, knowing the ids of
  both processes and how many there were before it. Without daemon mode the main function runs in the process itself.
\<close>
theorem daemon_restarts:
  assumes "list_all crashed cs" "\<not> crashed a"
  shows "start_daemon pid now later main_cb args True cs new_ProcessInfo = None
    \<and> start_daemon pid now later main_cb args True (cs @ a # as) new_ProcessInfo
      = (case outcome main_cb args a (new_ProcessInfo\<lparr>parent_id := pid, parent_start_time := now, restart_count := of_nat (length cs)\<rparr>)
         of (rc, info) \<Rightarrow> Some (rc, info, map interval_of cs))
    \<and> start_daemon pid now later main_cb args False as new_ProcessInfo
      = Some (main_cb args, new_ProcessInfo\<lparr>parent_id := pid, parent_start_time := now, main_id := pid, main_start_time := later\<rparr>, [])"
proof -
  let ?info = "new_ProcessInfo\<lparr>parent_id := pid, parent_start_time := now\<rparr>"
  have "start_daemon pid now later main_cb args True cs new_ProcessInfo = None"
    using daemon_loop_restarts [OF assms(1), of main_cb args "[]" ?info "[]"] by (simp add: start_daemon_def real_daemon_def)
  moreover have "start_daemon pid now later main_cb args True (cs @ a # as) new_ProcessInfo
      = (case outcome main_cb args a (?info\<lparr>restart_count := of_nat (length cs)\<rparr>) of (rc, info) \<Rightarrow> Some (rc, info, map interval_of cs))"
    using daemon_loop_restarts [OF assms(1), of main_cb args "a # as" ?info "[]"] daemon_loop_ends [OF assms(2)]
    by (simp add: start_daemon_def real_daemon_def new_ProcessInfo_def)
  ultimately show ?thesis by (simp add: start_daemon_def real_start_def)
qed

theorem daemon_restarts_witness:
  "start_daemon 10 100 100 (\<lambda>_. 3) () True [InParent 11 (Some 139) 5, InParent 12 (Some 256) 5, InParent 13 (Some 9) 5] new_ProcessInfo
   = Some (0, \<lparr>parent_id = 10, main_id = 0, parent_start_time = 100, main_start_time = 0, restart_count = 2\<rparr>, [5, 5])"
  using daemon_restarts [of "[InParent 11 (Some 139) 5, InParent 12 (Some 256) 5]" "InParent 13 (Some 9) 5" 10 100 100 "\<lambda>_. 3" "()" "[]"]
  by (simp add: new_ProcessInfo_def)

end
