(* ===== verification/SslSocket.thy ===== *)
theory SslSocket
  imports SocketApi
begin

text \<open>
  TLS sockets (\<open>SSLSocket\<close> of \<open>socket.cc\<close>). OpenSSL is a parameter: its functions, over a state of their own. A
  session or a context is its address, no address a null pointer. The calls that OpenSSL leaves undefined for a null
  pointer are errors, and so is an assertion of the program and an overflow of \<open>int\<close>. The memory
  of sessions and contexts is not modelled. The theorem says what a call with several buffers has transferred.
\<close>

section \<open>OpenSSL\<close>

datatype ssl_method = SSLv23_client_method | SSLv23_server_method

record 'o ssl_lib =
  SSL_CTX_new :: "ssl_method \<Rightarrow> 'o \<Rightarrow> nat option \<times> 'o"
  SSL_new :: "nat option \<Rightarrow> 'o \<Rightarrow> nat option \<times> 'o"
  SSL_set_fd :: "nat \<Rightarrow> int \<Rightarrow> 'o \<Rightarrow> 'o"
  SSL_connect :: "nat \<Rightarrow> 'o \<Rightarrow> int \<times> 'o"
  SSL_accept :: "nat \<Rightarrow> 'o \<Rightarrow> int \<times> 'o"
  SSL_write :: "nat \<Rightarrow> byte list \<Rightarrow> int \<Rightarrow> 'o \<Rightarrow> int \<times> 'o"
  SSL_read :: "nat \<Rightarrow> int \<Rightarrow> 'o \<Rightarrow> int \<times> byte list \<times> 'o"
  SSL_CTX_use_certificate_chain_file :: "nat \<Rightarrow> string \<Rightarrow> 'o \<Rightarrow> int \<times> 'o"
  SSL_CTX_use_PrivateKey_file :: "nat \<Rightarrow> string \<Rightarrow> 'o \<Rightarrow> int \<times> 'o"
  SSL_CTX_check_private_key :: "nat \<Rightarrow> 'o \<Rightarrow> int \<times> 'o"

datatype ssl_error = NullSession | NullContext | SslAssertion | IntOverflow | SslFd fd_error

text \<open>A \<open>size_t\<close> given where an \<open>int\<close> is asked for, and the sum of two of these.\<close>

definition int_of_size :: "nat \<Rightarrow> int" where
  "int_of_size n = sint (word_of_nat n :: u32)"

definition int_sum :: "int \<Rightarrow> int \<Rightarrow> ssl_error + int" where
  "int_sum a b = (if - (2 ^ 31) \<le> a + b \<and> a + b < 2 ^ 31 then Inr (a + b) else Inl IntOverflow)"

section \<open>Sockets\<close>

record SSLSocket =
  base :: Socket
  m_ctx :: "nat option"
  m_ssl :: "nat option"

definition new_SSLSocket :: "int \<Rightarrow> int \<Rightarrow> int \<Rightarrow> SSLSocket" where
  "new_SSLSocket family type protocol = \<lparr>base = new_Socket family type protocol, m_ctx = None, m_ssl = None\<rparr>"

definition AF_INET :: int where "AF_INET = 2"
definition AF_INET6 :: int where "AF_INET6 = 10"

definition CreateTcp :: "sock_addr \<Rightarrow> SSLSocket" where
  "CreateTcp address = new_SSLSocket (addr_family address) SOCK_STREAM 0"

definition CreateTCPSocket :: SSLSocket where
  "CreateTCPSocket = new_SSLSocket AF_INET SOCK_STREAM 0"

definition CreateTCPSocket6 :: SSLSocket where
  "CreateTCPSocket6 = new_SSLSocket AF_INET6 SOCK_STREAM 0"

text \<open>A session over the descriptor, and the handshake that is given.\<close>

definition open_session :: "'o ssl_lib \<Rightarrow> (nat \<Rightarrow> 'o \<Rightarrow> int \<times> 'o) \<Rightarrow> SSLSocket \<Rightarrow> 'o \<Rightarrow> ssl_error + bool \<times> SSLSocket \<times> 'o" where
  "open_session lib handshake s st =
     (let (ssl, st) = SSL_new lib (m_ctx s) st; s = s\<lparr>m_ssl := ssl\<rparr> in
      case ssl of None \<Rightarrow> Inl NullSession
      | Some p \<Rightarrow> let st = SSL_set_fd lib p (m_sock (base s)) st; (rt, st) = handshake p st in Inr (rt = 1, s, st))"

definition SSLSocket_connect ::
  "'o ssl_lib \<Rightarrow> sock_addr \<Rightarrow> u64 \<Rightarrow> SSLSocket \<Rightarrow> Sys \<Rightarrow> 'o \<Rightarrow> ssl_error + bool \<times> SSLSocket \<times> Sys \<times> 'o" where
  "SSLSocket_connect lib addr timeout_ms s w st =
     (let (v, b, w) = sock_connect addr timeout_ms (base s) w; s = s\<lparr>base := b\<rparr> in
      if v then
        let (ctx, st) = SSL_CTX_new lib SSLv23_client_method st
        in bindr (open_session lib (SSL_connect lib) (s\<lparr>m_ctx := ctx\<rparr>) st) (\<lambda>(v, s, st). Inr (v, s, w, st))
      else Inr (v, s, w, st))"

definition SSLSocket_listen :: "int \<Rightarrow> SSLSocket \<Rightarrow> Sys \<Rightarrow> bool \<times> SSLSocket \<times> Sys" where
  "SSLSocket_listen backlog s w = (let (v, b, w) = sock_listen backlog (base s) w in (v, s\<lparr>base := b\<rparr>, w))"

definition SSLSocket_close :: "SSLSocket \<Rightarrow> Sys \<Rightarrow> bool \<times> SSLSocket \<times> Sys" where
  "SSLSocket_close s w = (let (v, b, w) = sock_close (base s) w in (v, s\<lparr>base := b\<rparr>, w))"

fun lift_fd :: "fd_error + 'a \<Rightarrow> ssl_error + 'a" where
  "lift_fd (Inl e) = Inl (SslFd e)"
| "lift_fd (Inr a) = Inr a"

definition SSLSocket_init ::
  "'o ssl_lib \<Rightarrow> int \<Rightarrow> fd_flags \<Rightarrow> FdManager \<Rightarrow> SSLSocket \<Rightarrow> Sys \<Rightarrow> 'o \<Rightarrow> ssl_error + bool \<times> SSLSocket \<times> Sys \<times> 'o" where
  "SSLSocket_init lib fd k m s w st =
     bindr (lift_fd (sock_init fd k m (base s) w)) (\<lambda>(v, b, w).
       let s = s\<lparr>base := b\<rparr> in
       if v then bindr (open_session lib (SSL_accept lib) s st) (\<lambda>(v, s, st). Inr (v, s, w, st)) else Inr (v, s, w, st))"

definition SSLSocket_accept ::
  "'o ssl_lib \<Rightarrow> fd_flags \<Rightarrow> FdManager \<Rightarrow> SSLSocket \<Rightarrow> Sys \<Rightarrow> 'o \<Rightarrow> ssl_error + SSLSocket option \<times> Sys \<times> 'o" where
  "SSLSocket_accept lib k m s w st =
     (let new = new_SSLSocket (m_family (base s)) (m_type (base s)) (m_protocol (base s));
          (newsock, w) = sys (SysAccept (m_sock (base s))) w
      in if newsock = - 1 then Inr (None, w, st)
         else bindr (SSLSocket_init lib newsock k m (new\<lparr>m_ctx := m_ctx s\<rparr>) w st) (\<lambda>(v, new, w, st).
           Inr (if v then (Some new, w, st) else (None, destroy (base new) w, st))))"

definition loadCertificates :: "'o ssl_lib \<Rightarrow> string \<Rightarrow> string \<Rightarrow> SSLSocket \<Rightarrow> 'o \<Rightarrow> ssl_error + bool \<times> SSLSocket \<times> 'o" where
  "loadCertificates lib cert_file key_file s st =
     (let (ctx, st) = SSL_CTX_new lib SSLv23_server_method st; s = s\<lparr>m_ctx := ctx\<rparr> in
      case ctx of None \<Rightarrow> Inl NullContext
      | Some p \<Rightarrow>
          let (rt, st) = SSL_CTX_use_certificate_chain_file lib p cert_file st in
          if rt \<noteq> 1 then Inr (False, s, st)
          else let (rt, st) = SSL_CTX_use_PrivateKey_file lib p key_file st in
          if rt \<noteq> 1 then Inr (False, s, st)
          else let (rt, st) = SSL_CTX_check_private_key lib p st in
          if rt \<noteq> 1 then Inr (False, s, st) else Inr (True, s, st))"

section \<open>Transfers\<close>

definition SSLSocket_send :: "'o ssl_lib \<Rightarrow> byte list \<Rightarrow> SSLSocket \<Rightarrow> 'o \<Rightarrow> int \<times> 'o" where
  "SSLSocket_send lib buffer s st =
     (case m_ssl s of None \<Rightarrow> (- 1, st) | Some p \<Rightarrow> SSL_write lib p buffer (int_of_size (length buffer)) st)"

fun send_loop :: "'o ssl_lib \<Rightarrow> nat \<Rightarrow> byte list list \<Rightarrow> int \<Rightarrow> 'o \<Rightarrow> ssl_error + int \<times> 'o" where
  "send_loop lib p [] tot st = Inr (tot, st)"
| "send_loop lib p (b # bs) tot st =
     (let (tmp, st) = SSL_write lib p b (int_of_size (length b)) st in
      if tmp \<le> 0 then Inr (tmp, st)
      else bindr (int_sum tot tmp) (\<lambda>tot.
        if tmp \<noteq> int_of_size (length b) then Inr (tot, st) else send_loop lib p bs tot st))"

definition SSLSocket_send_iov :: "'o ssl_lib \<Rightarrow> byte list list \<Rightarrow> SSLSocket \<Rightarrow> 'o \<Rightarrow> ssl_error + int \<times> 'o" where
  "SSLSocket_send_iov lib buffers s st = (case m_ssl s of None \<Rightarrow> Inr (- 1, st) | Some p \<Rightarrow> send_loop lib p buffers 0 st)"

text \<open>A buffer to read into is its length; what was stored in the buffers is returned with the result.\<close>

definition SSLSocket_recv :: "'o ssl_lib \<Rightarrow> nat \<Rightarrow> SSLSocket \<Rightarrow> 'o \<Rightarrow> int \<times> byte list \<times> 'o" where
  "SSLSocket_recv lib len s st =
     (case m_ssl s of None \<Rightarrow> (- 1, [], st) | Some p \<Rightarrow> SSL_read lib p (int_of_size len) st)"

fun recv_loop :: "'o ssl_lib \<Rightarrow> nat \<Rightarrow> nat list \<Rightarrow> int \<Rightarrow> byte list list \<Rightarrow> 'o \<Rightarrow> ssl_error + int \<times> byte list list \<times> 'o" where
  "recv_loop lib p [] tot got st = Inr (tot, got, st)"
| "recv_loop lib p (n # ns) tot got st =
     (let (tmp, bs, st) = SSL_read lib p (int_of_size n) st in
      if tmp \<le> 0 then Inr (tmp, got, st)
      else bindr (int_sum tot tmp) (\<lambda>tot.
        if tmp \<noteq> int_of_size n then Inr (tot, got @ [bs], st) else recv_loop lib p ns tot (got @ [bs]) st))"

definition SSLSocket_recv_iov :: "'o ssl_lib \<Rightarrow> nat list \<Rightarrow> SSLSocket \<Rightarrow> 'o \<Rightarrow> ssl_error + int \<times> byte list list \<times> 'o" where
  "SSLSocket_recv_iov lib lens s st = (case m_ssl s of None \<Rightarrow> Inr (- 1, [], st) | Some p \<Rightarrow> recv_loop lib p lens 0 [] st)"

text \<open>Datagrams are not for TLS.\<close>

definition SSLSocket_sendTo :: "byte list \<Rightarrow> sock_addr \<Rightarrow> SSLSocket \<Rightarrow> ssl_error + int" where
  "SSLSocket_sendTo buffer addr s = Inl SslAssertion"

definition SSLSocket_sendTo_iov :: "byte list list \<Rightarrow> sock_addr \<Rightarrow> SSLSocket \<Rightarrow> ssl_error + int" where
  "SSLSocket_sendTo_iov buffers addr s = Inl SslAssertion"

definition SSLSocket_recvFrom :: "nat \<Rightarrow> sock_addr \<Rightarrow> SSLSocket \<Rightarrow> ssl_error + int" where
  "SSLSocket_recvFrom len addr s = Inl SslAssertion"

definition SSLSocket_recvFrom_iov :: "nat list \<Rightarrow> sock_addr \<Rightarrow> SSLSocket \<Rightarrow> ssl_error + int" where
  "SSLSocket_recvFrom_iov lens addr s = Inl SslAssertion"

definition SSLSocket_dump :: "(nat \<Rightarrow> string) \<Rightarrow> SSLSocket \<Rightarrow> string" where
  "SSLSocket_dump addr_text s =
     (let s = base s in
      ''[SSLSocket sock='' @ int_text (m_sock s) @ '' is_connected='' @ (if m_isConnected s then ''1'' else ''0'')
     @ '' family='' @ int_text (m_family s) @ '' type='' @ int_text (m_type s) @ '' protocol='' @ int_text (m_protocol s)
     @ (case m_localAddress s of None \<Rightarrow> [] | Some a \<Rightarrow> '' local_address='' @ addr_text a)
     @ (case m_remoteAddress s of None \<Rightarrow> [] | Some a \<Rightarrow> '' remote_address='' @ addr_text a) @ '']'')"

section \<open>What was transferred\<close>

text \<open>
  What OpenSSL documents of a session's stream: a positive result of \<open>SSL_write\<close> or \<open>SSL_read\<close> is the number of
  bytes taken from the front of the buffer or of the stream. Any other result is a failure, at which a part of the
  buffer may have gone out, and a part of the stream may be lost.
\<close>

definition writes_prefix :: "'o ssl_lib \<Rightarrow> ('o \<Rightarrow> byte list) \<Rightarrow> bool" where
  "writes_prefix lib sent \<longleftrightarrow>
     (\<forall>p bs st n st'. SSL_write lib p bs (int (length bs)) st = (n, st') \<longrightarrow>
        (n > 0 \<longrightarrow> n \<le> int (length bs) \<and> sent st' = sent st @ take (nat n) bs) \<and> (n \<le> 0 \<longrightarrow> (\<exists>k \<le> length bs. sent st' = sent st @ take k bs)))"

definition reads_prefix :: "'o ssl_lib \<Rightarrow> ('o \<Rightarrow> byte list) \<Rightarrow> bool" where
  "reads_prefix lib incoming \<longleftrightarrow>
     (\<forall>p n st r bs st'. SSL_read lib p (int n) st = (r, bs, st') \<longrightarrow>
        (r > 0 \<longrightarrow> r \<le> int n \<and> int (length bs) = r \<and> incoming st = bs @ incoming st') \<and> (r \<le> 0 \<longrightarrow> (\<exists>lost. incoming st = lost @ incoming st')))"

text \<open>The buffers are filled in order, all but the last one to the end.\<close>

fun fills :: "nat list \<Rightarrow> byte list list \<Rightarrow> bool" where
  "fills ns [] = True"
| "fills [] (c # cs) = False"
| "fills (n # ns) [c] = (length c \<le> n)"
| "fills (n # ns) (c # cs) = (length c = n \<and> fills ns cs)"

lemma int_of_size_small [simp]: "n < 2 ^ 31 \<Longrightarrow> int_of_size n = int n"
  by (simp add: int_of_size_def signed_of_nat signed_take_bit_int_eq_self)

lemma int_sum_small: "0 \<le> a \<Longrightarrow> 0 \<le> b \<Longrightarrow> a + b < 2 ^ 31 \<Longrightarrow> int_sum a b = Inr (a + b)"
  by (simp add: int_sum_def)

lemma fills_Cons: "length c = n \<Longrightarrow> fills ns cs \<Longrightarrow> fills (n # ns) (c # cs)"
  by (cases cs) simp_all

lemma writes_prefixD:
  assumes "writes_prefix lib sent" "SSL_write lib p b (int (length b)) st = (n, st')"
  shows "(n > 0 \<longrightarrow> n \<le> int (length b) \<and> sent st' = sent st @ take (nat n) b) \<and> (n \<le> 0 \<longrightarrow> (\<exists>k \<le> length b. sent st' = sent st @ take k b))"
  using assms unfolding writes_prefix_def by blast

lemma reads_prefixD:
  assumes "reads_prefix lib incoming" "SSL_read lib p (int n) st = (r, bs, st')"
  shows "(r > 0 \<longrightarrow> r \<le> int n \<and> int (length bs) = r \<and> incoming st = bs @ incoming st') \<and> (r \<le> 0 \<longrightarrow> (\<exists>lost. incoming st = lost @ incoming st'))"
  using assms unfolding reads_prefix_def by blast

lemma send_loop_exact:
  assumes "writes_prefix lib sent" "0 \<le> tot" "tot + int (length (concat bufs)) < 2 ^ 31"
  shows "\<exists>r st'. send_loop lib p bufs tot st = Inr (r, st')
    \<and> ((r \<le> 0 \<and> (\<exists>k \<le> length (concat bufs). sent st' = sent st @ take k (concat bufs)))
       \<or> (tot \<le> r \<and> r \<le> tot + int (length (concat bufs)) \<and> sent st' = sent st @ take (nat (r - tot)) (concat bufs)))"
  using assms(2,3)
proof (induction bufs arbitrary: tot st)
  case Nil
  then show ?case by auto
next
  case (Cons b bs)
  obtain n st1 where w: "SSL_write lib p b (int (length b)) st = (n, st1)" by fastforce
  have law: "n > 0 \<Longrightarrow> n \<le> int (length b) \<and> sent st1 = sent st @ take (nat n) b" "n \<le> 0 \<Longrightarrow> \<exists>k \<le> length b. sent st1 = sent st @ take k b"
    using writes_prefixD [OF assms(1) w] by simp_all
  have small: "length b < 2 ^ 31" using Cons.prems by simp
  consider "n \<le> 0" | "0 < n" "n < int (length b)" | "0 < n" "n = int (length b)" using law by linarith
  then show ?case
  proof cases
    case 1
    then obtain k where "k \<le> length b" "sent st1 = sent st @ take k b" using law(2) by blast
    then have "k \<le> length (concat (b # bs)) \<and> sent st1 = sent st @ take k (concat (b # bs))" by simp
    then show ?thesis using 1 w small by (auto simp del: concat.simps)
  next
    case 2
    then have "int_sum tot n = Inr (tot + n)" using Cons.prems by (intro int_sum_small) simp_all
    then show ?thesis using 2 w law small by simp
  next
    case 3
    have sum: "int_sum tot n = Inr (tot + n)" using Cons.prems 3 by (intro int_sum_small) simp_all
    have loop: "send_loop lib p (b # bs) tot st = send_loop lib p bs (tot + n) st1" using 3 w small sum by simp
    obtain r st' where IH: "send_loop lib p bs (tot + n) st1 = Inr (r, st')"
      "(r \<le> 0 \<and> (\<exists>k \<le> length (concat bs). sent st' = sent st1 @ take k (concat bs)))
       \<or> (tot + n \<le> r \<and> r \<le> tot + n + int (length (concat bs)) \<and> sent st' = sent st1 @ take (nat (r - (tot + n))) (concat bs))"
      using Cons.IH [of "tot + n" st1] Cons.prems 3 by auto
    from IH(2) show ?thesis
    proof (elim disjE conjE exE)
      fix k assume "r \<le> 0" "k \<le> length (concat bs)" "sent st' = sent st1 @ take k (concat bs)"
      then show ?thesis using 3 law loop IH(1) by (auto intro!: exI [of _ "length b + k"])
    next
      assume r: "tot + n \<le> r" "r \<le> tot + n + int (length (concat bs))" "sent st' = sent st1 @ take (nat (r - (tot + n))) (concat bs)"
      have "nat (r - tot) - length b = nat (r - (tot + n))" "length b \<le> nat (r - tot)" using 3 r(1) by auto
      then show ?thesis using 3 law loop IH(1) r by simp
    qed
  qed
qed

lemma recv_loop_exact:
  assumes "reads_prefix lib incoming" "0 \<le> tot" "tot + int (sum_list ns) < 2 ^ 31"
  shows "\<exists>r cs lost st'. recv_loop lib p ns tot got st = Inr (r, got @ cs, st') \<and> incoming st = concat cs @ lost @ incoming st'
    \<and> fills ns cs \<and> (r \<le> 0 \<or> r = tot + int (length (concat cs)) \<and> lost = [])"
  using assms(2,3)
proof (induction ns arbitrary: tot got st)
  case Nil
  then show ?case by (auto intro!: exI [of _ "[]"])
next
  case (Cons n ns)
  obtain r bs st1 where w: "SSL_read lib p (int n) st = (r, bs, st1)" by (metis prod_cases3)
  have law: "r > 0 \<Longrightarrow> r \<le> int n \<and> int (length bs) = r \<and> incoming st = bs @ incoming st1" "r \<le> 0 \<Longrightarrow> \<exists>lost. incoming st = lost @ incoming st1"
    using reads_prefixD [OF assms(1) w] by simp_all
  have small: "n < 2 ^ 31" using Cons.prems by simp
  consider "r \<le> 0" | "0 < r" "r < int n" | "0 < r" "r = int n" using law by linarith
  then show ?case
  proof cases
    case 1
    then show ?thesis using w law small by (auto intro!: exI [of _ "[]"])
  next
    case 2
    then have "int_sum tot r = Inr (tot + r)" using Cons.prems by (intro int_sum_small) simp_all
    then show ?thesis using 2 w law small by (auto intro!: exI [of _ "[bs]"] exI [of _ "[]"])
  next
    case 3
    then have "int_sum tot r = Inr (tot + r)" using Cons.prems by (intro int_sum_small) simp_all
    then have loop: "recv_loop lib p (n # ns) tot got st = recv_loop lib p ns (tot + r) (got @ [bs]) st1" using 3 w small by simp
    obtain r' cs lost st' where "recv_loop lib p ns (tot + r) (got @ [bs]) st1 = Inr (r', (got @ [bs]) @ cs, st')"
      "incoming st1 = concat cs @ lost @ incoming st'" "fills ns cs"
      "r' \<le> 0 \<or> r' = tot + r + int (length (concat cs)) \<and> lost = []"
      using Cons.IH [of "tot + r" "got @ [bs]" st1] Cons.prems 3 by auto
    then show ?thesis using 3 law loop by (auto intro!: exI [of _ "bs # cs"] fills_Cons)
  qed
qed

text \<open>
  C40: transfers over TLS with several buffers, of less than \<open>2 ^ 31\<close> bytes together. A positive result of a \<open>send\<close> is
  the number of bytes sent, from the front of all the buffers; after any other result some part from the front of the
  buffers may have been sent, and nothing else. A positive result of a \<open>recv\<close> is the number of bytes received, which
  fill the buffers in order and are what the stream brought next; after any other result the buffers may still have been
  filled with bytes from the front of the stream. Without a session nothing happens.
\<close>
theorem ssl_transfers_exact:
  assumes "writes_prefix lib sent" "reads_prefix lib incoming" "length (concat bufs) < 2 ^ 31" "sum_list lens < 2 ^ 31"
  shows "(\<exists>r st'. SSLSocket_send_iov lib bufs s st = Inr (r, st') \<and> r \<le> int (length (concat bufs))
      \<and> (if r > 0 then sent st' = sent st @ take (nat r) (concat bufs)
         else m_ssl s \<noteq> None \<longrightarrow> (\<exists>k \<le> length (concat bufs). sent st' = sent st @ take k (concat bufs))))
    \<and> (\<exists>r cs lost st'. SSLSocket_recv_iov lib lens s st = Inr (r, cs, st')
      \<and> (m_ssl s \<noteq> None \<longrightarrow> incoming st = concat cs @ lost @ incoming st') \<and> fills lens cs
      \<and> (r > 0 \<longrightarrow> r = int (length (concat cs)) \<and> lost = []))
    \<and> (m_ssl s = None \<longrightarrow> SSLSocket_send_iov lib bufs s st = Inr (- 1, st) \<and> SSLSocket_recv_iov lib lens s st = Inr (- 1, [], st))"
proof (cases "m_ssl s")
  case None
  then show ?thesis by (simp add: SSLSocket_send_iov_def SSLSocket_recv_iov_def)
next
  case (Some p)
  obtain r st' where send: "send_loop lib p bufs 0 st = Inr (r, st')"
    "(r \<le> 0 \<and> (\<exists>k \<le> length (concat bufs). sent st' = sent st @ take k (concat bufs)))
     \<or> (0 \<le> r \<and> r \<le> int (length (concat bufs)) \<and> sent st' = sent st @ take (nat r) (concat bufs))"
    using send_loop_exact [OF assms(1), of 0 bufs p st] assms(3) by auto
  have "r \<le> int (length (concat bufs)) \<and> (if r > 0 then sent st' = sent st @ take (nat r) (concat bufs)
      else \<exists>k \<le> length (concat bufs). sent st' = sent st @ take k (concat bufs))"
    using send(2) by (cases "r = 0") (auto intro: exI [of _ 0])
  moreover have "\<exists>r cs lost st'. recv_loop lib p lens 0 [] st = Inr (r, cs, st') \<and> incoming st = concat cs @ lost @ incoming st'
      \<and> fills lens cs \<and> (r > 0 \<longrightarrow> r = int (length (concat cs)) \<and> lost = [])"
    using recv_loop_exact [OF assms(2), of 0 lens p "[]" st] assms(4) by auto
  ultimately show ?thesis using Some send(1) by (simp add: SSLSocket_send_iov_def SSLSocket_recv_iov_def)
qed

text \<open>
  A library that takes at most four bytes at a time and fails once five were sent, after one more byte of the buffer
  went out, with what was sent and what is to be read as its state.
\<close>

definition sample_lib :: "(byte list \<times> byte list) ssl_lib" where
  "sample_lib =
     \<lparr>SSL_CTX_new = (\<lambda>_ st. (Some 1, st)), SSL_new = (\<lambda>c st. (c, st)), SSL_set_fd = (\<lambda>_ _ st. st),
      SSL_connect = (\<lambda>_ st. (1, st)), SSL_accept = (\<lambda>_ st. (1, st)),
      SSL_write = (\<lambda>_ bs n st. if length (fst st) \<ge> 5 \<or> n \<le> 0 then (- 1, fst st @ take 1 bs, snd st)
        else (int (length (take 4 bs)), fst st @ take 4 bs, snd st)),
      SSL_read = (\<lambda>_ n st. if n \<le> 0 \<or> snd st = [] then (- 1, [], st)
        else (int (length (take (nat n) (snd st))), take (nat n) (snd st), fst st, drop (nat n) (snd st))),
      SSL_CTX_use_certificate_chain_file = (\<lambda>_ _ st. (1, st)), SSL_CTX_use_PrivateKey_file = (\<lambda>_ _ st. (1, st)),
      SSL_CTX_check_private_key = (\<lambda>_ st. (1, st))\<rparr>"

lemma take_one_prefix: "\<exists>k \<le> length bs. take (Suc 0) bs = take k bs"
  by (cases bs) (auto intro: exI [of _ 1])

lemma sample_lib_laws: "writes_prefix sample_lib fst" "reads_prefix sample_lib snd"
  by (auto simp: writes_prefix_def reads_prefix_def sample_lib_def min_def take_one_prefix)

definition sample_ssl :: SSLSocket where
  "sample_ssl = CreateTCPSocket\<lparr>m_ssl := Some 1\<rparr>"

theorem ssl_transfers_exact_witness:
  "\<exists>r st'. SSLSocket_send_iov sample_lib [[1, 2], [3, 4, 5, 6, 7], [8]] sample_ssl ([], [9]) = Inr (r, st') \<and> r \<le> 8
    \<and> (r > 0 \<longrightarrow> fst st' = take (nat r) [1, 2, 3, 4, 5, 6, 7, 8])"
  using ssl_transfers_exact [OF sample_lib_laws, of "[[1, 2], [3, 4, 5, 6, 7], [8]]" "[3]" sample_ssl "([], [9])"]
  by (auto split: if_splits)

section \<open>Sessions\<close>

text \<open>The failure after which bytes were sent: the first two buffers and a part of the third went out, and the call returns -1.\<close>

lemma failed_send_sent:
  "SSLSocket_send_iov sample_lib [[1, 2, 3], [4, 5, 6], [7, 8]] sample_ssl ([], []) = Inr (- 1, [1, 2, 3, 4, 5, 6, 7], [])"
  by (simp add: SSLSocket_send_iov_def sample_ssl_def CreateTCPSocket_def new_SSLSocket_def sample_lib_def int_sum_def)

text \<open>
  Closing keeps the session: unlike a plain socket, which refuses, a closed TLS socket still hands its bytes to OpenSSL,
  for the descriptor that was closed.
\<close>

lemma closed_session_used:
  assumes "m_ssl s = Some p" "SSLSocket_close s w = (v, s', w')"
  shows "SSLSocket_send lib bs s' st = SSL_write lib p bs (int_of_size (length bs)) st \<and> m_sock (base s') = - 1 \<and> \<not> m_isConnected (base s')"
  using assms by (auto simp: SSLSocket_close_def SSLSocket_send_def sock_close_def split_beta Let_def split: if_splits)

text \<open>
  An accepted socket has the listener's context and a session whose handshake succeeded. A listener that has no context
  makes an accepted connection a call on a null pointer.
\<close>

lemma sock_init_connected:
  assumes "sock_init fd k m s w = Inr (True, b, w')"
  shows "m_isConnected b"
proof -
  let ?s = "s\<lparr>m_sock := fd, m_isConnected := True\<rparr>"
  let ?l = "getLocalAddress ?s (initSock ?s w)"
  from assms have "b = fst (getRemoteAddress (fst ?l) (snd ?l))"
    by (auto simp: sock_init_def bindr_eq_Inr Let_def split_beta split: option.split_asm if_split_asm)
  then show ?thesis by simp
qed

lemma lift_fd_Inr [simp]: "lift_fd r = Inr a \<longleftrightarrow> r = Inr a"
  by (cases r) simp_all

lemma open_session_Inr:
  "open_session lib h s st = Inr (v, s', st') \<Longrightarrow> base s' = base s \<and> m_ctx s' = m_ctx s \<and> m_ssl s' \<noteq> None"
  by (auto simp: open_session_def Let_def split_beta split: option.split_asm)

lemma SSLSocket_accept_session:
  assumes "SSLSocket_accept lib k m s w st = Inr (Some t, w', st')"
  shows "m_ctx t = m_ctx s \<and> m_ssl t \<noteq> None \<and> m_isConnected (base t)"
proof -
  let ?new = "new_SSLSocket (m_family (base s)) (m_type (base s)) (m_protocol (base s))\<lparr>m_ctx := m_ctx s\<rparr>"
  from assms obtain fd w1 where "SSLSocket_init lib fd k m ?new w1 st = Inr (True, t, w', st')"
    by (auto simp: SSLSocket_accept_def Let_def split_beta bindr_eq_Inr split: if_split_asm)
  then obtain b where "sock_init fd k m (base ?new) w1 = Inr (True, b, w')"
    "open_session lib (SSL_accept lib) (?new\<lparr>base := b\<rparr>) st = Inr (True, t, st')"
    by (auto simp: SSLSocket_init_def Let_def split_beta bindr_eq_Inr split: if_split_asm)
  then show ?thesis using sock_init_connected open_session_Inr by fastforce
qed

lemma SSLSocket_accept_without_context:
  assumes "m_ctx s = None" "\<And>st. fst (SSL_new lib None st) = None" "answer w (syslog w) (SysAccept (m_sock (base s))) = fd" "fd \<noteq> - 1"
    "fdm_get fd False k m = Inr (Some c, k', m')" "m_isSocket c" "\<not> m_isClosed c"
  shows "SSLSocket_accept lib k m s w st = Inl NullSession"
  using assms
  by (simp add: SSLSocket_accept_def SSLSocket_init_def open_session_def sock_init_def new_SSLSocket_def sys_def Let_def split_beta)

text \<open>Certificates are loaded exactly when the three calls succeed; the context is replaced in any case.\<close>

lemma loadCertificates_context:
  assumes "loadCertificates lib cert_file key_file s st = Inr (ok, s', st')"
  shows "m_ctx s' = fst (SSL_CTX_new lib SSLv23_server_method st) \<and> m_ctx s' \<noteq> None \<and> base s' = base s \<and> m_ssl s' = m_ssl s"
  using assms by (auto simp: loadCertificates_def Let_def split_beta split: if_splits option.splits)

text \<open>
  \<open>TcpServer::loadCertificates\<close>: the TLS sockets among the listeners load the files one after the other, up to the
  first that refuses.
\<close>

datatype any_socket = Plain Socket | Tls SSLSocket

fun server_loadCertificates :: "'o ssl_lib \<Rightarrow> string \<Rightarrow> string \<Rightarrow> any_socket list \<Rightarrow> 'o \<Rightarrow> ssl_error + bool \<times> any_socket list \<times> 'o" where
  "server_loadCertificates lib cert_file key_file [] st = Inr (True, [], st)"
| "server_loadCertificates lib cert_file key_file (Plain s # socks) st =
     bindr (server_loadCertificates lib cert_file key_file socks st) (\<lambda>(ok, socks, st). Inr (ok, Plain s # socks, st))"
| "server_loadCertificates lib cert_file key_file (Tls s # socks) st =
     bindr (loadCertificates lib cert_file key_file s st) (\<lambda>(ok, s, st).
       if \<not> ok then Inr (False, Tls s # socks, st)
       else bindr (server_loadCertificates lib cert_file key_file socks st) (\<lambda>(ok, socks, st). Inr (ok, Tls s # socks, st)))"

text \<open>Afterwards every listener for TLS has a context, and no listener lost its descriptor.\<close>

fun descriptor :: "any_socket \<Rightarrow> int" where
  "descriptor (Plain s) = m_sock s"
| "descriptor (Tls s) = m_sock (base s)"

lemma server_loadCertificates_contexts:
  assumes "server_loadCertificates lib cert_file key_file socks st = Inr (ok, socks', st')"
  shows "map descriptor socks' = map descriptor socks \<and> (ok \<longrightarrow> (\<forall>s. Tls s \<in> set socks' \<longrightarrow> m_ctx s \<noteq> None))"
  using assms
proof (induction lib cert_file key_file socks st arbitrary: ok socks' st' rule: server_loadCertificates.induct)
  case (3 lib cert_file key_file s socks st)
  from 3(2) obtain v s1 st1 where l: "loadCertificates lib cert_file key_file s st = Inr (v, s1, st1)"
    by (auto simp: bindr_eq_Inr)
  have "m_ctx s1 \<noteq> None" "base s1 = base s" using loadCertificates_context [OF l] by blast+
  then show ?case using 3 l by (cases v) (auto simp: bindr_eq_Inr)
qed (auto simp: bindr_eq_Inr)

end
